(* ===== verification/Prelude.thy ===== *)
theory Prelude
  imports Main
begin

text \<open>
  Shared vocabulary of the development: the names of the model's basic types, the
  collections of rewrite rules the component proofs use, the values a document field can
  have in the database, JavaScript truthiness of optional values, and generic lemmas on
  lists and options.

  \<^item> an ObjectId is a \<open>nat\<close>: the program only compares ids for equality and, in the
    cursor of the coin history, by order;
  \<^item> a \<open>Date\<close> is the number of milliseconds since the epoch, an \<open>int\<close>;
  \<^item> amounts of money are paise and amounts of coins are whole coins, both \<open>int\<close>:
    the program keeps every stored amount integral, and the few places that compute with
    fractions go through the theory Js_Number.
\<close>

section \<open>Types\<close>

type_synonym oid = nat
type_synonym date = int
type_synonym paise = int
type_synonym coins = int
type_synonym day_key = string

named_theorems repo_simps \<open>behaviour of the repository operations\<close>
named_theorems key_pres \<open>updates that leave an index key alone\<close>
named_theorems handler_defs \<open>bodies of the service operations\<close>

section \<open>Optional document fields\<close>

text \<open>
  A field of a stored document can be absent, can hold the BSON value null or can hold a
  value. Reading it in TypeScript gives a falsy value in the first two cases, but the
  operators of an aggregation pipeline tell an absent field from null.
\<close>

datatype 'a bson = Missing | Null | Val 'a

fun js_read :: "'a bson \<Rightarrow> 'a option" where
  "js_read Missing = None"
| "js_read Null = None"
| "js_read (Val x) = Some x"

definition bson_of :: "'a option \<Rightarrow> 'a bson" where
  "bson_of v = (case v of None \<Rightarrow> Missing | Some x \<Rightarrow> Val x)"

lemma js_read_bson_of [simp]: "js_read (bson_of v) = v"
  by (cases v) (simp_all add: bson_of_def)

lemma js_read_eq_Some [simp]: "js_read b = Some x \<longleftrightarrow> b = Val x"
  by (cases b) auto

text \<open>A number read as a condition: \<open>undefined\<close> and 0 are falsy. A string: the empty one.\<close>

fun truthy_num :: "int option \<Rightarrow> bool" where
  "truthy_num None = False"
| "truthy_num (Some n) = (n \<noteq> 0)"

fun truthy_str :: "string option \<Rightarrow> bool" where
  "truthy_str None = False"
| "truthy_str (Some s) = (s \<noteq> [])"

definition or_default :: "'a option \<Rightarrow> 'a \<Rightarrow> 'a" where
  "or_default v d = (case v of None \<Rightarrow> d | Some x \<Rightarrow> x)"

lemma or_default_simps [simp]: "or_default None d = d" "or_default (Some x) d = x"
  by (simp_all add: or_default_def)

section \<open>Lists\<close>

lemma find_append:
  "List.find P (xs @ ys) = (case List.find P xs of None \<Rightarrow> List.find P ys | Some x \<Rightarrow> Some x)"
  by (induction xs) auto

lemma find_SomeD: "List.find P xs = Some x \<Longrightarrow> P x \<and> x \<in> set xs"
  by (induction xs) (auto split: if_splits)

lemma find_NoneD: "List.find P xs = None \<Longrightarrow> x \<in> set xs \<Longrightarrow> \<not> P x"
  by (induction xs) (auto split: if_splits)

lemma find_None_filter: "List.find P xs = None \<longleftrightarrow> filter P xs = []"
  by (induction xs) auto

lemma distinct_map_eq: "distinct (map f xs) \<Longrightarrow> x \<in> set xs \<Longrightarrow> y \<in> set xs \<Longrightarrow> f x = f y \<Longrightarrow> x = y"
  by (auto simp: distinct_map inj_on_def)

lemma find_unique:
  assumes "distinct (map f xs)" and "x \<in> set xs"
  shows "List.find (\<lambda>y. f y = f x) xs = Some x"
  using assms by (induction xs) (auto simp: image_iff split: if_splits)

lemma sum_list_map_filter_append:
  fixes f :: "'a \<Rightarrow> int"
  shows "sum_list (map f (filter P (xs @ [x]))) =
    sum_list (map f (filter P xs)) + (if P x then f x else 0)"
  by simp

end
