(* ===== verification/App_Errors.thy ===== *)
theory App_Errors
  imports Prelude
begin

text \<open>
  The error values of the services (src/shared/errors): the AppError hierarchy with the
  code and HTTP status of each class, and the envelope the global error handler renders.
  The human-readable message of an error is not modelled, nor its details.
  A service operation returns \<open>app_error + 'a\<close>: a throw is \<open>Inl\<close>.
\<close>

datatype app_error =
    ValidationError
  | BadRequestError string
  | UnauthorizedError
  | PaymentRequiredError string
  | ForbiddenError string
  | NotFoundError
  | ConflictError string
  | UnprocessableError string
  | RateLimitedError
  | GeoBlockedError
  | KycRequiredError
  | InternalError string

fun httpStatus :: "app_error \<Rightarrow> int" where
  "httpStatus ValidationError = 400"
| "httpStatus (BadRequestError _) = 400"
| "httpStatus UnauthorizedError = 401"
| "httpStatus (PaymentRequiredError _) = 402"
| "httpStatus (ForbiddenError _) = 403"
| "httpStatus NotFoundError = 404"
| "httpStatus (ConflictError _) = 409"
| "httpStatus (UnprocessableError _) = 422"
| "httpStatus RateLimitedError = 429"
| "httpStatus GeoBlockedError = 451"
| "httpStatus KycRequiredError = 451"
| "httpStatus (InternalError _) = 500"

fun errorCode :: "app_error \<Rightarrow> string" where
  "errorCode ValidationError = ''VALIDATION_FAILED''"
| "errorCode (BadRequestError c) = c"
| "errorCode UnauthorizedError = ''UNAUTHORIZED''"
| "errorCode (PaymentRequiredError c) = c"
| "errorCode (ForbiddenError c) = c"
| "errorCode NotFoundError = ''NOT_FOUND''"
| "errorCode (ConflictError c) = c"
| "errorCode (UnprocessableError c) = c"
| "errorCode RateLimitedError = ''RATE_LIMITED''"
| "errorCode GeoBlockedError = ''GEO_BLOCKED''"
| "errorCode KycRequiredError = ''KYC_REQUIRED''"
| "errorCode (InternalError c) = c"

text \<open>Anything that can be thrown, and the answer the error handler gives for it.\<close>

datatype thrown = AppErr app_error | ZodErr | OtherErr string

definition errorHandler :: "thrown \<Rightarrow> int \<times> string" where
  "errorHandler err =
     (let appErr = (case err of
          AppErr e \<Rightarrow> e
        | ZodErr \<Rightarrow> ValidationError
        | OtherErr _ \<Rightarrow> InternalError ''INTERNAL'')
      in (httpStatus appErr, errorCode appErr))"

end
