(* ===== verification/Repository.thy ===== *)
theory Repository
  imports Prelude
begin

text \<open>
  The data layer (src/shared/repositories). A collection is the list of its documents in
  insertion order; a query filter is a predicate on documents and an update document is a
  function on them. The operations of \<open>BaseRepository\<close> are given on such lists: a read
  returns the first match, a single-document update is atomic and touches the first match,
  an insert that collides with a document under a unique index fails with the duplicate-key
  error. Which document a filter with several matches selects is only fixed by insertion
  order here; the operations whose outcome depends on it say so.

  The second half is the interface the services rely on: a unique index.
  \<open>unique_index\<close> takes the relation an insert checks and the key it protects, and shows
  once what every collection with such an index can use.
\<close>

section \<open>BaseRepository\<close>

datatype repo_error = DuplicateKey

definition isDuplicateKeyError :: "repo_error + 'a \<Rightarrow> bool" where
  "isDuplicateKeyError r = (case r of Inl DuplicateKey \<Rightarrow> True | Inr _ \<Rightarrow> False)"

definition findOne :: "('a \<Rightarrow> bool) \<Rightarrow> 'a list \<Rightarrow> 'a option" where
  "findOne p xs = List.find p xs"

definition find_docs :: "('a \<Rightarrow> bool) \<Rightarrow> 'a list \<Rightarrow> 'a list" where
  "find_docs p xs = filter p xs"

definition count_docs :: "('a \<Rightarrow> bool) \<Rightarrow> 'a list \<Rightarrow> int" where
  "count_docs p xs = int (length (filter p xs))"

definition exists_doc :: "('a \<Rightarrow> bool) \<Rightarrow> 'a list \<Rightarrow> bool" where
  "exists_doc p xs = (findOne p xs \<noteq> None)"

definition create :: "('a \<Rightarrow> 'a \<Rightarrow> bool) \<Rightarrow> 'a \<Rightarrow> 'a list \<Rightarrow> repo_error + 'a list" where
  "create clash x xs = (if list_ex (clash x) xs then Inl DuplicateKey else Inr (xs @ [x]))"

fun update_first :: "('a \<Rightarrow> bool) \<Rightarrow> ('a \<Rightarrow> 'a) \<Rightarrow> 'a list \<Rightarrow> 'a list" where
  "update_first p f [] = []"
| "update_first p f (x # xs) = (if p x then f x # xs else x # update_first p f xs)"

text \<open>The returned document is the state after the update (\<open>new: true\<close>).\<close>

definition findOneAndUpdate :: "('a \<Rightarrow> bool) \<Rightarrow> ('a \<Rightarrow> 'a) \<Rightarrow> 'a list \<Rightarrow> 'a option \<times> 'a list" where
  "findOneAndUpdate p f xs = (map_option f (findOne p xs), update_first p f xs)"

text \<open>The update operations return the number of documents they changed.\<close>

definition updateOne :: "('a \<Rightarrow> bool) \<Rightarrow> ('a \<Rightarrow> 'a) \<Rightarrow> 'a list \<Rightarrow> int \<times> 'a list" where
  "updateOne p f xs =
     (case findOne p xs of None \<Rightarrow> 0 | Some x \<Rightarrow> (if f x = x then 0 else 1), update_first p f xs)"

definition updateMany :: "('a \<Rightarrow> bool) \<Rightarrow> ('a \<Rightarrow> 'a) \<Rightarrow> 'a list \<Rightarrow> int \<times> 'a list" where
  "updateMany p f xs =
     (int (length (filter (\<lambda>x. p x \<and> f x \<noteq> x) xs)), map (\<lambda>x. if p x then f x else x) xs)"

fun deleteOne :: "('a \<Rightarrow> bool) \<Rightarrow> 'a list \<Rightarrow> 'a list" where
  "deleteOne p [] = []"
| "deleteOne p (x # xs) = (if p x then xs else x # deleteOne p xs)"

definition deleteMany :: "('a \<Rightarrow> bool) \<Rightarrow> 'a list \<Rightarrow> 'a list" where
  "deleteMany p xs = filter (\<lambda>x. \<not> p x) xs"

text \<open>
  An upsert whose update document is only \<open>$setOnInsert\<close>: the pre-image, if there is one,
  and the collection, which gains the seed only when nothing matched.
\<close>

definition upsertOnInsert :: "('a \<Rightarrow> bool) \<Rightarrow> 'a \<Rightarrow> 'a list \<Rightarrow> 'a option \<times> 'a list" where
  "upsertOnInsert p seed xs =
     (case findOne p xs of None \<Rightarrow> (None, xs @ [seed]) | Some y \<Rightarrow> (Some y, xs))"

text \<open>
  The idempotent insert of the vote and post-completion repositories: a duplicate key is
  turned into null.
\<close>

definition insertIfAbsent :: "('a \<Rightarrow> 'a \<Rightarrow> bool) \<Rightarrow> 'a \<Rightarrow> 'a list \<Rightarrow> 'a list option" where
  "insertIfAbsent clash data xs =
     (case create clash data xs of Inl _ \<Rightarrow> None | Inr ys \<Rightarrow> Some ys)"

section \<open>Laws of the operations\<close>

lemmas repo_defs = findOne_def find_docs_def count_docs_def create_def findOneAndUpdate_def
  updateOne_def updateMany_def deleteMany_def upsertOnInsert_def exists_doc_def

lemma findOne_SomeD: "findOne p xs = Some x \<Longrightarrow> p x \<and> x \<in> set xs"
  by (simp add: findOne_def find_SomeD)

lemma findOne_NoneD: "findOne p xs = None \<Longrightarrow> x \<in> set xs \<Longrightarrow> \<not> p x"
  unfolding findOne_def by (rule find_NoneD)

lemma findOne_None_iff: "findOne p xs = None \<longleftrightarrow> (\<forall>x \<in> set xs. \<not> p x)"
  by (auto simp: findOne_def find_None_iff)

lemma findOne_cong: "(\<And>x. x \<in> set xs \<Longrightarrow> p x = q x) \<Longrightarrow> findOne p xs = findOne q xs"
  unfolding findOne_def by (induction xs) auto

lemma update_first_None [repo_simps]: "findOne p xs = None \<Longrightarrow> update_first p f xs = xs"
  unfolding findOne_def by (induction xs) (auto split: if_splits)

lemma update_first_append [repo_simps]:
  "update_first p f (xs @ ys) =
     (if findOne p xs = None then xs @ update_first p f ys else update_first p f xs @ ys)"
  unfolding findOne_def by (induction xs) auto

lemma length_update_first [simp]: "length (update_first p f xs) = length xs"
  by (induction xs) auto

lemma map_update_first: "(\<And>x. p x \<Longrightarrow> g (f x) = g x) \<Longrightarrow> map g (update_first p f xs) = map g xs"
  by (induction xs) auto

lemma in_update_firstE:
  assumes "y \<in> set (update_first p f xs)"
  obtains "y \<in> set xs" | x where "findOne p xs = Some x" "y = f x"
  using assms unfolding findOne_def by (induction xs) (auto split: if_splits)

lemma update_first_split:
  assumes "findOne p xs = Some x"
  obtains ys zs where "xs = ys @ x # zs" "update_first p f xs = ys @ f x # zs" "\<forall>y \<in> set ys. \<not> p y"
  using assms unfolding findOne_def
proof (induction xs arbitrary: thesis)
  case (Cons a xs)
  show ?case
  proof (cases "p a")
    case True
    then show ?thesis using Cons.prems by (intro Cons.prems(1) [of "[]" xs]) auto
  next
    case False
    with Cons.prems(2) have "List.find p xs = Some x" by simp
    from Cons.IH [OF _ this] obtain ys zs
      where "xs = ys @ x # zs" "update_first p f xs = ys @ f x # zs" "\<forall>y \<in> set ys. \<not> p y"
      by blast
    with False show ?thesis by (intro Cons.prems(1) [of "a # ys" zs]) auto
  qed
qed simp

text \<open>Updating the one document with a given key, when keys are distinct.\<close>

lemma update_first_keyed:
  assumes "distinct (map k xs)"
  shows "update_first (\<lambda>x. k x = c \<and> p x) f xs = map (\<lambda>x. if k x = c \<and> p x then f x else x) xs"
  using assms
proof (induction xs)
  case (Cons a xs)
  show ?case
  proof (cases "k a = c \<and> p a")
    case True
    then have "x \<in> set xs \<Longrightarrow> \<not> (k x = c \<and> p x)" for x
      using Cons.prems by (force simp: image_iff)
    then show ?thesis using True by (auto intro!: map_idI [symmetric])
  next
    case False
    then show ?thesis using Cons by auto
  qed
qed simp

lemma update_first_key:
  "distinct (map k xs) \<Longrightarrow> update_first (\<lambda>x. k x = c) f xs = map (\<lambda>x. if k x = c then f x else x) xs"
  using update_first_keyed [of k xs c "\<lambda>_. True" f] by simp

lemma findOne_keyed:
  assumes "distinct (map k xs)" and "x \<in> set xs" and "p x"
  shows "findOne (\<lambda>y. k y = k x \<and> p y) xs = Some x"
  using assms unfolding findOne_def by (induction xs) (auto simp: image_iff)

lemma findOne_key: "distinct (map k xs) \<Longrightarrow> x \<in> set xs \<Longrightarrow> findOne (\<lambda>y. k y = k x) xs = Some x"
  using findOne_keyed [of k xs x "\<lambda>_. True"] by simp

section \<open>Unique indexes\<close>

text \<open>
  The key of a document under a unique index; \<open>None\<close> for a document a sparse or partial
  index leaves out.
\<close>

definition keys_of :: "('a \<Rightarrow> 'k option) \<Rightarrow> 'a list \<Rightarrow> 'k list" where
  "keys_of key xs = List.map_filter key xs"

definition unique_on :: "('a \<Rightarrow> 'k option) \<Rightarrow> 'a list \<Rightarrow> bool" where
  "unique_on key xs \<longleftrightarrow> distinct (keys_of key xs)"

lemma keys_of_simps [simp]:
  "keys_of key [] = []"
  "keys_of key (x # xs) = (case key x of None \<Rightarrow> keys_of key xs | Some k \<Rightarrow> k # keys_of key xs)"
  "keys_of key (xs @ ys) = keys_of key xs @ keys_of key ys"
  by (simp_all add: keys_of_def List.map_filter_def split: option.splits)

lemma set_keys_of: "set (keys_of key xs) = {k. \<exists>x \<in> set xs. key x = Some k}"
  by (induction xs) (auto split: option.splits)

lemma unique_onD:
  "unique_on key xs \<Longrightarrow> x \<in> set xs \<Longrightarrow> y \<in> set xs \<Longrightarrow> key x = Some k \<Longrightarrow> key y = Some k \<Longrightarrow> x = y"
  unfolding unique_on_def
  by (induction xs) (auto simp: set_keys_of split: option.splits)

lemma keys_of_update_first:
  "(\<And>x. p x \<Longrightarrow> key (f x) = key x) \<Longrightarrow> keys_of key (update_first p f xs) = keys_of key xs"
  by (induction xs) (auto split: option.splits)

lemma unique_on_update_new:
  assumes "unique_on key xs" and "\<forall>x \<in> set xs. key x \<noteq> Some k" and "\<And>x. key (f x) = Some k"
  shows "unique_on key (update_first p f xs)"
proof (cases "findOne p xs")
  case (Some x)
  then obtain ys zs where "xs = ys @ x # zs" "update_first p f xs = ys @ f x # zs"
    using update_first_split by metis
  then show ?thesis using assms by (auto simp: unique_on_def set_keys_of split: option.splits)
qed (simp add: update_first_None assms(1))

lemma updated_in_set: "findOne p xs = Some x \<Longrightarrow> f x \<in> set (update_first p f xs)"
  unfolding findOne_def by (induction xs) (auto split: if_splits)

lemma findOne_update_first:
  assumes "\<And>x. p x \<Longrightarrow> p (f x)"
  shows "findOne p (update_first p f xs) = map_option f (findOne p xs)"
  using assms unfolding findOne_def by (induction xs) auto

lemma keys_of_map: "(\<And>x. key (f x) = key x) \<Longrightarrow> keys_of key (map f xs) = keys_of key xs"
  by (induction xs) (auto split: option.splits)

lemma unique_on_filter: "unique_on key xs \<Longrightarrow> unique_on key (filter P xs)"
  unfolding unique_on_def by (induction xs) (auto simp: set_keys_of split: option.splits)

lemma count_distinct_le: "distinct ks \<Longrightarrow> count_list ks k \<le> 1"
  by (induction ks) auto

text \<open>
  What a collection with a unique index promises its clients. \<open>clash\<close> is the collision an
  insert is checked for; the law says that it covers the key.
\<close>

locale unique_index =
  fixes clash :: "'a \<Rightarrow> 'a \<Rightarrow> bool" and key :: "'a \<Rightarrow> 'k option"
  assumes clash_key: "key x = Some k \<Longrightarrow> key y = Some k \<Longrightarrow> clash x y"
begin

lemma create_unique:
  assumes "unique_on key xs" and "create clash x xs = Inr ys"
  shows "unique_on key ys"
proof -
  from assms(2) have ys: "ys = xs @ [x]" and new: "\<not> list_ex (clash x) xs"
    by (simp_all add: create_def split: if_splits)
  show ?thesis
  proof (cases "key x")
    case None
    then show ?thesis using assms(1) by (simp add: ys unique_on_def)
  next
    case (Some k)
    then have "k \<notin> set (keys_of key xs)"
      using new clash_key [OF Some] by (auto simp: set_keys_of list_ex_iff)
    then show ?thesis using assms(1) Some by (simp add: ys unique_on_def)
  qed
qed

lemma create_taken:
  assumes "y \<in> set xs" and "key y = key x" and "key x \<noteq> None"
  shows "create clash x xs = Inl DuplicateKey"
  using assms clash_key by (force simp: create_def list_ex_iff)

lemma update_unique:
  "(\<And>x. p x \<Longrightarrow> key (f x) = key x) \<Longrightarrow> unique_on key (update_first p f xs) = unique_on key xs"
  by (simp add: unique_on_def keys_of_update_first)

lemma updateMany_unique:
  "(\<And>x. p x \<Longrightarrow> key (f x) = key x) \<Longrightarrow> unique_on key (snd (updateMany p f xs)) = unique_on key xs"
  unfolding unique_on_def updateMany_def by (subst snd_conv, subst keys_of_map) auto

lemma upsert_unique:
  assumes "unique_on key xs" and "\<And>x. key x = key seed \<Longrightarrow> p x"
  shows "unique_on key (snd (upsertOnInsert p seed xs))"
proof (cases "findOne p xs")
  case None
  then have "key seed \<noteq> None \<Longrightarrow> \<exists>k. key seed = Some k \<and> k \<notin> set (keys_of key xs)"
    using assms(2) by (fastforce simp: set_keys_of findOne_None_iff)
  then show ?thesis using None assms(1)
    by (cases "key seed") (auto simp: upsertOnInsert_def unique_on_def)
qed (simp add: upsertOnInsert_def assms(1))

lemma at_most_one:
  assumes "unique_on key xs" and "key x = Some k"
  shows "length (filter (\<lambda>y. key y = Some k) xs) \<le> 1"
proof -
  have "length (filter (\<lambda>y. key y = Some k) xs) = count_list (keys_of key xs) k"
    by (induction xs) (auto split: option.splits)
  also have "\<dots> \<le> 1"
    using assms(1) unfolding unique_on_def by (rule count_distinct_le)
  finally show ?thesis .
qed

end

end
