(* ===== verification/Models.thy ===== *)
theory Models
  imports Repository
begin

text \<open>
  The documents of the program (src/shared/models) and the state of its database. One record
  per collection with the fields of the model's \<open>Attrs\<close> interface, an optional field as
  an \<open>option\<close>, an enumeration as a datatype. Left out are \<open>updatedAt\<close>, which no code
  reads, and the untyped metadata (\<open>notes\<close>, feature flags other than the one the code
  reads). A unique index of a schema is the relation \<open>..._clash\<close> an insert is checked for.
\<close>

section \<open>Tiers and subscription entries\<close>

datatype tier = PUBLIC | PRO | PRO_MAX

definition TIER_VALUES :: "tier list" where
  "TIER_VALUES = [PUBLIC, PRO, PRO_MAX]"

definition SUBSCRIBABLE_TIER_VALUES :: "tier list" where
  "SUBSCRIBABLE_TIER_VALUES = [PRO, PRO_MAX]"

datatype entry_status = E_ACTIVE | E_CANCELLED | E_EXPIRED

record sub_entry =
  en_tier :: tier
  en_status :: entry_status
  en_expiresAt :: "date bson"
  en_subscriptionId :: "oid option"

section \<open>Users\<close>

datatype kyc_status = K_NONE | K_PENDING | K_VERIFIED | K_REJECTED

record user_kyc =
  kyc_status :: kyc_status
  kyc_panCt :: "string option"
  kyc_panIv :: "string option"
  kyc_panTag :: "string option"
  kyc_panDekEnc :: "string option"
  kyc_panLast4 :: "string option"
  kyc_verifiedAt :: "date option"

record user_blocked =
  bl_isBlocked :: bool
  bl_reason :: "string option"
  bl_at :: "date option"
  bl_by :: "oid option"

record erasure_hold =
  eh_active :: bool
  eh_reason :: "string option"
  eh_by :: "oid option"
  eh_at :: "date option"

record social_links =
  sl_youtube :: "string option"
  sl_facebook :: "string option"
  sl_instagram :: "string option"

record user =
  u_id :: oid
  u_createdAt :: date
  u_phone :: string
  u_dob :: date
  u_declaredState :: string
  u_email :: "string option"
  u_displayName :: "string option"
  u_avatarUrl :: "string option"
  u_socialLinks :: "social_links option"
  u_coinBalance :: coins
  u_totalCoinsEarned :: coins
  u_totalVotesCast :: int
  u_signupBonusGranted :: bool
  u_geoBlocked :: bool
  u_ageVerified :: bool
  u_tokenVersion :: int
  u_kyc :: user_kyc
  u_blocked :: user_blocked
  u_lastVoteDate :: "day_key option"
  u_subscriptions :: "sub_entry list"
  u_primaryDeviceFingerprint :: "string option"
  u_lastLoginIp :: "string option"
  u_lastLoginAt :: "date option"
  u_referredBy :: "oid option"
  u_referralCode :: "string option"
  u_consentVersion :: "string option"
  u_consentAcceptedAt :: "date option"
  u_privacyPolicyVersion :: "string option"
  u_deletedAt :: "date option"
  u_anonymizedAt :: "date option"
  u_erasureHold :: "erasure_hold option"

definition user_clash :: "user \<Rightarrow> user \<Rightarrow> bool" where
  "user_clash x y \<longleftrightarrow> u_id x = u_id y \<or> u_phone x = u_phone y \<or>
     (u_email x \<noteq> None \<and> u_email x = u_email y) \<or>
     (u_referralCode x \<noteq> None \<and> u_referralCode x = u_referralCode y)"

section \<open>Coins, votes and posts\<close>

datatype coin_tx_type = SIGNUP_BONUS | POST_REWARD | VOTE_SPEND | ADMIN_CREDIT | ADMIN_DEBIT | REFUND

datatype ref_kind = Ref_Post | Ref_Vote | Ref_Admin | Ref_System

record coin_tx =
  ct_id :: oid
  ct_createdAt :: date
  ct_userId :: oid
  ct_type :: coin_tx_type
  ct_amount :: coins
  ct_balanceAfter :: coins
  ct_reference :: "(ref_kind \<times> oid option) option"
  ct_note :: "string option"
  ct_reason :: "string option"

record vote =
  v_id :: oid
  v_createdAt :: date
  v_userId :: oid
  v_dayKey :: day_key
  v_tier :: tier
  v_target :: string
  v_coinsSpent :: coins
  v_ipAddress :: "string option"
  v_device :: "string option"

definition vote_clash :: "vote \<Rightarrow> vote \<Rightarrow> bool" where
  "vote_clash x y \<longleftrightarrow> v_userId x = v_userId y \<and> v_tier x = v_tier y \<and> v_dayKey x = v_dayKey y"

datatype post_status = P_DRAFT | P_SCHEDULED | P_LIVE | P_CLOSED

record post_ads =
  ads_topBannerKey :: "string option"
  ads_bottomBannerKey :: "string option"

record post =
  p_id :: oid
  p_createdAt :: date
  p_title :: string
  p_description :: "string option"
  p_dayKey :: day_key
  p_scheduledAt :: date
  p_status :: post_status
  p_coinReward :: coins
  p_tier :: tier
  p_adsConfig :: "post_ads option"
  p_createdBy :: oid
  p_publishedAt :: "date option"
  p_closedAt :: "date option"

record post_completion =
  pc_id :: oid
  pc_userId :: oid
  pc_postId :: oid
  pc_dayKey :: day_key
  pc_completedAt :: date
  pc_coinAwarded :: "coins option"
  pc_coinTxId :: "oid option"

definition completion_clash :: "post_completion \<Rightarrow> post_completion \<Rightarrow> bool" where
  "completion_clash x y \<longleftrightarrow> pc_userId x = pc_userId y \<and> pc_postId x = pc_postId y"

section \<open>Prize pools, winners, donations, configuration\<close>

datatype pool_status = PP_CALCULATED | PP_PUBLISHED | PP_CLOSED

record prize_pool =
  pp_id :: oid
  pp_createdAt :: date
  pp_tier :: tier
  pp_dayKey :: day_key
  pp_yesterdayVoteCount :: int
  pp_baseRate :: paise
  pp_totalPool :: paise
  pp_giftCodeBudget :: "paise option"
  pp_customRoomBudget :: "paise option"
  pp_proMultiplier :: int
  pp_proMaxMultiplier :: int
  pp_status :: pool_status
  pp_calculatedAt :: "date option"
  pp_publishedAt :: "date option"
  pp_closedAt :: "date option"

definition pool_clash :: "prize_pool \<Rightarrow> prize_pool \<Rightarrow> bool" where
  "pool_clash x y \<longleftrightarrow> pp_tier x = pp_tier y \<and> pp_dayKey x = pp_dayKey y"

datatype prize_type = GIFT_CODE | CUSTOM_ROOM

datatype payout_status = W_PENDING | W_RELEASED | W_WITHHELD | W_VOID

record prize_winner =
  w_id :: oid
  w_createdAt :: date
  w_dayKey :: day_key
  w_userId :: oid
  w_type :: prize_type
  w_tier :: "tier option"
  w_baseAmount :: "paise option"
  w_multiplier :: int
  w_finalAmount :: "paise option"
  w_redeemCodeId :: "oid option"
  w_customRoomId :: "oid option"
  w_tdsDeducted :: paise
  w_tdsChallanNo :: "string option"
  w_form16aIssuedAt :: "date option"
  w_panAtPayout :: "string option"
  w_payoutStatus :: payout_status
  w_releasedAt :: "date option"

datatype donation_status = D_CREATED | D_CAPTURED | D_FAILED | D_REFUNDED

record donation =
  d_id :: oid
  d_createdAt :: date
  d_userId :: "oid option"
  d_displayName :: "string option"
  d_isAnonymous :: bool
  d_amount :: paise
  d_razorpayOrderId :: string
  d_razorpayPaymentId :: "string option"
  d_status :: donation_status
  d_message :: "string option"
  d_socialLinks :: "social_links option"
  d_capturedAt :: "date option"
  d_ipAddress :: "string option"
  d_featured :: bool \<comment> \<open>\<open>notes.featured\<close>\<close>

definition donation_clash :: "donation \<Rightarrow> donation \<Rightarrow> bool" where
  "donation_clash x y \<longleftrightarrow> d_razorpayOrderId x = d_razorpayOrderId y"

record top_donor =
  td_rank :: int
  td_userId :: "oid option"
  td_displayName :: "string option"
  td_avatarUrl :: "string option"
  td_socialLinks :: "social_links option"
  td_totalDonated :: paise
  td_donationCount :: "int option"
  td_computedAt :: date

record app_config =
  cfg_key :: string
  cfg_baseRatePerVote :: paise
  cfg_signupBonusCoins :: coins
  cfg_coinsPerPost :: coins
  cfg_coinsPerVote :: coins
  cfg_giftCodeDenomination :: paise
  cfg_proMultiplier :: int
  cfg_proMaxMultiplier :: int
  cfg_voteWindowStart :: string
  cfg_voteWindowEnd :: string
  cfg_blockedStates :: "string list"
  cfg_kycThresholdAmount :: paise
  cfg_ageMin :: int
  cfg_maintenanceMode :: bool
  cfg_tournaments :: bool
  cfg_planIdPro :: "string option"
  cfg_planIdProMax :: "string option"
  cfg_adminIpAllowlist :: "string list"

section \<open>Redeem codes\<close>

datatype code_status = RC_AVAILABLE | RC_PUBLISHED | RC_COPIED | RC_CLAIMED | RC_EXPIRED | RC_VOID

record redeem_code =
  rc_id :: oid
  rc_createdAt :: date
  rc_batchId :: oid
  rc_denomination :: paise
  rc_tier :: tier
  rc_codeCt :: string
  rc_codeIv :: "string option"
  rc_codeTag :: "string option"
  rc_codeDekEnc :: "string option"
  rc_codeHash :: string
  rc_status :: code_status
  rc_postId :: "oid option"
  rc_publishedAt :: "date option"
  rc_firstCopiedBy :: "oid option"
  rc_firstCopiedAt :: "date option"
  rc_copyCount :: int
  rc_claimedBy :: "oid option"
  rc_claimedAt :: "date option"
  rc_voidedReason :: "string option"

definition code_clash :: "redeem_code \<Rightarrow> redeem_code \<Rightarrow> bool" where
  "code_clash x y \<longleftrightarrow> rc_codeHash x = rc_codeHash y"

datatype batch_status = B_STAGED | B_LIVE | B_EXHAUSTED

record code_batch =
  b_id :: oid
  b_createdAt :: date
  b_uploadedBy :: oid
  b_supplierName :: string
  b_supplierInvoiceNumber :: "string option"
  b_supplierInvoiceUrl :: "string option"
  b_denomination :: paise
  b_count :: int
  b_totalValue :: "paise option"
  b_notes :: "string option"
  b_status :: batch_status

section \<open>Subscriptions, payments, webhook events, counters\<close>

datatype sub_status = S_CREATED | S_AUTHENTICATED | S_ACTIVE | S_PENDING | S_HALTED
  | S_CANCELLED | S_COMPLETED | S_PAUSED

datatype billing_cycle = MONTHLY | YEARLY

record subscription =
  s_id :: oid
  s_createdAt :: date
  s_userId :: oid
  s_tier :: tier
  s_razorpaySubscriptionId :: string
  s_razorpayPlanId :: string
  s_status :: sub_status
  s_billingCycle :: billing_cycle
  s_totalCount :: "int option"
  s_paidCount :: int
  s_remainingCount :: "int option"
  s_baseAmount :: "paise option"
  s_gstAmount :: "paise option"
  s_totalAmount :: "paise option"
  s_currentStart :: "date option"
  s_currentEnd :: "date option"
  s_chargeAt :: "date option"
  s_autoRenew :: bool
  s_cancelledAt :: "date option"
  s_cancelReason :: "string option"

definition subscription_clash :: "subscription \<Rightarrow> subscription \<Rightarrow> bool" where
  "subscription_clash x y \<longleftrightarrow> s_razorpaySubscriptionId x = s_razorpaySubscriptionId y"

datatype payment_status = SP_CAPTURED | SP_FAILED | SP_REFUNDED | SP_PARTIAL_REFUND

record sub_payment =
  sp_id :: oid
  sp_createdAt :: date
  sp_subscriptionId :: oid
  sp_userId :: oid
  sp_razorpayPaymentId :: string
  sp_razorpayOrderId :: "string option"
  sp_razorpayInvoiceId :: "string option"
  sp_amount :: "paise option"
  sp_baseAmount :: "paise option"
  sp_gstAmount :: "paise option"
  sp_cgst :: "paise option"
  sp_sgst :: "paise option"
  sp_igst :: "paise option"
  sp_placeOfSupply :: "string option"
  sp_sacCode :: string
  sp_merchantGstin :: "string option"
  sp_customerGstin :: "string option"
  sp_invoiceNumber :: "string option"
  sp_invoicePdfUrl :: "string option"
  sp_method :: "string option"
  sp_status :: "payment_status option"
  sp_capturedAt :: "date option"
  sp_refundedAt :: "date option"
  sp_refundAmount :: "paise option"

definition payment_clash :: "sub_payment \<Rightarrow> sub_payment \<Rightarrow> bool" where
  "payment_clash x y \<longleftrightarrow> sp_razorpayPaymentId x = sp_razorpayPaymentId y \<or>
     (sp_invoiceNumber x \<noteq> None \<and> sp_invoiceNumber x = sp_invoiceNumber y)"

record counter_doc =
  cn_key :: string
  cn_value :: int

definition counter_clash :: "counter_doc \<Rightarrow> counter_doc \<Rightarrow> bool" where
  "counter_clash x y \<longleftrightarrow> cn_key x = cn_key y"

section \<open>Custom rooms\<close>

datatype game = BGMI | FF

datatype room_status = R_SCHEDULED | R_LIVE | R_COMPLETED | R_CANCELLED

text \<open>An encrypted field: ciphertext, nonce, tag and the wrapped data key.\<close>

record enc_field =
  ef_ct :: string
  ef_iv :: string
  ef_tag :: string
  ef_dekEnc :: string

record custom_room =
  cr_id :: oid
  cr_createdAt :: date
  cr_game :: game
  cr_dayKey :: day_key
  cr_scheduledAt :: date
  cr_roomIdCt :: "string option"
  cr_roomIdIv :: "string option"
  cr_roomIdTag :: "string option"
  cr_roomIdDekEnc :: "string option"
  cr_roomPwdCt :: "string option"
  cr_roomPwdIv :: "string option"
  cr_roomPwdTag :: "string option"
  cr_roomPwdDekEnc :: "string option"
  cr_visibleFromAt :: "date option"
  cr_resultEnabledAt :: "date option"
  cr_status :: room_status
  cr_pageNumber :: "int option"
  cr_notice :: "string option"
  cr_tier :: tier
  cr_participantCount :: int
  cr_registeredParticipants :: "oid list"
  cr_createdBy :: oid

record result_bucket =
  rb_imageUrl :: "string option"
  rb_squadName :: "string option"
  rb_winners :: "(oid option \<times> paise option) list"

record room_result =
  rr_id :: oid
  rr_createdAt :: date
  rr_roomId :: oid
  rr_inRoomImageUrl :: "string option"
  rr_top1 :: "result_bucket option"
  rr_top2 :: "result_bucket option"
  rr_top3 :: "result_bucket option"
  rr_extra :: "result_bucket option"
  rr_publishedAt :: "date option"
  rr_visibleFromAt :: "date option"
  rr_publishedBy :: "oid option"

definition result_clash :: "room_result \<Rightarrow> room_result \<Rightarrow> bool" where
  "result_clash x y \<longleftrightarrow> rr_roomId x = rr_roomId y"

text \<open>Two partial unique indexes: per gift code for gift-code prizes, per room for room prizes.\<close>

definition winner_clash :: "prize_winner \<Rightarrow> prize_winner \<Rightarrow> bool" where
  "winner_clash x y \<longleftrightarrow>
     w_userId x = w_userId y \<and> w_dayKey x = w_dayKey y \<and> w_type x = w_type y \<and>
     (case w_type x of GIFT_CODE \<Rightarrow> w_redeemCodeId x = w_redeemCodeId y
      | CUSTOM_ROOM \<Rightarrow> w_customRoomId x = w_customRoomId y)"

section \<open>Razorpay payloads and webhook events\<close>

text \<open>\<open>notes.cancel_at_cycle_end\<close> is a number or a string.\<close>

datatype note_value = NumNote int | StrNote string

record sub_entity =
  se_id :: string
  se_current_start :: "int option"
  se_current_end :: "int option"
  se_paid_count :: "int option"
  se_remaining_count :: "int option"
  se_charge_at :: "int option"
  se_cancel_at_cycle_end :: "note_value option"

record pay_entity =
  pe_id :: string
  pe_order_id :: "string option"
  pe_invoice_id :: "string option"
  pe_amount :: paise
  pe_method :: "string option"

record refund_entity =
  re_id :: string
  re_payment_id :: string
  re_amount :: paise

datatype rzp_payload = CapturedPayload pay_entity | SubPayload sub_entity
  | ChargedPayload sub_entity pay_entity | RefundPayload refund_entity | OtherPayload

record rzp_event =
  ev_event :: string
  ev_payload :: rzp_payload

datatype event_status = WE_RECEIVED | WE_PROCESSING | WE_DONE | WE_FAILED

record webhook_event =
  we_eventId :: string
  we_eventType :: "string option"
  we_payload :: "rzp_event option"
  we_status :: event_status
  we_attempts :: int
  we_lastError :: "string option"
  we_receivedAt :: "date option"
  we_processedAt :: "date option"

definition webhook_clash :: "webhook_event \<Rightarrow> webhook_event \<Rightarrow> bool" where
  "webhook_clash x y \<longleftrightarrow> we_eventId x = we_eventId y"

section \<open>Effects\<close>

text \<open>
  What the services send elsewhere is logged in the state: coin events for the clients,
  jobs for the workers, calls to the payment provider.
\<close>

record coin_event =
  ce_userId :: oid
  ce_coinBalance :: coins
  ce_reason :: coin_tx_type

datatype rzp_call =
    RzpCreateOrder paise string
  | RzpCreateSubscription string oid
  | RzpCancelSubscription string bool
  | RzpRefund string "paise option"

section \<open>The database\<close>

record db =
  users :: "user list"
  coin_txs :: "coin_tx list"
  votes :: "vote list"
  posts :: "post list"
  post_completions :: "post_completion list"
  prize_pools :: "prize_pool list"
  prize_winners :: "prize_winner list"
  donations :: "donation list"
  top_donors :: "top_donor list"
  app_configs :: "app_config list"
  redeem_codes :: "redeem_code list"
  code_batches :: "code_batch list"
  subscriptions :: "subscription list"
  sub_payments :: "sub_payment list"
  counters :: "counter_doc list"
  custom_rooms :: "custom_room list"
  room_results :: "room_result list"
  webhook_events :: "webhook_event list"
  coin_events :: "coin_event list"
  invoice_queue :: "oid list"
  retry_queue :: "(string \<times> int) list"
  rzp_calls :: "rzp_call list"

definition empty_db :: db where
  "empty_db = \<lparr>users = [], coin_txs = [], votes = [], posts = [], post_completions = [],
     prize_pools = [], prize_winners = [], donations = [], top_donors = [], app_configs = [],
     redeem_codes = [], code_batches = [], subscriptions = [], sub_payments = [],
     counters = [], custom_rooms = [], room_results = [], webhook_events = [],
     coin_events = [], invoice_queue = [], retry_queue = [], rzp_calls = []\<rparr>"

text \<open>
  An operation against the database returns an answer or an error together with the next
  state. A transaction that throws leaves the state it started from
  (\<open>session.withTransaction\<close>).
\<close>

type_synonym 'a res = "'a \<times> db"

definition transaction :: "(db \<Rightarrow> ('e + 'a) \<times> db) \<Rightarrow> db \<Rightarrow> ('e + 'a) \<times> db" where
  "transaction body s = (case body s of (Inl e, s') \<Rightarrow> (Inl e, s) | (Inr x, s') \<Rightarrow> (Inr x, s'))"

lemma transaction_Inl: "transaction body s = (Inl e, s') \<Longrightarrow> s' = s"
  by (auto simp: transaction_def split: prod.splits sum.splits)

lemma transaction_Inr: "transaction body s = (Inr x, s') \<longleftrightarrow> body s = (Inr x, s')"
  by (auto simp: transaction_def split: prod.splits sum.splits)

section \<open>Index keys\<close>

definition vote_key :: "vote \<Rightarrow> (oid \<times> tier \<times> day_key) option" where
  "vote_key v = Some (v_userId v, v_tier v, v_dayKey v)"

definition completion_key :: "post_completion \<Rightarrow> (oid \<times> oid) option" where
  "completion_key c = Some (pc_userId c, pc_postId c)"

definition pool_key :: "prize_pool \<Rightarrow> (tier \<times> day_key) option" where
  "pool_key p = Some (pp_tier p, pp_dayKey p)"

definition winner_key :: "prize_winner \<Rightarrow> (oid \<times> day_key \<times> prize_type \<times> oid option) option" where
  "winner_key w = Some (w_userId w, w_dayKey w, w_type w,
     case w_type w of GIFT_CODE \<Rightarrow> w_redeemCodeId w | CUSTOM_ROOM \<Rightarrow> w_customRoomId w)"

definition event_key :: "webhook_event \<Rightarrow> string option" where
  "event_key e = Some (we_eventId e)"

definition payment_key :: "sub_payment \<Rightarrow> string option" where
  "payment_key p = Some (sp_razorpayPaymentId p)"

definition code_key :: "redeem_code \<Rightarrow> string option" where
  "code_key c = Some (rc_codeHash c)"

interpretation vote_index: unique_index vote_clash vote_key
  by unfold_locales (auto simp: vote_key_def vote_clash_def)

interpretation completion_index: unique_index completion_clash completion_key
  by unfold_locales (auto simp: completion_key_def completion_clash_def)

interpretation pool_index: unique_index pool_clash pool_key
  by unfold_locales (auto simp: pool_key_def pool_clash_def)

interpretation payment_index: unique_index payment_clash payment_key
  by unfold_locales (auto simp: payment_key_def payment_clash_def)

interpretation invoice_index: unique_index payment_clash sp_invoiceNumber
  by unfold_locales (auto simp: payment_clash_def)

interpretation code_index: unique_index code_clash code_key
  by unfold_locales (auto simp: code_key_def code_clash_def)

interpretation winner_index: unique_index winner_clash winner_key
  by unfold_locales (auto simp: winner_key_def winner_clash_def split: prize_type.splits)

interpretation webhook_index: unique_index webhook_clash event_key
  by unfold_locales (auto simp: event_key_def webhook_clash_def)

interpretation result_index: unique_index result_clash "\<lambda>r. Some (rr_roomId r)"
  by unfold_locales (auto simp: result_clash_def)

interpretation user_id_index: unique_index user_clash "\<lambda>u. Some (u_id u)"
  by unfold_locales (auto simp: user_clash_def)

interpretation phone_index: unique_index user_clash "\<lambda>u. Some (u_phone u)"
  by unfold_locales (auto simp: user_clash_def)

end
