(* ===== verification/Calendar.thy ===== *)
theory Calendar
  imports Models
begin

text \<open>
  The calendar of the program (src/shared/utils/date.ts, the financial-year key of
  src/shared/invoicing/gst.ts). Zoned time is the work of the dayjs package, which is a
  parameter: \<open>dayjs\<close> collects the functions of it the code calls, all in Indian Standard
  Time. \<open>gregorian_ist\<close> is one value of the parameter, the proleptic Gregorian calendar
  at UTC+05:30; the witnesses of the development evaluate with it.
\<close>

record dayjs =
  dj_year :: "date \<Rightarrow> int"
  dj_month :: "date \<Rightarrow> int" \<comment> \<open>0 is January\<close>
  dj_date :: "date \<Rightarrow> int"
  dj_format :: "date \<Rightarrow> day_key" \<comment> \<open>\<open>format('YYYY-MM-DD')\<close>\<close>
  dj_parse :: "int \<Rightarrow> int \<Rightarrow> int \<Rightarrow> int \<Rightarrow> date" \<comment> \<open>year, month from 1, day, millisecond of the day\<close>
  dj_dayStart :: "day_key \<Rightarrow> date" \<comment> \<open>start of the day with this key\<close>
  dj_dayEnd :: "day_key \<Rightarrow> date" \<comment> \<open>start of the day after\<close>
  dj_yesterday :: "date \<Rightarrow> day_key" \<comment> \<open>key of the day before\<close>

definition dayKeyIst :: "dayjs \<Rightarrow> date \<Rightarrow> day_key" where
  "dayKeyIst dj d = dj_format dj d"

definition ageInYearsIst :: "dayjs \<Rightarrow> date \<Rightarrow> date \<Rightarrow> int" where
  "ageInYearsIst dj today dob =
     (let age = dj_year dj today - dj_year dj dob;
          hasHadBirthdayThisYear =
            dj_month dj today > dj_month dj dob \<or>
            (dj_month dj today = dj_month dj dob \<and> dj_date dj today \<ge> dj_date dj dob)
      in if \<not> hasHadBirthdayThisYear then age - 1 else age)"

definition currentFyBoundsIst :: "dayjs \<Rightarrow> date \<Rightarrow> date \<times> date" where
  "currentFyBoundsIst dj now =
     (let month = dj_month dj now;
          year = dj_year dj now;
          fyStartCalendarYear = (if month \<ge> 3 then year else year - 1)
      in (dj_parse dj fyStartCalendarYear 4 1 0,
          dj_parse dj (fyStartCalendarYear + 1) 3 31 86399999))"

text \<open>\<open>String(n)\<close> for an integer.\<close>

fun dec_digits :: "nat \<Rightarrow> string" where
  "dec_digits n = (if n < 10 then [char_of (48 + n)] else dec_digits (n div 10) @ [char_of (48 + n mod 10)])"

declare dec_digits.simps [simp del]

definition js_String :: "int \<Rightarrow> string" where
  "js_String n = (if n < 0 then CHR ''-'' # dec_digits (nat (- n)) else dec_digits (nat n))"

definition currentFyIST :: "dayjs \<Rightarrow> date \<Rightarrow> string" where
  "currentFyIST dj now =
     (let year = dj_year dj now;
          month = dj_month dj now;
          fyStart = (if month \<ge> 3 then year else year - 1);
          fyEnd = fyStart + 1;
          tail = drop 2 (js_String fyEnd)
      in js_String fyStart @ ''-'' @ tail)"

section \<open>The Gregorian calendar in Indian Standard Time\<close>

text \<open>
  Days since the epoch and civil dates, counted in years that begin in March, so that the leap
  day is the last day of its year.
\<close>

definition civil_from_days :: "int \<Rightarrow> int \<times> int \<times> int" where
  "civil_from_days z =
     (let doe = (z + 719468) mod 146097;
          yoe = (doe - doe div 1460 + doe div 36524 - doe div 146096) div 365;
          doy = doe - (365 * yoe + yoe div 4 - yoe div 100);
          mp = (5 * doy + 2) div 153;
          m = (if mp < 10 then mp + 3 else mp - 9)
      in (yoe + (z + 719468) div 146097 * 400 + (if m \<le> 2 then 1 else 0), m,
          doy - (153 * mp + 2) div 5 + 1))"

definition days_from_civil :: "int \<Rightarrow> int \<Rightarrow> int \<Rightarrow> int" where
  "days_from_civil y m d =
     (let y' = (if m \<le> 2 then y - 1 else y);
          doy = (153 * (if m > 2 then m - 3 else m + 9) + 2) div 5 + d - 1
      in y' div 400 * 146097 + (y' mod 400 * 365 + y' mod 400 div 4 - y' mod 400 div 100 + doy) - 719468)"

definition IST_OFFSET_MS :: int where "IST_OFFSET_MS = 19800000"

definition MS_PER_DAY :: int where "MS_PER_DAY = 86400000"

definition ist_day :: "date \<Rightarrow> int" where
  "ist_day d = (d + IST_OFFSET_MS) div MS_PER_DAY"

definition pad2 :: "int \<Rightarrow> string" where
  "pad2 n = (if n < 10 then ''0'' @ js_String n else js_String n)"

definition day_string :: "int \<Rightarrow> day_key" where
  "day_string z = (case civil_from_days z of (y, m, d) \<Rightarrow> js_String y @ ''-'' @ pad2 m @ ''-'' @ pad2 d)"

definition parse_number :: "string \<Rightarrow> int" where
  "parse_number = foldl (\<lambda>n c. n * 10 + (of_char c - 48)) 0"

definition day_of_key :: "day_key \<Rightarrow> int" where
  "day_of_key k = days_from_civil (parse_number (take 4 k)) (parse_number (take 2 (drop 5 k))) (parse_number (take 2 (drop 8 k)))"

definition gregorian_ist :: dayjs where
  "gregorian_ist =
     \<lparr>dj_year = (\<lambda>d. fst (civil_from_days (ist_day d))),
      dj_month = (\<lambda>d. fst (snd (civil_from_days (ist_day d))) - 1),
      dj_date = (\<lambda>d. snd (snd (civil_from_days (ist_day d)))),
      dj_format = (\<lambda>d. day_string (ist_day d)),
      dj_parse = (\<lambda>y m d ms. days_from_civil y m d * MS_PER_DAY + ms - IST_OFFSET_MS),
      dj_dayStart = (\<lambda>k. day_of_key k * MS_PER_DAY - IST_OFFSET_MS),
      dj_dayEnd = (\<lambda>k. (day_of_key k + 1) * MS_PER_DAY - IST_OFFSET_MS),
      dj_yesterday = (\<lambda>d. day_string (ist_day d - 1))\<rparr>"

section \<open>Decimal strings are injective\<close>

lemma char_digit_inj: "a < 10 \<Longrightarrow> b < 10 \<Longrightarrow> (char_of (48 + a :: nat) :: char) = char_of (48 + b) \<longleftrightarrow> a = b"
proof -
  assume a: "a < 10" and b: "b < 10"
  have "(of_char (char_of (48 + a :: nat) :: char) :: nat) = 48 + a" "(of_char (char_of (48 + b :: nat) :: char) :: nat) = 48 + b"
    using a b by simp_all
  then show ?thesis by (metis add_left_cancel)
qed

lemma dec_digits_nonempty [simp]: "dec_digits n \<noteq> []"
  by (subst dec_digits.simps) simp

lemma dec_digits_inj: "dec_digits m = dec_digits n \<Longrightarrow> m = n"
proof (induction m arbitrary: n rule: dec_digits.induct)
  case (1 m)
  show ?case
  proof (cases "m < 10"; cases "n < 10")
    assume "m < 10" "n < 10"
    then show ?thesis using "1.prems" by (simp add: dec_digits.simps [of m] dec_digits.simps [of n] char_digit_inj)
  next
    assume "m < 10" "\<not> n < 10"
    then show ?thesis using "1.prems" dec_digits_nonempty [of "n div 10"]
      by (simp add: dec_digits.simps [of m] dec_digits.simps [of n] del: dec_digits_nonempty)
  next
    assume "\<not> m < 10" "n < 10"
    then show ?thesis using "1.prems" by (simp add: dec_digits.simps [of m] dec_digits.simps [of n])
  next
    assume mn: "\<not> m < 10" "\<not> n < 10"
    then have "dec_digits (m div 10) = dec_digits (n div 10)"
      "(char_of (48 + m mod 10) :: char) = char_of (48 + n mod 10)"
      using "1.prems" by (simp_all add: dec_digits.simps [of m] dec_digits.simps [of n])
    then have "m div 10 = n div 10" "m mod 10 = n mod 10"
      using "1.IH" mn(1) by (simp_all add: char_digit_inj)
    then show ?thesis by (metis div_mult_mod_eq)
  qed
qed

lemma dec_digits_hd: "0 < n \<Longrightarrow> hd (dec_digits n) \<noteq> CHR ''0''"
proof (induction n rule: dec_digits.induct)
  case (1 n)
  show ?case
  proof (cases "n < 10")
    case True
    have "(char_of (48 + n) :: char) \<noteq> char_of (48 + 0 :: nat)"
      using True "1.prems" by (subst char_digit_inj) simp_all
    moreover have "(char_of (48 :: nat) :: char) = CHR ''0''" by code_simp
    ultimately show ?thesis using True by (simp add: dec_digits.simps [of n])
  next
    case False
    then show ?thesis using "1.IH" by (simp add: dec_digits.simps [of n])
  qed
qed

end
