(* ===== verification/Paging.thy ===== *)
theory Paging
  imports Calendar
begin

text \<open>
  Reading a collection page by page with a keyset cursor, and the text of such a cursor:
  base64url, decimal numbers and the hexadecimal form of an ObjectId.
\<close>

section \<open>Walking the pages\<close>

text \<open>A client that follows the cursors of a listing until there is none, for at most \<open>n\<close> pages.\<close>

fun walk_pages :: "nat \<Rightarrow> ('c option \<Rightarrow> 'a list \<times> 'c option) \<Rightarrow> 'c option \<Rightarrow> 'a list option" where
  "walk_pages 0 page c = None"
| "walk_pages (Suc n) page c =
     (let (items, nextCursor) = page c
      in case nextCursor of None \<Rightarrow> Some items | Some c' \<Rightarrow> map_option (append items) (walk_pages n page (Some c')))"

lemma filter_after_nth:
  assumes "sorted_wrt (\<lambda>a b. k a < (k b :: 'k :: linorder)) L" and "n < length L"
  shows "filter (\<lambda>x. k (L ! n) < k x) L = drop (Suc n) L"
proof -
  have "L = take (Suc n) L @ drop (Suc n) L" by simp
  moreover have "k (L ! i) \<le> k (L ! n)" if "i < Suc n" for i
    using assms that by (cases "i = n") (simp_all add: sorted_wrt_iff_nth_less less_imp_le)
  then have "filter (\<lambda>x. k (L ! n) < k x) (take (Suc n) L) = []"
    using assms(2) by (auto simp: filter_empty_conv in_set_conv_nth not_less)
  moreover have "filter (\<lambda>x. k (L ! n) < k x) (drop (Suc n) L) = drop (Suc n) L"
    using assms by (auto simp: filter_id_conv in_set_conv_nth sorted_wrt_iff_nth_less)
  ultimately show ?thesis by (metis append_Nil filter_append)
qed

text \<open>
  A listing of the rows that match a query, in the order of a key that tells rows with
  different identities apart. A cursor stands for the last row of a page; with it exactly
  the rows after that row match.
\<close>

locale keyset =
  fixes key :: "'a \<Rightarrow> 'k :: linorder" and ident :: "'a \<Rightarrow> oid" and enc :: "'a \<Rightarrow> 'c"
    and matches :: "'q \<Rightarrow> 'c option \<Rightarrow> 'a \<Rightarrow> bool" and size :: "'l \<Rightarrow> nat"
    and page :: "'q \<Rightarrow> 'l \<Rightarrow> 'a list \<Rightarrow> 'c option \<Rightarrow> 'a list \<times> 'c option"
  assumes key_ident: "key x = key y \<Longrightarrow> ident x = ident y"
    and matches_after: "matches q (Some (enc y)) x \<longleftrightarrow> matches q None x \<and> key y < key x"
    and size_pos: "0 < size l"
    and page_eq: "page q l rows c =
      (let fetched = take (size l + 1) (sort_key key (filter (matches q c) rows))
       in if size l < length fetched then (take (size l) fetched, Some (enc (last (take (size l) fetched)))) else (fetched, None))"
begin

lemma sorted_strict:
  assumes "distinct (map ident rows)"
  shows "sorted_wrt (\<lambda>a b. key a < key b) (sort_key key (filter P rows))"
proof -
  let ?L = "sort_key key (filter P rows)"
  have "distinct (map ident (filter P rows))" using assms by (rule distinct_map_filter)
  then have "inj_on key (set (filter P rows))"
    by (meson distinct_map inj_onD inj_onI key_ident)
  moreover have "distinct ?L" using assms by (simp add: distinct_map)
  ultimately have "distinct (map key ?L)" by (simp add: distinct_map)
  moreover have "sorted (map key ?L)" by simp
  ultimately have "sorted_wrt (<) (map key ?L)" unfolding strict_sorted_iff by blast
  then show ?thesis by (simp add: sorted_wrt_map)
qed

lemma rows_after:
  assumes "distinct (map ident rows)" and L: "L = sort_key key (filter (matches q None) rows)" and n: "n < length L"
  shows "sort_key key (filter (matches q (Some (enc (L ! n)))) rows) = drop (Suc n) L"
proof -
  have "filter (matches q (Some (enc (L ! n)))) rows = filter (\<lambda>x. key (L ! n) < key x) (filter (matches q None) rows)"
    by (auto simp: matches_after intro!: filter_cong)
  then show ?thesis
    using filter_after_nth [of key L n] sorted_strict [OF assms(1)] n by (simp add: L flip: filter_sort)
qed

lemma page_drop:
  assumes "sort_key key (filter (matches q c) rows) = drop n L"
  shows "page q l rows c =
    (take (size l) (drop n L), if n + size l < length L then Some (enc (L ! (n + size l - 1))) else None)"
  using size_pos [of l] by (auto simp: page_eq assms Let_def min_def last_conv_nth)

lemma walk_drop:
  assumes ids: "distinct (map ident rows)" and L: "L = sort_key key (filter (matches q None) rows)"
  shows "sort_key key (filter (matches q c) rows) = drop n L \<Longrightarrow> length L - n < m \<Longrightarrow>
    walk_pages m (page q l rows) c = Some (drop n L)"
proof (induction m arbitrary: c n)
  case (Suc m)
  note p = page_drop [OF Suc.prems(1), of l]
  show ?case
  proof (cases "n + size l < length L")
    case True
    then have nk: "n + size l - 1 < length L" "Suc (n + size l - 1) = n + size l" using size_pos [of l] by auto
    have "walk_pages m (page q l rows) (Some (enc (L ! (n + size l - 1)))) = Some (drop (n + size l) L)"
      using rows_after [OF ids L nk(1)] Suc.prems(2) True size_pos [of l] nk(2) by (intro Suc.IH) simp_all
    moreover have "take (size l) (drop n L) @ drop (n + size l) L = drop n L"
      by (metis add.commute append_take_drop_id drop_drop)
    ultimately show ?thesis using True by (simp add: p)
  next
    case False
    then show ?thesis by (simp add: p)
  qed
qed simp

lemma walk_complete:
  assumes "distinct (map ident rows)"
  shows "walk_pages (Suc (length rows)) (page q l rows) None = Some (sort_key key (filter (matches q None) rows))"
  using walk_drop [OF assms refl, of q None 0 "Suc (length rows)" l] by (simp add: le_imp_less_Suc)

end

section \<open>Text\<close>

text \<open>\<open>split(sep)\<close>: always at least one segment.\<close>

fun split_on :: "char \<Rightarrow> string \<Rightarrow> string list" where
  "split_on sep [] = [[]]"
| "split_on sep (c # cs) =
     (if c = sep then [] # split_on sep cs
      else (case split_on sep cs of [] \<Rightarrow> [[c]] | seg # segs \<Rightarrow> (c # seg) # segs))"

lemma split_on_none: "sep \<notin> set s \<Longrightarrow> split_on sep s = [s]"
  by (induction s) auto

lemma split_on_first: "sep \<notin> set s \<Longrightarrow> split_on sep (s @ sep # rest) = s # split_on sep rest"
  by (induction s) auto

text \<open>
  \<open>parseInt(s, 10)\<close>: white space, a sign, then the longest run of digits; \<open>NaN\<close> without one.
  A string is its sequence of bytes.
\<close>

definition digit_value :: "char \<Rightarrow> int option" where
  "digit_value c = (let n = (of_char c :: nat) in if 48 \<le> n \<and> n \<le> 57 then Some (int n - 48) else None)"

definition js_blank :: "char \<Rightarrow> bool" where
  "js_blank c \<longleftrightarrow> (let n = (of_char c :: nat) in n = 32 \<or> (9 \<le> n \<and> n \<le> 13))"

fun read_digits :: "int \<Rightarrow> string \<Rightarrow> int" where
  "read_digits acc [] = acc"
| "read_digits acc (c # cs) = (case digit_value c of None \<Rightarrow> acc | Some d \<Rightarrow> read_digits (10 * acc + d) cs)"

definition read_number :: "string \<Rightarrow> int option" where
  "read_number s = (case s of [] \<Rightarrow> None | c # cs \<Rightarrow> if digit_value c = None then None else Some (read_digits 0 s))"

definition parseInt :: "string \<Rightarrow> int option" where
  "parseInt s =
     (case dropWhile js_blank s of
        [] \<Rightarrow> None
      | c # cs \<Rightarrow>
          if c = CHR ''-'' then map_option uminus (read_number cs)
          else if c = CHR ''+'' then read_number cs
          else read_number (c # cs))"

lemma digit_value_char [simp]: "k < 10 \<Longrightarrow> digit_value (char_of (48 + k :: nat)) = Some (int k)"
  by (simp add: digit_value_def of_char_of)

lemma read_digits_dec: "read_digits acc (dec_digits n @ s) = read_digits (acc * 10 ^ length (dec_digits n) + int n) s"
proof (induction n arbitrary: acc s rule: dec_digits.induct)
  case (1 n)
  show ?case
  proof (cases "n < 10")
    case True
    then show ?thesis by (simp add: dec_digits.simps [of n] mult.commute [of 10 acc])
  next
    case False
    have "int n = 10 * int (n div 10) + int (n mod 10)" by presburger
    then show ?thesis using False 1 by (simp add: dec_digits.simps [of n] algebra_simps)
  qed
qed

lemma dec_digits_first: "\<exists>k < 10. hd (dec_digits n) = char_of (48 + k :: nat)"
proof (induction n rule: dec_digits.induct)
  case (1 n)
  then show ?case by (cases "n < 10") (auto simp: dec_digits.simps [of n])
qed

lemma dec_digits_chars: "c \<in> set (dec_digits n) \<Longrightarrow> digit_value c \<noteq> None"
proof (induction n rule: dec_digits.induct)
  case (1 n)
  then show ?case by (cases "n < 10") (auto simp: dec_digits.simps [of n])
qed

lemma read_number_dec: "read_number (dec_digits n) = Some (int n)"
proof -
  obtain c cs where d: "dec_digits n = c # cs" using dec_digits_nonempty by (cases "dec_digits n") auto
  then have "digit_value c \<noteq> None" using dec_digits_first [of n] by auto
  then show ?thesis using read_digits_dec [of 0 n "[]"] d by (simp add: read_number_def)
qed

lemma parseInt_js_String [simp]: "parseInt (js_String n) = Some n"
proof -
  obtain c cs where d: "dec_digits (nat n) = c # cs" using dec_digits_nonempty by (cases "dec_digits (nat n)") auto
  then obtain k where k: "k < 10" "c = char_of (48 + k :: nat)" using dec_digits_first [of "nat n"] by auto
  then have c: "(of_char c :: nat) = 48 + k" by (simp add: of_char_of)
  then have "\<not> js_blank c" "c \<noteq> CHR ''-''" "c \<noteq> CHR ''+''" using k(1) by (auto simp: js_blank_def)
  then show ?thesis
    using read_number_dec [of "nat n"] read_number_dec [of "nat (- n)"] d
    by (auto simp: parseInt_def js_String_def js_blank_def)
qed

lemma js_String_chars: "c \<in> set (js_String n) \<Longrightarrow> c = CHR ''-'' \<or> digit_value c \<noteq> None"
  using dec_digits_chars by (auto simp: js_String_def split: if_splits)

section \<open>base64url\<close>

text \<open>
  \<open>Buffer.toString('base64url')\<close> and \<open>Buffer.from(s, 'base64url')\<close>: six bits to a character,
  without padding; reading takes both alphabets and skips every other character.
\<close>

definition b64_char :: "nat \<Rightarrow> char" where
  "b64_char n =
     (if n < 26 then char_of (65 + n) else if n < 52 then char_of (71 + n) else if n < 62 then char_of (n - 4)
      else if n = 62 then CHR ''-'' else CHR ''_'')"

definition b64_value :: "char \<Rightarrow> nat option" where
  "b64_value c =
     (let n = (of_char c :: nat) in
      if 65 \<le> n \<and> n \<le> 90 then Some (n - 65) else if 97 \<le> n \<and> n \<le> 122 then Some (n - 71)
      else if 48 \<le> n \<and> n \<le> 57 then Some (n + 4)
      else if c = CHR ''-'' \<or> c = CHR ''+'' then Some 62 else if c = CHR ''_'' \<or> c = CHR ''/'' then Some 63 else None)"

fun sextets :: "nat list \<Rightarrow> nat list" where
  "sextets (a # b # c # bs) = a div 4 # (a mod 4 * 16 + b div 16) # (b mod 16 * 4 + c div 64) # c mod 64 # sextets bs"
| "sextets [a, b] = [a div 4, a mod 4 * 16 + b div 16, b mod 16 * 4]"
| "sextets [a] = [a div 4, a mod 4 * 16]"
| "sextets [] = []"

fun octets :: "nat list \<Rightarrow> nat list" where
  "octets (w # x # y # z # ss) = (w * 4 + x div 16) # (x mod 16 * 16 + y div 4) # (y mod 4 * 64 + z) # octets ss"
| "octets [w, x, y] = [w * 4 + x div 16, x mod 16 * 16 + y div 4]"
| "octets [w, x] = [w * 4 + x div 16]"
| "octets [w] = []"
| "octets [] = []"

definition to_base64url :: "string \<Rightarrow> string" where
  "to_base64url s = map b64_char (sextets (map of_char s))"

definition of_base64url :: "string \<Rightarrow> string" where
  "of_base64url s = map char_of (octets (List.map_filter b64_value s))"

lemma b64_value_char: "n < 64 \<Longrightarrow> b64_value (b64_char n) = Some n"
proof -
  assume n: "n < 64"
  then consider "n < 26" | "26 \<le> n" "n < 52" | "52 \<le> n" "n < 62" | "n = 62" | "n = 63" by linarith
  then show ?thesis by cases (auto simp: b64_char_def b64_value_def of_char_of Let_def)
qed

lemma quotients:
  "(a :: nat) < 256 \<Longrightarrow> a div 4 < 64" "(b :: nat) < 256 \<Longrightarrow> b div 16 < 16" "(c :: nat) < 256 \<Longrightarrow> c div 64 < 4"
  by (simp_all add: less_mult_imp_div_less)

lemma packed: "(q :: nat) < m \<Longrightarrow> (p * m + q) div m = p" "(q :: nat) < m \<Longrightarrow> (p * m + q) mod m = q" "0 < (m :: nat) \<Longrightarrow> p * m div m = p"
  by simp_all

lemma packed_small: "(q :: nat) < 16 \<Longrightarrow> a mod 4 * 16 + q < 64" "(r :: nat) < 4 \<Longrightarrow> b mod 16 * 4 + r < 64"
  using mod_less_divisor [of 4 a] mod_less_divisor [of 16 b] by linarith+

lemma sextets_small: "\<forall>b \<in> set bs. b < 256 \<Longrightarrow> \<forall>s \<in> set (sextets bs). s < 64"
proof (induction bs rule: sextets.induct)
  case (1 a b c bs)
  then show ?case using quotients [of a] quotients [of b] quotients [of c] by (simp add: packed_small)
next
  case (2 a b)
  then show ?case using quotients [of a] quotients [of b] packed_small(2) [of 0 b] by (simp add: packed_small)
next
  case (3 a)
  then show ?case using quotients [of a] packed_small(1) [of 0 a] by simp
qed simp

lemma octets_sextets: "\<forall>b \<in> set bs. b < 256 \<Longrightarrow> octets (sextets bs) = bs"
proof (induction bs rule: sextets.induct)
  case (1 a b c bs)
  then show ?case using quotients(2) [of b] quotients(3) [of c] by (simp add: packed del: mult_Suc_right)
next
  case (2 a b)
  then show ?case using quotients(2) [of b] by (simp add: packed)
qed (simp_all add: packed)

lemma base64url_roundtrip [simp]: "of_base64url (to_base64url s) = s"
proof -
  have small: "\<forall>b \<in> set (map (of_char :: char \<Rightarrow> nat) s). b < 256" by simp
  have "List.map_filter b64_value (map b64_char xs) = xs" if "\<forall>x \<in> set xs. x < 64" for xs
    using that by (induction xs) (simp_all add: List.map_filter_simps b64_value_char)
  then have "List.map_filter b64_value (to_base64url s) = sextets (map of_char s)"
    using sextets_small [OF small] by (simp add: to_base64url_def)
  then show ?thesis using octets_sextets [OF small] by (simp add: of_base64url_def comp_def)
qed

end
