(* ===== verification/Samples.thy ===== *)
theory Samples
  imports Models Calendar
begin

text \<open>
  Sample documents. The witnesses of the development apply a theorem to a small database made
  of these, with the fields a theorem is about as arguments and every other field at the
  default of its schema.
\<close>

definition sample_user :: "oid \<Rightarrow> coins \<Rightarrow> sub_entry list \<Rightarrow> user" where
  "sample_user i balance subs =
     \<lparr>u_id = i, u_createdAt = 0, u_phone = ''+91'' @ js_String (int i), u_dob = 0, u_declaredState = ''MH'',
      u_email = None, u_displayName = None, u_avatarUrl = None, u_socialLinks = None,
      u_coinBalance = balance, u_totalCoinsEarned = 0, u_totalVotesCast = 0,
      u_signupBonusGranted = False, u_geoBlocked = False, u_ageVerified = True, u_tokenVersion = 0,
      u_kyc = \<lparr>kyc_status = K_NONE, kyc_panCt = None, kyc_panIv = None, kyc_panTag = None,
               kyc_panDekEnc = None, kyc_panLast4 = Some ''1234'', kyc_verifiedAt = None\<rparr>,
      u_blocked = \<lparr>bl_isBlocked = False, bl_reason = None, bl_at = None, bl_by = None\<rparr>,
      u_lastVoteDate = None, u_subscriptions = subs, u_primaryDeviceFingerprint = None,
      u_lastLoginIp = None, u_lastLoginAt = None, u_referredBy = None, u_referralCode = None,
      u_consentVersion = None, u_consentAcceptedAt = None, u_privacyPolicyVersion = None,
      u_deletedAt = None, u_anonymizedAt = None, u_erasureHold = None\<rparr>"

definition sample_entry :: "tier \<Rightarrow> entry_status \<Rightarrow> date \<Rightarrow> oid \<Rightarrow> sub_entry" where
  "sample_entry t st d sid = \<lparr>en_tier = t, en_status = st, en_expiresAt = Val d, en_subscriptionId = Some sid\<rparr>"

definition sample_tx :: "oid \<Rightarrow> date \<Rightarrow> oid \<Rightarrow> coins \<Rightarrow> coin_tx" where
  "sample_tx i t uid amt =
     \<lparr>ct_id = i, ct_createdAt = t, ct_userId = uid, ct_type = POST_REWARD, ct_amount = amt,
      ct_balanceAfter = amt, ct_reference = None, ct_note = None, ct_reason = None\<rparr>"

definition sample_post :: "oid \<Rightarrow> tier \<Rightarrow> post" where
  "sample_post i t =
     \<lparr>p_id = i, p_createdAt = 0, p_title = ''Post'', p_description = None, p_dayKey = ''2026-05-01'',
      p_scheduledAt = 0, p_status = P_LIVE, p_coinReward = 5, p_tier = t, p_adsConfig = None,
      p_createdBy = 1, p_publishedAt = None, p_closedAt = None\<rparr>"

definition sample_completion :: "oid \<Rightarrow> oid \<Rightarrow> oid \<Rightarrow> post_completion" where
  "sample_completion i uid pid =
     \<lparr>pc_id = i, pc_userId = uid, pc_postId = pid, pc_dayKey = ''2026-05-01'', pc_completedAt = 0,
      pc_coinAwarded = Some 5, pc_coinTxId = None\<rparr>"

definition sample_vote :: "oid \<Rightarrow> oid \<Rightarrow> day_key \<Rightarrow> tier \<Rightarrow> vote" where
  "sample_vote i uid dk t =
     \<lparr>v_id = i, v_createdAt = 0, v_userId = uid, v_dayKey = dk, v_tier = t, v_target = ''BGMI'',
      v_coinsSpent = 3, v_ipAddress = None, v_device = None\<rparr>"

definition sample_code :: "oid \<Rightarrow> oid \<Rightarrow> code_status \<Rightarrow> oid option \<Rightarrow> redeem_code" where
  "sample_code i bid st pid =
     \<lparr>rc_id = i, rc_createdAt = 0, rc_batchId = bid, rc_denomination = 5000, rc_tier = PUBLIC,
      rc_codeCt = ''CODE'' @ js_String (int i), rc_codeIv = None, rc_codeTag = None, rc_codeDekEnc = None,
      rc_codeHash = ''h'' @ js_String (int i), rc_status = st, rc_postId = pid, rc_publishedAt = None,
      rc_firstCopiedBy = None, rc_firstCopiedAt = None, rc_copyCount = 0, rc_claimedBy = None,
      rc_claimedAt = None, rc_voidedReason = None\<rparr>"

definition sample_batch :: "oid \<Rightarrow> batch_status \<Rightarrow> code_batch" where
  "sample_batch i st =
     \<lparr>b_id = i, b_createdAt = 0, b_uploadedBy = 1, b_supplierName = ''WOOHOO'', b_supplierInvoiceNumber = None,
      b_supplierInvoiceUrl = None, b_denomination = 5000, b_count = 2, b_totalValue = None,
      b_notes = None, b_status = st\<rparr>"

definition sample_winner :: "oid \<Rightarrow> oid \<Rightarrow> oid \<Rightarrow> paise \<Rightarrow> prize_winner" where
  "sample_winner i uid cid amt =
     \<lparr>w_id = i, w_createdAt = 0, w_dayKey = ''2026-05-01'', w_userId = uid, w_type = GIFT_CODE,
      w_tier = None, w_baseAmount = None, w_multiplier = 1, w_finalAmount = Some amt,
      w_redeemCodeId = Some cid, w_customRoomId = None, w_tdsDeducted = 0, w_tdsChallanNo = None,
      w_form16aIssuedAt = None, w_panAtPayout = None, w_payoutStatus = W_PENDING, w_releasedAt = None\<rparr>"

definition sample_donation :: "oid \<Rightarrow> oid \<Rightarrow> paise \<Rightarrow> donation_status \<Rightarrow> donation" where
  "sample_donation i uid amt st =
     \<lparr>d_id = i, d_createdAt = 0, d_userId = Some uid, d_displayName = None, d_isAnonymous = False,
      d_amount = amt, d_razorpayOrderId = ''order'' @ js_String (int i), d_razorpayPaymentId = None,
      d_status = st, d_message = None, d_socialLinks = None, d_capturedAt = None, d_ipAddress = None,
      d_featured = False\<rparr>"

definition sample_subscription :: "oid \<Rightarrow> oid \<Rightarrow> tier \<Rightarrow> sub_status \<Rightarrow> subscription" where
  "sample_subscription i uid t st =
     \<lparr>s_id = i, s_createdAt = 0, s_userId = uid, s_tier = t, s_razorpaySubscriptionId = ''sub'' @ js_String (int i),
      s_razorpayPlanId = ''plan'', s_status = st, s_billingCycle = MONTHLY, s_totalCount = None,
      s_paidCount = 0, s_remainingCount = None, s_baseAmount = None, s_gstAmount = None,
      s_totalAmount = None, s_currentStart = None, s_currentEnd = None, s_chargeAt = None,
      s_autoRenew = True, s_cancelledAt = None, s_cancelReason = None\<rparr>"

definition sample_payment :: "oid \<Rightarrow> oid \<Rightarrow> oid \<Rightarrow> paise \<Rightarrow> sub_payment" where
  "sample_payment i sid uid amt =
     \<lparr>sp_id = i, sp_createdAt = 0, sp_subscriptionId = sid, sp_userId = uid,
      sp_razorpayPaymentId = ''pay'' @ js_String (int i), sp_razorpayOrderId = None, sp_razorpayInvoiceId = None,
      sp_amount = Some amt, sp_baseAmount = None, sp_gstAmount = None, sp_cgst = None, sp_sgst = None,
      sp_igst = None, sp_placeOfSupply = None, sp_sacCode = ''998439'', sp_merchantGstin = None,
      sp_customerGstin = None, sp_invoiceNumber = None, sp_invoicePdfUrl = None, sp_method = None,
      sp_status = Some SP_CAPTURED, sp_capturedAt = Some 0, sp_refundedAt = None, sp_refundAmount = None\<rparr>"

definition sample_sub_entity :: "oid \<Rightarrow> int option \<Rightarrow> note_value option \<Rightarrow> sub_entity" where
  "sample_sub_entity i e note =
     \<lparr>se_id = ''sub'' @ js_String (int i), se_current_start = None, se_current_end = e, se_paid_count = None,
      se_remaining_count = None, se_charge_at = None, se_cancel_at_cycle_end = note\<rparr>"

definition sample_pay_entity :: "oid \<Rightarrow> paise \<Rightarrow> pay_entity" where
  "sample_pay_entity i amt =
     \<lparr>pe_id = ''pay'' @ js_String (int i), pe_order_id = Some (''order'' @ js_String (int i)), pe_invoice_id = None,
      pe_amount = amt, pe_method = None\<rparr>"

definition sample_refund :: "oid \<Rightarrow> paise \<Rightarrow> refund_entity" where
  "sample_refund i amt = \<lparr>re_id = ''rfnd'', re_payment_id = ''pay'' @ js_String (int i), re_amount = amt\<rparr>"

end
