(* ===== verification/Admin_Access.thy ===== *)
theory Admin_Access
  imports App_Errors Models Calendar Paging Samples
begin

text \<open>
  The administration surface: the session store (src/shared/sessions/admin-session.store.ts),
  sign-in and sign-out (src/modules/admin-auth), the gates of every admin route (IP allowlist,
  session, CSRF and role under src/shared/middleware), and the management of the admins
  themselves (src/modules/admin-admin-users with src/shared/seed/admin-bootstrap.ts).

  Redis is a parameter: a server is a record of the six commands the store sends, and the
  locale \<open>admin_redis_server\<close> says what they are documented to do. A session value is stored
  as JSON, and is represented by the record it encodes. The password hash is a parameter too.
  Header and cookie values are the Latin-1 strings Node hands to the program.
\<close>

section \<open>The session store\<close>

datatype admin_role = SUPER_ADMIN | CONTENT_ADMIN | PAYMENT_ADMIN | SUPPORT_ADMIN

definition ADMIN_SESSION_IDLE_TTL_MS :: int where "ADMIN_SESSION_IDLE_TTL_MS = 30 * 60 * 1000"
definition ADMIN_SESSION_ABSOLUTE_TTL_MS :: int where "ADMIN_SESSION_ABSOLUTE_TTL_MS = 4 * 60 * 60 * 1000"

record admin_session =
  as_sessionId :: string
  as_adminId :: string
  as_adminEmail :: string
  as_role :: admin_role
  as_permissions :: "string list"
  as_ip :: string
  as_userAgent :: string
  as_csrfToken :: string
  as_createdAt :: date
  as_lastSeenAt :: date
  as_absoluteExpiresAt :: date

record admin_session_input =
  ai_sessionId :: string
  ai_adminId :: string
  ai_adminEmail :: string
  ai_role :: admin_role
  ai_permissions :: "string list"
  ai_ip :: string
  ai_userAgent :: string
  ai_csrfToken :: string

record 'r admin_redis =
  ar_get :: "date \<Rightarrow> string \<Rightarrow> 'r \<Rightarrow> admin_session option"
  ar_set_px :: "date \<Rightarrow> string \<Rightarrow> admin_session \<Rightarrow> int \<Rightarrow> 'r \<Rightarrow> 'r"
  ar_del :: "date \<Rightarrow> string list \<Rightarrow> 'r \<Rightarrow> 'r"
  ar_sadd :: "date \<Rightarrow> string \<Rightarrow> string \<Rightarrow> 'r \<Rightarrow> 'r"
  ar_srem :: "date \<Rightarrow> string \<Rightarrow> string \<Rightarrow> 'r \<Rightarrow> 'r"
  ar_smembers :: "date \<Rightarrow> string \<Rightarrow> 'r \<Rightarrow> string list"

definition sessionKey :: "string \<Rightarrow> string" where
  "sessionKey sessionId = ''admin:session:'' @ sessionId"

definition adminIndexKey :: "string \<Rightarrow> string" where
  "adminIndexKey adminId = ''admin:session:by-admin:'' @ adminId"

definition new_admin_session :: "admin_session_input \<Rightarrow> date \<Rightarrow> admin_session" where
  "new_admin_session inp now =
     \<lparr>as_sessionId = ai_sessionId inp, as_adminId = ai_adminId inp, as_adminEmail = ai_adminEmail inp,
      as_role = ai_role inp, as_permissions = ai_permissions inp, as_ip = ai_ip inp, as_userAgent = ai_userAgent inp,
      as_csrfToken = ai_csrfToken inp, as_createdAt = now, as_lastSeenAt = now,
      as_absoluteExpiresAt = now + ADMIN_SESSION_ABSOLUTE_TTL_MS\<rparr>"

definition session_create :: "'r admin_redis \<Rightarrow> admin_session_input \<Rightarrow> date \<Rightarrow> 'r \<Rightarrow> admin_session \<times> 'r" where
  "session_create R inp now r =
     (let session = new_admin_session inp now;
          r1 = ar_set_px R now (sessionKey (as_sessionId session)) session ADMIN_SESSION_IDLE_TTL_MS r
      in (session, ar_sadd R now (adminIndexKey (as_adminId session)) (as_sessionId session) r1))"

definition session_destroy :: "'r admin_redis \<Rightarrow> string \<Rightarrow> date \<Rightarrow> 'r \<Rightarrow> 'r" where
  "session_destroy R sessionId now r =
     ar_del R now [sessionKey sessionId]
       (case ar_get R now (sessionKey sessionId) r of
          None \<Rightarrow> r
        | Some session \<Rightarrow> ar_srem R now (adminIndexKey (as_adminId session)) sessionId r)"

definition session_get :: "'r admin_redis \<Rightarrow> string \<Rightarrow> date \<Rightarrow> 'r \<Rightarrow> admin_session option \<times> 'r" where
  "session_get R sessionId now r =
     (case ar_get R now (sessionKey sessionId) r of
        None \<Rightarrow> (None, r)
      | Some session \<Rightarrow>
          if now \<ge> as_absoluteExpiresAt session then (None, session_destroy R sessionId now r) else (Some session, r))"

text \<open>\<open>touch\<close> reads and then writes; the two halves are also given apart.\<close>

definition touch_write :: "'r admin_redis \<Rightarrow> string \<Rightarrow> admin_session \<Rightarrow> date \<Rightarrow> 'r \<Rightarrow> admin_session \<times> 'r" where
  "touch_write R sessionId session now r =
     (let session' = session\<lparr>as_lastSeenAt := now\<rparr>
      in (session', ar_set_px R now (sessionKey sessionId) session' ADMIN_SESSION_IDLE_TTL_MS r))"

definition session_touch :: "'r admin_redis \<Rightarrow> string \<Rightarrow> date \<Rightarrow> 'r \<Rightarrow> admin_session option \<times> 'r" where
  "session_touch R sessionId now r =
     (case session_get R sessionId now r of
        (None, r1) \<Rightarrow> (None, r1)
      | (Some session, r1) \<Rightarrow> (let (session', r2) = touch_write R sessionId session now r1 in (Some session', r2)))"

definition destroyAllForAdmin :: "'r admin_redis \<Rightarrow> string \<Rightarrow> date \<Rightarrow> 'r \<Rightarrow> nat \<times> 'r" where
  "destroyAllForAdmin R adminId now r =
     (let ids = ar_smembers R now (adminIndexKey adminId) r
      in if ids = [] then (0, r)
         else (length ids, ar_del R now [adminIndexKey adminId] (ar_del R now (map sessionKey ids) r)))"

definition session_rotateCsrf :: "'r admin_redis \<Rightarrow> string \<Rightarrow> string \<Rightarrow> date \<Rightarrow> 'r \<Rightarrow> admin_session option \<times> 'r" where
  "session_rotateCsrf R sessionId newCsrfToken now r =
     (case session_get R sessionId now r of
        (None, r1) \<Rightarrow> (None, r1)
      | (Some session, r1) \<Rightarrow>
          let session' = session\<lparr>as_csrfToken := newCsrfToken, as_lastSeenAt := now\<rparr>
          in (Some session', ar_set_px R now (sessionKey sessionId) session' ADMIN_SESSION_IDLE_TTL_MS r1))"

section \<open>Cookies\<close>

definition latin1_space :: "char \<Rightarrow> bool" where
  "latin1_space c \<longleftrightarrow> (let n = (of_char c :: nat) in n = 32 \<or> (9 \<le> n \<and> n \<le> 13) \<or> n = 160)"

definition latin1_trim :: "string \<Rightarrow> string" where
  "latin1_trim s = rev (dropWhile latin1_space (rev (dropWhile latin1_space s)))"

definition strip_quotes :: "string \<Rightarrow> string" where
  "strip_quotes v = (if v \<noteq> [] \<and> hd v = CHR 34 \<and> last v = CHR 34 then butlast (tl v) else v)"

fun cookie_in :: "string \<Rightarrow> string list \<Rightarrow> string option" where
  "cookie_in name [] = None"
| "cookie_in name (segment # segments) =
     (case dropWhile (\<lambda>c. c \<noteq> CHR ''='') segment of
        [] \<Rightarrow> cookie_in name segments
      | _ # after \<Rightarrow>
          if latin1_trim (takeWhile (\<lambda>c. c \<noteq> CHR ''='') segment) \<noteq> name then cookie_in name segments
          else Some (strip_quotes (latin1_trim after)))"

definition extractCookie :: "string option \<Rightarrow> string \<Rightarrow> string option" where
  "extractCookie header name =
     (case header of
        None \<Rightarrow> None
      | Some h \<Rightarrow> if h = [] then None else cookie_in name (split_on (CHR '';'') h))"

definition ADMIN_SESSION_COOKIE :: string where "ADMIN_SESSION_COOKIE = ''cfb_admin_session''"
definition CSRF_COOKIE :: string where "CSRF_COOKIE = ''cfb_admin_csrf''"

section \<open>The gates of an admin route\<close>

record admin_request =
  rq_method :: string
  rq_ip :: "string option"
  rq_cookie :: "string option"
  rq_csrfHeader :: "string option"

definition ipAllowlist :: "app_config list \<Rightarrow> admin_request \<Rightarrow> app_error + unit" where
  "ipAllowlist cfgs req =
     (let tenantList = (case findOne (\<lambda>c. cfg_key c = ''default'') cfgs of None \<Rightarrow> [] | Some cfg \<Rightarrow> cfg_adminIpAllowlist cfg)
      in if tenantList = [] then Inr ()
         else if or_default (rq_ip req) [] \<notin> set tenantList then Inl (ForbiddenError ''ADMIN_IP_NOT_ALLOWED'')
         else Inr ())"

definition adminSession :: "'r admin_redis \<Rightarrow> admin_request \<Rightarrow> date \<Rightarrow> 'r \<Rightarrow> (app_error + admin_session) \<times> 'r" where
  "adminSession R req now r =
     (case extractCookie (rq_cookie req) ADMIN_SESSION_COOKIE of
        None \<Rightarrow> (Inl UnauthorizedError, r)
      | Some sessionId \<Rightarrow>
          if sessionId = [] then (Inl UnauthorizedError, r)
          else
            (case session_touch R sessionId now r of
               (None, r1) \<Rightarrow> (Inl UnauthorizedError, r1)
             | (Some session, r1) \<Rightarrow> (Inr session, r1)))"

definition SAFE_METHODS :: "string list" where
  "SAFE_METHODS = [''GET'', ''HEAD'', ''OPTIONS'']"

text \<open>
  The bytes of a Latin-1 string in UTF-8. \<open>timingSafeEqual\<close> throws when its buffers differ in
  length, and the error handler answers such an error as an internal one.
\<close>

definition utf8_length :: "string \<Rightarrow> nat" where
  "utf8_length s = sum_list (map (\<lambda>c. if (of_char c :: nat) < 128 then 1 else 2) s)"

definition safeEqual :: "string \<Rightarrow> string \<Rightarrow> app_error + bool" where
  "safeEqual a b =
     (if length a \<noteq> length b then Inr False
      else if utf8_length a \<noteq> utf8_length b then Inl (InternalError ''INTERNAL'')
      else Inr (a = b))"

definition csrfCheck :: "admin_request \<Rightarrow> admin_session option \<Rightarrow> app_error + unit" where
  "csrfCheck req adm =
     (if rq_method req \<in> set SAFE_METHODS then Inr ()
      else
        (case adm of
           None \<Rightarrow> Inl (ForbiddenError ''CSRF_INVALID'')
         | Some a \<Rightarrow>
             let headerToken = or_default (rq_csrfHeader req) [];
                 cookieToken = or_default (extractCookie (rq_cookie req) CSRF_COOKIE) []
             in if headerToken = [] \<or> cookieToken = [] then Inl (ForbiddenError ''CSRF_INVALID'')
                else
                  (case safeEqual headerToken cookieToken of
                     Inl e \<Rightarrow> Inl e
                   | Inr False \<Rightarrow> Inl (ForbiddenError ''CSRF_INVALID'')
                   | Inr True \<Rightarrow>
                       (case safeEqual headerToken (as_csrfToken a) of
                          Inl e \<Rightarrow> Inl e
                        | Inr False \<Rightarrow> Inl (ForbiddenError ''CSRF_INVALID'')
                        | Inr True \<Rightarrow> Inr ()))))"

definition requireRole :: "admin_role \<Rightarrow> admin_session option \<Rightarrow> app_error + unit" where
  "requireRole role adm =
     (case adm of
        None \<Rightarrow> Inl (ForbiddenError ''FORBIDDEN'')
      | Some a \<Rightarrow> if as_role a \<noteq> role then Inl (ForbiddenError ''FORBIDDEN'') else Inr ())"

definition requireAnyRole :: "admin_role list \<Rightarrow> admin_session option \<Rightarrow> app_error + unit" where
  "requireAnyRole roles adm =
     (case adm of
        None \<Rightarrow> Inl (ForbiddenError ''FORBIDDEN'')
      | Some a \<Rightarrow> if as_role a \<notin> set roles then Inl (ForbiddenError ''FORBIDDEN'') else Inr ())"

definition requirePermission :: "string \<Rightarrow> admin_session option \<Rightarrow> app_error + unit" where
  "requirePermission permission adm =
     (case adm of
        None \<Rightarrow> Inl (ForbiddenError ''FORBIDDEN'')
      | Some a \<Rightarrow>
          if as_role a = SUPER_ADMIN then Inr ()
          else if permission \<notin> set (as_permissions a) then Inl (ForbiddenError ''FORBIDDEN'')
          else Inr ())"

text \<open>The chain every admin router but the one of the sign-in mounts, with its roles.\<close>

definition admin_chain ::
  "'r admin_redis \<Rightarrow> app_config list \<Rightarrow> admin_role list \<Rightarrow> admin_request \<Rightarrow> date \<Rightarrow> 'r
   \<Rightarrow> (app_error + admin_session) \<times> 'r" where
  "admin_chain R cfgs roles req now r =
     (case ipAllowlist cfgs req of
        Inl e \<Rightarrow> (Inl e, r)
      | Inr _ \<Rightarrow>
          (case adminSession R req now r of
             (Inl e, r1) \<Rightarrow> (Inl e, r1)
           | (Inr session, r1) \<Rightarrow>
               (case csrfCheck req (Some session) of
                  Inl e \<Rightarrow> (Inl e, r1)
                | Inr _ \<Rightarrow>
                    (case requireAnyRole roles (Some session) of
                       Inl e \<Rightarrow> (Inl e, r1)
                     | Inr _ \<Rightarrow> (Inr session, r1)))))"

section \<open>Admins\<close>

record admin_public =
  adm_id :: oid
  adm_createdAt :: date
  adm_email :: string
  adm_name :: "string option"
  adm_role :: admin_role
  adm_permissions :: "string list"
  adm_2fa_enabled :: bool
  adm_2fa_secret :: "string option"
  adm_2fa_recoveryCodes :: "string list"
  adm_ipAllowlist :: "string list"
  adm_lastLoginAt :: "date option"
  adm_lastLoginIp :: "string option"
  adm_disabled :: bool

record admin_user = admin_public +
  adm_passwordHash :: string

definition admin_clash :: "admin_user \<Rightarrow> admin_user \<Rightarrow> bool" where
  "admin_clash x y \<longleftrightarrow> adm_email x = adm_email y"

record 'r admin_state =
  am_users :: "admin_user list"
  am_configs :: "app_config list"
  am_redis :: 'r

definition js_lower :: "string \<Rightarrow> string" where
  "js_lower s = map (\<lambda>c. let n = (of_char c :: nat) in if 65 \<le> n \<and> n \<le> 90 then char_of (n + 32) else c) s"

definition findByEmail :: "string \<Rightarrow> admin_user list \<Rightarrow> admin_user option" where
  "findByEmail email admins = findOne (\<lambda>a. adm_email a = latin1_trim (js_lower email)) admins"

definition admin_hex :: "oid \<Rightarrow> string" where
  "admin_hex i = js_String (int i)"

definition with_admins :: "admin_user list \<Rightarrow> 'r admin_state \<Rightarrow> 'r admin_state" where
  "with_admins us st = st\<lparr>am_users := us\<rparr>"

definition with_store :: "'r \<Rightarrow> 'r admin_state \<Rightarrow> 'r admin_state" where
  "with_store r st = st\<lparr>am_redis := r\<rparr>"

section \<open>Sign-in and sign-out\<close>

record admin_login_input =
  al_email :: string
  al_password :: string
  al_ip :: string
  al_userAgent :: string

record login_admin =
  la_id :: string
  la_email :: string
  la_role :: admin_role
  la_permissions :: "string list"
  la_twoFactorEnabled :: bool

record admin_login_result =
  lr_sessionId :: string
  lr_csrfToken :: string
  lr_admin :: login_admin
  lr_absoluteExpiresAt :: date

definition enforceIpAllowlist :: "app_config list \<Rightarrow> string \<Rightarrow> string list \<Rightarrow> app_error + unit" where
  "enforceIpAllowlist cfgs requestIp adminAllowlist =
     (let tenantList = (case findOne (\<lambda>c. cfg_key c = ''default'') cfgs of None \<Rightarrow> [] | Some cfg \<Rightarrow> cfg_adminIpAllowlist cfg)
      in if tenantList \<noteq> [] \<and> requestIp \<notin> set tenantList then Inl (ForbiddenError ''ADMIN_IP_NOT_ALLOWED'')
         else if adminAllowlist \<noteq> [] \<and> requestIp \<notin> set adminAllowlist then Inl (ForbiddenError ''ADMIN_IP_NOT_ALLOWED'')
         else Inr ())"

definition login_session :: "admin_login_input \<Rightarrow> admin_user \<Rightarrow> string \<Rightarrow> string \<Rightarrow> admin_session_input" where
  "login_session inp admin sessionId csrfToken =
     \<lparr>ai_sessionId = sessionId, ai_adminId = admin_hex (adm_id admin), ai_adminEmail = adm_email admin,
      ai_role = adm_role admin, ai_permissions = adm_permissions admin, ai_ip = al_ip inp,
      ai_userAgent = al_userAgent inp, ai_csrfToken = csrfToken\<rparr>"

definition touch_admin :: "string \<Rightarrow> date \<Rightarrow> admin_user \<Rightarrow> admin_user" where
  "touch_admin ip now a = a\<lparr>adm_lastLoginAt := Some now, adm_lastLoginIp := Some ip\<rparr>"

text \<open>\<open>bcrypt\<close> compares a password with a hash; the two random tokens are arguments.\<close>

definition admin_login ::
  "'r admin_redis \<Rightarrow> (string \<Rightarrow> string \<Rightarrow> bool) \<Rightarrow> admin_login_input \<Rightarrow> string \<Rightarrow> string \<Rightarrow> date \<Rightarrow> 'r admin_state
   \<Rightarrow> (app_error + admin_login_result) \<times> 'r admin_state" where
  "admin_login R bcrypt inp sessionId csrfToken now st =
     (case findByEmail (al_email inp) (am_users st) of
        None \<Rightarrow> (Inl UnauthorizedError, st)
      | Some admin \<Rightarrow>
          if adm_disabled admin then (Inl UnauthorizedError, st)
          else if \<not> bcrypt (al_password inp) (adm_passwordHash admin) then (Inl UnauthorizedError, st)
          else
            (case enforceIpAllowlist (am_configs st) (al_ip inp) (adm_ipAllowlist admin) of
               Inl e \<Rightarrow> (Inl e, st)
             | Inr _ \<Rightarrow>
                 if adm_2fa_enabled admin then (Inl (ForbiddenError ''TWO_FACTOR_NOT_IMPLEMENTED''), st)
                 else
                   let r = snd (session_create R (login_session inp admin sessionId csrfToken) now (am_redis st));
                       us = snd (updateOne (\<lambda>a. adm_id a = adm_id admin) (touch_admin (al_ip inp) now) (am_users st))
                   in (Inr \<lparr>lr_sessionId = sessionId, lr_csrfToken = csrfToken,
                            lr_admin = \<lparr>la_id = admin_hex (adm_id admin), la_email = adm_email admin, la_role = adm_role admin,
                              la_permissions = adm_permissions admin, la_twoFactorEnabled = adm_2fa_enabled admin\<rparr>,
                            lr_absoluteExpiresAt = now + 4 * 60 * 60 * 1000\<rparr>,
                       with_admins us (with_store r st))))"

definition admin_logout :: "'r admin_redis \<Rightarrow> string \<Rightarrow> date \<Rightarrow> 'r admin_state \<Rightarrow> 'r admin_state" where
  "admin_logout R sessionId now st = with_store (session_destroy R sessionId now (am_redis st)) st"

definition getCurrentAdmin :: "'r admin_redis \<Rightarrow> string \<Rightarrow> date \<Rightarrow> 'r admin_state \<Rightarrow> login_admin option \<times> 'r admin_state" where
  "getCurrentAdmin R sessionId now st =
     (let (session, r) = session_get R sessionId now (am_redis st)
      in (map_option (\<lambda>s. \<lparr>la_id = as_adminId s, la_email = as_adminEmail s, la_role = as_role s,
            la_permissions = as_permissions s, la_twoFactorEnabled = False\<rparr>) session, with_store r st))"

definition admin_rotateCsrf ::
  "'r admin_redis \<Rightarrow> string \<Rightarrow> string \<Rightarrow> date \<Rightarrow> 'r admin_state \<Rightarrow> string option \<times> 'r admin_state" where
  "admin_rotateCsrf R sessionId newToken now st =
     (let (updated, r) = session_rotateCsrf R sessionId newToken now (am_redis st)
      in (if updated \<noteq> None then Some newToken else None, with_store r st))"

section \<open>Management of admins\<close>

definition coerce_boolean :: "string \<Rightarrow> bool" where
  "coerce_boolean s = (s \<noteq> [])"

record admin_list_query =
  lq_role :: "admin_role option"
  lq_disabled :: "string option"

text \<open>The list handler: the parsed query, the filter, and the reply without the password hashes.\<close>

definition admins_list :: "admin_role option \<Rightarrow> bool option \<Rightarrow> admin_user list \<Rightarrow> admin_user list" where
  "admins_list role disabled admins =
     rev (sort_key adm_createdAt (find_docs (\<lambda>a. (case role of None \<Rightarrow> True | Some x \<Rightarrow> adm_role a = x) \<and>
       (case disabled of None \<Rightarrow> True | Some b \<Rightarrow> adm_disabled a = b)) admins))"

definition admins_list_handler :: "admin_list_query \<Rightarrow> 'r admin_state \<Rightarrow> admin_public list" where
  "admins_list_handler q st =
     map (\<lambda>a. admin_public.truncate a) (admins_list (lq_role q) (map_option coerce_boolean (lq_disabled q)) (am_users st))"

record create_admin_input =
  ca_email :: string
  ca_password :: string
  ca_name :: "string option"
  ca_role :: "admin_role option"

definition createAdminSchema :: "(string \<Rightarrow> bool) \<Rightarrow> create_admin_input \<Rightarrow> bool" where
  "createAdminSchema is_email inp \<longleftrightarrow> is_email (ca_email inp) \<and> 12 \<le> length (ca_password inp) \<and>
     (case ca_name inp of None \<Rightarrow> True | Some n \<Rightarrow> 1 \<le> length n \<and> length n \<le> 100)"

definition new_admin :: "(string \<Rightarrow> string) \<Rightarrow> create_admin_input \<Rightarrow> oid \<Rightarrow> date \<Rightarrow> admin_user" where
  "new_admin hash inp newId now =
     \<lparr>adm_id = newId, adm_createdAt = now, adm_email = latin1_trim (js_lower (ca_email inp)),
      adm_name = Some (or_default (ca_name inp) ''Admin''), adm_role = or_default (ca_role inp) SUPER_ADMIN,
      adm_permissions = [], adm_2fa_enabled = False, adm_2fa_secret = None, adm_2fa_recoveryCodes = [], adm_ipAllowlist = [],
      adm_lastLoginAt = None, adm_lastLoginIp = None, adm_disabled = False, adm_passwordHash = hash (ca_password inp)\<rparr>"

text \<open>
  The look-up and the insert of \<open>createAdmin\<close>. A duplicate key reported by the insert has
  another message than the look-up, so the HTTP operation does not turn it into a conflict.
\<close>

definition createAdmin_check :: "(string \<Rightarrow> bool) \<Rightarrow> create_admin_input \<Rightarrow> admin_user list \<Rightarrow> app_error option" where
  "createAdmin_check is_email inp admins =
     (if \<not> createAdminSchema is_email inp then Some ValidationError
      else if exists_doc (\<lambda>a. adm_email a = latin1_trim (js_lower (ca_email inp))) admins
      then Some (ConflictError ''ADMIN_EMAIL_IN_USE'') else None)"

definition createAdmin_insert ::
  "(string \<Rightarrow> string) \<Rightarrow> create_admin_input \<Rightarrow> oid \<Rightarrow> date \<Rightarrow> admin_user list \<Rightarrow> (app_error + admin_user) \<times> admin_user list" where
  "createAdmin_insert hash inp newId now admins =
     (case create admin_clash (new_admin hash inp newId now) admins of
        Inl _ \<Rightarrow> (Inl (InternalError ''INTERNAL''), admins)
      | Inr admins' \<Rightarrow>
          (case findOne (\<lambda>a. adm_id a = newId) admins' of
             None \<Rightarrow> (Inl NotFoundError, admins')
           | Some full \<Rightarrow> (Inr full, admins')))"

definition admins_create ::
  "(string \<Rightarrow> bool) \<Rightarrow> (string \<Rightarrow> string) \<Rightarrow> create_admin_input \<Rightarrow> oid \<Rightarrow> date \<Rightarrow> 'r admin_state
   \<Rightarrow> (app_error + admin_user) \<times> 'r admin_state" where
  "admins_create is_email hash inp newId now st =
     (case createAdmin_check is_email inp (am_users st) of
        Some e \<Rightarrow> (Inl e, st)
      | None \<Rightarrow> (let (answer, us) = createAdmin_insert hash inp newId now (am_users st) in (answer, with_admins us st)))"

definition admins_update :: "oid \<Rightarrow> (admin_user \<Rightarrow> admin_user) \<Rightarrow> 'r admin_state \<Rightarrow> (app_error + admin_user) \<times> 'r admin_state" where
  "admins_update i f st =
     (case findOneAndUpdate (\<lambda>a. adm_id a = i) f (am_users st) of
        (None, us) \<Rightarrow> (Inl NotFoundError, with_admins us st)
      | (Some updated, us) \<Rightarrow> (Inr updated, with_admins us st))"

definition changeRole :: "oid \<Rightarrow> admin_role \<Rightarrow> 'r admin_state \<Rightarrow> (app_error + admin_user) \<times> 'r admin_state" where
  "changeRole i role st = admins_update i (\<lambda>a. a\<lparr>adm_role := role\<rparr>) st"

definition toggle2fa :: "oid \<Rightarrow> bool \<Rightarrow> 'r admin_state \<Rightarrow> (app_error + admin_user) \<times> 'r admin_state" where
  "toggle2fa i enabled st = admins_update i (\<lambda>a. a\<lparr>adm_2fa_enabled := enabled\<rparr>) st"

definition admins_forceLogout :: "'r admin_redis \<Rightarrow> oid \<Rightarrow> date \<Rightarrow> 'r admin_state \<Rightarrow> (app_error + nat) \<times> 'r admin_state" where
  "admins_forceLogout R i now st =
     (case findOne (\<lambda>a. adm_id a = i) (am_users st) of
        None \<Rightarrow> (Inl NotFoundError, st)
      | Some admin \<Rightarrow> (let (destroyed, r) = destroyAllForAdmin R (admin_hex i) now (am_redis st) in (Inr destroyed, with_store r st)))"

definition deactivate :: "'r admin_redis \<Rightarrow> oid \<Rightarrow> date \<Rightarrow> 'r admin_state \<Rightarrow> (app_error + admin_user) \<times> 'r admin_state" where
  "deactivate R i now st =
     (case admins_update i (\<lambda>a. a\<lparr>adm_disabled := True\<rparr>) st of
        (Inl e, st1) \<Rightarrow> (Inl e, st1)
      | (Inr updated, st1) \<Rightarrow>
          (Inr updated, with_store (snd (destroyAllForAdmin R (admin_hex i) now (am_redis st1))) st1))"

section \<open>What Redis promises\<close>

text \<open>
  A server is seen through the string keys that are live at a time, with their value and
  expiry, and through the sets. A key that holds a set holds no string; Redis answers a GET
  of such a key with an error, which is seen here as an absent value.
\<close>

locale admin_redis_server =
  fixes R :: "'r admin_redis"
    and live :: "'r \<Rightarrow> date \<Rightarrow> string \<Rightarrow> (admin_session \<times> date) option"
    and members :: "'r \<Rightarrow> string \<Rightarrow> string set"
  assumes expiry: "t \<le> t' \<Longrightarrow> live r t' k =
      (case live r t k of None \<Rightarrow> None | Some (s, e) \<Rightarrow> if t' < e then Some (s, e) else None)"
    and get: "ar_get R now k r = map_option fst (live r now k)"
    and set_px: "0 < ttl \<Longrightarrow> live (ar_set_px R now k s ttl r) now = (live r now)(k \<mapsto> (s, now + ttl))"
    and set_px_members: "members (ar_set_px R now k s ttl r) = (members r)(k := {})"
    and del: "live (ar_del R now ks r) now = (\<lambda>k. if k \<in> set ks then None else live r now k)"
    and del_members: "members (ar_del R now ks r) = (\<lambda>k. if k \<in> set ks then {} else members r k)"
    and sadd: "live (ar_sadd R now k x r) now = live r now"
    and sadd_members: "live r now k = None \<Longrightarrow> members (ar_sadd R now k x r) = (members r)(k := insert x (members r k))"
    and srem: "live (ar_srem R now k x r) now = live r now"
    and srem_members: "live r now k = None \<Longrightarrow> members (ar_srem R now k x r) = (members r)(k := members r k - {x})"
    and smembers: "set (ar_smembers R now k r) = members r k"
begin

lemma live_later: "t \<le> t' \<Longrightarrow> live r t' k = Some (s, e) \<Longrightarrow> live r t k = Some (s, e)"
  using expiry [of t t' r k] by (auto split: option.splits if_splits)

lemma live_unexpired: "live r t k = Some (s, e) \<Longrightarrow> t < e"
  using expiry [of t t r k] by (auto split: if_splits)

end

definition hex_id :: "string \<Rightarrow> bool" where
  "hex_id s \<longleftrightarrow> s \<noteq> [] \<and> set s \<subseteq> set ''0123456789abcdef''"

lemma hex_key: "hex_id s \<Longrightarrow> sessionKey s \<noteq> adminIndexKey a"
  by (cases s) (auto simp: hex_id_def sessionKey_def adminIndexKey_def)

lemma sessionKey_eq [simp]: "sessionKey a = sessionKey b \<longleftrightarrow> a = b"
  by (simp add: sessionKey_def)

lemma adminIndexKey_eq [simp]: "adminIndexKey a = adminIndexKey b \<longleftrightarrow> a = b"
  by (simp add: adminIndexKey_def)

lemma ttl_pos [simp]: "0 < ADMIN_SESSION_IDLE_TTL_MS"
  by (simp add: ADMIN_SESSION_IDLE_TTL_MS_def)

text \<open>
  The invariant of the store at a time: a live key is the key of the session it holds, the
  session is in the index of its admin, and its times fit together. \<open>ok\<close> is what else is
  claimed of the sessions.
\<close>

definition session_fits :: "(admin_session \<Rightarrow> bool) \<Rightarrow> date \<Rightarrow> admin_session \<Rightarrow> bool" where
  "session_fits ok clock s \<longleftrightarrow> hex_id (as_sessionId s) \<and> as_createdAt s \<le> as_lastSeenAt s \<and> as_lastSeenAt s \<le> clock \<and>
     as_absoluteExpiresAt s = as_createdAt s + ADMIN_SESSION_ABSOLUTE_TTL_MS \<and> ok s"

definition store_ok ::
  "('r \<Rightarrow> date \<Rightarrow> string \<Rightarrow> (admin_session \<times> date) option) \<Rightarrow> ('r \<Rightarrow> string \<Rightarrow> string set) \<Rightarrow> (admin_session \<Rightarrow> bool)
   \<Rightarrow> date \<Rightarrow> 'r \<Rightarrow> bool" where
  "store_ok live members ok clock r \<longleftrightarrow>
     (\<forall>k s e. live r clock k = Some (s, e) \<longrightarrow>
        k = sessionKey (as_sessionId s) \<and> e = as_lastSeenAt s + ADMIN_SESSION_IDLE_TTL_MS \<and>
        as_sessionId s \<in> members r (adminIndexKey (as_adminId s)) \<and> session_fits ok clock s) \<and>
     (\<forall>a. \<forall>x \<in> members r (adminIndexKey a). hex_id x)"

lemma store_okI:
  "(\<And>a x. x \<in> members r (adminIndexKey a) \<Longrightarrow> hex_id x) \<Longrightarrow>
   (\<And>k s e. live r clock k = Some (s, e) \<Longrightarrow> k = sessionKey (as_sessionId s) \<and> e = as_lastSeenAt s + ADMIN_SESSION_IDLE_TTL_MS \<and>
        as_sessionId s \<in> members r (adminIndexKey (as_adminId s)) \<and> session_fits ok clock s) \<Longrightarrow> store_ok live members ok clock r"
  by (simp add: store_ok_def)

lemma store_okD:
  assumes "store_ok live members ok clock r" "live r clock k = Some (s, e)"
  shows "k = sessionKey (as_sessionId s)" "e = as_lastSeenAt s + ADMIN_SESSION_IDLE_TTL_MS"
    "as_sessionId s \<in> members r (adminIndexKey (as_adminId s))" "session_fits ok clock s"
  using assms by (simp_all add: store_ok_def)

lemma store_ok_hex: "store_ok live members ok clock r \<Longrightarrow> x \<in> members r (adminIndexKey a) \<Longrightarrow> hex_id x"
  unfolding store_ok_def by blast

context admin_redis_server
begin

abbreviation inv :: "(admin_session \<Rightarrow> bool) \<Rightarrow> date \<Rightarrow> 'r \<Rightarrow> bool" where
  "inv \<equiv> store_ok live members"

lemma inv_later:
  assumes "inv ok t r" "t \<le> t'"
  shows "inv ok t' r"
proof (rule store_okI)
  show "x \<in> members r (adminIndexKey a) \<Longrightarrow> hex_id x" for a x by (rule store_ok_hex [OF assms(1)])
  fix k s e assume "live r t' k = Some (s, e)"
  from store_okD [OF assms(1) live_later [OF assms(2) this]]
  show "k = sessionKey (as_sessionId s) \<and> e = as_lastSeenAt s + ADMIN_SESSION_IDLE_TTL_MS \<and>
      as_sessionId s \<in> members r (adminIndexKey (as_adminId s)) \<and> session_fits ok t' s"
    using assms(2) by (auto simp: session_fits_def)
qed

lemma inv_mono: "inv ok t r \<Longrightarrow> (\<And>k s e. live r t k = Some (s, e) \<Longrightarrow> ok s \<Longrightarrow> ok' s) \<Longrightarrow> inv ok' t r"
  by (rule store_okI) (auto dest: store_okD store_ok_hex simp: session_fits_def)

lemma index_no_string:
  assumes "inv ok t r"
  shows "live r t (adminIndexKey a) = None"
proof (cases "live r t (adminIndexKey a)")
  case (Some v)
  obtain s e where "v = (s, e)" by (cases v)
  from store_okD(1,4) [OF assms Some [unfolded this]] show ?thesis using hex_key [of "as_sessionId s" a] by (simp add: session_fits_def)
qed

lemma inv_at_key: "inv ok t r \<Longrightarrow> live r t (sessionKey sid) = Some (s, e) \<Longrightarrow> as_sessionId s = sid"
  by (auto dest: store_okD(1))

lemma set_px_inv:
  assumes inv: "inv ok now r" and s: "sid = as_sessionId s" "as_lastSeenAt s = now" "session_fits ok now s"
    and m: "sid \<in> members r (adminIndexKey (as_adminId s))"
  shows "inv ok now (ar_set_px R now (sessionKey sid) s ADMIN_SESSION_IDLE_TTL_MS r)"
proof (rule store_okI)
  have id: "hex_id sid" using s by (simp add: session_fits_def)
  show "x \<in> members (ar_set_px R now (sessionKey sid) s ADMIN_SESSION_IDLE_TTL_MS r) (adminIndexKey a) \<Longrightarrow> hex_id x" for a x
    using store_ok_hex [OF inv] by (auto simp: set_px_members split: if_splits)
  fix k v e assume v: "live (ar_set_px R now (sessionKey sid) s ADMIN_SESSION_IDLE_TTL_MS r) now k = Some (v, e)"
  then show "k = sessionKey (as_sessionId v) \<and> e = as_lastSeenAt v + ADMIN_SESSION_IDLE_TTL_MS \<and>
      as_sessionId v \<in> members (ar_set_px R now (sessionKey sid) s ADMIN_SESSION_IDLE_TTL_MS r) (adminIndexKey (as_adminId v)) \<and>
      session_fits ok now v"
    using s m hex_key [OF id, symmetric] store_okD [OF inv, of k v e]
    by (cases "k = sessionKey sid") (auto simp: set_px set_px_members)
qed

lemma create_inv:
  assumes inv: "inv ok now r" and id: "hex_id (ai_sessionId i)" and ok: "ok (new_admin_session i now)"
  shows "inv ok now (snd (session_create R i now r))"
proof -
  let ?s = "new_admin_session i now" and ?k = "sessionKey (ai_sessionId i)" and ?a = "adminIndexKey (ai_adminId i)"
  let ?r1 = "ar_set_px R now ?k ?s ADMIN_SESSION_IDLE_TTL_MS r"
  have ka: "adminIndexKey b \<noteq> ?k" for b using hex_key [OF id] by metis
  have l1: "live ?r1 now = (live r now)(?k \<mapsto> (?s, now + ADMIN_SESSION_IDLE_TTL_MS))" by (rule set_px) simp
  have "live ?r1 now ?a = None" using ka index_no_string [OF inv] unfolding l1 by simp
  then have m: "members (ar_sadd R now ?a (ai_sessionId i) ?r1) = (members ?r1)(?a := insert (ai_sessionId i) (members ?r1 ?a))"
    by (rule sadd_members)
  have c: "snd (session_create R i now r) = ar_sadd R now ?a (ai_sessionId i) ?r1"
    by (simp add: session_create_def new_admin_session_def Let_def)
  have fits: "session_fits ok now ?s" using id ok by (simp add: session_fits_def new_admin_session_def)
  show ?thesis
    unfolding c
  proof (rule store_okI)
    show "x \<in> members (ar_sadd R now ?a (ai_sessionId i) ?r1) (adminIndexKey b) \<Longrightarrow> hex_id x" for b x
      using store_ok_hex [OF inv] id unfolding m set_px_members by (auto split: if_splits)
    fix k v e assume "live (ar_sadd R now ?a (ai_sessionId i) ?r1) now k = Some (v, e)"
    then show "k = sessionKey (as_sessionId v) \<and> e = as_lastSeenAt v + ADMIN_SESSION_IDLE_TTL_MS \<and>
        as_sessionId v \<in> members (ar_sadd R now ?a (ai_sessionId i) ?r1) (adminIndexKey (as_adminId v)) \<and> session_fits ok now v"
      using fits ka store_okD [OF inv, of k v e] unfolding sadd l1 m set_px_members
      by (cases "k = ?k") (auto simp: new_admin_session_def)
  qed
qed

lemma destroy_live: "live (session_destroy R sid now r) now k = (if k = sessionKey sid then None else live r now k)"
  by (simp add: session_destroy_def del srem split: option.splits)

lemma destroy_members:
  assumes "inv ok now r" "hex_id sid" "x \<in> members r (adminIndexKey a)" "x \<noteq> sid"
  shows "x \<in> members (session_destroy R sid now r) (adminIndexKey a)"
  using assms(3,4) hex_key [OF assms(2), symmetric] index_no_string [OF assms(1)]
  by (auto simp: session_destroy_def del_members srem_members split: option.splits)

lemma destroy_inv:
  assumes inv: "inv ok now r" and id: "hex_id sid"
  shows "inv ok now (session_destroy R sid now r)"
proof (rule store_okI)
  show "x \<in> members (session_destroy R sid now r) (adminIndexKey a) \<Longrightarrow> hex_id x" for a x
    using store_ok_hex [OF inv] index_no_string [OF inv]
    by (auto simp: session_destroy_def del_members srem_members split: option.splits if_splits)
  fix k v e assume "live (session_destroy R sid now r) now k = Some (v, e)"
  then have k: "k \<noteq> sessionKey sid" and v: "live r now k = Some (v, e)" by (simp_all add: destroy_live split: if_splits)
  note old = store_okD [OF inv v]
  then have "as_sessionId v \<noteq> sid" using k by auto
  then show "k = sessionKey (as_sessionId v) \<and> e = as_lastSeenAt v + ADMIN_SESSION_IDLE_TTL_MS \<and>
      as_sessionId v \<in> members (session_destroy R sid now r) (adminIndexKey (as_adminId v)) \<and> session_fits ok now v"
    using old destroy_members [OF inv id] by blast
qed

text \<open>A read: what it answers is live, within its idle time and within its absolute lifetime.\<close>

lemma get_session:
  assumes inv: "inv ok now r" and v: "ar_get R now (sessionKey sid) r = Some v"
  shows "as_sessionId v = sid" "hex_id sid" "sid \<in> members r (adminIndexKey (as_adminId v))" "session_fits ok now v"
    "now < as_lastSeenAt v + ADMIN_SESSION_IDLE_TTL_MS"
proof -
  obtain e where e: "live r now (sessionKey sid) = Some (v, e)" using v unfolding get by auto
  show "as_sessionId v = sid" by (rule inv_at_key [OF inv e])
  then show "hex_id sid" "sid \<in> members r (adminIndexKey (as_adminId v))" "session_fits ok now v"
    "now < as_lastSeenAt v + ADMIN_SESSION_IDLE_TTL_MS"
    using store_okD [OF inv e] live_unexpired [OF e] by (auto simp: session_fits_def)
qed

lemma session_get_inv: "inv ok now r \<Longrightarrow> inv ok now (snd (session_get R sid now r))"
  using destroy_inv get_session by (auto simp: session_get_def split: option.splits)

lemma session_get_Some:
  assumes "session_get R sid now r = (Some s, r')"
  shows "r' = r" "ar_get R now (sessionKey sid) r = Some s" "now < as_absoluteExpiresAt s"
  using assms by (auto simp: session_get_def split: option.splits if_splits)

text \<open>Writing back a session that was read and is seen now.\<close>

lemma rewrite_inv:
  assumes inv: "inv ok now r" and v: "ar_get R now (sessionKey sid) r = Some v"
    and same: "as_sessionId v' = as_sessionId v" "as_adminId v' = as_adminId v" "as_createdAt v' = as_createdAt v"
      "as_absoluteExpiresAt v' = as_absoluteExpiresAt v" "as_lastSeenAt v' = now" and ok: "ok v \<Longrightarrow> ok v'"
  shows "inv ok now (ar_set_px R now (sessionKey sid) v' ADMIN_SESSION_IDLE_TTL_MS r)"
  using get_session [OF inv v] same ok by (intro set_px_inv inv) (auto simp: session_fits_def)

lemma touch_inv:
  assumes inv: "inv ok now r" and keep: "\<And>s. ok s \<Longrightarrow> ok (s\<lparr>as_lastSeenAt := now\<rparr>)"
  shows "inv ok now (snd (session_touch R sid now r))"
proof (cases "session_get R sid now r")
  case (Pair answer r1)
  show ?thesis
  proof (cases answer)
    case None
    then show ?thesis using session_get_inv [OF inv, of sid] by (simp add: session_touch_def Pair)
  next
    case (Some v)
    note g = session_get_Some [OF Pair [unfolded Some]]
    show ?thesis
      using rewrite_inv [OF inv g(2), of "v\<lparr>as_lastSeenAt := now\<rparr>"] keep g(1)
      by (simp add: session_touch_def touch_write_def Pair Some Let_def)
  qed
qed

lemma rotate_inv:
  assumes inv: "inv ok now r" and keep: "\<And>s. ok s \<Longrightarrow> ok (s\<lparr>as_csrfToken := token, as_lastSeenAt := now\<rparr>)"
  shows "inv ok now (snd (session_rotateCsrf R sid token now r))"
proof (cases "session_get R sid now r")
  case (Pair answer r1)
  show ?thesis
  proof (cases answer)
    case None
    then show ?thesis using session_get_inv [OF inv, of sid] by (simp add: session_rotateCsrf_def Pair)
  next
    case (Some v)
    note g = session_get_Some [OF Pair [unfolded Some]]
    show ?thesis
      using rewrite_inv [OF inv g(2), of "v\<lparr>as_csrfToken := token, as_lastSeenAt := now\<rparr>"] keep g(1)
      by (simp add: session_rotateCsrf_def Pair Some Let_def)
  qed
qed

text \<open>Destroying all sessions of an admin leaves none of them live.\<close>

lemma destroyAll_inv:
  assumes inv: "inv ok now r"
  shows "inv (\<lambda>s. ok s \<and> as_adminId s \<noteq> a) now (snd (destroyAllForAdmin R a now r))"
proof (rule store_okI)
  let ?r = "snd (destroyAllForAdmin R a now r)"
  have ids: "set (ar_smembers R now (adminIndexKey a) r) = members r (adminIndexKey a)" by (rule smembers)
  have sub: "members ?r (adminIndexKey b) \<subseteq> members r (adminIndexKey b)" for b
    by (auto simp: destroyAllForAdmin_def Let_def del_members)
  then show "x \<in> members ?r (adminIndexKey b) \<Longrightarrow> hex_id x" for b x using store_ok_hex [OF inv] by blast
  fix k v e assume "live ?r now k = Some (v, e)"
  then have v: "live r now k = Some (v, e)" and n: "k \<notin> sessionKey ` members r (adminIndexKey a)"
    using ids by (auto simp: destroyAllForAdmin_def Let_def del split: if_splits)
  note old = store_okD [OF inv v]
  have hex: "hex_id (as_sessionId v)" using old(4) by (simp add: session_fits_def)
  have a: "as_adminId v \<noteq> a" using old(1,3) n by auto
  have "adminIndexKey (as_adminId v) \<notin> sessionKey ` members r (adminIndexKey a)"
  proof
    assume "adminIndexKey (as_adminId v) \<in> sessionKey ` members r (adminIndexKey a)"
    then obtain x where "x \<in> members r (adminIndexKey a)" "sessionKey x = adminIndexKey (as_adminId v)" by auto
    then show False using store_ok_hex [OF inv] hex_key by blast
  qed
  then have "as_sessionId v \<in> members ?r (adminIndexKey (as_adminId v))"
    using old(3) a
    by (auto simp: destroyAllForAdmin_def Let_def del_members ids)
  then show "k = sessionKey (as_sessionId v) \<and> e = as_lastSeenAt v + ADMIN_SESSION_IDLE_TTL_MS \<and>
      as_sessionId v \<in> members ?r (adminIndexKey (as_adminId v)) \<and> session_fits (\<lambda>s. ok s \<and> as_adminId s \<noteq> a) now v"
    using old a by (simp add: session_fits_def)
qed

end

section \<open>A server that keeps the promise\<close>

type_synonym admin_space = "(string \<Rightarrow> (admin_session \<times> date) option) \<times> (string \<Rightarrow> string list)"

definition admin_space_live :: "admin_space \<Rightarrow> date \<Rightarrow> string \<Rightarrow> (admin_session \<times> date) option" where
  "admin_space_live r t k = (case fst r k of None \<Rightarrow> None | Some (s, e) \<Rightarrow> if t < e then Some (s, e) else None)"

definition admin_space_members :: "admin_space \<Rightarrow> string \<Rightarrow> string set" where
  "admin_space_members r k = set (snd r k)"

definition admin_space_redis :: "admin_space admin_redis" where
  "admin_space_redis =
     \<lparr>ar_get = \<lambda>now k r. map_option fst (admin_space_live r now k),
      ar_set_px = \<lambda>now k s ttl r. ((admin_space_live r now)(k \<mapsto> (s, now + ttl)), (snd r)(k := [])),
      ar_del = \<lambda>now ks r. (\<lambda>k. if k \<in> set ks then None else admin_space_live r now k, \<lambda>k. if k \<in> set ks then [] else snd r k),
      ar_sadd = \<lambda>now k x r. (case admin_space_live r now k of
        None \<Rightarrow> (admin_space_live r now, (snd r)(k := List.insert x (snd r k))) | Some _ \<Rightarrow> r),
      ar_srem = \<lambda>now k x r. (case admin_space_live r now k of
        None \<Rightarrow> (admin_space_live r now, (snd r)(k := removeAll x (snd r k))) | Some _ \<Rightarrow> r),
      ar_smembers = \<lambda>now k r. snd r k\<rparr>"

lemma admin_space_live_at: "admin_space_live (admin_space_live r t, m) t = admin_space_live r t"
  by (rule ext) (auto simp: admin_space_live_def split: option.splits)

lemma admin_space_live_upd: "t < e \<Longrightarrow> admin_space_live ((admin_space_live r t)(k \<mapsto> (s, e)), m) t = (admin_space_live r t)(k \<mapsto> (s, e))"
  by (rule ext) (auto simp: admin_space_live_def split: option.splits)

lemma admin_space_live_del: "admin_space_live (\<lambda>k. if k \<in> K then None else admin_space_live r t k, m) t =
    (\<lambda>k. if k \<in> K then None else admin_space_live r t k)"
  by (rule ext) (auto simp: admin_space_live_def split: option.splits)

interpretation admin_space: admin_redis_server admin_space_redis admin_space_live admin_space_members
proof
  fix t t' :: date and r k assume "t \<le> t'"
  then show "admin_space_live r t' k = (case admin_space_live r t k of None \<Rightarrow> None
      | Some (s, e) \<Rightarrow> if t' < e then Some (s, e) else None)"
    by (auto simp: admin_space_live_def split: option.splits)
qed (auto simp: admin_space_redis_def admin_space_live_at admin_space_live_upd admin_space_live_del admin_space_members_def
    fun_eq_iff split: option.splits)

section \<open>Cookies come back\<close>

lemma dropWhile_none: "\<forall>c \<in> set s. \<not> P c \<Longrightarrow> dropWhile P s = s"
  by (cases s) auto

lemma trim_plain: "\<forall>c \<in> set s. \<not> latin1_space c \<Longrightarrow> latin1_trim s = s"
  using dropWhile_none [of s latin1_space] dropWhile_none [of "rev s" latin1_space] by (simp add: latin1_trim_def)

lemma hex_plain:
  assumes "hex_id s"
  shows "\<forall>c \<in> set s. \<not> latin1_space c" "CHR '';'' \<notin> set s" "strip_quotes s = s"
proof -
  have hex: "c \<in> set ''0123456789abcdef''" if "c \<in> set s" for c
    using assms that unfolding hex_id_def by blast
  have all: "list_all (\<lambda>c. \<not> latin1_space c \<and> c \<noteq> CHR '';'' \<and> c \<noteq> CHR 34) ''0123456789abcdef''" by code_simp
  have ok: "\<not> latin1_space c \<and> c \<noteq> CHR '';'' \<and> c \<noteq> CHR 34" if "c \<in> set s" for c
    by (rule bspec [OF all [unfolded list_all_iff] hex [OF that]])
  then show "\<forall>c \<in> set s. \<not> latin1_space c" "CHR '';'' \<notin> set s" by blast+
  have "s \<noteq> [] \<Longrightarrow> hd s \<noteq> CHR 34" using ok [OF hd_in_set] by blast
  then show "strip_quotes s = s" by (auto simp: strip_quotes_def)
qed

definition cookie_header :: "string \<Rightarrow> string \<Rightarrow> string" where
  "cookie_header sessionId csrfToken = ADMIN_SESSION_COOKIE @ ''='' @ sessionId @ ''; '' @ CSRF_COOKIE @ ''='' @ csrfToken"

lemma cookie_back:
  assumes "hex_id sid" "hex_id tok"
  shows "extractCookie (Some (cookie_header sid tok)) ADMIN_SESSION_COOKIE = Some sid"
    and "extractCookie (Some (cookie_header sid tok)) CSRF_COOKIE = Some tok"
proof -
  let ?a = "ADMIN_SESSION_COOKIE @ ''='' @ sid" and ?b = "'' '' @ CSRF_COOKIE @ ''='' @ tok"
  have n: "CHR '';'' \<notin> set ?a" "CHR '';'' \<notin> set ?b"
    using hex_plain(2) [OF assms(1)] hex_plain(2) [OF assms(2)] by (auto simp: ADMIN_SESSION_COOKIE_def CSRF_COOKIE_def)
  have "cookie_header sid tok = ?a @ CHR '';'' # ?b" by (simp add: cookie_header_def)
  then have segs: "split_on (CHR '';'') (cookie_header sid tok) = [?a, ?b]"
    using split_on_first [OF n(1), of ?b] split_on_none [OF n(2)] by (simp only: append_Cons append_Nil)
  have ka: "takeWhile (\<lambda>c. c \<noteq> CHR ''='') ?a = ADMIN_SESSION_COOKIE" "dropWhile (\<lambda>c. c \<noteq> CHR ''='') ?a = CHR ''='' # sid"
    and kb: "takeWhile (\<lambda>c. c \<noteq> CHR ''='') ?b = '' '' @ CSRF_COOKIE" "dropWhile (\<lambda>c. c \<noteq> CHR ''='') ?b = CHR ''='' # tok"
    by (simp_all add: ADMIN_SESSION_COOKIE_def CSRF_COOKIE_def)
  have t: "latin1_trim ADMIN_SESSION_COOKIE = ADMIN_SESSION_COOKIE" "latin1_trim ('' '' @ CSRF_COOKIE) = CSRF_COOKIE"
    "ADMIN_SESSION_COOKIE \<noteq> CSRF_COOKIE" by code_simp+
  have v: "strip_quotes (latin1_trim sid) = sid" "strip_quotes (latin1_trim tok) = tok"
    using hex_plain [OF assms(1)] hex_plain [OF assms(2)] by (simp_all add: trim_plain)
  have ne: "cookie_header sid tok \<noteq> []" by (simp add: cookie_header_def)
  show "extractCookie (Some (cookie_header sid tok)) ADMIN_SESSION_COOKIE = Some sid"
    and "extractCookie (Some (cookie_header sid tok)) CSRF_COOKIE = Some tok"
    unfolding extractCookie_def by (simp_all only: option.case ne if_False if_True segs cookie_in.simps ka kb list.case t v simp_thms)
qed

lemma safeEqual_iff: "safeEqual a b = Inr True \<longleftrightarrow> a = b"
  by (auto simp: safeEqual_def)

section \<open>Reachable states\<close>

text \<open>The routes of the sign-in module that need a session.\<close>

definition logout_route :: "'r admin_redis \<Rightarrow> admin_request \<Rightarrow> date \<Rightarrow> 'r admin_state \<Rightarrow> (app_error + unit) \<times> 'r admin_state" where
  "logout_route R req now st =
     (case adminSession R req now (am_redis st) of
        (Inl e, r) \<Rightarrow> (Inl e, with_store r st)
      | (Inr session, r) \<Rightarrow>
          (case csrfCheck req (Some session) of
             Inl e \<Rightarrow> (Inl e, with_store r st)
           | Inr _ \<Rightarrow>
               (Inr (), case extractCookie (rq_cookie req) ADMIN_SESSION_COOKIE of
                  None \<Rightarrow> with_store r st
                | Some sessionId \<Rightarrow> if sessionId = [] then with_store r st else admin_logout R sessionId now (with_store r st))))"

definition rotate_route ::
  "'r admin_redis \<Rightarrow> admin_request \<Rightarrow> string \<Rightarrow> date \<Rightarrow> 'r admin_state \<Rightarrow> (app_error + string) \<times> 'r admin_state" where
  "rotate_route R req newToken now st =
     (case adminSession R req now (am_redis st) of
        (Inl e, r) \<Rightarrow> (Inl e, with_store r st)
      | (Inr session, r) \<Rightarrow>
          (case csrfCheck req (Some session) of
             Inl e \<Rightarrow> (Inl e, with_store r st)
           | Inr _ \<Rightarrow>
               (case admin_rotateCsrf R (as_sessionId session) newToken now (with_store r st) of
                  (None, st1) \<Rightarrow> (Inl UnauthorizedError, st1)
                | (Some token, st1) \<Rightarrow> (Inr token, st1))))"

text \<open>
  Everything that changes admins or sessions, one operation at a time, as time passes. The
  session ids are drawn as hexadecimal strings, the ids of new admins are new.
\<close>

inductive admin_step ::
  "'r admin_redis \<Rightarrow> (string \<Rightarrow> string \<Rightarrow> bool) \<Rightarrow> (string \<Rightarrow> string) \<Rightarrow> (string \<Rightarrow> bool) \<Rightarrow> date \<times> 'r admin_state
   \<Rightarrow> date \<times> 'r admin_state \<Rightarrow> bool"
  for R bcrypt hash is_email where
  admin_login_step: "t \<le> now \<Longrightarrow> hex_id sid \<Longrightarrow>
    admin_step R bcrypt hash is_email (t, st) (now, snd (admin_login R bcrypt inp sid tok now st))"
| admin_request_step: "t \<le> now \<Longrightarrow>
    admin_step R bcrypt hash is_email (t, st) (now, with_store (snd (admin_chain R (am_configs st) roles req now (am_redis st))) st)"
| admin_logout_step: "t \<le> now \<Longrightarrow> admin_step R bcrypt hash is_email (t, st) (now, snd (logout_route R req now st))"
| admin_rotate_step: "t \<le> now \<Longrightarrow> admin_step R bcrypt hash is_email (t, st) (now, snd (rotate_route R req token now st))"
| admin_create_step: "t \<le> now \<Longrightarrow> newId \<notin> adm_id ` set (am_users st) \<Longrightarrow>
    admin_step R bcrypt hash is_email (t, st) (now, snd (admins_create is_email hash inp2 newId now st))"
| admin_role_step: "t \<le> now \<Longrightarrow> admin_step R bcrypt hash is_email (t, st) (now, snd (changeRole i role st))"
| admin_2fa_step: "t \<le> now \<Longrightarrow> admin_step R bcrypt hash is_email (t, st) (now, snd (toggle2fa i enabled st))"
| admin_force_step: "t \<le> now \<Longrightarrow> admin_step R bcrypt hash is_email (t, st) (now, snd (admins_forceLogout R i now st))"
| admin_deactivate_step: "t \<le> now \<Longrightarrow> admin_step R bcrypt hash is_email (t, st) (now, snd (deactivate R i now st))"

text \<open>The outcomes of a sign-in.\<close>

lemma admin_login_cases:
  obtains e where "admin_login R bcrypt inp sid tok now st = (Inl e, st)"
    "\<not> (\<exists>a. findByEmail (al_email inp) (am_users st) = Some a \<and> \<not> adm_disabled a \<and> bcrypt (al_password inp) (adm_passwordHash a) \<and>
        enforceIpAllowlist (am_configs st) (al_ip inp) (adm_ipAllowlist a) = Inr () \<and> \<not> adm_2fa_enabled a)"
  | a where "findByEmail (al_email inp) (am_users st) = Some a" "\<not> adm_disabled a"
      "snd (admin_login R bcrypt inp sid tok now st) =
        with_admins (update_first (\<lambda>b. adm_id b = adm_id a) (touch_admin (al_ip inp) now) (am_users st))
          (with_store (snd (session_create R (login_session inp a sid tok) now (am_redis st))) st)"
      "bcrypt (al_password inp) (adm_passwordHash a)" "enforceIpAllowlist (am_configs st) (al_ip inp) (adm_ipAllowlist a) = Inr ()"
      "\<not> adm_2fa_enabled a"
      "fst (admin_login R bcrypt inp sid tok now st) =
        Inr \<lparr>lr_sessionId = sid, lr_csrfToken = tok, lr_admin = \<lparr>la_id = admin_hex (adm_id a), la_email = adm_email a, la_role = adm_role a,
          la_permissions = adm_permissions a, la_twoFactorEnabled = False\<rparr>, lr_absoluteExpiresAt = now + ADMIN_SESSION_ABSOLUTE_TTL_MS\<rparr>"
proof (cases "findByEmail (al_email inp) (am_users st)")
  case None
  then show thesis by (intro that(1)) (simp_all add: admin_login_def)
next
  case (Some a)
  show thesis
  proof (cases "\<not> adm_disabled a \<and> bcrypt (al_password inp) (adm_passwordHash a) \<and>
      enforceIpAllowlist (am_configs st) (al_ip inp) (adm_ipAllowlist a) = Inr () \<and> \<not> adm_2fa_enabled a")
    case True
    then show thesis
      by (intro that(2) [OF Some]) (simp_all add: admin_login_def Some Let_def updateOne_def ADMIN_SESSION_ABSOLUTE_TTL_MS_def)
  next
    case False
    then have "\<exists>e. admin_login R bcrypt inp sid tok now st = (Inl e, st)"
      by (cases "enforceIpAllowlist (am_configs st) (al_ip inp) (adm_ipAllowlist a)") (auto simp: admin_login_def Some)
    then obtain e where "admin_login R bcrypt inp sid tok now st = (Inl e, st)" ..
    then show thesis by (rule that(1)) (use False Some in auto)
  qed
qed

text \<open>An admin a session may belong to.\<close>

definition enabled_in :: "admin_user list \<Rightarrow> admin_session \<Rightarrow> bool" where
  "enabled_in us s \<longleftrightarrow> (\<exists>a \<in> set us. admin_hex (adm_id a) = as_adminId s \<and> \<not> adm_disabled a)"

definition admins_ok :: "admin_user list \<Rightarrow> bool" where
  "admins_ok us \<longleftrightarrow> distinct (map adm_id us) \<and> distinct (map adm_email us)"

lemma with_store_simps [simp]: "am_users (with_store r st) = am_users st" "am_redis (with_store r st) = r"
  "am_configs (with_store r st) = am_configs st"
  by (simp_all add: with_store_def)

lemma with_admins_simps [simp]: "am_users (with_admins us st) = us" "am_redis (with_admins us st) = am_redis st"
  "am_configs (with_admins us st) = am_configs st"
  by (simp_all add: with_admins_def)

text \<open>An update of one admin that keeps its id and e-mail keeps the collection sound.\<close>

lemma admins_ok_update: "(\<And>a. adm_id (f a) = adm_id a) \<Longrightarrow> (\<And>a. adm_email (f a) = adm_email a) \<Longrightarrow>
    admins_ok us \<Longrightarrow> admins_ok (update_first p f us)"
  unfolding admins_ok_def by (subst (1 2) map_update_first) simp_all

lemma enabled_update:
  assumes "\<And>a. adm_id (f a) = adm_id a" "\<And>a. adm_disabled (f a) = adm_disabled a"
  shows "enabled_in us s \<Longrightarrow> enabled_in (update_first p f us) s"
  unfolding enabled_in_def by (induction us) (use assms in auto)

lemma enabled_disable:
  assumes "distinct (map adm_id us)" "enabled_in us s" "as_adminId s \<noteq> admin_hex i"
  shows "enabled_in (update_first (\<lambda>a. adm_id a = i) (\<lambda>a. a\<lparr>adm_disabled := True\<rparr>) us) s"
  using assms unfolding enabled_in_def update_first_key [OF assms(1)] by fastforce

lemma adminSession_cases:
  obtains "adminSession R req now r = (Inl UnauthorizedError, r)"
  | sid where "extractCookie (rq_cookie req) ADMIN_SESSION_COOKIE = Some sid"
      "adminSession R req now r = (case fst (session_touch R sid now r) of None \<Rightarrow> Inl UnauthorizedError | Some s \<Rightarrow> Inr s,
         snd (session_touch R sid now r))"
proof (cases "extractCookie (rq_cookie req) ADMIN_SESSION_COOKIE")
  case None
  then show thesis by (intro that(1)) (simp add: adminSession_def)
next
  case (Some sid)
  show thesis
  proof (cases "sid = []")
    case True
    then show thesis using Some by (intro that(1)) (simp add: adminSession_def)
  next
    case False
    then show thesis using Some by (intro that(2) [OF Some]) (auto simp: adminSession_def split: prod.splits option.splits)
  qed
qed

lemma admin_chain_store: "snd (admin_chain R cfgs roles req now r) \<in> {r, snd (adminSession R req now r)}"
  by (auto simp: admin_chain_def split: sum.splits prod.splits)

context admin_redis_server
begin

lemma adminSession_inv:
  assumes "inv ok now r" "\<And>s. ok s \<Longrightarrow> ok (s\<lparr>as_lastSeenAt := now\<rparr>)"
  shows "inv ok now (snd (adminSession R req now r))"
  by (rule adminSession_cases [of R req now r]) (use touch_inv [OF assms] assms(1) in simp_all)

text \<open>What the session gate accepts.\<close>

lemma adminSession_accepts:
  assumes inv: "inv ok now r" and run: "adminSession R req now r = (Inr s, r')"
  obtains v sid where "extractCookie (rq_cookie req) ADMIN_SESSION_COOKIE = Some sid" "ar_get R now (sessionKey sid) r = Some v"
    "s = v\<lparr>as_lastSeenAt := now\<rparr>" "session_fits ok now v" "now < as_absoluteExpiresAt v"
    "now < as_lastSeenAt v + ADMIN_SESSION_IDLE_TTL_MS" "hex_id sid" "as_sessionId v = sid"
    "r' = ar_set_px R now (sessionKey sid) s ADMIN_SESSION_IDLE_TTL_MS r"
proof -
  obtain sid where sid: "extractCookie (rq_cookie req) ADMIN_SESSION_COOKIE = Some sid" and t: "session_touch R sid now r = (Some s, r')"
    by (rule adminSession_cases [of R req now r]) (use run in \<open>auto simp: prod_eq_iff split: option.splits\<close>)
  obtain v r1 where g: "session_get R sid now r = (Some v, r1)" using t
    by (auto simp: session_touch_def split: prod.splits option.splits)
  note v = session_get_Some [OF g]
  show thesis
    using that [OF sid v(2)] get_session [OF inv v(2)] v t g
    by (auto simp: session_touch_def touch_write_def Let_def)
qed

lemma destroyed_live_le: "live (session_destroy R sid now r) now k = Some x \<Longrightarrow> live r now k = Some x"
  by (simp add: destroy_live split: if_splits)

abbreviation state_ok :: "date \<Rightarrow> 'r admin_state \<Rightarrow> bool" where
  "state_ok t st \<equiv> admins_ok (am_users st) \<and> inv (enabled_in (am_users st)) t (am_redis st)"

lemma enabled_seen [simp]: "enabled_in us (s\<lparr>as_lastSeenAt := n\<rparr>) = enabled_in us s"
  "enabled_in us (s\<lparr>as_csrfToken := c\<rparr>) = enabled_in us s"
  by (simp_all add: enabled_in_def)

lemma inv_enabled_update:
  assumes "inv (enabled_in us) t r" "\<And>a. adm_id (f a) = adm_id a" "\<And>a. adm_disabled (f a) = adm_disabled a"
  shows "inv (enabled_in (update_first p f us)) t r"
  using assms(1) by (rule inv_mono) (rule enabled_update [OF assms(2,3)])

lemma state_ok_update:
  assumes "state_ok now st" "\<And>a. adm_id (f a) = adm_id a" "\<And>a. adm_email (f a) = adm_email a" "\<And>a. adm_disabled (f a) = adm_disabled a"
  shows "state_ok now (snd (admins_update i f st))"
  using assms inv_enabled_update [of "am_users st" now "am_redis st" f "\<lambda>a. adm_id a = i"]
  by (auto simp: admins_update_def findOneAndUpdate_def intro!: admins_ok_update split: option.splits)

lemma login_ok:
  assumes ok: "state_ok now st" and sid: "hex_id sid"
  shows "state_ok now (snd (admin_login R bcrypt inp sid tok now st))"
proof (rule admin_login_cases [of R bcrypt inp sid tok now st])
  fix e assume "admin_login R bcrypt inp sid tok now st = (Inl e, st)"
  then show ?thesis using ok by simp
next
  fix a assume a: "findByEmail (al_email inp) (am_users st) = Some a" "\<not> adm_disabled a"
    and out: "snd (admin_login R bcrypt inp sid tok now st) =
      with_admins (update_first (\<lambda>b. adm_id b = adm_id a) (touch_admin (al_ip inp) now) (am_users st))
        (with_store (snd (session_create R (login_session inp a sid tok) now (am_redis st))) st)"
  let ?us = "update_first (\<lambda>b. adm_id b = adm_id a) (touch_admin (al_ip inp) now) (am_users st)"
  have t: "\<And>a. adm_id (touch_admin (al_ip inp) now a) = adm_id a" "\<And>a. adm_email (touch_admin (al_ip inp) now a) = adm_email a"
    "\<And>a. adm_disabled (touch_admin (al_ip inp) now a) = adm_disabled a" by (simp_all add: touch_admin_def)
  have "a \<in> set (am_users st)" using a(1) findOne_SomeD unfolding findByEmail_def by metis
  then have "enabled_in (am_users st) (new_admin_session (login_session inp a sid tok) now)"
    using a(2) by (auto simp: enabled_in_def new_admin_session_def login_session_def)
  then have "enabled_in ?us (new_admin_session (login_session inp a sid tok) now)" by (rule enabled_update [OF t(1,3)])
  moreover have "inv (enabled_in ?us) now (am_redis st)" by (rule inv_enabled_update [OF conjunct2 [OF ok] t(1,3)])
  moreover have "hex_id (ai_sessionId (login_session inp a sid tok))" using sid by (simp add: login_session_def)
  ultimately have "inv (enabled_in ?us) now (snd (session_create R (login_session inp a sid tok) now (am_redis st)))"
    by (intro create_inv)
  moreover have "admins_ok ?us" by (rule admins_ok_update) (use ok t in simp_all)
  ultimately show ?thesis unfolding out by simp
qed

lemma logout_ok:
  assumes ok: "state_ok now st"
  shows "state_ok now (snd (logout_route R req now st))"
proof -
  have i: "inv (enabled_in (am_users st)) now (snd (adminSession R req now (am_redis st)))"
    by (rule adminSession_inv) (use ok in auto)
  show ?thesis
  proof (cases "adminSession R req now (am_redis st)")
    case (Pair answer r)
    show ?thesis
    proof (cases answer)
      case (Inr s)
      obtain sid where "extractCookie (rq_cookie req) ADMIN_SESSION_COOKIE = Some sid" "hex_id sid"
        by (rule adminSession_accepts [OF _ Pair [unfolded Inr]]) (use ok in auto)
      then show ?thesis using i ok destroy_inv [of "enabled_in (am_users st)" now r sid]
        by (auto simp: logout_route_def Pair Inr admin_logout_def split: sum.splits)
    qed (use i ok in \<open>simp add: logout_route_def Pair\<close>)
  qed
qed

lemma rotate_ok:
  assumes ok: "state_ok now st"
  shows "state_ok now (snd (rotate_route R req token now st))"
proof -
  have i: "inv (enabled_in (am_users st)) now (snd (adminSession R req now (am_redis st)))"
    by (rule adminSession_inv) (use ok in auto)
  have "inv (enabled_in (am_users st)) now (snd (session_rotateCsrf R sid token now (snd (adminSession R req now (am_redis st)))))" for sid
    by (rule rotate_inv [OF i]) simp
  then show ?thesis using i ok
    by (auto simp: rotate_route_def admin_rotateCsrf_def Let_def split: sum.splits prod.splits option.splits)
       (metis snd_conv)+
qed

lemma deactivate_ok:
  assumes ok: "state_ok now st"
  shows "state_ok now (snd (deactivate R i now st))"
proof -
  let ?us = "update_first (\<lambda>a. adm_id a = i) (\<lambda>a. a\<lparr>adm_disabled := True\<rparr>) (am_users st)"
  have d: "distinct (map adm_id (am_users st))" using ok by (simp add: admins_ok_def)
  have "inv (\<lambda>s. enabled_in (am_users st) s \<and> as_adminId s \<noteq> admin_hex i) now (snd (destroyAllForAdmin R (admin_hex i) now (am_redis st)))"
    by (rule destroyAll_inv) (use ok in simp)
  then have "inv (enabled_in ?us) now (snd (destroyAllForAdmin R (admin_hex i) now (am_redis st)))"
    by (rule inv_mono) (auto intro: enabled_disable [OF d])
  moreover have "admins_ok ?us" using ok by (intro admins_ok_update) auto
  moreover have "?us = am_users st" if "findOne (\<lambda>a. adm_id a = i) (am_users st) = None"
    by (rule update_first_None [OF that])
  ultimately show ?thesis using ok
    by (auto simp: deactivate_def admins_update_def findOneAndUpdate_def split: option.splits)
qed

lemma state_ok_later: "state_ok t st \<Longrightarrow> t \<le> now \<Longrightarrow> state_ok now st"
  using inv_later by blast

lemma admin_step_ok:
  assumes "admin_step R bcrypt hash is_email s s'" "state_ok (fst s) (snd s)"
  shows "state_ok (fst s') (snd s')"
  using assms
proof (induction rule: admin_step.induct)
  case (admin_login_step t now sid st inp tok)
  from state_ok_later [OF this(3) [unfolded fst_conv snd_conv] this(1)] show ?case
    unfolding fst_conv snd_conv by (rule login_ok [OF _ admin_login_step.hyps(2)])
next
  case (admin_request_step t now st roles req)
  then have ok: "state_ok now st" using state_ok_later by simp
  have "inv (enabled_in (am_users st)) now (snd (adminSession R req now (am_redis st)))"
    by (rule adminSession_inv) (use ok in auto)
  then show ?case using ok admin_chain_store [of R "am_configs st" roles req now "am_redis st"] by auto
next
  case (admin_logout_step t now st req)
  from state_ok_later [OF this(2) [unfolded fst_conv snd_conv] this(1)] show ?case
    unfolding fst_conv snd_conv by (rule logout_ok)
next
  case (admin_rotate_step t now st req token)
  from state_ok_later [OF this(2) [unfolded fst_conv snd_conv] this(1)] show ?case
    unfolding fst_conv snd_conv by (rule rotate_ok)
next
  case (admin_create_step t now newId st inp2)
  then have ok: "state_ok now st" using state_ok_later by simp
  show ?case
  proof (cases "snd (admins_create is_email hash inp2 newId now st) = st")
    case False
    let ?a = "new_admin hash inp2 newId now"
    have out: "snd (admins_create is_email hash inp2 newId now st) = with_admins (am_users st @ [?a]) st"
      and new: "adm_email ?a \<notin> adm_email ` set (am_users st)"
      using False by (auto simp: admins_create_def createAdmin_insert_def create_def list_ex_iff admin_clash_def split: option.splits if_splits)
    have "inv (enabled_in (am_users st @ [?a])) now (am_redis st)"
      using ok by (auto intro: inv_mono simp: enabled_in_def)
    then show ?thesis using ok new admin_create_step.hyps(2) unfolding out by (simp add: admins_ok_def new_admin_def)
  qed (use ok in simp)
next
  case (admin_role_step t now st i role)
  from state_ok_later [OF this(2) [unfolded fst_conv snd_conv] this(1)] show ?case
    unfolding fst_conv snd_conv changeRole_def by (rule state_ok_update) simp_all
next
  case (admin_2fa_step t now st i enabled)
  from state_ok_later [OF this(2) [unfolded fst_conv snd_conv] this(1)] show ?case
    unfolding fst_conv snd_conv toggle2fa_def by (rule state_ok_update) simp_all
next
  case (admin_force_step t now st i)
  then have ok: "state_ok now st" using state_ok_later by simp
  then have "inv (\<lambda>s. enabled_in (am_users st) s \<and> as_adminId s \<noteq> admin_hex i) now (snd (destroyAllForAdmin R (admin_hex i) now (am_redis st)))"
    by (intro destroyAll_inv) simp
  then have "inv (enabled_in (am_users st)) now (snd (destroyAllForAdmin R (admin_hex i) now (am_redis st)))"
    by (rule inv_mono) simp
  then show ?case using ok by (auto simp: admins_forceLogout_def Let_def split: option.splits prod.splits)
next
  case (admin_deactivate_step t now st i)
  from state_ok_later [OF this(2) [unfolded fst_conv snd_conv] this(1)] show ?case
    unfolding fst_conv snd_conv by (rule deactivate_ok)
qed

lemma admin_run_ok:
  assumes "(admin_step R bcrypt hash is_email)\<^sup>*\<^sup>* s s'" "state_ok (fst s) (snd s)"
  shows "state_ok (fst s') (snd s')"
  using assms(1)
proof (induction rule: rtranclp_induct)
  case base
  show ?case by (rule assms(2))
next
  case (step y z)
  show ?case by (rule admin_step_ok [OF step.hyps(2) step.IH])
qed

end

section \<open>Properties\<close>

definition fresh_store ::
  "('r \<Rightarrow> date \<Rightarrow> string \<Rightarrow> (admin_session \<times> date) option) \<Rightarrow> ('r \<Rightarrow> string \<Rightarrow> string set) \<Rightarrow> date \<Rightarrow> 'r \<Rightarrow> bool" where
  "fresh_store live members t r \<longleftrightarrow> (\<forall>k. live r t k = None \<and> members r k = {})"

lemma fresh_store_ok: "fresh_store live members t r \<Longrightarrow> store_ok live members ok t r"
  by (simp add: fresh_store_def store_ok_def)

lemma enabled_inD: "enabled_in us s \<Longrightarrow> \<exists>a \<in> set us. admin_hex (adm_id a) = as_adminId s \<and> \<not> adm_disabled a"
  by (simp add: enabled_in_def)

definition sample_admin :: "oid \<Rightarrow> admin_role \<Rightarrow> bool \<Rightarrow> admin_user" where
  "sample_admin i role disabled =
     \<lparr>adm_id = i, adm_createdAt = 0, adm_email = ''a'' @ js_String (int i), adm_name = None, adm_role = role, adm_permissions = [],
      adm_2fa_enabled = False, adm_2fa_secret = Some ''secret'', adm_2fa_recoveryCodes = [''code''], adm_ipAllowlist = [],
      adm_lastLoginAt = None, adm_lastLoginIp = None, adm_disabled = disabled, adm_passwordHash = ''pw''\<rparr>"

definition sample_admin_state :: "admin_user list \<Rightarrow> admin_space admin_state" where
  "sample_admin_state us = \<lparr>am_users = us, am_configs = [], am_redis = (\<lambda>_. None, \<lambda>_. [])\<rparr>"

definition sample_admin_login :: admin_login_input where
  "sample_admin_login = \<lparr>al_email = ''a1'', al_password = ''pw'', al_ip = ''::1'', al_userAgent = ''ua''\<rparr>"

definition sample_admin_request :: admin_request where
  "sample_admin_request = \<lparr>rq_method = ''POST'', rq_ip = Some ''::1'', rq_cookie = Some (cookie_header ''ab'' ''cd''), rq_csrfHeader = Some ''cd''\<rparr>"

definition sample_signed_admin :: "admin_space admin_state" where
  "sample_signed_admin = snd (admin_login admin_space_redis (=) sample_admin_login ''ab'' ''cd'' 0 (sample_admin_state [sample_admin 1 PAYMENT_ADMIN False]))"

definition sample_admin_session :: admin_session where
  "sample_admin_session = new_admin_session (login_session sample_admin_login (sample_admin 1 PAYMENT_ADMIN False) ''ab'' ''cd'') 0"

lemma sample_signed_store: "store_ok admin_space_live admin_space_members (\<lambda>_. True) 0 (am_redis sample_signed_admin)"
proof -
  have out: "am_redis sample_signed_admin =
      snd (session_create admin_space_redis (login_session sample_admin_login (sample_admin 1 PAYMENT_ADMIN False) ''ab'' ''cd'') 0 (\<lambda>_. None, \<lambda>_. []))"
  proof -
    have f: "findByEmail (al_email sample_admin_login) (am_users (sample_admin_state [sample_admin 1 PAYMENT_ADMIN False])) =
        Some (sample_admin 1 PAYMENT_ADMIN False)" by code_simp
    show ?thesis
      unfolding sample_signed_admin_def admin_login_def f option.case
      by (simp add: sample_admin_def sample_admin_login_def enforceIpAllowlist_def sample_admin_state_def findOne_def)
  qed
  show ?thesis
    unfolding out by (rule admin_space.create_inv)
      (simp_all add: fresh_store_ok fresh_store_def admin_space_live_def admin_space_members_def login_session_def hex_id_def)
qed

text \<open>C18: 
  However sign-ins, requests, role changes, forced logouts and deactivations follow each other,
  ids and e-mails of admins stay unique, and a request passes the session gate only for an
  admin who is enabled, within four hours of the sign-in and within thirty minutes of the
  request before.
\<close>

theorem admin_sessions_valid:
  assumes redis: "admin_redis_server R live members"
    and start: "fresh_store live members t0 (am_redis st0)" "admins_ok (am_users st0)"
    and run: "(admin_step R bcrypt hash is_email)\<^sup>*\<^sup>* (t0, st0) (t, st)" and now: "t \<le> now"
  shows "admins_ok (am_users st) \<and>
    (\<forall>s r. adminSession R req now (am_redis st) = (Inr s, r) \<longrightarrow>
       (\<exists>a \<in> set (am_users st). admin_hex (adm_id a) = as_adminId s \<and> \<not> adm_disabled a) \<and>
       now < as_createdAt s + 4 * 60 * 60 * 1000 \<and> as_lastSeenAt s = now \<and>
       (\<exists>v. ar_get R now (sessionKey (as_sessionId s)) (am_redis st) = Some v \<and> s = v\<lparr>as_lastSeenAt := now\<rparr> \<and>
          now < as_lastSeenAt v + 30 * 60 * 1000))"
proof -
  have start': "admins_ok (am_users (snd (t0, st0))) \<and>
      store_ok live members (enabled_in (am_users (snd (t0, st0)))) (fst (t0, st0)) (am_redis (snd (t0, st0)))"
    using start by (simp add: fresh_store_ok)
  have ok: "admins_ok (am_users st)" "store_ok live members (enabled_in (am_users st)) now (am_redis st)"
    using admin_redis_server.admin_run_ok [OF redis run start'] admin_redis_server.inv_later [OF redis _ now] by simp_all
  show ?thesis
  proof (intro conjI allI impI ok)
    fix s r assume "adminSession R req now (am_redis st) = (Inr s, r)"
    then obtain v sid where v: "ar_get R now (sessionKey sid) (am_redis st) = Some v" "s = v\<lparr>as_lastSeenAt := now\<rparr>"
        "session_fits (enabled_in (am_users st)) now v" "now < as_absoluteExpiresAt v"
        "now < as_lastSeenAt v + ADMIN_SESSION_IDLE_TTL_MS" "as_sessionId v = sid"
      by (rule admin_redis_server.adminSession_accepts [OF redis ok(2)])
    then have "enabled_in (am_users st) s" by (simp add: session_fits_def enabled_in_def)
    then show "\<exists>a \<in> set (am_users st). admin_hex (adm_id a) = as_adminId s \<and> \<not> adm_disabled a" by (rule enabled_inD)
    show "now < as_createdAt s + 4 * 60 * 60 * 1000" "as_lastSeenAt s = now"
      using v by (simp_all add: session_fits_def ADMIN_SESSION_ABSOLUTE_TTL_MS_def)
    show "\<exists>v. ar_get R now (sessionKey (as_sessionId s)) (am_redis st) = Some v \<and> s = v\<lparr>as_lastSeenAt := now\<rparr> \<and>
          now < as_lastSeenAt v + 30 * 60 * 1000"
      using v by (intro exI [of _ v]) (simp add: ADMIN_SESSION_IDLE_TTL_MS_def)
  qed
qed

theorem admin_sessions_valid_witness:
  "\<exists>s r. adminSession admin_space_redis sample_admin_request 60000 (am_redis sample_signed_admin) = (Inr s, r) \<and>
    60000 < as_createdAt s + 4 * 60 * 60 * 1000"
proof -
  have start: "fresh_store admin_space_live admin_space_members 0 (am_redis (sample_admin_state [sample_admin 1 PAYMENT_ADMIN False]))"
      "admins_ok (am_users (sample_admin_state [sample_admin 1 PAYMENT_ADMIN False]))"
    by (simp_all add: fresh_store_def admin_space_live_def admin_space_members_def sample_admin_state_def admins_ok_def)
  have "(admin_step admin_space_redis (=) id (\<lambda>_. True)) (0, sample_admin_state [sample_admin 1 PAYMENT_ADMIN False]) (0, sample_signed_admin)"
    unfolding sample_signed_admin_def by (rule admin_login_step) (simp_all add: hex_id_def)
  then have run: "(admin_step admin_space_redis (=) id (\<lambda>_. True))\<^sup>*\<^sup>* (0, sample_admin_state [sample_admin 1 PAYMENT_ADMIN False]) (0, sample_signed_admin)"
    by (rule r_into_rtranclp)
  have "case fst (adminSession admin_space_redis sample_admin_request 60000 (am_redis sample_signed_admin)) of Inl _ \<Rightarrow> False | Inr _ \<Rightarrow> True"
    by code_simp
  then obtain s r where s: "adminSession admin_space_redis sample_admin_request 60000 (am_redis sample_signed_admin) = (Inr s, r)"
    by (cases "adminSession admin_space_redis sample_admin_request 60000 (am_redis sample_signed_admin)") (auto split: sum.splits)
  have "(0 :: int) \<le> 60000" by simp
  from admin_sessions_valid [OF admin_space.admin_redis_server_axioms start run this] s show ?thesis by blast
qed

lemma adminSession_cookie:
  assumes "extractCookie (rq_cookie req) ADMIN_SESSION_COOKIE = Some sid" "sid \<noteq> []"
    and "ar_get R now (sessionKey sid) r = Some v" "now < as_absoluteExpiresAt v"
  shows "adminSession R req now r =
    (Inr (v\<lparr>as_lastSeenAt := now\<rparr>), ar_set_px R now (sessionKey sid) (v\<lparr>as_lastSeenAt := now\<rparr>) ADMIN_SESSION_IDLE_TTL_MS r)"
  using assms by (simp add: adminSession_def session_touch_def session_get_def touch_write_def Let_def)

text \<open>
  A request that is in the middle of refreshing its session brings it back after the admin
  was deactivated: the write of the refresh restores the key, no index knows it any more, so
  the disabled admin keeps access and a forced logout does not end it.
\<close>

theorem deactivated_admin_comes_back:
  fixes st :: "'r admin_state" and R :: "'r admin_redis" and v :: admin_session and sid :: string and i :: oid and t0 t1 t2 :: date
  defines "st1 \<equiv> snd (deactivate R i t1 st)"
  defines "st2 \<equiv> with_store (snd (touch_write R sid v t2 (am_redis st1))) st1"
  assumes redis: "admin_redis_server R live members" and ok: "store_ok live members ok t0 (am_redis st)"
    and "read": "fst (session_get R sid t0 (am_redis st)) = Some v"
    and admin: "findOne (\<lambda>a. adm_id a = i) (am_users st) = Some a" "as_adminId v = admin_hex i"
    and times: "t0 \<le> t1" "t1 \<le> t2" "t2 \<le> now" "now < t2 + ADMIN_SESSION_IDLE_TTL_MS" "now < as_absoluteExpiresAt v"
    and cookie: "extractCookie (rq_cookie req) ADMIN_SESSION_COOKIE = Some sid"
  shows "map_option adm_disabled (findOne (\<lambda>a. adm_id a = i) (am_users st2)) = Some True \<and>
    fst (admins_forceLogout R i t2 st2) = Inr 0 \<and>
    fst (adminSession R req now (am_redis (snd (admins_forceLogout R i t2 st2)))) = Inr (v\<lparr>as_lastSeenAt := now\<rparr>)"
proof -
  let ?r = "am_redis st" and ?u = "findOne (\<lambda>a. adm_id a = i)" and ?k = "sessionKey sid" and ?x = "adminIndexKey (admin_hex i)"
  let ?v = "v\<lparr>as_lastSeenAt := t2\<rparr>"
  obtain r0 where g: "session_get R sid t0 ?r = (Some v, r0)" using "read" by (cases "session_get R sid t0 ?r") simp
  have v: "ar_get R t0 ?k ?r = Some v" using admin_redis_server.session_get_Some [OF redis g] by simp
  note s = admin_redis_server.get_session [OF redis ok v]
  then have key: "?x \<noteq> ?k" using hex_key by metis
  have upd: "?u (update_first (\<lambda>a. adm_id a = i) (\<lambda>a. a\<lparr>adm_disabled := True\<rparr>) (am_users st)) = Some (a\<lparr>adm_disabled := True\<rparr>)"
    using findOne_update_first [of "\<lambda>a. adm_id a = i" "\<lambda>a. a\<lparr>adm_disabled := True\<rparr>" "am_users st"] admin(1) by simp
  have st1: "am_users st1 = update_first (\<lambda>a. adm_id a = i) (\<lambda>a. a\<lparr>adm_disabled := True\<rparr>) (am_users st)"
    "am_redis st1 = snd (destroyAllForAdmin R (admin_hex i) t1 ?r)"
    using admin(1) by (simp_all add: st1_def deactivate_def admins_update_def findOneAndUpdate_def)
  have st2: "am_users st2 = am_users st1" "am_redis st2 = ar_set_px R t2 ?k ?v ADMIN_SESSION_IDLE_TTL_MS (am_redis st1)"
    by (simp_all add: st2_def touch_write_def Let_def)
  have "members (am_redis st1) ?x = {}"
    using admin_redis_server.smembers [OF redis, of t1 ?x ?r]
    by (auto simp: st1 destroyAllForAdmin_def Let_def admin_redis_server.del_members [OF redis])
  then have "members (am_redis st2) ?x = {}" by (simp add: st2 admin_redis_server.set_px_members [OF redis])
  then have none: "ar_smembers R t2 ?x (am_redis st2) = []"
    using admin_redis_server.smembers [OF redis, of t2 ?x "am_redis st2"] by simp
  have "live (am_redis st2) t2 ?k = Some (?v, t2 + ADMIN_SESSION_IDLE_TTL_MS)"
    by (simp add: st2 admin_redis_server.set_px [OF redis])
  then have "ar_get R now ?k (am_redis st2) = Some ?v"
    using admin_redis_server.expiry [OF redis times(3), of "am_redis st2" ?k] times(4)
    by (simp add: admin_redis_server.get [OF redis])
  then have "adminSession R req now (am_redis st2) = (Inr (?v\<lparr>as_lastSeenAt := now\<rparr>),
      ar_set_px R now ?k (?v\<lparr>as_lastSeenAt := now\<rparr>) ADMIN_SESSION_IDLE_TTL_MS (am_redis st2))"
    using s(2) times(5) by (intro adminSession_cookie [OF cookie]) (auto simp: hex_id_def)
  moreover have "admins_forceLogout R i t2 st2 = (Inr 0, with_store (am_redis st2) st2)"
    using none upd by (simp add: admins_forceLogout_def destroyAllForAdmin_def st1 st2(1))
  ultimately show ?thesis using upd by (simp add: st1 st2(1))
qed

theorem deactivated_admin_comes_back_witness:
  "fst (admins_forceLogout admin_space_redis 1 30 (with_store (snd (touch_write admin_space_redis ''ab'' sample_admin_session 30
      (am_redis (snd (deactivate admin_space_redis 1 20 sample_signed_admin))))) (snd (deactivate admin_space_redis 1 20 sample_signed_admin)))) = Inr 0"
proof -
  have r: "fst (session_get admin_space_redis ''ab'' 10 (am_redis sample_signed_admin)) = Some sample_admin_session" by code_simp
  have a: "findOne (\<lambda>a. adm_id a = 1) (am_users sample_signed_admin) = Some (touch_admin ''::1'' 0 (sample_admin 1 PAYMENT_ADMIN False))" by code_simp
  have i: "as_adminId sample_admin_session = admin_hex 1" by code_simp
  have c: "extractCookie (rq_cookie sample_admin_request) ADMIN_SESSION_COOKIE = Some ''ab''" by code_simp
  have e: "60 < as_absoluteExpiresAt sample_admin_session" by code_simp
  show ?thesis
    using deactivated_admin_comes_back [OF admin_space.admin_redis_server_axioms admin_space.inv_later [OF sample_signed_store, of 10] r a i _ _ _ _ e c, of 20 30]
    by (simp add: ADMIN_SESSION_IDLE_TTL_MS_def)
qed

text \<open>
  A change of role does not reach the sessions of the admin: the routes of the old role stay
  open to a session that was created before, although the document has the new role.
\<close>

theorem changed_role_not_applied:
  fixes st :: "'r admin_state" and R :: "'r admin_redis" and i :: oid and role :: admin_role
  defines "st1 \<equiv> snd (changeRole i role st)"
  assumes gate: "fst (admin_chain R (am_configs st) roles req now (am_redis st)) = Inr s"
    and admin: "findOne (\<lambda>a. adm_id a = i) (am_users st) = Some a" "as_adminId s = admin_hex i"
  shows "map_option adm_role (findOne (\<lambda>a. adm_id a = i) (am_users st1)) = Some role \<and>
    fst (admin_chain R (am_configs st1) roles req now (am_redis st1)) = Inr s \<and> as_role s \<in> set roles"
proof -
  have u: "findOne (\<lambda>a. adm_id a = i) (update_first (\<lambda>a. adm_id a = i) (\<lambda>a. a\<lparr>adm_role := role\<rparr>) (am_users st)) = Some (a\<lparr>adm_role := role\<rparr>)"
    using findOne_update_first [of "\<lambda>a. adm_id a = i" "\<lambda>a. a\<lparr>adm_role := role\<rparr>" "am_users st"] admin(1) by simp
  have "as_role s \<in> set roles"
    using gate by (auto simp: admin_chain_def requireAnyRole_def split: sum.splits prod.splits if_splits)
  then show ?thesis using u gate admin by (simp add: st1_def changeRole_def admins_update_def findOneAndUpdate_def)
qed

theorem changed_role_not_applied_witness:
  "\<exists>s. fst (admin_chain admin_space_redis [] [PAYMENT_ADMIN] sample_admin_request 60 (am_redis (snd (changeRole 1 SUPPORT_ADMIN sample_signed_admin)))) = Inr s"
proof -
  have c: "am_configs sample_signed_admin = []" "am_configs (snd (changeRole 1 SUPPORT_ADMIN sample_signed_admin)) = []" by code_simp+
  have g: "fst (admin_chain admin_space_redis (am_configs sample_signed_admin) [PAYMENT_ADMIN] sample_admin_request 60 (am_redis sample_signed_admin)) =
      Inr (sample_admin_session\<lparr>as_lastSeenAt := 60\<rparr>)" unfolding c by code_simp
  have a: "findOne (\<lambda>a. adm_id a = 1) (am_users sample_signed_admin) = Some (touch_admin ''::1'' 0 (sample_admin 1 PAYMENT_ADMIN False))" by code_simp
  have i: "as_adminId (sample_admin_session\<lparr>as_lastSeenAt := 60\<rparr>) = admin_hex 1" by code_simp
  show ?thesis using changed_role_not_applied [OF g a i, of SUPPORT_ADMIN] unfolding c by blast
qed

lemma safeEqual_outcome:
  obtains (equal) "safeEqual a b = Inr True" "a = b"
  | (different) "safeEqual a b = Inr False" "a \<noteq> b"
  | (bytes) "safeEqual a b = Inl (InternalError ''INTERNAL'')" "a \<noteq> b" "length a = length b" "utf8_length a \<noteq> utf8_length b"
  unfolding safeEqual_def by (cases "length a = length b"; cases "utf8_length a = utf8_length b"; cases "a = b") auto

text \<open>The outcomes of the token check of a request that writes.\<close>

lemma csrf_outcome [consumes 1]:
  assumes m: "rq_method req \<notin> set SAFE_METHODS"
  obtains (pass) "csrfCheck req (Some s) = Inr ()" "as_csrfToken s \<noteq> []" "rq_csrfHeader req = Some (as_csrfToken s)"
      "extractCookie (rq_cookie req) CSRF_COOKIE = Some (as_csrfToken s)"
  | (refuse) "csrfCheck req (Some s) = Inl (ForbiddenError ''CSRF_INVALID'')"
      "\<not> (as_csrfToken s \<noteq> [] \<and> rq_csrfHeader req = Some (as_csrfToken s) \<and> extractCookie (rq_cookie req) CSRF_COOKIE = Some (as_csrfToken s))"
  | (fail) h b where "csrfCheck req (Some s) = Inl (InternalError ''INTERNAL'')" "rq_csrfHeader req = Some h"
      "b = as_csrfToken s \<or> extractCookie (rq_cookie req) CSRF_COOKIE = Some b" "length h = length b" "utf8_length h \<noteq> utf8_length b"
      "\<not> (rq_csrfHeader req = Some (as_csrfToken s) \<and> extractCookie (rq_cookie req) CSRF_COOKIE = Some (as_csrfToken s))"
proof (cases "or_default (rq_csrfHeader req) [] = [] \<or> or_default (extractCookie (rq_cookie req) CSRF_COOKIE) [] = []")
  case True
  then have "csrfCheck req (Some s) = Inl (ForbiddenError ''CSRF_INVALID'')" using m by (simp add: csrfCheck_def Let_def)
  then show thesis by (rule refuse) (use True in auto)
next
  case False
  then obtain h c where h: "rq_csrfHeader req = Some h" "h \<noteq> []" and c: "extractCookie (rq_cookie req) CSRF_COOKIE = Some c" "c \<noteq> []"
    by (cases "rq_csrfHeader req"; cases "extractCookie (rq_cookie req) CSRF_COOKIE") auto
  show thesis
  proof (cases rule: safeEqual_outcome [of h c])
    case equal
    show ?thesis
    proof (cases rule: safeEqual_outcome [of h "as_csrfToken s"])
      case e2: equal
      show ?thesis by (rule pass) (use equal e2 h c m in \<open>simp_all add: csrfCheck_def\<close>)
    next
      case d2: different
      show ?thesis by (rule refuse) (use equal d2 h c m in \<open>simp_all add: csrfCheck_def\<close>)
    next
      case b2: bytes
      show ?thesis by (rule fail [of h "as_csrfToken s"]) (use equal b2 h c m in \<open>simp_all add: csrfCheck_def\<close>)
    qed
  next
    case different
    show ?thesis by (rule refuse) (use different h c m in \<open>auto simp: csrfCheck_def\<close>)
  next
    case bytes
    show ?thesis by (rule fail [of h c]) (use bytes h c m in \<open>auto simp: csrfCheck_def\<close>)
  qed
qed

lemma csrf_token_pass:
  assumes "rq_method req \<notin> set SAFE_METHODS" "as_csrfToken s \<noteq> []" "rq_csrfHeader req = Some (as_csrfToken s)"
    "extractCookie (rq_cookie req) CSRF_COOKIE = Some (as_csrfToken s)"
  shows "csrfCheck req (Some s) = Inr ()"
  by (rule csrf_outcome [OF assms(1), of s]) (use assms in simp_all)

text \<open>
  Double submit: a request that writes passes exactly when header, cookie and session carry
  the same non-empty token. It is turned down with 403, but with an internal error when two
  tokens agree in characters and not in bytes.
\<close>

theorem csrf_exact:
  assumes "rq_method req \<notin> set SAFE_METHODS"
  shows "(csrfCheck req adm = Inr () \<longleftrightarrow>
      (\<exists>s. adm = Some s \<and> as_csrfToken s \<noteq> [] \<and> rq_csrfHeader req = Some (as_csrfToken s) \<and>
         extractCookie (rq_cookie req) CSRF_COOKIE = Some (as_csrfToken s))) \<and>
    (csrfCheck req adm = Inr () \<or> csrfCheck req adm = Inl (ForbiddenError ''CSRF_INVALID'') \<or>
      csrfCheck req adm = Inl (InternalError ''INTERNAL'')) \<and>
    (csrfCheck req adm = Inl (InternalError ''INTERNAL'') \<longrightarrow>
      (\<exists>s h b. adm = Some s \<and> rq_csrfHeader req = Some h \<and> b \<in> {as_csrfToken s, or_default (extractCookie (rq_cookie req) CSRF_COOKIE) []} \<and>
         length h = length b \<and> utf8_length h \<noteq> utf8_length b))"
proof (cases adm)
  case None
  then show ?thesis using assms by (simp add: csrfCheck_def)
next
  case (Some s)
  from assms show ?thesis
  proof (cases rule: csrf_outcome [of req s])
    case (fail h b)
    then have "b \<in> {as_csrfToken s, or_default (extractCookie (rq_cookie req) CSRF_COOKIE) []}" by auto
    then show ?thesis using fail Some by auto
  qed (use Some in auto)
qed

theorem csrf_exact_witness:
  "csrfCheck sample_admin_request (Some sample_admin_session) = Inr () \<and>
   csrfCheck (sample_admin_request\<lparr>rq_csrfHeader := Some [CHR ''c'', char_of (233 :: nat)]\<rparr>) (Some sample_admin_session) = Inl (InternalError ''INTERNAL'')"
proof -
  have m: "rq_method sample_admin_request \<notin> set SAFE_METHODS" by code_simp
  have c: "as_csrfToken sample_admin_session = ''cd''" "rq_csrfHeader sample_admin_request = Some ''cd''"
    "extractCookie (rq_cookie sample_admin_request) CSRF_COOKIE = Some ''cd''" by code_simp+
  have "csrfCheck (sample_admin_request\<lparr>rq_csrfHeader := Some [CHR ''c'', char_of (233 :: nat)]\<rparr>) (Some sample_admin_session) =
      Inl (InternalError ''INTERNAL'')" by code_simp
  then show ?thesis using csrf_exact [OF m, of "Some sample_admin_session"] c by auto
qed

text \<open>
  A successful sign-in opens the routes of the role of the admin: a request that brings back
  the two cookies and the token passes the whole chain for the next thirty minutes, from any
  address the tenant list admits. A sign-in that fails changes nothing.
\<close>

theorem admin_login_opens_routes:
  fixes st :: "'r admin_state" and R :: "'r admin_redis" and inp :: admin_login_input and sid tok :: string and now later :: date
    and bcrypt :: "string \<Rightarrow> string \<Rightarrow> bool"
  defines "st1 \<equiv> snd (admin_login R bcrypt inp sid tok now st)"
  assumes redis: "admin_redis_server R live members" and ok: "store_ok live members ok now (am_redis st)"
    and ids: "hex_id sid" "hex_id tok" and times: "now \<le> later" "later < now + ADMIN_SESSION_IDLE_TTL_MS"
    and req: "rq_cookie req = Some (cookie_header sid tok)" "rq_csrfHeader req = Some tok" "ipAllowlist (am_configs st) req = Inr ()"
  shows "case fst (admin_login R bcrypt inp sid tok now st) of
      Inl _ \<Rightarrow> st1 = st
    | Inr res \<Rightarrow> lr_sessionId res = sid \<and> lr_csrfToken res = tok \<and>
        (\<exists>s. fst (admin_chain R (am_configs st1) [la_role (lr_admin res)] req later (am_redis st1)) = Inr s \<and>
           as_adminId s = la_id (lr_admin res) \<and> as_role s = la_role (lr_admin res) \<and> as_lastSeenAt s = later)"
proof (rule admin_login_cases [of R bcrypt inp sid tok now st])
  fix e assume "admin_login R bcrypt inp sid tok now st = (Inl e, st)"
  then show ?thesis by (simp add: st1_def)
next
  fix a
  let ?i = "login_session inp a sid tok" and ?k = "sessionKey sid" and ?x = "adminIndexKey (admin_hex (adm_id a))"
  let ?n = "new_admin_session ?i now"
  assume out: "snd (admin_login R bcrypt inp sid tok now st) =
      with_admins (update_first (\<lambda>b. adm_id b = adm_id a) (touch_admin (al_ip inp) now) (am_users st))
        (with_store (snd (session_create R ?i now (am_redis st))) st)"
    and res: "fst (admin_login R bcrypt inp sid tok now st) =
      Inr \<lparr>lr_sessionId = sid, lr_csrfToken = tok, lr_admin = \<lparr>la_id = admin_hex (adm_id a), la_email = adm_email a, la_role = adm_role a,
          la_permissions = adm_permissions a, la_twoFactorEnabled = False\<rparr>, lr_absoluteExpiresAt = now + ADMIN_SESSION_ABSOLUTE_TTL_MS\<rparr>"
  have st1: "am_redis st1 = ar_sadd R now ?x sid (ar_set_px R now ?k ?n ADMIN_SESSION_IDLE_TTL_MS (am_redis st))" "am_configs st1 = am_configs st"
    by (simp_all add: st1_def out session_create_def Let_def new_admin_session_def login_session_def)
  have "live (am_redis st1) now ?k = Some (?n, now + ADMIN_SESSION_IDLE_TTL_MS)"
    by (simp add: st1 admin_redis_server.sadd [OF redis] admin_redis_server.set_px [OF redis])
  then have get: "ar_get R later ?k (am_redis st1) = Some ?n"
    using admin_redis_server.expiry [OF redis times(1), of "am_redis st1" ?k] times(2)
    by (simp add: admin_redis_server.get [OF redis])
  have n: "as_csrfToken ?n = tok" "as_role ?n = adm_role a" "as_adminId ?n = admin_hex (adm_id a)" "later < as_absoluteExpiresAt ?n"
    using times by (simp_all add: new_admin_session_def login_session_def ADMIN_SESSION_ABSOLUTE_TTL_MS_def ADMIN_SESSION_IDLE_TTL_MS_def)
  have c: "extractCookie (rq_cookie req) ADMIN_SESSION_COOKIE = Some sid" "extractCookie (rq_cookie req) CSRF_COOKIE = Some tok"
    unfolding req(1) using cookie_back [OF ids] by simp_all
  have ne: "sid \<noteq> []" "tok \<noteq> []" using ids by (auto simp: hex_id_def)
  let ?s = "?n\<lparr>as_lastSeenAt := later\<rparr>"
  have "csrfCheck req (Some ?s) = Inr ()"
  proof (cases "rq_method req \<in> set SAFE_METHODS")
    case False
    then show ?thesis by (rule csrf_token_pass) (use n(1) c(2) req(2) ne in simp_all)
  qed (simp add: csrfCheck_def)
  then have "fst (admin_chain R (am_configs st1) [adm_role a] req later (am_redis st1)) = Inr ?s"
    using req(3) n(2) by (simp add: admin_chain_def adminSession_cookie [OF c(1) ne(1) get n(4)] st1(2) requireAnyRole_def)
  then show ?thesis using n by (simp add: res)
qed

theorem admin_login_opens_routes_witness:
  "\<exists>s. fst (admin_chain admin_space_redis [] [PAYMENT_ADMIN] sample_admin_request 1700000 (am_redis sample_signed_admin)) = Inr s \<and> as_lastSeenAt s = 1700000"
proof -
  let ?st = "sample_admin_state [sample_admin 1 PAYMENT_ADMIN False]"
  have ok: "store_ok admin_space_live admin_space_members (\<lambda>_. True) 0 (am_redis ?st)"
    by (rule fresh_store_ok) (simp add: fresh_store_def admin_space_live_def admin_space_members_def sample_admin_state_def)
  have r: "rq_cookie sample_admin_request = Some (cookie_header ''ab'' ''cd'')" "rq_csrfHeader sample_admin_request = Some ''cd''"
    "ipAllowlist (am_configs ?st) sample_admin_request = Inr ()" by code_simp+
  have c: "am_configs sample_signed_admin = []" by code_simp
  have l: "fst (admin_login admin_space_redis (=) sample_admin_login ''ab'' ''cd'' 0 ?st) =
      Inr \<lparr>lr_sessionId = ''ab'', lr_csrfToken = ''cd'', lr_admin = \<lparr>la_id = ''1'', la_email = ''a1'', la_role = PAYMENT_ADMIN,
        la_permissions = [], la_twoFactorEnabled = False\<rparr>, lr_absoluteExpiresAt = 14400000\<rparr>" by code_simp
  show ?thesis
    using admin_login_opens_routes [OF admin_space.admin_redis_server_axioms ok _ _ _ _ r, of 1700000 "(=)" sample_admin_login]
    unfolding l sample_signed_admin_def [symmetric] c
    by (auto simp: hex_id_def ADMIN_SESSION_IDLE_TTL_MS_def)
qed

text \<open>
  The list of admins hides the password hash but hands out the second-factor secret and the
  recovery codes, and a query for the enabled admins answers with the disabled ones.
\<close>

theorem admins_list_leaks:
  fixes st :: "'r admin_state"
  assumes "a \<in> set (am_users st)"
  shows "(\<exists>x \<in> set (admins_list_handler \<lparr>lq_role = None, lq_disabled = None\<rparr> st).
      adm_id x = adm_id a \<and> adm_2fa_secret x = adm_2fa_secret a \<and> adm_2fa_recoveryCodes x = adm_2fa_recoveryCodes a) \<and>
    adm_id ` set (admins_list_handler \<lparr>lq_role = None, lq_disabled = Some ''false''\<rparr> st) =
      adm_id ` {b \<in> set (am_users st). adm_disabled b}"
proof -
  have t: "adm_id (admin_public.truncate b) = adm_id b" "adm_2fa_secret (admin_public.truncate b) = adm_2fa_secret b"
    "adm_2fa_recoveryCodes (admin_public.truncate b) = adm_2fa_recoveryCodes b" for b :: admin_user
    by (simp_all add: admin_public.truncate_def)
  show ?thesis
    using assms by (auto simp: admins_list_handler_def admins_list_def find_docs_def coerce_boolean_def t image_image)
qed

theorem admins_list_leaks_witness:
  "\<exists>x \<in> set (admins_list_handler \<lparr>lq_role = None, lq_disabled = None\<rparr> (sample_admin_state [sample_admin 1 SUPER_ADMIN False])).
     adm_2fa_secret x = Some ''secret''"
proof -
  have "sample_admin 1 SUPER_ADMIN False \<in> set (am_users (sample_admin_state [sample_admin 1 SUPER_ADMIN False]))"
    by (simp add: sample_admin_state_def)
  from admins_list_leaks [OF this] show ?thesis by (auto simp: sample_admin_def)
qed

end
