(* ===== verification/Otp.thy ===== *)
theory Otp
  imports App_Errors Calendar
begin

text \<open>
  One-time passwords (src/modules/auth/otp.service.ts) and the lockout store they rely on
  (src/modules/auth/lockout.store.ts). The store is an interface with two implementations.
  \<open>lockout_store\<close> states what the service may rely on; it is proved for the in-memory
  store and for the Redis store, whose server is a parameter with the documented behaviour
  of five commands (\<open>redis_server\<close>). A store is observed through the times at which a
  phone is locked and the number of failures that count at a time.
\<close>

section \<open>The store interface and its implementations\<close>

record 's lockout_ops =
  lo_isLocked :: "date \<Rightarrow> string \<Rightarrow> 's \<Rightarrow> bool \<times> 's"
  lo_lock :: "date \<Rightarrow> string \<Rightarrow> int \<Rightarrow> 's \<Rightarrow> 's"
  lo_incrementFails :: "date \<Rightarrow> string \<Rightarrow> int \<Rightarrow> 's \<Rightarrow> int \<times> 's"
  lo_clearFails :: "date \<Rightarrow> string \<Rightarrow> 's \<Rightarrow> 's"

text \<open>
  The commands of the Redis client. Every value the program stores under these keys is a
  decimal integer, and is represented by it.
\<close>

record 'r redis =
  rd_get :: "date \<Rightarrow> string \<Rightarrow> 'r \<Rightarrow> int option"
  rd_set_ex :: "date \<Rightarrow> string \<Rightarrow> int \<Rightarrow> int \<Rightarrow> 'r \<Rightarrow> 'r"
  rd_incr :: "date \<Rightarrow> string \<Rightarrow> 'r \<Rightarrow> int \<times> 'r"
  rd_expire :: "date \<Rightarrow> string \<Rightarrow> int \<Rightarrow> 'r \<Rightarrow> 'r"
  rd_del :: "date \<Rightarrow> string \<Rightarrow> 'r \<Rightarrow> 'r"

definition lockoutKey :: "string \<Rightarrow> string" where
  "lockoutKey phone = ''otp:lockout:'' @ phone"

definition failKey :: "string \<Rightarrow> string" where
  "failKey phone = ''otp:fail:'' @ phone"

definition redis_incrementFails :: "'r redis \<Rightarrow> date \<Rightarrow> string \<Rightarrow> int \<Rightarrow> 'r \<Rightarrow> int \<times> 'r" where
  "redis_incrementFails R now phone windowSec r =
     (let key = failKey phone;
          (count, r1) = rd_incr R now key r
      in (count, if count = 1 then rd_expire R now key windowSec r1 else r1))"

definition RedisLockoutStore :: "'r redis \<Rightarrow> 'r lockout_ops" where
  "RedisLockoutStore R =
     \<lparr>lo_isLocked = \<lambda>now phone r. (rd_get R now (lockoutKey phone) r \<noteq> None, r),
      lo_lock = \<lambda>now phone ttlSec r. rd_set_ex R now (lockoutKey phone) 1 ttlSec r,
      lo_incrementFails = redis_incrementFails R,
      lo_clearFails = \<lambda>now phone r. rd_del R now (failKey phone) r\<rparr>"

record mem_store =
  ms_locks :: "string \<Rightarrow> date option"
  ms_fails :: "string \<Rightarrow> (int \<times> date) option"

definition mem_isLocked :: "date \<Rightarrow> string \<Rightarrow> mem_store \<Rightarrow> bool \<times> mem_store" where
  "mem_isLocked now phone m =
     (case ms_locks m phone of
        None \<Rightarrow> (False, m)
      | Some until \<Rightarrow> if until \<le> now then (False, m\<lparr>ms_locks := (ms_locks m)(phone := None)\<rparr>) else (True, m))"

definition mem_lock :: "date \<Rightarrow> string \<Rightarrow> int \<Rightarrow> mem_store \<Rightarrow> mem_store" where
  "mem_lock now phone ttlSec m = m\<lparr>ms_locks := (ms_locks m)(phone \<mapsto> now + ttlSec * 1000)\<rparr>"

definition mem_incrementFails :: "date \<Rightarrow> string \<Rightarrow> int \<Rightarrow> mem_store \<Rightarrow> int \<times> mem_store" where
  "mem_incrementFails now phone windowSec m =
     (let fresh = (1, m\<lparr>ms_fails := (ms_fails m)(phone \<mapsto> (1, now + windowSec * 1000))\<rparr>) in
      case ms_fails m phone of
        Some (count, expiresAtMs) \<Rightarrow>
          if expiresAtMs > now then (count + 1, m\<lparr>ms_fails := (ms_fails m)(phone \<mapsto> (count + 1, expiresAtMs))\<rparr>)
          else fresh
      | None \<Rightarrow> fresh)"

definition mem_clearFails :: "date \<Rightarrow> string \<Rightarrow> mem_store \<Rightarrow> mem_store" where
  "mem_clearFails now phone m = m\<lparr>ms_fails := (ms_fails m)(phone := None)\<rparr>"

definition InMemoryLockoutStore :: "mem_store lockout_ops" where
  "InMemoryLockoutStore =
     \<lparr>lo_isLocked = mem_isLocked, lo_lock = mem_lock, lo_incrementFails = mem_incrementFails,
      lo_clearFails = mem_clearFails\<rparr>"

text \<open>Calls of the interface with their times, and the answers a store gives to a sequence of them.\<close>

datatype lockout_call = IsLocked string | Lock string int | IncrementFails string int | ClearFails string

datatype lockout_answer = Locked bool | Fails int | Done

definition store_call :: "'s lockout_ops \<Rightarrow> date \<Rightarrow> lockout_call \<Rightarrow> 's \<Rightarrow> lockout_answer \<times> 's" where
  "store_call ops now c s =
     (case c of
        IsLocked p \<Rightarrow> map_prod Locked id (lo_isLocked ops now p s)
      | Lock p ttl \<Rightarrow> (Done, lo_lock ops now p ttl s)
      | IncrementFails p w \<Rightarrow> map_prod Fails id (lo_incrementFails ops now p w s)
      | ClearFails p \<Rightarrow> (Done, lo_clearFails ops now p s))"

fun store_calls :: "'s lockout_ops \<Rightarrow> (date \<times> lockout_call) list \<Rightarrow> 's \<Rightarrow> lockout_answer list" where
  "store_calls ops [] s = []"
| "store_calls ops ((now, c) # cs) s = (let (a, s') = store_call ops now c s in a # store_calls ops cs s')"

fun positive_span :: "lockout_call \<Rightarrow> bool" where
  "positive_span (Lock p ttl) = (0 < ttl)"
| "positive_span (IncrementFails p w) = (0 < w)"
| "positive_span _ = True"

section \<open>The one-time-password service\<close>

datatype otp_purpose = SIGNUP | LOGIN | PHONE_CHANGE | EMAIL_CHANGE

record otp_row =
  ov_id :: oid
  ov_createdAt :: date
  ov_destination :: string
  ov_otpHash :: "string option"
  ov_salt :: "string option"
  ov_attempts :: "int option"
  ov_maxAttempts :: "int option"
  ov_purpose :: "otp_purpose option"
  ov_ipAddress :: "string option"
  ov_deviceFingerprint :: "string option"
  ov_consumedAt :: "date option"
  ov_expiresAt :: date

record 's otp_state =
  otp_rows :: "otp_row list"
  otp_store :: 's
  otp_sms :: "(string \<times> string \<times> otp_purpose) list"

record otp_send_input =
  os_phone :: string
  os_purpose :: otp_purpose
  os_ipAddress :: string
  os_deviceFingerprint :: "string option"

record otp_verify_input =
  oi_phone :: string
  oi_otp :: string
  oi_purpose :: otp_purpose

definition OTP_LENGTH :: nat where "OTP_LENGTH = 6"
definition OTP_TTL_SEC :: int where "OTP_TTL_SEC = 5 * 60"
definition MAX_ATTEMPTS :: int where "MAX_ATTEMPTS = 5"
definition LOCKOUT_TRIGGER_FAILS :: int where "LOCKOUT_TRIGGER_FAILS = 3"
definition LOCKOUT_WINDOW_SEC :: int where "LOCKOUT_WINDOW_SEC = 30 * 60"

text \<open>The digest and the random numbers are parameters: \<open>sha\<close> is the hexadecimal SHA-256.\<close>

definition hashOtp :: "(string \<Rightarrow> string) \<Rightarrow> string \<Rightarrow> string \<Rightarrow> string" where
  "hashOtp sha otp salt = sha (salt @ '':'' @ otp)"

definition otp_range :: "int \<Rightarrow> bool" where
  "otp_range n \<longleftrightarrow> 10 ^ (OTP_LENGTH - 1) \<le> n \<and> n < 10 ^ OTP_LENGTH"

definition generateOtp :: "int \<Rightarrow> string" where
  "generateOtp randomInt = js_String randomInt"

definition active_otp :: "string \<Rightarrow> date \<Rightarrow> otp_row \<Rightarrow> bool" where
  "active_otp destination now r \<longleftrightarrow>
     ov_destination r = destination \<and> ov_consumedAt r = None \<and> ov_expiresAt r > now"

definition findActive :: "string \<Rightarrow> date \<Rightarrow> otp_row list \<Rightarrow> otp_row option" where
  "findActive destination now rows =
     (case sort_key (\<lambda>r. - ov_createdAt r) (find_docs (active_otp destination now) rows) of
        [] \<Rightarrow> None | r # _ \<Rightarrow> Some r)"

definition otp_new_row :: "(string \<Rightarrow> string) \<Rightarrow> otp_send_input \<Rightarrow> string \<Rightarrow> string \<Rightarrow> oid \<Rightarrow> date \<Rightarrow> otp_row" where
  "otp_new_row sha inp otp salt newId now =
     \<lparr>ov_id = newId, ov_createdAt = now, ov_destination = os_phone inp, ov_otpHash = Some (hashOtp sha otp salt),
      ov_salt = Some salt, ov_attempts = Some 0, ov_maxAttempts = Some MAX_ATTEMPTS,
      ov_purpose = Some (os_purpose inp), ov_ipAddress = Some (os_ipAddress inp),
      ov_deviceFingerprint = (if truthy_str (os_deviceFingerprint inp) then os_deviceFingerprint inp else None),
      ov_consumedAt = None, ov_expiresAt = now + OTP_TTL_SEC * 1000\<rparr>"

definition otp_send ::
  "'s lockout_ops \<Rightarrow> (string \<Rightarrow> string) \<Rightarrow> otp_send_input \<Rightarrow> int \<Rightarrow> string \<Rightarrow> oid \<Rightarrow> app_error option \<Rightarrow> date
   \<Rightarrow> 's otp_state \<Rightarrow> (app_error + unit) \<times> 's otp_state" where
  "otp_send ops sha inp randomInt salt newId smsError now st =
     (let (locked, store) = lo_isLocked ops now (os_phone inp) (otp_store st);
          st1 = st\<lparr>otp_store := store\<rparr>
      in if locked then (Inl (ConflictError ''OTP_LOCKED''), st1)
         else
           let otp = generateOtp randomInt;
               st2 = st1\<lparr>otp_rows := otp_rows st1 @ [otp_new_row sha inp otp salt newId now]\<rparr>
           in case smsError of
                Some e \<Rightarrow> (Inl e, st2)
              | None \<Rightarrow> (Inr (), st2\<lparr>otp_sms := otp_sms st2 @ [(os_phone inp, otp, os_purpose inp)]\<rparr>))"

definition recordFailAndMaybeLock :: "'s lockout_ops \<Rightarrow> string \<Rightarrow> date \<Rightarrow> 's \<Rightarrow> app_error option \<times> 's" where
  "recordFailAndMaybeLock ops phone now store =
     (let (fails, store1) = lo_incrementFails ops now phone LOCKOUT_WINDOW_SEC store
      in if fails \<ge> LOCKOUT_TRIGGER_FAILS
         then (Some (ConflictError ''OTP_LOCKED''), lo_lock ops now phone LOCKOUT_WINDOW_SEC store1)
         else (None, store1))"

text \<open>A failed verification: the failure is recorded, and the answer is the lock or the generic one.\<close>

definition failed_verify :: "'s lockout_ops \<Rightarrow> string \<Rightarrow> date \<Rightarrow> 's otp_state \<Rightarrow> (app_error + unit) \<times> 's otp_state" where
  "failed_verify ops phone now st =
     (let (lockErr, store) = recordFailAndMaybeLock ops phone now (otp_store st)
      in (Inl (or_default lockErr UnauthorizedError), st\<lparr>otp_store := store\<rparr>))"

definition otp_verify ::
  "'s lockout_ops \<Rightarrow> (string \<Rightarrow> string) \<Rightarrow> otp_verify_input \<Rightarrow> date \<Rightarrow> 's otp_state \<Rightarrow> (app_error + unit) \<times> 's otp_state" where
  "otp_verify ops sha inp now st =
     (let (locked, store) = lo_isLocked ops now (oi_phone inp) (otp_store st);
          st1 = st\<lparr>otp_store := store\<rparr>
      in if locked then (Inl (ConflictError ''OTP_LOCKED''), st1)
         else
           case findActive (oi_phone inp) now (otp_rows st1) of
             None \<Rightarrow> failed_verify ops (oi_phone inp) now st1
           | Some row \<Rightarrow>
               if or_default (ov_attempts row) 0 \<ge> or_default (ov_maxAttempts row) MAX_ATTEMPTS
               then failed_verify ops (oi_phone inp) now st1
               else if \<not> truthy_str (ov_otpHash row) then (Inl UnauthorizedError, st1)
               else if Some (hashOtp sha (oi_otp inp) (or_default (ov_salt row) '''')) \<noteq> ov_otpHash row
               then failed_verify ops (oi_phone inp) now
                      (st1\<lparr>otp_rows := snd (updateOne (\<lambda>r. ov_id r = ov_id row)
                         (\<lambda>r. r\<lparr>ov_attempts := Some (or_default (ov_attempts r) 0 + 1)\<rparr>) (otp_rows st1))\<rparr>)
               else
                 (Inr (), st1\<lparr>otp_rows := snd (updateOne (\<lambda>r. ov_id r = ov_id row)
                                (\<lambda>r. r\<lparr>ov_consumedAt := Some now\<rparr>) (otp_rows st1)),
                              otp_store := lo_clearFails ops now (oi_phone inp) (otp_store st1)\<rparr>))"

section \<open>The contract of a store\<close>

text \<open>
  \<open>locked s p t\<close>: the phone \<open>p\<close> is locked at time \<open>t\<close> if nothing happens until then;
  \<open>fails s p t\<close>: the failures of \<open>p\<close> that still count at \<open>t\<close>. The laws only speak of
  times that are not before the call.
\<close>

locale lockout_store =
  fixes ops :: "'s lockout_ops"
    and ok :: "'s \<Rightarrow> bool"
    and locked :: "'s \<Rightarrow> string \<Rightarrow> date \<Rightarrow> bool"
    and fails :: "'s \<Rightarrow> string \<Rightarrow> date \<Rightarrow> int"
  assumes locked_before: "ok s \<Longrightarrow> t \<le> t' \<Longrightarrow> locked s p t' \<Longrightarrow> locked s p t"
    and isLocked_ok: "ok s \<Longrightarrow> ok (snd (lo_isLocked ops now p s))"
    and isLocked_answer: "ok s \<Longrightarrow> fst (lo_isLocked ops now p s) = locked s p now"
    and isLocked_locked: "ok s \<Longrightarrow> now \<le> t \<Longrightarrow> locked (snd (lo_isLocked ops now p s)) q t = locked s q t"
    and isLocked_fails: "ok s \<Longrightarrow> now \<le> t \<Longrightarrow> fails (snd (lo_isLocked ops now p s)) q t = fails s q t"
    and lock_ok: "ok s \<Longrightarrow> 0 < ttl \<Longrightarrow> ok (lo_lock ops now p ttl s)"
    and lock_locked: "ok s \<Longrightarrow> 0 < ttl \<Longrightarrow> now \<le> t \<Longrightarrow>
      locked (lo_lock ops now p ttl s) q t = (if q = p then t < now + ttl * 1000 else locked s q t)"
    and lock_fails: "ok s \<Longrightarrow> 0 < ttl \<Longrightarrow> now \<le> t \<Longrightarrow> fails (lo_lock ops now p ttl s) q t = fails s q t"
    and incr_ok: "ok s \<Longrightarrow> 0 < w \<Longrightarrow> ok (snd (lo_incrementFails ops now p w s))"
    and incr_answer: "ok s \<Longrightarrow> 0 < w \<Longrightarrow> fst (lo_incrementFails ops now p w s) = fails s p now + 1"
    and incr_locked: "ok s \<Longrightarrow> 0 < w \<Longrightarrow> now \<le> t \<Longrightarrow>
      locked (snd (lo_incrementFails ops now p w s)) q t = locked s q t"
    and incr_fails: "ok s \<Longrightarrow> 0 < w \<Longrightarrow> now \<le> t \<Longrightarrow>
      fails (snd (lo_incrementFails ops now p w s)) q t =
        (if q \<noteq> p then fails s q t
         else if fails s p now = 0 then (if t < now + w * 1000 then 1 else 0)
         else if fails s p t = 0 then 0 else fails s p t + 1)"
    and clear_ok: "ok s \<Longrightarrow> ok (lo_clearFails ops now p s)"
    and clear_locked: "ok s \<Longrightarrow> now \<le> t \<Longrightarrow> locked (lo_clearFails ops now p s) q t = locked s q t"
    and clear_fails: "ok s \<Longrightarrow> now \<le> t \<Longrightarrow>
      fails (lo_clearFails ops now p s) q t = (if q = p then 0 else fails s q t)"
begin

lemmas laws = isLocked_ok isLocked_answer isLocked_locked isLocked_fails lock_ok lock_locked lock_fails
  incr_ok incr_answer incr_locked incr_fails clear_ok clear_locked clear_fails

end

text \<open>
  What the documentation of Redis says of the five commands. \<open>live r t\<close> is the key space
  at time \<open>t\<close>: the value of every key that exists, with its time of expiry if it has one.
\<close>

definition still_alive :: "date \<Rightarrow> date option \<Rightarrow> bool" where
  "still_alive t e = (case e of None \<Rightarrow> True | Some d \<Rightarrow> t < d)"

text \<open>What the Redis store shows of a key space.\<close>

definition redis_locked :: "('r \<Rightarrow> date \<Rightarrow> string \<Rightarrow> (int \<times> date option) option) \<Rightarrow> 'r \<Rightarrow> string \<Rightarrow> date \<Rightarrow> bool" where
  "redis_locked live r p t \<longleftrightarrow> live r t (lockoutKey p) \<noteq> None"

definition redis_fails :: "('r \<Rightarrow> date \<Rightarrow> string \<Rightarrow> (int \<times> date option) option) \<Rightarrow> 'r \<Rightarrow> string \<Rightarrow> date \<Rightarrow> int" where
  "redis_fails live r p t = (case live r t (failKey p) of None \<Rightarrow> 0 | Some (v, _) \<Rightarrow> v)"

locale redis_server =
  fixes R :: "'r redis"
    and live :: "'r \<Rightarrow> date \<Rightarrow> string \<Rightarrow> (int \<times> date option) option"
  assumes expiry: "t \<le> t' \<Longrightarrow> live r t' k =
      (case live r t k of None \<Rightarrow> None | Some (v, e) \<Rightarrow> if still_alive t' e then Some (v, e) else None)"
    and get: "rd_get R now k r = map_option fst (live r now k)"
    and set_ex: "0 < ttl \<Longrightarrow> live (rd_set_ex R now k v ttl r) now = (live r now)(k \<mapsto> (v, Some (now + ttl * 1000)))"
    and incr: "fst (rd_incr R now k r) = (case live r now k of None \<Rightarrow> 1 | Some (v, _) \<Rightarrow> v + 1)"
    and incr_live: "live (snd (rd_incr R now k r)) now =
      (live r now)(k \<mapsto> (case live r now k of None \<Rightarrow> (1, None) | Some (v, e) \<Rightarrow> (v + 1, e)))"
    and expire: "0 < ttl \<Longrightarrow> live (rd_expire R now k ttl r) now =
      (case live r now k of None \<Rightarrow> live r now | Some (v, _) \<Rightarrow> (live r now)(k \<mapsto> (v, Some (now + ttl * 1000))))"
    and del: "live (rd_del R now k r) now = (live r now)(k := None)"
begin

lemma keys [simp]: "lockoutKey p \<noteq> failKey q" "failKey q \<noteq> lockoutKey p"
  "lockoutKey p = lockoutKey q \<longleftrightarrow> p = q" "failKey p = failKey q \<longleftrightarrow> p = q"
  by (simp_all add: lockoutKey_def failKey_def)

lemma alive_now: "live r now k = Some (v, e) \<Longrightarrow> still_alive now e"
  using expiry [of now now r k] by (auto split: if_splits)

lemma later_locked: "now \<le> t \<Longrightarrow> redis_locked live r p t \<longleftrightarrow>
    (\<exists>v e. live r now (lockoutKey p) = Some (v, e) \<and> still_alive t e)"
  by (auto simp: redis_locked_def expiry [of now t] split: option.splits prod.splits if_splits)

lemma later_fails: "now \<le> t \<Longrightarrow> redis_fails live r p t =
    (case live r now (failKey p) of None \<Rightarrow> 0 | Some (v, e) \<Rightarrow> if still_alive t e then v else 0)"
  by (auto simp: redis_fails_def expiry [of now t] split: option.splits prod.splits)

lemma incrementFails_live:
  assumes "0 < w"
  shows "live (snd (redis_incrementFails R now p w r)) now = (live r now)(failKey p \<mapsto>
    (case live r now (failKey p) of
       None \<Rightarrow> (1, Some (now + w * 1000))
     | Some (v, e) \<Rightarrow> if v = 0 then (1, Some (now + w * 1000)) else (v + 1, e)))"
proof -
  let ?k = "failKey p"
  obtain c r1 where cr: "rd_incr R now ?k r = (c, r1)" by (cases "rd_incr R now ?k r")
  have c: "c = (case live r now ?k of None \<Rightarrow> 1 | Some (v, _) \<Rightarrow> v + 1)"
    and r1: "live r1 now = (live r now)(?k \<mapsto> (case live r now ?k of None \<Rightarrow> (1, None) | Some (v, e) \<Rightarrow> (v + 1, e)))"
    using incr [of now ?k r] incr_live [of now ?k r] cr by simp_all
  have r2: "snd (redis_incrementFails R now p w r) = (if c = 1 then rd_expire R now ?k w r1 else r1)"
    by (simp add: redis_incrementFails_def cr)
  show ?thesis
  proof (cases "live r now ?k")
    case None
    then show ?thesis using c by (simp add: r2 expire [OF assms] r1)
  next
    case (Some ve)
    obtain v e where ve: "ve = (v, e)" by (cases ve)
    show ?thesis using c Some ve by (simp add: r2 expire [OF assms] r1)
  qed
qed

lemma incrementFails_answer: "fst (redis_incrementFails R now p w r) = redis_fails live r p now + 1"
  using incr [of now "failKey p" r]
  by (auto simp: redis_incrementFails_def redis_fails_def Let_def split: prod.splits option.splits)

end

text \<open>The contract holds for the Redis store on every server that behaves as documented.\<close>

sublocale redis_server \<subseteq> redis: lockout_store "RedisLockoutStore R" "\<lambda>_. True" "redis_locked live" "redis_fails live"
proof
  fix r and now t ttl w :: int and p q :: string
  let ?ops = "RedisLockoutStore R"
  show "t \<le> t' \<Longrightarrow> redis_locked live r p t' \<Longrightarrow> redis_locked live r p t" for t'
    using later_locked [of t t' r p] by (auto simp: redis_locked_def)
  show "fst (lo_isLocked ?ops now p r) = redis_locked live r p now"
    by (simp add: RedisLockoutStore_def get redis_locked_def)
  show "fst (lo_incrementFails ?ops now p w r) = redis_fails live r p now + 1"
    by (simp add: RedisLockoutStore_def incrementFails_answer)
  assume nt: "now \<le> t"
  note later = later_locked [OF nt] later_fails [OF nt]
  show "redis_locked live (snd (lo_isLocked ?ops now p r)) q t = redis_locked live r q t"
    and "redis_fails live (snd (lo_isLocked ?ops now p r)) q t = redis_fails live r q t"
    by (simp_all add: RedisLockoutStore_def)
  show "redis_locked live (lo_clearFails ?ops now p r) q t = redis_locked live r q t"
    and "redis_fails live (lo_clearFails ?ops now p r) q t = (if q = p then 0 else redis_fails live r q t)"
    by (simp_all add: RedisLockoutStore_def later del)
  assume ttl: "0 < ttl"
  show "redis_locked live (lo_lock ?ops now p ttl r) q t = (if q = p then t < now + ttl * 1000 else redis_locked live r q t)"
    and "redis_fails live (lo_lock ?ops now p ttl r) q t = redis_fails live r q t"
    by (simp_all add: RedisLockoutStore_def later set_ex [OF ttl] still_alive_def)
  assume w: "0 < w"
  note incr' = incrementFails_live [OF w]
  show "redis_locked live (snd (lo_incrementFails ?ops now p w r)) q t = redis_locked live r q t"
    by (simp add: RedisLockoutStore_def later incr')
  show "redis_fails live (snd (lo_incrementFails ?ops now p w r)) q t =
        (if q \<noteq> p then redis_fails live r q t
         else if redis_fails live r p now = 0 then (if t < now + w * 1000 then 1 else 0)
         else if redis_fails live r p t = 0 then 0 else redis_fails live r p t + 1)"
  proof (cases "live r now (failKey p)")
    case None
    then show ?thesis by (simp add: RedisLockoutStore_def later redis_fails_def [of live r p now] incr' still_alive_def)
  next
    case (Some ve)
    obtain v e where ve: "ve = (v, e)" by (cases ve)
    show ?thesis using Some ve
      by (simp add: RedisLockoutStore_def later redis_fails_def [of live r p now] incr' still_alive_def)
  qed
qed simp_all


text \<open>A server with these laws: a key space in which expired keys are not visible.\<close>

type_synonym key_space = "string \<Rightarrow> (int \<times> date option) option"

definition space_live :: "key_space \<Rightarrow> date \<Rightarrow> key_space" where
  "space_live r t k = (case r k of None \<Rightarrow> None | Some (v, e) \<Rightarrow> if still_alive t e then Some (v, e) else None)"

definition space_redis :: "key_space redis" where
  "space_redis =
     \<lparr>rd_get = \<lambda>now k r. map_option fst (space_live r now k),
      rd_set_ex = \<lambda>now k v ttl r. (space_live r now)(k \<mapsto> (v, Some (now + ttl * 1000))),
      rd_incr = \<lambda>now k r.
        (case space_live r now k of
           None \<Rightarrow> (1, (space_live r now)(k \<mapsto> (1, None)))
         | Some (v, e) \<Rightarrow> (v + 1, (space_live r now)(k \<mapsto> (v + 1, e)))),
      rd_expire = \<lambda>now k ttl r.
        (case space_live r now k of
           None \<Rightarrow> space_live r now
         | Some (v, e) \<Rightarrow> (space_live r now)(k \<mapsto> (v, Some (now + ttl * 1000)))),
      rd_del = \<lambda>now k r. (space_live r now)(k := None)\<rparr>"

lemma space_live_idem [simp]: "space_live (space_live r t) t = space_live r t"
  by (rule ext) (auto simp: space_live_def split: option.splits if_splits)

lemma space_live_upd [simp]: "still_alive t e \<Longrightarrow> space_live (r(k \<mapsto> (v, e))) t = (space_live r t)(k \<mapsto> (v, e))"
  by (rule ext) (auto simp: space_live_def)

lemma space_live_del [simp]: "space_live (r(k := None)) t = (space_live r t)(k := None)"
  by (rule ext) (auto simp: space_live_def)

lemma space_live_alive: "space_live r t k = Some (v, e) \<Longrightarrow> still_alive t e"
  by (auto simp: space_live_def split: option.splits if_splits)

interpretation space: redis_server space_redis space_live
proof
  fix t t' :: date and r :: key_space and k assume le: "t \<le> t'"
  then have "still_alive t' e \<Longrightarrow> still_alive t e" for e by (auto simp: still_alive_def split: option.splits)
  then show "space_live r t' k = (case space_live r t k of None \<Rightarrow> None
      | Some (v, e) \<Rightarrow> if still_alive t' e then Some (v, e) else None)"
    by (auto simp: space_live_def split: option.splits)
next
  fix now :: date and r :: key_space and k
  show "space_live (snd (rd_incr space_redis now k r)) now =
      (space_live r now)(k \<mapsto> (case space_live r now k of None \<Rightarrow> (1, None) | Some (v, e) \<Rightarrow> (v + 1, e)))"
    using space_live_alive [of r now k]
    by (auto simp: space_redis_def still_alive_def [of _ None] split: option.splits)
next
  fix now ttl :: int and r :: key_space and k v assume "0 < ttl"
  then have a: "still_alive now (Some (now + ttl * 1000))" by (simp add: still_alive_def)
  show "space_live (rd_set_ex space_redis now k v ttl r) now = (space_live r now)(k \<mapsto> (v, Some (now + ttl * 1000)))"
    by (simp add: space_redis_def a)
  show "space_live (rd_expire space_redis now k ttl r) now = (case space_live r now k of None \<Rightarrow> space_live r now
      | Some (v, _) \<Rightarrow> (space_live r now)(k \<mapsto> (v, Some (now + ttl * 1000))))"
    by (auto simp: space_redis_def a split: option.splits)
qed (auto simp: space_redis_def split: option.splits)

text \<open>The in-memory store meets the contract too; its counters are never below one.\<close>

definition mem_ok :: "mem_store \<Rightarrow> bool" where
  "mem_ok m \<longleftrightarrow> (\<forall>p c e. ms_fails m p = Some (c, e) \<longrightarrow> 1 \<le> c)"

definition mem_locked :: "mem_store \<Rightarrow> string \<Rightarrow> date \<Rightarrow> bool" where
  "mem_locked m p t = (case ms_locks m p of None \<Rightarrow> False | Some until \<Rightarrow> t < until)"

definition mem_fails :: "mem_store \<Rightarrow> string \<Rightarrow> date \<Rightarrow> int" where
  "mem_fails m p t = (case ms_fails m p of None \<Rightarrow> 0 | Some (c, e) \<Rightarrow> if t < e then c else 0)"

lemmas mem_defs = InMemoryLockoutStore_def mem_isLocked_def mem_lock_def mem_incrementFails_def mem_clearFails_def
  mem_locked_def mem_fails_def

interpretation mem: lockout_store InMemoryLockoutStore mem_ok mem_locked mem_fails
proof
  fix m and now t w :: int and p q :: string
  assume ok: "mem_ok m" and nt: "now \<le> t" and w: "0 < w"
  have c: "ms_fails m p = Some (c, e) \<Longrightarrow> c \<noteq> 0 \<and> c + 1 \<noteq> 0" for c e
    using ok by (force simp: mem_ok_def)
  show "mem_fails (snd (lo_incrementFails InMemoryLockoutStore now p w m)) q t =
        (if q \<noteq> p then mem_fails m q t
         else if mem_fails m p now = 0 then (if t < now + w * 1000 then 1 else 0)
         else if mem_fails m p t = 0 then 0 else mem_fails m p t + 1)"
    using nt c by (auto simp: mem_defs Let_def split: option.splits)
next
  fix m and now w :: int and p assume "mem_ok m"
  then show "mem_ok (snd (lo_incrementFails InMemoryLockoutStore now p w m))"
    by (fastforce simp: mem_defs mem_ok_def Let_def split: option.splits)
qed (auto simp: mem_defs mem_ok_def Let_def split: option.splits if_splits)


text \<open>Two stores that meet the contract and agree once give the same answers to every later sequence of calls.\<close>

locale two_stores = a: lockout_store ops ok locked fails + b: lockout_store ops' ok' locked' fails'
  for ops :: "'s lockout_ops" and ok locked fails
    and ops' :: "'r lockout_ops" and ok' locked' fails'
begin

definition agree :: "date \<Rightarrow> 's \<Rightarrow> 'r \<Rightarrow> bool" where
  "agree now s r \<longleftrightarrow> ok s \<and> ok' r \<and>
     (\<forall>q t. now \<le> t \<longrightarrow> locked s q t = locked' r q t \<and> fails s q t = fails' r q t)"

lemma agree_later: "agree now s r \<Longrightarrow> now \<le> t \<Longrightarrow> agree t s r"
  by (auto simp: agree_def)

lemma call_agrees:
  assumes ag: "agree now s r" and pos: "positive_span c"
  shows "fst (store_call ops now c s) = fst (store_call ops' now c r) \<and>
    agree now (snd (store_call ops now c s)) (snd (store_call ops' now c r))"
proof -
  have ok: "ok s" "ok' r" and eq: "\<And>q t. now \<le> t \<Longrightarrow> locked s q t = locked' r q t"
      "\<And>q t. now \<le> t \<Longrightarrow> fails s q t = fails' r q t"
    using ag by (simp_all add: agree_def)
  show ?thesis using pos ok eq
    by (cases c) (simp_all add: store_call_def agree_def a.laws b.laws)
qed

lemma calls_agree:
  assumes "agree now s r" "list_all (positive_span \<circ> snd) cs" "sorted (now # map fst cs)"
  shows "store_calls ops cs s = store_calls ops' cs r"
  using assms
proof (induction cs arbitrary: now s r)
  case (Cons tc cs)
  obtain t c where tc: "tc = (t, c)" by (cases tc)
  have "agree t s r" using Cons.prems tc by (simp add: agree_later)
  from call_agrees [OF this] have "fst (store_call ops t c s) = fst (store_call ops' t c r)"
    "agree t (snd (store_call ops t c s)) (snd (store_call ops' t c r))"
    using Cons.prems tc by simp_all
  then show ?case using Cons.prems tc Cons.IH by (simp add: split_beta)
qed simp

end

sublocale redis_server \<subseteq> both: two_stores InMemoryLockoutStore mem_ok mem_locked mem_fails
  "RedisLockoutStore R" "\<lambda>_. True" "redis_locked live" "redis_fails live"
  by unfold_locales

context redis_server
begin

lemma same_answers:
  assumes "\<And>k. live r start k = None" "sorted (start # map fst calls)" "list_all (positive_span \<circ> snd) calls"
  shows "store_calls InMemoryLockoutStore calls \<lparr>ms_locks = \<lambda>_. None, ms_fails = \<lambda>_. None\<rparr> =
    store_calls (RedisLockoutStore R) calls r"
proof (rule both.calls_agree [OF _ assms(3,2)])
  show "both.agree start \<lparr>ms_locks = \<lambda>_. None, ms_fails = \<lambda>_. None\<rparr> r"
    by (simp add: both.agree_def mem_ok_def mem_defs later_locked later_fails assms(1))
qed

lemma redis_contract: "lockout_store (RedisLockoutStore R) (\<lambda>_. True) (redis_locked live) (redis_fails live)"
  by (rule redis.lockout_store_axioms)

lemma orphan_counter:
  assumes "live r now (failKey p) = None" and "now \<le> t"
  shows "redis_fails live (snd (rd_incr R now (failKey p) r)) p t = 1"
  using assms by (simp add: later_fails [OF assms(2)] incr_live still_alive_def)

end
section \<open>What the service does\<close>

text \<open>
  The check a verification makes of the stored rows: the code matches the active row, or it
  is turned down and counted. A row without a digest is turned down and not counted.
\<close>

definition otp_matches :: "(string \<Rightarrow> string) \<Rightarrow> otp_verify_input \<Rightarrow> date \<Rightarrow> otp_row list \<Rightarrow> bool" where
  "otp_matches sha inp now rows =
     (case findActive (oi_phone inp) now rows of
        None \<Rightarrow> False
      | Some row \<Rightarrow> or_default (ov_attempts row) 0 < or_default (ov_maxAttempts row) MAX_ATTEMPTS \<and>
          truthy_str (ov_otpHash row) \<and> ov_otpHash row = Some (hashOtp sha (oi_otp inp) (or_default (ov_salt row) '''')))"

definition otp_no_digest :: "otp_verify_input \<Rightarrow> date \<Rightarrow> otp_row list \<Rightarrow> bool" where
  "otp_no_digest inp now rows =
     (case findActive (oi_phone inp) now rows of
        None \<Rightarrow> False
      | Some row \<Rightarrow> or_default (ov_attempts row) 0 < or_default (ov_maxAttempts row) MAX_ATTEMPTS \<and>
          \<not> truthy_str (ov_otpHash row))"

definition failed_rows :: "otp_verify_input \<Rightarrow> date \<Rightarrow> otp_row list \<Rightarrow> otp_row list" where
  "failed_rows inp now rows =
     (case findActive (oi_phone inp) now rows of
        None \<Rightarrow> rows
      | Some row \<Rightarrow>
          if or_default (ov_attempts row) 0 < or_default (ov_maxAttempts row) MAX_ATTEMPTS
          then update_first (\<lambda>r. ov_id r = ov_id row)
                 (\<lambda>r. r\<lparr>ov_attempts := Some (or_default (ov_attempts r) 0 + 1)\<rparr>) rows
          else rows)"

lemma findActive_SomeD:
  assumes "findActive p now rows = Some row"
  shows "row \<in> set rows \<and> active_otp p now row"
proof -
  have "row \<in> set (sort_key (\<lambda>r. - ov_createdAt r) (find_docs (active_otp p now) rows))"
    using assms unfolding findActive_def by (simp split: list.splits) (metis list.set_intros(1) set_sort)
  then show ?thesis by (simp add: find_docs_def)
qed

lemma findActive_newest:
  assumes "active_otp p now r" and "\<And>x. x \<in> set rows \<Longrightarrow> active_otp p now x \<Longrightarrow> ov_createdAt x < ov_createdAt r"
  shows "findActive p now (rows @ [r]) = Some r"
proof -
  let ?xs = "sort_key (\<lambda>r. - ov_createdAt r) (find_docs (active_otp p now) (rows @ [r]))"
  have set: "set ?xs = insert r {x \<in> set rows. active_otp p now x}"
    using assms(1) by (auto simp: find_docs_def)
  then obtain y ys where ys: "?xs = y # ys" by (cases ?xs) auto
  have "sorted (map (\<lambda>r. - ov_createdAt r) ?xs)" by simp
  then have "ov_createdAt r \<le> ov_createdAt y" using set ys by auto
  moreover have "y = r \<or> y \<in> set rows \<and> active_otp p now y" using set ys by auto
  ultimately have "y = r" using assms(2) by force
  then show ?thesis using ys by (simp add: findActive_def)
qed

lemma otp_six_digits:
  assumes "otp_range n"
  shows "length (generateOtp n) = 6"
proof -
  obtain k where k: "n = int k" "100000 \<le> k" "k < 1000000"
    using assms zero_le_imp_eq_int [of n] by (auto simp: otp_range_def OTP_LENGTH_def)
  have "length (dec_digits k) = 6"
    using k(2,3) by (simp add: dec_digits.simps [of k] dec_digits.simps [of "k div m" for m] div_mult2_eq [symmetric]
      div_less_iff_less_mult)
  then show ?thesis by (simp add: generateOtp_def js_String_def k(1))
qed

context lockout_store
begin

lemma recordFail:
  assumes "ok s"
  shows "fst (recordFailAndMaybeLock ops p now s) = (if 2 \<le> fails s p now then Some (ConflictError ''OTP_LOCKED'') else None)"
    and "ok (snd (recordFailAndMaybeLock ops p now s))"
    and "now \<le> t \<Longrightarrow> locked (snd (recordFailAndMaybeLock ops p now s)) q t =
      (if q = p \<and> 2 \<le> fails s p now then t < now + 1800000 else locked s q t)"
    and "now \<le> t \<Longrightarrow> fails (snd (recordFailAndMaybeLock ops p now s)) q t =
      (if q \<noteq> p then fails s q t
       else if fails s p now = 0 then (if t < now + 1800000 then 1 else 0)
       else if fails s p t = 0 then 0 else fails s p t + 1)"
  using assms
  by (simp_all add: recordFailAndMaybeLock_def split_beta LOCKOUT_TRIGGER_FAILS_def LOCKOUT_WINDOW_SEC_def laws)

lemma verify_locked:
  assumes "ok (otp_store st)" "locked (otp_store st) (oi_phone inp) now"
  shows "otp_verify ops sha inp now st =
    (Inl (ConflictError ''OTP_LOCKED''), st\<lparr>otp_store := snd (lo_isLocked ops now (oi_phone inp) (otp_store st))\<rparr>)"
  using assms by (simp add: otp_verify_def split_beta laws)

lemma send_locked:
  assumes "ok (otp_store st)" "locked (otp_store st) (os_phone inp) now"
  shows "otp_send ops sha inp rnd salt newId smsError now st =
    (Inl (ConflictError ''OTP_LOCKED''), st\<lparr>otp_store := snd (lo_isLocked ops now (os_phone inp) (otp_store st))\<rparr>)"
  using assms by (simp add: otp_send_def split_beta laws)

text \<open>A verification that is not locked out, by what it finds.\<close>

lemma verify_match:
  assumes "ok (otp_store st)" "\<not> locked (otp_store st) (oi_phone inp) now" "otp_matches sha inp now (otp_rows st)"
  obtains row where "findActive (oi_phone inp) now (otp_rows st) = Some row"
    "otp_verify ops sha inp now st =
      (Inr (), \<lparr>otp_rows = update_first (\<lambda>r. ov_id r = ov_id row) (\<lambda>r. r\<lparr>ov_consumedAt := Some now\<rparr>) (otp_rows st),
        otp_store = lo_clearFails ops now (oi_phone inp) (snd (lo_isLocked ops now (oi_phone inp) (otp_store st))),
        otp_sms = otp_sms st\<rparr>)"
  using assms
  by (cases st) (auto simp: otp_verify_def otp_matches_def split_beta laws updateOne_def not_le split: option.splits)

lemma verify_no_digest:
  assumes "ok (otp_store st)" "\<not> locked (otp_store st) (oi_phone inp) now" "otp_no_digest inp now (otp_rows st)"
  shows "otp_verify ops sha inp now st =
    (Inl UnauthorizedError, st\<lparr>otp_store := snd (lo_isLocked ops now (oi_phone inp) (otp_store st))\<rparr>)"
  using assms
  by (cases st) (auto simp: otp_verify_def otp_no_digest_def split_beta laws not_le split: option.splits)

lemma verify_fail:
  assumes "ok (otp_store st)" "\<not> locked (otp_store st) (oi_phone inp) now"
    and "\<not> otp_matches sha inp now (otp_rows st)" "\<not> otp_no_digest inp now (otp_rows st)"
  shows "otp_verify ops sha inp now st =
    failed_verify ops (oi_phone inp) now
      (st\<lparr>otp_rows := failed_rows inp now (otp_rows st),
          otp_store := snd (lo_isLocked ops now (oi_phone inp) (otp_store st))\<rparr>)"
  using assms
  by (cases st)
    (auto simp: otp_verify_def otp_matches_def otp_no_digest_def failed_rows_def split_beta Let_def laws not_le
       updateOne_def split: option.splits)

text \<open>Only the answer and the observations matter to what follows.\<close>

lemma verify_answer:
  assumes "ok (otp_store st)"
  shows "fst (otp_verify ops sha inp now st) =
    (if locked (otp_store st) (oi_phone inp) now then Inl (ConflictError ''OTP_LOCKED'')
     else if otp_matches sha inp now (otp_rows st) then Inr ()
     else if \<not> otp_no_digest inp now (otp_rows st) \<and> 2 \<le> fails (otp_store st) (oi_phone inp) now
     then Inl (ConflictError ''OTP_LOCKED'')
     else Inl UnauthorizedError)"
proof -
  consider "locked (otp_store st) (oi_phone inp) now"
    | "\<not> locked (otp_store st) (oi_phone inp) now" "otp_matches sha inp now (otp_rows st)"
    | "\<not> locked (otp_store st) (oi_phone inp) now" "otp_no_digest inp now (otp_rows st)"
        "\<not> otp_matches sha inp now (otp_rows st)"
    | "\<not> locked (otp_store st) (oi_phone inp) now" "\<not> otp_no_digest inp now (otp_rows st)"
        "\<not> otp_matches sha inp now (otp_rows st)" by blast
  then show ?thesis
  proof cases
    case 1 then show ?thesis by (simp add: verify_locked [OF assms])
  next
    case 2 with verify_match [OF assms 2] show ?thesis by fastforce
  next
    case 3 then show ?thesis by (simp add: verify_no_digest [OF assms])
  next
    case 4 then show ?thesis
      using recordFail(1) [of "snd (lo_isLocked ops now (oi_phone inp) (otp_store st))" "oi_phone inp" now]
      by (simp add: verify_fail [OF assms] failed_verify_def split_beta assms laws)
  qed
qed

lemma verify_fail_store:
  assumes "ok (otp_store st)" "\<not> locked (otp_store st) (oi_phone inp) now"
    and "\<not> otp_matches sha inp now (otp_rows st)" "\<not> otp_no_digest inp now (otp_rows st)"
  shows "ok (otp_store (snd (otp_verify ops sha inp now st)))"
    and "now \<le> t \<Longrightarrow> locked (otp_store (snd (otp_verify ops sha inp now st))) (oi_phone inp) t =
      (if 2 \<le> fails (otp_store st) (oi_phone inp) now then t < now + 1800000 else locked (otp_store st) (oi_phone inp) t)"
    and "now \<le> t \<Longrightarrow> fails (otp_store (snd (otp_verify ops sha inp now st))) (oi_phone inp) t =
      (if fails (otp_store st) (oi_phone inp) now = 0 then (if t < now + 1800000 then 1 else 0)
       else if fails (otp_store st) (oi_phone inp) t = 0 then 0 else fails (otp_store st) (oi_phone inp) t + 1)"
  using recordFail [where s = "snd (lo_isLocked ops now (oi_phone inp) (otp_store st))" and p = "oi_phone inp" and now = now]
  by (simp_all add: verify_fail [OF assms] failed_verify_def split_beta assms(1) laws)

lemma send_free:
  assumes "ok (otp_store st)" "\<not> locked (otp_store st) (os_phone inp) now"
  shows "otp_send ops sha inp rnd salt newId None now st =
    (Inr (), \<lparr>otp_rows = otp_rows st @ [otp_new_row sha inp (generateOtp rnd) salt newId now],
       otp_store = snd (lo_isLocked ops now (os_phone inp) (otp_store st)),
       otp_sms = otp_sms st @ [(os_phone inp, generateOtp rnd, os_purpose inp)]\<rparr>)"
  using assms by (cases st) (simp add: otp_send_def split_beta Let_def laws)

lemma send_then_verify:
  assumes ok: "ok (otp_store st)" and free: "\<not> locked (otp_store st) (os_phone inp) t0" and sha: "[] \<notin> range sha"
    and all_older: "list_all (\<lambda>r. ov_createdAt r < t0 \<and> ov_id r \<noteq> newId) (otp_rows st)"
    and t1: "t0 \<le> t1" "t1 < t0 + 300000"
  shows "fst (otp_send ops sha inp rnd salt newId None t0 st) = Inr () \<and>
    otp_sms (snd (otp_send ops sha inp rnd salt newId None t0 st)) =
      otp_sms st @ [(os_phone inp, generateOtp rnd, os_purpose inp)] \<and>
    fst (otp_verify ops sha \<lparr>oi_phone = os_phone inp, oi_otp = generateOtp rnd, oi_purpose = purpose\<rparr> t1
      (snd (otp_send ops sha inp rnd salt newId None t0 st))) = Inr () \<and>
    (\<forall>t r. findActive (os_phone inp) t (otp_rows (snd (otp_verify ops sha
        \<lparr>oi_phone = os_phone inp, oi_otp = generateOtp rnd, oi_purpose = purpose\<rparr> t1
        (snd (otp_send ops sha inp rnd salt newId None t0 st))))) = Some r \<longrightarrow> ov_id r \<noteq> newId) \<and>
    fails (otp_store (snd (otp_verify ops sha
        \<lparr>oi_phone = os_phone inp, oi_otp = generateOtp rnd, oi_purpose = purpose\<rparr> t1
        (snd (otp_send ops sha inp rnd salt newId None t0 st))))) (os_phone inp) t1 = 0"
proof -
  let ?p = "os_phone inp" and ?row = "otp_new_row sha inp (generateOtp rnd) salt newId t0"
  let ?in = "\<lparr>oi_phone = ?p, oi_otp = generateOtp rnd, oi_purpose = purpose\<rparr>"
  let ?st1 = "\<lparr>otp_rows = otp_rows st @ [?row], otp_store = snd (lo_isLocked ops t0 ?p (otp_store st)),
       otp_sms = otp_sms st @ [(?p, generateOtp rnd, os_purpose inp)]\<rparr>"
  let ?used = "\<lambda>row. update_first (\<lambda>r. ov_id r = ov_id row) (\<lambda>r. r\<lparr>ov_consumedAt := Some t1\<rparr>) (otp_rows st @ [?row])"
  have older: "ov_createdAt r < t0 \<and> ov_id r \<noteq> newId" if "r \<in> set (otp_rows st)" for r
    using all_older that by (simp add: list_all_iff)
  have fa: "findActive ?p t1 (otp_rows st @ [?row]) = Some ?row"
    using older t1 by (intro findActive_newest) (auto simp: active_otp_def otp_new_row_def OTP_TTL_SEC_def)
  have m: "otp_matches sha ?in t1 (otp_rows ?st1)"
    using fa sha by (simp add: otp_matches_def) (simp add: otp_new_row_def MAX_ATTEMPTS_def hashOtp_def, metis rangeI)
  have ok1: "ok (otp_store ?st1)" using ok by (simp add: laws)
  have free1: "\<not> locked (otp_store ?st1) (oi_phone ?in) t1"
    using isLocked_locked [OF ok t1(1)] locked_before [OF ok t1(1)] free by auto
  have v: "otp_verify ops sha ?in t1 ?st1 = (Inr (), \<lparr>otp_rows = ?used ?row,
      otp_store = lo_clearFails ops t1 ?p (snd (lo_isLocked ops t1 ?p (otp_store ?st1))), otp_sms = otp_sms ?st1\<rparr>)"
  proof (rule verify_match [OF ok1 free1 m])
    fix row
    assume row: "findActive (oi_phone ?in) t1 (otp_rows ?st1) = Some row"
      and v: "otp_verify ops sha ?in t1 ?st1 =
        (Inr (), \<lparr>otp_rows = update_first (\<lambda>r. ov_id r = ov_id row) (\<lambda>r. r\<lparr>ov_consumedAt := Some t1\<rparr>) (otp_rows ?st1),
          otp_store = lo_clearFails ops t1 (oi_phone ?in) (snd (lo_isLocked ops t1 (oi_phone ?in) (otp_store ?st1))),
          otp_sms = otp_sms ?st1\<rparr>)"
    from row fa have "row = ?row" by simp
    with v show ?thesis by simp
  qed
  have used: "?used ?row = otp_rows st @ [?row\<lparr>ov_consumedAt := Some t1\<rparr>]"
    using older by (simp add: update_first_append findOne_None_iff otp_new_row_def)
  have "ov_id r \<noteq> newId" if "findActive ?p t (?used ?row) = Some r" for t r
  proof -
    have "r \<in> set (otp_rows st) \<or> r = ?row\<lparr>ov_consumedAt := Some t1\<rparr>" and "ov_consumedAt r = None"
      using findActive_SomeD [OF that [unfolded used]] by (simp_all add: active_otp_def insert_iff disj_commute)
    moreover have "ov_consumedAt (?row\<lparr>ov_consumedAt := Some t1\<rparr>) = Some t1" by simp
    ultimately have "r \<in> set (otp_rows st)" by (metis option.distinct(1))
    then show ?thesis using older by simp
  qed
  then show ?thesis
    using ok1 by (simp add: send_free [OF ok free] v laws)
qed

text \<open>The states of three wrong guesses in a row.\<close>

lemma three_wrong:
  fixes sha and g1 g2 g3 :: otp_verify_input and t1 t2 t3 :: date and st0
  defines "st1 \<equiv> snd (otp_verify ops sha g1 t1 st0)"
  defines "st2 \<equiv> snd (otp_verify ops sha g2 t2 st1)"
  defines "st3 \<equiv> snd (otp_verify ops sha g3 t3 st2)"
  assumes ok: "ok (otp_store st0)" and phones: "oi_phone g1 = p" "oi_phone g2 = p" "oi_phone g3 = p"
    and times: "t1 \<le> t2" "t2 \<le> t3" "t3 < t1 + 1800000"
    and start: "\<not> locked (otp_store st0) p t1" "fails (otp_store st0) p t1 = 0"
    and wrong: "\<not> otp_matches sha g1 t1 (otp_rows st0)" "\<not> otp_no_digest g1 t1 (otp_rows st0)"
      "\<not> otp_matches sha g2 t2 (otp_rows st1)" "\<not> otp_no_digest g2 t2 (otp_rows st1)"
      "\<not> otp_matches sha g3 t3 (otp_rows st2)" "\<not> otp_no_digest g3 t3 (otp_rows st2)"
  shows "fst (otp_verify ops sha g3 t3 st2) = Inl (ConflictError ''OTP_LOCKED'')" "ok (otp_store st3)"
    "t3 \<le> t \<Longrightarrow> locked (otp_store st3) p t \<longleftrightarrow> t < t3 + 1800000"
    "t3 + 1800000 \<le> t \<Longrightarrow> fails (otp_store st3) p t = 0"
proof -
  have nl: "\<not> locked (otp_store st0) p t" if "t1 \<le> t" for t using locked_before [OF ok that] start(1) by blast
  note s1 = verify_fail_store [OF ok _ wrong(1,2), unfolded phones, OF start(1), folded st1_def, unfolded start(2), simplified]
  have l1: "\<not> locked (otp_store st1) p t" if "t1 \<le> t" for t using s1(2) [OF that] nl [OF that] by simp
  note s2 = verify_fail_store [OF s1(1) _ wrong(3,4), unfolded phones, OF l1 [OF times(1)], folded st2_def]
  have f1: "fails (otp_store st1) p t = (if t < t1 + 1800000 then 1 else 0)" if "t1 \<le> t" for t using s1(3) [OF that] .
  have l2: "\<not> locked (otp_store st2) p t" if "t2 \<le> t" for t
    using s2(2) [OF that] l1 [of t] that times f1 [OF times(1)] by simp
  have f2: "fails (otp_store st2) p t = (if t < t1 + 1800000 then 2 else 0)" if "t2 \<le> t" for t
    using s2(3) [OF that] f1 [OF times(1)] f1 [of t] that times by simp
  note s3 = verify_fail_store [OF s2(1) _ wrong(5,6), unfolded phones, OF l2 [OF times(2)], folded st3_def]
  show "ok (otp_store st3)" by (rule s3(1))
  show "t3 \<le> t \<Longrightarrow> locked (otp_store st3) p t \<longleftrightarrow> t < t3 + 1800000"
    using s3(2) f2 [OF times(2)] times by simp
  show "t3 + 1800000 \<le> t \<Longrightarrow> fails (otp_store st3) p t = 0"
    using s3(3) [of t] f2 [OF times(2)] f2 [of t] times by simp
  show "fst (otp_verify ops sha g3 t3 st2) = Inl (ConflictError ''OTP_LOCKED'')"
    using verify_answer [OF s2(1), of sha g3 t3] wrong(5,6) phones f2 [OF times(2)] times by simp
qed

end


section \<open>Properties\<close>

definition sample_otp_state :: "key_space otp_state" where
  "sample_otp_state = \<lparr>otp_rows = [], otp_store = (\<lambda>_. None), otp_sms = []\<rparr>"

definition sample_guess :: "string \<Rightarrow> otp_verify_input" where
  "sample_guess otp = \<lparr>oi_phone = ''+91'', oi_otp = otp, oi_purpose = LOGIN\<rparr>"

definition sample_request :: otp_send_input where
  "sample_request = \<lparr>os_phone = ''+91'', os_purpose = SIGNUP, os_ipAddress = ''::1'', os_deviceFingerprint = None\<rparr>"

text \<open>
  The answer of a verification on every branch: locked, accepted, turned down and locked by
  the third failure, turned down.
\<close>

theorem otp_verify_answer:
  assumes "redis_server R live"
  shows "fst (otp_verify (RedisLockoutStore R) sha inp now st) =
    (if redis_locked live (otp_store st) (oi_phone inp) now then Inl (ConflictError ''OTP_LOCKED'')
     else if otp_matches sha inp now (otp_rows st) then Inr ()
     else if \<not> otp_no_digest inp now (otp_rows st) \<and> 2 \<le> redis_fails live (otp_store st) (oi_phone inp) now
     then Inl (ConflictError ''OTP_LOCKED'')
     else Inl UnauthorizedError)"
  by (rule lockout_store.verify_answer [OF redis_server.redis_contract [OF assms]]) simp

theorem otp_verify_answer_witness:
  "fst (otp_verify (RedisLockoutStore space_redis) id (sample_guess ''123456'') 10 sample_otp_state) = Inl UnauthorizedError"
proof -
  have "\<not> redis_locked space_live (otp_store sample_otp_state) (oi_phone (sample_guess ''123456'')) 10"
    "redis_fails space_live (otp_store sample_otp_state) (oi_phone (sample_guess ''123456'')) 10 = 0"
    by (simp_all add: sample_otp_state_def redis_locked_def redis_fails_def space_live_def)
  moreover have "\<not> otp_matches id (sample_guess ''123456'') 10 (otp_rows sample_otp_state)" by code_simp
  ultimately show ?thesis
    using otp_verify_answer [OF space.redis_server_axioms, of id "sample_guess ''123456''" 10 sample_otp_state] by simp
qed

text \<open>C23: 
  Three wrong guesses within thirty minutes lock the phone. While it is locked every
  verification, also of the right code, and every request for a code is refused and the
  stored codes stay as they are. After thirty minutes the lock is gone and so is the counter,
  so three guesses are allowed again.
\<close>

theorem three_failures_lock:
  fixes R :: "'r redis" and sha and g1 g2 g3 :: otp_verify_input and t1 t2 t3 :: date and st0
  defines "st1 \<equiv> snd (otp_verify (RedisLockoutStore R) sha g1 t1 st0)"
  defines "st2 \<equiv> snd (otp_verify (RedisLockoutStore R) sha g2 t2 st1)"
  defines "st3 \<equiv> snd (otp_verify (RedisLockoutStore R) sha g3 t3 st2)"
  assumes redis: "redis_server R live"
    and phones: "oi_phone g1 = p" "oi_phone g2 = p" "oi_phone g3 = p"
    and times: "t1 \<le> t2" "t2 \<le> t3" "t3 < t1 + 1800000"
    and start: "\<not> redis_locked live (otp_store st0) p t1" "redis_fails live (otp_store st0) p t1 = 0"
    and wrong: "\<not> otp_matches sha g1 t1 (otp_rows st0)" "\<not> otp_no_digest g1 t1 (otp_rows st0)"
      "\<not> otp_matches sha g2 t2 (otp_rows st1)" "\<not> otp_no_digest g2 t2 (otp_rows st1)"
      "\<not> otp_matches sha g3 t3 (otp_rows st2)" "\<not> otp_no_digest g3 t3 (otp_rows st2)"
  shows "fst (otp_verify (RedisLockoutStore R) sha g3 t3 st2) = Inl (ConflictError ''OTP_LOCKED'') \<and>
    (\<forall>g t. oi_phone g = p \<and> t3 \<le> t \<and> t < t3 + 1800000 \<longrightarrow>
      fst (otp_verify (RedisLockoutStore R) sha g t st3) = Inl (ConflictError ''OTP_LOCKED'') \<and>
      otp_rows (snd (otp_verify (RedisLockoutStore R) sha g t st3)) = otp_rows st3) \<and>
    (\<forall>inp rnd salt newId smsError t. os_phone inp = p \<and> t3 \<le> t \<and> t < t3 + 1800000 \<longrightarrow>
      fst (otp_send (RedisLockoutStore R) sha inp rnd salt newId smsError t st3) = Inl (ConflictError ''OTP_LOCKED'') \<and>
      otp_rows (snd (otp_send (RedisLockoutStore R) sha inp rnd salt newId smsError t st3)) = otp_rows st3) \<and>
    (\<forall>t \<ge> t3 + 1800000. \<not> redis_locked live (otp_store st3) p t \<and> redis_fails live (otp_store st3) p t = 0)"
proof (intro conjI allI impI)
  note store = redis_server.redis_contract [OF redis]
  note three = lockout_store.three_wrong [OF store TrueI phones times start
      wrong [unfolded st2_def st1_def], folded st1_def, folded st2_def, folded st3_def]
  show "fst (otp_verify (RedisLockoutStore R) sha g3 t3 st2) = Inl (ConflictError ''OTP_LOCKED'')" by (rule three(1))
  fix t
  show "\<not> redis_locked live (otp_store st3) p t" "redis_fails live (otp_store st3) p t = 0" if "t3 + 1800000 \<le> t"
    using three(3,4) [of t] that by simp_all
  show "fst (otp_verify (RedisLockoutStore R) sha g t st3) = Inl (ConflictError ''OTP_LOCKED'')"
    and "otp_rows (snd (otp_verify (RedisLockoutStore R) sha g t st3)) = otp_rows st3"
    if "oi_phone g = p \<and> t3 \<le> t \<and> t < t3 + 1800000" for g
    using lockout_store.verify_locked [OF store TrueI, of st3 g t sha] three(3) [of t] that by simp_all
  show "fst (otp_send (RedisLockoutStore R) sha inp rnd salt newId smsError t st3) = Inl (ConflictError ''OTP_LOCKED'')"
    and "otp_rows (snd (otp_send (RedisLockoutStore R) sha inp rnd salt newId smsError t st3)) = otp_rows st3"
    if "os_phone inp = p \<and> t3 \<le> t \<and> t < t3 + 1800000" for inp rnd salt newId smsError
    using lockout_store.send_locked [OF store TrueI, of st3 inp t sha] three(3) [of t] that by simp_all
qed

theorem three_failures_lock_witness:
  "fst (otp_verify (RedisLockoutStore space_redis) id (sample_guess ''000003'') 3
     (snd (otp_verify (RedisLockoutStore space_redis) id (sample_guess ''000002'') 2
       (snd (otp_verify (RedisLockoutStore space_redis) id (sample_guess ''000001'') 1 sample_otp_state)))))
   = Inl (ConflictError ''OTP_LOCKED'')"
proof -
  let ?st1 = "snd (otp_verify (RedisLockoutStore space_redis) id (sample_guess ''000001'') 1 sample_otp_state)"
  let ?st2 = "snd (otp_verify (RedisLockoutStore space_redis) id (sample_guess ''000002'') 2 ?st1)"
  have start: "\<not> redis_locked space_live (otp_store sample_otp_state) ''+91'' 1"
    "redis_fails space_live (otp_store sample_otp_state) ''+91'' 1 = 0"
    by (simp_all add: sample_otp_state_def redis_locked_def redis_fails_def space_live_def)
  have rows: "otp_rows sample_otp_state = []" "otp_rows ?st1 = []" "otp_rows ?st2 = []" by code_simp+
  have no: "\<not> otp_matches id g t []" "\<not> otp_no_digest g t []" for g t
    by (simp_all add: otp_matches_def otp_no_digest_def findActive_def find_docs_def)
  have p: "oi_phone (sample_guess x) = ''+91''" for x by (simp add: sample_guess_def)
  show ?thesis
    using three_failures_lock [OF space.redis_server_axioms p p p _ _ _ start, of 2 3 id "''000001''" "''000002''" "''000003''"]
      rows no by simp
qed

text \<open>C37: 
  A code that was sent is accepted within five minutes, whatever the purposes of the request
  and of the verification are; it has six digits, its row is marked as used, and it is not
  accepted from that row again.
\<close>

theorem otp_roundtrip:
  fixes R :: "'r redis" and sha and inp :: otp_send_input and rnd t0 t1 :: int and salt and newId :: oid and purpose and st
  defines "guess \<equiv> \<lparr>oi_phone = os_phone inp, oi_otp = generateOtp rnd, oi_purpose = purpose\<rparr>"
  defines "st1 \<equiv> snd (otp_send (RedisLockoutStore R) sha inp rnd salt newId None t0 st)"
  defines "st2 \<equiv> snd (otp_verify (RedisLockoutStore R) sha guess t1 st1)"
  assumes "redis_server R live" and "[] \<notin> range sha" and "otp_range rnd"
    and "\<not> redis_locked live (otp_store st) (os_phone inp) t0"
    and "list_all (\<lambda>r. ov_createdAt r < t0 \<and> ov_id r \<noteq> newId) (otp_rows st)"
    and "t0 \<le> t1" "t1 < t0 + 300000"
  shows "fst (otp_send (RedisLockoutStore R) sha inp rnd salt newId None t0 st) = Inr () \<and>
    otp_sms st1 = otp_sms st @ [(os_phone inp, generateOtp rnd, os_purpose inp)] \<and> length (generateOtp rnd) = 6 \<and>
    fst (otp_verify (RedisLockoutStore R) sha guess t1 st1) = Inr () \<and>
    (\<forall>t r. findActive (os_phone inp) t (otp_rows st2) = Some r \<longrightarrow> ov_id r \<noteq> newId) \<and>
    redis_fails live (otp_store st2) (os_phone inp) t1 = 0"
  using lockout_store.send_then_verify [OF redis_server.redis_contract [OF assms(4)] TrueI assms(7,5,8,9,10)]
    otp_six_digits [OF assms(6)]
  unfolding st2_def st1_def guess_def by blast

theorem otp_roundtrip_witness:
  "fst (otp_verify (RedisLockoutStore space_redis) (\<lambda>x. CHR ''h'' # x) (sample_guess (generateOtp 654321)) 20
     (snd (otp_send (RedisLockoutStore space_redis) (\<lambda>x. CHR ''h'' # x) sample_request 654321 ''salt'' 7 None 10 sample_otp_state)))
   = Inr ()"
proof -
  have "otp_range 654321" by (simp add: otp_range_def OTP_LENGTH_def)
  moreover have "\<not> redis_locked space_live (otp_store sample_otp_state) (os_phone sample_request) 10"
    by (simp add: sample_otp_state_def redis_locked_def space_live_def)
  moreover have "otp_rows sample_otp_state = []" by (simp add: sample_otp_state_def)
  moreover have "[] \<notin> range (\<lambda>x. CHR ''h'' # x)" by auto
  moreover have "os_phone sample_request = ''+91''" by (simp add: sample_request_def)
  ultimately show ?thesis
    using otp_roundtrip [OF space.redis_server_axioms, of "\<lambda>x. CHR ''h'' # x" 654321 sample_otp_state sample_request 10 7 20 "''salt''" LOGIN]
    by (simp add: sample_guess_def)
qed

text \<open>C22: 
  The Redis store and the in-memory store give the same answers to every sequence of calls
  in the order of time, when both start empty and every span of time is positive.
\<close>

theorem lockout_stores_equivalent:
  assumes "redis_server R live"
    and "\<And>k. live r start k = None"
    and "sorted (start # map fst calls)"
    and "list_all (positive_span \<circ> snd) calls"
  shows "store_calls (RedisLockoutStore R) calls r =
    store_calls InMemoryLockoutStore calls \<lparr>ms_locks = \<lambda>_. None, ms_fails = \<lambda>_. None\<rparr>"
  by (rule redis_server.same_answers [OF assms, symmetric])

theorem lockout_stores_equivalent_witness:
  "store_calls (RedisLockoutStore space_redis) [(1, IncrementFails ''p'' 60), (2, Lock ''p'' 30), (40000, IsLocked ''p'')] (\<lambda>_. None) =
   [Fails 1, Done, Locked False]"
proof -
  have "store_calls InMemoryLockoutStore [(1, IncrementFails ''p'' 60), (2, Lock ''p'' 30), (40000, IsLocked ''p'')]
    \<lparr>ms_locks = \<lambda>_. None, ms_fails = \<lambda>_. None\<rparr> = [Fails 1, Done, Locked False]" by code_simp
  then show ?thesis
    using lockout_stores_equivalent [OF space.redis_server_axioms, of "\<lambda>_. None" 0
        "[(1, IncrementFails ''p'' 60), (2, Lock ''p'' 30), (40000, IsLocked ''p'')]"]
    by (simp add: space_live_def)
qed

text \<open>
  The counter and its window are two commands. When the process dies between them the counter
  never expires.
\<close>

theorem crash_leaves_counter_forever:
  assumes "redis_server R live" and "live r now (failKey phone) = None" and "now \<le> t"
  shows "redis_fails live (snd (rd_incr R now (failKey phone) r)) phone t = 1"
  by (rule redis_server.orphan_counter [OF assms])

theorem crash_leaves_counter_forever_witness:
  "redis_fails space_live (snd (rd_incr space_redis 5 (failKey ''p'') (\<lambda>_. None))) ''p'' 999999999 = 1"
  by (rule crash_leaves_counter_forever [OF space.redis_server_axioms]) (simp_all add: space_live_def)

end
