(* ===== verification/Sessions.thy ===== *)
theory Sessions
  imports Otp Samples "HOL-Library.Multiset"
begin

text \<open>
  Login sessions and tokens: the JWT signer (src/shared/jwt/signer.ts), the session and device
  repositories, the force-logout store (src/shared/services/force-logout.ts), the middleware
  \<open>requireUser\<close> (src/shared/middleware/auth.middleware.ts) and the refresh, logout and
  logout-all operations of src/modules/auth/auth.service.ts.

  The jose package is a parameter: it signs a payload, verifies a token at a time and the
  model never looks inside a token, whose type is a type variable; the digest of a token is
  a parameter too. UUIDs are arguments. A refresh is two steps, the reads with the checks and
  the rotation transaction, so that refreshes can interleave.
\<close>

section \<open>Tokens\<close>

definition ACCESS_TTL_SEC :: int where "ACCESS_TTL_SEC = 15 * 60"
definition REFRESH_TTL_SEC :: int where "REFRESH_TTL_SEC = 30 * 24 * 60 * 60"

record jwt_payload =
  jp_sub :: "oid option"
  jp_jti :: "string option"
  jp_family :: "string option"
  jp_tokenVersion :: "int option"
  jp_iat :: "int option"
  jp_exp :: "int option"

record 'tok jose =
  jo_sign :: "jwt_payload \<Rightarrow> 'tok"
  jo_verify :: "date \<Rightarrow> 'tok \<Rightarrow> jwt_payload option"
  jo_hash :: "'tok \<Rightarrow> string"

record access_claims =
  ac_sub :: oid
  ac_jti :: string
  ac_tokenVersion :: int
  ac_iat :: int

record refresh_claims =
  rf_sub :: oid
  rf_jti :: string
  rf_family :: string
  rf_tokenVersion :: int
  rf_iat :: int

definition unix_seconds :: "date \<Rightarrow> int" where
  "unix_seconds now = now div 1000"

definition signAccessToken :: "'tok jose \<Rightarrow> date \<Rightarrow> oid \<Rightarrow> string \<Rightarrow> int \<Rightarrow> 'tok" where
  "signAccessToken J now sub jti tokenVersion =
     jo_sign J \<lparr>jp_sub = Some sub, jp_jti = Some jti, jp_family = None, jp_tokenVersion = Some tokenVersion,
       jp_iat = Some (unix_seconds now), jp_exp = Some (unix_seconds now + ACCESS_TTL_SEC)\<rparr>"

definition signRefreshToken :: "'tok jose \<Rightarrow> date \<Rightarrow> oid \<Rightarrow> string \<Rightarrow> string \<Rightarrow> int \<Rightarrow> 'tok" where
  "signRefreshToken J now sub jti family tokenVersion =
     jo_sign J \<lparr>jp_sub = Some sub, jp_jti = Some jti, jp_family = Some family, jp_tokenVersion = Some tokenVersion,
       jp_iat = Some (unix_seconds now), jp_exp = Some (unix_seconds now + REFRESH_TTL_SEC)\<rparr>"

definition verifyAccessToken :: "'tok jose \<Rightarrow> date \<Rightarrow> 'tok \<Rightarrow> access_claims option" where
  "verifyAccessToken J now token =
     (case jo_verify J now token of
        None \<Rightarrow> None
      | Some payload \<Rightarrow>
          (case (jp_sub payload, jp_jti payload, jp_iat payload) of
             (Some sub, Some jti, Some iat) \<Rightarrow>
               if jti = [] then None
               else Some \<lparr>ac_sub = sub, ac_jti = jti, ac_tokenVersion = or_default (jp_tokenVersion payload) 0, ac_iat = iat\<rparr>
           | _ \<Rightarrow> None))"

definition verifyRefreshToken :: "'tok jose \<Rightarrow> date \<Rightarrow> 'tok \<Rightarrow> refresh_claims option" where
  "verifyRefreshToken J now token =
     (case jo_verify J now token of
        None \<Rightarrow> None
      | Some payload \<Rightarrow>
          (case (jp_sub payload, jp_jti payload, jp_iat payload, jp_family payload) of
             (Some sub, Some jti, Some iat, Some family) \<Rightarrow>
               if jti = [] then None
               else Some \<lparr>rf_sub = sub, rf_jti = jti, rf_family = family,
                          rf_tokenVersion = or_default (jp_tokenVersion payload) 0, rf_iat = iat\<rparr>
           | _ \<Rightarrow> None))"

section \<open>Sessions and devices\<close>

record login_session =
  ls_userId :: oid
  ls_jti :: string
  ls_deviceId :: "string option"
  ls_deviceFingerprint :: "string option"
  ls_userAgent :: "string option"
  ls_ip :: "string option"
  ls_refreshTokenHash :: "string option"
  ls_family :: "string option"
  ls_revokedAt :: "date option"
  ls_expiresAt :: "date option"

definition session_clash :: "login_session \<Rightarrow> login_session \<Rightarrow> bool" where
  "session_clash x y \<longleftrightarrow> ls_jti x = ls_jti y"

interpretation session_index: unique_index session_clash "\<lambda>x. Some (ls_jti x)"
  by unfold_locales (auto simp: session_clash_def)

abbreviation session_active :: "login_session \<Rightarrow> bool" where
  "session_active x \<equiv> ls_revokedAt x = None"

record device_fp =
  df_fingerprint :: string
  df_firstSeenUserId :: "oid option"
  df_linkedUserIds :: "oid list"
  df_suspiciousScore :: int
  df_blocked :: bool

record notification =
  n_id :: oid
  n_userId :: "oid option"
  n_title :: "string option"
  n_body :: "string option"
  n_payload :: "string option"

record erasure_audit =
  ea_userId :: oid
  ea_gracePeriodStartedAt :: "date option"
  ea_anonymizedAt :: date
  ea_pendingWinnerCount :: int
  ea_pendingTotalPaise :: paise
  ea_tdsAccruedPaise :: paise
  ea_pendingDayKeys :: "day_key list"

text \<open>
  The state of the authentication part: the database of the services, the collections only it
  uses, and the one-time passwords, whose store is the Redis server that also holds the
  force-logout cutoffs.
\<close>

record 'r auth_state =
  au_db :: db
  au_sessions :: "login_session list"
  au_devices :: "device_fp list"
  au_notifications :: "notification list"
  au_audits :: "erasure_audit list"
  au_otp :: "'r otp_state"

definition au_redis :: "'r auth_state \<Rightarrow> 'r" where
  "au_redis st = otp_store (au_otp st)"

definition set_redis :: "'r \<Rightarrow> 'r auth_state \<Rightarrow> 'r auth_state" where
  "set_redis r st = st\<lparr>au_otp := (au_otp st)\<lparr>otp_store := r\<rparr>\<rparr>"

definition findActiveByRefreshHash :: "string \<Rightarrow> login_session list \<Rightarrow> login_session option" where
  "findActiveByRefreshHash hash ss = findOne (\<lambda>x. ls_refreshTokenHash x = Some hash \<and> session_active x) ss"

text \<open>The update document of every revocation.\<close>

definition revoke_row :: "date \<Rightarrow> login_session \<Rightarrow> login_session" where
  "revoke_row now x = x\<lparr>ls_revokedAt := Some now\<rparr>"

definition revokeFamily :: "string \<Rightarrow> date \<Rightarrow> login_session list \<Rightarrow> login_session list" where
  "revokeFamily family now ss =
     snd (updateMany (\<lambda>x. ls_family x = Some family \<and> session_active x) (revoke_row now) ss)"

definition revokeAllForUser :: "oid \<Rightarrow> date \<Rightarrow> login_session list \<Rightarrow> int \<times> login_session list" where
  "revokeAllForUser userId now ss =
     updateMany (\<lambda>x. ls_userId x = userId \<and> session_active x) (revoke_row now) ss"

definition deleteAllForUser :: "oid \<Rightarrow> login_session list \<Rightarrow> login_session list" where
  "deleteAllForUser userId ss = deleteMany (\<lambda>x. ls_userId x = userId) ss"

section \<open>Force logout\<close>

definition force_key :: "oid \<Rightarrow> string" where
  "force_key userId = ''auth:force-logout:'' @ js_String (int userId)"

definition store_forceLogout :: "'r redis \<Rightarrow> oid \<Rightarrow> date \<Rightarrow> 'r \<Rightarrow> int \<times> 'r" where
  "store_forceLogout R userId now r =
     (let cutoff = unix_seconds now in (cutoff, rd_set_ex R now (force_key userId) cutoff REFRESH_TTL_SEC r))"

definition getCutoff :: "'r redis \<Rightarrow> oid \<Rightarrow> date \<Rightarrow> 'r \<Rightarrow> int option" where
  "getCutoff R userId now r = rd_get R now (force_key userId) r"

definition assertNotForceLoggedOut :: "'r redis \<Rightarrow> oid \<Rightarrow> int \<Rightarrow> date \<Rightarrow> 'r \<Rightarrow> app_error + unit" where
  "assertNotForceLoggedOut R userId iat now r =
     (case getCutoff R userId now r of
        Some cutoff \<Rightarrow> if iat \<le> cutoff then Inl UnauthorizedError else Inr ()
      | None \<Rightarrow> Inr ())"

definition store_clear :: "'r redis \<Rightarrow> oid \<Rightarrow> date \<Rightarrow> 'r \<Rightarrow> 'r" where
  "store_clear R userId now r = rd_del R now (force_key userId) r"

text \<open>The admin operation.\<close>

definition admin_forceLogout :: "'r redis \<Rightarrow> oid \<Rightarrow> date \<Rightarrow> 'r auth_state \<Rightarrow> (app_error + int) \<times> 'r auth_state" where
  "admin_forceLogout R userId now st =
     (case findOne (\<lambda>u. u_id u = userId) (users (au_db st)) of
        None \<Rightarrow> (Inl NotFoundError, st)
      | Some user \<Rightarrow>
          (let (cutoff, r) = store_forceLogout R userId now (au_redis st) in (Inr cutoff, set_redis r st)))"

section \<open>The middleware\<close>

text \<open>The authorization header is given as the token it carries, if it carries one.\<close>

definition requireUser ::
  "'tok jose \<Rightarrow> 'r redis \<Rightarrow> date \<Rightarrow> 'tok option \<Rightarrow> 'r auth_state \<Rightarrow> app_error + (access_claims \<times> sub_entry list)" where
  "requireUser J R now bearer st =
     (case bearer of
        None \<Rightarrow> Inl UnauthorizedError
      | Some token \<Rightarrow>
          (case verifyAccessToken J now token of
             None \<Rightarrow> Inl UnauthorizedError
           | Some claims \<Rightarrow>
               (case assertNotForceLoggedOut R (ac_sub claims) (ac_iat claims) now (au_redis st) of
                  Inl e \<Rightarrow> Inl e
                | Inr _ \<Rightarrow>
                    (case findOne (\<lambda>u. u_id u = ac_sub claims) (users (au_db st)) of
                       None \<Rightarrow> Inl UnauthorizedError
                     | Some user \<Rightarrow>
                         if ac_tokenVersion claims \<noteq> u_tokenVersion user then Inl UnauthorizedError
                         else Inr (claims, u_subscriptions user)))))"

section \<open>Issuing, refreshing and revoking\<close>

record 'tok auth_tokens =
  at_access :: 'tok
  at_refresh :: 'tok
  at_accessExpiresIn :: int

record issue_input =
  ii_userId :: oid
  ii_tokenVersion :: int
  ii_deviceId :: string
  ii_deviceFingerprint :: "string option"
  ii_ipAddress :: string
  ii_userAgent :: string
  ii_family :: "string option"

text \<open>\<open>jti\<close> and \<open>uuid\<close> are the two UUIDs that are drawn; the second only without a family.\<close>

definition issueTokensAndSession ::
  "'tok jose \<Rightarrow> issue_input \<Rightarrow> string \<Rightarrow> string \<Rightarrow> date \<Rightarrow> login_session list
   \<Rightarrow> app_error + 'tok auth_tokens \<times> login_session list" where
  "issueTokensAndSession J inp jti uuid now ss =
     (let family = or_default (ii_family inp) uuid;
          access = signAccessToken J now (ii_userId inp) jti (ii_tokenVersion inp);
          refresh = signRefreshToken J now (ii_userId inp) jti family (ii_tokenVersion inp);
          row = \<lparr>ls_userId = ii_userId inp, ls_jti = jti, ls_deviceId = Some (ii_deviceId inp),
             ls_deviceFingerprint = (if truthy_str (ii_deviceFingerprint inp) then ii_deviceFingerprint inp else None),
             ls_userAgent = Some (ii_userAgent inp), ls_ip = Some (ii_ipAddress inp),
             ls_refreshTokenHash = Some (jo_hash J refresh), ls_family = Some family, ls_revokedAt = None,
             ls_expiresAt = Some (now + REFRESH_TTL_SEC * 1000)\<rparr>
      in case create session_clash row ss of
           Inl _ \<Rightarrow> Inl (InternalError ''INTERNAL'')
         | Inr ss' \<Rightarrow> Inr (\<lparr>at_access = access, at_refresh = refresh, at_accessExpiresIn = ACCESS_TTL_SEC\<rparr>, ss'))"

record 'tok refresh_input =
  ri_refreshToken :: 'tok
  ri_deviceId :: string
  ri_ipAddress :: string
  ri_userAgent :: string

text \<open>What the checks of a refresh hand to the rotation transaction.\<close>

record refresh_ticket =
  tk_session :: login_session
  tk_jti :: string
  tk_family :: string
  tk_userId :: oid
  tk_tokenVersion :: int

definition with_sessions :: "login_session list \<Rightarrow> 'r auth_state \<Rightarrow> 'r auth_state" where
  "with_sessions ss st = st\<lparr>au_sessions := ss\<rparr>"

definition refresh_check ::
  "'tok jose \<Rightarrow> 'r redis \<Rightarrow> 'tok refresh_input \<Rightarrow> date \<Rightarrow> 'r auth_state \<Rightarrow> (app_error + refresh_ticket) \<times> 'r auth_state" where
  "refresh_check J R inp now st =
     (case verifyRefreshToken J now (ri_refreshToken inp) of
        None \<Rightarrow> (Inl UnauthorizedError, st)
      | Some claims \<Rightarrow>
          let revoked = (\<lambda>family. with_sessions (revokeFamily family now (au_sessions st)) st) in
          if (case getCutoff R (rf_sub claims) now (au_redis st) of None \<Rightarrow> False | Some cutoff \<Rightarrow> rf_iat claims \<le> cutoff)
          then (Inl UnauthorizedError, revoked (rf_family claims))
          else
            (case findActiveByRefreshHash (jo_hash J (ri_refreshToken inp)) (au_sessions st) of
               None \<Rightarrow>
                 (Inl UnauthorizedError,
                  if exists_doc (\<lambda>x. ls_family x = Some (rf_family claims)) (au_sessions st)
                  then revoked (rf_family claims) else st)
             | Some session \<Rightarrow>
                 (case ls_family session of
                    None \<Rightarrow> (Inl (InternalError ''INVARIANT''), st)
                  | Some sessionFamily \<Rightarrow>
                      if sessionFamily = [] \<or> ls_jti session = [] then (Inl (InternalError ''INVARIANT''), st)
                      else if ls_deviceId session \<noteq> Some (ri_deviceId inp)
                      then (Inl (ForbiddenError ''DEVICE_MISMATCH''), revoked sessionFamily)
                      else
                        (case findOne (\<lambda>u. u_id u = rf_sub claims) (users (au_db st)) of
                           None \<Rightarrow> (Inl UnauthorizedError, st)
                         | Some user \<Rightarrow>
                             if u_anonymizedAt user \<noteq> None then (Inl UnauthorizedError, revoked (rf_family claims))
                             else if bl_isBlocked (u_blocked user) then (Inl (ForbiddenError ''USER_BLOCKED''), st)
                             else if rf_tokenVersion claims \<noteq> u_tokenVersion user
                             then (Inl UnauthorizedError, revoked (rf_family claims))
                             else
                               (Inr \<lparr>tk_session = session, tk_jti = ls_jti session, tk_family = sessionFamily,
                                     tk_userId = u_id user, tk_tokenVersion = u_tokenVersion user\<rparr>, st)))))"

definition refresh_commit ::
  "'tok jose \<Rightarrow> refresh_ticket \<Rightarrow> 'tok refresh_input \<Rightarrow> string \<Rightarrow> date \<Rightarrow> 'r auth_state
   \<Rightarrow> (app_error + 'tok auth_tokens) \<times> 'r auth_state" where
  "refresh_commit J tk inp jti now st =
     (let (modified, ss) = updateOne (\<lambda>x. ls_jti x = tk_jti tk \<and> session_active x)
                             (revoke_row now) (au_sessions st)
      in if modified \<noteq> 1
         then (Inl UnauthorizedError, with_sessions (revokeFamily (tk_family tk) now (au_sessions st)) st)
         else
           (case issueTokensAndSession J
                   \<lparr>ii_userId = tk_userId tk, ii_tokenVersion = tk_tokenVersion tk,
                    ii_deviceId = or_default (ls_deviceId (tk_session tk)) (ri_deviceId inp),
                    ii_deviceFingerprint = ls_deviceFingerprint (tk_session tk), ii_ipAddress = ri_ipAddress inp,
                    ii_userAgent = ri_userAgent inp, ii_family = Some (tk_family tk)\<rparr> jti [] now ss of
              Inl e \<Rightarrow> (Inl e, st)
            | Inr (tokens, ss') \<Rightarrow> (Inr tokens, with_sessions ss' st)))"

definition refresh ::
  "'tok jose \<Rightarrow> 'r redis \<Rightarrow> 'tok refresh_input \<Rightarrow> string \<Rightarrow> date \<Rightarrow> 'r auth_state
   \<Rightarrow> (app_error + 'tok auth_tokens) \<times> 'r auth_state" where
  "refresh J R inp jti now st =
     (case refresh_check J R inp now st of
        (Inl e, st1) \<Rightarrow> (Inl e, st1)
      | (Inr tk, st1) \<Rightarrow> refresh_commit J tk inp jti now st1)"

definition logout :: "'tok jose \<Rightarrow> 'tok \<Rightarrow> oid \<Rightarrow> date \<Rightarrow> 'r auth_state \<Rightarrow> 'r auth_state" where
  "logout J refreshToken userId now st =
     with_sessions (snd (updateOne (\<lambda>x. ls_refreshTokenHash x = Some (jo_hash J refreshToken) \<and> ls_userId x = userId)
       (revoke_row now) (au_sessions st))) st"

definition logoutAll :: "oid \<Rightarrow> date \<Rightarrow> 'r auth_state \<Rightarrow> int \<times> 'r auth_state" where
  "logoutAll userId now st =
     (let (n, ss) = updateMany (\<lambda>x. ls_userId x = userId \<and> session_active x)
                      (revoke_row now) (au_sessions st)
      in (n, with_sessions ss st))"

section \<open>The signer\<close>

text \<open>What jose promises: a signed payload verifies until it expires, and not after.\<close>

locale jose_laws =
  fixes J :: "'tok jose"
  assumes verify_sign: "jp_exp p = Some e \<Longrightarrow> unix_seconds now < e \<Longrightarrow> jo_verify J now (jo_sign J p) = Some p"
    and verify_expired: "jp_exp p = Some e \<Longrightarrow> e \<le> unix_seconds now \<Longrightarrow> jo_verify J now (jo_sign J p) = None"
begin

lemma verify_access:
  "verifyAccessToken J now (signAccessToken J t sub jti tv) =
     (if unix_seconds now < unix_seconds t + ACCESS_TTL_SEC \<and> jti \<noteq> []
      then Some \<lparr>ac_sub = sub, ac_jti = jti, ac_tokenVersion = tv, ac_iat = unix_seconds t\<rparr> else None)"
  by (cases "unix_seconds now < unix_seconds t + ACCESS_TTL_SEC")
    (simp_all add: verifyAccessToken_def signAccessToken_def verify_sign verify_expired)

lemma verify_refresh:
  "verifyRefreshToken J now (signRefreshToken J t sub jti family tv) =
     (if unix_seconds now < unix_seconds t + REFRESH_TTL_SEC \<and> jti \<noteq> []
      then Some \<lparr>rf_sub = sub, rf_jti = jti, rf_family = family, rf_tokenVersion = tv, rf_iat = unix_seconds t\<rparr> else None)"
  by (cases "unix_seconds now < unix_seconds t + REFRESH_TTL_SEC")
    (simp_all add: verifyRefreshToken_def signRefreshToken_def verify_sign verify_expired)

lemma verify_refresh_as_access:
  "verifyAccessToken J now (signRefreshToken J t sub jti family tv) =
     (if unix_seconds now < unix_seconds t + REFRESH_TTL_SEC \<and> jti \<noteq> []
      then Some \<lparr>ac_sub = sub, ac_jti = jti, ac_tokenVersion = tv, ac_iat = unix_seconds t\<rparr> else None)"
  by (cases "unix_seconds now < unix_seconds t + REFRESH_TTL_SEC")
    (simp_all add: verifyAccessToken_def signRefreshToken_def verify_sign verify_expired)

end

text \<open>A signer with these laws: the token is the payload, its digest the token id.\<close>

definition payload_jose :: "jwt_payload jose" where
  "payload_jose =
     \<lparr>jo_sign = (\<lambda>p. p),
      jo_verify = (\<lambda>now p. case jp_exp p of None \<Rightarrow> Some p | Some e \<Rightarrow> if unix_seconds now < e then Some p else None),
      jo_hash = (\<lambda>p. or_default (jp_jti p) [])\<rparr>"

interpretation payload: jose_laws payload_jose
  by unfold_locales (simp_all add: payload_jose_def)

section \<open>Interleaved sessions\<close>

text \<open>
  A configuration: the state, the refreshes that have passed their checks and not yet rotated,
  and the UUIDs drawn so far. A UUID that is drawn is new. \<open>expire\<close> is the TTL index of the
  collection, \<open>other\<close> any operation that does not write sessions.
\<close>

type_synonym 'r auth_config = "'r auth_state \<times> refresh_ticket multiset \<times> string set"

inductive session_step :: "'tok jose \<Rightarrow> 'r redis \<Rightarrow> 'r auth_config \<Rightarrow> 'r auth_config \<Rightarrow> bool" for J R where
  issue: "jti \<notin> drawn \<Longrightarrow> uuid \<notin> drawn \<Longrightarrow> ii_family inp = None \<Longrightarrow>
    issueTokensAndSession J inp jti uuid now (au_sessions st) = Inr (tokens, ss) \<Longrightarrow>
    session_step J R (st, tks, drawn) (with_sessions ss st, tks, drawn \<union> {jti, uuid})"
| checked: "refresh_check J R inp now st = (Inr tk, st') \<Longrightarrow>
    session_step J R (st, tks, drawn) (st', add_mset tk tks, drawn)"
| refused: "refresh_check J R inp now st = (Inl e, st') \<Longrightarrow> session_step J R (st, tks, drawn) (st', tks, drawn)"
| rotate: "jti \<notin> drawn \<Longrightarrow> refresh_commit J tk inp jti now st = (answer, st') \<Longrightarrow>
    session_step J R (st, add_mset tk tks, drawn) (st', tks, drawn \<union> {jti})"
| logout: "session_step J R (st, tks, drawn) (logout J token userId now st, tks, drawn)"
| logout_all: "session_step J R (st, tks, drawn) (snd (logoutAll userId now st), tks, drawn)"
| expire: "session_step J R (st, tks, drawn)
    (with_sessions (deleteMany (\<lambda>x. case ls_expiresAt x of None \<Rightarrow> False | Some d \<Rightarrow> d \<le> now) (au_sessions st)) st, tks, drawn)"
| other: "au_sessions st' = au_sessions st \<Longrightarrow> session_step J R (st, tks, drawn) (st', tks, drawn)"

text \<open>
  The invariant: every session has a family that was drawn, a token id names one session, a
  family has at most one session that is not revoked, and a ticket names the family of its
  session.
\<close>

definition sessions_ok :: "login_session list \<Rightarrow> string set \<Rightarrow> bool" where
  "sessions_ok ss drawn \<longleftrightarrow> distinct (map ls_jti ss) \<and>
     (\<forall>x \<in> set ss. ls_jti x \<in> drawn \<and> (\<exists>f \<in> drawn. ls_family x = Some f)) \<and>
     (\<forall>x \<in> set ss. \<forall>y \<in> set ss. session_active x \<longrightarrow> session_active y \<longrightarrow> ls_family x = ls_family y \<longrightarrow> x = y)"

definition ticket_ok :: "login_session list \<Rightarrow> string set \<Rightarrow> refresh_ticket \<Rightarrow> bool" where
  "ticket_ok ss drawn tk \<longleftrightarrow> tk_family tk \<in> drawn \<and> tk_jti tk \<in> drawn \<and>
     (\<forall>x \<in> set ss. ls_jti x = tk_jti tk \<longrightarrow> ls_family x = Some (tk_family tk))"

definition auth_inv :: "'r auth_config \<Rightarrow> bool" where
  "auth_inv c = (case c of (st, tks, drawn) \<Rightarrow> sessions_ok (au_sessions st) drawn \<and>
     (\<forall>tk \<in># tks. ticket_ok (au_sessions st) drawn tk))"

text \<open>Every write but the insert of a new session only revokes or removes sessions.\<close>

definition only_revoked :: "login_session list \<Rightarrow> login_session list \<Rightarrow> bool" where
  "only_revoked ss ss' \<longleftrightarrow> distinct (map ls_jti ss) \<longrightarrow> distinct (map ls_jti ss') \<and>
     (\<forall>y \<in> set ss'. \<exists>x \<in> set ss. ls_jti y = ls_jti x \<and> ls_family y = ls_family x \<and> (session_active y \<longrightarrow> y = x))"

lemma revoke_row_fields [simp]: "ls_jti (revoke_row now x) = ls_jti x" "ls_family (revoke_row now x) = ls_family x"
  "\<not> session_active (revoke_row now x)" "ls_revokedAt (revoke_row now x) = Some now"
  by (simp_all add: revoke_row_def)

lemma only_revoked_refl: "only_revoked ss ss"
  unfolding only_revoked_def by blast

lemma only_revoked_updateMany: "only_revoked ss (snd (updateMany p (revoke_row now) ss))"
proof -
  have "map ls_jti (map (\<lambda>x. if p x then revoke_row now x else x) ss) = map ls_jti ss" by simp
  moreover have "\<exists>x \<in> set ss. ls_jti y = ls_jti x \<and> ls_family y = ls_family x \<and> (session_active y \<longrightarrow> y = x)"
    if "y \<in> set (map (\<lambda>x. if p x then revoke_row now x else x) ss)" for y
    using that by auto
  ultimately show ?thesis unfolding only_revoked_def updateMany_def by (simp del: map_map)
qed

lemma only_revoked_updateOne: "only_revoked ss (snd (updateOne p (revoke_row now) ss))"
proof -
  have "map ls_jti (update_first p (revoke_row now) ss) = map ls_jti ss" by (rule map_update_first) simp
  moreover have "\<exists>x \<in> set ss. ls_jti y = ls_jti x \<and> ls_family y = ls_family x \<and> (session_active y \<longrightarrow> y = x)"
    if "y \<in> set (update_first p (revoke_row now) ss)" for y
    using that
  proof (rule in_update_firstE)
    fix x assume x: "findOne p ss = Some x" "y = revoke_row now x"
    then show ?thesis using findOne_SomeD [OF x(1)] by auto
  qed blast
  ultimately show ?thesis unfolding only_revoked_def updateOne_def by simp
qed

lemma only_revoked_deleteMany: "only_revoked ss (deleteMany p ss)"
  unfolding only_revoked_def deleteMany_def by (auto simp: distinct_map_filter)

lemma only_revoked_ok:
  assumes "only_revoked ss ss'" "sessions_ok ss drawn"
  shows "sessions_ok ss' drawn"
proof -
  have d: "distinct (map ls_jti ss')" using assms by (simp add: only_revoked_def sessions_ok_def)
  have orig: "\<exists>x \<in> set ss. ls_jti y = ls_jti x \<and> ls_family y = ls_family x \<and> (session_active y \<longrightarrow> y = x)" if "y \<in> set ss'" for y
    using assms that by (simp add: only_revoked_def sessions_ok_def)
  have "ls_jti y \<in> drawn \<and> (\<exists>f \<in> drawn. ls_family y = Some f)" if "y \<in> set ss'" for y
    using orig [OF that] assms(2) unfolding sessions_ok_def by metis
  moreover have "y = z" if "y \<in> set ss'" "z \<in> set ss'" "session_active y" "session_active z" "ls_family y = ls_family z" for y z
    using orig [OF that(1)] orig [OF that(2)] that assms(2) unfolding sessions_ok_def by metis
  ultimately show ?thesis using d unfolding sessions_ok_def by blast
qed

lemma only_revoked_ticket:
  assumes "only_revoked ss ss'" "sessions_ok ss drawn" "ticket_ok ss drawn tk"
  shows "ticket_ok ss' drawn tk"
  using assms unfolding only_revoked_def sessions_ok_def ticket_ok_def by metis

lemma with_sessions_simps [simp]: "au_sessions (with_sessions ss st) = ss" "au_db (with_sessions ss st) = au_db st"
  "au_otp (with_sessions ss st) = au_otp st" "au_redis (with_sessions ss st) = au_redis st"
  by (simp_all add: with_sessions_def au_redis_def)

lemma only_revoked_family: "only_revoked ss (revokeFamily family now ss)"
  unfolding revokeFamily_def by (rule only_revoked_updateMany)

lemma issue_result:
  assumes "issueTokensAndSession J inp jti uuid now ss = Inr (tokens, ss')"
  obtains row where "ss' = ss @ [row]" "ls_jti row = jti" "ls_family row = Some (or_default (ii_family inp) uuid)"
    "session_active row" "jti \<notin> ls_jti ` set ss"
    "ls_refreshTokenHash row = Some (jo_hash J (at_refresh tokens))" "ls_userId row = ii_userId inp"
    "ls_deviceId row = Some (ii_deviceId inp)"
    "at_refresh tokens = signRefreshToken J now (ii_userId inp) jti (or_default (ii_family inp) uuid) (ii_tokenVersion inp)"
    "at_access tokens = signAccessToken J now (ii_userId inp) jti (ii_tokenVersion inp)"
  using assms
  by (auto simp: issueTokensAndSession_def Let_def create_def session_clash_def list_ex_iff image_iff split: if_splits)

lemma refresh_check_sessions:
  assumes "refresh_check J R inp now st = (answer, st')"
  shows "only_revoked (au_sessions st) (au_sessions st') \<and> au_db st' = au_db st \<and> au_otp st' = au_otp st"
  using assms only_revoked_refl only_revoked_family
  by (auto simp: refresh_check_def Let_def split: option.splits if_splits)

lemma refresh_check_ticket:
  assumes "refresh_check J R inp now st = (Inr tk, st')"
  shows "st' = st \<and> tk_session tk \<in> set (au_sessions st) \<and> session_active (tk_session tk) \<and>
    tk_jti tk = ls_jti (tk_session tk) \<and> ls_family (tk_session tk) = Some (tk_family tk) \<and>
    ls_refreshTokenHash (tk_session tk) = Some (jo_hash J (ri_refreshToken inp)) \<and>
    ls_deviceId (tk_session tk) = Some (ri_deviceId inp) \<and> tk_family tk \<noteq> [] \<and> tk_jti tk \<noteq> [] \<and>
    (\<exists>user. findOne (\<lambda>u. u_id u = tk_userId tk) (users (au_db st)) = Some user \<and> tk_userId tk = u_id user \<and>
       u_anonymizedAt user = None \<and> \<not> bl_isBlocked (u_blocked user) \<and> tk_tokenVersion tk = u_tokenVersion user)"
proof -
  let ?hash = "jo_hash J (ri_refreshToken inp)"
  note check = assms [unfolded refresh_check_def Let_def]
  obtain claims where c: "verifyRefreshToken J now (ri_refreshToken inp) = Some claims"
    using check by (cases "verifyRefreshToken J now (ri_refreshToken inp)") auto
  note check = check [unfolded c option.case]
  obtain session where se: "findActiveByRefreshHash ?hash (au_sessions st) = Some session"
    using check by (cases "findActiveByRefreshHash ?hash (au_sessions st)") (auto split: if_splits)
  note check = check [unfolded se option.case]
  obtain f where f: "ls_family session = Some f"
    using check by (cases "ls_family session") (auto split: if_splits)
  note check = check [unfolded f option.case]
  obtain user where u: "findOne (\<lambda>u. u_id u = rf_sub claims) (users (au_db st)) = Some user"
    using check by (cases "findOne (\<lambda>u. u_id u = rf_sub claims) (users (au_db st))") (auto split: if_splits)
  note check = check [unfolded u option.case]
  have tk: "tk = \<lparr>tk_session = session, tk_jti = ls_jti session, tk_family = f, tk_userId = u_id user,
      tk_tokenVersion = u_tokenVersion user\<rparr>" and rest: "st' = st" "f \<noteq> []" "ls_jti session \<noteq> []"
      "ls_deviceId session = Some (ri_deviceId inp)" "u_anonymizedAt user = None" "\<not> bl_isBlocked (u_blocked user)"
    using check by (simp_all split: if_splits)
  have "findOne (\<lambda>v. u_id v = u_id user) (users (au_db st)) = Some user" using findOne_SomeD [OF u] u by simp
  then show ?thesis using findOne_SomeD [OF se [unfolded findActiveByRefreshHash_def]] rest f by (simp add: tk)
qed

lemma refresh_commit_cases:
  assumes "refresh_commit J tk inp jti now st = (answer, st')"
  obtains (raced) "\<And>x. x \<in> set (au_sessions st) \<Longrightarrow> session_active x \<Longrightarrow> ls_jti x \<noteq> tk_jti tk"
      "answer = Inl UnauthorizedError" "st' = with_sessions (revokeFamily (tk_family tk) now (au_sessions st)) st"
  | (clash) "answer = Inl (InternalError ''INTERNAL'')" "st' = st" "jti \<in> ls_jti ` set (au_sessions st)"
  | (rotated) x row tokens where "x \<in> set (au_sessions st)" "session_active x" "ls_jti x = tk_jti tk" "answer = Inr tokens"
      "st' = with_sessions (update_first (\<lambda>x. ls_jti x = tk_jti tk \<and> session_active x) (revoke_row now) (au_sessions st) @ [row]) st"
      "ls_jti row = jti" "ls_family row = Some (tk_family tk)" "session_active row" "jti \<notin> ls_jti ` set (au_sessions st)"
      "ls_refreshTokenHash row = Some (jo_hash J (at_refresh tokens))" "ls_userId row = tk_userId tk"
      "ls_deviceId row = Some (or_default (ls_deviceId (tk_session tk)) (ri_deviceId inp))"
      "at_refresh tokens = signRefreshToken J now (tk_userId tk) jti (tk_family tk) (tk_tokenVersion tk)"
proof -
  let ?p = "\<lambda>x. ls_jti x = tk_jti tk \<and> session_active x"
  let ?inp = "\<lparr>ii_userId = tk_userId tk, ii_tokenVersion = tk_tokenVersion tk,
      ii_deviceId = or_default (ls_deviceId (tk_session tk)) (ri_deviceId inp),
      ii_deviceFingerprint = ls_deviceFingerprint (tk_session tk), ii_ipAddress = ri_ipAddress inp,
      ii_userAgent = ri_userAgent inp, ii_family = Some (tk_family tk)\<rparr>"
  show ?thesis
  proof (cases "findOne ?p (au_sessions st)")
    case None
    then have "answer = Inl UnauthorizedError" "st' = with_sessions (revokeFamily (tk_family tk) now (au_sessions st)) st"
      using assms by (simp_all add: refresh_commit_def updateOne_def)
    with raced findOne_NoneD [OF None] show ?thesis by blast
  next
    case (Some x)
    have x: "x \<in> set (au_sessions st)" "session_active x" "ls_jti x = tk_jti tk" using findOne_SomeD [OF Some] by simp_all
    then have "revoke_row now x \<noteq> x" by (metis revoke_row_fields(3))
    then have m: "updateOne ?p (revoke_row now) (au_sessions st) = (1, update_first ?p (revoke_row now) (au_sessions st))"
      by (simp add: updateOne_def Some)
    have r: "(case issueTokensAndSession J ?inp jti [] now (update_first ?p (revoke_row now) (au_sessions st)) of
          Inl e \<Rightarrow> (Inl e, st) | Inr (tokens, ss') \<Rightarrow> (Inr tokens, with_sessions ss' st)) = (answer, st')"
      using assms unfolding refresh_commit_def m Let_def prod.case by (simp only: if_False simp_thms)
    have "map ls_jti (update_first ?p (revoke_row now) (au_sessions st)) = map ls_jti (au_sessions st)"
      by (rule map_update_first) simp
    then have jtis: "ls_jti ` set (update_first ?p (revoke_row now) (au_sessions st)) = ls_jti ` set (au_sessions st)"
      unfolding set_map [symmetric] by (rule arg_cong)
    show ?thesis
    proof (cases "issueTokensAndSession J ?inp jti [] now (update_first ?p (revoke_row now) (au_sessions st))")
      case (Inl e)
      then have "e = InternalError ''INTERNAL'' \<and> jti \<in> ls_jti ` set (update_first ?p (revoke_row now) (au_sessions st))"
        by (auto simp: issueTokensAndSession_def Let_def create_def list_ex_iff session_clash_def image_iff split: if_splits)
      then show ?thesis using r Inl clash jtis by simp
    next
      case (Inr res)
      obtain tokens ss' where res: "res = (tokens, ss')" by (cases res)
      have out: "answer = Inr tokens" "st' = with_sessions ss' st" using r Inr res by simp_all
      show ?thesis
        by (rule issue_result [OF Inr [unfolded res]], rule rotated [OF x out(1)]) (simp_all add: out(2) jtis)
    qed
  qed
qed

lemma sessions_ok_add:
  assumes "sessions_ok ss drawn" "drawn \<subseteq> drawn'" "ls_jti row \<notin> ls_jti ` set ss" "ls_jti row \<in> drawn'"
    and "ls_family row = Some f" "f \<in> drawn'"
    and "\<And>x. x \<in> set ss \<Longrightarrow> session_active x \<Longrightarrow> ls_family x \<noteq> Some f"
  shows "sessions_ok (ss @ [row]) drawn'"
proof -
  have "y = z" if "y \<in> set (ss @ [row])" "z \<in> set (ss @ [row])" "session_active y" "session_active z" "ls_family y = ls_family z" for y z
    using that assms(1,5,7) unfolding sessions_ok_def by (metis Un_iff insert_iff list.set(1,2) set_append empty_iff)
  moreover have "ls_jti x \<in> drawn' \<and> (\<exists>f \<in> drawn'. ls_family x = Some f)" if "x \<in> set (ss @ [row])" for x
    using that assms(1,2,4,5,6) unfolding sessions_ok_def by (auto 4 3)
  moreover have "distinct (map ls_jti (ss @ [row]))" using assms(1,3) by (simp add: sessions_ok_def)
  ultimately show ?thesis unfolding sessions_ok_def by blast
qed

lemma ticket_ok_add: "ticket_ok ss drawn tk \<Longrightarrow> drawn \<subseteq> drawn' \<Longrightarrow> ls_jti row \<notin> drawn \<Longrightarrow> ticket_ok (ss @ [row]) drawn' tk"
  by (auto simp: ticket_ok_def)

text \<open>After the revocation of the only active session its family has none.\<close>

lemma revoked_family_empty:
  assumes ok: "sessions_ok ss drawn" and x: "x \<in> set ss" "session_active x" "ls_family x = Some f"
    and y: "y \<in> set (update_first (\<lambda>z. ls_jti z = ls_jti x \<and> session_active z) (revoke_row now) ss)" "session_active y"
  shows "ls_family y \<noteq> Some f"
proof
  let ?p = "\<lambda>z. ls_jti z = ls_jti x \<and> session_active z"
  assume fam: "ls_family y = Some f"
  have d: "distinct (map ls_jti ss)" using ok by (simp add: sessions_ok_def)
  have px: "z = x" if "z \<in> set ss" "?p z" for z using distinct_map_eq [OF d that(1) x(1)] that(2) by simp
  obtain z where z: "findOne ?p ss = Some z" using x findOne_NoneD [of ?p ss x] by (cases "findOne ?p ss") auto
  then have zx: "z = x" using px findOne_SomeD [OF z] by blast
  have or: "only_revoked ss (update_first ?p (revoke_row now) ss)"
    using only_revoked_updateOne [of ss ?p now] by (simp add: updateOne_def)
  then have d': "distinct (map ls_jti (update_first ?p (revoke_row now) ss))" using d by (simp add: only_revoked_def)
  obtain x0 where "x0 \<in> set ss" "y = x0" "session_active x0" "ls_family x0 = Some f"
    using or d y fam unfolding only_revoked_def by metis
  then have "y = x" using ok x unfolding sessions_ok_def by metis
  moreover have "revoke_row now x \<in> set (update_first ?p (revoke_row now) ss)" using updated_in_set [OF z] zx by simp
  ultimately have "revoke_row now x = x" using distinct_map_eq [OF d' _ y(1)] by simp
  then show False using x(2) by (metis revoke_row_fields(3))
qed

lemma auth_inv_mono:
  assumes "auth_inv (st, tks, drawn)" "only_revoked (au_sessions st) (au_sessions st')"
  shows "auth_inv (st', tks, drawn)"
  using assms only_revoked_ok only_revoked_ticket unfolding auth_inv_def by blast

lemma auth_inv_rotate:
  assumes inv: "auth_inv (st, add_mset tk tks, drawn)" and jti: "jti \<notin> drawn"
    and c: "refresh_commit J tk inp jti now st = (answer, st')"
  shows "auth_inv (st', tks, drawn \<union> {jti})"
proof -
  have ok: "sessions_ok (au_sessions st) drawn" and tk: "ticket_ok (au_sessions st) drawn tk"
    and tks: "\<And>t. t \<in># tks \<Longrightarrow> ticket_ok (au_sessions st) drawn t" using inv by (simp_all add: auth_inv_def)
  have weak: "sessions_ok ss drawn \<Longrightarrow> sessions_ok ss (drawn \<union> {jti})" "ticket_ok ss drawn t \<Longrightarrow> ticket_ok ss (drawn \<union> {jti}) t" for ss t
    by (auto simp: sessions_ok_def ticket_ok_def)
  show ?thesis using c
  proof (cases rule: refresh_commit_cases)
    case raced
    have "auth_inv (st', tks, drawn)"
      using auth_inv_mono [of st tks drawn st'] ok tks raced(3) only_revoked_family by (simp add: auth_inv_def)
    then show ?thesis using weak by (simp add: auth_inv_def)
  next
    case clash
    then show ?thesis using ok tks weak by (simp add: auth_inv_def)
  next
    case (rotated x row tokens)
    let ?ss = "update_first (\<lambda>x. ls_jti x = tk_jti tk \<and> session_active x) (revoke_row now) (au_sessions st)"
    have or: "only_revoked (au_sessions st) ?ss" using only_revoked_updateOne [of "au_sessions st"] by (simp add: updateOne_def)
    have fam: "ls_family x = Some (tk_family tk)" using tk rotated(1,3) by (simp add: ticket_ok_def)
    have ok1: "sessions_ok ?ss drawn" by (rule only_revoked_ok [OF or ok])
    then have "ls_jti row \<notin> ls_jti ` set ?ss" using jti rotated(6) by (auto simp: sessions_ok_def)
    then have "sessions_ok (?ss @ [row]) (drawn \<union> {jti})"
      using revoked_family_empty [OF ok rotated(1,2) fam] rotated tk
      by (intro sessions_ok_add [OF ok1]) (auto simp: ticket_ok_def)
    moreover have "ticket_ok (?ss @ [row]) (drawn \<union> {jti}) t" if "t \<in># tks" for t
      using only_revoked_ticket [OF or ok tks [OF that]] jti rotated(6) by (intro ticket_ok_add) auto
    ultimately show ?thesis using rotated(5) by (simp add: auth_inv_def)
  qed
qed

lemma auth_inv_issue:
  assumes inv: "auth_inv (st, tks, drawn)" and new: "jti \<notin> drawn" "uuid \<notin> drawn" "ii_family inp = None"
    and i: "issueTokensAndSession J inp jti uuid now (au_sessions st) = Inr (tokens, ss)"
  shows "auth_inv (with_sessions ss st, tks, drawn \<union> {jti, uuid})"
proof -
  have ok: "sessions_ok (au_sessions st) drawn" and tks: "\<And>t. t \<in># tks \<Longrightarrow> ticket_ok (au_sessions st) drawn t"
    using inv by (simp_all add: auth_inv_def)
  obtain row where row: "ss = au_sessions st @ [row]" "ls_jti row = jti" "ls_family row = Some uuid"
      "jti \<notin> ls_jti ` set (au_sessions st)"
    by (rule issue_result [OF i]) (use new(3) in simp)
  have "ls_family x \<noteq> Some uuid" if "x \<in> set (au_sessions st)" for x using ok that new(2) by (auto simp: sessions_ok_def)
  then have "sessions_ok ss (drawn \<union> {jti, uuid})" using row by (auto intro: sessions_ok_add [OF ok])
  moreover have "ticket_ok ss (drawn \<union> {jti, uuid}) t" if "t \<in># tks" for t
    unfolding row(1) by (rule ticket_ok_add [OF tks [OF that]]) (use row(2) new in auto)
  ultimately show ?thesis by (simp add: auth_inv_def)
qed

lemma refresh_ticket_ok:
  assumes "refresh_check J R inp now st = (Inr tk, st')" "sessions_ok (au_sessions st) drawn"
  shows "ticket_ok (au_sessions st) drawn tk"
proof -
  note tk = refresh_check_ticket [OF assms(1)]
  have "x = tk_session tk" if "x \<in> set (au_sessions st)" "ls_jti x = tk_jti tk" for x
    using assms(2) tk that distinct_map_eq [of ls_jti "au_sessions st"] by (simp add: sessions_ok_def)
  then show ?thesis using tk assms(2) unfolding ticket_ok_def sessions_ok_def by (metis option.inject)
qed

lemma session_step_inv:
  assumes "session_step J R c c'" "auth_inv c"
  shows "auth_inv c'"
  using assms
proof (cases rule: session_step.cases)
  case (checked inp now st tk st' tks drawn)
  then have "auth_inv (st, tks, drawn)" "st' = st" using assms(2) refresh_check_ticket by blast+
  then show ?thesis using refresh_ticket_ok [OF checked(3)] checked(2) by (simp add: auth_inv_def)
next
  case refused
  then show ?thesis using auth_inv_mono refresh_check_sessions assms(2) by metis
next
  case (rotate jti drawn tk inp now st answer st' tks)
  then show ?thesis using auth_inv_rotate assms(2) by metis
next
  case issue
  then show ?thesis using auth_inv_issue assms(2) by metis
next
  case (logout st tks drawn token userId now)
  have "only_revoked (au_sessions st) (au_sessions (logout J token userId now st))"
    unfolding logout_def with_sessions_simps by (rule only_revoked_updateOne)
  then show ?thesis using auth_inv_mono assms(2) logout by metis
next
  case (logout_all st tks drawn userId now)
  have "only_revoked (au_sessions st) (au_sessions (snd (logoutAll userId now st)))"
    unfolding logoutAll_def using only_revoked_updateMany by (simp add: split_beta)
  then show ?thesis using auth_inv_mono assms(2) logout_all by metis
next
  case expire
  then show ?thesis using auth_inv_mono assms(2) only_revoked_deleteMany with_sessions_simps(1) by metis
next
  case other
  then show ?thesis using auth_inv_mono assms(2) only_revoked_refl by metis
qed

section \<open>Properties of sessions\<close>

lemma session_steps_inv:
  assumes "(session_step J R)\<^sup>*\<^sup>* c c'" "auth_inv c"
  shows "auth_inv c'"
  using assms by (induction rule: rtranclp_induct) (use session_step_inv in blast)+

lemma one_survivor:
  assumes "distinct xs" "\<And>x y. x \<in> set xs \<Longrightarrow> y \<in> set xs \<Longrightarrow> x = y"
  shows "length xs \<le> 1"
proof (cases xs)
  case (Cons x ys)
  then have "ys = []" using assms(1) assms(2) [of x "hd ys"] by (cases ys) auto
  then show ?thesis using Cons by simp
qed simp

definition sample_auth :: "user list \<Rightarrow> login_session list \<Rightarrow> key_space auth_state" where
  "sample_auth us ss = \<lparr>au_db = empty_db\<lparr>users := us\<rparr>, au_sessions = ss, au_devices = [], au_notifications = [],
     au_audits = [], au_otp = sample_otp_state\<rparr>"

definition sample_issue :: issue_input where
  "sample_issue = \<lparr>ii_userId = 1, ii_tokenVersion = 0, ii_deviceId = ''d'', ii_deviceFingerprint = None,
     ii_ipAddress = ''::1'', ii_userAgent = ''ua'', ii_family = None\<rparr>"

definition sample_session :: "string \<Rightarrow> date option \<Rightarrow> login_session" where
  "sample_session jti revoked =
     \<lparr>ls_userId = 1, ls_jti = jti, ls_deviceId = Some ''d'', ls_deviceFingerprint = None, ls_userAgent = None, ls_ip = None,
      ls_refreshTokenHash = Some jti, ls_family = Some ''f'', ls_revokedAt = revoked, ls_expiresAt = None\<rparr>"

definition sample_refresh :: "string \<Rightarrow> jwt_payload refresh_input" where
  "sample_refresh jti = \<lparr>ri_refreshToken = signRefreshToken payload_jose 0 1 jti ''f'' 0, ri_deviceId = ''d'',
     ri_ipAddress = ''::1'', ri_userAgent = ''ua''\<rparr>"

definition sample_signed_in :: "key_space auth_state" where
  "sample_signed_in =
     (case issueTokensAndSession payload_jose sample_issue ''j'' ''f'' 0 [] of
        Inl _ \<Rightarrow> sample_auth [] [] | Inr (_, ss) \<Rightarrow> with_sessions ss (sample_auth [] []))"

lemma sample_sign_in_step:
  "session_step payload_jose space_redis (sample_auth [] [], {#}, {}) (sample_signed_in, {#}, {''j'', ''f''})"
proof -
  have "au_sessions (sample_auth [] []) = []" by (simp add: sample_auth_def)
  then obtain tokens ss where i: "issueTokensAndSession payload_jose sample_issue ''j'' ''f'' 0 (au_sessions (sample_auth [] [])) = Inr (tokens, ss)"
    by (auto simp: issueTokensAndSession_def Let_def create_def)
  then have "sample_signed_in = with_sessions ss (sample_auth [] [])" by (simp add: sample_signed_in_def sample_auth_def)
  then show ?thesis
    using session_step.issue [OF _ _ _ i, of "{}" space_redis "{#}"] by (simp add: sample_issue_def)
qed

lemma sample_sign_in_path:
  "(session_step payload_jose space_redis)\<^sup>*\<^sup>* (sample_auth [] [], {#}, {}) (sample_signed_in, {#}, {''j'', ''f''})"
  using sample_sign_in_step by blast



definition family_dead :: "string \<Rightarrow> 'r auth_config \<Rightarrow> bool" where
  "family_dead f c = (case c of (st, tks, drawn) \<Rightarrow> f \<in> drawn \<and>
     (\<forall>x \<in> set (au_sessions st). session_active x \<longrightarrow> ls_family x \<noteq> Some f))"

lemma family_dead_revoked:
  assumes "family_dead f (st, tks, drawn)" "auth_inv (st, tks, drawn)" "only_revoked (au_sessions st) (au_sessions st')"
  shows "family_dead f (st', tks', drawn)"
proof -
  have "distinct (map ls_jti (au_sessions st))" using assms(2) by (simp add: auth_inv_def sessions_ok_def)
  then show ?thesis using assms(1,3) unfolding family_dead_def only_revoked_def by (simp, metis)
qed

lemma family_dead_add:
  assumes "\<And>x. x \<in> set ss \<Longrightarrow> session_active x \<Longrightarrow> ls_family x \<noteq> Some f" "ls_family row \<noteq> Some f" "f \<in> drawn"
  shows "family_dead f (with_sessions (ss @ [row]) st, tks, drawn \<union> new)"
  using assms by (auto simp: family_dead_def)

lemma dead_rotation:
  assumes "family_dead f (st, add_mset tk tks, drawn)" "auth_inv (st, add_mset tk tks, drawn)" "tk_family tk = f"
  shows "refresh_commit J tk inp jti now st =
    (Inl UnauthorizedError, with_sessions (revokeFamily f now (au_sessions st)) st)"
proof -
  have "ls_jti x \<noteq> tk_jti tk" if "x \<in> set (au_sessions st)" "session_active x" for x
    using that assms unfolding family_dead_def auth_inv_def ticket_ok_def by force
  then have "findOne (\<lambda>x. ls_jti x = tk_jti tk \<and> session_active x) (au_sessions st) = None"
    by (auto simp: findOne_None_iff)
  then show ?thesis by (simp add: refresh_commit_def updateOne_def assms(3))
qed

lemma session_step_dead:
  assumes "session_step J R c c'" "auth_inv c" "family_dead f c"
  shows "family_dead f c'"
  using assms
proof (cases rule: session_step.cases)
  case (issue jti drawn uuid inp now st tokens ss tks)
  obtain row where row: "ss = au_sessions st @ [row]" "ls_family row = Some uuid"
    by (rule issue_result [OF issue(6)]) (use issue(5) in simp)
  show ?thesis unfolding issue(2) row(1)
    by (rule family_dead_add) (use assms(3) issue row in \<open>auto simp: family_dead_def\<close>)
next
  case (checked inp now st tk st' tks drawn)
  then show ?thesis using family_dead_revoked refresh_check_sessions assms(2,3) by metis
next
  case refused
  then show ?thesis using family_dead_revoked refresh_check_sessions assms(2,3) by metis
next
  case (rotate jti drawn tk inp now st answer st' tks)
  have fd: "family_dead f (st, add_mset tk tks, drawn)" and inv: "auth_inv (st, add_mset tk tks, drawn)"
    using assms(2,3) rotate(1) by simp_all
  show ?thesis using rotate(4)
  proof (cases rule: refresh_commit_cases)
    case raced
    then show ?thesis using family_dead_revoked [OF fd inv, of st' tks] only_revoked_family rotate(2) by (simp add: family_dead_def)
  next
    case clash
    then show ?thesis using fd rotate(2) by (simp add: family_dead_def)
  next
    case (rotated x row tokens)
    have "tk_family tk \<noteq> f"
      using dead_rotation [OF fd inv, of J inp jti now] rotate(4) rotated(4) by (metis Inl_Inr_False prod.inject)
    moreover have "ls_family y \<noteq> Some f" if "session_active y"
      "y \<in> set (update_first (\<lambda>x. ls_jti x = tk_jti tk \<and> session_active x) (revoke_row now) (au_sessions st))" for y
      using that(2) by (rule in_update_firstE) (use fd that(1) in \<open>auto simp: family_dead_def\<close>)
    ultimately show ?thesis unfolding rotate(2) rotated(5)
      by (intro family_dead_add) (use fd rotated in \<open>auto simp: family_dead_def\<close>)
  qed
next
  case (logout st tks drawn token userId now)
  have "only_revoked (au_sessions st) (au_sessions (logout J token userId now st))"
    unfolding logout_def with_sessions_simps by (rule only_revoked_updateOne)
  then show ?thesis using family_dead_revoked assms(2,3) logout by metis
next
  case (logout_all st tks drawn userId now)
  have "only_revoked (au_sessions st) (au_sessions (snd (logoutAll userId now st)))"
    unfolding logoutAll_def using only_revoked_updateMany by (simp add: split_beta)
  then show ?thesis using family_dead_revoked assms(2,3) logout_all by metis
next
  case expire
  then show ?thesis using family_dead_revoked assms(2,3) only_revoked_deleteMany with_sessions_simps(1) by metis
next
  case other
  then show ?thesis using family_dead_revoked assms(2,3) only_revoked_refl by metis
qed

lemma session_steps_dead:
  assumes "(session_step J R)\<^sup>*\<^sup>* c c'" "auth_inv c" "family_dead f c"
  shows "family_dead f c' \<and> auth_inv c'"
  using assms by (induction rule: rtranclp_induct) (use session_step_dead session_step_inv in blast)+

text \<open>
  Once all sessions of a family are revoked the family is dead: it never has a live session
  again, and every refresh that had passed its checks before, on a session of the family, is
  refused and rotates nothing.
\<close>

theorem revoked_family_stays_dead:
  assumes "(session_step J R)\<^sup>*\<^sup>* (st0, {#}, {}) (st, tks, drawn)" "au_sessions st0 = []"
    and "f \<in> drawn" "\<forall>x \<in> set (au_sessions st). session_active x \<longrightarrow> ls_family x \<noteq> Some f"
    and "(session_step J R)\<^sup>*\<^sup>* (st, tks, drawn) (st', tks', drawn')"
  shows "(\<forall>x \<in> set (au_sessions st'). session_active x \<longrightarrow> ls_family x \<noteq> Some f) \<and>
    (\<forall>tk \<in># tks'. tk_family tk = f \<longrightarrow> (\<forall>inp jti now. refresh_commit J tk inp jti now st' =
      (Inl UnauthorizedError, with_sessions (revokeFamily f now (au_sessions st')) st')))"
proof -
  have "auth_inv (st0, {#}, {})" using assms(2) by (simp add: auth_inv_def sessions_ok_def)
  then have inv: "auth_inv (st, tks, drawn)" by (rule session_steps_inv [OF assms(1)])
  have "family_dead f (st, tks, drawn)" using assms(3,4) by (simp add: family_dead_def)
  then have d: "family_dead f (st', tks', drawn')" and inv': "auth_inv (st', tks', drawn')"
    using session_steps_dead [OF assms(5) inv] by simp_all
  have "refresh_commit J tk inp jti now st' = (Inl UnauthorizedError, with_sessions (revokeFamily f now (au_sessions st')) st')"
    if "tk \<in># tks'" "tk_family tk = f" for tk inp jti now
    using dead_rotation [of f st' tk "tks' - {#tk#}" drawn'] d inv' that by simp
  then show ?thesis using d unfolding family_dead_def by simp
qed

theorem revoked_family_stays_dead_witness:
  "map ls_family (au_sessions (snd (logoutAll 1 5 sample_signed_in))) = [Some ''f''] \<and>
   list_all (\<lambda>x. session_active x \<longrightarrow> ls_family x \<noteq> Some ''f'') (au_sessions (snd (logoutAll 1 5 sample_signed_in)))"
proof
  show "map ls_family (au_sessions (snd (logoutAll 1 5 sample_signed_in))) = [Some ''f'']" by code_simp
  have "session_step payload_jose space_redis (sample_signed_in, {#}, {''j'', ''f''}) (snd (logoutAll 1 5 sample_signed_in), {#}, {''j'', ''f''})"
    by (rule session_step.logout_all)
  then have path: "(session_step payload_jose space_redis)\<^sup>*\<^sup>* (sample_auth [] [], {#}, {}) (snd (logoutAll 1 5 sample_signed_in), {#}, {''j'', ''f''})"
    using sample_sign_in_step by (meson converse_rtranclp_into_rtranclp r_into_rtranclp)
  have "list_all (\<lambda>x. session_active x \<longrightarrow> ls_family x \<noteq> Some ''f'') (au_sessions (snd (logoutAll 1 5 sample_signed_in)))"
    by code_simp
  then have "\<forall>x \<in> set (au_sessions (snd (logoutAll 1 5 sample_signed_in))). session_active x \<longrightarrow> ls_family x \<noteq> Some ''f''"
    unfolding list_all_iff .
  from revoked_family_stays_dead [OF path _ _ this rtranclp.rtrancl_refl]
  show "list_all (\<lambda>x. session_active x \<longrightarrow> ls_family x \<noteq> Some ''f'') (au_sessions (snd (logoutAll 1 5 sample_signed_in)))"
    by (simp add: sample_auth_def list_all_iff)
qed

section \<open>Tokens, reuse and forced logout\<close>

lemma other_families: "filter (\<lambda>x. ls_family x \<noteq> Some f) (revokeFamily f now ss) = filter (\<lambda>x. ls_family x \<noteq> Some f) ss"
  unfolding revokeFamily_def updateMany_def snd_conv by (induction ss) auto

lemma reuse_cases:
  assumes "verifyRefreshToken J now (ri_refreshToken inp) = Some claims"
    and "findActiveByRefreshHash (jo_hash J (ri_refreshToken inp)) (au_sessions st) = None"
    and "\<not> (case getCutoff R (rf_sub claims) now (au_redis st) of None \<Rightarrow> False | Some cutoff \<Rightarrow> rf_iat claims \<le> cutoff)"
  shows "refresh J R inp jti now st = (Inl UnauthorizedError,
      if exists_doc (\<lambda>x. ls_family x = Some (rf_family claims)) (au_sessions st)
      then with_sessions (revokeFamily (rf_family claims) now (au_sessions st)) st else st)"
  using assms by (simp add: refresh_def refresh_check_def)

lemma revoked_family_has_none:
  "\<forall>x \<in> set (if exists_doc (\<lambda>x. ls_family x = Some f) ss then revokeFamily f now ss else ss).
     session_active x \<longrightarrow> ls_family x \<noteq> Some f"
  by (auto simp: revokeFamily_def updateMany_def exists_doc_def findOne_None_iff split: if_splits)

text \<open>
  Presenting a refresh token of a family that exists when no live session has its digest is
  taken as reuse: the answer is 401 and no session of the family stays live, while the
  sessions of every other family stay as they are.
\<close>

theorem reuse_revokes_family:
  assumes "verifyRefreshToken J now (ri_refreshToken inp) = Some claims"
    and "findActiveByRefreshHash (jo_hash J (ri_refreshToken inp)) (au_sessions st) = None"
    and "\<And>cutoff. getCutoff R (rf_sub claims) now (au_redis st) = Some cutoff \<Longrightarrow> cutoff < rf_iat claims"
  shows "fst (refresh J R inp jti now st) = Inl UnauthorizedError \<and>
    (\<forall>x \<in> set (au_sessions (snd (refresh J R inp jti now st))). session_active x \<longrightarrow> ls_family x \<noteq> Some (rf_family claims)) \<and>
    filter (\<lambda>x. ls_family x \<noteq> Some (rf_family claims)) (au_sessions (snd (refresh J R inp jti now st))) =
      filter (\<lambda>x. ls_family x \<noteq> Some (rf_family claims)) (au_sessions st)"
proof -
  let ?f = "rf_family claims"
  have no_cut: "\<not> (case getCutoff R (rf_sub claims) now (au_redis st) of None \<Rightarrow> False | Some cutoff \<Rightarrow> rf_iat claims \<le> cutoff)"
    using assms(3) by (auto split: option.splits simp: not_le)
  let ?ss = "if exists_doc (\<lambda>x. ls_family x = Some ?f) (au_sessions st) then revokeFamily ?f now (au_sessions st) else au_sessions st"
  note r = reuse_cases [OF assms(1,2) no_cut]
  have live: "\<forall>x \<in> set ?ss. session_active x \<longrightarrow> ls_family x \<noteq> Some ?f" by (rule revoked_family_has_none)
  have rest: "filter (\<lambda>x. ls_family x \<noteq> Some ?f) ?ss = filter (\<lambda>x. ls_family x \<noteq> Some ?f) (au_sessions st)"
    by (simp only: other_families if_distrib [of "filter _"] if_cancel)
  have ss: "au_sessions (snd (refresh J R inp jti now st)) = ?ss"
    unfolding r by (simp only: snd_conv if_distrib [of au_sessions] with_sessions_simps)
  have ans: "fst (refresh J R inp jti now st) = Inl UnauthorizedError" unfolding r by (rule fst_conv)
  show ?thesis unfolding ss by (intro conjI ans live rest)
qed

theorem reuse_revokes_family_witness:
  "fst (refresh payload_jose space_redis (sample_refresh ''j1'') ''j3'' 5
     (sample_auth [sample_user 1 0 []] [sample_session ''j1'' (Some 4), sample_session ''j2'' None])) = Inl UnauthorizedError \<and>
   list_all (\<lambda>x. session_active x \<longrightarrow> ls_family x \<noteq> Some ''f'')
     (au_sessions (snd (refresh payload_jose space_redis (sample_refresh ''j1'') ''j3'' 5
       (sample_auth [sample_user 1 0 []] [sample_session ''j1'' (Some 4), sample_session ''j2'' None]))))"
proof -
  let ?st = "sample_auth [sample_user 1 0 []] [sample_session ''j1'' (Some 4), sample_session ''j2'' None]"
  have v: "verifyRefreshToken payload_jose 5 (ri_refreshToken (sample_refresh ''j1'')) =
      Some \<lparr>rf_sub = 1, rf_jti = ''j1'', rf_family = ''f'', rf_tokenVersion = 0, rf_iat = 0\<rparr>"
    by (simp add: sample_refresh_def payload.verify_refresh unix_seconds_def REFRESH_TTL_SEC_def)
  have f: "findActiveByRefreshHash (jo_hash payload_jose (ri_refreshToken (sample_refresh ''j1''))) (au_sessions ?st) = None"
    by code_simp
  have g: "getCutoff space_redis u 5 (au_redis ?st) = None" for u
    by (simp add: getCutoff_def space_redis_def space_live_def au_redis_def sample_auth_def sample_otp_state_def)
  show ?thesis using reuse_revokes_family [OF v f, of space_redis "''j3''"] g by (simp add: list_all_iff)
qed

lemma refresh_Inr:
  assumes "refresh J R inp jti now st = (Inr tokens, st')"
  obtains tk where "refresh_check J R inp now st = (Inr tk, st)" "refresh_commit J tk inp jti now st = (Inr tokens, st')"
proof -
  obtain r st1 where c: "refresh_check J R inp now st = (r, st1)" by (cases "refresh_check J R inp now st")
  then obtain tk where r: "r = Inr tk" "refresh_commit J tk inp jti now st1 = (Inr tokens, st')"
    using assms by (cases r) (auto simp: refresh_def)
  moreover have "st1 = st" using refresh_check_ticket c r(1) by blast
  ultimately show thesis using that c by blast
qed

text \<open>The rows after a rotation, looked up by digest.\<close>

lemma rotated_lookup:
  fixes now :: date
  assumes d: "distinct (map ls_refreshTokenHash ss)" and x: "x \<in> set ss" "ls_refreshTokenHash x = Some old" "session_active x"
    and jtis: "distinct (map ls_jti ss)" and row: "ls_refreshTokenHash row = Some new" "session_active row"
    and new: "Some new \<notin> ls_refreshTokenHash ` set ss"
  defines "ss' \<equiv> update_first (\<lambda>z. ls_jti z = ls_jti x \<and> session_active z) (revoke_row now) ss @ [row]"
  shows "findActiveByRefreshHash new ss' = Some row" "findActiveByRefreshHash old ss' = None"
proof -
  let ?p = "\<lambda>z. ls_jti z = ls_jti x \<and> session_active z"
  have px: "z = x" if "z \<in> set ss" "?p z" for z using distinct_map_eq [OF jtis that(1) x(1)] that(2) by simp
  have hashes: "map ls_refreshTokenHash (update_first ?p (revoke_row now) ss) = map ls_refreshTokenHash ss"
    by (rule map_update_first) (simp add: revoke_row_def)
  then have "ls_refreshTokenHash ` set (update_first ?p (revoke_row now) ss) = ls_refreshTokenHash ` set ss"
    unfolding set_map [symmetric] by (rule arg_cong)
  then have "Some new \<notin> ls_refreshTokenHash ` set (update_first ?p (revoke_row now) ss)" using new by simp
  then have "findOne (\<lambda>x. ls_refreshTokenHash x = Some new \<and> session_active x) (update_first ?p (revoke_row now) ss) = None"
    by (force simp: findOne_None_iff)
  then show "findActiveByRefreshHash new ss' = Some row"
    using row by (simp add: findActiveByRefreshHash_def ss'_def findOne_def find_append)
  obtain z where z: "findOne ?p ss = Some z" using x findOne_NoneD [of ?p ss x] by (cases "findOne ?p ss") auto
  then have zx: "z = x" using px findOne_SomeD [OF z] by blast
  have "\<not> session_active y" if "y \<in> set (update_first ?p (revoke_row now) ss)" "ls_refreshTokenHash y = Some old" for y
  proof -
    have "distinct (map ls_refreshTokenHash (update_first ?p (revoke_row now) ss))" using d hashes by simp
    moreover have "revoke_row now x \<in> set (update_first ?p (revoke_row now) ss)" using updated_in_set [OF z] zx by simp
    moreover have "ls_refreshTokenHash (revoke_row now x) = Some old" using x(2) by (simp add: revoke_row_def)
    ultimately have "y = revoke_row now x" using distinct_map_eq [of ls_refreshTokenHash _ y "revoke_row now x"] that by simp
    then show ?thesis by simp
  qed
  moreover have "new \<noteq> old" using new x by force
  ultimately show "findActiveByRefreshHash old ss' = None"
    using row by (auto simp: findActiveByRefreshHash_def ss'_def findOne_None_iff)
qed

lemma refresh_check_passes:
  assumes "verifyRefreshToken J now (ri_refreshToken inp) = Some claims" "getCutoff R (rf_sub claims) now (au_redis st) = None"
    and "findActiveByRefreshHash (jo_hash J (ri_refreshToken inp)) (au_sessions st) = Some x"
    and "ls_family x = Some f" "f \<noteq> []" "ls_jti x \<noteq> []" "ls_deviceId x = Some (ri_deviceId inp)"
    and "findOne (\<lambda>u. u_id u = rf_sub claims) (users (au_db st)) = Some user"
    and "u_anonymizedAt user = None" "\<not> bl_isBlocked (u_blocked user)" "rf_tokenVersion claims = u_tokenVersion user"
  shows "refresh_check J R inp now st =
    (Inr \<lparr>tk_session = x, tk_jti = ls_jti x, tk_family = f, tk_userId = u_id user, tk_tokenVersion = u_tokenVersion user\<rparr>, st)"
  using assms by (simp add: refresh_check_def)

text \<open>
  After a successful refresh the new refresh token works on the same device until it expires,
  while the old one is refused and, as a sign of reuse, takes every session of its family
  with it.
\<close>

theorem rotation_roundtrip:
  assumes jose: "jose_laws J" and ok: "refresh J R inp jti now st = (Inr tokens, st')"
    and cut: "\<And>u. getCutoff R u now' (au_redis st) = None"
    and jtis: "distinct (map ls_jti (au_sessions st))" and hashes: "distinct (map ls_refreshTokenHash (au_sessions st))"
    and new: "Some (jo_hash J (at_refresh tokens)) \<notin> ls_refreshTokenHash ` set (au_sessions st)"
    and jti: "jti \<noteq> []" "jti' \<notin> insert jti (ls_jti ` set (au_sessions st))"
    and time: "unix_seconds now' < unix_seconds now + REFRESH_TTL_SEC"
    and old: "verifyRefreshToken J now' (ri_refreshToken inp) = Some claims"
  shows "(\<exists>tokens' st''. refresh J R (inp\<lparr>ri_refreshToken := at_refresh tokens\<rparr>) jti' now' st' = (Inr tokens', st'')) \<and>
    fst (refresh J R inp jti' now' st') = Inl UnauthorizedError \<and>
    (\<forall>x \<in> set (au_sessions (snd (refresh J R inp jti' now' st'))). session_active x \<longrightarrow> ls_family x \<noteq> Some (rf_family claims))"
proof -
  obtain tk where c: "refresh_check J R inp now st = (Inr tk, st)" and com: "refresh_commit J tk inp jti now st = (Inr tokens, st')"
    by (rule refresh_Inr [OF ok])
  let ?x = "tk_session tk" and ?f = "tk_family tk"
  have tk: "?x \<in> set (au_sessions st)" "session_active ?x" "tk_jti tk = ls_jti ?x" "ls_family ?x = Some ?f"
      "ls_refreshTokenHash ?x = Some (jo_hash J (ri_refreshToken inp))" "ls_deviceId ?x = Some (ri_deviceId inp)" "?f \<noteq> []"
    using refresh_check_ticket [OF c] by blast+
  obtain user where user: "findOne (\<lambda>u. u_id u = tk_userId tk) (users (au_db st)) = Some user" "tk_userId tk = u_id user"
      "u_anonymizedAt user = None" "\<not> bl_isBlocked (u_blocked user)" "tk_tokenVersion tk = u_tokenVersion user"
    using refresh_check_ticket [OF c] by blast
  obtain row where st': "st' = with_sessions (update_first (\<lambda>z. ls_jti z = ls_jti ?x \<and> session_active z) (revoke_row now) (au_sessions st) @ [row]) st"
      and row: "ls_jti row = jti" "ls_family row = Some ?f" "session_active row" "ls_refreshTokenHash row = Some (jo_hash J (at_refresh tokens))"
        "ls_deviceId row = Some (or_default (ls_deviceId ?x) (ri_deviceId inp))"
      and ref: "at_refresh tokens = signRefreshToken J now (tk_userId tk) jti ?f (tk_tokenVersion tk)"
    using com tk(3) by (cases rule: refresh_commit_cases) auto
  note look = rotated_lookup [OF hashes tk(1,5,2) jtis row(4,3) new, of now]
  let ?inp = "inp\<lparr>ri_refreshToken := at_refresh tokens\<rparr>"
  have ver: "verifyRefreshToken J now' (ri_refreshToken ?inp) = Some \<lparr>rf_sub = u_id user, rf_jti = jti, rf_family = ?f,
      rf_tokenVersion = u_tokenVersion user, rf_iat = unix_seconds now\<rparr>"
    using user ref jti time by (simp add: jose_laws.verify_refresh [OF jose])
  have chk: "refresh_check J R ?inp now' st' = (Inr \<lparr>tk_session = row, tk_jti = ls_jti row, tk_family = ?f,
      tk_userId = u_id user, tk_tokenVersion = u_tokenVersion user\<rparr>, st')"
    by (rule refresh_check_passes [OF ver]) (use look(1) row tk user jti(1) in \<open>simp_all add: cut st'\<close>)
  have jtis': "ls_jti ` set (au_sessions st') \<subseteq> insert jti (ls_jti ` set (au_sessions st))"
  proof -
    have "map ls_jti (update_first (\<lambda>z. ls_jti z = ls_jti ?x \<and> session_active z) (revoke_row now) (au_sessions st)) = map ls_jti (au_sessions st)"
      by (rule map_update_first) simp
    then show ?thesis unfolding st' by (simp add: row(1) set_map [symmetric] del: set_map)
  qed
  obtain ans st'' where com': "refresh_commit J \<lparr>tk_session = row, tk_jti = ls_jti row, tk_family = ?f,
      tk_userId = u_id user, tk_tokenVersion = u_tokenVersion user\<rparr> ?inp jti' now' st' = (ans, st'')"
    by (metis surj_pair)
  have in_ss: "row \<in> set (au_sessions st')" unfolding st' by simp
  from com' have "\<exists>tokens'. ans = Inr tokens'"
  proof (cases rule: refresh_commit_cases)
    case raced
    then show ?thesis using raced(1) [OF in_ss row(3)] by simp
  next
    case clash
    then show ?thesis using jti(2) jtis' by blast
  qed blast
  then have first: "\<exists>tokens' st''. refresh J R ?inp jti' now' st' = (Inr tokens', st'')"
    using chk com' by (auto simp: refresh_def)
  have r: "refresh J R inp jti' now' st' = (Inl UnauthorizedError,
      if exists_doc (\<lambda>x. ls_family x = Some (rf_family claims)) (au_sessions st')
      then with_sessions (revokeFamily (rf_family claims) now' (au_sessions st')) st' else st')"
    by (rule reuse_cases [OF old]) (use look(2) in \<open>simp_all add: st' cut\<close>)
  have ss: "au_sessions (snd (refresh J R inp jti' now' st')) =
      (if exists_doc (\<lambda>x. ls_family x = Some (rf_family claims)) (au_sessions st')
       then revokeFamily (rf_family claims) now' (au_sessions st') else au_sessions st')"
    unfolding r by (simp only: snd_conv if_distrib [of au_sessions] with_sessions_simps)
  show ?thesis unfolding ss by (intro conjI first revoked_family_has_none) (simp add: r)
qed

theorem rotation_roundtrip_witness:
  "fst (refresh payload_jose space_redis (sample_refresh ''j1'') ''j3'' 9000
     (snd (refresh payload_jose space_redis (sample_refresh ''j1'') ''j2'' 5000
       (sample_auth [sample_user 1 0 []] [sample_session ''j1'' None])))) = Inl UnauthorizedError"
proof -
  let ?st = "sample_auth [sample_user 1 0 []] [sample_session ''j1'' None]"
  let ?tok = "signRefreshToken payload_jose 5000 1 ''j2'' ''f'' 0"
  let ?tokens = "\<lparr>at_access = signAccessToken payload_jose 5000 1 ''j2'' 0, at_refresh = ?tok, at_accessExpiresIn = ACCESS_TTL_SEC\<rparr>"
  have "fst (refresh payload_jose space_redis (sample_refresh ''j1'') ''j2'' 5000 ?st) = Inr ?tokens" by code_simp
  then have r: "refresh payload_jose space_redis (sample_refresh ''j1'') ''j2'' 5000 ?st =
      (Inr ?tokens, snd (refresh payload_jose space_redis (sample_refresh ''j1'') ''j2'' 5000 ?st))" by (metis prod.collapse)
  have v: "verifyRefreshToken payload_jose 9000 (ri_refreshToken (sample_refresh ''j1'')) =
      Some \<lparr>rf_sub = 1, rf_jti = ''j1'', rf_family = ''f'', rf_tokenVersion = 0, rf_iat = 0\<rparr>"
    by (simp add: sample_refresh_def payload.verify_refresh unix_seconds_def REFRESH_TTL_SEC_def)
  have g: "getCutoff space_redis u 9000 (au_redis ?st) = None" for u
    by (simp add: getCutoff_def space_redis_def space_live_def au_redis_def sample_auth_def sample_otp_state_def)
  have h: "Some (jo_hash payload_jose (at_refresh ?tokens)) \<notin> ls_refreshTokenHash ` set (au_sessions ?st)"
    by (simp add: payload_jose_def signRefreshToken_def sample_auth_def sample_session_def)
  have "fst (refresh payload_jose space_redis (sample_refresh ''j1'') ''j3'' 9000
      (snd (refresh payload_jose space_redis (sample_refresh ''j1'') ''j2'' 5000 ?st))) = Inl UnauthorizedError"
    using rotation_roundtrip [OF payload.jose_laws_axioms r g _ _ h _ _ _ v, of "''j3''"]
    by (simp add: sample_auth_def sample_session_def unix_seconds_def REFRESH_TTL_SEC_def)
  then show ?thesis .
qed

text \<open>
  A refresh token passes as an access token: the middleware does not tell the two apart, so
  the thirty-day token opens every route the fifteen-minute token opens.
\<close>

theorem refresh_token_opens_routes:
  assumes "jose_laws J" and "unix_seconds now < unix_seconds t + REFRESH_TTL_SEC" and "jti \<noteq> []"
    and "getCutoff R userId now (au_redis st) = None"
    and "findOne (\<lambda>u. u_id u = userId) (users (au_db st)) = Some user"
  shows "requireUser J R now (Some (signRefreshToken J t userId jti family (u_tokenVersion user))) st =
    Inr (\<lparr>ac_sub = userId, ac_jti = jti, ac_tokenVersion = u_tokenVersion user, ac_iat = unix_seconds t\<rparr>, u_subscriptions user)"
  using assms(2-5)
  by (simp add: requireUser_def jose_laws.verify_refresh_as_access [OF assms(1)] assertNotForceLoggedOut_def)

theorem refresh_token_opens_routes_witness:
  "requireUser payload_jose space_redis 86400000 (Some (signRefreshToken payload_jose 0 1 ''j'' ''f'' 0)) (sample_auth [sample_user 1 0 []] []) =
   Inr (\<lparr>ac_sub = 1, ac_jti = ''j'', ac_tokenVersion = 0, ac_iat = 0\<rparr>, [])"
proof -
  have "getCutoff space_redis 1 86400000 (au_redis (sample_auth [sample_user 1 0 []] [])) = None"
    by (simp add: getCutoff_def space_redis_def space_live_def au_redis_def sample_auth_def sample_otp_state_def)
  moreover have "findOne (\<lambda>u. u_id u = 1) (users (au_db (sample_auth [sample_user 1 0 []] []))) = Some (sample_user 1 0 [])"
    by (simp add: sample_auth_def findOne_def sample_user_def)
  ultimately show ?thesis
    using refresh_token_opens_routes [OF payload.jose_laws_axioms, of 86400000 0 "''j''" space_redis 1 "sample_auth [sample_user 1 0 []] []" "sample_user 1 0 []" "''f''"]
    by (simp add: unix_seconds_def REFRESH_TTL_SEC_def sample_user_def)
qed

lemma cutoff_after_force:
  assumes "redis_server R live" "t0 \<le> now"
  shows "getCutoff R userId now (snd (store_forceLogout R userId t0 r)) =
    (if now < t0 + REFRESH_TTL_SEC * 1000 then Some (unix_seconds t0) else None)"
proof -
  have "0 < REFRESH_TTL_SEC" by (simp add: REFRESH_TTL_SEC_def)
  then show ?thesis
    using redis_server.expiry [OF assms(1,2)]
    by (simp add: getCutoff_def store_forceLogout_def redis_server.get [OF assms(1)] redis_server.set_ex [OF assms(1)]
        still_alive_def Let_def)
qed

text \<open>A cutoff that lives for thirty days refuses every token issued before it, for ever.\<close>

lemma tokens_refused:
  assumes jose: "jose_laws J" and times: "t \<le> t0"
    and cut: "getCutoff R userId now (au_redis st') = (if now < t0 + REFRESH_TTL_SEC * 1000 then Some (unix_seconds t0) else None)"
  shows "requireUser J R now (Some (signAccessToken J t userId jti tv)) st' = Inl UnauthorizedError"
    and "requireUser J R now (Some (signRefreshToken J t userId jti family tv)) st' = Inl UnauthorizedError"
    and "fst (refresh J R \<lparr>ri_refreshToken = signRefreshToken J t userId jti family tv, ri_deviceId = device,
      ri_ipAddress = ip, ri_userAgent = agent\<rparr> newJti now st') = Inl UnauthorizedError"
proof -
  have iat: "unix_seconds t \<le> unix_seconds t0" using times by (simp add: unix_seconds_def zdiv_mono1)
  have "unix_seconds t0 + REFRESH_TTL_SEC \<le> unix_seconds now" if "\<not> now < t0 + REFRESH_TTL_SEC * 1000"
    using that by (simp add: unix_seconds_def REFRESH_TTL_SEC_def)
  then have exp: "now < t0 + REFRESH_TTL_SEC * 1000" if "unix_seconds now < unix_seconds t + REFRESH_TTL_SEC"
    using that iat by linarith
  have exp': "now < t0 + REFRESH_TTL_SEC * 1000" if "unix_seconds now < unix_seconds t + ACCESS_TTL_SEC"
    by (rule exp) (use that in \<open>simp add: ACCESS_TTL_SEC_def REFRESH_TTL_SEC_def\<close>)
  note defs = requireUser_def refresh_def refresh_check_def jose_laws.verify_access [OF jose]
    jose_laws.verify_refresh [OF jose] jose_laws.verify_refresh_as_access [OF jose] assertNotForceLoggedOut_def
  show "requireUser J R now (Some (signAccessToken J t userId jti tv)) st' = Inl UnauthorizedError"
    and "requireUser J R now (Some (signRefreshToken J t userId jti family tv)) st' = Inl UnauthorizedError"
    and "fst (refresh J R \<lparr>ri_refreshToken = signRefreshToken J t userId jti family tv, ri_deviceId = device,
      ri_ipAddress = ip, ri_userAgent = agent\<rparr> newJti now st') = Inl UnauthorizedError"
    using cut iat exp exp' by (auto simp: defs)
qed

text \<open>
  After a forced logout no token issued before it, neither access nor refresh token, is ever
  accepted again: within thirty days because of the cutoff, later because it has expired.
\<close>

theorem force_logout_is_final:
  assumes redis: "redis_server R live" and jose: "jose_laws J"
    and forced: "fst (admin_forceLogout R userId t0 st) = Inr cutoff"
    and times: "t \<le> t0" "t0 \<le> now" and later: "au_redis st' = au_redis (snd (admin_forceLogout R userId t0 st))"
  shows "requireUser J R now (Some (signAccessToken J t userId jti tv)) st' = Inl UnauthorizedError \<and>
    requireUser J R now (Some (signRefreshToken J t userId jti family tv)) st' = Inl UnauthorizedError \<and>
    fst (refresh J R \<lparr>ri_refreshToken = signRefreshToken J t userId jti family tv, ri_deviceId = device,
      ri_ipAddress = ip, ri_userAgent = agent\<rparr> newJti now st') = Inl UnauthorizedError"
proof -
  have "au_redis st' = snd (store_forceLogout R userId t0 (au_redis st))"
    using later forced by (auto simp: admin_forceLogout_def set_redis_def au_redis_def split: option.splits prod.splits)
  then have cut: "getCutoff R userId now (au_redis st') = (if now < t0 + REFRESH_TTL_SEC * 1000 then Some (unix_seconds t0) else None)"
    using cutoff_after_force [OF redis times(2)] by simp
  show ?thesis by (intro conjI tokens_refused [OF jose times(1) cut])
qed

theorem force_logout_is_final_witness:
  "requireUser payload_jose space_redis 86400000 (Some (signRefreshToken payload_jose 0 1 ''j'' ''f'' 0))
     (snd (admin_forceLogout space_redis 1 5000 (sample_auth [sample_user 1 0 []] []))) = Inl UnauthorizedError"
proof -
  have "fst (admin_forceLogout space_redis 1 5000 (sample_auth [sample_user 1 0 []] [])) = Inr 5" by code_simp
  from force_logout_is_final [OF space.redis_server_axioms payload.jose_laws_axioms this, of 0 86400000
      "snd (admin_forceLogout space_redis 1 5000 (sample_auth [sample_user 1 0 []] []))" "''j''" 0 "''f''"]
  show ?thesis by simp
qed

end
