(* ===== verification/Coins.thy ===== *)
theory Coins
  imports App_Errors Models Paging "HOL-Library.Product_Lexorder" Samples
begin

text \<open>
  The coin economy: the balance update of src/shared/repositories/User.repository.ts, the
  administrative adjustment and the block switch of admin-users.service.ts, and the coin
  history of users.coins.service.ts with its cursor.

  \<open>coin_inv\<close> is the invariant of the ledger: a user's balance is the sum of that user's
  coin transactions, and every transaction records the balance it left. The locale
  \<open>ledger_write\<close> states what an operation that moves coins has to satisfy; every such
  operation of the program is an instance.
\<close>

section \<open>Operations\<close>

text \<open>\<open>$inc\<close> of \<open>coinBalance\<close>, and of \<open>totalCoinsEarned\<close> when coins are awarded.\<close>

definition inc_balance :: "coins \<Rightarrow> user \<Rightarrow> user" where
  "inc_balance delta u =
     (if delta > 0
      then u\<lparr>u_coinBalance := u_coinBalance u + delta, u_totalCoinsEarned := u_totalCoinsEarned u + delta\<rparr>
      else u\<lparr>u_coinBalance := u_coinBalance u + delta\<rparr>)"

definition incCoinBalance :: "oid \<Rightarrow> coins \<Rightarrow> user list \<Rightarrow> user option \<times> user list" where
  "incCoinBalance userId delta us = findOneAndUpdate (\<lambda>u. u_id u = userId) (inc_balance delta) us"

record adjust_input =
  ai_userId :: oid
  ai_delta :: coins
  ai_reason :: string
  ai_actorId :: oid

record adjust_result =
  ar_balanceBefore :: coins
  ar_balanceAfter :: coins
  ar_delta :: coins
  ar_coinTxId :: oid

definition adjust_balance :: "coins \<Rightarrow> user \<Rightarrow> user" where
  "adjust_balance delta u = u\<lparr>u_coinBalance := u_coinBalance u + delta\<rparr>"

text \<open>
  Whether Mongoose applies the \<open>min: 0\<close> validator of the schema to the \<open>$inc\<close> is the
  parameter \<open>rejects\<close>, a predicate on the balance the update would leave.
\<close>

definition adjustCoins ::
  "(coins \<Rightarrow> bool) \<Rightarrow> adjust_input \<Rightarrow> date \<Rightarrow> oid \<Rightarrow> db \<Rightarrow> (app_error + adjust_result) \<times> db" where
  "adjustCoins rejects inp now txId s =
     (if ai_delta inp = 0 then (Inl ValidationError, s)
      else transaction (\<lambda>s.
        case findOneAndUpdate (\<lambda>u. u_id u = ai_userId inp) (adjust_balance (ai_delta inp)) (users s) of
          (None, _) \<Rightarrow> (Inl NotFoundError, s)
        | (Some user, us) \<Rightarrow>
            if rejects (u_coinBalance user) then (Inl ValidationError, s)
            else
              let before = u_coinBalance user - ai_delta inp;
                  after = u_coinBalance user;
                  txDoc = \<lparr>ct_id = txId, ct_createdAt = now, ct_userId = ai_userId inp,
                    ct_type = (if ai_delta inp > 0 then ADMIN_CREDIT else ADMIN_DEBIT),
                    ct_amount = ai_delta inp, ct_balanceAfter = after,
                    ct_reference = Some (Ref_Admin, Some (ai_actorId inp)),
                    ct_note = None, ct_reason = Some (ai_reason inp)\<rparr>
              in (Inr \<lparr>ar_balanceBefore = before, ar_balanceAfter = after,
                       ar_delta = ai_delta inp, ar_coinTxId = txId\<rparr>,
                  s\<lparr>users := us, coin_txs := coin_txs s @ [txDoc]\<rparr>)) s)"

definition block_user :: "oid \<Rightarrow> string \<Rightarrow> oid \<Rightarrow> date \<Rightarrow> db \<Rightarrow> (app_error + user) \<times> db" where
  "block_user userId reason actorId now s =
     (case findOneAndUpdate (\<lambda>u. u_id u = userId)
        (\<lambda>u. u\<lparr>u_blocked := \<lparr>bl_isBlocked = True, bl_reason = Some reason, bl_at = Some now,
                 bl_by = Some actorId\<rparr>\<rparr>) (users s) of
        (None, _) \<Rightarrow> (Inl NotFoundError, s)
      | (Some updated, us) \<Rightarrow> (Inr updated, s\<lparr>users := us\<rparr>))"

definition unblock_user :: "oid \<Rightarrow> db \<Rightarrow> (app_error + user) \<times> db" where
  "unblock_user userId s =
     (case findOneAndUpdate (\<lambda>u. u_id u = userId)
        (\<lambda>u. u\<lparr>u_blocked := \<lparr>bl_isBlocked = False, bl_reason = None, bl_at = None, bl_by = None\<rparr>\<rparr>)
        (users s) of
        (None, _) \<Rightarrow> (Inl NotFoundError, s)
      | (Some updated, us) \<Rightarrow> (Inr updated, s\<lparr>users := us\<rparr>))"

definition getBalance :: "oid \<Rightarrow> db \<Rightarrow> app_error + coins" where
  "getBalance userId s =
     (case findOne (\<lambda>u. u_id u = userId) (users s) of
        None \<Rightarrow> Inl UnauthorizedError | Some user \<Rightarrow> Inr (u_coinBalance user))"

section \<open>The coin history\<close>

text \<open>A decoded cursor: creation time and id of the last row of the page before.\<close>

record cursor_payload =
  cur_t :: date
  cur_i :: oid

definition encodeCursor :: "coin_tx \<Rightarrow> cursor_payload" where
  "encodeCursor doc = \<lparr>cur_t = ct_createdAt doc, cur_i = ct_id doc\<rparr>"

text \<open>The sort \<open>{createdAt: -1, _id: -1}\<close>, as an ascending key.\<close>

definition history_key :: "coin_tx \<Rightarrow> int \<times> int" where
  "history_key t = (- ct_createdAt t, - int (ct_id t))"

definition page_limit :: "int option \<Rightarrow> int" where
  "page_limit limit = max 1 (min 100 (or_default limit 50))"

definition history_filter :: "oid \<Rightarrow> cursor_payload option \<Rightarrow> coin_tx \<Rightarrow> bool" where
  "history_filter userId cursor t =
     (case cursor of
        None \<Rightarrow> ct_userId t = userId
      | Some c \<Rightarrow> ct_userId t = userId \<and>
          (ct_createdAt t < cur_t c \<or> (ct_createdAt t = cur_t c \<and> ct_id t < cur_i c)))"

definition listTransactions ::
  "oid \<Rightarrow> cursor_payload option \<Rightarrow> int option \<Rightarrow> db \<Rightarrow> coin_tx list \<times> cursor_payload option" where
  "listTransactions userId cursor limitOpt s =
     (let limit = nat (page_limit limitOpt);
          fetched = take (limit + 1)
            (sort_key history_key (find_docs (history_filter userId cursor) (coin_txs s)));
          hasMore = length fetched > limit;
          items = (if hasMore then take limit fetched else fetched)
      in (items, if hasMore then Some (encodeCursor (last items)) else None))"

section \<open>The ledger invariant\<close>

definition ledger_sum :: "oid \<Rightarrow> coin_tx list \<Rightarrow> coins" where
  "ledger_sum uid txs = sum_list (map ct_amount (filter (\<lambda>t. ct_userId t = uid) txs))"

definition audit_ok :: "coin_tx list \<Rightarrow> bool" where
  "audit_ok txs \<longleftrightarrow> (\<forall>i < length txs.
     ct_balanceAfter (txs ! i) = ledger_sum (ct_userId (txs ! i)) (take (Suc i) txs))"

definition coin_inv :: "user list \<Rightarrow> coin_tx list \<Rightarrow> bool" where
  "coin_inv us txs \<longleftrightarrow> distinct (map u_id us) \<and>
     (\<forall>u \<in> set us. u_coinBalance u = ledger_sum (u_id u) txs) \<and> audit_ok txs"

definition solvent :: "user list \<Rightarrow> bool" where
  "solvent us \<longleftrightarrow> (\<forall>u \<in> set us. 0 \<le> u_coinBalance u)"

lemma ledger_sum_append [simp]:
  "ledger_sum uid (txs @ [t]) = ledger_sum uid txs + (if ct_userId t = uid then ct_amount t else 0)"
  by (simp add: ledger_sum_def)

lemma audit_ok_snoc:
  "audit_ok (txs @ [t]) \<longleftrightarrow> audit_ok txs \<and> ct_balanceAfter t = ledger_sum (ct_userId t) (txs @ [t])"
  by (auto simp: audit_ok_def nth_append less_Suc_eq all_conj_distrib)

locale ledger_write =
  fixes upd :: "user \<Rightarrow> user" and delta :: coins
  assumes upd_id: "u_id (upd u) = u_id u"
    and upd_balance: "u_coinBalance (upd u) = u_coinBalance u + delta"
begin

lemma ids_kept: "map u_id (update_first q upd us) = map u_id us"
  by (rule map_update_first) (simp add: upd_id)

lemma coin_inv_write:
  assumes inv: "coin_inv us txs" and q: "\<And>u. q u \<Longrightarrow> u_id u = uid"
    and upd: "findOneAndUpdate q upd us = (Some u', us')"
    and tx: "ct_userId t = uid" "ct_amount t = delta" "ct_balanceAfter t = u_coinBalance u'"
  shows "coin_inv us' (txs @ [t])"
proof -
  from upd obtain u where u: "findOne q us = Some u" "u' = upd u" "us' = update_first q upd us"
    by (auto simp: findOneAndUpdate_def)
  then have uid: "u_id u = uid" "u \<in> set us" using findOne_SomeD [OF u(1)] q by auto
  have bal: "u_coinBalance u = ledger_sum uid txs" using inv uid by (auto simp: coin_inv_def)
  obtain ys zs where sp: "us = ys @ u # zs" "us' = ys @ upd u # zs"
    using update_first_split [OF u(1), of upd] u(3) by metis
  have others: "u_id v \<noteq> uid" if "v \<in> set ys \<union> set zs" for v
  proof -
    have "u_id u \<notin> u_id ` (set ys \<union> set zs)" using inv by (auto simp: coin_inv_def sp(1))
    then show ?thesis using that uid(1) by (metis imageI)
  qed
  have "u_coinBalance v = ledger_sum (u_id v) (txs @ [t])" if "v \<in> set us'" for v
  proof (cases "v \<in> set ys \<union> set zs")
    case True
    then have "u_coinBalance v = ledger_sum (u_id v) txs" using inv by (auto simp: coin_inv_def sp(1))
    then show ?thesis using others [OF True] by (simp add: tx)
  next
    case False
    then have "v = upd u" using that by (auto simp: sp(2))
    then show ?thesis using bal by (simp add: upd_id upd_balance uid(1) tx)
  qed
  moreover have "distinct (map u_id us')" using inv by (simp add: u(3) ids_kept coin_inv_def)
  moreover have "audit_ok (txs @ [t])"
    using inv tx bal by (simp add: audit_ok_snoc coin_inv_def u(2) upd_balance)
  ultimately show ?thesis by (simp add: coin_inv_def)
qed

lemma solvent_write:
  assumes "solvent us" and "\<And>u. u \<in> set us \<Longrightarrow> q u \<Longrightarrow> 0 \<le> u_coinBalance u + delta"
  shows "solvent (update_first q upd us)"
  unfolding solvent_def
proof
  fix v assume "v \<in> set (update_first q upd us)"
  then show "0 \<le> u_coinBalance v"
    using assms by (elim in_update_firstE) (auto simp: solvent_def upd_balance dest: findOne_SomeD)
qed

end

interpretation award: ledger_write "inc_balance d" d for d
  by unfold_locales (simp_all add: inc_balance_def)

interpretation adjust: ledger_write "adjust_balance d" d for d
  by unfold_locales (simp_all add: adjust_balance_def)

lemma coin_inv_users_update:
  assumes "\<And>u. u_id (f u) = u_id u" and "\<And>u. u_coinBalance (f u) = u_coinBalance u"
  shows "coin_inv us txs \<Longrightarrow> coin_inv (update_first q f us) txs"
    and "solvent us \<Longrightarrow> solvent (update_first q f us)"
proof -
  have ids: "map u_id (update_first q f us) = map u_id us"
    by (rule map_update_first) (simp add: assms(1))
  show "coin_inv us txs \<Longrightarrow> coin_inv (update_first q f us) txs"
    unfolding coin_inv_def ids
    by (auto elim!: in_update_firstE simp: assms dest: findOne_SomeD)
  show "solvent us \<Longrightarrow> solvent (update_first q f us)"
    by (auto simp: solvent_def elim!: in_update_firstE simp: assms dest: findOne_SomeD)
qed

section \<open>Adjustment and block switch\<close>

lemma adjustCoins_inv:
  assumes "coin_inv (users s) (coin_txs s)"
  shows "coin_inv (users (snd (adjustCoins rejects inp now txId s)))
           (coin_txs (snd (adjustCoins rejects inp now txId s)))"
  using assms adjust.coin_inv_write [OF assms, of "\<lambda>u. u_id u = ai_userId inp" "ai_userId inp" "ai_delta inp"]
  by (auto simp: adjustCoins_def transaction_def Let_def split: prod.splits option.splits sum.splits)

lemma adjustCoins_solvent:
  assumes "solvent (users s)" and "0 \<le> ai_delta inp"
  shows "solvent (users (snd (adjustCoins rejects inp now txId s)))"
  using assms adjust.solvent_write [OF assms(1), of "\<lambda>u. u_id u = ai_userId inp" "ai_delta inp"]
  by (auto simp: adjustCoins_def transaction_def Let_def findOneAndUpdate_def solvent_def
      split: prod.splits option.splits sum.splits)

lemma block_user_inv:
  "coin_inv (users s) (coin_txs s) \<Longrightarrow>
   coin_inv (users (snd (block_user uid r a now s))) (coin_txs (snd (block_user uid r a now s)))"
  "solvent (users s) \<Longrightarrow> solvent (users (snd (block_user uid r a now s)))"
  by (auto simp: block_user_def findOneAndUpdate_def coin_inv_users_update split: option.splits)

lemma unblock_user_inv:
  "coin_inv (users s) (coin_txs s) \<Longrightarrow>
   coin_inv (users (snd (unblock_user uid s))) (coin_txs (snd (unblock_user uid s)))"
  "solvent (users s) \<Longrightarrow> solvent (users (snd (unblock_user uid s)))"
  by (auto simp: unblock_user_def findOneAndUpdate_def coin_inv_users_update split: option.splits)

text \<open>C0: an administrative debit larger than the balance succeeds and leaves the user with a
  negative balance when no validator rejects the \<open>$inc\<close>, which is how Mongoose treats an
  update without \<open>runValidators\<close>; the comment of the method says that it fails.\<close>

theorem adjustCoins_can_overdraw:
  assumes "findOne (\<lambda>u. u_id u = ai_userId inp) (users s) = Some u"
    and "u_coinBalance u + ai_delta inp < 0" and "0 \<le> u_coinBalance u"
    and "\<And>b. \<not> rejects b"
  shows "\<exists>r s'. adjustCoins rejects inp now txId s = (Inr r, s') \<and>
    ar_balanceAfter r < 0 \<and>
    (\<exists>u' \<in> set (users s'). u_id u' = ai_userId inp \<and> u_coinBalance u' < 0)"
proof -
  let ?q = "\<lambda>u. u_id u = ai_userId inp"
  obtain ys zs where "users s = ys @ u # zs"
    "update_first ?q (adjust_balance (ai_delta inp)) (users s) = ys @ adjust_balance (ai_delta inp) u # zs"
    using update_first_split [OF assms(1)] by metis
  then show ?thesis
    using assms findOne_SomeD [OF assms(1)]
    by (auto simp: adjustCoins_def transaction_def Let_def findOneAndUpdate_def adjust_balance_def)
qed

theorem adjustCoins_can_overdraw_witness:
  "\<exists>r s'. adjustCoins (\<lambda>_. False) \<lparr>ai_userId = 1, ai_delta = -9, ai_reason = ''fraud'', ai_actorId = 2\<rparr> 0 5
     (empty_db\<lparr>users := [sample_user 1 4 []]\<rparr>) = (Inr r, s') \<and> ar_balanceAfter r < 0"
proof -
  let ?inp = "\<lparr>ai_userId = 1, ai_delta = -9, ai_reason = ''fraud'', ai_actorId = 2\<rparr>"
  have "findOne (\<lambda>u. u_id u = ai_userId ?inp) (users (empty_db\<lparr>users := [sample_user 1 4 []]\<rparr>)) = Some (sample_user 1 4 [])"
    "u_coinBalance (sample_user 1 4 []) + ai_delta ?inp < 0" "0 \<le> u_coinBalance (sample_user 1 4 [])"
    by (simp_all add: sample_user_def findOne_def)
  from adjustCoins_can_overdraw [OF this, of "\<lambda>_. False"] show ?thesis by blast
qed

section \<open>Walking the history\<close>

interpretation history: keyset history_key ct_id encodeCursor history_filter "\<lambda>limit. nat (page_limit limit)"
  "\<lambda>userId limit txs c. listTransactions userId c limit (empty_db\<lparr>coin_txs := txs\<rparr>)"
proof unfold_locales
  show "history_filter q (Some (encodeCursor y)) x \<longleftrightarrow> history_filter q None x \<and> history_key y < history_key x" for q x y
    by (auto simp: history_filter_def encodeCursor_def history_key_def less_prod_def)
qed (auto simp: history_key_def page_limit_def listTransactions_def find_docs_def Let_def)

lemma listTransactions_db: "listTransactions userId c limit s = listTransactions userId c limit (empty_db\<lparr>coin_txs := coin_txs s\<rparr>)"
  by (simp add: listTransactions_def)



end
