(* ===== verification/Auth.thy ===== *)
theory Auth
  imports Sessions Coins Samples
begin

text \<open>
  Sign-up and sign-in (src/modules/auth/auth.service.ts): the requests for a one-time password,
  the verification with the creation of the user, the bonus, the device link and the first
  session in one transaction, and the sign-in. The code is sent and checked by the theory
  Otp over the Redis store, tokens and sessions come from the theory Sessions. Random values
  (ids, UUIDs, the bytes of a referral code) are arguments.
\<close>

section \<open>Referral codes\<close>

definition CROCKFORD :: string where
  "CROCKFORD = ''0123456789ABCDEFGHJKMNPQRSTVWXYZ''"

definition generateReferralCode :: "nat list \<Rightarrow> string" where
  "generateReferralCode bytes = map (\<lambda>b. CROCKFORD ! (b mod length CROCKFORD)) bytes"

definition REFERRAL_CODE_MAX_RETRIES :: nat where "REFERRAL_CODE_MAX_RETRIES = 5"

definition findByReferralCode :: "string \<Rightarrow> user list \<Rightarrow> user option" where
  "findByReferralCode code us = findOne (\<lambda>u. u_referralCode u = Some code) us"

definition findByPhone :: "string \<Rightarrow> user list \<Rightarrow> user option" where
  "findByPhone phone us = findOne (\<lambda>u. u_phone u = phone) us"

text \<open>\<open>draws k\<close> are the random bytes of attempt \<open>k\<close>.\<close>

fun pick_loop :: "(nat \<Rightarrow> nat list) \<Rightarrow> user list \<Rightarrow> nat list \<Rightarrow> app_error + string" where
  "pick_loop draws us [] = Inl (InternalError ''REFERRAL_CODE_EXHAUSTED'')"
| "pick_loop draws us (attempt # rest) =
     (let candidate = generateReferralCode (draws attempt)
      in if findByReferralCode candidate us = None then Inr candidate else pick_loop draws us rest)"

definition pickUniqueReferralCode :: "(nat \<Rightarrow> nat list) \<Rightarrow> user list \<Rightarrow> app_error + string" where
  "pickUniqueReferralCode draws us = pick_loop draws us [0..<REFERRAL_CODE_MAX_RETRIES]"

section \<open>Devices\<close>

definition LINKED_USERS_SUSPICIOUS_THRESHOLD :: nat where "LINKED_USERS_SUSPICIOUS_THRESHOLD = 3"
definition SUSPICIOUS_SCORE_BUMP :: int where "SUSPICIOUS_SCORE_BUMP = 10"

definition findByFingerprint :: "string \<Rightarrow> device_fp list \<Rightarrow> device_fp option" where
  "findByFingerprint fp ds = findOne (\<lambda>d. df_fingerprint d = fp) ds"

definition upsertAndLinkUser :: "string \<Rightarrow> oid \<Rightarrow> device_fp list \<Rightarrow> device_fp list" where
  "upsertAndLinkUser fp userId ds =
     (if findByFingerprint fp ds = None
      then ds @ [\<lparr>df_fingerprint = fp, df_firstSeenUserId = Some userId, df_linkedUserIds = [userId],
                  df_suspiciousScore = 0, df_blocked = False\<rparr>]
      else update_first (\<lambda>d. df_fingerprint d = fp)
             (\<lambda>d. d\<lparr>df_linkedUserIds := (if userId \<in> set (df_linkedUserIds d) then df_linkedUserIds d
                                       else df_linkedUserIds d @ [userId])\<rparr>) ds)"

definition enforceDeviceNotBlocked :: "string \<Rightarrow> 'r auth_state \<Rightarrow> app_error option" where
  "enforceDeviceNotBlocked fp st =
     (case findByFingerprint fp (au_devices st) of
        None \<Rightarrow> None
      | Some device \<Rightarrow>
          if df_blocked device then Some (ForbiddenError ''DEVICE_BLOCKED'')
          else
            let linkedUsers = map (\<lambda>i. findOne (\<lambda>u. u_id u = i) (users (au_db st))) (df_linkedUserIds device)
            in if list_ex (\<lambda>u. case u of None \<Rightarrow> False | Some v \<Rightarrow> bl_isBlocked (u_blocked v)) linkedUsers
               then Some (ForbiddenError ''DEVICE_BLOCKED'') else None)"

definition maybeBumpSuspicion :: "string \<Rightarrow> device_fp list \<Rightarrow> device_fp list" where
  "maybeBumpSuspicion fp ds =
     (let linkCount = (case findByFingerprint fp ds of None \<Rightarrow> 0 | Some d \<Rightarrow> length (df_linkedUserIds d))
      in if linkCount > LINKED_USERS_SUSPICIOUS_THRESHOLD
         then snd (updateOne (\<lambda>d. df_fingerprint d = fp)
                (\<lambda>d. d\<lparr>df_suspiciousScore := df_suspiciousScore d + SUSPICIOUS_SCORE_BUMP\<rparr>) ds)
         else ds)"

section \<open>Requests for a code\<close>

definition OTP_RESEND_MIN_INTERVAL_MS :: int where "OTP_RESEND_MIN_INTERVAL_MS = 60 * 1000"

record request_result =
  rr_requestedAt :: date
  rr_resendAllowedAt :: date

text \<open>What sending a code needs from outside: the random number, the salt, the row id, the error of the SMS gateway.\<close>

record send_draws =
  sd_random :: int
  sd_salt :: string
  sd_id :: oid
  sd_smsError :: "app_error option"

definition requested :: "date \<Rightarrow> request_result" where
  "requested now = \<lparr>rr_requestedAt = now, rr_resendAllowedAt = now + OTP_RESEND_MIN_INTERVAL_MS\<rparr>"

definition send_code ::
  "'r redis \<Rightarrow> (string \<Rightarrow> string) \<Rightarrow> otp_send_input \<Rightarrow> send_draws \<Rightarrow> date \<Rightarrow> 'r auth_state
   \<Rightarrow> (app_error + request_result) \<times> 'r auth_state" where
  "send_code R sha inp sd now st =
     (case otp_send (RedisLockoutStore R) sha inp (sd_random sd) (sd_salt sd) (sd_id sd) (sd_smsError sd) now (au_otp st) of
        (Inl e, o') \<Rightarrow> (Inl e, st\<lparr>au_otp := o'\<rparr>)
      | (Inr _, o') \<Rightarrow> (Inr (requested now), st\<lparr>au_otp := o'\<rparr>))"

definition requestSignupOtp ::
  "'r redis \<Rightarrow> (string \<Rightarrow> string) \<Rightarrow> string \<Rightarrow> string \<Rightarrow> string \<Rightarrow> send_draws \<Rightarrow> date \<Rightarrow> 'r auth_state
   \<Rightarrow> (app_error + request_result) \<times> 'r auth_state" where
  "requestSignupOtp R sha phone deviceFingerprint ipAddress sd now st =
     (case enforceDeviceNotBlocked deviceFingerprint st of
        Some e \<Rightarrow> (Inl e, st)
      | None \<Rightarrow>
          if findByPhone phone (users (au_db st)) \<noteq> None then (Inr (requested now), st)
          else send_code R sha \<lparr>os_phone = phone, os_purpose = SIGNUP, os_ipAddress = ipAddress,
                 os_deviceFingerprint = Some deviceFingerprint\<rparr> sd now st)"

definition requestLoginOtp ::
  "'r redis \<Rightarrow> (string \<Rightarrow> string) \<Rightarrow> string \<Rightarrow> string \<Rightarrow> send_draws \<Rightarrow> date \<Rightarrow> 'r auth_state
   \<Rightarrow> (app_error + request_result) \<times> 'r auth_state" where
  "requestLoginOtp R sha phone ipAddress sd now st =
     (case findByPhone phone (users (au_db st)) of
        None \<Rightarrow> (Inr (requested now), st)
      | Some user \<Rightarrow>
          if bl_isBlocked (u_blocked user) then (Inr (requested now), st)
          else send_code R sha \<lparr>os_phone = phone, os_purpose = LOGIN, os_ipAddress = ipAddress,
                 os_deviceFingerprint = None\<rparr> sd now st)"

section \<open>Sign-up\<close>

definition SIGNUP_BONUS_COINS :: coins where "SIGNUP_BONUS_COINS = 3"

definition LOAD_TEST_PHONE_PATTERN :: "string \<Rightarrow> bool" where
  "LOAD_TEST_PHONE_PATTERN phone \<longleftrightarrow> length phone = 13 \<and> take 10 phone = ''+919999990'' \<and>
     list_all (\<lambda>c. c \<in> set ''0123456789'') (drop 10 phone)"

definition shouldBypassSignupOtp :: "string \<Rightarrow> string \<Rightarrow> bool option \<Rightarrow> bool" where
  "shouldBypassSignupOtp nodeEnv phone devBypassOtp =
     (if nodeEnv \<noteq> ''development'' then False
      else if \<not> LOAD_TEST_PHONE_PATTERN phone then False
      else devBypassOtp = Some True)"

record signup_input =
  su_phone :: string
  su_otp :: string
  su_dob :: date
  su_declaredState :: string
  su_referralCode :: "string option"
  su_consentVersion :: string
  su_consentAcceptedAt :: date
  su_privacyPolicyVersion :: string
  su_deviceId :: string
  su_deviceFingerprint :: string
  su_ipAddress :: string
  su_userAgent :: string
  su_devBypassOtp :: "bool option"

record authed_user =
  aud_id :: oid
  aud_phone :: string
  aud_coinBalance :: coins
  aud_displayName :: "string option"

record signup_draws =
  sg_userId :: oid
  sg_txId :: oid
  sg_jti :: string
  sg_family :: string
  sg_referral :: "nat \<Rightarrow> nat list"

definition signup_user :: "signup_input \<Rightarrow> string \<Rightarrow> oid option \<Rightarrow> date \<Rightarrow> oid \<Rightarrow> user" where
  "signup_user inp referralCode referredBy now newId =
     \<lparr>u_id = newId, u_createdAt = now, u_phone = su_phone inp, u_dob = su_dob inp, u_declaredState = su_declaredState inp,
      u_email = None, u_displayName = None, u_avatarUrl = None, u_socialLinks = None,
      u_coinBalance = SIGNUP_BONUS_COINS, u_totalCoinsEarned = SIGNUP_BONUS_COINS, u_totalVotesCast = 0,
      u_signupBonusGranted = True, u_geoBlocked = False, u_ageVerified = False, u_tokenVersion = 1,
      u_kyc = \<lparr>kyc_status = K_NONE, kyc_panCt = None, kyc_panIv = None, kyc_panTag = None, kyc_panDekEnc = None,
               kyc_panLast4 = None, kyc_verifiedAt = None\<rparr>,
      u_blocked = \<lparr>bl_isBlocked = False, bl_reason = None, bl_at = None, bl_by = None\<rparr>,
      u_lastVoteDate = None, u_subscriptions = [], u_primaryDeviceFingerprint = Some (su_deviceFingerprint inp),
      u_lastLoginIp = Some (su_ipAddress inp), u_lastLoginAt = Some now, u_referredBy = referredBy,
      u_referralCode = Some referralCode, u_consentVersion = Some (su_consentVersion inp),
      u_consentAcceptedAt = Some (su_consentAcceptedAt inp), u_privacyPolicyVersion = Some (su_privacyPolicyVersion inp),
      u_deletedAt = None, u_anonymizedAt = None,
      u_erasureHold = Some \<lparr>eh_active = False, eh_reason = None, eh_by = None, eh_at = None\<rparr>\<rparr>"

definition signup_tx_row :: "oid \<Rightarrow> date \<Rightarrow> oid \<Rightarrow> coin_tx" where
  "signup_tx_row userId now txId =
     \<lparr>ct_id = txId, ct_createdAt = now, ct_userId = userId, ct_type = SIGNUP_BONUS, ct_amount = SIGNUP_BONUS_COINS,
      ct_balanceAfter = SIGNUP_BONUS_COINS, ct_reference = Some (Ref_System, None), ct_note = Some ''signup bonus'',
      ct_reason = None\<rparr>"

text \<open>The transaction: an error leaves the state it started from.\<close>

definition doSignup ::
  "'tok jose \<Rightarrow> signup_input \<Rightarrow> string \<Rightarrow> oid option \<Rightarrow> signup_draws \<Rightarrow> date \<Rightarrow> 'r auth_state
   \<Rightarrow> (app_error + authed_user \<times> 'tok auth_tokens) \<times> 'r auth_state" where
  "doSignup J inp referralCode referredBy dr now st =
     (let userDoc = signup_user inp referralCode referredBy now (sg_userId dr);
          userId = u_id userDoc
      in case create user_clash userDoc (users (au_db st)) of
           Inl _ \<Rightarrow> (Inl (ConflictError ''PHONE_ALREADY_REGISTERED''), st)
         | Inr us \<Rightarrow>
             let txs = coin_txs (au_db st) @ [signup_tx_row userId now (sg_txId dr)];
                 devices = upsertAndLinkUser (su_deviceFingerprint inp) userId (au_devices st)
             in case issueTokensAndSession J
                       \<lparr>ii_userId = userId, ii_tokenVersion = u_tokenVersion userDoc, ii_deviceId = su_deviceId inp,
                        ii_deviceFingerprint = Some (su_deviceFingerprint inp), ii_ipAddress = su_ipAddress inp,
                        ii_userAgent = su_userAgent inp, ii_family = None\<rparr> (sg_jti dr) (sg_family dr) now (au_sessions st) of
                  Inl e \<Rightarrow> (Inl e, st)
                | Inr (tokens, ss) \<Rightarrow>
                    (Inr (\<lparr>aud_id = userId, aud_phone = su_phone inp, aud_coinBalance = SIGNUP_BONUS_COINS, aud_displayName = None\<rparr>, tokens),
                     st\<lparr>au_db := (au_db st)\<lparr>users := us, coin_txs := txs\<rparr>, au_devices := devices, au_sessions := ss\<rparr>))"

definition signup_otp ::
  "'r redis \<Rightarrow> (string \<Rightarrow> string) \<Rightarrow> string \<Rightarrow> signup_input \<Rightarrow> date \<Rightarrow> 'r auth_state \<Rightarrow> (app_error + unit) \<times> 'r auth_state" where
  "signup_otp R sha nodeEnv inp now st =
     (if shouldBypassSignupOtp nodeEnv (su_phone inp) (su_devBypassOtp inp) then (Inr (), st)
      else
        case otp_verify (RedisLockoutStore R) sha
               \<lparr>oi_phone = su_phone inp, oi_otp = su_otp inp, oi_purpose = SIGNUP\<rparr> now (au_otp st) of
          (answer, o') \<Rightarrow> (answer, st\<lparr>au_otp := o'\<rparr>))"

definition resolve_referrer :: "signup_input \<Rightarrow> user list \<Rightarrow> oid option" where
  "resolve_referrer inp us =
     (case su_referralCode inp of
        None \<Rightarrow> None
      | Some code \<Rightarrow> if code = [] then None else map_option u_id (findByReferralCode code us))"

definition verifySignupOtp ::
  "dayjs \<Rightarrow> 'tok jose \<Rightarrow> 'r redis \<Rightarrow> (string \<Rightarrow> string) \<Rightarrow> string \<Rightarrow> signup_input \<Rightarrow> signup_draws \<Rightarrow> date \<Rightarrow> 'r auth_state
   \<Rightarrow> (app_error + authed_user \<times> 'tok auth_tokens) \<times> 'r auth_state" where
  "verifySignupOtp dj J R sha nodeEnv inp dr now st =
     (if ageInYearsIst dj now (su_dob inp) < 18 then (Inl (ForbiddenError ''UNDERAGE''), st)
      else
        case enforceDeviceNotBlocked (su_deviceFingerprint inp) st of
          Some e \<Rightarrow> (Inl e, st)
        | None \<Rightarrow>
            (case signup_otp R sha nodeEnv inp now st of
               (Inl e, st1) \<Rightarrow> (Inl e, st1)
             | (Inr _, st1) \<Rightarrow>
                 (case pickUniqueReferralCode (sg_referral dr) (users (au_db st1)) of
                    Inl e \<Rightarrow> (Inl e, st1)
                  | Inr referralCode \<Rightarrow>
                      (case doSignup J inp referralCode (resolve_referrer inp (users (au_db st1))) dr now st1 of
                         (Inl e, st2) \<Rightarrow> (Inl e, st2)
                       | (Inr result, st2) \<Rightarrow>
                           (Inr result, st2\<lparr>au_devices := maybeBumpSuspicion (su_deviceFingerprint inp) (au_devices st2)\<rparr>)))))"

section \<open>Sign-in\<close>

record login_input =
  lo_phone :: string
  lo_otp :: string
  lo_deviceId :: string
  lo_deviceFingerprint :: string
  lo_ipAddress :: string
  lo_userAgent :: string

definition touch_login :: "string \<Rightarrow> date \<Rightarrow> user \<Rightarrow> user" where
  "touch_login ip now u = u\<lparr>u_lastLoginIp := Some ip, u_lastLoginAt := Some now\<rparr>"

definition verifyLoginOtp ::
  "'tok jose \<Rightarrow> 'r redis \<Rightarrow> (string \<Rightarrow> string) \<Rightarrow> login_input \<Rightarrow> string \<Rightarrow> string \<Rightarrow> date \<Rightarrow> 'r auth_state
   \<Rightarrow> (app_error + authed_user \<times> 'tok auth_tokens) \<times> 'r auth_state" where
  "verifyLoginOtp J R sha inp jti uuid now st =
     (case otp_verify (RedisLockoutStore R) sha
             \<lparr>oi_phone = lo_phone inp, oi_otp = lo_otp inp, oi_purpose = LOGIN\<rparr> now (au_otp st) of
        (Inl e, o') \<Rightarrow> (Inl e, st\<lparr>au_otp := o'\<rparr>)
      | (Inr _, o') \<Rightarrow>
          let st1 = st\<lparr>au_otp := o'\<rparr> in
          (case findByPhone (lo_phone inp) (users (au_db st1)) of
             None \<Rightarrow> (Inl UnauthorizedError, st1)
           | Some user \<Rightarrow>
               if u_anonymizedAt user \<noteq> None then (Inl UnauthorizedError, st1)
               else if bl_isBlocked (u_blocked user) then (Inl (ForbiddenError ''USER_BLOCKED''), st1)
               else
                 (case issueTokensAndSession J
                         \<lparr>ii_userId = u_id user, ii_tokenVersion = u_tokenVersion user, ii_deviceId = lo_deviceId inp,
                          ii_deviceFingerprint = Some (lo_deviceFingerprint inp), ii_ipAddress = lo_ipAddress inp,
                          ii_userAgent = lo_userAgent inp, ii_family = None\<rparr> jti uuid now (au_sessions st1) of
                    Inl e \<Rightarrow> (Inl e, st1)
                  | Inr (tokens, ss) \<Rightarrow>
                      (Inr (\<lparr>aud_id = u_id user, aud_phone = u_phone user, aud_coinBalance = u_coinBalance user,
                             aud_displayName = u_displayName user\<rparr>, tokens),
                       st1\<lparr>au_sessions := ss,
                           au_db := (au_db st1)\<lparr>users := snd (updateOne (\<lambda>u. u_id u = u_id user)
                             (touch_login (lo_ipAddress inp) now) (users (au_db st1)))\<rparr>\<rparr>))))"

section \<open>Properties\<close>

lemma pick_loop_fresh: "pick_loop draws us attempts = Inr code \<Longrightarrow> findByReferralCode code us = None"
  by (induction attempts) (auto simp: Let_def split: if_splits)

lemma signup_otp_keeps:
  assumes "signup_otp R sha nodeEnv inp now st = (answer, st1)"
  shows "au_db st1 = au_db st \<and> au_sessions st1 = au_sessions st \<and> au_devices st1 = au_devices st"
  using assms by (auto simp: signup_otp_def split: if_splits prod.splits)

lemma doSignup_cases:
  assumes "doSignup J inp code ref dr now st = (answer, st')"
  obtains (failed) e where "answer = Inl e" "st' = st"
  | (created) tokens ss where
      "answer = Inr (\<lparr>aud_id = sg_userId dr, aud_phone = su_phone inp, aud_coinBalance = SIGNUP_BONUS_COINS, aud_displayName = None\<rparr>, tokens)"
      "\<not> list_ex (user_clash (signup_user inp code ref now (sg_userId dr))) (users (au_db st))"
      "au_db st' = (au_db st)\<lparr>users := users (au_db st) @ [signup_user inp code ref now (sg_userId dr)],
         coin_txs := coin_txs (au_db st) @ [signup_tx_row (sg_userId dr) now (sg_txId dr)]\<rparr>"
      "au_devices st' = upsertAndLinkUser (su_deviceFingerprint inp) (sg_userId dr) (au_devices st)"
      "au_sessions st' = ss"
      "issueTokensAndSession J \<lparr>ii_userId = sg_userId dr, ii_tokenVersion = 1, ii_deviceId = su_deviceId inp,
         ii_deviceFingerprint = Some (su_deviceFingerprint inp), ii_ipAddress = su_ipAddress inp,
         ii_userAgent = su_userAgent inp, ii_family = None\<rparr> (sg_jti dr) (sg_family dr) now (au_sessions st) = Inr (tokens, ss)"
proof -
  have ids: "u_id (signup_user inp code ref now (sg_userId dr)) = sg_userId dr"
    "u_tokenVersion (signup_user inp code ref now (sg_userId dr)) = 1" by (simp_all add: signup_user_def)
  let ?u = "signup_user inp code ref now (sg_userId dr)"
  let ?i = "issueTokensAndSession J \<lparr>ii_userId = sg_userId dr, ii_tokenVersion = 1, ii_deviceId = su_deviceId inp,
         ii_deviceFingerprint = Some (su_deviceFingerprint inp), ii_ipAddress = su_ipAddress inp,
         ii_userAgent = su_userAgent inp, ii_family = None\<rparr> (sg_jti dr) (sg_family dr) now (au_sessions st)"
  note d = assms [unfolded doSignup_def Let_def create_def ids]
  show thesis
  proof (cases "list_ex (user_clash ?u) (users (au_db st))")
    case True
    then show thesis using d by (intro failed) auto
  next
    case clash: False
    show thesis
    proof (cases ?i)
      case (Inl e)
      then show thesis using d clash by (intro failed [of e]) auto
    next
      case (Inr ts)
      obtain tokens ss where ts: "ts = (tokens, ss)" by (cases ts)
      show thesis using d clash Inr ts by (intro created [of tokens ss]) auto
    qed
  qed
qed

lemma signup_clash:
  assumes "\<not> list_ex (user_clash (signup_user inp code ref now uid)) us"
  shows "findByPhone (su_phone inp) us = None" and "uid \<notin> u_id ` set us"
  using assms by (auto simp: list_ex_iff user_clash_def signup_user_def findByPhone_def findOne_None_iff)

text \<open>A new user with the bonus and its row keeps the ledger invariant when the id is new.\<close>

lemma coin_inv_signup:
  assumes inv: "coin_inv us txs" and new: "uid \<notin> u_id ` set us" "uid \<notin> ct_userId ` set txs"
  shows "coin_inv (us @ [signup_user inp code ref now uid]) (txs @ [signup_tx_row uid now txId])"
proof -
  have u: "u_id (signup_user inp code ref now uid) = uid" "u_coinBalance (signup_user inp code ref now uid) = SIGNUP_BONUS_COINS"
    by (simp_all add: signup_user_def)
  have t: "ct_userId (signup_tx_row uid now txId) = uid" "ct_amount (signup_tx_row uid now txId) = SIGNUP_BONUS_COINS"
    "ct_balanceAfter (signup_tx_row uid now txId) = SIGNUP_BONUS_COINS" by (simp_all add: signup_tx_row_def)
  have "filter (\<lambda>t. ct_userId t = uid) txs = []" using new(2) by (auto simp: filter_empty_conv)
  then have zero: "ledger_sum uid txs = 0" by (simp add: ledger_sum_def)
  have "u_coinBalance v = ledger_sum (u_id v) (txs @ [signup_tx_row uid now txId])" if "v \<in> set us" for v
    using inv that new(1) by (auto simp: coin_inv_def t)
  moreover have "audit_ok (txs @ [signup_tx_row uid now txId])"
    using inv by (simp add: audit_ok_snoc coin_inv_def t zero)
  ultimately show ?thesis using inv new(1) by (simp add: coin_inv_def u t zero)
qed

lemma verifySignupOtp_cases:
  assumes "verifySignupOtp dj J R sha nodeEnv inp dr now st = (answer, st')"
  obtains (refused) e where "answer = Inl e" "au_db st' = au_db st" "au_sessions st' = au_sessions st" "au_devices st' = au_devices st"
  | (signed_up) code user tokens st1 st2 where "answer = Inr (user, tokens)"
      "\<not> ageInYearsIst dj now (su_dob inp) < 18" "enforceDeviceNotBlocked (su_deviceFingerprint inp) st = None"
      "signup_otp R sha nodeEnv inp now st = (Inr (), st1)" "findByReferralCode code (users (au_db st)) = None"
      "doSignup J inp code (resolve_referrer inp (users (au_db st))) dr now st1 = (Inr (user, tokens), st2)"
      "au_db st' = au_db st2" "au_sessions st' = au_sessions st2"
proof (cases "ageInYearsIst dj now (su_dob inp) < 18 \<or> enforceDeviceNotBlocked (su_deviceFingerprint inp) st \<noteq> None")
  case True
  then show thesis using assms refused by (auto simp: verifySignupOtp_def split: if_splits option.splits)
next
  case False
  then have gates: "\<not> ageInYearsIst dj now (su_dob inp) < 18" "enforceDeviceNotBlocked (su_deviceFingerprint inp) st = None" by auto
  obtain r st1 where o1: "signup_otp R sha nodeEnv inp now st = (r, st1)" by (cases "signup_otp R sha nodeEnv inp now st")
  note keep = signup_otp_keeps [OF o1]
  show thesis
  proof (cases r)
    case (Inl e)
    then show thesis using assms gates o1 keep by (intro refused [of e]) (auto simp: verifySignupOtp_def)
  next
    case ok: (Inr u)
    show thesis
    proof (cases "pickUniqueReferralCode (sg_referral dr) (users (au_db st1))")
      case (Inl e)
      then show thesis using assms gates o1 ok keep by (intro refused [of e]) (auto simp: verifySignupOtp_def)
    next
      case (Inr code)
      have fresh: "findByReferralCode code (users (au_db st)) = None"
        using Inr keep pick_loop_fresh unfolding pickUniqueReferralCode_def by metis
      obtain a st2 where d: "doSignup J inp code (resolve_referrer inp (users (au_db st1))) dr now st1 = (a, st2)"
        by (metis surj_pair)
      show thesis
      proof (cases a)
        case e: (Inl e)
        from d have "st2 = st1" by (cases rule: doSignup_cases) (simp_all add: e)
        then show thesis using assms gates o1 ok Inr d e keep by (intro refused [of e]) (auto simp: verifySignupOtp_def)
      next
        case res: (Inr ut)
        obtain user tokens where ut: "ut = (user, tokens)" by (cases ut)
        have out: "answer = Inr (user, tokens)" "st' = st2\<lparr>au_devices := maybeBumpSuspicion (su_deviceFingerprint inp) (au_devices st2)\<rparr>"
          using assms gates o1 ok Inr d res ut by (simp_all add: verifySignupOtp_def)
        show thesis
          by (rule signed_up [OF out(1) gates _ fresh, of st1 st2]) (use o1 ok d res ut keep out(2) in simp_all)
      qed
    qed
  qed
qed

definition sample_signup :: signup_input where
  "sample_signup = \<lparr>su_phone = ''+919999990001'', su_otp = '''', su_dob = 0, su_declaredState = ''IN-MH'', su_referralCode = None,
     su_consentVersion = ''1'', su_consentAcceptedAt = 0, su_privacyPolicyVersion = ''1'', su_deviceId = ''d'',
     su_deviceFingerprint = ''fp'', su_ipAddress = ''::1'', su_userAgent = ''ua'', su_devBypassOtp = Some True\<rparr>"

definition sample_signup_draws :: signup_draws where
  "sample_signup_draws = \<lparr>sg_userId = 7, sg_txId = 8, sg_jti = ''j'', sg_family = ''f'', sg_referral = (\<lambda>k. [1, 2, 3, 4, 5, 6, 7, k])\<rparr>"

text \<open>C29: 
  A sign-up either is refused and leaves users, ledger, sessions and devices as they are, or
  the applicant is at least eighteen, the phone was not registered, exactly one user with three
  coins and exactly one bonus row are added, and the books still balance.
\<close>

theorem signup_effect:
  assumes "verifySignupOtp dj J R sha nodeEnv inp dr now st = (answer, st')"
    and "sg_userId dr \<notin> ct_userId ` set (coin_txs (au_db st))"
  shows "(\<exists>e. answer = Inl e \<and> au_db st' = au_db st \<and> au_sessions st' = au_sessions st \<and> au_devices st' = au_devices st) \<or>
    (\<exists>tokens u. answer = Inr (\<lparr>aud_id = sg_userId dr, aud_phone = su_phone inp, aud_coinBalance = 3, aud_displayName = None\<rparr>, tokens) \<and>
       18 \<le> ageInYearsIst dj now (su_dob inp) \<and> findByPhone (su_phone inp) (users (au_db st)) = None \<and>
       users (au_db st') = users (au_db st) @ [u] \<and> u_phone u = su_phone inp \<and> u_coinBalance u = 3 \<and> u_signupBonusGranted u \<and>
       coin_txs (au_db st') = coin_txs (au_db st) @ [signup_tx_row (sg_userId dr) now (sg_txId dr)] \<and>
       (coin_inv (users (au_db st)) (coin_txs (au_db st)) \<longrightarrow> coin_inv (users (au_db st')) (coin_txs (au_db st'))))"
  using assms(1)
proof (cases rule: verifySignupOtp_cases)
  case refused
  then show ?thesis by blast
next
  case (signed_up code user tokens st1 st2)
  let ?ref = "resolve_referrer inp (users (au_db st))"
  let ?u = "signup_user inp code ?ref now (sg_userId dr)"
  have keep: "au_db st1 = au_db st" using signup_otp_keeps [OF signed_up(4)] by simp
  from signed_up(6) have new: "user = \<lparr>aud_id = sg_userId dr, aud_phone = su_phone inp, aud_coinBalance = 3, aud_displayName = None\<rparr>"
    "\<not> list_ex (user_clash ?u) (users (au_db st))"
    "users (au_db st') = users (au_db st) @ [?u]"
    "coin_txs (au_db st') = coin_txs (au_db st) @ [signup_tx_row (sg_userId dr) now (sg_txId dr)]"
    by (cases rule: doSignup_cases; simp add: keep signed_up(7) SIGNUP_BONUS_COINS_def)+
  have "u_phone ?u = su_phone inp" "u_coinBalance ?u = 3" "u_signupBonusGranted ?u"
    by (simp_all add: signup_user_def SIGNUP_BONUS_COINS_def)
  moreover have "coin_inv (users (au_db st)) (coin_txs (au_db st)) \<longrightarrow> coin_inv (users (au_db st')) (coin_txs (au_db st'))"
    unfolding new(3,4) using coin_inv_signup [OF _ signup_clash(2) [OF new(2)] assms(2)] by blast
  ultimately show ?thesis
    using signed_up(1,2) new signup_clash(1) [OF new(2)] by (simp add: not_less)
qed

theorem signup_effect_witness:
  "users (au_db (snd (verifySignupOtp gregorian_ist payload_jose space_redis id ''development'' sample_signup sample_signup_draws
     946684800000 (sample_auth [] [])))) \<noteq> []"
proof -
  let ?r = "verifySignupOtp gregorian_ist payload_jose space_redis id ''development'' sample_signup sample_signup_draws
     946684800000 (sample_auth [] [])"
  have ok: "(case fst ?r of Inr _ \<Rightarrow> True | Inl _ \<Rightarrow> False)" by code_simp
  have "sg_userId sample_signup_draws \<notin> ct_userId ` set (coin_txs (au_db (sample_auth [] [])))"
    by (simp add: sample_auth_def empty_db_def)
  moreover have "?r = (fst ?r, snd ?r)" by simp
  ultimately show ?thesis using signup_effect [of gregorian_ist payload_jose space_redis id "''development''" sample_signup
      sample_signup_draws 946684800000 "sample_auth [] []" "fst ?r" "snd ?r"] ok by (auto split: sum.splits)
qed

lemma touch_login_books:
  "coin_inv us txs \<Longrightarrow> coin_inv (update_first q (touch_login ip now) us) txs"
  by (rule coin_inv_users_update) (simp_all add: touch_login_def)

definition sample_login :: login_input where
  "sample_login = \<lparr>lo_phone = ''+911'', lo_otp = ''42'', lo_deviceId = ''d'', lo_deviceFingerprint = ''fp'', lo_ipAddress = ''::1'', lo_userAgent = ''ua''\<rparr>"

definition sample_otp_sent :: "key_space auth_state" where
  "sample_otp_sent = (sample_auth [sample_user 1 0 []] [])\<lparr>au_otp :=
     \<lparr>otp_rows = [\<lparr>ov_id = 3, ov_createdAt = 0, ov_destination = ''+911'', ov_otpHash = Some (hashOtp id ''42'' ''s''), ov_salt = Some ''s'',
        ov_attempts = Some 0, ov_maxAttempts = Some 5, ov_purpose = Some LOGIN, ov_ipAddress = None, ov_deviceFingerprint = None,
        ov_consumedAt = None, ov_expiresAt = 300000\<rparr>], otp_store = (\<lambda>_. None), otp_sms = []\<rparr>\<rparr>"

text \<open>
  A sign-in succeeds only with a code that matches, for a registered user who is neither
  anonymised nor blocked; it opens one new session of that user on that device and moves no
  coins.
\<close>

theorem login_effect:
  assumes redis: "redis_server R live"
    and ok: "verifyLoginOtp J R sha inp jti uuid now st = (Inr (user, tokens), st')"
  shows "otp_matches sha \<lparr>oi_phone = lo_phone inp, oi_otp = lo_otp inp, oi_purpose = LOGIN\<rparr> now (otp_rows (au_otp st)) \<and>
    (\<exists>u row. findByPhone (lo_phone inp) (users (au_db st)) = Some u \<and> \<not> bl_isBlocked (u_blocked u) \<and> u_anonymizedAt u = None \<and>
       aud_id user = u_id u \<and> aud_coinBalance user = u_coinBalance u \<and>
       au_sessions st' = au_sessions st @ [row] \<and> session_active row \<and> ls_userId row = u_id u \<and>
       ls_deviceId row = Some (lo_deviceId inp) \<and> ls_refreshTokenHash row = Some (jo_hash J (at_refresh tokens))) \<and>
    coin_txs (au_db st') = coin_txs (au_db st) \<and>
    (coin_inv (users (au_db st)) (coin_txs (au_db st)) \<longrightarrow> coin_inv (users (au_db st')) (coin_txs (au_db st')))"
proof -
  let ?in = "\<lparr>oi_phone = lo_phone inp, oi_otp = lo_otp inp, oi_purpose = LOGIN\<rparr>"
  obtain r o' where o: "otp_verify (RedisLockoutStore R) sha ?in now (au_otp st) = (r, o')" by (metis surj_pair)
  note v = ok [unfolded verifyLoginOtp_def o Let_def]
  have r: "r = Inr ()" using v by (cases r) auto
  have m: "otp_matches sha ?in now (otp_rows (au_otp st))"
    using lockout_store.verify_answer [OF redis_server.redis_contract [OF redis] TrueI, of sha ?in now "au_otp st"] o r
    by (auto split: if_splits)
  obtain u where u: "findByPhone (lo_phone inp) (users (au_db st)) = Some u"
    using v r by (cases "findByPhone (lo_phone inp) (users (au_db st))") auto
  let ?i = "issueTokensAndSession J
      \<lparr>ii_userId = u_id u, ii_tokenVersion = u_tokenVersion u, ii_deviceId = lo_deviceId inp,
       ii_deviceFingerprint = Some (lo_deviceFingerprint inp), ii_ipAddress = lo_ipAddress inp,
       ii_userAgent = lo_userAgent inp, ii_family = None\<rparr> jti uuid now (au_sessions st)"
  have gates: "u_anonymizedAt u = None" "\<not> bl_isBlocked (u_blocked u)" using v r u by (auto split: if_splits)
  obtain tokens' ss where i: "?i = Inr (tokens', ss)" using v r u gates by (cases ?i) auto
  have out: "user = \<lparr>aud_id = u_id u, aud_phone = u_phone u, aud_coinBalance = u_coinBalance u, aud_displayName = u_displayName u\<rparr>"
    "tokens' = tokens" "au_sessions st' = ss"
    "au_db st' = (au_db st)\<lparr>users := update_first (\<lambda>w. u_id w = u_id u) (touch_login (lo_ipAddress inp) now) (users (au_db st))\<rparr>"
    using v r u gates i by (auto simp: updateOne_def)
  obtain row where "ss = au_sessions st @ [row]" "session_active row" "ls_userId row = u_id u" "ls_deviceId row = Some (lo_deviceId inp)"
      "ls_refreshTokenHash row = Some (jo_hash J (at_refresh tokens))"
    by (rule issue_result [OF i]) (use out(2) in simp)
  then show ?thesis
    using m u gates out touch_login_books by (intro conjI exI [of _ u] exI [of _ row] impI) auto
qed

theorem login_effect_witness:
  "\<exists>row. au_sessions (snd (verifyLoginOtp payload_jose space_redis id sample_login ''j'' ''f'' 1000 sample_otp_sent)) = [row] \<and> session_active row"
proof -
  let ?r = "verifyLoginOtp payload_jose space_redis id sample_login ''j'' ''f'' 1000 sample_otp_sent"
  have "(case fst ?r of Inr _ \<Rightarrow> True | Inl _ \<Rightarrow> False)" by code_simp
  then obtain u t where "fst ?r = Inr (u, t)" by (auto split: sum.splits)
  then have "?r = (Inr (u, t), snd ?r)" by (metis prod.collapse)
  from login_effect [OF space.redis_server_axioms this] show ?thesis by (auto simp: sample_otp_sent_def sample_auth_def)
qed

lemma send_code_answer:
  assumes "redis_server R live"
  shows "fst (send_code R sha inp sd now st) =
    (if redis_locked live (au_redis st) (os_phone inp) now then Inl (ConflictError ''OTP_LOCKED'')
     else case sd_smsError sd of Some e \<Rightarrow> Inl e | None \<Rightarrow> Inr (requested now))"
  using lockout_store.isLocked_answer [OF redis_server.redis_contract [OF assms] TrueI, of now "os_phone inp" "au_redis st"]
  by (simp add: send_code_def otp_send_def au_redis_def split_beta Let_def split: option.splits)

definition sample_send :: send_draws where
  "sample_send = \<lparr>sd_random = 123456, sd_salt = ''s'', sd_id = 4, sd_smsError = None\<rparr>"

text \<open>
  The answers to a request for a code. While the phone is not locked and the SMS is accepted
  the answer never shows whether the phone is registered; for a locked phone it does: a
  sign-in request is refused exactly for a registered, unblocked phone, and a sign-up request
  exactly for an unregistered one.
\<close>

theorem otp_request_answers:
  assumes "redis_server R live"
  shows "fst (requestLoginOtp R sha phone ip sd now st) =
      (if (\<exists>u. findByPhone phone (users (au_db st)) = Some u \<and> \<not> bl_isBlocked (u_blocked u))
       then (if redis_locked live (au_redis st) phone now then Inl (ConflictError ''OTP_LOCKED'')
             else case sd_smsError sd of Some e \<Rightarrow> Inl e | None \<Rightarrow> Inr (requested now))
       else Inr (requested now)) \<and>
    (enforceDeviceNotBlocked fp st = None \<longrightarrow> fst (requestSignupOtp R sha phone fp ip sd now st) =
      (if findByPhone phone (users (au_db st)) = None
       then (if redis_locked live (au_redis st) phone now then Inl (ConflictError ''OTP_LOCKED'')
             else case sd_smsError sd of Some e \<Rightarrow> Inl e | None \<Rightarrow> Inr (requested now))
       else Inr (requested now)))"
  by (auto simp: requestLoginOtp_def requestSignupOtp_def send_code_answer [OF assms] split: option.splits)

theorem otp_request_answers_witness:
  "fst (requestLoginOtp space_redis id ''+911'' ''::1'' sample_send 50
     (set_redis [''otp:lockout:+911'' \<mapsto> (1, Some 100)] (sample_auth [sample_user 1 0 []] []))) = Inl (ConflictError ''OTP_LOCKED'') \<and>
   fst (requestLoginOtp space_redis id ''+911'' ''::1'' sample_send 50
     (set_redis [''otp:lockout:+911'' \<mapsto> (1, Some 100)] (sample_auth [] []))) = Inr (requested 50)"
proof -
  let ?st = "\<lambda>us. set_redis [''otp:lockout:+911'' \<mapsto> (1, Some 100)] (sample_auth us [])"
  have l: "redis_locked space_live (au_redis (?st us)) ''+911'' 50" for us
    by (simp add: redis_locked_def au_redis_def set_redis_def space_live_def lockoutKey_def still_alive_def)
  have p: "findByPhone ''+911'' (users (au_db (?st [sample_user 1 0 []]))) = Some (sample_user 1 0 [])"
  proof -
    have "u_phone (sample_user 1 0 []) = ''+911''" by code_simp
    then show ?thesis by (simp add: findByPhone_def findOne_def set_redis_def sample_auth_def)
  qed
  have q: "findByPhone ''+911'' (users (au_db (?st []))) = None"
    by (simp add: findByPhone_def findOne_def set_redis_def sample_auth_def)
  show ?thesis
    using otp_request_answers [OF space.redis_server_axioms, of id "''+911''" "''::1''" sample_send 50 "?st [sample_user 1 0 []]"]
      otp_request_answers [OF space.redis_server_axioms, of id "''+911''" "''::1''" sample_send 50 "?st []"] l p q
    by (simp add: sample_user_def)
qed

text \<open>
  No account can be opened from a device that is linked to a blocked user, and the attempt
  neither uses up a code nor counts as a wrong guess.
\<close>

theorem blocked_device_cannot_sign_up:
  assumes "findByFingerprint (su_deviceFingerprint inp) (au_devices st) = Some device"
    and "i \<in> set (df_linkedUserIds device)" "findOne (\<lambda>u. u_id u = i) (users (au_db st)) = Some u" "bl_isBlocked (u_blocked u)"
    and "18 \<le> ageInYearsIst dj now (su_dob inp)"
  shows "verifySignupOtp dj J R sha nodeEnv inp dr now st = (Inl (ForbiddenError ''DEVICE_BLOCKED''), st)"
proof -
  have "enforceDeviceNotBlocked (su_deviceFingerprint inp) st = Some (ForbiddenError ''DEVICE_BLOCKED'')"
    using assms(1-4) by (auto simp: enforceDeviceNotBlocked_def list_ex_iff intro: bexI [of _ i])
  then show ?thesis using assms(5) by (simp add: verifySignupOtp_def)
qed

theorem blocked_device_cannot_sign_up_witness:
  "verifySignupOtp gregorian_ist payload_jose space_redis id ''production'' sample_signup sample_signup_draws 946684800000
     ((sample_auth [(sample_user 1 0 [])\<lparr>u_blocked := \<lparr>bl_isBlocked = True, bl_reason = None, bl_at = None, bl_by = None\<rparr>\<rparr>] [])
        \<lparr>au_devices := [\<lparr>df_fingerprint = ''fp'', df_firstSeenUserId = Some 1, df_linkedUserIds = [1], df_suspiciousScore = 0, df_blocked = False\<rparr>]\<rparr>) =
   (Inl (ForbiddenError ''DEVICE_BLOCKED''),
    (sample_auth [(sample_user 1 0 [])\<lparr>u_blocked := \<lparr>bl_isBlocked = True, bl_reason = None, bl_at = None, bl_by = None\<rparr>\<rparr>] [])
        \<lparr>au_devices := [\<lparr>df_fingerprint = ''fp'', df_firstSeenUserId = Some 1, df_linkedUserIds = [1], df_suspiciousScore = 0, df_blocked = False\<rparr>]\<rparr>)"
proof (rule blocked_device_cannot_sign_up [where i = 1
      and device = "\<lparr>df_fingerprint = ''fp'', df_firstSeenUserId = Some 1, df_linkedUserIds = [1], df_suspiciousScore = 0, df_blocked = False\<rparr>"
      and u = "(sample_user 1 0 [])\<lparr>u_blocked := \<lparr>bl_isBlocked = True, bl_reason = None, bl_at = None, bl_by = None\<rparr>\<rparr>"])
  show "18 \<le> ageInYearsIst gregorian_ist 946684800000 (su_dob sample_signup)" by code_simp
qed (simp_all add: sample_signup_def findByFingerprint_def findOne_def sample_auth_def sample_user_def)

lemma crockford_code: "set (generateReferralCode bytes) \<subseteq> set CROCKFORD"
proof -
  have "0 < length CROCKFORD" by (simp add: CROCKFORD_def)
  then have "CROCKFORD ! (b mod length CROCKFORD) \<in> set CROCKFORD" for b by (intro nth_mem mod_less_divisor)
  then show ?thesis by (auto simp: generateReferralCode_def)
qed

text \<open>A referral code has one symbol of the alphabet per byte, and a picked one belongs to nobody yet.\<close>

theorem referral_code_fresh:
  assumes "pickUniqueReferralCode draws us = Inr code" and "\<forall>k. length (draws k) = 8"
  shows "length code = 8 \<and> set code \<subseteq> set CROCKFORD \<and> findByReferralCode code us = None"
proof -
  have "\<exists>k. code = generateReferralCode (draws k)" if "pick_loop draws us ks = Inr code" for ks
    using that by (induction ks) (auto simp: Let_def split: if_splits)
  then obtain k where "code = generateReferralCode (draws k)" using assms(1) unfolding pickUniqueReferralCode_def by blast
  moreover have "findByReferralCode code us = None"
    using assms(1) pick_loop_fresh unfolding pickUniqueReferralCode_def by metis
  ultimately show ?thesis using crockford_code assms(2) by (simp add: generateReferralCode_def)
qed

theorem referral_code_fresh_witness:
  "length ''12345670'' = 8 \<and> findByReferralCode ''12345670'' [] = None"
proof -
  have "pickUniqueReferralCode (sg_referral sample_signup_draws) [] = Inr ''12345670''" by code_simp
  from referral_code_fresh [OF this] show ?thesis by (simp add: sample_signup_draws_def)
qed

end
