(* ===== verification/Routes.thy ===== *)
theory Routes
  imports Admin_Access Auth Samples
begin

text \<open>
  The routes of the API: which gates stand before each handler (the route files of every
  module, src/app.ts, src/config/bullboard.ts), how a request runs through them
  (src/shared/middleware), how the rate limiters count (src/shared/middleware/rateLimit.ts)
  and how a phone number is normalised (src/modules/auth/auth.schemas.ts). express, the
  store of express-rate-limit and the parsers of request bodies are parameters; a handler
  is named, its effect is in the theory of its component.
\<close>

section \<open>Gates and routes\<close>

datatype key_kind = KeyIp | KeyPhone | KeyUser

record rate_limit_spec =
  rl_name :: string
  rl_windowMs :: int
  rl_max :: nat
  rl_keyKind :: key_kind
  rl_skip :: bool

text \<open>\<open>rl_skip\<close> says that the limiter was built with the load-test predicate, the only one in use.\<close>

definition limiter :: "string \<Rightarrow> int \<Rightarrow> nat \<Rightarrow> key_kind \<Rightarrow> rate_limit_spec" where
  "limiter name windowMs m keyKind = \<lparr>rl_name = name, rl_windowMs = windowMs, rl_max = m, rl_keyKind = keyKind, rl_skip = False\<rparr>"

datatype gate =
    IpAllowlist
  | AdminSession
  | CsrfCheck
  | RequireAnyRole "admin_role list"
  | RequireUser
  | RateLimiter rate_limit_spec
  | BodyParser string

record route =
  rt_method :: string
  rt_path :: string
  rt_gates :: "gate list"
  rt_audit :: "(string \<times> string) option"
  rt_handler :: string

definition mk_route :: "string \<Rightarrow> string \<Rightarrow> gate list \<Rightarrow> (string \<times> string) option \<Rightarrow> string \<Rightarrow> route" where
  "mk_route method path gates audit handler =
     \<lparr>rt_method = method, rt_path = path, rt_gates = gates, rt_audit = audit, rt_handler = handler\<rparr>"

definition MIN_MS :: int where "MIN_MS = 60 * 1000"
definition HOUR_MS :: int where "HOUR_MS = 60 * MIN_MS"

section \<open>The routers of the admin surface\<close>

definition createAdminAuthRouter :: "route list" where
  "createAdminAuthRouter =
     (let loginLimiter = RateLimiter (limiter ''admin_login'' MIN_MS 10 KeyIp);
          logoutLimiter = RateLimiter (limiter ''admin_logout'' MIN_MS 30 KeyIp);
          meLimiter = RateLimiter (limiter ''admin_me'' MIN_MS 60 KeyIp)
      in [mk_route ''POST'' ''/login'' [loginLimiter] None ''login'',
          mk_route ''POST'' ''/logout'' [logoutLimiter, AdminSession, CsrfCheck] None ''logout'',
          mk_route ''GET'' ''/me'' [meLimiter, AdminSession] None ''me'',
          mk_route ''POST'' ''/csrf-rotate'' [meLimiter, AdminSession, CsrfCheck] None ''rotateCsrf''])"

definition createAdminAdminUsersRouter :: "route list" where
  "createAdminAdminUsersRouter =
     (let chain = [IpAllowlist, AdminSession, CsrfCheck, RequireAnyRole [SUPER_ADMIN]]
      in [mk_route ''GET'' ''/'' chain None ''list'',
          mk_route ''POST'' ''/'' chain (Some (''ADMIN_USER_CREATE'', ''AdminUser'')) ''create'',
          mk_route ''PATCH'' ''/:id/role'' chain (Some (''ADMIN_USER_ROLE_CHANGE'', ''AdminUser'')) ''changeRole'',
          mk_route ''POST'' ''/:id/toggle-2fa'' chain (Some (''ADMIN_USER_TOGGLE_2FA'', ''AdminUser'')) ''toggle2fa'',
          mk_route ''POST'' ''/:id/force-logout'' chain (Some (''ADMIN_USER_FORCE_LOGOUT'', ''AdminUser'')) ''forceLogout'',
          mk_route ''DELETE'' ''/:id'' chain (Some (''ADMIN_USER_DEACTIVATE'', ''AdminUser'')) ''deactivate''])"

definition createAdminAdsConfigRouter :: "route list" where
  "createAdminAdsConfigRouter =
     (let chain = [IpAllowlist, AdminSession, CsrfCheck, RequireAnyRole [SUPER_ADMIN]]
      in [mk_route ''GET'' ''/'' chain None ''list'',
          mk_route ''PUT'' ''/:placementKey'' chain (Some (''ADS_CONFIG_UPSERT'', ''AdsConfig'')) ''upsert'',
          mk_route ''DELETE'' ''/:placementKey'' chain (Some (''ADS_CONFIG_DELETE'', ''AdsConfig'')) ''delete''])"

definition createAdminAppConfigRouter :: "route list" where
  "createAdminAppConfigRouter =
     (let chain = [IpAllowlist, AdminSession, CsrfCheck, RequireAnyRole [SUPER_ADMIN]]
      in [mk_route ''GET'' ''/'' chain None ''get'',
          mk_route ''PATCH'' ''/'' chain (Some (''APP_CONFIG_UPDATE'', ''AppConfig'')) ''update''])"

definition createAdminAuditLogsRouter :: "route list" where
  "createAdminAuditLogsRouter =
     [mk_route ''GET'' ''/'' [IpAllowlist, AdminSession, CsrfCheck, RequireAnyRole [SUPER_ADMIN]] None ''list'']"

definition createAdminCmsRouter :: "route list" where
  "createAdminCmsRouter =
     (let baseChain = [IpAllowlist, AdminSession, CsrfCheck];
          contentOrSuper = RequireAnyRole [CONTENT_ADMIN, SUPER_ADMIN]
      in [mk_route ''GET'' ''/'' (baseChain @ [contentOrSuper]) None ''list'',
          mk_route ''GET'' ''/:key'' (baseChain @ [contentOrSuper]) None ''getByKey'',
          mk_route ''PUT'' ''/:key'' (baseChain @ [contentOrSuper]) (Some (''CMS_UPSERT'', ''CmsContent'')) ''upsert''])"

definition createAdminCustomRoomsRouter :: "route list" where
  "createAdminCustomRoomsRouter =
     (let baseChain = [IpAllowlist, AdminSession, CsrfCheck];
          contentWrite = RequireAnyRole [CONTENT_ADMIN, SUPER_ADMIN];
          paymentWrite = RequireAnyRole [PAYMENT_ADMIN, SUPER_ADMIN];
          readRoles = RequireAnyRole [CONTENT_ADMIN, SUPPORT_ADMIN, SUPER_ADMIN]
      in [mk_route ''POST'' ''/'' (baseChain @ [contentWrite]) (Some (''CUSTOM_ROOM_CREATE'', ''CustomRoom'')) ''create'',
          mk_route ''POST'' ''/:id/credentials'' (baseChain @ [contentWrite]) (Some (''CUSTOM_ROOM_CREDENTIALS'', ''CustomRoom'')) ''setCredentials'',
          mk_route ''POST'' ''/:id/start'' (baseChain @ [contentWrite]) (Some (''CUSTOM_ROOM_START'', ''CustomRoom'')) ''start'',
          mk_route ''POST'' ''/:id/end'' (baseChain @ [contentWrite]) (Some (''CUSTOM_ROOM_END'', ''CustomRoom'')) ''end'',
          mk_route ''POST'' ''/:id/results'' (baseChain @ [contentWrite]) (Some (''CUSTOM_ROOM_RESULTS'', ''CustomRoom'')) ''results'',
          mk_route ''POST'' ''/:id/winners'' (baseChain @ [paymentWrite]) (Some (''CUSTOM_ROOM_WINNERS'', ''CustomRoom'')) ''assignWinners'',
          mk_route ''GET'' ''/'' (baseChain @ [readRoles]) None ''list''])"

definition createAdminDashboardRouter :: "route list" where
  "createAdminDashboardRouter =
     [mk_route ''GET'' ''/metrics''
        [IpAllowlist, AdminSession, CsrfCheck, RequireAnyRole [SUPPORT_ADMIN, PAYMENT_ADMIN, CONTENT_ADMIN, SUPER_ADMIN]]
        None ''metrics'']"

definition createAdminDlqRouter :: "route list" where
  "createAdminDlqRouter =
     (let baseChain = [IpAllowlist, AdminSession, CsrfCheck];
          superOnly = RequireAnyRole [SUPER_ADMIN]
      in [mk_route ''GET'' ''/'' (baseChain @ [superOnly]) None ''list'',
          mk_route ''POST'' ''/:jobId/requeue'' (baseChain @ [superOnly]) (Some (''DLQ_REQUEUE'', ''DlqAudit'')) ''requeue''])"

definition createAdminDonationsRouter :: "route list" where
  "createAdminDonationsRouter =
     (let baseChain = [IpAllowlist, AdminSession, CsrfCheck]
      in [mk_route ''GET'' ''/'' (baseChain @ [RequireAnyRole [SUPPORT_ADMIN, PAYMENT_ADMIN, SUPER_ADMIN]]) None ''list'',
          mk_route ''POST'' ''/:id/feature'' (baseChain @ [RequireAnyRole [PAYMENT_ADMIN, SUPER_ADMIN]])
            (Some (''DONATION_FEATURE'', ''Donation'')) ''feature''])"

definition createAdminNotificationsRouter :: "route list" where
  "createAdminNotificationsRouter =
     [mk_route ''POST'' ''/broadcast'' [IpAllowlist, AdminSession, CsrfCheck, RequireAnyRole [CONTENT_ADMIN, SUPER_ADMIN]]
        (Some (''NOTIFICATION_BROADCAST'', ''Notification'')) ''broadcast'']"

definition createAdminPostsRouter :: "route list" where
  "createAdminPostsRouter =
     (let chain = [IpAllowlist, AdminSession, CsrfCheck, RequireAnyRole [CONTENT_ADMIN, SUPER_ADMIN]]
      in [mk_route ''POST'' ''/'' chain (Some (''POST_CREATE'', ''Post'')) ''create'',
          mk_route ''PATCH'' ''/:id'' chain (Some (''POST_UPDATE'', ''Post'')) ''update'',
          mk_route ''DELETE'' ''/:id'' chain (Some (''POST_DELETE'', ''Post'')) ''delete'',
          mk_route ''GET'' ''/'' chain None ''list''])"

definition createAdminPrizePoolsRouter :: "route list" where
  "createAdminPrizePoolsRouter =
     (let baseChain = [IpAllowlist, AdminSession, CsrfCheck];
          paymentOrSuper = RequireAnyRole [PAYMENT_ADMIN, SUPER_ADMIN];
          superOnly = RequireAnyRole [SUPER_ADMIN]
      in [mk_route ''GET'' ''/'' (baseChain @ [paymentOrSuper]) None ''list'',
          mk_route ''POST'' ''/run'' (baseChain @ [superOnly]) (Some (''PRIZE_POOL_RUN'', ''PrizePool'')) ''run'',
          mk_route ''GET'' ''/winners'' (baseChain @ [paymentOrSuper]) None ''listWinners'',
          mk_route ''POST'' ''/winners/:id/mark-payout'' (baseChain @ [paymentOrSuper])
            (Some (''PRIZE_POOL_WINNER_MARK_PAYOUT'', ''PrizePoolWinner'')) ''markPayout''])"

definition createAdminRedeemCodesRouter :: "route list" where
  "createAdminRedeemCodesRouter =
     (let baseChain = [IpAllowlist, AdminSession, CsrfCheck];
          contentOrSuper = RequireAnyRole [CONTENT_ADMIN, SUPER_ADMIN];
          superOnly = RequireAnyRole [SUPER_ADMIN]
      in [mk_route ''POST'' ''/upload'' [IpAllowlist, AdminSession, BodyParser ''csvUploadHandler'', CsrfCheck, contentOrSuper]
            (Some (''REDEEM_CODE_UPLOAD'', ''RedeemCodeBatch'')) ''upload'',
          mk_route ''POST'' ''/publish'' (baseChain @ [contentOrSuper]) (Some (''REDEEM_CODE_PUBLISH'', ''RedeemCodeBatch'')) ''publish'',
          mk_route ''POST'' ''/:id/void'' (baseChain @ [superOnly]) (Some (''REDEEM_CODE_VOID'', ''RedeemCode'')) ''void'',
          mk_route ''GET'' ''/'' (baseChain @ [contentOrSuper]) None ''list'',
          mk_route ''GET'' ''/export'' (baseChain @ [contentOrSuper]) None ''export''])"

definition createAdminRefundsRouter :: "route list" where
  "createAdminRefundsRouter =
     (let chain = [IpAllowlist, AdminSession, CsrfCheck, RequireAnyRole [PAYMENT_ADMIN, SUPER_ADMIN]]
      in [mk_route ''POST'' ''/'' chain (Some (''REFUND_INITIATE'', ''SubscriptionPayment'')) ''initiate''])"

definition createAdminSponsorsRouter :: "route list" where
  "createAdminSponsorsRouter =
     (let chain = [IpAllowlist, AdminSession, CsrfCheck, RequireAnyRole [CONTENT_ADMIN, SUPER_ADMIN]]
      in [mk_route ''GET'' ''/'' chain None ''list'',
          mk_route ''POST'' ''/'' chain (Some (''SPONSOR_CREATE'', ''BrandSponsor'')) ''create'',
          mk_route ''PATCH'' ''/:id'' chain (Some (''SPONSOR_UPDATE'', ''BrandSponsor'')) ''update'',
          mk_route ''DELETE'' ''/:id'' chain (Some (''SPONSOR_DELETE'', ''BrandSponsor'')) ''delete''])"

definition createAdminSubscriptionsRouter :: "route list" where
  "createAdminSubscriptionsRouter =
     (let baseChain = [IpAllowlist, AdminSession, CsrfCheck]
      in [mk_route ''GET'' ''/'' (baseChain @ [RequireAnyRole [SUPPORT_ADMIN, PAYMENT_ADMIN, SUPER_ADMIN]]) None ''list'',
          mk_route ''GET'' ''/revenue'' (baseChain @ [RequireAnyRole [PAYMENT_ADMIN, SUPER_ADMIN]]) None ''revenue''])"

definition createAdminUsersRouter :: "route list" where
  "createAdminUsersRouter =
     (let baseChain = [IpAllowlist, AdminSession, CsrfCheck];
          readRoles = RequireAnyRole [SUPPORT_ADMIN, PAYMENT_ADMIN, SUPER_ADMIN];
          supportOrSuper = RequireAnyRole [SUPPORT_ADMIN, SUPER_ADMIN];
          paymentOrSuper = RequireAnyRole [PAYMENT_ADMIN, SUPER_ADMIN];
          superOnly = RequireAnyRole [SUPER_ADMIN]
      in [mk_route ''GET'' ''/'' (baseChain @ [readRoles]) None ''list'',
          mk_route ''POST'' ''/:id/block'' (baseChain @ [supportOrSuper]) (Some (''USER_BLOCK'', ''User'')) ''block'',
          mk_route ''POST'' ''/:id/unblock'' (baseChain @ [supportOrSuper]) (Some (''USER_UNBLOCK'', ''User'')) ''unblock'',
          mk_route ''POST'' ''/:id/coins'' (baseChain @ [paymentOrSuper]) (Some (''USER_COINS_ADJUST'', ''User'')) ''adjustCoins'',
          mk_route ''POST'' ''/:id/force-logout'' (baseChain @ [superOnly]) (Some (''USER_FORCE_LOGOUT'', ''User'')) ''forceLogout'',
          mk_route ''POST'' ''/:id/erasure-hold'' (baseChain @ [superOnly]) (Some (''USER_ERASURE_HOLD'', ''User'')) ''applyErasureHold'',
          mk_route ''DELETE'' ''/:id/erasure-hold'' (baseChain @ [superOnly])
            (Some (''USER_ERASURE_HOLD_CLEAR'', ''User'')) ''clearErasureHold''])"

section \<open>The routers of the users\<close>

definition otpRequestLimiter :: rate_limit_spec where
  "otpRequestLimiter = \<lparr>rl_name = ''otp_request'', rl_windowMs = 10 * MIN_MS, rl_max = 3, rl_keyKind = KeyPhone, rl_skip = True\<rparr>"

definition otpVerifyLimiter :: rate_limit_spec where
  "otpVerifyLimiter = \<lparr>rl_name = ''otp_verify'', rl_windowMs = 15 * MIN_MS, rl_max = 10, rl_keyKind = KeyIp, rl_skip = True\<rparr>"

definition createAuthRouter :: "route list" where
  "createAuthRouter =
     (let refreshLimiter = RateLimiter (limiter ''auth_refresh'' MIN_MS 30 KeyIp);
          logoutLimiter = RateLimiter (limiter ''auth_logout'' MIN_MS 10 KeyUser);
          logoutAllLimiter = RateLimiter (limiter ''auth_logout_all'' HOUR_MS 5 KeyUser)
      in [mk_route ''POST'' ''/signup/request-otp'' [RateLimiter otpRequestLimiter, BodyParser ''RequestSignupOtpBodySchema''] None ''requestSignupOtp'',
          mk_route ''POST'' ''/signup/verify'' [RateLimiter otpVerifyLimiter, BodyParser ''VerifySignupOtpBodySchema''] None ''verifySignupOtp'',
          mk_route ''POST'' ''/login/request-otp'' [RateLimiter otpRequestLimiter, BodyParser ''RequestLoginOtpBodySchema''] None ''requestLoginOtp'',
          mk_route ''POST'' ''/login/verify'' [RateLimiter otpVerifyLimiter, BodyParser ''VerifyLoginOtpBodySchema''] None ''verifyLoginOtp'',
          mk_route ''POST'' ''/refresh'' [refreshLimiter, BodyParser ''RefreshBodySchema''] None ''refresh'',
          mk_route ''POST'' ''/logout'' [RequireUser, logoutLimiter, BodyParser ''LogoutBodySchema''] None ''logout'',
          mk_route ''POST'' ''/logout-all'' [RequireUser, logoutAllLimiter] None ''logoutAll''])"

definition createUsersRouter :: "route list" where
  "createUsersRouter =
     (let profileLimiter = RateLimiter (limiter ''me_profile'' MIN_MS 60 KeyUser);
          coinsLimiter = RateLimiter (limiter ''me_coins'' MIN_MS 60 KeyUser);
          erasureLimiter = RateLimiter (limiter ''me_erasure'' HOUR_MS 5 KeyUser)
      in [mk_route ''GET'' ''/me'' [RequireUser, profileLimiter] None ''getMe'',
          mk_route ''GET'' ''/me/coins'' [RequireUser, coinsLimiter] None ''listCoins'',
          mk_route ''POST'' ''/me/account/erasure'' [RequireUser, erasureLimiter] None ''request'',
          mk_route ''DELETE'' ''/me/account/erasure'' [RequireUser, erasureLimiter] None ''cancel'',
          mk_route ''GET'' ''/me/account/erasure'' [RequireUser, erasureLimiter] None ''status''])"

definition createVotesRouter :: "route list" where
  "createVotesRouter =
     (let castLimiter = RateLimiter (limiter ''votes_cast'' MIN_MS 10 KeyUser);
          todayLimiter = RateLimiter (limiter ''votes_today'' MIN_MS 60 KeyUser)
      in [mk_route ''GET'' ''/votes/today'' [RequireUser, todayLimiter] None ''today'',
          mk_route ''POST'' ''/votes'' [RequireUser, castLimiter] None ''cast''])"

definition createPostsRouter :: "route list" where
  "createPostsRouter =
     (let listLimiter = RateLimiter (limiter ''posts_list'' MIN_MS 60 KeyUser);
          detailLimiter = RateLimiter (limiter ''posts_detail'' MIN_MS 120 KeyUser);
          completeLimiter = RateLimiter (limiter ''posts_complete'' MIN_MS 60 KeyUser)
      in [mk_route ''GET'' ''/posts'' [RequireUser, listLimiter] None ''listByDate'',
          mk_route ''GET'' ''/posts/:id'' [RequireUser, detailLimiter] None ''getById'',
          mk_route ''POST'' ''/posts/:id/complete'' [RequireUser, completeLimiter] None ''complete''])"

definition createRedeemCodesRouter :: "route list" where
  "createRedeemCodesRouter =
     (let listLimiter = RateLimiter (limiter ''redeem_list_for_post'' MIN_MS 60 KeyUser);
          claimLimiter = RateLimiter (limiter ''redeem_claim'' MIN_MS 30 KeyUser);
          markClaimedLimiter = RateLimiter (limiter ''redeem_mark_claimed'' MIN_MS 30 KeyUser)
      in [mk_route ''GET'' ''/posts/:id/redeem-codes'' [RequireUser, listLimiter] None ''listForPost'',
          mk_route ''POST'' ''/redeem-codes/:id/copy'' [RequireUser, claimLimiter] None ''claim'',
          mk_route ''POST'' ''/redeem-codes/:id/mark-claimed'' [RequireUser, markClaimedLimiter] None ''markClaimed''])"

definition createDonationsRouter :: "route list" where
  "createDonationsRouter =
     (let createOrderLimiter = RateLimiter (limiter ''donations_create_order'' MIN_MS 5 KeyIp);
          verifyLimiter = RateLimiter (limiter ''donations_verify'' MIN_MS 10 KeyIp);
          topDonorLimiter = RateLimiter (limiter ''donations_top_donor'' MIN_MS 120 KeyIp);
          topDonorsLimiter = RateLimiter (limiter ''donations_top_donors'' MIN_MS 60 KeyIp)
      in [mk_route ''POST'' ''/donations/create-order'' [createOrderLimiter] None ''createOrder'',
          mk_route ''POST'' ''/donations/verify'' [verifyLimiter] None ''verify'',
          mk_route ''GET'' ''/top-donor'' [topDonorLimiter] None ''getTopDonor'',
          mk_route ''GET'' ''/top-donors'' [topDonorsLimiter] None ''listTopDonors''])"

definition createSubscriptionsRouter :: "route list" where
  "createSubscriptionsRouter =
     (let plansLimiter = RateLimiter (limiter ''sub_plans'' MIN_MS 60 KeyUser);
          createLimiter = RateLimiter (limiter ''sub_create'' HOUR_MS 3 KeyUser);
          verifyLimiter = RateLimiter (limiter ''sub_verify'' MIN_MS 10 KeyUser);
          cancelLimiter = RateLimiter (limiter ''sub_cancel'' HOUR_MS 10 KeyUser);
          readLimiter = RateLimiter (limiter ''sub_read'' MIN_MS 60 KeyUser)
      in [mk_route ''GET'' ''/subscriptions/plans'' [RequireUser, plansLimiter] None ''listPlans'',
          mk_route ''POST'' ''/subscriptions/create'' [RequireUser, createLimiter] None ''create'',
          mk_route ''POST'' ''/subscriptions/verify'' [RequireUser, verifyLimiter] None ''verify'',
          mk_route ''POST'' ''/subscriptions/:id/cancel'' [RequireUser, cancelLimiter] None ''cancel'',
          mk_route ''GET'' ''/subscriptions/mine'' [RequireUser, readLimiter] None ''listMine'',
          mk_route ''GET'' ''/subscriptions/:id/invoices'' [RequireUser, readLimiter] None ''listInvoices''])"

definition createCustomRoomsRouter :: "route list" where
  "createCustomRoomsRouter =
     (let listLimiter = RateLimiter (limiter ''custom_rooms_list'' MIN_MS 60 KeyUser);
          registerLimiter = RateLimiter (limiter ''custom_rooms_register'' MIN_MS 10 KeyUser);
          resultLimiter = RateLimiter (limiter ''custom_rooms_result'' MIN_MS 60 KeyUser)
      in [mk_route ''GET'' ''/custom-rooms'' [RequireUser, listLimiter] None ''list'',
          mk_route ''POST'' ''/custom-rooms/:id/register'' [RequireUser, registerLimiter] None ''register'',
          mk_route ''GET'' ''/custom-rooms/:id/result'' [RequireUser, resultLimiter] None ''getResult''])"

definition createPrizePoolsRouter :: "route list" where
  "createPrizePoolsRouter =
     [mk_route ''GET'' ''/prize-pools/today'' [RequireUser, RateLimiter (limiter ''prize_pools_today'' MIN_MS 60 KeyUser)] None ''today'']"

definition createWebhooksRouter :: "route list" where
  "createWebhooksRouter = [mk_route ''POST'' ''/webhooks/razorpay'' [BodyParser ''rawBody''] None ''razorpay'']"

definition createMetricsRouter :: "route list" where
  "createMetricsRouter = [mk_route ''GET'' ''/'' [IpAllowlist] None ''metrics'']"

section \<open>The application\<close>

definition mount :: "string \<Rightarrow> route list \<Rightarrow> route list" where
  "mount prefix rs = map (\<lambda>r. r\<lparr>rt_path := prefix @ rt_path r\<rparr>) rs"

text \<open>
  In the order of the source. The routers of the users are split from those of the admins;
  the queue dashboard is not a route but a mount of its own, for every method and every path
  below its base, and is given by its guards (\<open>requireRole\<close> of one role is \<open>requireAnyRole\<close> of it).
\<close>

definition user_routes :: "route list" where
  "user_routes =
     [mk_route ''GET'' ''/health'' [] None ''health''] @
     mount ''/metrics'' createMetricsRouter @
     mount ''/api/v1'' createWebhooksRouter @
     mount ''/api/v1/auth'' createAuthRouter @
     mount ''/api/v1'' createUsersRouter @
     mount ''/api/v1'' createVotesRouter @
     mount ''/api/v1'' createPostsRouter @
     mount ''/api/v1'' createRedeemCodesRouter @
     mount ''/api/v1'' createDonationsRouter @
     mount ''/api/v1'' createSubscriptionsRouter @
     mount ''/api/v1'' createCustomRoomsRouter @
     mount ''/api/v1'' createPrizePoolsRouter"

definition admin_routes :: "route list" where
  "admin_routes =
     mount ''/api/v1/admin/posts'' createAdminPostsRouter @
     mount ''/api/v1/admin/redeem-codes'' createAdminRedeemCodesRouter @
     mount ''/api/v1/admin/donations'' createAdminDonationsRouter @
     mount ''/api/v1/admin/subscriptions'' createAdminSubscriptionsRouter @
     mount ''/api/v1/admin/custom-rooms'' createAdminCustomRoomsRouter @
     mount ''/api/v1/admin/refunds'' createAdminRefundsRouter @
     mount ''/api/v1/admin/users'' createAdminUsersRouter @
     mount ''/api/v1/admin/prize-pools'' createAdminPrizePoolsRouter @
     mount ''/api/v1/admin/dashboard'' createAdminDashboardRouter @
     mount ''/api/v1/admin/dlq'' createAdminDlqRouter @
     mount ''/api/v1/admin/cms'' createAdminCmsRouter @
     mount ''/api/v1/admin/ads-config'' createAdminAdsConfigRouter @
     mount ''/api/v1/admin/sponsors'' createAdminSponsorsRouter @
     mount ''/api/v1/admin/notifications'' createAdminNotificationsRouter @
     mount ''/api/v1/admin/audit-logs'' createAdminAuditLogsRouter @
     mount ''/api/v1/admin/admins'' createAdminAdminUsersRouter @
     mount ''/api/v1/admin/app-config'' createAdminAppConfigRouter"

definition app_routes :: "route list" where
  "app_routes = user_routes @ mount ''/api/v1/admin/auth'' createAdminAuthRouter @ admin_routes"

definition bullboard_guards :: "gate list" where
  "bullboard_guards = [IpAllowlist, AdminSession, RequireAnyRole [SUPER_ADMIN]]"

text \<open>
  How a request finds its route. A path is compared segment by segment, letters of either
  case alike; a segment that begins with a colon is a parameter. A HEAD request is served by
  the route of a GET.
\<close>

definition segments :: "string \<Rightarrow> string list" where
  "segments path = filter (\<lambda>s. s \<noteq> []) (split_on (CHR ''/'') path)"

definition segment_fits :: "string \<Rightarrow> string \<Rightarrow> bool" where
  "segment_fits pat seg \<longleftrightarrow> (take 1 pat = '':'') \<or> js_lower seg = pat"

definition path_fits :: "string \<Rightarrow> string list \<Rightarrow> bool" where
  "path_fits pat segs \<longleftrightarrow> list_all2 segment_fits (segments pat) segs"

definition method_fits :: "string \<Rightarrow> string \<Rightarrow> bool" where
  "method_fits m method \<longleftrightarrow> m = method \<or> m = ''GET'' \<and> method = ''HEAD''"

definition route_fits :: "string \<Rightarrow> string list \<Rightarrow> route \<Rightarrow> bool" where
  "route_fits method segs r \<longleftrightarrow> method_fits (rt_method r) method \<and> path_fits (rt_path r) segs"

definition find_route :: "route list \<Rightarrow> string \<Rightarrow> string list \<Rightarrow> route option" where
  "find_route rs method segs = findOne (route_fits method segs) rs"

section \<open>Phone numbers\<close>

definition js_digit :: "char \<Rightarrow> bool" where
  "js_digit c \<longleftrightarrow> (let n = (of_char c :: nat) in 48 \<le> n \<and> n \<le> 57)"

definition IndianPhoneSchema :: "string \<Rightarrow> string option" where
  "IndianPhoneSchema input =
     (let raw = latin1_trim input;
          digits = filter js_digit raw;
          last10 = (if length digits = 10 then Some digits
                    else if length digits = 12 \<and> take 2 digits = ''91'' then Some (drop 2 digits)
                    else None)
      in case last10 of
           None \<Rightarrow> None
         | Some l \<Rightarrow> if hd l \<notin> {CHR ''6'', CHR ''7'', CHR ''8'', CHR ''9''} then None else Some (''+91'' @ l))"

section \<open>Running the gates\<close>

text \<open>
  What the gates read of a request beyond the fields of an admin request: the bearer token,
  the phone of the body when it is a string, and whether the body asks to bypass the code.
\<close>

record 'tok http_request = admin_request +
  hr_bearer :: "'tok option"
  hr_phone :: "string option"
  hr_devBypassOtp :: bool

record ('a, 'r, 's) server =
  sv_configs :: "app_config list"
  sv_admin :: 'a
  sv_auth :: "'r auth_state"
  sv_rate :: 's

record gate_context =
  cx_admin :: "admin_session option"
  cx_user :: "(access_claims \<times> sub_entry list) option"

text \<open>
  What the gates need from outside: the Redis server of the admin sessions and of the users,
  the token library, the store of express-rate-limit (which counts the requests of a key and
  returns the number), the key it makes of an IP address, the verdict of the body parsers
  and the environment.
\<close>

record ('tok, 'a, 'r, 's) middleware =
  mw_admin :: "'a admin_redis"
  mw_redis :: "'r redis"
  mw_jose :: "'tok jose"
  mw_increment :: "string \<Rightarrow> int \<Rightarrow> date \<Rightarrow> 's \<Rightarrow> nat \<times> 's"
  mw_ipKey :: "string \<Rightarrow> string"
  mw_body :: "string \<Rightarrow> 'tok http_request \<Rightarrow> app_error option"
  mw_nodeEnv :: string

definition skipForLoadTest :: "string \<Rightarrow> ('tok, 'm) http_request_scheme \<Rightarrow> bool" where
  "skipForLoadTest nodeEnv req =
     (if nodeEnv \<noteq> ''development'' then False
      else if \<not> hr_devBypassOtp req then False
      else case hr_phone req of None \<Rightarrow> False | Some phone \<Rightarrow> LOAD_TEST_PHONE_PATTERN phone)"

definition keyGenerator :: "(string \<Rightarrow> string) \<Rightarrow> key_kind \<Rightarrow> ('tok, 'm) http_request_scheme \<Rightarrow> gate_context \<Rightarrow> string" where
  "keyGenerator ipKey keyKind req cx =
     (let fallbackIpKey = ipKey (or_default (rq_ip req) [])
      in case keyKind of
           KeyIp \<Rightarrow> fallbackIpKey
         | KeyPhone \<Rightarrow> (case hr_phone req of Some phone \<Rightarrow> phone | None \<Rightarrow> fallbackIpKey)
         | KeyUser \<Rightarrow> (case cx_user cx of Some (claims, _) \<Rightarrow> js_String (int (ac_sub claims)) | None \<Rightarrow> fallbackIpKey))"

definition rate_key :: "rate_limit_spec \<Rightarrow> string \<Rightarrow> string" where
  "rate_key spec key = ''rl:'' @ rl_name spec @ '':'' @ key"

definition makeRateLimiter ::
  "('tok, 'a, 'r, 's) middleware \<Rightarrow> rate_limit_spec \<Rightarrow> 'tok http_request \<Rightarrow> gate_context \<Rightarrow> date \<Rightarrow> 's \<Rightarrow> (app_error + unit) \<times> 's" where
  "makeRateLimiter mw spec req cx now s =
     (if rl_skip spec \<and> skipForLoadTest (mw_nodeEnv mw) req then (Inr (), s)
      else
        let (totalHits, s') = mw_increment mw (rate_key spec (keyGenerator (mw_ipKey mw) (rl_keyKind spec) req cx)) (rl_windowMs spec) now s
        in if rl_max spec < totalHits then (Inl RateLimitedError, s') else (Inr (), s'))"

text \<open>The body of a request for a sign-in code is its phone and nothing else, so its parser is the schema of the phone.\<close>

definition parse_body :: "('tok, 'a, 'r, 's) middleware \<Rightarrow> string \<Rightarrow> 'tok http_request \<Rightarrow> app_error option" where
  "parse_body mw parser req =
     (if parser = ''RequestLoginOtpBodySchema''
      then (case hr_phone req of
              None \<Rightarrow> Some ValidationError
            | Some phone \<Rightarrow> if hr_devBypassOtp req \<or> IndianPhoneSchema phone = None then Some ValidationError else None)
      else mw_body mw parser req)"

fun run_gate ::
  "('tok, 'a, 'r, 's) middleware \<Rightarrow> 'tok http_request \<Rightarrow> date \<Rightarrow> gate \<Rightarrow> gate_context \<Rightarrow> ('a, 'r, 's) server
   \<Rightarrow> (app_error + gate_context) \<times> ('a, 'r, 's) server" where
  "run_gate mw req now IpAllowlist cx sv =
     ((case ipAllowlist (sv_configs sv) (admin_request.truncate req) of Inl e \<Rightarrow> Inl e | Inr _ \<Rightarrow> Inr cx), sv)"
| "run_gate mw req now AdminSession cx sv =
     (case adminSession (mw_admin mw) (admin_request.truncate req) now (sv_admin sv) of
        (Inl e, r) \<Rightarrow> (Inl e, sv\<lparr>sv_admin := r\<rparr>)
      | (Inr session, r) \<Rightarrow> (Inr (cx\<lparr>cx_admin := Some session\<rparr>), sv\<lparr>sv_admin := r\<rparr>))"
| "run_gate mw req now CsrfCheck cx sv =
     ((case csrfCheck (admin_request.truncate req) (cx_admin cx) of Inl e \<Rightarrow> Inl e | Inr _ \<Rightarrow> Inr cx), sv)"
| "run_gate mw req now (RequireAnyRole roles) cx sv =
     ((case requireAnyRole roles (cx_admin cx) of Inl e \<Rightarrow> Inl e | Inr _ \<Rightarrow> Inr cx), sv)"
| "run_gate mw req now RequireUser cx sv =
     ((case requireUser (mw_jose mw) (mw_redis mw) now (hr_bearer req) (sv_auth sv) of
         Inl e \<Rightarrow> Inl e | Inr claims \<Rightarrow> Inr (cx\<lparr>cx_user := Some claims\<rparr>)), sv)"
| "run_gate mw req now (RateLimiter spec) cx sv =
     (case makeRateLimiter mw spec req cx now (sv_rate sv) of
        (Inl e, s) \<Rightarrow> (Inl e, sv\<lparr>sv_rate := s\<rparr>)
      | (Inr _, s) \<Rightarrow> (Inr cx, sv\<lparr>sv_rate := s\<rparr>))"
| "run_gate mw req now (BodyParser p) cx sv =
     ((case parse_body mw p req of Some e \<Rightarrow> Inl e | None \<Rightarrow> Inr cx), sv)"

primrec run_gates ::
  "('tok, 'a, 'r, 's) middleware \<Rightarrow> 'tok http_request \<Rightarrow> date \<Rightarrow> gate list \<Rightarrow> gate_context \<Rightarrow> ('a, 'r, 's) server
   \<Rightarrow> (app_error + gate_context) \<times> ('a, 'r, 's) server" where
  "run_gates mw req now [] cx sv = (Inr cx, sv)"
| "run_gates mw req now (g # gs) cx sv =
     (case run_gate mw req now g cx sv of
        (Inl e, sv') \<Rightarrow> (Inl e, sv')
      | (Inr cx', sv') \<Rightarrow> run_gates mw req now gs cx' sv')"

definition empty_context :: gate_context where
  "empty_context = \<lparr>cx_admin = None, cx_user = None\<rparr>"

text \<open>What the application answers before a handler runs: a route that no request fits is a 404 of express.\<close>

definition admit ::
  "('tok, 'a, 'r, 's) middleware \<Rightarrow> 'tok http_request \<Rightarrow> string list \<Rightarrow> date \<Rightarrow> ('a, 'r, 's) server
   \<Rightarrow> (app_error + (route \<times> gate_context)) option \<times> ('a, 'r, 's) server" where
  "admit mw req segs now sv =
     (case find_route app_routes (rq_method req) segs of
        None \<Rightarrow> (None, sv)
      | Some r \<Rightarrow>
          (case run_gates mw req now (rt_gates r) empty_context sv of
             (Inl e, sv') \<Rightarrow> (Some (Inl e), sv')
           | (Inr cx, sv') \<Rightarrow> (Some (Inr (r, cx)), sv')))"

text \<open>
  A request for a sign-in code from end to end: the gates of its route and then the controller,
  which hands the parsed phone and the address of the context to the service.
\<close>

definition login_otp_path :: "string list" where
  "login_otp_path = [''api'', ''v1'', ''auth'', ''login'', ''request-otp'']"

definition serve_login_otp ::
  "('tok, 'a, 'r, 's) middleware \<Rightarrow> (string \<Rightarrow> string) \<Rightarrow> 'tok http_request \<Rightarrow> send_draws \<Rightarrow> date \<Rightarrow> ('a, 'r, 's) server
   \<Rightarrow> (app_error + request_result) \<times> ('a, 'r, 's) server" where
  "serve_login_otp mw sha req sd now sv =
     (case admit mw req login_otp_path now sv of
        (None, sv1) \<Rightarrow> (Inl NotFoundError, sv1)
      | (Some (Inl e), sv1) \<Rightarrow> (Inl e, sv1)
      | (Some (Inr _), sv1) \<Rightarrow>
          (case IndianPhoneSchema (or_default (hr_phone req) []) of
             None \<Rightarrow> (Inl ValidationError, sv1)
           | Some phone \<Rightarrow>
               (let (res, a) = requestLoginOtp (mw_redis mw) sha phone (or_default (rq_ip req) ''unknown'') sd now (sv_auth sv1)
                in (res, sv1\<lparr>sv_auth := a\<rparr>))))"

fun serve_all ::
  "('tok, 'a, 'r, 's) middleware \<Rightarrow> (string \<Rightarrow> string) \<Rightarrow> ('tok http_request \<times> send_draws) list \<Rightarrow> date \<Rightarrow> ('a, 'r, 's) server
   \<Rightarrow> (app_error + request_result) list \<times> ('a, 'r, 's) server" where
  "serve_all mw sha [] now sv = ([], sv)"
| "serve_all mw sha ((req, sd) # rest) now sv =
     (let (res, sv1) = serve_login_otp mw sha req sd now sv;
          (ress, sv2) = serve_all mw sha rest now sv1
      in (res # ress, sv2))"

text \<open>
  What express-rate-limit promises of its store: counting a request of a key returns how many
  of that key it has counted in the window, and counts nothing for any other key.
\<close>

locale rate_store =
  fixes increment :: "string \<Rightarrow> int \<Rightarrow> date \<Rightarrow> 's \<Rightarrow> nat \<times> 's"
    and hits :: "string \<Rightarrow> date \<Rightarrow> 's \<Rightarrow> nat"
  assumes counts: "fst (increment k w t s) = Suc (hits k t s)"
    and own: "0 < w \<Longrightarrow> hits k t (snd (increment k w t s)) = Suc (hits k t s)"
    and others: "k' \<noteq> k \<Longrightarrow> hits k' t' (snd (increment k w t s)) = hits k' t' s"

text \<open>A store with one fixed window for each key, as the Redis script of rate-limit-redis keeps it.\<close>

type_synonym window_store = "string \<Rightarrow> (nat \<times> date) option"

definition window_hits :: "string \<Rightarrow> date \<Rightarrow> window_store \<Rightarrow> nat" where
  "window_hits k t s = (case s k of None \<Rightarrow> 0 | Some (n, e) \<Rightarrow> if t < e then n else 0)"

definition window_increment :: "string \<Rightarrow> int \<Rightarrow> date \<Rightarrow> window_store \<Rightarrow> nat \<times> window_store" where
  "window_increment k w t s =
     (case s k of
        Some (n, e) \<Rightarrow> if t < e then (Suc n, s(k \<mapsto> (Suc n, e))) else (1, s(k \<mapsto> (1, t + w)))
      | None \<Rightarrow> (1, s(k \<mapsto> (1, t + w))))"

interpretation window: rate_store window_increment window_hits
  by unfold_locales (auto simp: window_increment_def window_hits_def split: option.splits)

section \<open>Finding the route\<close>

fun segs_overlap :: "string list \<Rightarrow> string list \<Rightarrow> bool" where
  "segs_overlap [] [] = True"
| "segs_overlap (p # ps) (q # qs) \<longleftrightarrow> (if take 1 p = '':'' \<or> take 1 q = '':'' \<or> p = q then segs_overlap ps qs else False)"
| "segs_overlap _ _ = False"

definition route_key :: "route \<Rightarrow> nat \<times> string \<times> string list" where
  "route_key r = (let s = segments (rt_path r) in (length s, rt_method r, rev s))"

definition clash :: "nat \<times> string \<times> string list \<Rightarrow> nat \<times> string \<times> string list \<Rightarrow> bool" where
  "clash p q \<longleftrightarrow>
     (if fst p = fst q then (if fst (snd p) = fst (snd q) then segs_overlap (snd (snd p)) (snd (snd q)) else False) else False)"

primrec apart :: "(nat \<times> string \<times> string list) list \<Rightarrow> bool" where
  "apart [] = True"
| "apart (p # ps) \<longleftrightarrow> list_all (\<lambda>q. \<not> clash p q) ps \<and> apart ps"

definition may_lead_under :: "string list \<Rightarrow> string \<Rightarrow> bool" where
  "may_lead_under ps pat \<longleftrightarrow> list_all2 (\<lambda>p q. take 1 q = '':'' \<or> q = p) ps (take (length ps) (segments pat))"

definition under :: "string list \<Rightarrow> string list \<Rightarrow> bool" where
  "under ps segs \<longleftrightarrow> take (length ps) (map js_lower segs) = ps"

text \<open>The paths of the admin surface without its sign-in.\<close>

definition admin_path :: "string list \<Rightarrow> bool" where
  "admin_path segs \<longleftrightarrow> under [''api'', ''v1'', ''admin''] segs \<and> \<not> under [''api'', ''v1'', ''admin'', ''auth''] segs"

lemma overlap_if_both_fit:
  "list_all2 segment_fits ps segs \<Longrightarrow> list_all2 segment_fits qs segs \<Longrightarrow> segs_overlap ps qs"
  by (induction ps qs arbitrary: segs rule: segs_overlap.induct) (auto simp: list_all2_Cons1 segment_fits_def)

lemma clash_if_both_fit:
  assumes "path_fits (rt_path r) segs" "path_fits (rt_path r') segs" "rt_method r = rt_method r'"
  shows "clash (route_key r) (route_key r')"
proof -
  have f: "list_all2 segment_fits (rev (segments (rt_path r))) (rev segs)" "list_all2 segment_fits (rev (segments (rt_path r'))) (rev segs)"
    using assms(1,2) by (simp_all add: path_fits_def list_all2_rev)
  then have "length (segments (rt_path r)) = length (segments (rt_path r'))" by (auto dest!: list_all2_lengthD)
  then show ?thesis using overlap_if_both_fit [OF f] assms(3) by (simp add: clash_def route_key_def Let_def)
qed

lemma apart_distinct:
  assumes "apart (map route_key rs)" "r \<in> set rs" "r' \<in> set rs" "path_fits (rt_path r) segs" "path_fits (rt_path r') segs"
    and "rt_method r = rt_method r'"
  shows "r = r'"
  using assms(1-3)
proof (induction rs)
  case (Cons x xs)
  have c: "clash (route_key r) (route_key r')" "clash (route_key r') (route_key r)"
    using clash_if_both_fit [of r segs r'] clash_if_both_fit [of r' segs r] assms(4-6) by simp_all
  from Cons show ?case using c by (auto simp: list_all_iff)
qed simp

lemma fits_under:
  assumes "path_fits pat segs" "under ps segs" shows "may_lead_under ps pat"
proof -
  have "list_all2 segment_fits (take (length ps) (segments pat)) (take (length ps) segs)"
    using assms(1) by (simp add: path_fits_def list_all2_takeI)
  moreover have "ps = map js_lower (take (length ps) segs)"
    using assms(2) by (simp add: under_def take_map)
  moreover have "list_all2 segment_fits qs ss \<Longrightarrow> list_all2 (\<lambda>p q. take 1 q = '':'' \<or> q = p) (map js_lower ss) qs" for qs ss
    by (induction rule: list_all2_induct) (auto simp: segment_fits_def)
  ultimately show ?thesis unfolding may_lead_under_def by metis
qed

lemma user_routes_apart: "apart (map route_key user_routes)" by code_simp

lemma admin_routes_apart: "apart (map route_key admin_routes)" by code_simp

lemma sign_in_routes_apart: "apart (map route_key (mount ''/api/v1/admin/auth'' createAdminAuthRouter))" by code_simp

lemma user_routes_outside_admin: "\<forall>r \<in> set user_routes. \<not> may_lead_under [''api'', ''v1'', ''admin''] (rt_path r)"
  unfolding list_all_iff [symmetric] by code_simp

definition literal_prefix :: "string list \<Rightarrow> route \<Rightarrow> bool" where
  "literal_prefix ps r \<longleftrightarrow> take (length ps) (segments (rt_path r)) = ps"

lemma literal_prefix_under:
  assumes "literal_prefix ps r" "path_fits (rt_path r) segs" "\<forall>p \<in> set ps. take 1 p \<noteq> '':''"
  shows "under ps segs"
proof -
  have "list_all2 segment_fits (take (length ps) (segments (rt_path r))) (take (length ps) segs)"
    using assms(2) by (simp add: path_fits_def list_all2_takeI)
  moreover have "list_all2 segment_fits qs ss \<Longrightarrow> \<forall>p \<in> set qs. take 1 p \<noteq> '':'' \<Longrightarrow> map js_lower ss = qs" for qs ss
    by (induction rule: list_all2_induct) (auto simp: segment_fits_def)
  ultimately show ?thesis using assms(1,3) by (simp add: literal_prefix_def under_def take_map)
qed

lemma sign_in_routes_literal:
  "\<forall>r \<in> set (mount ''/api/v1/admin/auth'' createAdminAuthRouter). literal_prefix [''api'', ''v1'', ''admin'', ''auth''] r"
  unfolding list_all_iff [symmetric] by code_simp

lemma admin_routes_literal:
  "\<forall>r \<in> set admin_routes. literal_prefix [''api'', ''v1'', ''admin''] r \<and> segments (rt_path r) ! 3 \<noteq> ''auth'' \<and>
     take 1 (segments (rt_path r) ! 3) \<noteq> '':'' \<and> 3 < length (segments (rt_path r))"
  unfolding list_all_iff [symmetric] by code_simp

lemma no_head_route: "\<forall>r \<in> set app_routes. rt_method r \<noteq> ''HEAD''"
  unfolding list_all_iff [symmetric] by code_simp

lemma found_route:
  assumes "find_route app_routes m segs = Some r"
  shows "r \<in> set app_routes" "route_fits m segs r" "path_fits (rt_path r) segs"
  using findOne_SomeD [OF assms [unfolded find_route_def]] by (auto simp: route_fits_def)

lemma app_routes_cases:
  assumes "r \<in> set app_routes"
  obtains "r \<in> set user_routes" | "r \<in> set (mount ''/api/v1/admin/auth'' createAdminAuthRouter)" | "r \<in> set admin_routes"
  using assms by (auto simp: app_routes_def)

lemma admin_route_iff:
  assumes "r \<in> set app_routes" "path_fits (rt_path r) segs"
  shows "admin_path segs \<longleftrightarrow> r \<in> set admin_routes"
proof -
  have user: "\<not> under [''api'', ''v1'', ''admin''] segs" if "r \<in> set user_routes"
    using fits_under [OF assms(2)] user_routes_outside_admin that by auto
  have sign_in: "under [''api'', ''v1'', ''admin'', ''auth''] segs" if "r \<in> set (mount ''/api/v1/admin/auth'' createAdminAuthRouter)"
    using literal_prefix_under [OF _ assms(2)] sign_in_routes_literal that by simp
  have adm: "admin_path segs" if r: "r \<in> set admin_routes"
  proof -
    have l: "literal_prefix [''api'', ''v1'', ''admin''] r" "segments (rt_path r) ! 3 \<noteq> ''auth''"
      "take 1 (segments (rt_path r) ! 3) \<noteq> '':''" "3 < length (segments (rt_path r))"
      using admin_routes_literal r by auto
    have "segment_fits (segments (rt_path r) ! 3) (segs ! 3)"
      using assms(2) l(4) by (auto simp: path_fits_def list_all2_conv_all_nth)
    then have ne: "js_lower (segs ! 3) \<noteq> ''auth''" using l(2,3) by (auto simp: segment_fits_def)
    have "under [''api'', ''v1'', ''admin''] segs" using literal_prefix_under [OF l(1) assms(2)] by simp
    moreover have "\<not> under [''api'', ''v1'', ''admin'', ''auth''] segs"
    proof
      assume u: "under [''api'', ''v1'', ''admin'', ''auth''] segs"
      then have "take (Suc 3) (map js_lower segs) ! 3 = ''auth''" unfolding under_def by (simp add: numeral_3_eq_3)
      moreover have "3 < length segs" using l(4) assms(2) by (auto simp: path_fits_def dest: list_all2_lengthD)
      ultimately show False using ne by simp
    qed
    ultimately show ?thesis by (simp add: admin_path_def)
  qed
  show ?thesis using assms(1) by (rule app_routes_cases) (auto simp: admin_path_def dest: user sign_in adm)
qed

lemma under_shorter: "under (ps @ qs) segs \<Longrightarrow> under ps segs"
  unfolding under_def by (drule arg_cong [where f = "take (length ps)"]) simp

lemma route_place:
  assumes "r \<in> set app_routes" "path_fits (rt_path r) segs"
  shows "r \<in> set (if admin_path segs then admin_routes
     else if under [''api'', ''v1'', ''admin'', ''auth''] segs then mount ''/api/v1/admin/auth'' createAdminAuthRouter else user_routes)"
  using assms(1)
proof (rule app_routes_cases)
  assume u: "r \<in> set user_routes"
  then have "\<not> under [''api'', ''v1'', ''admin''] segs" using fits_under [OF assms(2)] user_routes_outside_admin by blast
  then show ?thesis using u under_shorter [of "[''api'', ''v1'', ''admin'']" "[''auth'']" segs] by (auto simp: admin_path_def)
next
  assume u: "r \<in> set (mount ''/api/v1/admin/auth'' createAdminAuthRouter)"
  then have "under [''api'', ''v1'', ''admin'', ''auth''] segs"
    using literal_prefix_under [OF _ assms(2)] sign_in_routes_literal by simp
  then show ?thesis using u by (simp add: admin_path_def)
next
  assume "r \<in> set admin_routes"
  then show ?thesis using admin_route_iff [OF assms] by simp
qed

lemma same_route:
  assumes "r \<in> set app_routes" "r' \<in> set app_routes" "route_fits m segs r" "route_fits m segs r'"
  shows "r = r'"
proof -
  have p: "path_fits (rt_path r) segs" "path_fits (rt_path r') segs" using assms(3,4) by (simp_all add: route_fits_def)
  have me: "rt_method r = rt_method r'"
    using assms no_head_route by (auto simp: route_fits_def method_fits_def)
  show ?thesis
    using route_place [OF assms(1) p(1)] route_place [OF assms(2) p(2)]
      apart_distinct [OF admin_routes_apart _ _ p me] apart_distinct [OF sign_in_routes_apart _ _ p me]
      apart_distinct [OF user_routes_apart _ _ p me]
    by (simp split: if_splits)
qed

text \<open>
  No route hides another: a request is served by a route exactly when that route fits it, in
  whatever order the routers are mounted.
\<close>

theorem dispatch_unambiguous:
  "find_route app_routes m segs = Some r \<longleftrightarrow> r \<in> set app_routes \<and> route_fits m segs r"
proof
  assume "find_route app_routes m segs = Some r"
  then show "r \<in> set app_routes \<and> route_fits m segs r" using found_route by blast
next
  assume r: "r \<in> set app_routes \<and> route_fits m segs r"
  then obtain r' where f: "find_route app_routes m segs = Some r'"
    using findOne_None_iff [of "route_fits m segs" app_routes] by (cases "find_route app_routes m segs") (auto simp: find_route_def)
  then show "find_route app_routes m segs = Some r" using same_route [of r r' m segs] found_route [OF f] r by simp
qed

section \<open>The admin surface\<close>

definition route_roles :: "route \<Rightarrow> admin_role list" where
  "route_roles r = concat (map (\<lambda>g. case g of RequireAnyRole roles \<Rightarrow> roles | _ \<Rightarrow> []) (rt_gates r))"

lemma admin_gates:
  "\<forall>r \<in> set admin_routes.
     rt_gates r = [IpAllowlist, AdminSession] @ (if rt_handler r = ''upload'' then [BodyParser ''csvUploadHandler''] else []) @
       [CsrfCheck, RequireAnyRole (route_roles r)]"
  unfolding list_all_iff [symmetric] by code_simp

lemma admin_writes:
  "\<forall>r \<in> set admin_routes. rt_method r \<noteq> ''GET'' \<longrightarrow> (\<exists>a. rt_audit r = Some a)"
proof -
  have "list_all (\<lambda>r. rt_method r = ''GET'' \<or> rt_audit r \<noteq> None) admin_routes" by code_simp
  then show ?thesis by (auto simp: list_all_iff)
qed

lemma admit_cases:
  assumes "fst (admit mw req segs now sv) = Some (Inr (r, cx))"
  shows "find_route app_routes (rq_method req) segs = Some r"
    and "fst (run_gates mw req now (rt_gates r) empty_context sv) = Inr cx"
  using assms by (auto simp: admit_def split: option.splits prod.splits sum.splits)

lemma admitted_admin_route:
  assumes "fst (admit mw req segs now sv) = Some (Inr (r, cx))" "admin_path segs"
  shows "r \<in> set admin_routes" "rq_method req \<notin> set SAFE_METHODS \<Longrightarrow> rt_method r \<noteq> ''GET''"
proof -
  note f = found_route [OF admit_cases(1) [OF assms(1)]]
  show "r \<in> set admin_routes" using admin_route_iff [OF f(1,3)] assms(2) by simp
  show "rq_method req \<notin> set SAFE_METHODS \<Longrightarrow> rt_method r \<noteq> ''GET''"
    using f(2) by (auto simp: route_fits_def method_fits_def SAFE_METHODS_def)
qed

lemma chain_of_gates:
  "run_gates mw req now [IpAllowlist, AdminSession, CsrfCheck, RequireAnyRole roles] cx sv =
     (case admin_chain (mw_admin mw) (sv_configs sv) roles (admin_request.truncate req) now (sv_admin sv) of
        (Inl e, a) \<Rightarrow> (Inl e, sv\<lparr>sv_admin := a\<rparr>)
      | (Inr session, a) \<Rightarrow> (Inr (cx\<lparr>cx_admin := Some session\<rparr>), sv\<lparr>sv_admin := a\<rparr>))"
  by (auto simp: admin_chain_def split: sum.splits prod.splits)

lemma upload_gates:
  assumes "fst (run_gates mw req now [IpAllowlist, AdminSession, BodyParser p, CsrfCheck, RequireAnyRole roles] cx sv) = Inr cx'"
  shows "fst (run_gates mw req now [IpAllowlist, AdminSession, CsrfCheck, RequireAnyRole roles] cx sv) = Inr cx'"
  using assms by (auto split: sum.splits prod.splits option.splits)

definition sample_middleware :: "(jwt_payload, admin_space, key_space, window_store) middleware" where
  "sample_middleware = \<lparr>mw_admin = admin_space_redis, mw_redis = space_redis, mw_jose = payload_jose,
     mw_increment = window_increment, mw_ipKey = id, mw_body = \<lambda>_ _. None, mw_nodeEnv = ''production''\<rparr>"

definition sample_http :: "jwt_payload http_request" where
  "sample_http = \<lparr>rq_method = ''POST'', rq_ip = Some ''::1'', rq_cookie = Some (cookie_header ''ab'' ''cd''), rq_csrfHeader = Some ''cd'',
     hr_bearer = Some (signAccessToken payload_jose 0 1 ''j'' 0), hr_phone = None, hr_devBypassOtp = False\<rparr>"

definition sample_server :: "(admin_space, key_space, window_store) server" where
  "sample_server = \<lparr>sv_configs = [], sv_admin = am_redis sample_signed_admin,
     sv_auth = sample_auth [sample_user 1 0 [], (sample_user 2 0 [])\<lparr>u_phone := ''+919876543210''\<rparr>] [], sv_rate = (\<lambda>_. None)\<rparr>"

definition sample_coins_path :: "string list" where
  "sample_coins_path = [''api'', ''v1'', ''admin'', ''users'', ''1'', ''coins'']"

definition sample_coins_route :: route where
  "sample_coins_route = mk_route ''POST'' ''/api/v1/admin/users/:id/coins''
     [IpAllowlist, AdminSession, CsrfCheck, RequireAnyRole [PAYMENT_ADMIN, SUPER_ADMIN]] (Some (''USER_COINS_ADJUST'', ''User'')) ''adjustCoins''"

lemma sample_coins_found: "find_route app_routes ''POST'' sample_coins_path = Some sample_coins_route" by code_simp

lemma sample_admitted:
  "fst (admit sample_middleware sample_http sample_coins_path 60 sample_server) =
     Some (Inr (sample_coins_route, empty_context\<lparr>cx_admin := Some (sample_admin_session\<lparr>as_lastSeenAt := 60\<rparr>)\<rparr>))"
proof -
  have t: "admin_request.truncate sample_http = sample_admin_request" by code_simp
  have "fst (admin_chain admin_space_redis [] [PAYMENT_ADMIN, SUPER_ADMIN] sample_admin_request 60 (am_redis sample_signed_admin)) =
      Inr (sample_admin_session\<lparr>as_lastSeenAt := 60\<rparr>)" by code_simp
  then obtain a where g: "admin_chain admin_space_redis [] [PAYMENT_ADMIN, SUPER_ADMIN] sample_admin_request 60 (am_redis sample_signed_admin) =
      (Inr (sample_admin_session\<lparr>as_lastSeenAt := 60\<rparr>), a)" by (cases "admin_chain admin_space_redis [] [PAYMENT_ADMIN, SUPER_ADMIN] sample_admin_request 60 (am_redis sample_signed_admin)") simp
  have m: "rq_method sample_http = ''POST''" "sv_configs sample_server = []" "sv_admin sample_server = am_redis sample_signed_admin"
    "mw_admin sample_middleware = admin_space_redis" "rt_gates sample_coins_route = [IpAllowlist, AdminSession, CsrfCheck, RequireAnyRole [PAYMENT_ADMIN, SUPER_ADMIN]]"
    by (simp_all add: sample_http_def sample_server_def sample_middleware_def sample_coins_route_def mk_route_def)
  show ?thesis unfolding admit_def m sample_coins_found option.case chain_of_gates t g by simp
qed

lemma sample_admin_path: "admin_path sample_coins_path" "rq_method sample_http \<notin> set SAFE_METHODS" by code_simp+

text \<open>
  Complete mediation of the admin surface: below \<open>/api/v1/admin\<close>, the sign-in apart, a request
  reaches a handler only through the address list, a live session, the token check and a role
  of the route, and the handler sees that session; but for the upload, which reads its file
  first, the chain alone decides, with its error.
\<close>

theorem admin_routes_guarded:
  assumes "admin_path segs" "find_route app_routes (rq_method req) segs = Some r"
  shows "(rt_handler r \<noteq> ''upload'' \<longrightarrow>
      admit mw req segs now sv =
        (case admin_chain (mw_admin mw) (sv_configs sv) (route_roles r) (admin_request.truncate req) now (sv_admin sv) of
           (Inl e, a) \<Rightarrow> (Some (Inl e), sv\<lparr>sv_admin := a\<rparr>)
         | (Inr session, a) \<Rightarrow> (Some (Inr (r, empty_context\<lparr>cx_admin := Some session\<rparr>)), sv\<lparr>sv_admin := a\<rparr>))) \<and>
    (\<forall>r' cx. fst (admit mw req segs now sv) = Some (Inr (r', cx)) \<longrightarrow>
      (\<exists>session. fst (admin_chain (mw_admin mw) (sv_configs sv) (route_roles r) (admin_request.truncate req) now (sv_admin sv)) = Inr session \<and>
         cx_admin cx = Some session \<and> as_role session \<in> set (route_roles r)))"
proof -
  note f = found_route [OF assms(2)]
  have r: "r \<in> set admin_routes" using admin_route_iff [OF f(1,3)] assms(1) by simp
  note g = bspec [OF admin_gates r]
  have a: "admit mw req segs now sv =
      (case run_gates mw req now (rt_gates r) empty_context sv of (Inl e, sv') \<Rightarrow> (Some (Inl e), sv') | (Inr cx, sv') \<Rightarrow> (Some (Inr (r, cx)), sv'))"
    by (simp add: admit_def assms(2))
  have 1: "rt_gates r = [IpAllowlist, AdminSession, CsrfCheck, RequireAnyRole (route_roles r)]" if "rt_handler r \<noteq> ''upload''"
    using g that by simp
  have 2: "\<exists>session. fst (admin_chain (mw_admin mw) (sv_configs sv) (route_roles r) (admin_request.truncate req) now (sv_admin sv)) = Inr session \<and>
      cx_admin cx = Some session \<and> as_role session \<in> set (route_roles r)"
    if "fst (admit mw req segs now sv) = Some (Inr (r', cx))" for r' cx
  proof -
    have "fst (run_gates mw req now (rt_gates r) empty_context sv) = Inr cx"
      using that by (auto simp: a split: sum.splits prod.splits)
    then have "fst (run_gates mw req now [IpAllowlist, AdminSession, CsrfCheck, RequireAnyRole (route_roles r)] empty_context sv) = Inr cx"
      using g by (cases "rt_handler r = ''upload''") (auto dest: upload_gates simp del: run_gates.simps)
    then show ?thesis unfolding chain_of_gates
      by (auto simp: admin_chain_def requireAnyRole_def split: sum.splits prod.splits if_splits)
  qed
  show ?thesis
    unfolding a using 1 2 [unfolded a] by (auto simp: chain_of_gates simp del: run_gates.simps split: sum.splits prod.splits)
qed

theorem admin_routes_guarded_witness:
  "\<exists>session. fst (admin_chain admin_space_redis [] [PAYMENT_ADMIN, SUPER_ADMIN] sample_admin_request 60 (am_redis sample_signed_admin)) = Inr session \<and>
     as_role session \<in> {PAYMENT_ADMIN, SUPER_ADMIN}"
proof -
  have m: "rq_method sample_http = ''POST''" "sv_configs sample_server = []" "sv_admin sample_server = am_redis sample_signed_admin"
    "mw_admin sample_middleware = admin_space_redis" "route_roles sample_coins_route = [PAYMENT_ADMIN, SUPER_ADMIN]"
    by (simp_all add: sample_http_def sample_server_def sample_middleware_def sample_coins_route_def mk_route_def route_roles_def)
  have t: "admin_request.truncate sample_http = sample_admin_request" by code_simp
  show ?thesis
    using admin_routes_guarded [of sample_coins_path sample_http sample_coins_route sample_middleware 60 sample_server]
      sample_admin_path(1) sample_coins_found sample_admitted unfolding m t by auto
qed

text \<open>
  Every request that changes something on the admin surface goes through the audit log, under
  an action no other route has.
\<close>

lemma audit_actions_distinct: "distinct (map fst (List.map_filter rt_audit app_routes))" by code_simp

lemma map_filter_distinct:
  "distinct (map fst (List.map_filter f xs)) \<Longrightarrow> x \<in> set xs \<Longrightarrow> y \<in> set xs \<Longrightarrow> f x = Some (a, b) \<Longrightarrow> f y = Some (a, c) \<Longrightarrow> x = y"
proof (induction xs)
  case (Cons z zs)
  have m: "w \<in> set zs \<Longrightarrow> f w = Some (a, d) \<Longrightarrow> a \<in> fst ` set (List.map_filter f zs)" for w d
    by (force simp: List.map_filter_def image_iff)
  from Cons show ?case by (auto simp: map_filter_simps m split: option.splits)
qed simp

theorem admin_writes_audited:
  assumes "fst (admit mw req segs now sv) = Some (Inr (r, cx))" "admin_path segs" "rq_method req \<notin> set SAFE_METHODS"
  shows "\<exists>action kind. rt_audit r = Some (action, kind) \<and>
    (\<forall>r' \<in> set app_routes. \<forall>kind'. rt_audit r' = Some (action, kind') \<longrightarrow> r' = r)"
proof -
  note r = admitted_admin_route [OF assms(1,2)]
  obtain action kind where a: "rt_audit r = Some (action, kind)"
    using admin_writes r(1) r(2) [OF assms(3)] by fastforce
  have "r \<in> set app_routes" using r(1) by (simp add: app_routes_def)
  then show ?thesis using a map_filter_distinct [OF audit_actions_distinct] by blast
qed

theorem admin_writes_audited_witness:
  "\<exists>action kind. rt_audit sample_coins_route = Some (action, kind) \<and> action \<noteq> ''USER_BLOCK''"
  using admin_writes_audited [OF sample_admitted sample_admin_path] by (auto simp: sample_coins_route_def mk_route_def)

text \<open>
  Which admin may change what, besides a super admin: support blocks and unblocks users;
  payments adjusts coins, features donations, refunds, pays out and assigns the winners of a
  room; content runs posts, codes, rooms, legal texts, sponsors and broadcasts. Nobody but a
  super admin can void a code, force a logout, hold an erasure, run a pool, requeue a job or
  touch admins, placements and the configuration; the winners of a room are assigned by others
  than those who enter its results.
\<close>

definition writable :: "admin_role \<Rightarrow> string list" where
  "writable role = map rt_path (filter (\<lambda>r. rt_method r \<noteq> ''GET'' \<and> role \<in> set (route_roles r)) admin_routes)"

lemma writable_support: "writable SUPPORT_ADMIN = [''/api/v1/admin/users/:id/block'', ''/api/v1/admin/users/:id/unblock'']"
  by code_simp

lemma writable_payment: "writable PAYMENT_ADMIN =
   [''/api/v1/admin/donations/:id/feature'', ''/api/v1/admin/custom-rooms/:id/winners'', ''/api/v1/admin/refunds/'',
    ''/api/v1/admin/users/:id/coins'', ''/api/v1/admin/prize-pools/winners/:id/mark-payout'']"
  by code_simp

lemma writable_content: "set (writable CONTENT_ADMIN) =
   {''/api/v1/admin/posts/'', ''/api/v1/admin/posts/:id'', ''/api/v1/admin/redeem-codes/upload'', ''/api/v1/admin/redeem-codes/publish'',
    ''/api/v1/admin/custom-rooms/'', ''/api/v1/admin/custom-rooms/:id/credentials'', ''/api/v1/admin/custom-rooms/:id/start'',
    ''/api/v1/admin/custom-rooms/:id/end'', ''/api/v1/admin/custom-rooms/:id/results'', ''/api/v1/admin/cms/:key'',
    ''/api/v1/admin/sponsors/'', ''/api/v1/admin/sponsors/:id'', ''/api/v1/admin/notifications/broadcast''}"
  by code_simp

theorem admin_least_privilege:
  assumes "fst (admit mw req segs now sv) = Some (Inr (r, cx))" "admin_path segs" "rq_method req \<notin> set SAFE_METHODS"
    and "cx_admin cx = Some session"
  shows "rt_path r \<in> set (case as_role session of
     SUPER_ADMIN \<Rightarrow> map rt_path admin_routes
   | SUPPORT_ADMIN \<Rightarrow> [''/api/v1/admin/users/:id/block'', ''/api/v1/admin/users/:id/unblock'']
   | PAYMENT_ADMIN \<Rightarrow>
       [''/api/v1/admin/donations/:id/feature'', ''/api/v1/admin/custom-rooms/:id/winners'', ''/api/v1/admin/refunds/'',
        ''/api/v1/admin/users/:id/coins'', ''/api/v1/admin/prize-pools/winners/:id/mark-payout'']
   | CONTENT_ADMIN \<Rightarrow>
       [''/api/v1/admin/posts/'', ''/api/v1/admin/posts/:id'', ''/api/v1/admin/redeem-codes/upload'', ''/api/v1/admin/redeem-codes/publish'',
        ''/api/v1/admin/custom-rooms/'', ''/api/v1/admin/custom-rooms/:id/credentials'', ''/api/v1/admin/custom-rooms/:id/start'',
        ''/api/v1/admin/custom-rooms/:id/end'', ''/api/v1/admin/custom-rooms/:id/results'', ''/api/v1/admin/cms/:key'',
        ''/api/v1/admin/sponsors/'', ''/api/v1/admin/sponsors/:id'', ''/api/v1/admin/notifications/broadcast''])"
proof -
  note r = admitted_admin_route [OF assms(1,2)]
  have "as_role session \<in> set (route_roles r)"
    using bspec [OF admin_gates r(1)] admit_cases(2) [OF assms(1)] assms(4)
    by (auto simp: requireAnyRole_def split: if_splits sum.splits prod.splits option.splits)
  then have w: "rt_path r \<in> set (writable (as_role session))" using r(1) r(2) [OF assms(3)] by (auto simp: writable_def)
  show ?thesis
  proof (cases "as_role session")
    case CONTENT_ADMIN
    then show ?thesis using w writable_content by simp
  qed (use w r(1) writable_support writable_payment in auto)
qed

theorem admin_least_privilege_witness:
  "rt_path sample_coins_route \<in> {''/api/v1/admin/donations/:id/feature'', ''/api/v1/admin/custom-rooms/:id/winners'', ''/api/v1/admin/refunds/'',
     ''/api/v1/admin/users/:id/coins'', ''/api/v1/admin/prize-pools/winners/:id/mark-payout''}"
proof -
  have r: "as_role (sample_admin_session\<lparr>as_lastSeenAt := 60\<rparr>) = PAYMENT_ADMIN" by code_simp
  show ?thesis
    using admin_least_privilege [OF sample_admitted sample_admin_path, of "sample_admin_session\<lparr>as_lastSeenAt := 60\<rparr>"] unfolding r by simp
qed

section \<open>The surface of the users\<close>

definition public_paths :: "string list" where
  "public_paths =
     [''/health'', ''/metrics/'', ''/api/v1/webhooks/razorpay'', ''/api/v1/auth/signup/request-otp'', ''/api/v1/auth/signup/verify'',
      ''/api/v1/auth/login/request-otp'', ''/api/v1/auth/login/verify'', ''/api/v1/auth/refresh'',
      ''/api/v1/donations/create-order'', ''/api/v1/donations/verify'', ''/api/v1/top-donor'', ''/api/v1/top-donors'']"

definition user_gates :: "gate list \<Rightarrow> bool" where
  "user_gates gs \<longleftrightarrow> (case gs of RequireUser # RateLimiter spec # _ \<Rightarrow> rl_keyKind spec = KeyUser \<and> \<not> rl_skip spec | _ \<Rightarrow> False)"

lemma user_routes_gated: "\<forall>r \<in> set user_routes. rt_path r \<in> set public_paths \<or> user_gates (rt_gates r)"
  unfolding list_all_iff [symmetric] by code_simp

definition single_user_gate :: "gate list \<Rightarrow> bool" where
  "single_user_gate gs \<longleftrightarrow> RequireUser \<notin> set (tl gs)"

lemma single_requireUser: "\<forall>r \<in> set app_routes. single_user_gate (rt_gates r)"
  unfolding list_all_iff [symmetric] by code_simp

lemma gate_keeps_user: "fst (run_gate mw req now g c v) = Inr c' \<Longrightarrow> g \<noteq> RequireUser \<Longrightarrow> cx_user c' = cx_user c"
  by (cases g) (auto split: sum.splits prod.splits option.splits)

lemma gates_keep_user: "fst (run_gates mw req now gs c v) = Inr c' \<Longrightarrow> RequireUser \<notin> set gs \<Longrightarrow> cx_user c' = cx_user c"
proof (induction gs arbitrary: c v)
  case (Cons g gs)
  then obtain c1 v1 where g: "run_gate mw req now g c v = (Inr c1, v1)" "fst (run_gates mw req now gs c1 v1) = Inr c'"
    by (auto split: sum.splits prod.splits)
  then show ?case using Cons.IH [OF g(2)] Cons.prems(2) gate_keeps_user [of mw req now g c v c1] by auto
qed simp

definition sample_votes_route :: route where
  "sample_votes_route = mk_route ''POST'' ''/api/v1/votes'' [RequireUser, RateLimiter (limiter ''votes_cast'' MIN_MS 10 KeyUser)] None ''cast''"

text \<open>C17: 
  Outside the admin surface a request reaches a handler, but for the twelve public paths, only
  with a valid access token, and only after it was counted against the limit of its route under
  the id of that user, so that no user spends the budget of another.
\<close>

theorem user_routes_guarded:
  assumes "fst (admit mw req segs now sv) = Some (Inr (r, cx))" "\<not> under [''api'', ''v1'', ''admin''] segs"
    and "rt_path r \<notin> set public_paths"
  shows "\<exists>claims entries spec n s.
    requireUser (mw_jose mw) (mw_redis mw) now (hr_bearer req) (sv_auth sv) = Inr (claims, entries) \<and>
    cx_user cx = Some (claims, entries) \<and> RateLimiter spec \<in> set (rt_gates r) \<and>
    mw_increment mw (rate_key spec (js_String (int (ac_sub claims)))) (rl_windowMs spec) now (sv_rate sv) = (n, s) \<and> n \<le> rl_max spec"
proof -
  note f = found_route [OF admit_cases(1) [OF assms(1)]]
  have "r \<in> set user_routes"
    using route_place [OF f(1,3)] assms(2) under_shorter [of "[''api'', ''v1'', ''admin'']" "[''auth'']" segs]
    by (auto simp: admin_path_def split: if_splits)
  then have "user_gates (rt_gates r)" using user_routes_gated assms(3) by blast
  then obtain spec rest where g: "rt_gates r = RequireUser # RateLimiter spec # rest" "rl_keyKind spec = KeyUser" "\<not> rl_skip spec"
    by (auto simp: user_gates_def split: list.splits gate.splits)
  have rest: "RequireUser \<notin> set rest" using f(1) g(1) single_requireUser by (auto simp: single_user_gate_def)
  show ?thesis
    using admit_cases(2) [OF assms(1)] g(2,3)
    by (auto simp: g(1) makeRateLimiter_def keyGenerator_def Let_def dest!: gates_keep_user [OF _ rest]
      intro!: exI [of _ spec] split: sum.splits prod.splits if_splits)
qed

theorem user_routes_guarded_witness:
  "\<exists>n s. window_increment ''rl:votes_cast:1'' MIN_MS 1000 (\<lambda>_. None) = (n, s) \<and> n \<le> 10"
proof -
  have f: "find_route app_routes ''POST'' [''api'', ''v1'', ''votes''] = Some sample_votes_route" by code_simp
  have u: "requireUser payload_jose space_redis 1000 (Some (signAccessToken payload_jose 0 1 ''j'' 0)) (sv_auth sample_server) =
      Inr (\<lparr>ac_sub = 1, ac_jti = ''j'', ac_tokenVersion = 0, ac_iat = 0\<rparr>, [])" by code_simp
  have "fst (admit sample_middleware sample_http [''api'', ''v1'', ''votes''] 1000 sample_server) =
      Some (Inr (sample_votes_route, empty_context\<lparr>cx_user := Some (\<lparr>ac_sub = 1, ac_jti = ''j'', ac_tokenVersion = 0, ac_iat = 0\<rparr>, [])\<rparr>))"
    using u by (simp add: admit_def f sample_http_def sample_middleware_def sample_votes_route_def mk_route_def makeRateLimiter_def limiter_def
      window_increment_def sample_server_def)
  moreover have "\<not> under [''api'', ''v1'', ''admin''] [''api'', ''v1'', ''votes'']" "rt_path sample_votes_route \<notin> set public_paths" by code_simp+
  ultimately obtain claims entries spec n s where
      "requireUser payload_jose space_redis 1000 (Some (signAccessToken payload_jose 0 1 ''j'' 0)) (sv_auth sample_server) = Inr (claims, entries)"
      "RateLimiter spec \<in> set (rt_gates sample_votes_route)"
      "window_increment (rate_key spec (js_String (int (ac_sub claims)))) (rl_windowMs spec) 1000 (\<lambda>_. None) = (n, s)" "n \<le> rl_max spec"
    using user_routes_guarded [of sample_middleware sample_http "[''api'', ''v1'', ''votes'']" 1000 sample_server sample_votes_route]
    by (auto simp: sample_middleware_def sample_server_def sample_http_def)
  moreover have "js_String (int 1) = ''1''" by code_simp
  ultimately show ?thesis using u by (auto simp: sample_votes_route_def mk_route_def limiter_def rate_key_def)
qed

section \<open>The limit on codes\<close>

definition login_otp_route :: route where
  "login_otp_route = mk_route ''POST'' ''/api/v1/auth/login/request-otp''
     [RateLimiter otpRequestLimiter, BodyParser ''RequestLoginOtpBodySchema''] None ''requestLoginOtp''"

lemma find_login_otp: "find_route app_routes ''POST'' login_otp_path = Some login_otp_route"
  by code_simp

text \<open>A request with the given phone and an ordinary body, and the same phone with some dashes before it.\<close>

definition code_request :: "'tok http_request \<Rightarrow> string \<Rightarrow> 'tok http_request" where
  "code_request req raw = req\<lparr>rq_method := ''POST'', hr_phone := Some raw, hr_devBypassOtp := False\<rparr>"

definition dashed :: "string \<Rightarrow> nat \<Rightarrow> string" where
  "dashed digits n = replicate n (CHR ''-'') @ digits"

definition mobile :: "string \<Rightarrow> bool" where
  "mobile digits \<longleftrightarrow> length digits = 10 \<and> list_all js_digit digits \<and> hd digits \<in> {CHR ''6'', CHR ''7'', CHR ''8'', CHR ''9''}"

lemma digit_not_space: "js_digit c \<Longrightarrow> \<not> latin1_space c"
  by (simp add: js_digit_def latin1_space_def Let_def)

lemma dashed_same_phone:
  assumes "mobile digits" shows "IndianPhoneSchema (dashed digits n) = Some (''+91'' @ digits)"
proof -
  have d: "\<not> js_digit (CHR ''-'')" "\<not> latin1_space (CHR ''-'')" by code_simp+
  have "latin1_trim (dashed digits n) = dashed digits n"
    using assms d(2) by (intro trim_plain) (auto simp: dashed_def mobile_def list_all_iff digit_not_space)
  moreover have "filter js_digit (dashed digits n) = digits"
    using assms d(1) by (auto simp: dashed_def mobile_def list_all_iff)
  ultimately show ?thesis using assms by (auto simp: IndianPhoneSchema_def mobile_def Let_def)
qed

lemma serve_code_request:
  assumes "rate_store (mw_increment mw) hits" "IndianPhoneSchema raw = Some phone"
  shows "serve_login_otp mw sha (code_request req raw) sd now sv =
    (let key = rate_key otpRequestLimiter raw;
         s' = snd (mw_increment mw key (10 * MIN_MS) now (sv_rate sv))
     in if 3 \<le> hits key now (sv_rate sv) then (Inl RateLimitedError, sv\<lparr>sv_rate := s'\<rparr>)
        else let (res, a) = requestLoginOtp (mw_redis mw) sha phone (or_default (rq_ip req) ''unknown'') sd now (sv_auth sv)
             in (res, sv\<lparr>sv_rate := s', sv_auth := a\<rparr>))"
proof -
  let ?q = "code_request req raw"
  have skip: "\<not> skipForLoadTest env ?q" for env by (simp add: skipForLoadTest_def code_request_def)
  have key: "keyGenerator ik KeyPhone ?q cx = raw" for ik cx by (simp add: keyGenerator_def code_request_def)
  have body: "parse_body mw ''RequestLoginOtpBodySchema'' ?q = None" by (simp add: parse_body_def code_request_def assms(2))
  have m: "rq_method ?q = ''POST''" "hr_phone ?q = Some raw" "rq_ip ?q = rq_ip req" by (simp_all add: code_request_def)
  have n: "fst (mw_increment mw (rate_key otpRequestLimiter raw) (10 * MIN_MS) now (sv_rate sv)) =
      Suc (hits (rate_key otpRequestLimiter raw) now (sv_rate sv))"
    by (rule rate_store.counts [OF assms(1)])
  have spec: "rl_keyKind otpRequestLimiter = KeyPhone" "rl_windowMs otpRequestLimiter = 10 * MIN_MS" "rl_max otpRequestLimiter = 3"
    by (simp_all add: otpRequestLimiter_def)
  show ?thesis
    using n
    by (auto simp: serve_login_otp_def admit_def m find_login_otp login_otp_route_def mk_route_def makeRateLimiter_def skip spec key body
        assms(2) Let_def split: prod.splits)
qed

text \<open>A code goes out when the phone belongs to a user who is not blocked and is not locked.\<close>

definition can_receive :: "'r redis \<Rightarrow> string \<Rightarrow> date \<Rightarrow> 'r auth_state \<Rightarrow> bool" where
  "can_receive R phone now st \<longleftrightarrow>
     (case findByPhone phone (users (au_db st)) of None \<Rightarrow> False | Some u \<Rightarrow> \<not> bl_isBlocked (u_blocked u)) \<and>
     rd_get R now (lockoutKey phone) (au_redis st) = None"

lemma code_goes_out:
  assumes "can_receive R phone now st" "sd_smsError sd = None"
  shows "fst (requestLoginOtp R sha phone ip sd now st) = Inr (requested now) \<and>
    otp_sms (au_otp (snd (requestLoginOtp R sha phone ip sd now st))) = otp_sms (au_otp st) @ [(phone, generateOtp (sd_random sd), LOGIN)] \<and>
    can_receive R phone now (snd (requestLoginOtp R sha phone ip sd now st))"
  using assms
  by (auto simp: can_receive_def requestLoginOtp_def send_code_def otp_send_def RedisLockoutStore_def au_redis_def Let_def split: option.splits)

lemma sample_phone: "can_receive space_redis ''+919876543210'' 60 (sv_auth sample_server)" "mobile ''9876543210''"
  by code_simp+

text \<open>
  The limit counts what the client wrote, before the phone is normalised. Spelled with ever
  more dashes one number gets as many codes as it has spellings, all in the same instant; a
  body may have a megabyte.
\<close>

theorem otp_budget_bypassed:
  assumes "rate_store (mw_increment mw) hits" "mobile digits" "can_receive (mw_redis mw) (''+91'' @ digits) now (sv_auth sv)"
    and "\<And>n. hits (rate_key otpRequestLimiter (dashed digits n)) now (sv_rate sv) < 3"
    and "\<And>sd. sd \<in> set sds \<Longrightarrow> sd_smsError sd = None"
  shows "let run = serve_all mw sha (zip (map (\<lambda>n. code_request req (dashed digits n)) [0..<length sds]) sds) now sv
    in fst run = replicate (length sds) (Inr (requested now)) \<and>
       otp_sms (au_otp (sv_auth (snd run))) =
         otp_sms (au_otp (sv_auth sv)) @ map (\<lambda>sd. (''+91'' @ digits, generateOtp (sd_random sd), LOGIN)) sds"
proof -
  have gen: "let run = serve_all mw sha (zip (map (\<lambda>n. code_request req (dashed digits n)) [i..<i + length ss]) ss) now v
    in fst run = replicate (length ss) (Inr (requested now)) \<and>
       otp_sms (au_otp (sv_auth (snd run))) =
         otp_sms (au_otp (sv_auth v)) @ map (\<lambda>sd. (''+91'' @ digits, generateOtp (sd_random sd), LOGIN)) ss"
    if "can_receive (mw_redis mw) (''+91'' @ digits) now (sv_auth v)" "\<forall>sd \<in> set ss. sd_smsError sd = None"
      "\<forall>n \<ge> i. hits (rate_key otpRequestLimiter (dashed digits n)) now (sv_rate v) < 3" for i ss v
    using that
  proof (induction ss arbitrary: i v)
    case (Cons sd ss)
    let ?a = "requestLoginOtp (mw_redis mw) sha (''+91'' @ digits) (or_default (rq_ip req) ''unknown'') sd now (sv_auth v)"
    let ?s = "snd (mw_increment mw (rate_key otpRequestLimiter (dashed digits i)) (10 * MIN_MS) now (sv_rate v))"
    have c: "serve_login_otp mw sha (code_request req (dashed digits i)) sd now v = (fst ?a, v\<lparr>sv_rate := ?s, sv_auth := snd ?a\<rparr>)"
      using serve_code_request [OF assms(1) dashed_same_phone [OF assms(2), of i], of sha req sd now v] Cons.prems(3)
      by (auto simp: Let_def split_beta)
    have neq: "rate_key otpRequestLimiter (dashed digits n) \<noteq> rate_key otpRequestLimiter (dashed digits i)" if "Suc i \<le> n" for n
    proof
      assume "rate_key otpRequestLimiter (dashed digits n) = rate_key otpRequestLimiter (dashed digits i)"
      then have "length (dashed digits n) = length (dashed digits i)" by (simp add: rate_key_def)
      then show False using that by (simp add: dashed_def)
    qed
    have k: "\<forall>n \<ge> Suc i. hits (rate_key otpRequestLimiter (dashed digits n)) now ?s < 3"
      using Cons.prems(3) neq by (auto simp: rate_store.others [OF assms(1)])
    note g = code_goes_out [of "mw_redis mw" "''+91'' @ digits" now "sv_auth v" sd sha "or_default (rq_ip req) ''unknown''"]
    have ih: "let run = serve_all mw sha (zip (map (\<lambda>n. code_request req (dashed digits n)) [Suc i..<Suc i + length ss]) ss) now
         (v\<lparr>sv_rate := ?s, sv_auth := snd ?a\<rparr>)
      in fst run = replicate (length ss) (Inr (requested now)) \<and>
         otp_sms (au_otp (sv_auth (snd run))) =
           otp_sms (au_otp (snd ?a)) @ map (\<lambda>sd. (''+91'' @ digits, generateOtp (sd_random sd), LOGIN)) ss"
      using Cons.IH [of "v\<lparr>sv_rate := ?s, sv_auth := snd ?a\<rparr>" "Suc i"] g Cons.prems k by simp
    have u: "[i..<i + length (sd # ss)] = i # [Suc i..<Suc i + length ss]" by (simp add: upt_rec)
    show ?case unfolding u using ih g Cons.prems by (simp add: c Let_def split_beta del: upt_Suc)
  qed simp
  show ?thesis using gen [of sv sds 0] assms(3-5) by simp
qed

theorem otp_budget_bypassed_witness:
  "length (otp_sms (au_otp (sv_auth (snd (serve_all sample_middleware id
     (zip (map (\<lambda>n. code_request sample_http (dashed ''9876543210'' n)) [0..<1000]) (replicate 1000 sample_send)) 60 sample_server))))) = 1000"
proof -
  have m: "mw_increment sample_middleware = window_increment" "mw_redis sample_middleware = space_redis"
    "sv_rate sample_server = (\<lambda>_. None)" "otp_sms (au_otp (sv_auth sample_server)) = []"
    by (simp_all add: sample_middleware_def sample_server_def sample_auth_def sample_otp_state_def)
  have "''+91'' @ ''9876543210'' = ''+919876543210''" by simp
  then show ?thesis
    using otp_budget_bypassed [of sample_middleware window_hits "''9876543210''" 60 sample_server "replicate 1000 sample_send" id sample_http]
      window.rate_store_axioms sample_phone
    by (simp add: m window_hits_def sample_send_def Let_def)
qed

text \<open>Spelled alike, a phone gets three codes; from the fourth request on the answer is 429 and nothing is sent.\<close>

theorem otp_budget_per_spelling:
  assumes "rate_store (mw_increment mw) hits" "IndianPhoneSchema raw = Some phone" "can_receive (mw_redis mw) phone now (sv_auth sv)"
    and "hits (rate_key otpRequestLimiter raw) now (sv_rate sv) = 0"
    and "\<And>sd. sd \<in> set sds \<Longrightarrow> sd_smsError sd = None"
  shows "let run = serve_all mw sha (map (Pair (code_request req raw)) sds) now sv
    in fst run = replicate (min 3 (length sds)) (Inr (requested now)) @ replicate (length sds - 3) (Inl RateLimitedError) \<and>
       otp_sms (au_otp (sv_auth (snd run))) =
         otp_sms (au_otp (sv_auth sv)) @ map (\<lambda>sd. (phone, generateOtp (sd_random sd), LOGIN)) (take 3 sds)"
proof -
  have gen: "let run = serve_all mw sha (map (Pair (code_request req raw)) ss) now v; left = 3 - hits (rate_key otpRequestLimiter raw) now (sv_rate v)
    in fst run = replicate (min left (length ss)) (Inr (requested now)) @ replicate (length ss - left) (Inl RateLimitedError) \<and>
       otp_sms (au_otp (sv_auth (snd run))) =
         otp_sms (au_otp (sv_auth v)) @ map (\<lambda>sd. (phone, generateOtp (sd_random sd), LOGIN)) (take left ss)"
    if "can_receive (mw_redis mw) phone now (sv_auth v)" "\<forall>sd \<in> set ss. sd_smsError sd = None" for ss v
    using that
  proof (induction ss arbitrary: v)
    case (Cons sd ss)
    let ?a = "requestLoginOtp (mw_redis mw) sha phone (or_default (rq_ip req) ''unknown'') sd now (sv_auth v)"
    let ?h = "hits (rate_key otpRequestLimiter raw) now (sv_rate v)"
    let ?s = "snd (mw_increment mw (rate_key otpRequestLimiter raw) (10 * MIN_MS) now (sv_rate v))"
    have h: "hits (rate_key otpRequestLimiter raw) now ?s = Suc ?h"
      by (rule rate_store.own [OF assms(1)]) (simp add: MIN_MS_def)
    note c = serve_code_request [OF assms(1,2), of sha req sd now v]
    note g = code_goes_out [of "mw_redis mw" phone now "sv_auth v" sd sha "or_default (rq_ip req) ''unknown''"]
    show ?case
    proof (cases "3 \<le> ?h")
      case True
      then show ?thesis using Cons.IH [of "v\<lparr>sv_rate := ?s\<rparr>"] Cons.prems c by (simp add: h Let_def split_beta)
    next
      case False
      then have "3 - ?h = Suc (3 - Suc ?h)" by simp
      then show ?thesis using Cons.IH [of "v\<lparr>sv_rate := ?s, sv_auth := snd ?a\<rparr>"] Cons.prems c g False
        by (simp add: h Let_def split_beta)
    qed
  qed simp
  show ?thesis using gen [of sv sds] assms(3-5) by (simp add: Let_def)
qed

theorem otp_budget_per_spelling_witness:
  "fst (serve_all sample_middleware id (map (Pair (code_request sample_http ''98765 43210'')) [sample_send, sample_send, sample_send, sample_send]) 60 sample_server) =
     [Inr (requested 60), Inr (requested 60), Inr (requested 60), Inl RateLimitedError]"
proof -
  have m: "mw_increment sample_middleware = window_increment" "mw_redis sample_middleware = space_redis" "sv_rate sample_server = (\<lambda>_. None)"
    by (simp_all add: sample_middleware_def sample_server_def)
  have s: "IndianPhoneSchema ''98765 43210'' = Some ''+919876543210''" by code_simp
  have d: "sd \<in> set [sample_send, sample_send, sample_send, sample_send] \<Longrightarrow> sd_smsError sd = None" for sd by (auto simp: sample_send_def)
  have "rate_store (mw_increment sample_middleware) window_hits" "can_receive (mw_redis sample_middleware) ''+919876543210'' 60 (sv_auth sample_server)"
    "window_hits (rate_key otpRequestLimiter ''98765 43210'') 60 (sv_rate sample_server) = 0"
    using window.rate_store_axioms sample_phone(1) by (simp_all add: m window_hits_def)
  from otp_budget_per_spelling [of sample_middleware window_hits "''98765 43210''" "''+919876543210''" 60 sample_server
      "[sample_send, sample_send, sample_send, sample_send]" id sample_http, OF this(1) s this(2,3) d]
  show ?thesis by (simp add: Let_def numeral_3_eq_3)
qed

end
