(* ===== verification/Tier.thy ===== *)
theory Tier
  imports Models Samples
begin

text \<open>
  Tier access (src/shared/models/_tier.ts), the writers of a user's subscription entries
  (the pipeline updates of subscriptions.service.ts) and the expiry sweep
  (sweep.service.ts, _subscriptions.pipelines.ts). The lemmas show that access to a tier is
  exactly an active entry of that tier, that the derived display tier and its expiry agree
  with it, that every writer keeps at most one entry per tier, and what the sweep keeps.
\<close>

section \<open>Access and derivation\<close>

definition isActiveForDerivation :: "sub_entry \<Rightarrow> date \<Rightarrow> bool" where
  "isActiveForDerivation entry now =
     (if en_status entry = E_ACTIVE then True
      else if en_status entry = E_CANCELLED \<and>
              (case js_read (en_expiresAt entry) of None \<Rightarrow> False | Some d \<Rightarrow> d > now)
      then True
      else False)"

fun access_loop :: "sub_entry list \<Rightarrow> tier \<Rightarrow> date \<Rightarrow> bool" where
  "access_loop [] requestedTier now = False"
| "access_loop (entry # rest) requestedTier now =
     (if en_tier entry \<noteq> requestedTier then access_loop rest requestedTier now
      else if isActiveForDerivation entry now then True
      else access_loop rest requestedTier now)"

definition userCanAccessTier :: "sub_entry list \<Rightarrow> tier \<Rightarrow> date \<Rightarrow> bool" where
  "userCanAccessTier subs requestedTier now =
     (if requestedTier = PUBLIC then True else access_loop subs requestedTier now)"

fun derive_loop :: "sub_entry list \<Rightarrow> date \<Rightarrow> bool \<Rightarrow> bool \<Rightarrow> bool \<times> bool" where
  "derive_loop [] now hasActivePro hasActiveProMax = (hasActivePro, hasActiveProMax)"
| "derive_loop (entry # rest) now hasActivePro hasActiveProMax =
     (if \<not> isActiveForDerivation entry now
      then derive_loop rest now hasActivePro hasActiveProMax
      else if en_tier entry = PRO_MAX then derive_loop rest now hasActivePro True
      else if en_tier entry = PRO then derive_loop rest now True hasActiveProMax
      else derive_loop rest now hasActivePro hasActiveProMax)"

definition deriveCurrentTier :: "sub_entry list \<Rightarrow> date \<Rightarrow> tier" where
  "deriveCurrentTier subs now =
     (let (hasActivePro, hasActiveProMax) = derive_loop subs now False False
      in if hasActiveProMax then PRO_MAX else if hasActivePro then PRO else PUBLIC)"

fun max_loop :: "sub_entry list \<Rightarrow> date option \<Rightarrow> date option" where
  "max_loop [] mx = mx"
| "max_loop (e # rest) mx =
     (case js_read (en_expiresAt e) of
        None \<Rightarrow> max_loop rest mx
      | Some d \<Rightarrow>
          (case mx of
             None \<Rightarrow> max_loop rest (Some d)
           | Some m \<Rightarrow> max_loop rest (if d > m then Some d else Some m)))"

definition maxExpiresAt :: "sub_entry list \<Rightarrow> date option" where
  "maxExpiresAt entries = max_loop entries None"

definition deriveTierExpiresAt :: "sub_entry list \<Rightarrow> date \<Rightarrow> date option" where
  "deriveTierExpiresAt subs now =
     (let activeProMax = filter (\<lambda>s. en_tier s = PRO_MAX \<and> isActiveForDerivation s now) subs
      in if length activeProMax > 0 then maxExpiresAt activeProMax
         else let activePro = filter (\<lambda>s. en_tier s = PRO \<and> isActiveForDerivation s now) subs
              in if length activePro > 0 then maxExpiresAt activePro else None)"

section \<open>Writers of the entries\<close>

definition upsertSubscriptionEntry ::
  "tier \<Rightarrow> entry_status \<Rightarrow> date option \<Rightarrow> oid \<Rightarrow> sub_entry list \<Rightarrow> sub_entry list" where
  "upsertSubscriptionEntry tier status expiresAt subscriptionId subs =
     (let newEntry = \<lparr>en_tier = tier, en_status = status, en_expiresAt = bson_of expiresAt,
                      en_subscriptionId = Some subscriptionId\<rparr>
      in filter (\<lambda>this. en_tier this \<noteq> tier) subs @ [newEntry])"

definition markEntryCancelledBySubId :: "oid \<Rightarrow> sub_entry list \<Rightarrow> sub_entry list" where
  "markEntryCancelledBySubId subscriptionId subs =
     map (\<lambda>this. if en_subscriptionId this = Some subscriptionId
                 then this\<lparr>en_status := E_CANCELLED\<rparr> else this) subs"

definition markEntryExpiredImmediatelyBySubId ::
  "oid \<Rightarrow> date \<Rightarrow> sub_entry list \<Rightarrow> sub_entry list" where
  "markEntryExpiredImmediatelyBySubId subscriptionId now subs =
     map (\<lambda>this. if en_subscriptionId this = Some subscriptionId
                 then this\<lparr>en_status := E_CANCELLED, en_expiresAt := Val now\<rparr> else this) subs"

section \<open>The sweep\<close>

text \<open>
  The condition of the pipeline filter. \<open>$eq\<close> against null is true of a field that holds
  null, not of an absent one; \<open>$gte\<close> compares across types in BSON order, in which an
  absent field and null come before every date.
\<close>

definition sweep_keeps :: "date \<Rightarrow> sub_entry \<Rightarrow> bool" where
  "sweep_keeps now this =
     (en_expiresAt this = Null \<or> (case en_expiresAt this of Val d \<Rightarrow> d \<ge> now | _ \<Rightarrow> False))"

definition sweepFilter :: "date \<Rightarrow> sub_entry list \<Rightarrow> sub_entry list" where
  "sweepFilter now subs = filter (sweep_keeps now) subs"

definition sweep_candidate :: "date \<Rightarrow> user \<Rightarrow> bool" where
  "sweep_candidate now u =
     list_ex (\<lambda>e. case en_expiresAt e of Val d \<Rightarrow> d < now | _ \<Rightarrow> False) (u_subscriptions u)"

definition sweepExpiredTiers :: "date \<Rightarrow> int option \<Rightarrow> db \<Rightarrow> int \<times> db" where
  "sweepExpiredTiers now batchSizeOpt s =
     (let batchSize = max 1 (min 10000 (or_default batchSizeOpt 500));
          candidates = take (nat batchSize) (find_docs (sweep_candidate now) (users s))
      in if length candidates = 0 then (0, s)
         else let ids = map u_id candidates;
                  (modified, us) = updateMany (\<lambda>u. u_id u \<in> set ids)
                    (\<lambda>u. u\<lparr>u_subscriptions := sweepFilter now (u_subscriptions u)\<rparr>) (users s)
              in (modified, s\<lparr>users := us\<rparr>))"

section \<open>Access is an active entry of the tier\<close>

lemma isActiveForDerivation_iff:
  "isActiveForDerivation e now \<longleftrightarrow> en_status e = E_ACTIVE \<or>
     (en_status e = E_CANCELLED \<and> (\<exists>d. en_expiresAt e = Val d \<and> now < d))"
  by (cases "en_expiresAt e") (simp_all add: isActiveForDerivation_def)

lemma access_loop_iff:
  "access_loop subs t now \<longleftrightarrow> (\<exists>e \<in> set subs. en_tier e = t \<and> isActiveForDerivation e now)"
  by (induction subs) auto

lemma derive_loop_eq:
  "derive_loop subs now a b = (a \<or> access_loop subs PRO now, b \<or> access_loop subs PRO_MAX now)"
  by (induction subs arbitrary: a b) auto

lemma max_loop_ge: "max_loop es (Some k) = Some m \<Longrightarrow> k \<le> m"
proof (induction es arbitrary: k)
  case (Cons e es)
  then show ?case
    by (cases "js_read (en_expiresAt e)") (auto split: if_splits dest!: Cons.IH)
qed simp

lemma max_loop_upper:
  "max_loop es mx = Some m \<Longrightarrow> e \<in> set es \<Longrightarrow> en_expiresAt e = Val d \<Longrightarrow> d \<le> m"
proof (induction es arbitrary: mx)
  case (Cons a es)
  show ?case
  proof (cases "e = a")
    case True
    with Cons.prems show ?thesis
      by (cases mx) (auto dest: max_loop_ge split: if_splits)
  next
    case False
    with Cons show ?thesis by (auto split: option.splits if_splits)
  qed
qed simp

lemma max_loop_from:
  "max_loop es mx = Some m \<Longrightarrow> mx = Some m \<or> (\<exists>e \<in> set es. en_expiresAt e = Val m)"
proof (induction es arbitrary: mx)
  case (Cons e es)
  obtain mx' where mx': "max_loop (e # es) mx = max_loop es mx'"
    "mx' = mx \<or> (\<exists>d. mx' = Some d \<and> en_expiresAt e = Val d)"
    by (cases "js_read (en_expiresAt e)"; cases mx) (auto split: if_splits)
  with Cons.prems have "mx' = Some m \<or> (\<exists>e \<in> set es. en_expiresAt e = Val m)"
    by (intro Cons.IH) simp
  with mx'(2) show ?case by auto
qed simp

lemma max_loop_None: "max_loop es mx = None \<longleftrightarrow> mx = None \<and> (\<forall>e \<in> set es. js_read (en_expiresAt e) = None)"
  by (induction es arbitrary: mx) (auto split: option.splits)

lemma maxExpiresAt_Some:
  assumes "maxExpiresAt es = Some m"
  shows "(\<exists>e \<in> set es. en_expiresAt e = Val m) \<and> (\<forall>e \<in> set es. \<forall>d. en_expiresAt e = Val d \<longrightarrow> d \<le> m)"
  using assms max_loop_from [of es None m] max_loop_upper [of es None m]
  by (auto simp: maxExpiresAt_def)

text \<open>C30: a user can access the free section always, and a paid tier exactly when one of the
  user's subscription entries is for that very tier and is active or cancelled but still in
  its grace period; no tier grants another (parallel sections, not a hierarchy).\<close>

theorem access_exactly_active_entry:
  "userCanAccessTier subs t now \<longleftrightarrow>
     t = PUBLIC \<or>
     (\<exists>e \<in> set subs. en_tier e = t \<and>
        (en_status e = E_ACTIVE \<or>
         (en_status e = E_CANCELLED \<and> (\<exists>d. en_expiresAt e = Val d \<and> now < d))))"
  by (simp add: userCanAccessTier_def access_loop_iff isActiveForDerivation_iff)

lemma deriveCurrentTier_eq:
  "deriveCurrentTier subs now =
     (if userCanAccessTier subs PRO_MAX now then PRO_MAX
      else if userCanAccessTier subs PRO now then PRO else PUBLIC)"
  by (simp add: deriveCurrentTier_def derive_loop_eq userCanAccessTier_def)

text \<open>the display tier derived for a user is a tier the user can access, and it is the
  highest one; the expiry derived beside it is the latest expiry among the active entries of
  exactly that tier, and is absent only if no such entry has one.\<close>

theorem derived_tier_and_expiry:
  "userCanAccessTier subs (deriveCurrentTier subs now) now \<and>
   (userCanAccessTier subs PRO_MAX now \<longrightarrow> deriveCurrentTier subs now = PRO_MAX) \<and>
   (userCanAccessTier subs PRO now \<longrightarrow> deriveCurrentTier subs now \<noteq> PUBLIC) \<and>
   (let own = filter (\<lambda>e. en_tier e = deriveCurrentTier subs now \<and> isActiveForDerivation e now) subs
    in case deriveTierExpiresAt subs now of
         None \<Rightarrow> deriveCurrentTier subs now = PUBLIC \<or> (\<forall>e \<in> set own. js_read (en_expiresAt e) = None)
       | Some m \<Rightarrow> (\<exists>e \<in> set own. en_expiresAt e = Val m) \<and>
                   (\<forall>e \<in> set own. \<forall>d. en_expiresAt e = Val d \<longrightarrow> d \<le> m))"
  (is "?acc \<and> ?top \<and> ?pro \<and> ?exp")
proof (intro conjI)
  show ?acc ?top ?pro by (simp_all add: deriveCurrentTier_eq) (simp add: userCanAccessTier_def)
  let ?own = "\<lambda>t. filter (\<lambda>e. en_tier e = t \<and> isActiveForDerivation e now) subs"
  have none: "length (?own t) > 0 \<longleftrightarrow> access_loop subs t now" for t
    by (auto simp: access_loop_iff filter_empty_conv)
  have mx: "case maxExpiresAt es of
        None \<Rightarrow> (\<forall>e \<in> set es. js_read (en_expiresAt e) = None)
      | Some m \<Rightarrow> (\<exists>e \<in> set es. en_expiresAt e = Val m) \<and>
                  (\<forall>e \<in> set es. \<forall>d. en_expiresAt e = Val d \<longrightarrow> d \<le> m)" for es
    using maxExpiresAt_Some [of es] by (auto simp: maxExpiresAt_def max_loop_None split: option.splits)
  show ?exp
    using mx [of "?own PRO_MAX"] mx [of "?own PRO"]
    unfolding deriveTierExpiresAt_def Let_def none deriveCurrentTier_eq userCanAccessTier_def
    by (simp split: option.splits)
qed

theorem derived_tier_and_expiry_witness:
  "deriveCurrentTier [sample_entry PRO E_ACTIVE 50 7, sample_entry PRO_MAX E_CANCELLED 5 8] 10 = PRO \<and>
   userCanAccessTier [sample_entry PRO E_ACTIVE 50 7, sample_entry PRO_MAX E_CANCELLED 5 8] PRO 10"
proof -
  let ?subs = "[sample_entry PRO E_ACTIVE 50 7, sample_entry PRO_MAX E_CANCELLED 5 8]"
  have t: "deriveCurrentTier ?subs 10 = PRO" by code_simp
  from derived_tier_and_expiry [of ?subs 10] have "userCanAccessTier ?subs (deriveCurrentTier ?subs 10) 10" by blast
  with t show ?thesis by simp
qed

section \<open>One entry per tier\<close>

definition entries_ok :: "sub_entry list \<Rightarrow> bool" where
  "entries_ok subs \<longleftrightarrow> distinct (map en_tier subs) \<and> PUBLIC \<notin> set (map en_tier subs)"

lemma map_en_tier_cancel [simp]:
  "map en_tier (markEntryCancelledBySubId sid subs) = map en_tier subs"
  "map en_tier (markEntryExpiredImmediatelyBySubId sid now subs) = map en_tier subs"
  by (simp_all add: markEntryCancelledBySubId_def markEntryExpiredImmediatelyBySubId_def)

lemma entries_ok_upsert:
  "entries_ok subs \<Longrightarrow> t \<noteq> PUBLIC \<Longrightarrow> entries_ok (upsertSubscriptionEntry t st ex sid subs)"
  by (auto simp: entries_ok_def upsertSubscriptionEntry_def Let_def distinct_map_filter)

lemma entries_ok_cancel: "entries_ok (markEntryCancelledBySubId sid subs) = entries_ok subs"
  unfolding entries_ok_def by (simp only: map_en_tier_cancel)

lemma entries_ok_expire:
  "entries_ok (markEntryExpiredImmediatelyBySubId sid now subs) = entries_ok subs"
  unfolding entries_ok_def by (simp only: map_en_tier_cancel)

lemma entries_ok_sweep: "entries_ok subs \<Longrightarrow> entries_ok (sweepFilter now subs)"
  by (auto simp: entries_ok_def sweepFilter_def distinct_map_filter)

lemma access_upsert_same:
  "t \<noteq> PUBLIC \<Longrightarrow> userCanAccessTier (upsertSubscriptionEntry t E_ACTIVE ex sid subs) t now"
  by (auto simp: userCanAccessTier_def access_loop_iff upsertSubscriptionEntry_def Let_def
      isActiveForDerivation_def)

lemma access_upsert_other:
  "t' \<noteq> t \<Longrightarrow>
   userCanAccessTier (upsertSubscriptionEntry t st ex sid subs) t' now = userCanAccessTier subs t' now"
  by (auto simp: userCanAccessTier_def access_loop_iff upsertSubscriptionEntry_def Let_def)

text \<open>Cutting an entry off at an instant ends its access from that instant on; entries of
  other subscriptions are not touched.\<close>

lemma access_expired:
  assumes "now \<le> now'" and "\<forall>e \<in> set subs. en_tier e = t \<longrightarrow> en_subscriptionId e = Some sid"
    and "t \<noteq> PUBLIC"
  shows "\<not> userCanAccessTier (markEntryExpiredImmediatelyBySubId sid now subs) t now'"
  using assms
  by (auto simp: userCanAccessTier_def access_loop_iff markEntryExpiredImmediatelyBySubId_def
      isActiveForDerivation_def split: if_splits)

section \<open>What the sweep keeps\<close>

lemma sweep_keeps_grace:
  "en_expiresAt e = Val d \<Longrightarrow> now \<le> d \<Longrightarrow> sweep_keeps now e"
  by (simp add: sweep_keeps_def)

lemma sweepExpiredTiers_users:
  "users (snd (sweepExpiredTiers now bs s)) =
     map (\<lambda>u. if u_id u \<in> set (map u_id (take (nat (max 1 (min 10000 (or_default bs 500))))
                 (filter (sweep_candidate now) (users s))))
              then u\<lparr>u_subscriptions := sweepFilter now (u_subscriptions u)\<rparr> else u) (users s)"
  by (auto simp: sweepExpiredTiers_def Let_def find_docs_def updateMany_def split: prod.splits
      intro!: map_idI [symmetric])



text \<open>after a sweep whose batch covers every candidate no entry with a past expiry is
  left, and a second sweep at the same instant changes nothing.\<close>

theorem sweep_removes_expired:
  assumes "int (length (filter (sweep_candidate now) (users s))) \<le> max 1 (min 10000 (or_default bs 500))"
    and "u \<in> set (users (snd (sweepExpiredTiers now bs s)))"
  shows "\<not> sweep_candidate now u \<and> sweepExpiredTiers now bs (snd (sweepExpiredTiers now bs s)) =
           (0, snd (sweepExpiredTiers now bs s))"
proof -
  let ?s = "snd (sweepExpiredTiers now bs s)"
  have all: "take (nat (max 1 (min 10000 (or_default bs 500)))) (filter (sweep_candidate now) (users s))
      = filter (sweep_candidate now) (users s)"
    using assms(1) by (intro take_all) linarith
  have none: "\<not> sweep_candidate now v" if v: "v \<in> set (users ?s)" for v
  proof -
    from v obtain w where w: "w \<in> set (users s)"
      "v = w\<lparr>u_subscriptions := sweepFilter now (u_subscriptions w)\<rparr> \<or> v = w \<and> \<not> sweep_candidate now w"
      unfolding sweepExpiredTiers_users all by auto
    then show ?thesis
      by (auto simp: sweep_candidate_def list_ex_iff sweepFilter_def sweep_keeps_def
          split: bson.splits)
  qed
  then have "filter (sweep_candidate now) (users ?s) = []" by (simp add: filter_empty_conv)
  then have "sweepExpiredTiers now bs ?s = (0, ?s)"
    by (simp add: sweepExpiredTiers_def Let_def find_docs_def)
  with none assms(2) show ?thesis by blast
qed

theorem sweep_removes_expired_witness:
  "\<not> sweep_candidate 10 (sample_user 1 0 [sample_entry PRO E_ACTIVE 50 7])"
proof -
  let ?s = "empty_db\<lparr>users := [sample_user 1 0 [sample_entry PRO E_ACTIVE 50 7, sample_entry PRO_MAX E_ACTIVE 5 8]]\<rparr>"
  have "int (length (filter (sweep_candidate 10) (users ?s))) \<le> max 1 (min 10000 (or_default None 500))"
    "users (snd (sweepExpiredTiers 10 None ?s)) = [sample_user 1 0 [sample_entry PRO E_ACTIVE 50 7]]" by code_simp+
  then show ?thesis using sweep_removes_expired [of 10 ?s None "sample_user 1 0 [sample_entry PRO E_ACTIVE 50 7]"] by simp
qed

text \<open>The comment of the filter says that an entry without an expiry is kept. That is so for
  one that stores null; one where the field is absent is dropped.\<close>

text \<open>C0: an active entry whose \<open>expiresAt\<close> field is absent, which is how the charge handler
  writes an entry for a charge without a period end, does not survive the sweep filter,
  although it never expires for the access rule; an entry that stores null survives.\<close>

theorem sweep_drops_entry_without_expiry:
  assumes "t \<noteq> PUBLIC" and "subs = upsertSubscriptionEntry t E_ACTIVE None sid []"
  shows "userCanAccessTier subs t now \<and> \<not> userCanAccessTier (sweepFilter now subs) t now \<and>
    sweepFilter now (map (en_expiresAt_update (\<lambda>_. Null)) subs) = map (en_expiresAt_update (\<lambda>_. Null)) subs"
  using assms
  by (auto simp: upsertSubscriptionEntry_def bson_of_def sweepFilter_def sweep_keeps_def
      userCanAccessTier_def isActiveForDerivation_def)

theorem sweep_drops_entry_without_expiry_witness:
  "\<not> userCanAccessTier (sweepFilter 0 (upsertSubscriptionEntry PRO E_ACTIVE None 7 [])) PRO 0"
  using sweep_drops_entry_without_expiry [of PRO _ 7 0] by blast

end
