(* ===== verification/Posts.thy ===== *)
theory Posts
  imports Tier Calendar Coins Samples
begin

text \<open>
  Posts (src/modules/posts): the daily feed, the single post, the completion that awards
  coins, and the administrative create, update, delete and list of posts.admin.service.ts.
  As for votes, the completion is given in two halves, the reads before the transaction and
  the transaction with the coin event after it.
\<close>

section \<open>Reading posts\<close>

record post_dto =
  dto_id :: oid
  dto_title :: string
  dto_description :: "string option"
  dto_dayKey :: day_key
  dto_scheduledAt :: date
  dto_status :: post_status
  dto_coinReward :: coins
  dto_tier :: tier
  dto_adsConfig :: "post_ads option"
  dto_publishedAt :: "date option"
  dto_closedAt :: "date option"
  dto_completed :: bool

definition toDto :: "post \<Rightarrow> bool \<Rightarrow> post_dto" where
  "toDto p completed =
     \<lparr>dto_id = p_id p, dto_title = p_title p,
      dto_description = (if truthy_str (p_description p) then p_description p else None),
      dto_dayKey = p_dayKey p, dto_scheduledAt = p_scheduledAt p, dto_status = p_status p,
      dto_coinReward = p_coinReward p, dto_tier = p_tier p, dto_adsConfig = p_adsConfig p,
      dto_publishedAt = p_publishedAt p, dto_closedAt = p_closedAt p, dto_completed = completed\<rparr>"

definition listForDayAndTier :: "day_key \<Rightarrow> tier \<Rightarrow> bool \<Rightarrow> post list \<Rightarrow> post list" where
  "listForDayAndTier dayKey tier includeDraft ps =
     sort_key p_scheduledAt (find_docs (\<lambda>p. p_tier p = tier \<and> p_dayKey p = dayKey \<and>
       (includeDraft \<or> p_status p \<in> {P_SCHEDULED, P_LIVE, P_CLOSED})) ps)"

definition listForDate :: "day_key \<Rightarrow> oid \<Rightarrow> tier \<Rightarrow> db \<Rightarrow> post_dto list" where
  "listForDate dayKey userId tier s =
     (let ps = listForDayAndTier dayKey tier False (posts s);
          completions = find_docs (\<lambda>c. pc_userId c = userId \<and> pc_dayKey c = dayKey) (post_completions s);
          completedIds = set (map pc_postId completions)
      in map (\<lambda>p. toDto p (p_id p \<in> completedIds)) ps)"

definition findByUserPost :: "oid \<Rightarrow> oid \<Rightarrow> post_completion list \<Rightarrow> post_completion option" where
  "findByUserPost userId postId cs = findOne (\<lambda>c. pc_userId c = userId \<and> pc_postId c = postId) cs"

definition getById :: "oid \<Rightarrow> oid \<Rightarrow> sub_entry list \<Rightarrow> date \<Rightarrow> db \<Rightarrow> post_dto option" where
  "getById postId userId subs now s =
     (case findOne (\<lambda>p. p_id p = postId) (posts s) of
        None \<Rightarrow> None
      | Some p \<Rightarrow>
          if \<not> userCanAccessTier subs (p_tier p) now then None
          else Some (toDto p (findByUserPost userId (p_id p) (post_completions s) \<noteq> None)))"

section \<open>Completing a post\<close>

record completion_input =
  ci_postId :: oid
  ci_userId :: oid
  ci_subscriptions :: "sub_entry list"

record completion_result =
  cp_coinBalance :: coins
  cp_alreadyCompleted :: bool

definition completePost_check :: "completion_input \<Rightarrow> date \<Rightarrow> db \<Rightarrow> app_error + post" where
  "completePost_check inp now s =
     (case findOne (\<lambda>p. p_id p = ci_postId inp) (posts s) of
        None \<Rightarrow> Inl NotFoundError
      | Some p \<Rightarrow>
          if p_status p \<noteq> P_LIVE then Inl (ConflictError ''POST_NOT_LIVE'')
          else if \<not> userCanAccessTier (ci_subscriptions inp) (p_tier p) now
          then Inl (ForbiddenError ''TIER_NOT_ACCESSIBLE'')
          else Inr p)"

definition completion_row :: "completion_input \<Rightarrow> day_key \<Rightarrow> coins \<Rightarrow> date \<Rightarrow> oid \<Rightarrow> post_completion" where
  "completion_row inp dayKey coinReward now cid =
     \<lparr>pc_id = cid, pc_userId = ci_userId inp, pc_postId = ci_postId inp, pc_dayKey = dayKey,
      pc_completedAt = now, pc_coinAwarded = Some coinReward, pc_coinTxId = None\<rparr>"

definition reward_row :: "completion_input \<Rightarrow> coins \<Rightarrow> coins \<Rightarrow> date \<Rightarrow> oid \<Rightarrow> coin_tx" where
  "reward_row inp coinReward balanceAfter now txId =
     \<lparr>ct_id = txId, ct_createdAt = now, ct_userId = ci_userId inp, ct_type = POST_REWARD,
      ct_amount = coinReward, ct_balanceAfter = balanceAfter,
      ct_reference = Some (Ref_Post, Some (ci_postId inp)), ct_note = None, ct_reason = None\<rparr>"

definition completePost_tx ::
  "completion_input \<Rightarrow> day_key \<Rightarrow> coins \<Rightarrow> date \<Rightarrow> oid \<Rightarrow> oid \<Rightarrow> db
   \<Rightarrow> (app_error + completion_result) \<times> db" where
  "completePost_tx inp dayKey coinReward now cid txId =
     transaction (\<lambda>s.
       case upsertOnInsert (\<lambda>c. pc_userId c = ci_userId inp \<and> pc_postId c = ci_postId inp)
              (completion_row inp dayKey coinReward now cid) (post_completions s) of
         (Some _, _) \<Rightarrow>
           (case findOne (\<lambda>u. u_id u = ci_userId inp) (users s) of
              None \<Rightarrow> (Inl (InternalError ''INVARIANT''), s)
            | Some user \<Rightarrow>
                (Inr \<lparr>cp_coinBalance = u_coinBalance user, cp_alreadyCompleted = True\<rparr>, s))
       | (None, cs) \<Rightarrow>
           (case incCoinBalance (ci_userId inp) coinReward (users s) of
              (None, _) \<Rightarrow> (Inl (InternalError ''INVARIANT''), s)
            | (Some updated, us) \<Rightarrow>
                let coinTx = reward_row inp coinReward (u_coinBalance updated) now txId;
                    cs' = snd (updateOne (\<lambda>c. pc_id c = cid)
                                (\<lambda>c. c\<lparr>pc_coinTxId := Some (ct_id coinTx)\<rparr>) cs)
                in (Inr \<lparr>cp_coinBalance = u_coinBalance updated, cp_alreadyCompleted = False\<rparr>,
                    s\<lparr>post_completions := cs', users := us, coin_txs := coin_txs s @ [coinTx]\<rparr>)))"

definition completePost_commit ::
  "completion_input \<Rightarrow> day_key \<Rightarrow> coins \<Rightarrow> date \<Rightarrow> oid \<Rightarrow> oid \<Rightarrow> db
   \<Rightarrow> (app_error + completion_result) \<times> db" where
  "completePost_commit inp dayKey coinReward now cid txId s =
     (case completePost_tx inp dayKey coinReward now cid txId s of
        (Inl e, s') \<Rightarrow> (Inl e, s')
      | (Inr result, s') \<Rightarrow>
          (Inr result,
           if cp_alreadyCompleted result then s'
           else s'\<lparr>coin_events := coin_events s' @
                [\<lparr>ce_userId = ci_userId inp, ce_coinBalance = cp_coinBalance result,
                  ce_reason = POST_REWARD\<rparr>]\<rparr>))"

definition completePost ::
  "completion_input \<Rightarrow> date \<Rightarrow> oid \<Rightarrow> oid \<Rightarrow> db \<Rightarrow> (app_error + completion_result) \<times> db" where
  "completePost inp now cid txId s =
     (case completePost_check inp now s of
        Inl e \<Rightarrow> (Inl e, s)
      | Inr p \<Rightarrow> completePost_commit inp (p_dayKey p) (p_coinReward p) now cid txId s)"

section \<open>Administration\<close>

record post_create_input =
  pci_title :: string
  pci_description :: "string option"
  pci_dayKey :: day_key
  pci_scheduledAt :: date
  pci_status :: "post_status option"
  pci_coinReward :: "coins option"
  pci_tier :: "tier option"
  pci_adsConfig :: "post_ads option"

definition admin_createPost :: "post_create_input \<Rightarrow> oid \<Rightarrow> date \<Rightarrow> oid \<Rightarrow> db \<Rightarrow> post \<times> db" where
  "admin_createPost inp actorId now newId s =
     (let doc = \<lparr>p_id = newId, p_createdAt = now, p_title = pci_title inp,
            p_description = pci_description inp, p_dayKey = pci_dayKey inp,
            p_scheduledAt = pci_scheduledAt inp, p_status = or_default (pci_status inp) P_DRAFT,
            p_coinReward = or_default (pci_coinReward inp) 1,
            p_tier = or_default (pci_tier inp) PUBLIC, p_adsConfig = pci_adsConfig inp,
            p_createdBy = actorId, p_publishedAt = None, p_closedAt = None\<rparr>
      in (doc, s\<lparr>posts := posts s @ [doc]\<rparr>))"

record post_patch =
  pup_title :: "string option"
  pup_description :: "string option"
  pup_dayKey :: "day_key option"
  pup_scheduledAt :: "date option"
  pup_status :: "post_status option"
  pup_coinReward :: "coins option"
  pup_tier :: "tier option"
  pup_adsConfig :: "post_ads option"
  pup_publishedAt :: "date option"
  pup_closedAt :: "date option"

text \<open>\<open>$set\<close> of the fields the patch carries.\<close>

definition apply_post_patch :: "post_patch \<Rightarrow> post \<Rightarrow> post" where
  "apply_post_patch patch p =
     p\<lparr>p_title := or_default (pup_title patch) (p_title p),
       p_description := (if pup_description patch = None then p_description p else pup_description patch),
       p_dayKey := or_default (pup_dayKey patch) (p_dayKey p),
       p_scheduledAt := or_default (pup_scheduledAt patch) (p_scheduledAt p),
       p_status := or_default (pup_status patch) (p_status p),
       p_coinReward := or_default (pup_coinReward patch) (p_coinReward p),
       p_tier := or_default (pup_tier patch) (p_tier p),
       p_adsConfig := (if pup_adsConfig patch = None then p_adsConfig p else pup_adsConfig patch),
       p_publishedAt := (if pup_publishedAt patch = None then p_publishedAt p else pup_publishedAt patch),
       p_closedAt := (if pup_closedAt patch = None then p_closedAt p else pup_closedAt patch)\<rparr>"

definition admin_updatePost :: "oid \<Rightarrow> post_patch \<Rightarrow> db \<Rightarrow> post option \<times> db" where
  "admin_updatePost postId patch s =
     (case findOneAndUpdate (\<lambda>p. p_id p = postId) (apply_post_patch patch) (posts s) of
        (r, ps) \<Rightarrow> (r, s\<lparr>posts := ps\<rparr>))"

definition admin_deletePost :: "oid \<Rightarrow> db \<Rightarrow> bool \<times> db" where
  "admin_deletePost postId s =
     (exists_doc (\<lambda>p. p_id p = postId) (posts s), s\<lparr>posts := deleteOne (\<lambda>p. p_id p = postId) (posts s)\<rparr>)"

definition admin_listByDate :: "day_key \<Rightarrow> post_status option \<Rightarrow> db \<Rightarrow> post list" where
  "admin_listByDate dayKey status s =
     find_docs (\<lambda>p. p_dayKey p = dayKey \<and> (case status of None \<Rightarrow> True | Some st \<Rightarrow> p_status p = st)) (posts s)"

section \<open>The transaction\<close>

abbreviation completed :: "completion_input \<Rightarrow> db \<Rightarrow> post_completion option" where
  "completed inp s \<equiv> findOne (\<lambda>c. pc_userId c = ci_userId inp \<and> pc_postId c = ci_postId inp) (post_completions s)"

lemma completePost_tx_Inl: "completePost_tx inp dk rew now cid tid s = (Inl e, s') \<Longrightarrow> s' = s"
  unfolding completePost_tx_def by (rule transaction_Inl)

lemma completePost_tx_again:
  assumes "completed inp s = Some c"
  shows "completePost_tx inp dk rew now cid tid s =
    (case findOne (\<lambda>u. u_id u = ci_userId inp) (users s) of
       None \<Rightarrow> (Inl (InternalError ''INVARIANT''), s)
     | Some u \<Rightarrow> (Inr \<lparr>cp_coinBalance = u_coinBalance u, cp_alreadyCompleted = True\<rparr>, s))"
  using assms by (auto simp: completePost_tx_def transaction_def upsertOnInsert_def split: option.splits)

lemma completePost_tx_fresh:
  assumes "completed inp s = None"
  shows "completePost_tx inp dk rew now cid tid s =
    (case findOne (\<lambda>u. u_id u = ci_userId inp) (users s) of
       None \<Rightarrow> (Inl (InternalError ''INVARIANT''), s)
     | Some u \<Rightarrow> (Inr \<lparr>cp_coinBalance = u_coinBalance u + rew, cp_alreadyCompleted = False\<rparr>,
         s\<lparr>post_completions := update_first (\<lambda>c. pc_id c = cid) (\<lambda>c. c\<lparr>pc_coinTxId := Some tid\<rparr>)
               (post_completions s @ [completion_row inp dk rew now cid]),
           users := update_first (\<lambda>u. u_id u = ci_userId inp) (inc_balance rew) (users s),
           coin_txs := coin_txs s @ [reward_row inp rew (u_coinBalance u + rew) now tid]\<rparr>))"
  using assms
  by (auto simp: completePost_tx_def transaction_def upsertOnInsert_def incCoinBalance_def Let_def
      findOneAndUpdate_def updateOne_def reward_row_def inc_balance_def split: option.splits)

lemma completePost_tx_coin_inv:
  assumes "coin_inv (users s) (coin_txs s)"
  shows "coin_inv (users (snd (completePost_tx inp dk rew now cid tid s)))
           (coin_txs (snd (completePost_tx inp dk rew now cid tid s)))"
proof (cases "completed inp s")
  case None
  have b: "u_coinBalance (inc_balance rew u) = u_coinBalance u + rew" for u by (simp add: inc_balance_def)
  show ?thesis
    using assms award.coin_inv_write [OF assms, of "\<lambda>u. u_id u = ci_userId inp" "ci_userId inp" rew]
    by (auto simp: completePost_tx_fresh [OF None] findOneAndUpdate_def reward_row_def b split: option.splits)
next
  case (Some c)
  then show ?thesis using assms by (auto simp: completePost_tx_again split: option.splits)
qed

lemma completePost_tx_solvent:
  assumes "solvent (users s)" and "0 \<le> rew"
  shows "solvent (users (snd (completePost_tx inp dk rew now cid tid s)))"
proof (cases "completed inp s")
  case None
  have "solvent (update_first (\<lambda>u. u_id u = ci_userId inp) (inc_balance rew) (users s))"
    using assms by (intro award.solvent_write) (auto simp: solvent_def)
  then show ?thesis using assms by (auto simp: completePost_tx_fresh [OF None] split: option.splits)
next
  case (Some c)
  then show ?thesis using assms by (auto simp: completePost_tx_again split: option.splits)
qed

lemma completion_keys_back_link:
  "keys_of completion_key (update_first p (\<lambda>c. c\<lparr>pc_coinTxId := x\<rparr>) cs) = keys_of completion_key cs"
  by (rule keys_of_update_first) (simp add: completion_key_def)

lemma completePost_tx_unique:
  assumes "unique_on completion_key (post_completions s)"
  shows "unique_on completion_key (post_completions (snd (completePost_tx inp dk rew now cid tid s)))"
proof (cases "completed inp s")
  case None
  have "unique_on completion_key (post_completions s @ [completion_row inp dk rew now cid])"
  proof (rule completion_index.create_unique [OF assms])
    show "create completion_clash (completion_row inp dk rew now cid) (post_completions s) =
        Inr (post_completions s @ [completion_row inp dk rew now cid])"
      using None by (auto simp: create_def completion_clash_def completion_row_def findOne_None_iff list_ex_iff)
  qed
  then show ?thesis using assms
    by (auto simp: completePost_tx_fresh [OF None] unique_on_def completion_keys_back_link split: option.splits)
next
  case (Some c)
  then show ?thesis using assms by (auto simp: completePost_tx_again split: option.splits)
qed

lemma completed_after:
  assumes "completePost_tx inp dk rew now cid tid s = (Inr r, s')"
  shows "completed inp s' \<noteq> None"
proof (cases "completed inp s")
  case None
  let ?xs = "post_completions s @ [completion_row inp dk rew now cid]"
  have "keys_of completion_key (post_completions s') = keys_of completion_key ?xs"
    using assms by (auto simp: completePost_tx_fresh [OF None] completion_keys_back_link split: option.splits)
  then have "(ci_userId inp, ci_postId inp) \<in> set (keys_of completion_key (post_completions s'))"
    by (simp add: completion_key_def completion_row_def)
  then show ?thesis by (auto simp: set_keys_of completion_key_def findOne_None_iff)
next
  case (Some c)
  then show ?thesis using assms by (auto simp: completePost_tx_again split: option.splits)
qed

section \<open>Properties\<close>

text \<open>C0: the answer of \<open>completePost\<close> for every state and input, in the documented order: no
  post, post not live, tier not accessible, user missing; then the unchanged balance when
  the user has completed the post before, and otherwise the balance plus the post's reward.\<close>

theorem completePost_answer:
  "fst (completePost inp now cid tid s) =
    (case findOne (\<lambda>p. p_id p = ci_postId inp) (posts s) of
       None \<Rightarrow> Inl NotFoundError
     | Some p \<Rightarrow>
         if p_status p \<noteq> P_LIVE then Inl (ConflictError ''POST_NOT_LIVE'')
         else if \<not> userCanAccessTier (ci_subscriptions inp) (p_tier p) now
         then Inl (ForbiddenError ''TIER_NOT_ACCESSIBLE'')
         else (case findOne (\<lambda>u. u_id u = ci_userId inp) (users s) of
             None \<Rightarrow> Inl (InternalError ''INVARIANT'')
           | Some u \<Rightarrow>
               if findByUserPost (ci_userId inp) (ci_postId inp) (post_completions s) \<noteq> None
               then Inr \<lparr>cp_coinBalance = u_coinBalance u, cp_alreadyCompleted = True\<rparr>
               else Inr \<lparr>cp_coinBalance = u_coinBalance u + p_coinReward p, cp_alreadyCompleted = False\<rparr>))"
proof -
  have "fst (completePost_commit inp dk rew now cid tid s) =
      (case findOne (\<lambda>u. u_id u = ci_userId inp) (users s) of
         None \<Rightarrow> Inl (InternalError ''INVARIANT'')
       | Some u \<Rightarrow>
           if completed inp s \<noteq> None then Inr \<lparr>cp_coinBalance = u_coinBalance u, cp_alreadyCompleted = True\<rparr>
           else Inr \<lparr>cp_coinBalance = u_coinBalance u + rew, cp_alreadyCompleted = False\<rparr>)" for dk rew
    by (cases "completed inp s")
      (auto simp: completePost_commit_def completePost_tx_again completePost_tx_fresh split: option.splits)
  then show ?thesis
    by (auto simp: completePost_def completePost_check_def findByUserPost_def split: option.splits)
qed

text \<open>C12: a post rewards a user once. After a completion that succeeded, completing again while
  the post is still open to the user changes nothing, awards nothing and reports the balance
  as it stands.\<close>

theorem completePost_rewards_once:
  assumes "completePost inp now cid tid s = (Inr r, s')"
    and "completePost_check inp now' s' = Inr p"
  shows "completePost inp now' cid' tid' s' =
    (Inr \<lparr>cp_coinBalance = cp_coinBalance r, cp_alreadyCompleted = True\<rparr>, s')"
proof -
  from assms(1) obtain dk rew s1 where tx: "completePost_tx inp dk rew now cid tid s = (Inr r, s1)"
    and s': "s' = s1 \<or> (\<exists>es. s' = s1\<lparr>coin_events := es\<rparr>)"
    by (auto simp: completePost_def completePost_commit_def split: sum.splits prod.splits if_splits)
  have done': "completed inp s' \<noteq> None" using completed_after [OF tx] s' by auto
  have "\<exists>u. findOne (\<lambda>u. u_id u = ci_userId inp) (users s1) = Some u \<and> u_coinBalance u = cp_coinBalance r"
  proof (cases "completed inp s")
    case None
    have b: "u_coinBalance (inc_balance d u) = u_coinBalance u + d" "u_id (inc_balance d u) = u_id u" for d u
      by (simp_all add: inc_balance_def)
    show ?thesis using tx
      by (auto simp: completePost_tx_fresh [OF None] b findOne_update_first split: option.splits)
  next
    case (Some c)
    then show ?thesis using tx by (auto simp: completePost_tx_again split: option.splits)
  qed
  then have "\<exists>u. findOne (\<lambda>u. u_id u = ci_userId inp) (users s') = Some u \<and> u_coinBalance u = cp_coinBalance r"
    using s' by auto
  then show ?thesis using assms(2) done'
    by (auto simp: completePost_def completePost_commit_def completePost_tx_again)
qed

theorem completePost_rewards_once_witness:
  "fst (completePost \<lparr>ci_postId = 3, ci_userId = 1, ci_subscriptions = []\<rparr> 7 22 23
     (snd (completePost \<lparr>ci_postId = 3, ci_userId = 1, ci_subscriptions = []\<rparr> 0 20 21
       (empty_db\<lparr>users := [sample_user 1 10 []], posts := [sample_post 3 PUBLIC]\<rparr>)))) =
   Inr \<lparr>cp_coinBalance = 15, cp_alreadyCompleted = True\<rparr>"
proof -
  let ?inp = "\<lparr>ci_postId = 3, ci_userId = 1, ci_subscriptions = []\<rparr>"
  let ?s = "empty_db\<lparr>users := [sample_user 1 10 []], posts := [sample_post 3 PUBLIC]\<rparr>"
  have "fst (completePost ?inp 0 20 21 ?s) = Inr \<lparr>cp_coinBalance = 15, cp_alreadyCompleted = False\<rparr>"
    and chk: "completePost_check ?inp 7 (snd (completePost ?inp 0 20 21 ?s)) = Inr (sample_post 3 PUBLIC)" by code_simp+
  then have "completePost ?inp 0 20 21 ?s = (Inr \<lparr>cp_coinBalance = 15, cp_alreadyCompleted = False\<rparr>, snd (completePost ?inp 0 20 21 ?s))"
    by (metis prod.collapse)
  from completePost_rewards_once [OF this chk] show ?thesis by simp
qed

text \<open>the daily feed lists exactly the posts of the tier and day that are not drafts, in the
  order of their schedule, each flagged as completed exactly when the user has a completion
  of it for that day.\<close>

theorem listForDate_feed:
  "sorted (map dto_scheduledAt (listForDate dk uid t s)) \<and>
   set (listForDate dk uid t s) =
     {toDto p (\<exists>c \<in> set (post_completions s). pc_userId c = uid \<and> pc_dayKey c = dk \<and> pc_postId c = p_id p)
      | p. p \<in> set (posts s) \<and> p_tier p = t \<and> p_dayKey p = dk \<and> p_status p \<noteq> P_DRAFT}"
proof
  have "map dto_scheduledAt (listForDate dk uid t s) =
      map p_scheduledAt (listForDayAndTier dk t False (posts s))"
    by (simp add: listForDate_def Let_def comp_def toDto_def)
  then show "sorted (map dto_scheduledAt (listForDate dk uid t s))"
    by (simp add: listForDayAndTier_def)
  have st: "(p_status p = P_SCHEDULED \<or> p_status p = P_LIVE \<or> p_status p = P_CLOSED) \<longleftrightarrow> p_status p \<noteq> P_DRAFT" for p
    by (cases "p_status p") auto
  have flag: "p_id p \<in> set (map pc_postId (find_docs (\<lambda>c. pc_userId c = uid \<and> pc_dayKey c = dk) (post_completions s))) \<longleftrightarrow>
      (\<exists>c \<in> set (post_completions s). pc_userId c = uid \<and> pc_dayKey c = dk \<and> pc_postId c = p_id p)" for p
    by (force simp: find_docs_def image_iff)
  show "set (listForDate dk uid t s) =
     {toDto p (\<exists>c \<in> set (post_completions s). pc_userId c = uid \<and> pc_dayKey c = dk \<and> pc_postId c = p_id p)
      | p. p \<in> set (posts s) \<and> p_tier p = t \<and> p_dayKey p = dk \<and> p_status p \<noteq> P_DRAFT}"
    unfolding listForDate_def Let_def flag
    by (auto simp: listForDayAndTier_def find_docs_def st)
qed

end
