(* ===== verification/Js_Number.thy ===== *)
theory Js_Number
  imports Prelude "HOL-Library.Log_Nat"
begin

text \<open>
  The program's numbers are IEEE 754 doubles. Amounts are integers far below \<open>2 ^ 53\<close>, on
  which addition, subtraction and multiplication are exact, and the other theories use
  \<open>int\<close> for them. Three computations leave the integers: the 70 per cent gift-code share
  of a prize pool, the 30 per cent tax deduction and the division that takes GST out of an
  inclusive price. This theory models what they use: decimal literals, product and
  quotient rounded to nearest even with a 53-bit significand, \<open>Math.floor\<close> and
  \<open>Math.round\<close>, on non-negative values in the normal range. A double is the pair
  \<open>(m, e)\<close> for the value \<open>m * 2 ^ e\<close>.
\<close>

section \<open>Doubles\<close>

type_synonym double = "int \<times> int"

definition round_half_even :: "int \<Rightarrow> int \<Rightarrow> int" where
  "round_half_even n d =
     (let q = n div d; r = n mod d
      in if 2 * r < d \<or> (2 * r = d \<and> even q) then q else q + 1)"

text \<open>The exponent that brings \<open>n / d\<close> into the interval from \<open>2 ^ 52\<close> to \<open>2 ^ 53\<close>.\<close>

definition fl_exp :: "int \<Rightarrow> int \<Rightarrow> int" where
  "fl_exp n d =
     (let e = bitlen n - bitlen d - 53
      in if (n * 2 ^ nat (- e)) div (d * 2 ^ nat e) < 2 ^ 53 then e else e + 1)"

text \<open>The double nearest to the rational \<open>n / d\<close>.\<close>

definition fl :: "int \<Rightarrow> int \<Rightarrow> double" where
  "fl n d =
     (if n = 0 then (0, 0)
      else let e = fl_exp n d
           in (round_half_even (n * 2 ^ nat (- e)) (d * 2 ^ nat e), e))"

definition js_mult :: "double \<Rightarrow> double \<Rightarrow> double" where
  "js_mult x y = (let e = snd x + snd y in fl (fst x * fst y * 2 ^ nat e) (2 ^ nat (- e)))"

definition js_divide :: "double \<Rightarrow> double \<Rightarrow> double" where
  "js_divide x y =
     (let e = snd x - snd y in fl (fst x * 2 ^ nat e) (fst y * 2 ^ nat (- e)))"

definition js_floor :: "double \<Rightarrow> int" where
  "js_floor x = (fst x * 2 ^ nat (snd x)) div 2 ^ nat (- snd x)"

text \<open>\<open>Math.round\<close> is the floor of the value plus one half, computed exactly.\<close>

definition js_round :: "double \<Rightarrow> int" where
  "js_round x =
     (2 * fst x * 2 ^ nat (snd x) + 2 ^ nat (- snd x)) div (2 * 2 ^ nat (- snd x))"

text \<open>An integer below \<open>2 ^ 53\<close> is a double.\<close>

definition js_int :: "int \<Rightarrow> double" where
  "js_int n = (n, 0)"

section \<open>Rounding error\<close>

lemma round_half_even_error: "0 < d \<Longrightarrow> 2 * \<bar>round_half_even n d * d - n\<bar> \<le> d"
proof -
  assume d: "0 < d"
  define q r where "q = n div d" and "r = n mod d"
  have n: "n = q * d + r" by (simp add: q_def r_def)
  have r: "0 \<le> r" "r < d" using d by (simp_all add: r_def)
  have "round_half_even n d = (if 2 * r < d \<or> 2 * r = d \<and> even q then q else q + 1)"
    by (simp add: round_half_even_def q_def r_def Let_def)
  then consider "round_half_even n d * d - n = - r" "2 * r \<le> d"
    | "round_half_even n d * d - n = d - r" "d \<le> 2 * r"
    by (fastforce simp: n distrib_right split: if_splits)
  then show ?thesis using r by cases simp_all
qed

lemma round_half_even_exact:
  assumes "0 < d" and "2 * \<bar>M * d - n\<bar> < d"
  shows "round_half_even n d = M"
proof -
  let ?q = "round_half_even n d"
  have "2 * \<bar>?q * d - n\<bar> \<le> d" using assms(1) by (rule round_half_even_error)
  moreover have "\<bar>?q * d - M * d\<bar> \<le> \<bar>?q * d - n\<bar> + \<bar>M * d - n\<bar>"
    using abs_triangle_ineq4 [of "?q * d - n" "M * d - n"] by simp
  moreover have "2 * a \<le> d \<Longrightarrow> c \<le> a + b \<Longrightarrow> 2 * b < d \<Longrightarrow> c < d" for a b c :: int by simp
  ultimately have "\<bar>(?q - M) * d\<bar> < d" using assms(2) unfolding left_diff_distrib by blast
  then have "\<bar>?q - M\<bar> * d < 1 * d" using assms(1) by (simp add: abs_mult)
  then have "\<bar>?q - M\<bar> < 1" using assms(1) by (simp only: mult_less_cancel_right_pos)
  then show ?thesis by simp
qed

lemma int_div_less_iff:
  assumes "0 < (d :: int)"
  shows "a div d < c \<longleftrightarrow> a < c * d"
proof
  assume "a div d < c"
  then have "(a div d + 1) * d \<le> c * d" using assms by (intro mult_right_mono) simp_all
  moreover have "a < (a div d + 1) * d"
    using assms pos_mod_bound [of d a] div_mult_mod_eq [of a d]
    unfolding distrib_right mult_1 by linarith
  ultimately show "a < c * d" by simp
next
  assume "a < c * d"
  show "a div d < c"
  proof (rule ccontr)
    assume "\<not> a div d < c"
    then have "c * d \<le> a div d * d" using assms by (intro mult_right_mono) simp_all
    moreover have "a div d * d \<le> a"
      using assms pos_mod_sign [of d a] div_mult_mod_eq [of a d] by linarith
    ultimately show False using \<open>a < c * d\<close> by simp
  qed
qed

lemma bitlen_nat:
  assumes "0 < n"
  obtains a where "bitlen n = int (Suc a)" "2 ^ a \<le> n" "n < 2 ^ Suc a"
proof -
  have "0 < bitlen n" using assms bitlen_nonneg [of n] bitlen_eq_zero_iff [of n] by linarith
  then obtain a where a: "bitlen n = int (Suc a)"
    by (metis gr0_implies_Suc zero_less_imp_eq_int)
  have "2 ^ a \<le> n" "n < 2 ^ Suc a" using bitlen_bounds [OF assms] by (simp_all add: a nat_add_distrib)
  with a show ?thesis by (rule that)
qed

text \<open>
  The shape of the rounding of a positive rational below \<open>2 ^ 52\<close>: a significand between
  \<open>2 ^ 52\<close> and \<open>2 ^ 53\<close>, off by at most half a unit in the last place.
\<close>

lemma fl_shape:
  assumes n: "0 < n" and d: "0 < d" and small: "n < 2 ^ 52 * d"
  obtains k where "fl n d = (round_half_even (n * 2 ^ k) d, - int k)"
    and "2 ^ 52 * d \<le> n * 2 ^ k" and "n * 2 ^ k < 2 ^ 53 * d"
proof -
  obtain a where a: "bitlen n = int (Suc a)" "2 ^ a \<le> n" "n < 2 ^ Suc a"
    using n by (rule bitlen_nat)
  obtain b where b: "bitlen d = int (Suc b)" "2 ^ b \<le> d" "d < 2 ^ Suc b"
    using d by (rule bitlen_nat)
  have "2 ^ 52 * d < 2 ^ 52 * 2 ^ Suc b" using b(3) by simp
  then have "(2 :: int) ^ a < 2 ^ 52 * 2 ^ Suc b" using a(2) small
    by (meson le_less_trans less_trans)
  then have "(2 :: int) ^ a < 2 ^ (53 + b)" by (simp add: power_add)
  then have ab: "a \<le> 52 + b" by simp
  define k where "k = 53 + b - a"
  have k: "0 < k" "a + k = 53 + b" using ab by (simp_all add: k_def)
  have e: "bitlen n - bitlen d - 53 = - int k" using k by (simp add: a(1) b(1))
  have "(2 :: int) ^ (a + k) = 2 ^ (53 + b)" using k(2) by simp
  then have pow: "(2 :: int) ^ a * 2 ^ k = 2 ^ 53 * 2 ^ b" by (simp only: power_add)
  then have pow': "(2 :: int) ^ Suc a * 2 ^ k = 2 ^ 54 * 2 ^ b" by simp
  have "2 ^ a * 2 ^ k \<le> n * 2 ^ k" "n * 2 ^ k < 2 ^ Suc a * 2 ^ k"
    using a by simp_all
  with pow pow' have "2 ^ 53 * 2 ^ b \<le> n * 2 ^ k" "n * 2 ^ k < 2 ^ 54 * 2 ^ b" by linarith+
  with b have lo: "2 ^ 52 * d \<le> n * 2 ^ k" and hi: "n * 2 ^ k < 2 ^ 54 * d" by simp_all
  show ?thesis
  proof (cases "n * 2 ^ k div d < 2 ^ 53")
    case True
    then have "n * 2 ^ k < 2 ^ 53 * d" using d by (simp add: int_div_less_iff)
    moreover have "fl_exp n d = - int k" using True by (simp add: fl_exp_def e)
    then have "fl n d = (round_half_even (n * 2 ^ k) d, - int k)" using n by (simp add: fl_def)
    ultimately show ?thesis using lo that by blast
  next
    case False
    then have ge: "2 ^ 53 * d \<le> n * 2 ^ k" using d by (simp add: int_div_less_iff)
    obtain j where j: "k = Suc j" using k by (cases k) auto
    have "fl_exp n d = - int j" using False
      by (simp add: fl_exp_def e Let_def) (simp add: j)
    then have "fl n d = (round_half_even (n * 2 ^ j) d, - int j)" using n by (simp add: fl_def)
    moreover have "2 ^ 52 * d \<le> n * 2 ^ j" "n * 2 ^ j < 2 ^ 53 * d" using ge hi by (simp_all add: j)
    ultimately show ?thesis using that by blast
  qed
qed

text \<open>For values up to \<open>2 ^ 44\<close> at least eight bits are left for the fraction.\<close>

lemma fl_approx:
  assumes n: "0 < n" and d: "0 < d" and small: "n < 2 ^ 44 * d"
  obtains m k where "fl n d = (m, - int k)" and "256 \<le> (2 :: int) ^ k"
    and "2 * \<bar>m * d - n * 2 ^ k\<bar> \<le> d"
    and "m = round_half_even (n * 2 ^ k) d" and "n * 2 ^ k < 2 ^ 53 * d"
proof -
  have "n < 2 ^ 52 * d" using small d by simp
  with n d obtain k where k: "fl n d = (round_half_even (n * 2 ^ k) d, - int k)"
    "2 ^ 52 * d \<le> n * 2 ^ k" "n * 2 ^ k < 2 ^ 53 * d"
    by (rule fl_shape)
  have "n * 2 ^ k < 2 ^ 44 * d * 2 ^ k" using small by simp
  with k(2) have "2 ^ 52 * d < 2 ^ 44 * d * 2 ^ k" by (rule le_less_trans)
  then have "2 ^ 52 * d < (2 ^ 44 * 2 ^ k) * d" by (simp only: ac_simps)
  then have "(2 :: int) ^ 52 < 2 ^ 44 * 2 ^ k" using d by (simp only: mult_less_cancel_right_pos)
  then have "256 \<le> (2 :: int) ^ k" by simp
  with k d show ?thesis using that round_half_even_error by blast
qed

lemma js_floor_frac: "js_floor (m, - int k) = m div 2 ^ k"
  by (simp add: js_floor_def)

lemma js_round_frac: "js_round (m, - int k) = (2 * m + 2 ^ k) div (2 * 2 ^ k)"
  by (simp add: js_round_def)

lemma div_between: "0 < (K :: int) \<Longrightarrow> N * K \<le> m \<Longrightarrow> m < (N + 1) * K \<Longrightarrow> m div K = N"
  by (rule int_div_pos_eq [of _ _ _ "m - N * K"]) (simp_all add: algebra_simps)

end
