(* ===== verification/Kyc.thy ===== *)
theory Kyc
  imports Calendar Coins Js_Number Samples
begin

text \<open>
  The KYC gate and the tax on winnings (src/shared/services/kyc.service.ts, tds.ts): the
  value of a user's prizes in the financial year, the decision whether the user may claim,
  and the 30 per cent deduction, which is a product of doubles rounded to the nearest paisa.
\<close>

section \<open>Tax deducted at source\<close>

definition TDS_RATE :: double where
  "TDS_RATE = fl 3 10"

definition computeTds194BA :: "paise \<Rightarrow> paise" where
  "computeTds194BA finalAmountPaise =
     (if finalAmountPaise \<le> 0 then 0 else js_round (js_mult (js_int finalAmountPaise) TDS_RATE))"

section \<open>The gate\<close>

record kyc_result =
  kr_status :: kyc_status
  kr_panLast4 :: "string option"
  kr_verifiedAt :: "date option"

definition getKycStatus :: "oid \<Rightarrow> db \<Rightarrow> kyc_result" where
  "getKycStatus userId s =
     (case findOne (\<lambda>u. u_id u = userId) (users s) of
        None \<Rightarrow> \<lparr>kr_status = K_NONE, kr_panLast4 = None, kr_verifiedAt = None\<rparr>
      | Some user \<Rightarrow> \<lparr>kr_status = kyc_status (u_kyc user), kr_panLast4 = kyc_panLast4 (u_kyc user),
                      kr_verifiedAt = kyc_verifiedAt (u_kyc user)\<rparr>)"

record fy_prizes =
  fy_start :: date
  fy_end :: date
  fy_totalPaise :: paise
  fy_winnerCount :: int

definition counts_for_fy :: "oid \<Rightarrow> date \<Rightarrow> date \<Rightarrow> prize_winner \<Rightarrow> bool" where
  "counts_for_fy userId start end' w \<longleftrightarrow> w_userId w = userId \<and>
     w_payoutStatus w \<in> {W_PENDING, W_RELEASED} \<and> start \<le> w_createdAt w \<and> w_createdAt w \<le> end'"

text \<open>The loop that adds the amounts up; an absent amount counts as 0.\<close>

fun sum_amounts :: "paise \<Rightarrow> prize_winner list \<Rightarrow> paise" where
  "sum_amounts totalPaise [] = totalPaise"
| "sum_amounts totalPaise (r # rows) = sum_amounts (totalPaise + or_default (w_finalAmount r) 0) rows"

definition cumulativeFyPrizeValue :: "dayjs \<Rightarrow> oid \<Rightarrow> date \<Rightarrow> db \<Rightarrow> fy_prizes" where
  "cumulativeFyPrizeValue dj userId now s =
     (let (start, end') = currentFyBoundsIst dj now;
          rows = find_docs (counts_for_fy userId start end') (prize_winners s)
      in \<lparr>fy_start = start, fy_end = end', fy_totalPaise = sum_amounts 0 rows,
          fy_winnerCount = int (length rows)\<rparr>)"

record gate_decision =
  gd_allowed :: bool
  gd_thresholdPaise :: paise
  gd_cumulativePaise :: paise
  gd_kycStatus :: kyc_status

definition evaluateGate :: "dayjs \<Rightarrow> oid \<Rightarrow> date \<Rightarrow> db \<Rightarrow> gate_decision" where
  "evaluateGate dj userId now s =
     (let user = findOne (\<lambda>u. u_id u = userId) (users s);
          cfg = findOne (\<lambda>c. cfg_key c = ''default'') (app_configs s);
          cumulative = cumulativeFyPrizeValue dj userId now s;
          thresholdPaise = or_default (map_option cfg_kycThresholdAmount cfg) 1000000;
          kycStatus = or_default (map_option (kyc_status \<circ> u_kyc) user) K_NONE;
          overThreshold = fy_totalPaise cumulative > thresholdPaise;
          verified = (kycStatus = K_VERIFIED)
      in \<lparr>gd_allowed = \<not> (overThreshold \<and> \<not> verified), gd_thresholdPaise = thresholdPaise,
          gd_cumulativePaise = fy_totalPaise cumulative, gd_kycStatus = kycStatus\<rparr>)"

section \<open>Rounding\<close>

lemma TDS_RATE_value: "TDS_RATE = (5404319552844595, - 54)"
  unfolding TDS_RATE_def by code_simp

lemma tds_div:
  assumes m: "10 * m \<le> 3 * x + 5" "3 * x - 9 < 10 * m"
    and half: "(r :: int) = 0 \<Longrightarrow> 10 * m = 3 * x"
    and x: "3 * x + 5 * K = 10 * (N * K) + r * K" and r: "0 \<le> r" "r \<le> 9" and K: "256 \<le> (K :: int)"
  shows "(2 * m + K) div (2 * K) = N"
proof (rule div_between)
  show "0 < 2 * K" using K by simp
  have z: "r * K \<le> 9 * K" "r \<noteq> 0 \<Longrightarrow> K \<le> r * K" using r K by simp_all
  have "2 * (N * K) \<le> 2 * m + K"
  proof (cases "r = 0")
    case True
    then show ?thesis using half x by simp
  next
    case False
    then show ?thesis using m z(2) x K by linarith
  qed
  then show "N * (2 * K) \<le> 2 * m + K" by (simp add: algebra_simps)
  have "2 * m + K < 2 * (N * K) + 2 * K" using m z(1) x K by linarith
  then show "2 * m + K < (N + 1) * (2 * K)" by (simp add: algebra_simps)
qed

lemma computeTds_pos:
  assumes "0 < t" and "t < 2 ^ 44"
  shows "computeTds194BA t = (3 * t + 5) div 10"
proof -
  let ?T = "5404319552844595 :: int"
  have "0 < t * ?T" "(0 :: int) < 2 ^ 54" "t * ?T < 2 ^ 44 * 2 ^ 54" using assms by simp_all
  then obtain m k where mk: "fl (t * ?T) (2 ^ 54) = (m, - int k)" "256 \<le> (2 :: int) ^ k"
    "2 * \<bar>m * 2 ^ 54 - t * ?T * 2 ^ k\<bar> \<le> 2 ^ 54" "m = round_half_even (t * ?T * 2 ^ k) (2 ^ 54)"
    "t * ?T * 2 ^ k < 2 ^ 53 * 2 ^ 54"
    by (rule fl_approx)
  define K x where "K = (2 :: int) ^ k" and "x = t * K"
  have K: "256 \<le> K" using mk(2) by (simp add: K_def)
  have x0: "0 \<le> x" using assms(1) K by (simp add: x_def)
  have prod: "t * ?T * 2 ^ k = ?T * x" by (simp add: x_def K_def)
  have err: "2 * \<bar>m * 2 ^ 54 - ?T * x\<bar> \<le> 2 ^ 54" "?T * x < 2 ^ 53 * 2 ^ 54"
    using mk(3,5) by (simp_all only: prod)
  have N: "3 * t + 5 = 10 * ((3 * t + 5) div 10) + (3 * t + 5) mod 10" by simp
  have "(2 * m + K) div (2 * K) = (3 * t + 5) div 10"
  proof (rule tds_div [where x = x and r = "(3 * t + 5) mod 10"])
    show "10 * m \<le> 3 * x + 5" "3 * x - 9 < 10 * m" using err x0 by (simp_all add: abs_le_iff)
    have "(3 * t + 5) * K = (10 * ((3 * t + 5) div 10) + (3 * t + 5) mod 10) * K"
      using N by (rule arg_cong)
    then show xK: "3 * x + 5 * K = 10 * ((3 * t + 5) div 10 * K) + (3 * t + 5) mod 10 * K"
      unfolding x_def distrib_right by (simp only: mult.assoc)
    assume r: "(3 * t + 5) mod 10 = 0"
    have "2 dvd K" using K by (cases k) (simp_all add: K_def)
    then obtain K' where K': "K = 2 * K'" by blast
    define M where "M = (3 * t + 5) div 10 * K - K'"
    have M: "10 * M = 3 * x" using xK r by (simp add: M_def K')
    have "2 * \<bar>M * 2 ^ 54 - ?T * x\<bar> < 2 ^ 54" using M err(2) x0 by (simp add: abs_less_iff)
    then have "round_half_even (?T * x) (2 ^ 54) = M" by (intro round_half_even_exact) simp_all
    then show "10 * m = 3 * x" using M mk(4) by (simp only: prod)
  qed (use K in simp_all)
  moreover have "computeTds194BA t = (2 * m + K) div (2 * K)"
    using assms(1) mk(1)
    by (simp add: computeTds194BA_def TDS_RATE_value js_mult_def js_int_def js_round_frac K_def)
  ultimately show ?thesis by simp
qed

text \<open>C0: the deduction is 30 per cent rounded half up to the paisa, for every amount below
  \<open>2 ^ 44\<close> paise, although the rate 0.3 is not a double: the error of the literal never
  reaches a rounding boundary. It is positive from two paise on and never more than the prize.\<close>

theorem computeTds194BA_value:
  assumes "t < 2 ^ 44"
  shows "computeTds194BA t = (if t \<le> 0 then 0 else (3 * t + 5) div 10) \<and>
    0 \<le> computeTds194BA t \<and> (2 \<le> t \<longrightarrow> 0 < computeTds194BA t) \<and> (0 \<le> t \<longrightarrow> computeTds194BA t \<le> t)"
proof (cases "t \<le> 0")
  case True
  then show ?thesis by (simp add: computeTds194BA_def)
next
  case False
  then have "computeTds194BA t = (3 * t + 5) div 10" using assms by (intro computeTds_pos) simp_all
  moreover have "0 \<le> (3 * t + 5) div 10" "2 \<le> t \<longrightarrow> 0 < (3 * t + 5) div 10" "(3 * t + 5) div 10 \<le> t"
    using False int_div_less_iff [of 10 "3 * t + 5" 1] int_div_less_iff [of 10 "3 * t + 5" "t + 1"]
    by (simp_all add: div_int_pos_iff) linarith
  ultimately show ?thesis using False by simp
qed

theorem computeTds194BA_value_witness: "computeTds194BA 33333 = 10000"
  using computeTds194BA_value [of 33333] by simp

section \<open>Cumulative prizes\<close>

lemma sum_amounts_eq: "sum_amounts acc rows = acc + sum_list (map (\<lambda>w. or_default (w_finalAmount w) 0) rows)"
  by (induction rows arbitrary: acc) simp_all

text \<open>the gate refuses exactly the users who are not KYC-verified and whose prizes of the
  financial year, those pending or released and no others, exceed the threshold in force.\<close>

theorem evaluateGate_iff:
  "gd_allowed (evaluateGate dj uid now s) \<longleftrightarrow>
     (\<exists>u. findOne (\<lambda>u. u_id u = uid) (users s) = Some u \<and> kyc_status (u_kyc u) = K_VERIFIED) \<or>
     sum_list (map (\<lambda>w. or_default (w_finalAmount w) 0)
       (filter (\<lambda>w. w_userId w = uid \<and> (w_payoutStatus w = W_PENDING \<or> w_payoutStatus w = W_RELEASED) \<and>
          fst (currentFyBoundsIst dj now) \<le> w_createdAt w \<and> w_createdAt w \<le> snd (currentFyBoundsIst dj now))
        (prize_winners s)))
     \<le> (case findOne (\<lambda>c. cfg_key c = ''default'') (app_configs s) of
          None \<Rightarrow> 1000000 | Some c \<Rightarrow> cfg_kycThresholdAmount c)"
proof -
  have c: "counts_for_fy uid a b = (\<lambda>w. w_userId w = uid \<and> (w_payoutStatus w = W_PENDING \<or> w_payoutStatus w = W_RELEASED) \<and>
      a \<le> w_createdAt w \<and> w_createdAt w \<le> b)" for a b
    by (auto simp: counts_for_fy_def fun_eq_iff)
  show ?thesis
    by (cases "findOne (\<lambda>u. u_id u = uid) (users s)"; cases "findOne (\<lambda>c. cfg_key c = ''default'') (app_configs s)";
        cases "currentFyBoundsIst dj now")
      (auto simp: evaluateGate_def cumulativeFyPrizeValue_def sum_amounts_eq Let_def find_docs_def c not_less)
qed

end
