(* ===== verification/Redeem_Codes.thy ===== *)
theory Redeem_Codes
  imports Posts Kyc "HOL-Library.Multiset"
begin

text \<open>
  Gift codes (src/modules/redeem-codes): parsing and uploading a batch, publishing codes to a
  post, the first-come-first-served claim with its KYC gate and tax settlement, the
  self-declared redemption, the hourly reconciliation and the administrative void.

  The CSV parser, the envelope encryptor and the HMAC are parameters: the records a parser
  returned, \<open>encryptField\<close> (indexed by the row, because every call uses a fresh data key) and
  \<open>decryptField\<close>, which may fail, and \<open>hmac\<close>. Codes are ASCII strings.
\<close>

section \<open>Parsing an upload\<close>

datatype skip_reason = DUPLICATE_IN_FILE | INVALID_FORMAT | INVALID_DENOMINATION | DUPLICATE_IN_DB

record raw_row =
  raw_code :: "string option"
  raw_denomination :: "string option"

record parsed_row =
  pr_rowNumber :: nat
  pr_code :: string

record upload_skip =
  sk_row :: nat
  sk_code :: string
  sk_reason :: skip_reason

definition DEFAULT_MAX_ROWS :: nat where
  "DEFAULT_MAX_ROWS = 10000"

definition MAX_CODE_LENGTH :: nat where
  "MAX_CODE_LENGTH = 64"

text \<open>\<open>trim\<close>, \<open>toUpperCase\<close> and \<open>parseInt\<close> on ASCII strings.\<close>

definition js_space :: "char \<Rightarrow> bool" where
  "js_space c \<longleftrightarrow> (let n = (of_char c :: nat) in n = 32 \<or> (9 \<le> n \<and> n \<le> 13))"

definition js_trim :: "string \<Rightarrow> string" where
  "js_trim str = rev (dropWhile js_space (rev (dropWhile js_space str)))"

definition js_upper :: "string \<Rightarrow> string" where
  "js_upper str = map (\<lambda>c. let n = (of_char c :: nat) in
     if 97 \<le> n \<and> n \<le> 122 then char_of (n - 32) else c) str"

definition is_digit :: "char \<Rightarrow> bool" where
  "is_digit c \<longleftrightarrow> 48 \<le> (of_char c :: nat) \<and> (of_char c :: nat) \<le> 57"

definition digits_value :: "string \<Rightarrow> int" where
  "digits_value ds = foldl (\<lambda>acc c. acc * 10 + (of_char c - 48)) 0 ds"

text \<open>\<open>None\<close> is NaN. Whatever follows the digits is ignored.\<close>

definition js_parseInt :: "string \<Rightarrow> int option" where
  "js_parseInt str =
     (let t = dropWhile js_space str;
          neg = (t \<noteq> [] \<and> hd t = CHR ''-'');
          u = (if t \<noteq> [] \<and> (hd t = CHR ''-'' \<or> hd t = CHR ''+'') then tl t else t);
          ds = takeWhile is_digit u
      in if ds = [] then None else Some (if neg then - digits_value ds else digits_value ds))"

text \<open>The callback of \<open>forEach\<close>: row number, and the accumulators valid, skipped, seenInFile.\<close>

fun parse_rows ::
  "paise \<Rightarrow> nat \<Rightarrow> raw_row list \<Rightarrow> parsed_row list \<Rightarrow> upload_skip list \<Rightarrow> string list
   \<Rightarrow> parsed_row list \<times> upload_skip list" where
  "parse_rows batchDenomination i [] valid skipped seenInFile = (valid, skipped)"
| "parse_rows batchDenomination i (raw # records) valid skipped seenInFile =
     (let rowNumber = i + 1;
          codeRaw = or_default (raw_code raw) [];
          denomRaw = or_default (raw_denomination raw) [];
          code = js_upper (js_trim codeRaw);
          denom = js_parseInt denomRaw
      in if code = [] \<or> length code > MAX_CODE_LENGTH
         then parse_rows batchDenomination rowNumber records valid
           (skipped @ [\<lparr>sk_row = rowNumber, sk_code = codeRaw, sk_reason = INVALID_FORMAT\<rparr>]) seenInFile
         else if denom = None \<or> the denom \<le> 0
         then parse_rows batchDenomination rowNumber records valid
           (skipped @ [\<lparr>sk_row = rowNumber, sk_code = code, sk_reason = INVALID_FORMAT\<rparr>]) seenInFile
         else if the denom \<noteq> batchDenomination
         then parse_rows batchDenomination rowNumber records valid
           (skipped @ [\<lparr>sk_row = rowNumber, sk_code = code, sk_reason = INVALID_DENOMINATION\<rparr>]) seenInFile
         else if code \<in> set seenInFile
         then parse_rows batchDenomination rowNumber records valid
           (skipped @ [\<lparr>sk_row = rowNumber, sk_code = code, sk_reason = DUPLICATE_IN_FILE\<rparr>]) seenInFile
         else parse_rows batchDenomination rowNumber records
           (valid @ [\<lparr>pr_rowNumber = rowNumber, pr_code = code\<rparr>]) skipped (code # seenInFile))"

definition parseRedeemCodeCsv ::
  "raw_row list \<Rightarrow> paise \<Rightarrow> nat \<Rightarrow> app_error + (parsed_row list \<times> upload_skip list)" where
  "parseRedeemCodeCsv records batchDenomination maxRows =
     (if length records > maxRows then Inl (InternalError ''INTERNAL'')
      else Inr (parse_rows batchDenomination 0 records [] [] []))"

section \<open>Uploading a batch\<close>

record encrypted_row =
  er_rowNumber :: nat
  er_code :: string
  er_codeHash :: string
  er_field :: enc_field

definition computeCodeHash :: "(string \<Rightarrow> string \<Rightarrow> string) \<Rightarrow> string \<Rightarrow> string \<Rightarrow> string" where
  "computeCodeHash hmac normalizedCode secret = hmac secret normalizedCode"

fun encryptParsedRows ::
  "(nat \<Rightarrow> string \<Rightarrow> enc_field option) \<Rightarrow> (string \<Rightarrow> string \<Rightarrow> string) \<Rightarrow> string \<Rightarrow> parsed_row list
   \<Rightarrow> encrypted_row list option" where
  "encryptParsedRows encryptField hmac hashSecret [] = Some []"
| "encryptParsedRows encryptField hmac hashSecret (row # rows) =
     (case encryptField (pr_rowNumber row) (pr_code row) of
        None \<Rightarrow> None
      | Some field \<Rightarrow>
          map_option (Cons \<lparr>er_rowNumber = pr_rowNumber row, er_code = pr_code row,
              er_codeHash = computeCodeHash hmac (pr_code row) hashSecret, er_field = field\<rparr>)
            (encryptParsedRows encryptField hmac hashSecret rows))"

record upload_input =
  ui_supplierName :: string
  ui_supplierInvoiceNumber :: "string option"
  ui_supplierInvoiceUrl :: "string option"
  ui_denomination :: "paise option"
  ui_notes :: "string option"

record upload_result =
  ur_batchId :: oid
  ur_inserted :: int
  ur_skipped :: "upload_skip list"

definition code_row :: "oid \<Rightarrow> paise \<Rightarrow> date \<Rightarrow> oid \<Rightarrow> encrypted_row \<Rightarrow> redeem_code" where
  "code_row batchId denomination now newId row =
     \<lparr>rc_id = newId, rc_createdAt = now, rc_batchId = batchId, rc_denomination = denomination,
      rc_tier = PUBLIC, rc_codeCt = ef_ct (er_field row), rc_codeIv = Some (ef_iv (er_field row)),
      rc_codeTag = Some (ef_tag (er_field row)), rc_codeDekEnc = Some (ef_dekEnc (er_field row)),
      rc_codeHash = er_codeHash row, rc_status = RC_AVAILABLE, rc_postId = None,
      rc_publishedAt = None, rc_firstCopiedBy = None, rc_firstCopiedAt = None, rc_copyCount = 0,
      rc_claimedBy = None, rc_claimedAt = None, rc_voidedReason = None\<rparr>"

fun insert_rows ::
  "oid \<Rightarrow> paise \<Rightarrow> date \<Rightarrow> (nat \<Rightarrow> oid) \<Rightarrow> encrypted_row list \<Rightarrow> int \<Rightarrow> upload_skip list \<Rightarrow> redeem_code list
   \<Rightarrow> int \<times> upload_skip list \<times> redeem_code list" where
  "insert_rows batchId denomination now ids [] inserted skipped codes = (inserted, skipped, codes)"
| "insert_rows batchId denomination now ids (row # rows) inserted skipped codes =
     (case create code_clash (code_row batchId denomination now (ids (er_rowNumber row)) row) codes of
        Inl DuplicateKey \<Rightarrow>
          insert_rows batchId denomination now ids rows inserted
            (skipped @ [\<lparr>sk_row = er_rowNumber row, sk_code = er_code row, sk_reason = DUPLICATE_IN_DB\<rparr>]) codes
      | Inr codes' \<Rightarrow> insert_rows batchId denomination now ids rows (inserted + 1) skipped codes')"

definition uploadBatch ::
  "(nat \<Rightarrow> string \<Rightarrow> enc_field option) \<Rightarrow> (string \<Rightarrow> string \<Rightarrow> string) \<Rightarrow> string \<Rightarrow> raw_row list
   \<Rightarrow> upload_input \<Rightarrow> oid \<Rightarrow> date \<Rightarrow> oid \<Rightarrow> (nat \<Rightarrow> oid) \<Rightarrow> db \<Rightarrow> (app_error + upload_result) \<times> db" where
  "uploadBatch encryptField hmac hashSecret records inp actorId now batchId ids s =
     (let denomination = or_default (ui_denomination inp) 5000
      in case parseRedeemCodeCsv records denomination DEFAULT_MAX_ROWS of
           Inl e \<Rightarrow> (Inl e, s)
         | Inr (valid, skipped) \<Rightarrow>
             if valid = [] then (Inl ValidationError, s)
             else (case encryptParsedRows encryptField hmac hashSecret valid of
                 None \<Rightarrow> (Inl (InternalError ''INTERNAL''), s)
               | Some encrypted \<Rightarrow>
                   let batch = \<lparr>b_id = batchId, b_createdAt = now, b_uploadedBy = actorId,
                         b_supplierName = ui_supplierName inp,
                         b_supplierInvoiceNumber = ui_supplierInvoiceNumber inp,
                         b_supplierInvoiceUrl = ui_supplierInvoiceUrl inp,
                         b_denomination = denomination, b_count = 0, b_totalValue = None,
                         b_notes = ui_notes inp, b_status = B_STAGED\<rparr>;
                       (inserted, skipped', codes) =
                         insert_rows batchId denomination now ids encrypted 0 skipped (redeem_codes s);
                       batches = snd (updateOne (\<lambda>b. b_id b = batchId)
                         (\<lambda>b. b\<lparr>b_count := inserted, b_totalValue := Some (inserted * denomination)\<rparr>)
                         (code_batches s @ [batch]))
                   in (Inr \<lparr>ur_batchId = batchId, ur_inserted = inserted, ur_skipped = skipped'\<rparr>,
                       s\<lparr>redeem_codes := codes, code_batches := batches\<rparr>)))"

section \<open>Publishing, voiding, listing\<close>

definition publish_flip :: "oid \<Rightarrow> tier \<Rightarrow> date \<Rightarrow> redeem_code \<Rightarrow> redeem_code" where
  "publish_flip postId tier now c =
     c\<lparr>rc_status := RC_PUBLISHED, rc_postId := Some postId, rc_tier := tier, rc_publishedAt := Some now\<rparr>"

fun publish_loop :: "nat \<Rightarrow> oid \<Rightarrow> oid \<Rightarrow> tier \<Rightarrow> date \<Rightarrow> redeem_code list \<Rightarrow> int \<times> redeem_code list" where
  "publish_loop 0 batchId postId tier now codes = (0, codes)"
| "publish_loop (Suc n) batchId postId tier now codes =
     (case findOneAndUpdate (\<lambda>c. rc_batchId c = batchId \<and> rc_status c = RC_AVAILABLE)
             (publish_flip postId tier now) codes of
        (None, codes') \<Rightarrow> (0, codes')
      | (Some _, codes') \<Rightarrow>
          (case publish_loop n batchId postId tier now codes' of (k, codes'') \<Rightarrow> (k + 1, codes'')))"

record publish_input =
  pb_batchId :: oid
  pb_postId :: oid
  pb_count :: int

record publish_result =
  pbr_publishedCount :: int
  pbr_batchExhausted :: bool

definition publishBatchToPost :: "publish_input \<Rightarrow> date \<Rightarrow> db \<Rightarrow> (app_error + publish_result) \<times> db" where
  "publishBatchToPost inp now s =
     (case findOne (\<lambda>p. p_id p = pb_postId inp) (posts s) of
        None \<Rightarrow> (Inl ValidationError, s)
      | Some post \<Rightarrow>
          (case findOne (\<lambda>b. b_id b = pb_batchId inp) (code_batches s) of
             None \<Rightarrow> (Inl ValidationError, s)
           | Some _ \<Rightarrow>
               let (publishedCount, codes) =
                     publish_loop (nat (pb_count inp)) (pb_batchId inp) (pb_postId inp) (p_tier post) now (redeem_codes s);
                   remaining = count_docs (\<lambda>c. rc_batchId c = pb_batchId inp \<and> rc_status c = RC_AVAILABLE) codes;
                   batchExhausted = (remaining = 0);
                   nextStatus = (if batchExhausted \<and> publishedCount > 0 then B_EXHAUSTED else B_LIVE);
                   batches = snd (updateOne (\<lambda>b. b_id b = pb_batchId inp) (\<lambda>b. b\<lparr>b_status := nextStatus\<rparr>) (code_batches s))
               in (Inr \<lparr>pbr_publishedCount = publishedCount, pbr_batchExhausted = batchExhausted\<rparr>,
                   s\<lparr>redeem_codes := codes, code_batches := batches\<rparr>)))"

definition voidCode :: "oid \<Rightarrow> string \<Rightarrow> db \<Rightarrow> db" where
  "voidCode codeId reason s =
     s\<lparr>redeem_codes := snd (updateOne (\<lambda>c. rc_id c = codeId)
        (\<lambda>c. c\<lparr>rc_status := RC_VOID, rc_voidedReason := Some reason\<rparr>) (redeem_codes s))\<rparr>"

record codes_filter =
  cf_status :: "code_status option"
  cf_batchId :: "oid option"
  cf_postId :: "oid option"

definition listCodes :: "codes_filter \<Rightarrow> int \<Rightarrow> db \<Rightarrow> redeem_code list" where
  "listCodes f limit s =
     take (nat (max 1 (min 200 limit)))
       (sort_key (\<lambda>c. (- rc_createdAt c, - int (rc_id c)))
         (find_docs (\<lambda>c. (case cf_status f of None \<Rightarrow> True | Some st \<Rightarrow> rc_status c = st) \<and>
            (case cf_batchId f of None \<Rightarrow> True | Some b \<Rightarrow> rc_batchId c = b) \<and>
            (case cf_postId f of None \<Rightarrow> True | Some p \<Rightarrow> rc_postId c = Some p)) (redeem_codes s)))"

record code_item =
  li_id :: oid
  li_denomination :: paise
  li_status :: code_status

definition listForPost :: "oid \<Rightarrow> oid \<Rightarrow> db \<Rightarrow> app_error + code_item list" where
  "listForPost postId userId s =
     (case findByUserPost userId postId (post_completions s) of
        None \<Rightarrow> Inl (ForbiddenError ''POST_NOT_COMPLETED'')
      | Some _ \<Rightarrow>
          Inr (map (\<lambda>c. \<lparr>li_id = rc_id c, li_denomination = rc_denomination c, li_status = rc_status c\<rparr>)
            (sort_key (\<lambda>c. (rc_createdAt c, rc_id c))
              (find_docs (\<lambda>c. rc_postId c = Some postId \<and> rc_status c \<noteq> RC_AVAILABLE) (redeem_codes s)))))"

section \<open>Claiming\<close>

definition fcfs_flip :: "oid \<Rightarrow> date \<Rightarrow> redeem_code \<Rightarrow> redeem_code" where
  "fcfs_flip userId now c =
     c\<lparr>rc_status := RC_COPIED, rc_firstCopiedBy := Some userId, rc_firstCopiedAt := Some now,
       rc_copyCount := rc_copyCount c + 1\<rparr>"

definition atomicFcfsClaim :: "oid \<Rightarrow> oid \<Rightarrow> date \<Rightarrow> redeem_code list \<Rightarrow> redeem_code option \<times> redeem_code list" where
  "atomicFcfsClaim codeId userId now codes =
     findOneAndUpdate (\<lambda>c. rc_id c = codeId \<and> rc_status c = RC_PUBLISHED) (fcfs_flip userId now) codes"

record claim_tds =
  ctd_deductedPaise :: paise
  ctd_winnerId :: oid

record claim_result =
  cl_codeId :: oid
  cl_plaintextCode :: string
  cl_denomination :: paise
  cl_tds :: "claim_tds option"

definition claim_check :: "dayjs \<Rightarrow> oid \<Rightarrow> oid \<Rightarrow> date \<Rightarrow> db \<Rightarrow> app_error + user" where
  "claim_check dj codeId userId now s =
     (case findOne (\<lambda>c. rc_id c = codeId) (redeem_codes s) of
        None \<Rightarrow> Inl NotFoundError
      | Some code \<Rightarrow>
          (case rc_postId code of
             None \<Rightarrow> Inl NotFoundError
           | Some postId \<Rightarrow>
               (case findOne (\<lambda>u. u_id u = userId) (users s) of
                  None \<Rightarrow> Inl UnauthorizedError
                | Some user \<Rightarrow>
                    if bl_isBlocked (u_blocked user) then Inl UnauthorizedError
                    else if findByUserPost userId postId (post_completions s) = None
                    then Inl (ForbiddenError ''POST_NOT_COMPLETED'')
                    else if \<not> gd_allowed (evaluateGate dj userId now s) then Inl KycRequiredError
                    else Inr user)))"

definition release_winner :: "string option \<Rightarrow> date \<Rightarrow> prize_winner \<Rightarrow> prize_winner" where
  "release_winner panLast4 now w =
     w\<lparr>w_payoutStatus := W_RELEASED, w_releasedAt := Some now,
       w_panAtPayout := (if truthy_str panLast4 then Some (''XXXXX'' @ the panLast4) else w_panAtPayout w)\<rparr>"

definition winner_pending :: "oid \<Rightarrow> oid \<Rightarrow> prize_winner \<Rightarrow> bool" where
  "winner_pending userId codeId w \<longleftrightarrow>
     w_userId w = userId \<and> w_redeemCodeId w = Some codeId \<and> w_payoutStatus w = W_PENDING"

definition settle_winner ::
  "oid \<Rightarrow> oid \<Rightarrow> string option \<Rightarrow> date \<Rightarrow> prize_winner list \<Rightarrow> claim_tds option \<times> prize_winner list" where
  "settle_winner userId codeId panLast4 now ws =
     (case findOneAndUpdate (winner_pending userId codeId) (release_winner panLast4 now) ws of
        (None, ws') \<Rightarrow> (None, ws')
      | (Some winner, ws') \<Rightarrow>
          (case w_finalAmount winner of
             None \<Rightarrow> (None, ws')
           | Some finalAmount \<Rightarrow>
               let deductedPaise = computeTds194BA finalAmount
               in (Some \<lparr>ctd_deductedPaise = deductedPaise, ctd_winnerId = w_id winner\<rparr>,
                   snd (updateOne (\<lambda>w. w_id w = w_id winner) (\<lambda>w. w\<lparr>w_tdsDeducted := deductedPaise\<rparr>) ws'))))"

text \<open>The transaction: a lost race commits nothing.\<close>

definition claim_tx ::
  "oid \<Rightarrow> oid \<Rightarrow> string option \<Rightarrow> date \<Rightarrow> db \<Rightarrow> (redeem_code \<times> claim_tds option) option \<times> db" where
  "claim_tx codeId userId panLast4 now s =
     (case atomicFcfsClaim codeId userId now (redeem_codes s) of
        (None, _) \<Rightarrow> (None, s)
      | (Some claimed, codes) \<Rightarrow>
          (case settle_winner userId codeId panLast4 now (prize_winners s) of
             (tds, ws) \<Rightarrow> (Some (claimed, tds), s\<lparr>redeem_codes := codes, prize_winners := ws\<rparr>)))"

definition claim_commit ::
  "(enc_field \<Rightarrow> string option) \<Rightarrow> oid \<Rightarrow> oid \<Rightarrow> string option \<Rightarrow> date \<Rightarrow> db \<Rightarrow> (app_error + claim_result) \<times> db" where
  "claim_commit decryptField codeId userId panLast4 now s =
     (case claim_tx codeId userId panLast4 now s of
        (None, s') \<Rightarrow> (Inl (ConflictError ''CODE_TAKEN''), s')
      | (Some (claimed, tds), s') \<Rightarrow>
          (case decryptField \<lparr>ef_ct = rc_codeCt claimed, ef_iv = or_default (rc_codeIv claimed) [],
                 ef_tag = or_default (rc_codeTag claimed) [], ef_dekEnc = or_default (rc_codeDekEnc claimed) []\<rparr> of
             None \<Rightarrow> (Inl (InternalError ''INTERNAL''), s')
           | Some plaintext \<Rightarrow>
               (Inr \<lparr>cl_codeId = rc_id claimed, cl_plaintextCode = plaintext,
                     cl_denomination = rc_denomination claimed, cl_tds = tds\<rparr>, s')))"

definition claim ::
  "dayjs \<Rightarrow> (enc_field \<Rightarrow> string option) \<Rightarrow> oid \<Rightarrow> oid \<Rightarrow> date \<Rightarrow> db \<Rightarrow> (app_error + claim_result) \<times> db" where
  "claim dj decryptField codeId userId now s =
     (case claim_check dj codeId userId now s of
        Inl e \<Rightarrow> (Inl e, s)
      | Inr user \<Rightarrow> claim_commit decryptField codeId userId (kyc_panLast4 (u_kyc user)) now s)"

definition claimed_flip :: "oid \<Rightarrow> date \<Rightarrow> redeem_code \<Rightarrow> redeem_code" where
  "claimed_flip userId now c =
     c\<lparr>rc_status := RC_CLAIMED, rc_claimedBy := Some userId, rc_claimedAt := Some now\<rparr>"

definition markClaimed :: "oid \<Rightarrow> oid \<Rightarrow> date \<Rightarrow> db \<Rightarrow> (app_error + unit) \<times> db" where
  "markClaimed codeId userId now s =
     (case findOneAndUpdate (\<lambda>c. rc_id c = codeId \<and> rc_status c = RC_COPIED \<and> rc_firstCopiedBy c = Some userId)
             (claimed_flip userId now) (redeem_codes s) of
        (None, _) \<Rightarrow> (Inl (ConflictError ''CODE_NOT_OWNED''), s)
      | (Some _, codes) \<Rightarrow> (Inr (), s\<lparr>redeem_codes := codes\<rparr>))"

section \<open>Reconciliation\<close>

definition DEFAULT_CUTOFF_MS :: int where
  "DEFAULT_CUTOFF_MS = 24 * 60 * 60 * 1000"

fun reconcile_loop :: "date \<Rightarrow> redeem_code list \<Rightarrow> int \<Rightarrow> redeem_code list \<Rightarrow> int \<times> redeem_code list" where
  "reconcile_loop now [] reconciled codes = (reconciled, codes)"
| "reconcile_loop now (row # stuck) reconciled codes =
     (case rc_firstCopiedBy row of
        None \<Rightarrow> reconcile_loop now stuck reconciled codes
      | Some u \<Rightarrow>
          (case updateOne (\<lambda>c. rc_id c = rc_id row \<and> rc_status c = RC_COPIED) (claimed_flip u now) codes of
             (modifiedCount, codes') \<Rightarrow>
               reconcile_loop now stuck (if modifiedCount = 1 then reconciled + 1 else reconciled) codes'))"

definition stuck_code :: "date \<Rightarrow> redeem_code \<Rightarrow> bool" where
  "stuck_code threshold c \<longleftrightarrow> rc_status c = RC_COPIED \<and>
     (case rc_firstCopiedAt c of None \<Rightarrow> False | Some t \<Rightarrow> t \<le> threshold)"

definition reconcileCopiedCodes :: "date \<Rightarrow> int option \<Rightarrow> db \<Rightarrow> int \<times> db" where
  "reconcileCopiedCodes now cutoffOpt s =
     (let cutoffMs = or_default cutoffOpt DEFAULT_CUTOFF_MS;
          threshold = now - cutoffMs;
          stuck = find_docs (stuck_code threshold) (redeem_codes s);
          (reconciled, codes) = reconcile_loop now stuck 0 (redeem_codes s)
      in (reconciled, s\<lparr>redeem_codes := codes\<rparr>))"

section \<open>The life of a code\<close>

text \<open>
  A code is available, then published, then copied by the first user who claims it, then
  claimed by that user; it can be voided at any time. Every operation moves a code forward
  in this order and never changes who copied it first.
\<close>

fun code_rank :: "code_status \<Rightarrow> nat" where
  "code_rank RC_AVAILABLE = 0"
| "code_rank RC_PUBLISHED = 1"
| "code_rank RC_COPIED = 2"
| "code_rank RC_CLAIMED = 3"
| "code_rank RC_EXPIRED = 4"
| "code_rank RC_VOID = 5"

lemma code_rank_le: "code_rank st \<le> 5"
  by (cases st) simp_all

definition code_ok :: "redeem_code \<Rightarrow> bool" where
  "code_ok c \<longleftrightarrow>
     (rc_status c = RC_AVAILABLE \<longrightarrow> rc_postId c = None) \<and>
     (rc_status c = RC_PUBLISHED \<longrightarrow> rc_postId c \<noteq> None) \<and>
     (rc_status c \<in> {RC_AVAILABLE, RC_PUBLISHED} \<longrightarrow> rc_firstCopiedBy c = None) \<and>
     (rc_status c \<in> {RC_COPIED, RC_CLAIMED} \<longrightarrow> rc_firstCopiedBy c \<noteq> None) \<and>
     (rc_status c = RC_CLAIMED \<longrightarrow> rc_claimedBy c = rc_firstCopiedBy c) \<and>
     (rc_claimedBy c \<noteq> None \<longrightarrow> rc_claimedBy c = rc_firstCopiedBy c) \<and>
     rc_copyCount c = (if rc_firstCopiedBy c = None then 0 else 1)"

definition code_evolves :: "redeem_code \<Rightarrow> redeem_code \<Rightarrow> bool" where
  "code_evolves c c' \<longleftrightarrow> rc_id c' = rc_id c \<and> rc_batchId c' = rc_batchId c \<and>
     rc_codeHash c' = rc_codeHash c \<and> rc_denomination c' = rc_denomination c \<and>
     code_rank (rc_status c) \<le> code_rank (rc_status c') \<and>
     (code_ok c \<longrightarrow> code_ok c' \<and> (rc_firstCopiedBy c \<noteq> None \<longrightarrow> rc_firstCopiedBy c' = rc_firstCopiedBy c))"

lemma code_evolves_refl [simp]: "code_evolves c c"
  by (simp add: code_evolves_def)

lemma code_evolves_trans: "code_evolves a b \<Longrightarrow> code_evolves b c \<Longrightarrow> code_evolves a c"
  by (auto simp: code_evolves_def)

lemma all_evolve_trans:
  "list_all2 code_evolves xs ys \<Longrightarrow> list_all2 code_evolves ys zs \<Longrightarrow> list_all2 code_evolves xs zs"
  using list_all2_trans [of code_evolves code_evolves code_evolves xs ys zs] code_evolves_trans by blast

text \<open>What an update of one code has to satisfy, and what follows for the collection.\<close>

locale code_update =
  fixes guard :: "redeem_code \<Rightarrow> bool" and upd :: "redeem_code \<Rightarrow> redeem_code"
  assumes evolves: "guard c \<Longrightarrow> code_evolves c (upd c)"
begin

lemma update_evolves: "list_all2 code_evolves codes (update_first guard upd codes)"
  using evolves by (induction codes) (auto simp: list_all2_same)

end

interpretation publish: code_update "\<lambda>c. rc_batchId c = b \<and> rc_status c = RC_AVAILABLE" "publish_flip p t now"
  for b p t now
  by unfold_locales (auto simp: code_evolves_def publish_flip_def code_ok_def)

interpretation fcfs: code_update "\<lambda>c. rc_id c = i \<and> rc_status c = RC_PUBLISHED" "fcfs_flip u now" for i u now
  by unfold_locales (auto simp: code_evolves_def fcfs_flip_def code_ok_def)

interpretation mark: code_update
  "\<lambda>c. rc_id c = i \<and> rc_status c = RC_COPIED \<and> rc_firstCopiedBy c = Some u" "claimed_flip u now" for i u now
  by unfold_locales (auto simp: code_evolves_def claimed_flip_def code_ok_def)

interpretation void: code_update "\<lambda>c. rc_id c = i"
  "\<lambda>c. c\<lparr>rc_status := RC_VOID, rc_voidedReason := r\<rparr>" for i r
proof unfold_locales
  fix c show "code_evolves c (c\<lparr>rc_status := RC_VOID, rc_voidedReason := r\<rparr>)"
    using code_rank_le [of "rc_status c"] by (simp add: code_evolves_def code_ok_def)
qed

text \<open>The collection after an operation: the codes there were, evolved, and new ones behind.\<close>

definition codes_evolve :: "redeem_code list \<Rightarrow> redeem_code list \<Rightarrow> bool" where
  "codes_evolve xs ys \<longleftrightarrow> (\<exists>zs new. ys = zs @ new \<and> list_all2 code_evolves xs zs \<and> list_all code_ok new)"

lemma codes_evolveI: "list_all2 code_evolves xs ys \<Longrightarrow> codes_evolve xs ys"
  unfolding codes_evolve_def by (rule exI [of _ ys], rule exI [of _ "[]"]) simp

lemma codes_evolve_refl [simp]: "codes_evolve xs xs"
  by (rule codes_evolveI) (simp add: list_all2_same)

lemma codes_evolve_append: "list_all code_ok new \<Longrightarrow> codes_evolve xs (xs @ new)"
  unfolding codes_evolve_def by (rule exI [of _ xs], rule exI [of _ new]) (simp add: list_all2_same)

lemma codes_evolve_trans:
  assumes "codes_evolve xs ys" and "codes_evolve ys zs"
  shows "codes_evolve xs zs"
proof -
  from assms(1) obtain as new where a: "ys = as @ new" "list_all2 code_evolves xs as" "list_all code_ok new"
    unfolding codes_evolve_def by blast
  from assms(2) a(1) obtain bs cs new' where b: "zs = (bs @ cs) @ new'" "list_all2 code_evolves as bs"
    "list_all2 code_evolves new cs" "list_all code_ok new'"
    unfolding codes_evolve_def by (auto simp: list_all2_append1)
  have "list_all2 code_evolves xs bs" by (rule all_evolve_trans [OF a(2) b(2)])
  moreover have "list_all code_ok cs"
    using b(3) a(3) by (auto simp: list_all2_conv_all_nth list_all_length code_evolves_def)
  ultimately show ?thesis unfolding codes_evolve_def using b(1,4)
    by (intro exI [of _ bs] exI [of _ "cs @ new'"]) auto
qed

lemma codes_evolve_elem:
  assumes "codes_evolve xs ys" and "c \<in> set xs"
  obtains c' where "c' \<in> set ys" "code_evolves c c'"
proof -
  obtain zs new where "ys = zs @ new" "list_all2 code_evolves xs zs"
    using assms(1) unfolding codes_evolve_def by blast
  moreover obtain i where "i < length xs" "c = xs ! i" using assms(2) by (auto simp: in_set_conv_nth)
  ultimately show ?thesis by (intro that [of "zs ! i"]) (auto simp: list_all2_conv_all_nth)
qed

lemma codes_evolve_ok:
  assumes "codes_evolve xs ys" and "list_all code_ok xs"
  shows "list_all code_ok ys"
proof -
  obtain zs new where "ys = zs @ new" "list_all2 code_evolves xs zs" "list_all code_ok new"
    using assms(1) unfolding codes_evolve_def by blast
  with assms(2) show ?thesis by (auto simp: list_all2_conv_all_nth list_all_length code_evolves_def nth_append)
qed

lemma keys_evolve: "list_all2 code_evolves xs zs \<Longrightarrow> keys_of code_key zs = keys_of code_key xs"
  by (induction rule: list_all2_induct) (simp_all add: code_evolves_def code_key_def)

section \<open>Operations evolve the codes\<close>

lemma publish_loop_evolves: "list_all2 code_evolves codes (snd (publish_loop n b p t now codes))"
proof (induction n arbitrary: codes)
  case (Suc n)
  let ?q = "\<lambda>c. rc_batchId c = b \<and> rc_status c = RC_AVAILABLE"
  show ?case
  proof (cases "findOne ?q codes")
    case None
    then show ?thesis by (simp add: findOneAndUpdate_def update_first_None list_all2_same)
  next
    case (Some c)
    then have "snd (publish_loop (Suc n) b p t now codes) =
        snd (publish_loop n b p t now (update_first ?q (publish_flip p t now) codes))"
      by (simp add: findOneAndUpdate_def split: prod.splits)
    moreover have "list_all2 code_evolves codes
        (snd (publish_loop n b p t now (update_first ?q (publish_flip p t now) codes)))"
      by (rule all_evolve_trans [OF publish.update_evolves Suc.IH])
    ultimately show ?thesis by (simp only:)
  qed
qed (simp add: list_all2_same)

lemma reconcile_loop_evolves:
  assumes "list_all code_ok codes"
    and "\<And>row c. row \<in> set stuck \<Longrightarrow> c \<in> set codes \<Longrightarrow> rc_id c = rc_id row \<Longrightarrow> rc_status c = RC_COPIED \<Longrightarrow>
      rc_firstCopiedBy c = rc_firstCopiedBy row"
  shows "list_all2 code_evolves codes (snd (reconcile_loop now stuck n codes))"
  using assms
proof (induction stuck arbitrary: n codes)
  case (Cons row stuck)
  show ?case
  proof (cases "rc_firstCopiedBy row")
    case None
    have "list_all2 code_evolves codes (snd (reconcile_loop now stuck n codes))"
      by (rule Cons.IH [OF Cons.prems(1)]) (auto intro: Cons.prems(2))
    then show ?thesis by (simp add: None)
  next
    case (Some u)
    let ?q = "\<lambda>c. rc_id c = rc_id row \<and> rc_status c = RC_COPIED"
    let ?q' = "\<lambda>c. rc_id c = rc_id row \<and> rc_status c = RC_COPIED \<and> rc_firstCopiedBy c = Some u"
    let ?codes = "update_first ?q (claimed_flip u now) codes"
    have eq: "update_first ?q f xs = update_first ?q' f xs"
      if "\<And>c. c \<in> set xs \<Longrightarrow> ?q c \<Longrightarrow> rc_firstCopiedBy c = Some u" for f xs
      using that by (induction xs) auto
    have upd: "?codes = update_first ?q' (claimed_flip u now) codes"
      using Cons.prems(2) [of row] Some by (intro eq) auto
    have ev: "list_all2 code_evolves codes ?codes" unfolding upd by (rule mark.update_evolves)
    have ok: "list_all code_ok ?codes" using codes_evolve_ok [OF codes_evolveI [OF ev] Cons.prems(1)] .
    have same: "rc_firstCopiedBy c = rc_firstCopiedBy row'"
      if "row' \<in> set stuck" "c \<in> set ?codes" "rc_id c = rc_id row'" "rc_status c = RC_COPIED" for row' c
      using that Cons.prems(2) [of row'] by (auto elim!: in_update_firstE simp: claimed_flip_def)
    have "list_all2 code_evolves ?codes (snd (reconcile_loop now stuck m ?codes))" for m
      by (rule Cons.IH [OF ok same])
    then show ?thesis using all_evolve_trans [OF ev] Some by (simp add: updateOne_def)
  qed
qed (simp add: list_all2_same)

lemma insert_rows_evolve:
  "insert_rows b d now ids rows n sk codes = (n', sk', codes') \<Longrightarrow>
   (\<exists>new. codes' = codes @ new \<and> list_all code_ok new \<and> int (length new) = n' - n \<and>
      list_all (\<lambda>c. rc_batchId c = b \<and> rc_denomination c = d \<and> rc_status c = RC_AVAILABLE) new) \<and>
   (unique_on code_key codes \<longrightarrow> unique_on code_key codes') \<and>
   n' + int (length sk') = n + int (length sk) + int (length rows)"
proof (induction rows arbitrary: n sk codes)
  case (Cons row rows)
  let ?row = "code_row b d now (ids (er_rowNumber row)) row"
  show ?case
  proof (cases "create code_clash ?row codes")
    case (Inl e)
    then show ?thesis using Cons by (cases e) auto
  next
    case (Inr ys)
    then have ys: "ys = codes @ [?row]" by (auto simp: create_def split: if_splits)
    have u: "unique_on code_key codes \<longrightarrow> unique_on code_key ys"
      using code_index.create_unique [OF _ Inr] by blast
    from Cons.prems Inr have "insert_rows b d now ids rows (n + 1) sk ys = (n', sk', codes')" by simp
    from Cons.IH [OF this] obtain new where "codes' = ys @ new" "list_all code_ok new"
        "int (length new) = n' - (n + 1)"
        "list_all (\<lambda>c. rc_batchId c = b \<and> rc_denomination c = d \<and> rc_status c = RC_AVAILABLE) new"
        "unique_on code_key ys \<longrightarrow> unique_on code_key codes'"
        "n' + int (length sk') = n + 1 + int (length sk) + int (length rows)"
      by blast
    moreover have "code_ok ?row" "rc_batchId ?row = b" "rc_denomination ?row = d" "rc_status ?row = RC_AVAILABLE"
      by (simp_all add: code_ok_def code_row_def)
    moreover have "n' + int (length sk') = n + int (length sk) + int (length (row # rows))"
      using calculation(6) by simp
    ultimately show ?thesis using u
      by (intro conjI exI [of _ "?row # new"]) (auto simp: ys)
  qed
qed simp

section \<open>The parser\<close>

lemma parse_rows_split:
  "parse_rows d i records valid skipped seen = (valid', skipped') \<Longrightarrow>
   \<exists>v k. valid' = valid @ v \<and> skipped' = skipped @ k \<and>
     mset (map pr_rowNumber v) + mset (map sk_row k) = mset [i + 1 ..< i + 1 + length records] \<and>
     distinct (map pr_code v) \<and> set (map pr_code v) \<inter> set seen = {} \<and>
     (\<forall>r \<in> set v. pr_code r \<noteq> [] \<and> length (pr_code r) \<le> MAX_CODE_LENGTH)"
proof (induction records arbitrary: i valid skipped seen)
  case (Cons raw records)
  let ?code = "js_upper (js_trim (or_default (raw_code raw) []))"
  have rows: "[i + 1 ..< i + 1 + length (raw # records)] = (i + 1) # [i + 2 ..< i + 2 + length records]"
    by (simp add: upt_rec)
  have step: ?case if "parse_rows d (i + 1) records valid (skipped @ [sk]) seen = (valid', skipped')"
    and sk: "sk_row sk = i + 1" for sk
  proof -
    from Cons.IH [OF that(1)] obtain v k where "valid' = valid @ v" "skipped' = (skipped @ [sk]) @ k"
      "mset (map pr_rowNumber v) + mset (map sk_row k) = mset [i + 2 ..< i + 2 + length records]"
      "distinct (map pr_code v)" "set (map pr_code v) \<inter> set seen = {}"
      "\<forall>r \<in> set v. pr_code r \<noteq> [] \<and> length (pr_code r) \<le> MAX_CODE_LENGTH"
      by auto
    then show ?thesis unfolding rows by (intro exI [of _ v] exI [of _ "sk # k"]) (simp add: sk)
  qed
  show ?case
  proof (cases "?code \<noteq> [] \<and> length ?code \<le> MAX_CODE_LENGTH \<and> js_parseInt (or_default (raw_denomination raw) []) = Some d
      \<and> 0 < d \<and> ?code \<notin> set seen")
    case True
    let ?r = "\<lparr>pr_rowNumber = i + 1, pr_code = ?code\<rparr>"
    from True Cons.prems have "parse_rows d (i + 1) records (valid @ [?r]) skipped (?code # seen) = (valid', skipped')"
      by (simp add: Let_def)
    from Cons.IH [OF this] obtain v k where "valid' = (valid @ [?r]) @ v" "skipped' = skipped @ k"
      "mset (map pr_rowNumber v) + mset (map sk_row k) = mset [i + 2 ..< i + 2 + length records]"
      "distinct (map pr_code v)" "set (map pr_code v) \<inter> set (?code # seen) = {}"
      "\<forall>r \<in> set v. pr_code r \<noteq> [] \<and> length (pr_code r) \<le> MAX_CODE_LENGTH"
      by auto
    then show ?thesis using True unfolding rows by (intro exI [of _ "?r # v"] exI [of _ k]) auto
  next
    case False
    then obtain sk where "parse_rows d (i + 1) records valid (skipped @ [sk]) seen = (valid', skipped')" "sk_row sk = i + 1"
      using Cons.prems by (auto simp: Let_def not_le split: if_splits)
    from step [OF this] show ?thesis .
  qed
qed simp

lemma encryptParsedRows_rows:
  "encryptParsedRows enc hmac sec rows = Some es \<Longrightarrow>
   map er_rowNumber es = map pr_rowNumber rows \<and> map er_code es = map pr_code rows \<and>
   (\<forall>e \<in> set es. enc (er_rowNumber e) (er_code e) = Some (er_field e) \<and> er_codeHash e = hmac sec (er_code e))"
  by (induction rows arbitrary: es) (auto simp: computeCodeHash_def split: option.splits)

lemma insert_rows_ids:
  "insert_rows b d now ids rows n sk codes = (n', sk', codes') \<Longrightarrow>
   distinct (map rc_id codes) \<Longrightarrow> distinct (map er_rowNumber rows) \<Longrightarrow> inj ids \<Longrightarrow>
   (\<forall>r \<in> set rows. ids (er_rowNumber r) \<notin> rc_id ` set codes) \<Longrightarrow>
   distinct (map rc_id codes')"
proof (induction rows arbitrary: n sk codes)
  case (Cons row rows)
  let ?row = "code_row b d now (ids (er_rowNumber row)) row"
  show ?case
  proof (cases "create code_clash ?row codes")
    case (Inl e)
    then show ?thesis using Cons by (cases e) auto
  next
    case (Inr ys)
    then have ys: "ys = codes @ [?row]" by (auto simp: create_def split: if_splits)
    have i: "rc_id ?row = ids (er_rowNumber row)" by (simp add: code_row_def)
    from Cons.prems(1) Inr have run: "insert_rows b d now ids rows (n + 1) sk ys = (n', sk', codes')" by simp
    have "ids (er_rowNumber r) \<noteq> ids (er_rowNumber row)" if "r \<in> set rows" for r
      using Cons.prems(3,4) that by (simp add: inj_eq) (metis imageI)
    then show ?thesis
      by (intro Cons.IH [OF run]) (use Cons.prems in \<open>auto simp: ys i\<close>)
  qed
qed simp

section \<open>Runs of the operations\<close>

text \<open>
  One step is one operation on the codes, in any order and by any users; a claim is its
  transaction alone, so that the checks before it may be as stale as they like. New
  documents get ids that are not in use.
\<close>

inductive code_step :: "db \<Rightarrow> db \<Rightarrow> bool" where
  upload: "inj ids \<Longrightarrow> \<forall>n. ids n \<notin> rc_id ` set (redeem_codes s) \<Longrightarrow>
    code_step s (snd (uploadBatch enc hmac sec records inp actor now bid ids s))"
| publish: "code_step s (snd (publishBatchToPost pin now s))"
| void: "code_step s (voidCode cid reason s)"
| claim: "code_step s (snd (claim_commit dec cid uid pan now s))"
| mark: "code_step s (snd (markClaimed cid uid now s))"
| reconcile: "code_step s (snd (reconcileCopiedCodes now cutoff s))"

definition codes_inv :: "db \<Rightarrow> bool" where
  "codes_inv s \<longleftrightarrow> list_all code_ok (redeem_codes s) \<and> distinct (map rc_id (redeem_codes s)) \<and>
     unique_on code_key (redeem_codes s)"

lemma ids_evolve: "list_all2 code_evolves xs zs \<Longrightarrow> map rc_id zs = map rc_id xs"
  by (induction rule: list_all2_induct) (simp_all add: code_evolves_def)

lemma codes_invI:
  assumes "codes_inv s" and "list_all2 code_evolves (redeem_codes s) (redeem_codes s')"
  shows "codes_inv s' \<and> codes_evolve (redeem_codes s) (redeem_codes s')"
  using assms codes_evolve_ok [OF codes_evolveI [OF assms(2)]] codes_evolveI [OF assms(2)]
  by (simp add: codes_inv_def ids_evolve keys_evolve unique_on_def)

lemma uploadBatch_codes:
  assumes "codes_inv s" and "inj ids" and "\<forall>n. ids n \<notin> rc_id ` set (redeem_codes s)"
    and "uploadBatch enc hmac sec records inp actor now bid ids s = (r, s')"
  shows "codes_inv s' \<and> codes_evolve (redeem_codes s) (redeem_codes s')"
proof (cases r)
  case (Inl e)
  then have "s' = s" using assms(4) by (auto simp: uploadBatch_def Let_def split: sum.splits option.splits prod.splits if_splits)
  then show ?thesis using assms(1) by simp
next
  case (Inr res)
  let ?d = "or_default (ui_denomination inp) 5000"
  from Inr assms(4) obtain valid sk es n sk' codes where
    run: "parseRedeemCodeCsv records ?d DEFAULT_MAX_ROWS = Inr (valid, sk)"
      "encryptParsedRows enc hmac sec valid = Some es"
      "insert_rows bid ?d now ids es 0 sk (redeem_codes s) = (n, sk', codes)" "redeem_codes s' = codes"
    by (auto simp: uploadBatch_def Let_def split: sum.splits option.splits prod.splits if_splits)
  from run(1) have "parse_rows ?d 0 records [] [] [] = (valid, sk)"
    by (simp add: parseRedeemCodeCsv_def split: if_splits)
  from parse_rows_split [OF this]
  have "mset (map pr_rowNumber valid @ map sk_row sk) = mset [1 ..< 1 + length records]" by auto
  from mset_eq_imp_distinct_iff [OF this] have "distinct (map pr_rowNumber valid)"
    by (metis distinct_append distinct_upt)
  then have "distinct (map er_rowNumber es)" using encryptParsedRows_rows [OF run(2)] by simp
  then have "distinct (map rc_id codes)"
    using insert_rows_ids [OF run(3)] assms(1-3) by (simp add: codes_inv_def)
  moreover have "codes_evolve (redeem_codes s) codes" "unique_on code_key codes"
    using insert_rows_evolve [OF run(3)] assms(1)
    by (auto simp: codes_inv_def codes_evolve_append)
  ultimately show ?thesis using assms(1) codes_evolve_ok by (auto simp: codes_inv_def run(4))
qed

end
