(* ===== verification/Schemas.thy ===== *)
theory Schemas
  imports Routes Redeem_Codes
begin

text \<open>
  The validation of requests: every schema of src/modules/*/*.schemas.ts, the body validator of
  src/shared/middleware/validate.ts, and what the library zod promises to do with them.

  A schema is data, built from the combinators the source calls, with its regular expressions
  as predicates on texts. zod itself is not part of the repository: what it does with a schema
  is the parameter \<open>parse\<close> of the locale \<open>zod\<close>, whose laws are its documented
  behaviour, and an instance of it is \<open>zod_ref\<close>. A value is what JSON or a query string
  gives, or a date or an ObjectId that a schema makes of one; a property that is absent reads as
  \<open>Z_Undefined\<close>; a number that is not an integer is only told apart from the integers.
\<close>

section \<open>Values and schemas\<close>

datatype zod_value =
    Z_Undefined
  | Z_Null
  | Z_Bool bool
  | Z_Number int
  | Z_NonInteger string
  | Z_String string
  | Z_Date date
  | Z_Oid oid
  | Z_Array "zod_value list"
  | Z_Object "(string \<times> zod_value) list"

datatype str_check = S_Min nat | S_Max nat | S_Regex "string \<Rightarrow> bool" | S_Email | S_Url | S_Trim | S_Upper

datatype num_check = N_Int | N_Min int | N_Max int | N_Positive

datatype schema =
    ZString "str_check list"
  | ZNumber "num_check list"
  | ZCoerceNumber "num_check list"
  | ZBool
  | ZCoerceBool
  | ZCoerceDate
  | ZEnum "string list"
  | ZRecord
  | ZArray nat schema
  | ZObject "(string \<times> schema) list"
  | ZOptional schema
  | ZDefault schema zod_value
  | ZTransform schema "zod_value \<Rightarrow> zod_value option"
  | ZRefine schema "zod_value \<Rightarrow> bool"
  | ZUnion string "(string \<times> schema) list"

text \<open>
  What the schemas take from the language and from the texts they let through: \<open>Number\<close>,
  \<open>new Date\<close> (nothing for an invalid date) and \<open>toUpperCase\<close> of JavaScript, the
  tests of zod for mail addresses and for URLs (which may normalise the URL), and \<open>isValid\<close>
  and the constructor of the ObjectId of the driver.
\<close>

record zod_host =
  zh_Number :: "zod_value \<Rightarrow> zod_value"
  zh_Date :: "zod_value \<Rightarrow> date option"
  zh_upper :: "string \<Rightarrow> string"
  zh_email :: "string \<Rightarrow> bool"
  zh_url :: "string \<Rightarrow> string option"
  zh_isValid :: "string \<Rightarrow> bool"
  zh_oid :: "string \<Rightarrow> oid"

definition MAX_SAFE_INTEGER :: int where
  "MAX_SAFE_INTEGER = 9007199254740991"

fun run_str_check :: "zod_host \<Rightarrow> str_check \<Rightarrow> string \<Rightarrow> string option" where
  "run_str_check H (S_Min n) s = (if n \<le> length s then Some s else None)"
| "run_str_check H (S_Max n) s = (if length s \<le> n then Some s else None)"
| "run_str_check H (S_Regex r) s = (if r s then Some s else None)"
| "run_str_check H S_Email s = (if zh_email H s then Some s else None)"
| "run_str_check H S_Url s = zh_url H s"
| "run_str_check H S_Trim s = Some (latin1_trim s)"
| "run_str_check H S_Upper s = Some (zh_upper H s)"

primrec str_checks :: "zod_host \<Rightarrow> str_check list \<Rightarrow> string \<Rightarrow> string option" where
  "str_checks H [] s = Some s"
| "str_checks H (c # cs) s = (case run_str_check H c s of None \<Rightarrow> None | Some t \<Rightarrow> str_checks H cs t)"

fun run_num_check :: "num_check \<Rightarrow> int \<Rightarrow> bool" where
  "run_num_check N_Int n \<longleftrightarrow> \<bar>n\<bar> \<le> MAX_SAFE_INTEGER"
| "run_num_check (N_Min m) n \<longleftrightarrow> m \<le> n"
| "run_num_check (N_Max m) n \<longleftrightarrow> n \<le> m"
| "run_num_check N_Positive n \<longleftrightarrow> 0 < n"

fun check_number :: "num_check list \<Rightarrow> zod_value \<Rightarrow> zod_value option" where
  "check_number cs (Z_Number n) = (if list_all (\<lambda>c. run_num_check c n) cs then Some (Z_Number n) else None)"
| "check_number cs v = None"

fun truthy :: "zod_value \<Rightarrow> bool" where
  "truthy Z_Undefined \<longleftrightarrow> False"
| "truthy Z_Null \<longleftrightarrow> False"
| "truthy (Z_Bool b) \<longleftrightarrow> b"
| "truthy (Z_Number n) \<longleftrightarrow> n \<noteq> 0"
| "truthy (Z_String s) \<longleftrightarrow> s \<noteq> []"
| "truthy v \<longleftrightarrow> True"

definition js_prop :: "string \<Rightarrow> (string \<times> zod_value) list \<Rightarrow> zod_value" where
  "js_prop k kvs = or_default (map_of kvs k) Z_Undefined"

definition field_entry :: "string \<Rightarrow> zod_value \<Rightarrow> (string \<times> zod_value) list" where
  "field_entry k v = (if v = Z_Undefined then [] else [(k, v)])"

definition parse_fields ::
  "(schema \<Rightarrow> zod_value \<Rightarrow> zod_value option) \<Rightarrow> (string \<times> schema) list \<Rightarrow> (string \<times> zod_value) list \<Rightarrow> (string \<times> zod_value) list option" where
  "parse_fields parse fs kvs =
     map_option concat (those (map (\<lambda>(k, s). map_option (field_entry k) (parse s (js_prop k kvs))) fs))"

text \<open>A strict object refuses a key that its shape does not have.\<close>

definition known_keys :: "(string \<times> schema) list \<Rightarrow> (string \<times> zod_value) list \<Rightarrow> bool" where
  "known_keys fs kvs \<longleftrightarrow> list_all (\<lambda>(k, _). k \<in> fst ` set fs) kvs"

section \<open>What zod promises\<close>

locale zod =
  fixes H :: zod_host and parse :: "schema \<Rightarrow> zod_value \<Rightarrow> zod_value option"
  assumes parse_string: "parse (ZString cs) v = (case v of Z_String s \<Rightarrow> map_option Z_String (str_checks H cs s) | _ \<Rightarrow> None)"
    and parse_number: "parse (ZNumber ns) v = check_number ns v"
    and parse_coerce_number: "parse (ZCoerceNumber ns) v = check_number ns (zh_Number H v)"
    and parse_bool: "parse ZBool v = (case v of Z_Bool b \<Rightarrow> Some v | _ \<Rightarrow> None)"
    and parse_coerce_bool: "parse ZCoerceBool v = Some (Z_Bool (truthy v))"
    and parse_coerce_date: "parse ZCoerceDate v = map_option Z_Date (zh_Date H v)"
    and parse_enum: "parse (ZEnum es) v = (case v of Z_String s \<Rightarrow> if s \<in> set es then Some v else None | _ \<Rightarrow> None)"
    and parse_record: "parse ZRecord v = (case v of Z_Object kvs \<Rightarrow> Some v | _ \<Rightarrow> None)"
    and parse_array: "parse (ZArray m s) v =
      (case v of Z_Array vs \<Rightarrow> if m \<le> length vs then map_option Z_Array (those (map (parse s) vs)) else None | _ \<Rightarrow> None)"
    and parse_object: "parse (ZObject fs) v =
      (case v of Z_Object kvs \<Rightarrow> if known_keys fs kvs then map_option Z_Object (parse_fields parse fs kvs) else None | _ \<Rightarrow> None)"
    and parse_optional: "parse (ZOptional s) v = (if v = Z_Undefined then Some Z_Undefined else parse s v)"
    and parse_default: "parse (ZDefault s dv) v = (if v = Z_Undefined then Some dv else parse s v)"
    and parse_transform: "parse (ZTransform s f) v = (case parse s v of None \<Rightarrow> None | Some w \<Rightarrow> f w)"
    and parse_refine: "parse (ZRefine s p) v = (case parse s v of None \<Rightarrow> None | Some w \<Rightarrow> if p w then Some w else None)"
    and parse_union: "parse (ZUnion d alts) v =
      (case v of
         Z_Object kvs \<Rightarrow> (case js_prop d kvs of
             Z_String tag \<Rightarrow> (case map_of alts tag of None \<Rightarrow> None | Some s \<Rightarrow> parse s v)
           | _ \<Rightarrow> None)
       | _ \<Rightarrow> None)"
begin

lemmas laws = parse_string parse_number parse_coerce_number parse_bool parse_coerce_bool parse_coerce_date parse_enum parse_record
  parse_array parse_object parse_optional parse_default parse_transform parse_refine parse_union

end

text \<open>One function with these laws.\<close>

fun zod_ref :: "zod_host \<Rightarrow> schema \<Rightarrow> zod_value \<Rightarrow> zod_value option" where
  "zod_ref H (ZString cs) v = (case v of Z_String s \<Rightarrow> map_option Z_String (str_checks H cs s) | _ \<Rightarrow> None)"
| "zod_ref H (ZNumber ns) v = check_number ns v"
| "zod_ref H (ZCoerceNumber ns) v = check_number ns (zh_Number H v)"
| "zod_ref H ZBool v = (case v of Z_Bool b \<Rightarrow> Some v | _ \<Rightarrow> None)"
| "zod_ref H ZCoerceBool v = Some (Z_Bool (truthy v))"
| "zod_ref H ZCoerceDate v = map_option Z_Date (zh_Date H v)"
| "zod_ref H (ZEnum es) v = (case v of Z_String s \<Rightarrow> if s \<in> set es then Some v else None | _ \<Rightarrow> None)"
| "zod_ref H ZRecord v = (case v of Z_Object kvs \<Rightarrow> Some v | _ \<Rightarrow> None)"
| "zod_ref H (ZArray m s) v =
     (case v of Z_Array vs \<Rightarrow> if m \<le> length vs then map_option Z_Array (those (map (zod_ref H s) vs)) else None | _ \<Rightarrow> None)"
| "zod_ref H (ZObject fs) v =
     (case v of Z_Object kvs \<Rightarrow>
        if known_keys fs kvs
        then map_option (Z_Object \<circ> concat) (those (map (\<lambda>(k, s). map_option (field_entry k) (zod_ref H s (js_prop k kvs))) fs))
        else None
      | _ \<Rightarrow> None)"
| "zod_ref H (ZOptional s) v = (if v = Z_Undefined then Some Z_Undefined else zod_ref H s v)"
| "zod_ref H (ZDefault s d) v = (if v = Z_Undefined then Some d else zod_ref H s v)"
| "zod_ref H (ZTransform s f) v = (case zod_ref H s v of None \<Rightarrow> None | Some w \<Rightarrow> f w)"
| "zod_ref H (ZRefine s p) v = (case zod_ref H s v of None \<Rightarrow> None | Some w \<Rightarrow> if p w then Some w else None)"
| "zod_ref H (ZUnion d alts) v =
     (case v of
        Z_Object kvs \<Rightarrow> (case js_prop d kvs of
            Z_String tag \<Rightarrow> (case findOne (\<lambda>(t, s). t = tag) (map (\<lambda>(t, s). (t, zod_ref H s v)) alts) of None \<Rightarrow> None | Some (_, r) \<Rightarrow> r)
          | _ \<Rightarrow> None)
      | _ \<Rightarrow> None)"

lemma findOne_union: "findOne (\<lambda>(t, _). t = tag) (map (\<lambda>(t, s). (t, g s)) alts) = map_option (\<lambda>s. (tag, g s)) (map_of alts tag)"
  by (induction alts) (auto simp: findOne_def)

interpretation zod_ref: zod H "zod_ref H" for H
  by unfold_locales
    (auto simp: parse_fields_def option.map_comp findOne_union split: zod_value.splits option.splits)

section \<open>Regular expressions\<close>

text \<open>A regular expression without repetition is the list of its character classes.\<close>

definition rx :: "(char \<Rightarrow> bool) list \<Rightarrow> string \<Rightarrow> bool" where
  "rx classes s \<longleftrightarrow> list_all2 (\<lambda>p c. p c) classes s"

definition in_range :: "char \<Rightarrow> char \<Rightarrow> char \<Rightarrow> bool" where
  "in_range a b c \<longleftrightarrow> (of_char a :: nat) \<le> of_char c \<and> (of_char c :: nat) \<le> of_char b"

definition hex_char :: "char \<Rightarrow> bool" where
  "hex_char c \<longleftrightarrow> in_range CHR ''a'' CHR ''f'' c \<or> in_range CHR ''A'' CHR ''F'' c \<or> js_digit c"

definition upper_char :: "char \<Rightarrow> bool" where
  "upper_char c \<longleftrightarrow> in_range CHR ''A'' CHR ''Z'' c"

definition lits :: "string \<Rightarrow> (char \<Rightarrow> bool) list" where
  "lits s = map (=) s"

definition RX_OBJECT_ID :: "string \<Rightarrow> bool" where
  "RX_OBJECT_ID = rx (replicate 24 hex_char)"

definition RX_DAY_KEY :: "string \<Rightarrow> bool" where
  "RX_DAY_KEY = rx (replicate 4 js_digit @ lits ''-'' @ replicate 2 js_digit @ lits ''-'' @ replicate 2 js_digit)"

definition RX_TIME_OF_DAY :: "string \<Rightarrow> bool" where
  "RX_TIME_OF_DAY = rx (replicate 2 js_digit @ lits '':'' @ replicate 2 js_digit)"

definition RX_DIGITS :: "nat \<Rightarrow> string \<Rightarrow> bool" where
  "RX_DIGITS n = rx (replicate n js_digit)"

definition RX_BLOCKED_STATE :: "string \<Rightarrow> bool" where
  "RX_BLOCKED_STATE = rx (lits ''IN-'' @ replicate 2 upper_char)"

definition RX_DECLARED_STATE :: "string \<Rightarrow> bool" where
  "RX_DECLARED_STATE s \<longleftrightarrow> rx (lits ''IN-'' @ replicate 2 upper_char) s \<or> rx (lits ''IN-'' @ replicate 3 upper_char) s"

definition crockford_char :: "char \<Rightarrow> bool" where
  "crockford_char c \<longleftrightarrow> js_digit c \<or> in_range CHR ''A'' CHR ''H'' c \<or> c = CHR ''J'' \<or> c = CHR ''K'' \<or> c = CHR ''M'' \<or> c = CHR ''N''
     \<or> in_range CHR ''P'' CHR ''T'' c \<or> in_range CHR ''V'' CHR ''Z'' c"

definition RX_REFERRAL_CODE :: "string \<Rightarrow> bool" where
  "RX_REFERRAL_CODE = rx (replicate 8 crockford_char)"

definition RX_PLACEMENT :: "string \<Rightarrow> bool" where
  "RX_PLACEMENT s \<longleftrightarrow> s \<noteq> [] \<and>
     list_all (\<lambda>c. in_range CHR ''a'' CHR ''z'' c \<or> upper_char c \<or> js_digit c \<or> c = CHR ''_'' \<or> c = CHR ''-'') s"

section \<open>Shared shapes\<close>

definition TierSchema :: schema where
  "TierSchema = ZEnum [''PUBLIC'', ''PRO'', ''PRO_MAX'']"

definition PaidTierSchema :: schema where
  "PaidTierSchema = ZEnum [''PRO'', ''PRO_MAX'']"

definition ObjectIdHex :: schema where
  "ObjectIdHex = ZString [S_Regex RX_OBJECT_ID]"

definition DayKey :: schema where
  "DayKey = ZString [S_Regex RX_DAY_KEY]"

definition GameSchema :: schema where
  "GameSchema = ZEnum [''BGMI'', ''FF'']"

definition Reason :: schema where
  "Reason = ZString [S_Min 10, S_Max 500]"

definition ReasonBody :: schema where
  "ReasonBody = ZObject
     [(''reason'', Reason)]"

section \<open>Admin surface\<close>

definition AdminRoleSchema :: schema where
  "AdminRoleSchema = ZEnum [''SUPER_ADMIN'', ''CONTENT_ADMIN'', ''PAYMENT_ADMIN'', ''SUPPORT_ADMIN'']"

definition AdminAdminUsersListQuerySchema :: schema where
  "AdminAdminUsersListQuerySchema = ZObject
     [(''role'', ZOptional AdminRoleSchema),
      (''disabled'', ZOptional ZCoerceBool)]"

definition AdminAdminUsersCreateBodySchema :: schema where
  "AdminAdminUsersCreateBodySchema = ZObject
     [(''email'', ZString [S_Email]),
      (''password'', ZString [S_Min 12, S_Max 200]),
      (''name'', ZOptional (ZString [S_Min 1, S_Max 100])),
      (''role'', AdminRoleSchema)]"

definition AdminAdminUsersRoleChangeBodySchema :: schema where
  "AdminAdminUsersRoleChangeBodySchema = ZObject
     [(''role'', AdminRoleSchema),
      (''reason'', Reason)]"

definition AdminAdminUsersToggle2FaBodySchema :: schema where
  "AdminAdminUsersToggle2FaBodySchema = ZObject
     [(''enabled'', ZBool),
      (''reason'', Reason)]"

definition AdminAdminUsersForceLogoutBodySchema :: schema where
  "AdminAdminUsersForceLogoutBodySchema = ReasonBody"

definition AdminAdminUsersDeactivateBodySchema :: schema where
  "AdminAdminUsersDeactivateBodySchema = ReasonBody"

definition AdTypeSchema :: schema where
  "AdTypeSchema = ZEnum [''BANNER'', ''INTERSTITIAL'', ''REWARDED_VIDEO'', ''NATIVE'']"

definition AdNetworkSchema :: schema where
  "AdNetworkSchema = ZEnum [''ADMOB'', ''UNITY'', ''APPLOVIN'', ''IRONSOURCE'']"

definition MinTierSchema :: schema where
  "MinTierSchema = ZEnum [''NONE'', ''PRO'', ''PRO_MAX'']"

definition AdminAdsConfigUpsertBodySchema :: schema where
  "AdminAdsConfigUpsertBodySchema = ZObject
     [(''type'', AdTypeSchema),
      (''network'', AdNetworkSchema),
      (''adUnitIdAndroid'', ZOptional (ZString [S_Max 200])),
      (''adUnitIdIOS'', ZOptional (ZString [S_Max 200])),
      (''fallbackAdUnitId'', ZOptional (ZString [S_Max 200])),
      (''enabled'', ZOptional ZBool),
      (''minTierToHide'', ZOptional MinTierSchema),
      (''refreshSeconds'', ZOptional (ZNumber [N_Int, N_Min 1, N_Max 3600]))]"

definition AdminAdsConfigPlacementParamSchema :: schema where
  "AdminAdsConfigPlacementParamSchema = ZString [S_Min 1, S_Max 100, S_Regex RX_PLACEMENT]"

definition TimeOfDay :: schema where
  "TimeOfDay = ZString [S_Regex RX_TIME_OF_DAY]"

definition AdminAppConfigPatchBodySchema :: schema where
  "AdminAppConfigPatchBodySchema = ZObject
     [(''baseRatePerVote'', ZOptional (ZNumber [N_Int, N_Min 0])),
      (''signupBonusCoins'', ZOptional (ZNumber [N_Int, N_Min 0])),
      (''coinsPerPost'', ZOptional (ZNumber [N_Int, N_Min 0])),
      (''coinsPerVote'', ZOptional (ZNumber [N_Int, N_Min 0])),
      (''giftCodeDenomination'', ZOptional (ZNumber [N_Int, N_Positive])),
      (''proMultiplier'', ZOptional (ZNumber [N_Int, N_Positive])),
      (''proMaxMultiplier'', ZOptional (ZNumber [N_Int, N_Positive])),
      (''voteWindowIst'', ZOptional (ZObject [(''start'', TimeOfDay), (''end'', TimeOfDay)])),
      (''blockedStates'', ZOptional (ZArray 0 (ZString [S_Regex RX_BLOCKED_STATE]))),
      (''kycThresholdAmount'', ZOptional (ZNumber [N_Int, N_Min 0])),
      (''ageMin'', ZOptional (ZNumber [N_Int, N_Min 13, N_Max 99])),
      (''maintenanceMode'', ZOptional ZBool),
      (''featureFlags'', ZOptional ZRecord),
      (''razorpayPlanIds'', ZOptional (ZObject [(''PRO'', ZOptional (ZString [S_Min 1])), (''PRO_MAX'', ZOptional (ZString [S_Min 1]))])),
      (''adminIpAllowlist'', ZOptional (ZArray 0 (ZString [S_Min 1])))]"

definition AdminAuditLogsListQuerySchema :: schema where
  "AdminAuditLogsListQuerySchema = ZObject
     [(''actorId'', ZOptional ObjectIdHex),
      (''resourceKind'', ZOptional (ZString [S_Min 1, S_Max 100])),
      (''resourceId'', ZOptional ObjectIdHex),
      (''action'', ZOptional (ZString [S_Min 1, S_Max 100])),
      (''from'', ZOptional ZCoerceDate),
      (''to'', ZOptional ZCoerceDate),
      (''cursor'', ZOptional (ZString [S_Min 1])),
      (''limit'', ZDefault (ZCoerceNumber [N_Int, N_Min 1, N_Max 500]) (Z_Number 100))]"

definition AdminLoginBodySchema :: schema where
  "AdminLoginBodySchema = ZObject
     [(''email'', ZString [S_Email]),
      (''password'', ZString [S_Min 1, S_Max 200]),
      (''totpCode'', ZOptional (ZString [S_Regex (RX_DIGITS 6)]))]"

definition CmsKeySchema :: schema where
  "CmsKeySchema = ZEnum [''TERMS'', ''HOW_DISTRIBUTE'', ''FAQ'', ''PRIVACY'', ''GRIEVANCE'']"

definition AdminCmsUpsertBodySchema :: schema where
  "AdminCmsUpsertBodySchema = ZObject
     [(''html'', ZOptional (ZString [S_Max 200000]))]"

definition AdminRoomCreateBodySchema :: schema where
  "AdminRoomCreateBodySchema = ZObject
     [(''game'', GameSchema),
      (''dayKey'', DayKey),
      (''scheduledAt'', ZCoerceDate),
      (''visibleFromAt'', ZOptional ZCoerceDate),
      (''resultEnabledAt'', ZOptional ZCoerceDate),
      (''tier'', ZOptional TierSchema),
      (''pageNumber'', ZOptional (ZNumber [N_Int, N_Min 1])),
      (''notice'', ZOptional (ZString [S_Max 500]))]"

definition AdminRoomCredentialsBodySchema :: schema where
  "AdminRoomCredentialsBodySchema = ZObject
     [(''roomId'', ZString [S_Min 1, S_Max 64]),
      (''roomPwd'', ZString [S_Min 1, S_Max 64])]"

definition WinnerBucketSchema :: schema where
  "WinnerBucketSchema = ZObject
     [(''imageUrl'', ZOptional (ZString [S_Max 500])),
      (''squadName'', ZOptional (ZString [S_Max 100])),
      (''winners'', ZDefault (ZArray 0 (ZObject [(''userId'', ObjectIdHex), (''prize'', ZNumber [N_Int, N_Min 0])])) (Z_Array []))]"

definition AdminEnterResultsBodySchema :: schema where
  "AdminEnterResultsBodySchema = ZObject
     [(''inRoomImageUrl'', ZOptional (ZString [S_Max 500])),
      (''top1'', ZOptional WinnerBucketSchema),
      (''top2'', ZOptional WinnerBucketSchema),
      (''top3'', ZOptional WinnerBucketSchema),
      (''extra'', ZOptional WinnerBucketSchema)]"

definition WinnerItemSchema :: schema where
  "WinnerItemSchema = ZObject
     [(''userId'', ObjectIdHex),
      (''type'', ZEnum [''GIFT_CODE'', ''CUSTOM_ROOM'']),
      (''baseAmount'', ZNumber [N_Int, N_Min 0]),
      (''tier'', TierSchema),
      (''redeemCodeId'', ZOptional ObjectIdHex),
      (''customRoomId'', ZOptional ObjectIdHex)]"

definition AdminAssignWinnersBodySchema :: schema where
  "AdminAssignWinnersBodySchema = ZObject
     [(''dayKey'', DayKey),
      (''winners'', ZArray 1 WinnerItemSchema)]"

definition AdminRoomsListQuerySchema :: schema where
  "AdminRoomsListQuerySchema = ZObject
     [(''game'', ZOptional GameSchema),
      (''status'', ZOptional (ZEnum [''SCHEDULED'', ''LIVE'', ''COMPLETED'', ''CANCELLED''])),
      (''dayKey'', ZOptional DayKey),
      (''cursor'', ZOptional (ZString [S_Min 1])),
      (''limit'', ZOptional (ZCoerceNumber [N_Int, N_Min 1, N_Max 200]))]"

definition AdminDlqListQuerySchema :: schema where
  "AdminDlqListQuerySchema = ZObject
     [(''includeRequeued'', ZDefault ZCoerceBool (Z_Bool False)),
      (''limit'', ZDefault (ZCoerceNumber [N_Int, N_Min 1, N_Max 500]) (Z_Number 100))]"

definition AdminDlqRequeueBodySchema :: schema where
  "AdminDlqRequeueBodySchema = ReasonBody"

definition AdminDonationsListQuerySchema :: schema where
  "AdminDonationsListQuerySchema = ZObject
     [(''userId'', ZOptional ObjectIdHex),
      (''status'', ZOptional (ZEnum [''CREATED'', ''CAPTURED'', ''FAILED'', ''REFUNDED''])),
      (''from'', ZOptional ZCoerceDate),
      (''to'', ZOptional ZCoerceDate),
      (''cursor'', ZOptional (ZString [S_Min 1])),
      (''limit'', ZOptional (ZCoerceNumber [N_Int, N_Min 1, N_Max 200]))]"

definition AllTargetSchema :: schema where
  "AllTargetSchema = ZObject
     [(''mode'', ZEnum [''all''])]"

definition TierTargetSchema :: schema where
  "TierTargetSchema = ZObject
     [(''mode'', ZEnum [''tier'']),
      (''tier'', TierSchema)]"

definition UserTargetSchema :: schema where
  "UserTargetSchema = ZObject
     [(''mode'', ZEnum [''user'']),
      (''userId'', ObjectIdHex)]"

definition has_prop :: "string \<Rightarrow> zod_value \<Rightarrow> bool" where
  "has_prop k v \<longleftrightarrow> (case v of Z_Object kvs \<Rightarrow> js_prop k kvs \<noteq> Z_Undefined | _ \<Rightarrow> False)"

definition AdminBroadcastBodySchema :: schema where
  "AdminBroadcastBodySchema = ZRefine
     (ZObject
     [(''target'', ZUnion ''mode'' [(''all'', AllTargetSchema), (''tier'', TierTargetSchema), (''user'', UserTargetSchema)]),
      (''title'', ZOptional (ZString [S_Max 200])),
      (''body'', ZOptional (ZString [S_Max 2000])),
      (''payload'', ZOptional ZRecord)])
     (\<lambda>d. has_prop ''title'' d \<or> has_prop ''body'' d)"

definition PostStatusSchema :: schema where
  "PostStatusSchema = ZEnum [''DRAFT'', ''SCHEDULED'', ''LIVE'', ''CLOSED'']"

definition AdsConfigSchema :: schema where
  "AdsConfigSchema = ZObject
     [(''topBannerKey'', ZOptional (ZString [S_Max 200])),
      (''bottomBannerKey'', ZOptional (ZString [S_Max 200]))]"

definition AdminPostCreateBodySchema :: schema where
  "AdminPostCreateBodySchema = ZObject
     [(''title'', ZString [S_Min 1, S_Max 200]),
      (''description'', ZOptional (ZString [S_Max 2000])),
      (''dayKey'', DayKey),
      (''scheduledAt'', ZCoerceDate),
      (''status'', ZOptional PostStatusSchema),
      (''coinReward'', ZOptional (ZNumber [N_Int, N_Min 0, N_Max 100])),
      (''tier'', ZOptional TierSchema),
      (''adsConfig'', ZOptional AdsConfigSchema)]"

definition AdminPostUpdateBodySchema :: schema where
  "AdminPostUpdateBodySchema = ZObject
     [(''title'', ZOptional (ZString [S_Min 1, S_Max 200])),
      (''description'', ZOptional (ZString [S_Max 2000])),
      (''dayKey'', ZOptional DayKey),
      (''scheduledAt'', ZOptional ZCoerceDate),
      (''status'', ZOptional PostStatusSchema),
      (''coinReward'', ZOptional (ZNumber [N_Int, N_Min 0, N_Max 100])),
      (''tier'', ZOptional TierSchema),
      (''adsConfig'', ZOptional AdsConfigSchema),
      (''publishedAt'', ZOptional ZCoerceDate),
      (''closedAt'', ZOptional ZCoerceDate)]"

definition AdminPostListQuerySchema :: schema where
  "AdminPostListQuerySchema = ZObject
     [(''dayKey'', DayKey),
      (''status'', ZOptional PostStatusSchema)]"

definition AdminPrizePoolsListQuerySchema :: schema where
  "AdminPrizePoolsListQuerySchema = ZObject
     [(''status'', ZOptional (ZEnum [''CALCULATED'', ''PUBLISHED'', ''CLOSED''])),
      (''limit'', ZOptional (ZCoerceNumber [N_Int, N_Min 1, N_Max 200]))]"

definition AdminPrizePoolRunBodySchema :: schema where
  "AdminPrizePoolRunBodySchema = ZObject
     [(''dayKey'', DayKey),
      (''yesterdayDayKey'', DayKey),
      (''tier'', ZOptional TierSchema),
      (''reason'', Reason)]"

definition AdminPrizePoolWinnersQuerySchema :: schema where
  "AdminPrizePoolWinnersQuerySchema = ZObject
     [(''dayKey'', DayKey),
      (''payoutStatus'', ZOptional (ZEnum [''PENDING'', ''RELEASED'', ''WITHHELD'', ''VOID'']))]"

definition AdminMarkPayoutBodySchema :: schema where
  "AdminMarkPayoutBodySchema = ZObject
     [(''payoutStatus'', ZEnum [''RELEASED'', ''WITHHELD'', ''VOID'']),
      (''challanNo'', ZOptional (ZString [S_Min 1, S_Max 100])),
      (''panLast4'', ZOptional (ZString [S_Regex (RX_DIGITS 4)])),
      (''reason'', Reason)]"

definition AdminInitiateRefundBodySchema :: schema where
  "AdminInitiateRefundBodySchema = ZObject
     [(''paymentId'', ObjectIdHex),
      (''reason'', ZString [S_Min 1, S_Max 500]),
      (''amountPaise'', ZOptional (ZNumber [N_Int, N_Positive])),
      (''cancelSubscription'', ZOptional ZBool)]"

definition SponsorStatusSchema :: schema where
  "SponsorStatusSchema = ZEnum [''ACTIVE'', ''PAUSED'', ''EXPIRED'']"

definition AdminSponsorsListQuerySchema :: schema where
  "AdminSponsorsListQuerySchema = ZObject
     [(''slot'', ZOptional (ZCoerceNumber [N_Int, N_Min 1, N_Max 3])),
      (''status'', ZOptional SponsorStatusSchema)]"

definition AdminSponsorCreateBodySchema :: schema where
  "AdminSponsorCreateBodySchema = ZObject
     [(''slot'', ZNumber [N_Int, N_Min 1, N_Max 3]),
      (''imageUrl'', ZString [S_Url, S_Max 500]),
      (''linkUrl'', ZOptional (ZString [S_Url, S_Max 500])),
      (''title'', ZOptional (ZString [S_Max 200])),
      (''priority'', ZOptional (ZNumber [N_Int, N_Min 0, N_Max 1000])),
      (''startAt'', ZOptional ZCoerceDate),
      (''endAt'', ZOptional ZCoerceDate),
      (''status'', ZOptional SponsorStatusSchema)]"

definition AdminSponsorUpdateBodySchema :: schema where
  "AdminSponsorUpdateBodySchema = ZObject
     [(''slot'', ZOptional (ZNumber [N_Int, N_Min 1, N_Max 3])),
      (''imageUrl'', ZOptional (ZString [S_Url, S_Max 500])),
      (''linkUrl'', ZOptional (ZString [S_Url, S_Max 500])),
      (''title'', ZOptional (ZString [S_Max 200])),
      (''priority'', ZOptional (ZNumber [N_Int, N_Min 0, N_Max 1000])),
      (''startAt'', ZOptional ZCoerceDate),
      (''endAt'', ZOptional ZCoerceDate),
      (''status'', ZOptional SponsorStatusSchema)]"

definition SubStatusSchema :: schema where
  "SubStatusSchema = ZEnum [''CREATED'', ''AUTHENTICATED'', ''ACTIVE'', ''PENDING'', ''HALTED'', ''CANCELLED'', ''COMPLETED'', ''PAUSED'']"

definition AdminSubscriptionsListQuerySchema :: schema where
  "AdminSubscriptionsListQuerySchema = ZObject
     [(''tier'', ZOptional PaidTierSchema),
      (''status'', ZOptional SubStatusSchema),
      (''cursor'', ZOptional (ZString [S_Min 1])),
      (''limit'', ZOptional (ZCoerceNumber [N_Int, N_Min 1, N_Max 200]))]"

definition from_not_after_to :: "zod_value \<Rightarrow> bool" where
  "from_not_after_to v =
     (case v of
        Z_Object kvs \<Rightarrow> (case (js_prop ''from'' kvs, js_prop ''to'' kvs) of (Z_Date from_, Z_Date to_) \<Rightarrow> from_ \<le> to_ | _ \<Rightarrow> False)
      | _ \<Rightarrow> False)"

definition AdminSubscriptionsRevenueQuerySchema :: schema where
  "AdminSubscriptionsRevenueQuerySchema = ZRefine (ZObject [(''from'', ZCoerceDate), (''to'', ZCoerceDate)]) from_not_after_to"

definition AdminUsersListQuerySchema :: schema where
  "AdminUsersListQuerySchema = ZObject
     [(''search'', ZOptional (ZString [S_Min 1, S_Max 200])),
      (''tier'', ZOptional TierSchema),
      (''blocked'', ZOptional ZCoerceBool),
      (''cursor'', ZOptional (ZString [S_Min 1])),
      (''limit'', ZOptional (ZCoerceNumber [N_Int, N_Min 1, N_Max 200]))]"

definition AdminUserBlockBodySchema :: schema where
  "AdminUserBlockBodySchema = ReasonBody"

definition AdminUserUnblockBodySchema :: schema where
  "AdminUserUnblockBodySchema = ZObject [(''reason'', ZOptional Reason)]"

definition AdminUserCoinAdjustBodySchema :: schema where
  "AdminUserCoinAdjustBodySchema = ZObject
     [(''delta'', ZRefine (ZNumber [N_Int]) (\<lambda>v. v \<noteq> Z_Number 0)),
      (''reason'', Reason)]"

definition AdminUserForceLogoutBodySchema :: schema where
  "AdminUserForceLogoutBodySchema = ReasonBody"

definition AdminUserErasureHoldBodySchema :: schema where
  "AdminUserErasureHoldBodySchema = ReasonBody"

definition AdminUserErasureHoldClearBodySchema :: schema where
  "AdminUserErasureHoldClearBodySchema = ZObject []"

section \<open>User surface\<close>

definition phone_transform :: "zod_value \<Rightarrow> zod_value option" where
  "phone_transform v = (case v of Z_String s \<Rightarrow> map_option Z_String (IndianPhoneSchema s) | _ \<Rightarrow> None)"

definition PhoneSchema :: schema where
  "PhoneSchema = ZTransform (ZString []) phone_transform"

definition OtpSchema :: schema where
  "OtpSchema = ZString [S_Regex (RX_DIGITS 6)]"

definition DeviceIdSchema :: schema where
  "DeviceIdSchema = ZString [S_Trim, S_Min 1, S_Max 128]"

definition DeviceFingerprintSchema :: schema where
  "DeviceFingerprintSchema = ZString [S_Trim, S_Min 1, S_Max 256]"

definition DeclaredStateSchema :: schema where
  "DeclaredStateSchema = ZString [S_Trim, S_Upper, S_Regex RX_DECLARED_STATE]"

definition ReferralCodeSchema :: schema where
  "ReferralCodeSchema = ZString [S_Trim, S_Upper, S_Regex RX_REFERRAL_CODE]"

definition RequestSignupOtpBodySchema :: schema where
  "RequestSignupOtpBodySchema = ZObject
     [(''phone'', PhoneSchema),
      (''deviceId'', DeviceIdSchema),
      (''deviceFingerprint'', DeviceFingerprintSchema),
      (''_devBypassOtp'', ZOptional ZBool)]"

definition VerifySignupOtpBodySchema :: schema where
  "VerifySignupOtpBodySchema = ZObject
     [(''phone'', PhoneSchema),
      (''otp'', OtpSchema),
      (''dob'', ZCoerceDate),
      (''declaredState'', DeclaredStateSchema),
      (''referralCode'', ZOptional ReferralCodeSchema),
      (''consentVersion'', ZString [S_Trim, S_Min 1]),
      (''consentAcceptedAt'', ZCoerceDate),
      (''privacyPolicyVersion'', ZString [S_Trim, S_Min 1]),
      (''deviceId'', DeviceIdSchema),
      (''deviceFingerprint'', DeviceFingerprintSchema),
      (''_devBypassOtp'', ZOptional ZBool)]"

definition RequestLoginOtpBodySchema :: schema where
  "RequestLoginOtpBodySchema = ZObject
     [(''phone'', PhoneSchema)]"

definition VerifyLoginOtpBodySchema :: schema where
  "VerifyLoginOtpBodySchema = ZObject
     [(''phone'', PhoneSchema),
      (''otp'', OtpSchema),
      (''deviceId'', DeviceIdSchema),
      (''deviceFingerprint'', DeviceFingerprintSchema)]"

definition RefreshBodySchema :: schema where
  "RefreshBodySchema = ZObject
     [(''refreshToken'', ZString [S_Min 1])]"

definition LogoutBodySchema :: schema where
  "LogoutBodySchema = ZObject
     [(''refreshToken'', ZString [S_Min 1])]"

definition oid_transform :: "zod_host \<Rightarrow> zod_value \<Rightarrow> zod_value option" where
  "oid_transform H v = (case v of Z_String s \<Rightarrow> Some (Z_Oid (zh_oid H s)) | _ \<Rightarrow> None)"

definition ObjectIdParam :: "zod_host \<Rightarrow> schema" where
  "ObjectIdParam H = ZTransform ObjectIdHex (oid_transform H)"

definition ListRoomsQuerySchema :: schema where
  "ListRoomsQuerySchema = ZObject
     [(''game'', GameSchema),
      (''tier'', TierSchema),
      (''page'', ZDefault (ZCoerceNumber [N_Int, N_Min 1, N_Max 50]) (Z_Number 1)),
      (''dayKey'', ZOptional DayKey)]"

definition RoomIdParamsSchema :: "zod_host \<Rightarrow> schema" where
  "RoomIdParamsSchema H = ZObject [(''id'', ObjectIdParam H)]"

definition CreateDonationOrderBodySchema :: schema where
  "CreateDonationOrderBodySchema = ZObject
     [(''amountInRupees'', ZCoerceNumber [N_Int, N_Min 1, N_Max 100000]),
      (''displayName'', ZOptional (ZString [S_Trim, S_Min 1, S_Max 60])),
      (''isAnonymous'', ZOptional ZCoerceBool),
      (''socialLinks'', ZOptional (ZObject [(''youtube'', ZOptional (ZString [S_Url])), (''facebook'', ZOptional (ZString [S_Url])), (''instagram'', ZOptional (ZString [S_Url]))])),
      (''message'', ZOptional (ZString [S_Trim, S_Max 500]))]"

definition VerifyDonationBodySchema :: schema where
  "VerifyDonationBodySchema = ZObject
     [(''razorpay_order_id'', ZString [S_Min 1]),
      (''razorpay_payment_id'', ZString [S_Min 1]),
      (''razorpay_signature'', ZString [S_Min 1])]"

definition TopDonorsQuerySchema :: schema where
  "TopDonorsQuerySchema = ZObject
     [(''limit'', ZDefault (ZCoerceNumber [N_Int, N_Min 1, N_Max 50]) (Z_Number 50))]"

definition PostIdParamsSchema :: schema where
  "PostIdParamsSchema = ZObject
     [(''id'', ObjectIdHex)]"

definition ListPostsQuerySchema :: schema where
  "ListPostsQuerySchema = ZObject
     [(''date'', DayKey),
      (''tier'', TierSchema)]"

definition TodayPoolQuerySchema :: schema where
  "TodayPoolQuerySchema = ZObject
     [(''tier'', TierSchema)]"

definition SupplierNameEnum :: schema where
  "SupplierNameEnum = ZEnum [''Xoxoday'', ''Plum'', ''Zaggle'', ''Qwikcilver'', ''Pine Labs'']"

definition AdminUploadBatchMetaSchema :: schema where
  "AdminUploadBatchMetaSchema = ZObject
     [(''supplierName'', SupplierNameEnum),
      (''supplierInvoiceNumber'', ZOptional (ZString [S_Min 1, S_Max 200])),
      (''supplierInvoiceUrl'', ZOptional (ZString [S_Min 1, S_Max 500])),
      (''denomination'', ZDefault (ZCoerceNumber [N_Int, N_Positive]) (Z_Number 5000)),
      (''notes'', ZOptional (ZString [S_Max 1000]))]"

definition AdminPublishBatchBodySchema :: "zod_host \<Rightarrow> schema" where
  "AdminPublishBatchBodySchema H = ZObject
     [(''batchId'', ObjectIdParam H),
      (''postId'', ObjectIdParam H),
      (''count'', ZCoerceNumber [N_Int, N_Positive, N_Max 10000])]"

definition AdminVoidCodeBodySchema :: schema where
  "AdminVoidCodeBodySchema = ZObject
     [(''reason'', ZString [S_Min 1, S_Max 500])]"

definition AdminListCodesQuerySchema :: "zod_host \<Rightarrow> schema" where
  "AdminListCodesQuerySchema H = ZObject
     [(''status'', ZOptional (ZEnum [''AVAILABLE'', ''PUBLISHED'', ''COPIED'', ''CLAIMED'', ''EXPIRED'', ''VOID''])),
      (''batchId'', ZOptional (ObjectIdParam H)),
      (''postId'', ZOptional (ObjectIdParam H)),
      (''cursor'', ZOptional (ZString [])),
      (''limit'', ZDefault (ZCoerceNumber [N_Int, N_Min 1, N_Max 200]) (Z_Number 50))]"

definition CodePostIdParamsSchema :: "zod_host \<Rightarrow> schema" where
  "CodePostIdParamsSchema H = ZObject [(''id'', ObjectIdParam H)]"

definition CodeIdParamsSchema :: "zod_host \<Rightarrow> schema" where
  "CodeIdParamsSchema H = ZObject [(''id'', ObjectIdParam H)]"

definition CreateSubscriptionBodySchema :: schema where
  "CreateSubscriptionBodySchema = ZObject
     [(''tier'', PaidTierSchema)]"

definition VerifySubscriptionBodySchema :: schema where
  "VerifySubscriptionBodySchema = ZObject
     [(''razorpay_payment_id'', ZString [S_Min 1]),
      (''razorpay_subscription_id'', ZString [S_Min 1]),
      (''razorpay_signature'', ZString [S_Min 1])]"

definition CancelSubscriptionBodySchema :: schema where
  "CancelSubscriptionBodySchema = ZObject
     [(''atCycleEnd'', ZCoerceBool)]"

definition SubscriptionIdParamsSchema :: "zod_host \<Rightarrow> schema" where
  "SubscriptionIdParamsSchema H = ZObject [(''id'', ObjectIdParam H)]"

definition ListCoinsQuerySchema :: schema where
  "ListCoinsQuerySchema = ZObject
     [(''cursor'', ZOptional (ZString [])),
      (''limit'', ZDefault (ZCoerceNumber [N_Int, N_Min 1, N_Max 100]) (Z_Number 50))]"

definition CastVoteBodySchema :: schema where
  "CastVoteBodySchema = ZObject
     [(''target'', ZString [S_Trim, S_Min 1, S_Max 100]),
      (''tier'', TierSchema)]"

definition TodayQuerySchema :: schema where
  "TodayQuerySchema = ZObject
     [(''tier'', ZOptional TierSchema)]"

section \<open>What a schema lets through\<close>

text \<open>The schemas that the controllers and the body validator apply to a request.\<close>

definition request_schemas :: "zod_host \<Rightarrow> (string \<times> schema) list" where
  "request_schemas H =
     [(''AdminAdminUsersListQuerySchema'', AdminAdminUsersListQuerySchema),
      (''AdminAdminUsersCreateBodySchema'', AdminAdminUsersCreateBodySchema),
      (''AdminAdminUsersRoleChangeBodySchema'', AdminAdminUsersRoleChangeBodySchema),
      (''AdminAdminUsersToggle2FaBodySchema'', AdminAdminUsersToggle2FaBodySchema),
      (''AdminAdminUsersForceLogoutBodySchema'', AdminAdminUsersForceLogoutBodySchema),
      (''AdminAdminUsersDeactivateBodySchema'', AdminAdminUsersDeactivateBodySchema),
      (''AdminAdsConfigUpsertBodySchema'', AdminAdsConfigUpsertBodySchema),
      (''AdminAdsConfigPlacementParamSchema'', AdminAdsConfigPlacementParamSchema),
      (''AdminAppConfigPatchBodySchema'', AdminAppConfigPatchBodySchema),
      (''AdminAuditLogsListQuerySchema'', AdminAuditLogsListQuerySchema),
      (''AdminLoginBodySchema'', AdminLoginBodySchema),
      (''AdminCmsUpsertBodySchema'', AdminCmsUpsertBodySchema),
      (''AdminRoomCreateBodySchema'', AdminRoomCreateBodySchema),
      (''AdminRoomCredentialsBodySchema'', AdminRoomCredentialsBodySchema),
      (''AdminEnterResultsBodySchema'', AdminEnterResultsBodySchema),
      (''AdminAssignWinnersBodySchema'', AdminAssignWinnersBodySchema),
      (''AdminRoomsListQuerySchema'', AdminRoomsListQuerySchema),
      (''AdminDlqListQuerySchema'', AdminDlqListQuerySchema),
      (''AdminDlqRequeueBodySchema'', AdminDlqRequeueBodySchema),
      (''AdminDonationsListQuerySchema'', AdminDonationsListQuerySchema),
      (''AdminBroadcastBodySchema'', AdminBroadcastBodySchema),
      (''AdminPostCreateBodySchema'', AdminPostCreateBodySchema),
      (''AdminPostUpdateBodySchema'', AdminPostUpdateBodySchema),
      (''AdminPostListQuerySchema'', AdminPostListQuerySchema),
      (''AdminPrizePoolsListQuerySchema'', AdminPrizePoolsListQuerySchema),
      (''AdminPrizePoolRunBodySchema'', AdminPrizePoolRunBodySchema),
      (''AdminPrizePoolWinnersQuerySchema'', AdminPrizePoolWinnersQuerySchema),
      (''AdminMarkPayoutBodySchema'', AdminMarkPayoutBodySchema),
      (''AdminInitiateRefundBodySchema'', AdminInitiateRefundBodySchema),
      (''AdminSponsorsListQuerySchema'', AdminSponsorsListQuerySchema),
      (''AdminSponsorCreateBodySchema'', AdminSponsorCreateBodySchema),
      (''AdminSponsorUpdateBodySchema'', AdminSponsorUpdateBodySchema),
      (''AdminSubscriptionsListQuerySchema'', AdminSubscriptionsListQuerySchema),
      (''AdminSubscriptionsRevenueQuerySchema'', AdminSubscriptionsRevenueQuerySchema),
      (''AdminUsersListQuerySchema'', AdminUsersListQuerySchema),
      (''AdminUserBlockBodySchema'', AdminUserBlockBodySchema),
      (''AdminUserUnblockBodySchema'', AdminUserUnblockBodySchema),
      (''AdminUserCoinAdjustBodySchema'', AdminUserCoinAdjustBodySchema),
      (''AdminUserForceLogoutBodySchema'', AdminUserForceLogoutBodySchema),
      (''AdminUserErasureHoldBodySchema'', AdminUserErasureHoldBodySchema),
      (''AdminUserErasureHoldClearBodySchema'', AdminUserErasureHoldClearBodySchema),
      (''RequestSignupOtpBodySchema'', RequestSignupOtpBodySchema),
      (''VerifySignupOtpBodySchema'', VerifySignupOtpBodySchema),
      (''RequestLoginOtpBodySchema'', RequestLoginOtpBodySchema),
      (''VerifyLoginOtpBodySchema'', VerifyLoginOtpBodySchema),
      (''RefreshBodySchema'', RefreshBodySchema),
      (''LogoutBodySchema'', LogoutBodySchema),
      (''ListRoomsQuerySchema'', ListRoomsQuerySchema),
      (''CreateDonationOrderBodySchema'', CreateDonationOrderBodySchema),
      (''VerifyDonationBodySchema'', VerifyDonationBodySchema),
      (''TopDonorsQuerySchema'', TopDonorsQuerySchema),
      (''PostIdParamsSchema'', PostIdParamsSchema),
      (''ListPostsQuerySchema'', ListPostsQuerySchema),
      (''TodayPoolQuerySchema'', TodayPoolQuerySchema),
      (''AdminUploadBatchMetaSchema'', AdminUploadBatchMetaSchema),
      (''AdminVoidCodeBodySchema'', AdminVoidCodeBodySchema),
      (''CreateSubscriptionBodySchema'', CreateSubscriptionBodySchema),
      (''VerifySubscriptionBodySchema'', VerifySubscriptionBodySchema),
      (''CancelSubscriptionBodySchema'', CancelSubscriptionBodySchema),
      (''ListCoinsQuerySchema'', ListCoinsQuerySchema),
      (''CastVoteBodySchema'', CastVoteBodySchema),
      (''TodayQuerySchema'', TodayQuerySchema),
      (''CmsKeySchema'', CmsKeySchema),
      (''AdminListCodesQuerySchema'', AdminListCodesQuerySchema H),
      (''AdminPublishBatchBodySchema'', AdminPublishBatchBodySchema H),
      (''CodePostIdParamsSchema'', CodePostIdParamsSchema H),
      (''CodeIdParamsSchema'', CodeIdParamsSchema H),
      (''RoomIdParamsSchema'', RoomIdParamsSchema H),
      (''SubscriptionIdParamsSchema'', SubscriptionIdParamsSchema H)]"

text \<open>
  The values of a schema. A check on a text is about the text that is handed on when no
  transformation follows it, which is so in every schema of the program.
\<close>

fun transforming :: "str_check \<Rightarrow> bool" where
  "transforming S_Trim \<longleftrightarrow> True"
| "transforming S_Upper \<longleftrightarrow> True"
| "transforming S_Url \<longleftrightarrow> True"
| "transforming c \<longleftrightarrow> False"

definition fits_text :: "zod_host \<Rightarrow> str_check list \<Rightarrow> string \<Rightarrow> bool" where
  "fits_text H cs s \<longleftrightarrow> list_all (\<lambda>c. transforming c \<or> run_str_check H c s = Some s) cs"

fun settled :: "str_check list \<Rightarrow> bool" where
  "settled [] \<longleftrightarrow> True"
| "settled (c # cs) \<longleftrightarrow> (transforming c \<or> list_all (\<lambda>c. \<not> transforming c) cs) \<and> settled cs"

fun fits :: "zod_host \<Rightarrow> schema \<Rightarrow> zod_value \<Rightarrow> bool" where
  "fits H (ZString cs) v = (case v of Z_String s \<Rightarrow> fits_text H cs s | _ \<Rightarrow> False)"
| "fits H (ZNumber ns) v = (case v of Z_Number n \<Rightarrow> list_all (\<lambda>c. run_num_check c n) ns | _ \<Rightarrow> False)"
| "fits H (ZCoerceNumber ns) v = (case v of Z_Number n \<Rightarrow> list_all (\<lambda>c. run_num_check c n) ns | _ \<Rightarrow> False)"
| "fits H ZBool v = (case v of Z_Bool b \<Rightarrow> True | _ \<Rightarrow> False)"
| "fits H ZCoerceBool v = (case v of Z_Bool b \<Rightarrow> True | _ \<Rightarrow> False)"
| "fits H ZCoerceDate v = (case v of Z_Date d \<Rightarrow> True | _ \<Rightarrow> False)"
| "fits H (ZEnum es) v = (case v of Z_String s \<Rightarrow> s \<in> set es | _ \<Rightarrow> False)"
| "fits H ZRecord v = (case v of Z_Object kvs \<Rightarrow> True | _ \<Rightarrow> False)"
| "fits H (ZArray m s) v = (case v of Z_Array vs \<Rightarrow> m \<le> length vs \<and> list_all (fits H s) vs | _ \<Rightarrow> False)"
| "fits H (ZObject fs) v =
     (case v of
        Z_Object kvs \<Rightarrow> distinct (map fst kvs) \<and> fst ` set kvs \<subseteq> fst ` set fs \<and> list_all (\<lambda>(k, s). fits H s (js_prop k kvs)) fs
      | _ \<Rightarrow> False)"
| "fits H (ZOptional s) v \<longleftrightarrow> v = Z_Undefined \<or> fits H s v"
| "fits H (ZDefault s d) v \<longleftrightarrow> v = d \<or> fits H s v"
| "fits H (ZTransform s f) v \<longleftrightarrow> (\<exists>w. fits H s w \<and> f w = Some v)"
| "fits H (ZRefine s p) v \<longleftrightarrow> fits H s v \<and> p v"
| "fits H (ZUnion d alts) v \<longleftrightarrow> list_ex (\<lambda>(t, s). fits H s v) alts"

fun well_formed :: "schema \<Rightarrow> bool" where
  "well_formed (ZString cs) \<longleftrightarrow> settled cs"
| "well_formed (ZArray m s) \<longleftrightarrow> well_formed s"
| "well_formed (ZObject fs) \<longleftrightarrow> distinct (map fst fs) \<and> list_all (\<lambda>(k, s). well_formed s) fs"
| "well_formed (ZOptional s) \<longleftrightarrow> well_formed s"
| "well_formed (ZDefault s d) \<longleftrightarrow> well_formed s"
| "well_formed (ZTransform s f) \<longleftrightarrow> well_formed s"
| "well_formed (ZRefine s p) \<longleftrightarrow> well_formed s"
| "well_formed (ZUnion d alts) \<longleftrightarrow> list_all (\<lambda>(k, s). well_formed s) alts"
| "well_formed s \<longleftrightarrow> True"

lemma checks_without_transform:
  "str_checks H cs s = Some t \<Longrightarrow> list_all (\<lambda>c. \<not> transforming c) cs \<Longrightarrow> t = s"
  by (induction cs arbitrary: s) (auto elim!: transforming.elims split: option.splits if_splits)

lemma keeps_text: "\<not> transforming c \<Longrightarrow> run_str_check H c s = Some t \<Longrightarrow> t = s"
  by (cases c) (auto split: if_splits)

lemma settled_fits: "settled cs \<Longrightarrow> str_checks H cs s = Some t \<Longrightarrow> fits_text H cs t"
proof (induction cs arbitrary: s)
  case (Cons c cs)
  then obtain r where r: "run_str_check H c s = Some r" "str_checks H cs r = Some t" by (auto split: option.splits)
  show ?case
  proof (cases "transforming c")
    case False
    then have "t = r" "r = s" using Cons.prems(1) checks_without_transform [OF r(2)] keeps_text [OF _ r(1)] by auto
    then show ?thesis using Cons r by (auto simp: fits_text_def)
  qed (use Cons r in \<open>auto simp: fits_text_def\<close>)
qed (simp add: fits_text_def)

lemma those_Some: "those xs = Some ys \<longleftrightarrow> xs = map Some ys"
proof (induction xs arbitrary: ys)
  case (Cons x xs)
  then show ?case by (cases ys) (auto split: option.splits)
qed auto

lemma prop_entries:
  assumes "distinct ks" "k \<in> set ks"
  shows "js_prop k (concat (map (\<lambda>k. field_entry k (g k)) ks)) = g k"
  using assms
proof (induction ks)
  case (Cons j ks)
  have "map_of (concat (map (\<lambda>k. field_entry k (g k)) ks)) j = None" if "j \<notin> set ks" for j
    using that by (auto simp: map_of_eq_None_iff field_entry_def split: if_splits)
  then show ?case using Cons by (auto simp: js_prop_def field_entry_def)
qed simp

lemma fields_parsed:
  assumes "parse_fields parse fs kvs = Some out" "distinct (map fst fs)"
  shows "distinct (map fst out)" "fst ` set out \<subseteq> fst ` set fs" "(k, s) \<in> set fs \<Longrightarrow> parse s (js_prop k kvs) = Some (js_prop k out)"
proof -
  obtain es where es: "map (\<lambda>(k, s). map_option (field_entry k) (parse s (js_prop k kvs))) fs = map Some es" "out = concat es"
    using assms(1) by (auto simp: parse_fields_def those_Some)
  define g where "g k = the (parse (the (map_of fs k)) (js_prop k kvs))" for k
  have p: "parse s (js_prop k kvs) = Some (g k)" if "(k, s) \<in> set fs" for k s
  proof -
    have "map_option (field_entry k) (parse s (js_prop k kvs)) \<in> set (map Some es)"
      unfolding es(1) [symmetric] using that by force
    then show ?thesis using that map_of_is_SomeI [OF assms(2) that] by (auto simp: g_def)
  qed
  have "map Some es = map Some (map (\<lambda>(k, s). field_entry k (g k)) fs)"
    unfolding es(1) [symmetric] by (auto simp: p)
  then have "es = map (\<lambda>(k, s). field_entry k (g k)) fs" by (simp only: inj_map_eq_map [OF inj_Some])
  then have out: "out = concat (map (\<lambda>k. field_entry k (g k)) (map fst fs))" using es(2) by (simp add: comp_def case_prod_unfold)
  have d: "distinct (map fst (concat (map (\<lambda>k. field_entry k (g k)) ks)))" if "distinct ks" for ks
    using that by (induction ks) (auto simp: field_entry_def split: if_splits)
  show "distinct (map fst out)" unfolding out by (rule d [OF assms(2)])
  show "fst ` set out \<subseteq> fst ` set fs" unfolding out by (auto simp: field_entry_def image_iff split: if_splits) force+
  show "(k, s) \<in> set fs \<Longrightarrow> parse s (js_prop k kvs) = Some (js_prop k out)"
    using prop_entries [OF assms(2), of k g] p [of k s] unfolding out by force
qed

context zod
begin

lemma parse_fits: "well_formed s \<Longrightarrow> parse s v = Some w \<Longrightarrow> fits H s w"
proof (induction s arbitrary: v w)
  case (ZObject fs)
  from ZObject.prems(2) obtain kvs out where o: "v = Z_Object kvs" "parse_fields parse fs kvs = Some out" "w = Z_Object out"
    by (auto simp: laws split: zod_value.splits if_splits)
  have d: "distinct (map fst fs)" using ZObject.prems(1) by simp
  have "fits H s (js_prop k out)" if "(k, s) \<in> set fs" for k s
    using ZObject.IH [OF that _ _ fields_parsed(3) [OF o(2) d that]] ZObject.prems(1) that by (auto simp: list_all_iff)
  then show ?case using fields_parsed(1,2) [OF o(2) d] by (auto simp: o(3) list_all_iff)
next
  case (ZArray m s)
  from ZArray.prems(2) obtain vs ws where "v = Z_Array vs" "w = Z_Array ws" "map (parse s) vs = map Some ws" "m \<le> length vs"
    by (auto simp: laws those_Some split: zod_value.splits if_splits)
  moreover from this have "length ws = length vs" by (metis length_map)
  moreover have "fits H s x" if "x \<in> set ws" for x
  proof -
    have "Some x \<in> set (map (parse s) vs)" using that calculation(3) by simp
    then show ?thesis using ZArray by auto
  qed
  ultimately show ?case by (simp add: list_all_iff)
next
  case (ZUnion d alts)
  from ZUnion.prems(2) obtain tag s where "map_of alts tag = Some s" "parse s v = Some w"
    by (auto simp: laws split: zod_value.splits option.splits)
  then show ?case using ZUnion.IH [OF map_of_SomeD] ZUnion.prems(1) by (fastforce simp: list_ex_iff list_all_iff dest: map_of_SomeD)
qed (auto simp: laws settled_fits split: zod_value.splits option.splits if_splits elim!: check_number.elims)

end

lemmas schema_defs =
  TierSchema_def PaidTierSchema_def ObjectIdHex_def DayKey_def GameSchema_def Reason_def ReasonBody_def AdminRoleSchema_def
  AdminAdminUsersListQuerySchema_def AdminAdminUsersCreateBodySchema_def AdminAdminUsersRoleChangeBodySchema_def
  AdminAdminUsersToggle2FaBodySchema_def AdminAdminUsersForceLogoutBodySchema_def AdminAdminUsersDeactivateBodySchema_def
  AdTypeSchema_def AdNetworkSchema_def MinTierSchema_def AdminAdsConfigUpsertBodySchema_def
  AdminAdsConfigPlacementParamSchema_def TimeOfDay_def AdminAppConfigPatchBodySchema_def AdminAuditLogsListQuerySchema_def
  AdminLoginBodySchema_def CmsKeySchema_def AdminCmsUpsertBodySchema_def AdminRoomCreateBodySchema_def
  AdminRoomCredentialsBodySchema_def WinnerBucketSchema_def AdminEnterResultsBodySchema_def WinnerItemSchema_def
  AdminAssignWinnersBodySchema_def AdminRoomsListQuerySchema_def AdminDlqListQuerySchema_def AdminDlqRequeueBodySchema_def
  AdminDonationsListQuerySchema_def AllTargetSchema_def TierTargetSchema_def UserTargetSchema_def AdminBroadcastBodySchema_def
  PostStatusSchema_def AdsConfigSchema_def AdminPostCreateBodySchema_def AdminPostUpdateBodySchema_def
  AdminPostListQuerySchema_def AdminPrizePoolsListQuerySchema_def AdminPrizePoolRunBodySchema_def
  AdminPrizePoolWinnersQuerySchema_def AdminMarkPayoutBodySchema_def AdminInitiateRefundBodySchema_def SponsorStatusSchema_def
  AdminSponsorsListQuerySchema_def AdminSponsorCreateBodySchema_def AdminSponsorUpdateBodySchema_def SubStatusSchema_def
  AdminSubscriptionsListQuerySchema_def AdminSubscriptionsRevenueQuerySchema_def AdminUsersListQuerySchema_def
  AdminUserBlockBodySchema_def AdminUserUnblockBodySchema_def AdminUserCoinAdjustBodySchema_def
  AdminUserForceLogoutBodySchema_def AdminUserErasureHoldBodySchema_def AdminUserErasureHoldClearBodySchema_def PhoneSchema_def
  OtpSchema_def DeviceIdSchema_def DeviceFingerprintSchema_def DeclaredStateSchema_def ReferralCodeSchema_def
  RequestSignupOtpBodySchema_def VerifySignupOtpBodySchema_def RequestLoginOtpBodySchema_def VerifyLoginOtpBodySchema_def
  RefreshBodySchema_def LogoutBodySchema_def ObjectIdParam_def ListRoomsQuerySchema_def RoomIdParamsSchema_def
  CreateDonationOrderBodySchema_def VerifyDonationBodySchema_def TopDonorsQuerySchema_def PostIdParamsSchema_def
  ListPostsQuerySchema_def TodayPoolQuerySchema_def SupplierNameEnum_def AdminUploadBatchMetaSchema_def
  AdminPublishBatchBodySchema_def AdminVoidCodeBodySchema_def AdminListCodesQuerySchema_def CodePostIdParamsSchema_def CodeIdParamsSchema_def
  CreateSubscriptionBodySchema_def VerifySubscriptionBodySchema_def CancelSubscriptionBodySchema_def
  SubscriptionIdParamsSchema_def ListCoinsQuerySchema_def CastVoteBodySchema_def TodayQuerySchema_def

lemma request_schemas_well_formed: "list_all (\<lambda>(_, s). well_formed s) (request_schemas H)"
  by (simp add: request_schemas_def schema_defs)

text \<open>A host for examples: dates and numbers written as digits.\<close>

definition sample_host :: zod_host where
  "sample_host = \<lparr>
     zh_Number = (\<lambda>v. case v of
        Z_Null \<Rightarrow> Z_Number 0 | Z_Bool b \<Rightarrow> Z_Number (of_bool b) | Z_Number n \<Rightarrow> Z_Number n
      | Z_String s \<Rightarrow> if list_all js_digit s then Z_Number (digits_value s) else Z_NonInteger ''NaN'' | _ \<Rightarrow> Z_NonInteger ''NaN''),
     zh_Date = (\<lambda>v. case v of
        Z_Null \<Rightarrow> Some 0 | Z_Bool b \<Rightarrow> Some (of_bool b) | Z_Number n \<Rightarrow> Some n | Z_Date d \<Rightarrow> Some d
      | Z_String s \<Rightarrow> if s \<noteq> [] \<and> list_all js_digit s then Some (digits_value s) else None | _ \<Rightarrow> None),
     zh_upper = js_upper,
     zh_email = (\<lambda>s. CHR ''@'' \<in> set s),
     zh_url = (\<lambda>s. if take 8 s = ''https://'' then Some s else None),
     zh_isValid = RX_OBJECT_ID,
     zh_oid = (\<lambda>s. nat (digits_value (drop 12 s)))\<rparr>"



end
