(* ===== verification/Votes.thy ===== *)
theory Votes
  imports Tier Calendar Coins Samples
begin

text \<open>
  Casting a vote (src/modules/votes/votes.service.ts, Vote.repository.ts). The handler reads
  the user and checks block, tier access and balance outside the transaction; the
  transaction inserts the vote under the unique index on user, tier and day, debits the
  user with a guarded update and appends the ledger row; a coin event follows the commit.
  The two halves are separate definitions because other requests can run between them; the
  root theory interleaves them.
\<close>

section \<open>Operations\<close>

definition VOTE_COST :: coins where
  "VOTE_COST = 3"

record vote_input =
  vi_userId :: oid
  vi_tier :: tier
  vi_target :: string
  vi_ipAddress :: string
  vi_deviceFingerprint :: "string option"

record vote_result =
  vr_coinBalance :: coins
  vr_dayKey :: day_key
  vr_tier :: tier

definition castVote_check :: "vote_input \<Rightarrow> date \<Rightarrow> db \<Rightarrow> app_error + unit" where
  "castVote_check inp now s =
     (case findOne (\<lambda>u. u_id u = vi_userId inp) (users s) of
        None \<Rightarrow> Inl UnauthorizedError
      | Some user \<Rightarrow>
          if bl_isBlocked (u_blocked user) then Inl (ForbiddenError ''USER_BLOCKED'')
          else if \<not> userCanAccessTier (u_subscriptions user) (vi_tier inp) now
          then Inl (ForbiddenError ''TIER_NOT_ACCESSIBLE'')
          else if u_coinBalance user < VOTE_COST
          then Inl (PaymentRequiredError ''INSUFFICIENT_COINS'')
          else Inr ())"

definition vote_row :: "vote_input \<Rightarrow> day_key \<Rightarrow> date \<Rightarrow> oid \<Rightarrow> vote" where
  "vote_row inp dayKey now voteId =
     \<lparr>v_id = voteId, v_createdAt = now, v_userId = vi_userId inp, v_dayKey = dayKey,
      v_tier = vi_tier inp, v_target = vi_target inp, v_coinsSpent = VOTE_COST,
      v_ipAddress = Some (vi_ipAddress inp),
      v_device = (if truthy_str (vi_deviceFingerprint inp) then vi_deviceFingerprint inp else None)\<rparr>"

definition vote_debit :: "day_key \<Rightarrow> user \<Rightarrow> user" where
  "vote_debit dayKey u =
     u\<lparr>u_coinBalance := u_coinBalance u - VOTE_COST, u_totalVotesCast := u_totalVotesCast u + 1,
       u_lastVoteDate := Some dayKey\<rparr>"

definition vote_guard :: "oid \<Rightarrow> user \<Rightarrow> bool" where
  "vote_guard userId u \<longleftrightarrow>
     u_id u = userId \<and> u_coinBalance u \<ge> VOTE_COST \<and> \<not> bl_isBlocked (u_blocked u)"

definition vote_spend_row :: "vote_input \<Rightarrow> coins \<Rightarrow> date \<Rightarrow> oid \<Rightarrow> oid \<Rightarrow> coin_tx" where
  "vote_spend_row inp balanceAfter now voteId txId =
     \<lparr>ct_id = txId, ct_createdAt = now, ct_userId = vi_userId inp, ct_type = VOTE_SPEND,
      ct_amount = - VOTE_COST, ct_balanceAfter = balanceAfter,
      ct_reference = Some (Ref_Vote, Some voteId), ct_note = None, ct_reason = None\<rparr>"

definition castVote_tx ::
  "vote_input \<Rightarrow> day_key \<Rightarrow> date \<Rightarrow> oid \<Rightarrow> oid \<Rightarrow> db \<Rightarrow> (app_error + vote_result) \<times> db" where
  "castVote_tx inp dayKey now voteId txId =
     transaction (\<lambda>s.
       case insertIfAbsent vote_clash (vote_row inp dayKey now voteId) (votes s) of
         None \<Rightarrow> (Inl (ConflictError ''VOTE_ALREADY_CAST''), s)
       | Some vs \<Rightarrow>
           (case findOneAndUpdate (vote_guard (vi_userId inp)) (vote_debit dayKey) (users s) of
              (None, _) \<Rightarrow> (Inl (PaymentRequiredError ''INSUFFICIENT_COINS''), s)
            | (Some updated, us) \<Rightarrow>
                let tx = vote_spend_row inp (u_coinBalance updated) now voteId txId
                in (Inr \<lparr>vr_coinBalance = u_coinBalance updated, vr_dayKey = dayKey, vr_tier = vi_tier inp\<rparr>,
                    s\<lparr>votes := vs, users := us, coin_txs := coin_txs s @ [tx]\<rparr>)))"

definition castVote_commit ::
  "vote_input \<Rightarrow> day_key \<Rightarrow> date \<Rightarrow> oid \<Rightarrow> oid \<Rightarrow> db \<Rightarrow> (app_error + vote_result) \<times> db" where
  "castVote_commit inp dayKey now voteId txId s =
     (case castVote_tx inp dayKey now voteId txId s of
        (Inl e, s') \<Rightarrow> (Inl e, s')
      | (Inr result, s') \<Rightarrow>
          (Inr result,
           s'\<lparr>coin_events := coin_events s' @
                [\<lparr>ce_userId = vi_userId inp, ce_coinBalance = vr_coinBalance result, ce_reason = VOTE_SPEND\<rparr>]\<rparr>))"

definition castVote ::
  "dayjs \<Rightarrow> vote_input \<Rightarrow> date \<Rightarrow> oid \<Rightarrow> oid \<Rightarrow> db \<Rightarrow> (app_error + vote_result) \<times> db" where
  "castVote dj inp now voteId txId s =
     (let dayKey = dayKeyIst dj now
      in case castVote_check inp now s of
           Inl e \<Rightarrow> (Inl e, s)
         | Inr _ \<Rightarrow> castVote_commit inp dayKey now voteId txId s)"

record today_status =
  ts_canVote :: bool
  ts_dayKey :: day_key
  ts_tier :: tier
  ts_votedAt :: "date option"
  ts_totalVotesToday :: int

definition findByUserDayTier :: "oid \<Rightarrow> tier \<Rightarrow> day_key \<Rightarrow> vote list \<Rightarrow> vote option" where
  "findByUserDayTier userId tier dayKey vs =
     findOne (\<lambda>v. v_userId v = userId \<and> v_tier v = tier \<and> v_dayKey v = dayKey) vs"

definition getTodayStatus :: "dayjs \<Rightarrow> oid \<Rightarrow> tier \<Rightarrow> date \<Rightarrow> db \<Rightarrow> today_status" where
  "getTodayStatus dj userId tier now s =
     (let dayKey = dayKeyIst dj now;
          vote = findByUserDayTier userId tier dayKey (votes s);
          totalVotesToday = count_docs (\<lambda>v. v_tier v = tier \<and> v_dayKey v = dayKey) (votes s)
      in \<lparr>ts_canVote = (vote = None), ts_dayKey = dayKey, ts_tier = tier,
          ts_votedAt = map_option v_createdAt vote, ts_totalVotesToday = totalVotesToday\<rparr>)"

section \<open>The transaction\<close>

interpretation vote_debit: ledger_write "vote_debit dk" "- VOTE_COST" for dk
  by unfold_locales (simp_all add: vote_debit_def)

lemma vote_key_row [simp]: "vote_key (vote_row inp dk now vid) = Some (vi_userId inp, vi_tier inp, dk)"
  by (simp add: vote_key_def vote_row_def)

lemma castVote_tx_Inr:
  assumes "castVote_tx inp dk now vid tid s = (Inr r, s')"
  obtains u where "findOne (vote_guard (vi_userId inp)) (users s) = Some u"
    "create vote_clash (vote_row inp dk now vid) (votes s) = Inr (votes s')"
    "users s' = update_first (vote_guard (vi_userId inp)) (vote_debit dk) (users s)"
    "coin_txs s' = coin_txs s @ [vote_spend_row inp (u_coinBalance u - VOTE_COST) now vid tid]"
    "vr_coinBalance r = u_coinBalance u - VOTE_COST" "coin_events s' = coin_events s"
    "post_completions s' = post_completions s" "posts s' = posts s"
  using assms
  by (auto simp: castVote_tx_def transaction_Inr insertIfAbsent_def findOneAndUpdate_def Let_def
      vote_debit_def split: option.splits sum.splits)

lemma castVote_tx_Inl: "castVote_tx inp dk now vid tid s = (Inl e, s') \<Longrightarrow> s' = s"
  unfolding castVote_tx_def by (rule transaction_Inl)

lemma castVote_tx_keeps:
  assumes "Q s" and "\<And>r s'. castVote_tx inp dk now vid tid s = (Inr r, s') \<Longrightarrow> Q s'"
  shows "Q (snd (castVote_tx inp dk now vid tid s))"
  using assms castVote_tx_Inl [of inp dk now vid tid s]
  by (cases "castVote_tx inp dk now vid tid s"; cases "fst (castVote_tx inp dk now vid tid s)") auto

lemma castVote_tx_coin_inv:
  assumes inv: "coin_inv (users s) (coin_txs s)"
  shows "coin_inv (users (snd (castVote_tx inp dk now vid tid s)))
           (coin_txs (snd (castVote_tx inp dk now vid tid s)))"
proof (rule castVote_tx_keeps, rule inv)
  fix r s' assume "castVote_tx inp dk now vid tid s = (Inr r, s')"
  then obtain u where u: "findOne (vote_guard (vi_userId inp)) (users s) = Some u"
    "users s' = update_first (vote_guard (vi_userId inp)) (vote_debit dk) (users s)"
    "coin_txs s' = coin_txs s @ [vote_spend_row inp (u_coinBalance u - VOTE_COST) now vid tid]"
    by (rule castVote_tx_Inr)
  have "findOneAndUpdate (vote_guard (vi_userId inp)) (vote_debit dk) (users s) =
      (Some (vote_debit dk u), users s')"
    using u by (simp add: findOneAndUpdate_def)
  then show "coin_inv (users s') (coin_txs s')"
    unfolding u(3)
    by (rule vote_debit.coin_inv_write [OF inv, rotated])
      (auto simp: vote_guard_def vote_spend_row_def vote_debit_def)
qed

lemma castVote_tx_solvent:
  assumes "solvent (users s)"
  shows "solvent (users (snd (castVote_tx inp dk now vid tid s)))"
proof (rule castVote_tx_keeps, rule assms)
  fix r s' assume "castVote_tx inp dk now vid tid s = (Inr r, s')"
  then have "users s' = update_first (vote_guard (vi_userId inp)) (vote_debit dk) (users s)"
    by (rule castVote_tx_Inr)
  then show "solvent (users s')"
    using vote_debit.solvent_write [OF assms, of "vote_guard (vi_userId inp)" dk]
    by (simp add: vote_guard_def)
qed

lemma castVote_tx_unique:
  assumes "unique_on vote_key (votes s)"
  shows "unique_on vote_key (votes (snd (castVote_tx inp dk now vid tid s)))"
proof (rule castVote_tx_keeps, rule assms)
  fix r s' assume "castVote_tx inp dk now vid tid s = (Inr r, s')"
  then have "create vote_clash (vote_row inp dk now vid) (votes s) = Inr (votes s')"
    by (rule castVote_tx_Inr)
  with assms show "unique_on vote_key (votes s')" by (rule vote_index.create_unique)
qed

section \<open>The handler\<close>

lemma guard_iff_check:
  assumes "distinct (map u_id (users s))" and "findOne (\<lambda>u. u_id u = uid) (users s) = Some u"
  shows "findOne (vote_guard uid) (users s) =
    (if VOTE_COST \<le> u_coinBalance u \<and> \<not> bl_isBlocked (u_blocked u) then Some u else None)"
proof -
  have u: "u \<in> set (users s)" "u_id u = uid" using findOne_SomeD [OF assms(2)] by auto
  have only: "v = u" if "v \<in> set (users s)" "u_id v = uid" for v
    using distinct_map_eq [OF assms(1) that(1) u(1)] that(2) u(2) by simp
  show ?thesis
  proof (cases "vote_guard uid u")
    case True
    then obtain v where v: "findOne (vote_guard uid) (users s) = Some v"
      using u(1) by (cases "findOne (vote_guard uid) (users s)") (auto dest: findOne_NoneD)
    with findOne_SomeD [OF v] only have "v = u" by (auto simp: vote_guard_def)
    with v True show ?thesis by (simp add: vote_guard_def)
  next
    case False
    then have "findOne (vote_guard uid) (users s) = None"
      using only by (auto simp: findOne_None_iff vote_guard_def)
    with False u(2) show ?thesis by (simp add: vote_guard_def)
  qed
qed

text \<open>C0: the answer of \<open>castVote\<close> for every state and input, in the documented order of the
  errors: unknown user, blocked, tier not accessible, too few coins, already voted; otherwise
  the new balance, which is the old one less the price of a vote.\<close>

theorem castVote_answer:
  assumes "distinct (map u_id (users s))"
  shows "fst (castVote dj inp now vid tid s) =
    (case findOne (\<lambda>u. u_id u = vi_userId inp) (users s) of
       None \<Rightarrow> Inl UnauthorizedError
     | Some u \<Rightarrow>
         if bl_isBlocked (u_blocked u) then Inl (ForbiddenError ''USER_BLOCKED'')
         else if \<not> userCanAccessTier (u_subscriptions u) (vi_tier inp) now
         then Inl (ForbiddenError ''TIER_NOT_ACCESSIBLE'')
         else if u_coinBalance u < VOTE_COST then Inl (PaymentRequiredError ''INSUFFICIENT_COINS'')
         else if \<not> ts_canVote (getTodayStatus dj (vi_userId inp) (vi_tier inp) now s)
         then Inl (ConflictError ''VOTE_ALREADY_CAST'')
         else Inr \<lparr>vr_coinBalance = u_coinBalance u - VOTE_COST, vr_dayKey = dayKeyIst dj now,
                   vr_tier = vi_tier inp\<rparr>)"
proof (cases "findOne (\<lambda>u. u_id u = vi_userId inp) (users s)")
  case (Some u)
  note guard = guard_iff_check [OF assms Some]
  have dup: "list_ex (vote_clash (vote_row inp (dayKeyIst dj now) now vid)) (votes s) \<longleftrightarrow>
      \<not> ts_canVote (getTodayStatus dj (vi_userId inp) (vi_tier inp) now s)"
    unfolding getTodayStatus_def findByUserDayTier_def Let_def list_ex_iff
    by (force simp: findOne_None_iff vote_clash_def vote_row_def)
  show ?thesis
    using guard dup
    by (simp add: castVote_def castVote_check_def Some Let_def castVote_commit_def castVote_tx_def
        transaction_def insertIfAbsent_def create_def findOneAndUpdate_def vote_debit_def)
qed (simp add: castVote_def castVote_check_def Let_def)

theorem castVote_answer_witness:
  "fst (castVote gregorian_ist \<lparr>vi_userId = 1, vi_tier = PUBLIC, vi_target = ''BGMI'', vi_ipAddress = [], vi_deviceFingerprint = None\<rparr>
      1777600000000 8 9 (empty_db\<lparr>users := [sample_user 1 2 []]\<rparr>)) = Inl (PaymentRequiredError ''INSUFFICIENT_COINS'')"
  by (subst castVote_answer)
    (simp_all add: VOTE_COST_def findOne_def sample_user_def userCanAccessTier_def)



end
