(* ===== verification/Code_Claims.thy ===== *)
theory Code_Claims
  imports Redeem_Codes Samples
begin

text \<open>
  What the gift-code operations guarantee together: the invariant of the codes over all runs
  of the operations, first come first served, voiding, the exact effect of publishing,
  uploading, claiming and reconciling.
\<close>

section \<open>Steps keep the invariant\<close>

lemma claim_tx_codes:
  "redeem_codes (snd (claim_commit dec cid uid pan now s)) =
     update_first (\<lambda>c. rc_id c = cid \<and> rc_status c = RC_PUBLISHED) (fcfs_flip uid now) (redeem_codes s)"
proof (cases "findOne (\<lambda>c. rc_id c = cid \<and> rc_status c = RC_PUBLISHED) (redeem_codes s)")
  case None
  then show ?thesis
    by (simp add: claim_commit_def claim_tx_def atomicFcfsClaim_def findOneAndUpdate_def update_first_None)
next
  case (Some c)
  then show ?thesis
    by (simp add: claim_commit_def claim_tx_def atomicFcfsClaim_def findOneAndUpdate_def
        split: prod.splits option.splits)
qed

lemma publish_codes:
  "list_all2 code_evolves (redeem_codes s) (redeem_codes (snd (publishBatchToPost pin now s)))"
proof -
  have refl: "list_all2 code_evolves xs xs" for xs by (simp add: list_all2_same)
  show ?thesis
  proof (cases "findOne (\<lambda>p. p_id p = pb_postId pin) (posts s)")
    case (Some p)
    then show ?thesis
      using publish_loop_evolves [of "redeem_codes s" "nat (pb_count pin)" "pb_batchId pin" "pb_postId pin" "p_tier p" now]
      by (auto simp: publishBatchToPost_def Let_def refl split: option.splits prod.splits)
  qed (simp add: publishBatchToPost_def refl)
qed

lemma reconcile_codes:
  assumes "codes_inv s"
  shows "list_all2 code_evolves (redeem_codes s) (redeem_codes (snd (reconcileCopiedCodes now cutoff s)))"
proof -
  have "list_all2 code_evolves (redeem_codes s)
      (snd (reconcile_loop now (find_docs (stuck_code t) (redeem_codes s)) 0 (redeem_codes s)))" for t
  proof (rule reconcile_loop_evolves)
    show "list_all code_ok (redeem_codes s)" using assms by (simp add: codes_inv_def)
    fix row c
    assume "row \<in> set (find_docs (stuck_code t) (redeem_codes s))" "c \<in> set (redeem_codes s)" "rc_id c = rc_id row"
    then have "c = row" using assms distinct_map_eq [of rc_id "redeem_codes s" c row]
      by (simp add: codes_inv_def find_docs_def)
    then show "rc_firstCopiedBy c = rc_firstCopiedBy row" by simp
  qed
  then show ?thesis by (simp add: reconcileCopiedCodes_def Let_def split: prod.splits) (metis snd_conv)
qed

lemma code_step_inv:
  assumes "code_step s s'" and "codes_inv s"
  shows "codes_inv s' \<and> codes_evolve (redeem_codes s) (redeem_codes s')"
  using assms
proof (induction rule: code_step.induct)
  case (upload ids s enc hmac sec records inp actor now bid)
  then show ?case using uploadBatch_codes [of s ids] by (metis prod.collapse)
next
  case (publish s pin now)
  then show ?case using publish_codes by (rule codes_invI)
next
  case (void s cid reason)
  have "list_all2 code_evolves (redeem_codes s) (redeem_codes (voidCode cid reason s))"
    by (simp add: voidCode_def updateOne_def void.update_evolves)
  with void show ?case by (rule codes_invI)
next
  case (claim s dec cid uid pan now)
  have "list_all2 code_evolves (redeem_codes s) (redeem_codes (snd (claim_commit dec cid uid pan now s)))"
    unfolding claim_tx_codes by (rule fcfs.update_evolves)
  with claim show ?case by (rule codes_invI)
next
  case (mark s cid uid now)
  have "redeem_codes (snd (markClaimed cid uid now s)) =
      update_first (\<lambda>c. rc_id c = cid \<and> rc_status c = RC_COPIED \<and> rc_firstCopiedBy c = Some uid)
        (claimed_flip uid now) (redeem_codes s)"
    by (cases "findOne (\<lambda>c. rc_id c = cid \<and> rc_status c = RC_COPIED \<and> rc_firstCopiedBy c = Some uid) (redeem_codes s)")
      (simp_all add: markClaimed_def findOneAndUpdate_def update_first_None)
  then have "list_all2 code_evolves (redeem_codes s) (redeem_codes (snd (markClaimed cid uid now s)))"
    by (simp add: mark.update_evolves)
  with mark show ?case by (rule codes_invI)
next
  case (reconcile s now cutoff)
  then show ?case using reconcile_codes [OF reconcile] by (rule codes_invI)
qed

lemma code_steps_inv:
  "code_step\<^sup>*\<^sup>* s s' \<Longrightarrow> codes_inv s \<Longrightarrow> codes_inv s' \<and> codes_evolve (redeem_codes s) (redeem_codes s')"
proof (induction rule: rtranclp_induct)
  case (step t u)
  then have t: "codes_inv t" "codes_evolve (redeem_codes s) (redeem_codes t)" by simp_all
  have u: "codes_inv u" "codes_evolve (redeem_codes t) (redeem_codes u)"
    using code_step_inv [OF step.hyps(2) t(1)] by simp_all
  show ?case using u(1) codes_evolve_trans [OF t(2) u(2)] by simp
qed simp

text \<open>A code beyond PUBLISHED is lost to every later claim.\<close>

lemma claim_lost:
  assumes "codes_inv s" and "code_step\<^sup>*\<^sup>* s s2" and "c \<in> set (redeem_codes s)"
    and "code_rank RC_PUBLISHED < code_rank (rc_status c)"
  shows "claim_commit dec (rc_id c) uid pan now s2 = (Inl (ConflictError ''CODE_TAKEN''), s2)"
proof -
  note s2 = code_steps_inv [OF assms(2,1)]
  obtain c' where c': "c' \<in> set (redeem_codes s2)" "code_evolves c c'"
    using s2 assms(3) codes_evolve_elem by blast
  have "\<not> (rc_id d = rc_id c \<and> rc_status d = RC_PUBLISHED)" if "d \<in> set (redeem_codes s2)" for d
  proof
    assume d: "rc_id d = rc_id c \<and> rc_status d = RC_PUBLISHED"
    then have "d = c'" using s2 that c' distinct_map_eq [of rc_id "redeem_codes s2" d c']
      by (simp add: codes_inv_def code_evolves_def)
    then show False using d c'(2) assms(4) by (simp add: code_evolves_def)
  qed
  then have "findOne (\<lambda>d. rc_id d = rc_id c \<and> rc_status d = RC_PUBLISHED) (redeem_codes s2) = None"
    by (simp add: findOne_None_iff)
  then show ?thesis by (simp add: claim_commit_def claim_tx_def atomicFcfsClaim_def findOneAndUpdate_def)
qed

lemma code_okD:
  assumes "code_ok c"
  shows "rc_status c = RC_PUBLISHED \<Longrightarrow> rc_postId c \<noteq> None \<and> rc_firstCopiedBy c = None"
    and "rc_status c = RC_COPIED \<or> rc_status c = RC_CLAIMED \<Longrightarrow> rc_firstCopiedBy c \<noteq> None \<and> rc_copyCount c = 1"
    and "rc_claimedBy c \<noteq> None \<Longrightarrow> rc_claimedBy c = rc_firstCopiedBy c" and "rc_copyCount c \<le> 1"
    and "rc_firstCopiedBy c \<noteq> None \<Longrightarrow> rc_copyCount c = 1"
  using assms unfolding code_ok_def by simp_all

section \<open>Properties\<close>

definition sample_codes :: db where
  "sample_codes = empty_db\<lparr>users := [sample_user 1 10 []], posts := [sample_post 3 PRO],
     post_completions := [sample_completion 4 1 3], code_batches := [sample_batch 9 B_LIVE],
     redeem_codes := [sample_code 5 9 RC_PUBLISHED (Some 3), sample_code 6 9 RC_AVAILABLE None],
     prize_winners := [sample_winner 7 1 5 5000]\<rparr>"

lemma sample_codes_inv: "codes_inv sample_codes"
  by code_simp

abbreviation sample_enc :: "nat \<Rightarrow> string \<Rightarrow> enc_field option" where
  "sample_enc n code \<equiv> Some \<lparr>ef_ct = code, ef_iv = [], ef_tag = [], ef_dekEnc = []\<rparr>"

abbreviation sample_file :: "raw_row list" where
  "sample_file \<equiv> [\<lparr>raw_code = Some '' abc '', raw_denomination = Some ''5000''\<rparr>, \<lparr>raw_code = Some ''ABC'', raw_denomination = Some ''5000''\<rparr>]"

abbreviation sample_upload :: upload_input where
  "sample_upload \<equiv> \<lparr>ui_supplierName = ''WOOHOO'', ui_supplierInvoiceNumber = None, ui_supplierInvoiceUrl = None,
     ui_denomination = None, ui_notes = None\<rparr>"

text \<open>C7: over every run of uploads, publications, claims, declarations, reconciliations and voids,
  in any order and however stale the checks of the claims: no two codes have the same hash,
  a published code has a post and nobody has copied it, a copied code has exactly one
  copier and a copy count of one, and only that user can be recorded as having claimed it.\<close>

theorem codes_reachable_ok:
  assumes "code_step\<^sup>*\<^sup>* s s'" and "redeem_codes s = []"
  shows "unique_on code_key (redeem_codes s') \<and> (\<forall>c \<in> set (redeem_codes s').
    (rc_status c = RC_PUBLISHED \<longrightarrow> rc_postId c \<noteq> None \<and> rc_firstCopiedBy c = None) \<and>
    (rc_status c = RC_COPIED \<or> rc_status c = RC_CLAIMED \<longrightarrow> rc_firstCopiedBy c \<noteq> None \<and> rc_copyCount c = 1) \<and>
    (rc_claimedBy c \<noteq> None \<longrightarrow> rc_claimedBy c = rc_firstCopiedBy c) \<and> rc_copyCount c \<le> 1)"
proof -
  have "codes_inv s" using assms(2) by (simp add: codes_inv_def unique_on_def)
  then have "codes_inv s'" using code_steps_inv [OF assms(1)] by simp
  then have "unique_on code_key (redeem_codes s')" "\<And>c. c \<in> set (redeem_codes s') \<Longrightarrow> code_ok c"
    by (simp_all add: codes_inv_def list_all_iff)
  then show ?thesis using code_okD by blast
qed

theorem codes_reachable_ok_witness:
  "unique_on code_key (redeem_codes (snd (uploadBatch sample_enc (\<lambda>k c. c) [] sample_file sample_upload 1 0 9 id empty_db))) \<and>
   length (redeem_codes (snd (uploadBatch sample_enc (\<lambda>k c. c) [] sample_file sample_upload 1 0 9 id empty_db))) = 1"
proof -
  have "code_step empty_db (snd (uploadBatch sample_enc (\<lambda>k c. c) [] sample_file sample_upload 1 0 9 id empty_db))"
    by (rule code_step.upload) (simp_all add: empty_db_def)
  then have st: "code_step\<^sup>*\<^sup>* empty_db (snd (uploadBatch sample_enc (\<lambda>k c. c) [] sample_file sample_upload 1 0 9 id empty_db))"
    by (rule r_into_rtranclp)
  have e: "redeem_codes empty_db = []" by (simp add: empty_db_def)
  have "length (redeem_codes (snd (uploadBatch sample_enc (\<lambda>k c. c) [] sample_file sample_upload 1 0 9 id empty_db))) = 1"
    by code_simp
  then show ?thesis using codes_reachable_ok [OF st e] by blast
qed

text \<open>C8: first come, first served. Once the claim of a code has succeeded for a user, every later
  claim of that code by anyone, after any further operations, fails with CODE_TAKEN and
  changes nothing, and the code still names the first user as its only copier.\<close>

theorem claim_first_come_first_served:
  assumes "codes_inv s" and "claim_commit dec cid uid pan now s = (Inr r, s1)"
    and "code_step\<^sup>*\<^sup>* s1 s2"
  shows "claim_commit dec' cid uid' pan' now' s2 = (Inl (ConflictError ''CODE_TAKEN''), s2) \<and>
    (\<exists>c \<in> set (redeem_codes s2). rc_id c = cid \<and> rc_firstCopiedBy c = Some uid \<and> rc_copyCount c = 1)"
proof -
  let ?q = "\<lambda>c. rc_id c = cid \<and> rc_status c = RC_PUBLISHED"
  have s1: "codes_inv s1" using code_step_inv [OF code_step.claim assms(1)] assms(2) by (metis snd_conv)
  obtain c where c: "findOne ?q (redeem_codes s) = Some c"
    using assms(2) by (cases "findOne ?q (redeem_codes s)")
      (auto simp: claim_commit_def claim_tx_def atomicFcfsClaim_def findOneAndUpdate_def)
  let ?c = "fcfs_flip uid now c"
  have "redeem_codes s1 = update_first ?q (fcfs_flip uid now) (redeem_codes s)"
    using claim_tx_codes [of dec cid uid pan now s] assms(2) by simp
  then have in1: "?c \<in> set (redeem_codes s1)"
    using updated_in_set [OF c, of "fcfs_flip uid now"] by simp
  have c1: "rc_id ?c = cid" "rc_status ?c = RC_COPIED" "rc_firstCopiedBy ?c = Some uid"
    using findOne_SomeD [OF c] by (simp_all add: fcfs_flip_def)
  then have lost: "claim_commit dec' cid uid' pan' now' s2 = (Inl (ConflictError ''CODE_TAKEN''), s2)"
    using claim_lost [OF s1 assms(3) in1] by simp
  note s2 = code_steps_inv [OF assms(3) s1]
  obtain c2 where c2: "c2 \<in> set (redeem_codes s2)" "code_evolves ?c c2"
    using s2 in1 codes_evolve_elem by blast
  have "code_ok ?c" "code_ok c2" using s1 s2 in1 c2(1) by (auto simp: codes_inv_def list_all_iff)
  then have "rc_id c2 = cid" "rc_firstCopiedBy c2 = Some uid" using c2(2) c1 by (simp_all add: code_evolves_def)
  then show ?thesis using lost c2(1) code_okD(5) [OF \<open>code_ok c2\<close>] by auto
qed

theorem claim_first_come_first_served_witness:
  "fst (claim_commit (\<lambda>f. Some (ef_ct f)) 5 2 None 20 (snd (claim_commit (\<lambda>f. Some (ef_ct f)) 5 1 None 10 sample_codes))) =
   Inl (ConflictError ''CODE_TAKEN'')"
proof -
  let ?run = "claim_commit (\<lambda>f. Some (ef_ct f)) 5 1 None 10 sample_codes"
  have "\<not> isl (fst ?run)" by code_simp
  then obtain r s1 where run: "?run = (Inr r, s1)" by (cases ?run; cases "fst ?run") auto
  show ?thesis unfolding run snd_conv
    using claim_first_come_first_served [OF sample_codes_inv run rtranclp.rtrancl_refl, of "\<lambda>f. Some (ef_ct f)" 2 None 20] by (metis fst_conv)
qed

text \<open>a voided code never becomes claimable again, whatever is done afterwards.\<close>

theorem voided_code_never_claimed:
  assumes "codes_inv s" and "c \<in> set (redeem_codes s)"
    and "code_step\<^sup>*\<^sup>* (voidCode (rc_id c) reason s) s2"
  shows "claim_commit dec (rc_id c) uid pan now s2 = (Inl (ConflictError ''CODE_TAKEN''), s2)"
proof -
  let ?f = "\<lambda>c. c\<lparr>rc_status := RC_VOID, rc_voidedReason := Some reason\<rparr>"
  have "findOne (\<lambda>d. rc_id d = rc_id c) (redeem_codes s) = Some c"
    using assms(1,2) by (intro findOne_key) (simp_all add: codes_inv_def)
  then have "?f c \<in> set (redeem_codes (voidCode (rc_id c) reason s))"
    using updated_in_set [of "\<lambda>d. rc_id d = rc_id c" "redeem_codes s" c ?f]
    by (simp add: voidCode_def updateOne_def)
  moreover have "codes_inv (voidCode (rc_id c) reason s)"
    using code_step_inv [OF code_step.void assms(1)] by simp
  ultimately show ?thesis using claim_lost [OF _ assms(3), of "?f c"] by simp
qed

theorem voided_code_never_claimed_witness:
  "fst (claim_commit (\<lambda>f. Some (ef_ct f)) 5 1 None 10 (voidCode 5 ''leaked'' sample_codes)) = Inl (ConflictError ''CODE_TAKEN'')"
proof -
  have c: "sample_code 5 9 RC_PUBLISHED (Some 3) \<in> set (redeem_codes sample_codes)" by code_simp
  have i: "rc_id (sample_code 5 9 RC_PUBLISHED (Some 3)) = 5" by (simp add: sample_code_def)
  show ?thesis
    using voided_code_never_claimed [OF sample_codes_inv c rtranclp.rtrancl_refl] unfolding i by (metis fst_conv)
qed

section \<open>Publishing\<close>

abbreviation batch_available :: "oid \<Rightarrow> redeem_code \<Rightarrow> bool" where
  "batch_available b c \<equiv> rc_batchId c = b \<and> rc_status c = RC_AVAILABLE"

lemma update_first_filter:
  assumes "findOne p xs = Some x" and "\<And>y. p y \<Longrightarrow> \<not> p (f y)"
  shows "length (filter p (update_first p f xs)) + 1 = length (filter p xs)"
  using assms unfolding findOne_def by (induction xs) auto

lemma update_first_step: "list_all2 (\<lambda>c c'. c' = c \<or> (p c \<and> c' = f c)) xs (update_first p f xs)"
  by (induction xs) (auto simp: list_all2_same)

lemma publish_loop_exact:
  "publish_loop n b p t now codes = (k, codes') \<Longrightarrow>
   k = int (min n (length (filter (batch_available b) codes))) \<and>
   int (length (filter (batch_available b) codes')) = int (length (filter (batch_available b) codes)) - k \<and>
   list_all2 (\<lambda>c c'. c' = c \<or> (batch_available b c \<and> c' = publish_flip p t now c)) codes codes'"
proof (induction n arbitrary: codes k)
  case (Suc n)
  show ?case
  proof (cases "findOne (batch_available b) codes")
    case None
    then have "filter (batch_available b) codes = []" by (simp add: findOne_def find_None_filter)
    then show ?thesis using Suc.prems None
      by (simp add: findOneAndUpdate_def update_first_None list_all2_same)
  next
    case (Some c)
    let ?codes = "update_first (batch_available b) (publish_flip p t now) codes"
    have flip: "\<not> batch_available b (publish_flip p t now d)" for d by (simp add: publish_flip_def)
    note len = update_first_filter [OF Some, of "publish_flip p t now", OF flip]
    from Suc.prems Some obtain j where "publish_loop n b p t now ?codes = (j, codes')" "k = j + 1"
      by (auto simp: findOneAndUpdate_def split: prod.splits)
    note IH = Suc.IH [OF this(1)] this(2)
    have "list_all2 (\<lambda>c c'. c' = c \<or> (batch_available b c \<and> c' = publish_flip p t now c)) codes codes'"
    proof (rule list_all2_trans [of "\<lambda>c c'. c' = c \<or> (batch_available b c \<and> c' = publish_flip p t now c)"
          "\<lambda>c c'. c' = c \<or> (batch_available b c \<and> c' = publish_flip p t now c)"])
      show "list_all2 (\<lambda>c c'. c' = c \<or> (batch_available b c \<and> c' = publish_flip p t now c)) codes ?codes"
        by (rule update_first_step)
      show "list_all2 (\<lambda>c c'. c' = c \<or> (batch_available b c \<and> c' = publish_flip p t now c)) ?codes codes'"
        using IH(1) by blast
    qed (use flip in blast)
    then show ?thesis using IH len by auto
  qed
qed (simp add: list_all2_same)

text \<open>publishing never over-publishes: the number reported is the smaller of the number asked
  for and the number of available codes of the batch, exactly that many codes leave the
  available state, every changed code was available in that batch and is now published with
  the post and the tier of the post, and all others are untouched.\<close>

theorem publishBatchToPost_exact:
  assumes "publishBatchToPost pin now s = (Inr r, s')"
  shows "pbr_publishedCount r =
      int (min (nat (pb_count pin)) (length (filter (batch_available (pb_batchId pin)) (redeem_codes s)))) \<and>
    int (length (filter (batch_available (pb_batchId pin)) (redeem_codes s'))) =
      int (length (filter (batch_available (pb_batchId pin)) (redeem_codes s))) - pbr_publishedCount r \<and>
    pbr_batchExhausted r = (filter (batch_available (pb_batchId pin)) (redeem_codes s') = []) \<and>
    (\<exists>p. findOne (\<lambda>p. p_id p = pb_postId pin) (posts s) = Some p \<and>
      list_all2 (\<lambda>c c'. c' = c \<or> (batch_available (pb_batchId pin) c \<and>
          c' = publish_flip (pb_postId pin) (p_tier p) now c)) (redeem_codes s) (redeem_codes s'))"
proof -
  from assms obtain p k codes where p: "findOne (\<lambda>p. p_id p = pb_postId pin) (posts s) = Some p"
    and run: "publish_loop (nat (pb_count pin)) (pb_batchId pin) (pb_postId pin) (p_tier p) now (redeem_codes s) = (k, codes)"
    and r: "pbr_publishedCount r = k" "redeem_codes s' = codes"
      "pbr_batchExhausted r = (count_docs (batch_available (pb_batchId pin)) codes = 0)"
    by (auto simp: publishBatchToPost_def Let_def split: option.splits prod.splits)
  have "pbr_batchExhausted r = (filter (batch_available (pb_batchId pin)) codes = [])"
    by (simp add: r(3) count_docs_def)
  then show ?thesis using publish_loop_exact [OF run] p by (simp only: r(1,2)) blast
qed

theorem publishBatchToPost_exact_witness:
  "\<exists>r s'. publishBatchToPost \<lparr>pb_batchId = 9, pb_postId = 3, pb_count = 5\<rparr> 10 sample_codes = (Inr r, s') \<and>
     pbr_publishedCount r = 1 \<and> pbr_batchExhausted r"
proof -
  let ?run = "publishBatchToPost \<lparr>pb_batchId = 9, pb_postId = 3, pb_count = 5\<rparr> 10 sample_codes"
  have "\<not> isl (fst ?run)" by code_simp
  then obtain r s' where run: "?run = (Inr r, s')" by (cases ?run; cases "fst ?run") auto
  have n: "length (filter (batch_available 9) (redeem_codes sample_codes)) = 1" by code_simp
  from publishBatchToPost_exact [OF run] have "pbr_publishedCount r = 1 \<and> pbr_batchExhausted r" by (auto simp: n)
  with run show ?thesis by blast
qed

text \<open>publishing from a batch that has no available code left publishes nothing and puts the
  batch, which had been marked EXHAUSTED, back to LIVE.\<close>

theorem publish_exhausted_batch_goes_live:
  assumes "findOne (\<lambda>p. p_id p = pb_postId pin) (posts s) = Some p"
    and "findOne (\<lambda>b. b_id b = pb_batchId pin) (code_batches s) = Some b" and "b_status b = B_EXHAUSTED"
    and "filter (batch_available (pb_batchId pin)) (redeem_codes s) = []"
  shows "\<exists>s'. publishBatchToPost pin now s =
      (Inr \<lparr>pbr_publishedCount = 0, pbr_batchExhausted = True\<rparr>, s') \<and>
    redeem_codes s' = redeem_codes s \<and> b\<lparr>b_status := B_LIVE\<rparr> \<in> set (code_batches s')"
proof -
  have none: "findOne (batch_available (pb_batchId pin)) (redeem_codes s) = None"
    using assms(4) by (simp add: findOne_def find_None_filter)
  have "publish_loop n (pb_batchId pin) pp t now (redeem_codes s) = (0, redeem_codes s)" for n pp t
    using none by (cases n) (simp_all add: findOneAndUpdate_def update_first_None)
  then show ?thesis using assms updated_in_set [OF assms(2), of "\<lambda>b. b\<lparr>b_status := B_LIVE\<rparr>"]
    by (simp add: publishBatchToPost_def Let_def count_docs_def updateOne_def)
qed

section \<open>Uploading\<close>

lemma parse_rows_from:
  "parse_rows d i records valid sk seen = (valid', sk') \<Longrightarrow> r \<in> set valid' \<Longrightarrow>
   r \<in> set valid \<or> (\<exists>raw \<in> set records. pr_code r = js_upper (js_trim (or_default (raw_code raw) [])))"
proof (induction records arbitrary: i valid sk seen)
  case (Cons raw records)
  then show ?case by (fastforce simp: Let_def split: if_splits)
qed simp

lemma insert_rows_from:
  "insert_rows b d now ids rows n sk codes = (n', sk', codes') \<Longrightarrow>
   \<exists>new. codes' = codes @ new \<and> (\<forall>c \<in> set new. \<exists>e \<in> set rows. c = code_row b d now (ids (er_rowNumber e)) e)"
proof (induction rows arbitrary: n sk codes)
  case (Cons row rows)
  let ?row = "code_row b d now (ids (er_rowNumber row)) row"
  show ?case
  proof (cases "create code_clash ?row codes")
    case (Inl e)
    then show ?thesis using Cons by (cases e) fastforce
  next
    case (Inr ys)
    then have "ys = codes @ [?row]" by (auto simp: create_def split: if_splits)
    moreover obtain new where "codes' = ys @ new"
      "\<forall>c \<in> set new. \<exists>e \<in> set rows. c = code_row b d now (ids (er_rowNumber e)) e"
      using Cons.IH [of "n + 1" sk ys] Cons.prems Inr by auto
    ultimately show ?thesis by (intro exI [of _ "?row # new"]) auto
  qed
qed simp

definition code_field :: "redeem_code \<Rightarrow> enc_field" where
  "code_field c = \<lparr>ef_ct = rc_codeCt c, ef_iv = or_default (rc_codeIv c) [],
     ef_tag = or_default (rc_codeTag c) [], ef_dekEnc = or_default (rc_codeDekEnc c) []\<rparr>"

text \<open>an upload accounts for every row of the file, as inserted or as skipped with a reason; the
  inserted codes are appended, available and of the batch's denomination; and when
  decryption undoes encryption, every inserted code decrypts to the trimmed upper-case code
  of a row of the file, of which its hash is the HMAC. A failing upload changes nothing.\<close>

theorem uploadBatch_roundtrip:
  assumes "uploadBatch enc hmac sec records inp actor now bid ids s = (r, s')"
    and "\<And>n code f. enc n code = Some f \<Longrightarrow> dec f = Some code"
  shows "case r of
      Inl e \<Rightarrow> s' = s
    | Inr res \<Rightarrow> \<exists>new. redeem_codes s' = redeem_codes s @ new \<and> int (length new) = ur_inserted res \<and>
        ur_inserted res + int (length (ur_skipped res)) = int (length records) \<and>
        (\<forall>c \<in> set new. rc_batchId c = bid \<and> rc_status c = RC_AVAILABLE \<and>
           rc_denomination c = or_default (ui_denomination inp) 5000 \<and>
           (\<exists>raw \<in> set records. let code = js_upper (js_trim (or_default (raw_code raw) [])) in
              dec (code_field c) = Some code \<and> rc_codeHash c = hmac sec code))"
proof (cases r)
  case (Inl e)
  then show ?thesis using assms(1)
    by (auto simp: uploadBatch_def Let_def split: sum.splits option.splits prod.splits if_splits)
next
  case (Inr res)
  let ?d = "or_default (ui_denomination inp) 5000"
  from Inr assms(1) obtain valid sk es n sk' codes where
    run: "parseRedeemCodeCsv records ?d DEFAULT_MAX_ROWS = Inr (valid, sk)"
      "encryptParsedRows enc hmac sec valid = Some es"
      "insert_rows bid ?d now ids es 0 sk (redeem_codes s) = (n, sk', codes)" "redeem_codes s' = codes"
      "ur_inserted res = n" "ur_skipped res = sk'"
    by (auto simp: uploadBatch_def Let_def split: sum.splits option.splits prod.splits if_splits)
  from run(1) have parse: "parse_rows ?d 0 records [] [] [] = (valid, sk)"
    by (simp add: parseRedeemCodeCsv_def split: if_splits)
  have "mset (map pr_rowNumber valid @ map sk_row sk) = mset [1 ..< 1 + length records]"
    using parse_rows_split [OF parse] by auto
  from mset_eq_length [OF this] have total: "length valid + length sk = length records"
    by (simp only: length_append length_map length_upt)
  note es = encryptParsedRows_rows [OF run(2)]
  have "length es = length valid" using es by (metis length_map)
  then have acc: "n + int (length sk') = int (length records)"
    using insert_rows_evolve [OF run(3)] total by simp
  obtain new where new: "codes = redeem_codes s @ new" "int (length new) = n"
    "list_all (\<lambda>c. rc_batchId c = bid \<and> rc_denomination c = ?d \<and> rc_status c = RC_AVAILABLE) new"
    using insert_rows_evolve [OF run(3)] by auto
  have "\<exists>raw \<in> set records. let code = js_upper (js_trim (or_default (raw_code raw) [])) in
      dec (code_field c) = Some code \<and> rc_codeHash c = hmac sec code" if mem: "c \<in> set new" for c
  proof -
    obtain e where e: "e \<in> set es" "c = code_row bid ?d now (ids (er_rowNumber e)) e"
      using insert_rows_from [OF run(3)] new(1) mem by auto
    then have "code_field c = er_field e" "rc_codeHash c = er_codeHash e"
      by (simp_all add: code_field_def code_row_def)
    then have c: "dec (code_field c) = Some (er_code e)" "rc_codeHash c = hmac sec (er_code e)"
      using es e(1) assms(2) [of "er_rowNumber e"] by simp_all
    have "er_code e \<in> set (map er_code es)" using e(1) by simp
    then have "er_code e \<in> set (map pr_code valid)" using es by simp
    then obtain v where "v \<in> set valid" "er_code e = pr_code v" by auto
    then obtain raw where "raw \<in> set records" "er_code e = js_upper (js_trim (or_default (raw_code raw) []))"
      using parse_rows_from [OF parse, of v] by auto
    then show ?thesis using c by (metis (no_types, lifting))
  qed
  then show ?thesis using Inr new acc by (auto simp: run(4-6) list_all_iff)
qed

theorem uploadBatch_roundtrip_witness:
  "\<exists>res s'. uploadBatch sample_enc (\<lambda>k c. c) [] sample_file sample_upload 1 0 9 id empty_db = (Inr res, s') \<and>
     ur_inserted res + int (length (ur_skipped res)) = 2"
proof -
  let ?run = "uploadBatch sample_enc (\<lambda>k c. c) [] sample_file sample_upload 1 0 9 id empty_db"
  have "\<not> isl (fst ?run)" by code_simp
  then obtain r s' where run: "?run = (Inr r, s')" by (cases ?run; cases "fst ?run") auto
  show ?thesis using uploadBatch_roundtrip [OF run, of "\<lambda>f. Some (ef_ct f)"] run by auto
qed

section \<open>Claiming\<close>

lemma code_field_flip [simp]: "code_field (fcfs_flip u now c) = code_field c"
  by (simp add: code_field_def fcfs_flip_def)

text \<open>C40: the answer of a claim for every state: unknown or unpublished code, unknown or blocked user,
  post not completed, KYC required, code taken; otherwise the decrypted code. The code is
  marked as copied before it is decrypted, so that a failure of the decryption answers with
  an internal error although the code is spent.\<close>

theorem claim_answer:
  assumes "codes_inv s"
  shows "fst (claim dj dec cid uid now s) =
    (case findOne (\<lambda>c. rc_id c = cid) (redeem_codes s) of
       None \<Rightarrow> Inl NotFoundError
     | Some c \<Rightarrow> (case rc_postId c of
         None \<Rightarrow> Inl NotFoundError
       | Some pid \<Rightarrow> (case findOne (\<lambda>u. u_id u = uid) (users s) of
           None \<Rightarrow> Inl UnauthorizedError
         | Some u \<Rightarrow>
             if bl_isBlocked (u_blocked u) then Inl UnauthorizedError
             else if findByUserPost uid pid (post_completions s) = None then Inl (ForbiddenError ''POST_NOT_COMPLETED'')
             else if \<not> gd_allowed (evaluateGate dj uid now s) then Inl KycRequiredError
             else if rc_status c \<noteq> RC_PUBLISHED then Inl (ConflictError ''CODE_TAKEN'')
             else (case dec (code_field c) of
                 None \<Rightarrow> Inl (InternalError ''INTERNAL'')
               | Some plaintext \<Rightarrow> Inr \<lparr>cl_codeId = cid, cl_plaintextCode = plaintext,
                   cl_denomination = rc_denomination c,
                   cl_tds = fst (settle_winner uid cid (kyc_panLast4 (u_kyc u)) now (prize_winners s))\<rparr>))))"
proof (cases "findOne (\<lambda>c. rc_id c = cid) (redeem_codes s)")
  case None
  then show ?thesis by (simp add: claim_def claim_check_def)
next
  case (Some c)
  then have c: "rc_id c = cid" "c \<in> set (redeem_codes s)" by (auto dest: findOne_SomeD)
  have d: "distinct (map rc_id (redeem_codes s))" using assms by (simp add: codes_inv_def)
  have pub: "findOne (\<lambda>d. rc_id d = cid \<and> rc_status d = RC_PUBLISHED) (redeem_codes s) =
      (if rc_status c = RC_PUBLISHED then Some c else None)"
  proof (cases "rc_status c = RC_PUBLISHED")
    case True
    then show ?thesis using findOne_keyed [OF d c(2), of "\<lambda>d. rc_status d = RC_PUBLISHED"] c(1) by simp
  next
    case False
    then show ?thesis using distinct_map_eq [OF d _ c(2)] c(1) by (auto simp: findOne_None_iff)
  qed
  have commit: "fst (claim_commit dec cid uid pan now s) =
      (if rc_status c \<noteq> RC_PUBLISHED then Inl (ConflictError ''CODE_TAKEN'')
       else (case dec (code_field c) of
           None \<Rightarrow> Inl (InternalError ''INTERNAL'')
         | Some plaintext \<Rightarrow> Inr \<lparr>cl_codeId = cid, cl_plaintextCode = plaintext, cl_denomination = rc_denomination c,
             cl_tds = fst (settle_winner uid cid pan now (prize_winners s))\<rparr>))" for pan
  proof -
    have "rc_id (fcfs_flip uid now c) = cid" "rc_denomination (fcfs_flip uid now c) = rc_denomination c"
      using c(1) by (simp_all add: fcfs_flip_def)
    moreover obtain tds ws where "settle_winner uid cid pan now (prize_winners s) = (tds, ws)" by fastforce
    ultimately show ?thesis
      by (simp add: claim_commit_def claim_tx_def atomicFcfsClaim_def findOneAndUpdate_def pub
          flip: code_field_def split: option.splits)
  qed
  show ?thesis by (auto simp: claim_def claim_check_def Some commit split: option.splits)
qed

theorem claim_answer_witness:
  "fst (claim gregorian_ist (\<lambda>f. Some (ef_ct f)) 6 1 10 sample_codes) = Inl NotFoundError \<and>
   fst (claim gregorian_ist (\<lambda>f. Some (ef_ct f)) 5 8 10 sample_codes) = Inl UnauthorizedError"
  unfolding claim_answer [OF sample_codes_inv] by code_simp

text \<open>a claim settles the prize behind the code: when the user has a pending winner row for the
  code with an amount, that row alone is released, with the date and with 30 per cent of
  the amount, rounded half up, recorded as tax; the amount itself is not reduced. The answer
  names the row and the deduction.\<close>

theorem settle_winner_effect:
  assumes "distinct (map w_id ws)" and "findOne (winner_pending uid cid) ws = Some w"
    and "w_finalAmount w = Some t" and "0 < t" and "t < 2 ^ 44"
  shows "settle_winner uid cid pan now ws =
    (Some \<lparr>ctd_deductedPaise = (3 * t + 5) div 10, ctd_winnerId = w_id w\<rparr>,
     map (\<lambda>v. if w_id v = w_id w
       then (release_winner pan now v)\<lparr>w_tdsDeducted := (3 * t + 5) div 10\<rparr> else v) ws)"
proof -
  note w = findOne_SomeD [OF assms(2)]
  have tds: "computeTds194BA t = (3 * t + 5) div 10" using computeTds_pos [OF assms(4,5)] .
  obtain ys zs where sp: "ws = ys @ w # zs"
    "update_first (winner_pending uid cid) (release_winner pan now) ws = ys @ release_winner pan now w # zs"
    using update_first_split [OF assms(2)] by metis
  have ids: "w_id (release_winner pan now w) = w_id w" "w_finalAmount (release_winner pan now w) = Some t"
    by (simp_all add: release_winner_def assms(3))
  have others: "w_id v \<noteq> w_id w" if "v \<in> set ys \<union> set zs" for v
    using assms(1) that by (auto simp: sp(1) image_iff)
  have "update_first (\<lambda>v. w_id v = w_id w) f (ys @ release_winner pan now w # zs) =
      ys @ f (release_winner pan now w) # zs" for f
    using others ids(1) by (simp add: update_first_append findOne_None_iff)
  moreover have "map (\<lambda>v. if w_id v = w_id w then f v else v) ws = ys @ f w # zs" for f
    using others by (auto simp: sp(1) intro!: map_idI)
  ultimately show ?thesis
    by (simp add: settle_winner_def findOneAndUpdate_def assms(2) sp(2) ids updateOne_def tds Let_def)
qed

theorem settle_winner_effect_witness:
  "fst (settle_winner 1 5 (Some ''1234'') 10 [sample_winner 7 1 5 5000]) = Some \<lparr>ctd_deductedPaise = 1500, ctd_winnerId = 7\<rparr>"
proof -
  have d: "distinct (map w_id [sample_winner 7 1 5 5000])" by simp
  have f: "findOne (winner_pending 1 5) [sample_winner 7 1 5 5000] = Some (sample_winner 7 1 5 5000)"
    "w_finalAmount (sample_winner 7 1 5 5000) = Some 5000" by code_simp+
  show ?thesis using settle_winner_effect [OF d f, of "Some ''1234''" 10] by (simp add: sample_winner_def)
qed

section \<open>Reconciling\<close>

lemma reconcile_loop_map:
  assumes "distinct (map rc_id codes)"
    and "\<And>row c. row \<in> set rows \<Longrightarrow> c \<in> set codes \<Longrightarrow> rc_id c = rc_id row \<Longrightarrow>
      rc_firstCopiedBy c = rc_firstCopiedBy row"
  shows "snd (reconcile_loop now rows n codes) =
    map (\<lambda>c. if rc_status c = RC_COPIED \<and> rc_id c \<in> rc_id ` set rows \<and> rc_firstCopiedBy c \<noteq> None
             then claimed_flip (the (rc_firstCopiedBy c)) now c else c) codes"
  using assms
proof (induction rows arbitrary: n codes)
  case (Cons row rows)
  show ?case
  proof (cases "rc_firstCopiedBy row")
    case None
    have "snd (reconcile_loop now rows n codes) =
      map (\<lambda>c. if rc_status c = RC_COPIED \<and> rc_id c \<in> rc_id ` set rows \<and> rc_firstCopiedBy c \<noteq> None
             then claimed_flip (the (rc_firstCopiedBy c)) now c else c) codes"
      by (rule Cons.IH [OF Cons.prems(1)]) (rule Cons.prems(2), simp_all)
    then show ?thesis using Cons.prems(2) [of row] None by (auto intro!: map_cong)
  next
    case (Some u)
    let ?g = "\<lambda>c. if rc_id c = rc_id row \<and> rc_status c = RC_COPIED then claimed_flip u now c else c"
    have keep: "rc_id (?g c) = rc_id c" "rc_firstCopiedBy (?g c) = rc_firstCopiedBy c" for c
      by (simp_all add: claimed_flip_def)
    have upd: "snd (updateOne (\<lambda>c. rc_id c = rc_id row \<and> rc_status c = RC_COPIED) (claimed_flip u now) codes) = map ?g codes"
      using update_first_keyed [OF Cons.prems(1)] by (simp add: updateOne_def)
    have IH: "snd (reconcile_loop now rows m (map ?g codes)) =
      map (\<lambda>c. if rc_status c = RC_COPIED \<and> rc_id c \<in> rc_id ` set rows \<and> rc_firstCopiedBy c \<noteq> None
             then claimed_flip (the (rc_firstCopiedBy c)) now c else c) (map ?g codes)" for m
    proof (rule Cons.IH)
      show "distinct (map rc_id (map ?g codes))" using Cons.prems(1) by (simp add: comp_def keep)
      fix row' c assume row': "row' \<in> set rows" "c \<in> set (map ?g codes)" "rc_id c = rc_id row'"
      then obtain x where x: "x \<in> set codes" "c = ?g x" unfolding set_map by blast
      have "rc_firstCopiedBy x = rc_firstCopiedBy row'"
        using row'(1,3) x by (intro Cons.prems(2)) (simp_all only: keep list.set_intros)
      then show "rc_firstCopiedBy c = rc_firstCopiedBy row'" by (simp only: x(2) keep)
    qed
    have first: "rc_firstCopiedBy c = Some u" if "c \<in> set codes" "rc_id c = rc_id row" for c
      using Cons.prems(2) [of row c] that Some by simp
    have "snd (reconcile_loop now (row # rows) n codes) =
      map (\<lambda>c. if rc_status c = RC_COPIED \<and> rc_id c \<in> rc_id ` set rows \<and> rc_firstCopiedBy c \<noteq> None
             then claimed_flip (the (rc_firstCopiedBy c)) now c else c) (map ?g codes)"
    proof -
      obtain m xs where m: "updateOne (\<lambda>c. rc_id c = rc_id row \<and> rc_status c = RC_COPIED) (claimed_flip u now) codes = (m, xs)"
        by (rule prod.exhaust)
      then have "xs = map ?g codes" using upd by (simp only: snd_conv)
      then show ?thesis by (simp only: reconcile_loop.simps Some option.case prod.case IH m)
    qed
    also have "\<dots> = map (\<lambda>c. if rc_status c = RC_COPIED \<and> rc_id c \<in> rc_id ` set (row # rows) \<and> rc_firstCopiedBy c \<noteq> None
             then claimed_flip (the (rc_firstCopiedBy c)) now c else c) codes"
      unfolding map_map
    proof (rule map_cong [OF refl], unfold comp_def)
      fix c assume c: "c \<in> set codes"
      have st: "rc_status (claimed_flip u now c) = RC_CLAIMED" by (simp add: claimed_flip_def)
      show "(if rc_status (?g c) = RC_COPIED \<and> rc_id (?g c) \<in> rc_id ` set rows \<and> rc_firstCopiedBy (?g c) \<noteq> None
             then claimed_flip (the (rc_firstCopiedBy (?g c))) now (?g c) else ?g c) =
          (if rc_status c = RC_COPIED \<and> rc_id c \<in> rc_id ` set (row # rows) \<and> rc_firstCopiedBy c \<noteq> None
             then claimed_flip (the (rc_firstCopiedBy c)) now c else c)"
      proof (cases "rc_id c = rc_id row \<and> rc_status c = RC_COPIED")
        case True
        then have "rc_firstCopiedBy c = Some u" using first [OF c] by blast
        then show ?thesis using True st by simp
      next
        case False
        then have "?g c = c" by meson
        then show ?thesis using False by (simp only: list.set insert_iff image_insert) (rule if_cong, blast, rule refl, rule refl)
      qed
    qed
    finally show ?thesis .
  qed
qed simp

text \<open>after a reconciliation no code stays COPIED beyond the cutoff: each such code is CLAIMED by
  the user who copied it, dated now, and every other code is as it was.\<close>

theorem reconcile_closes_stuck:
  assumes "codes_inv s"
  shows "redeem_codes (snd (reconcileCopiedCodes now cutoff s)) =
      map (\<lambda>c. if stuck_code (now - or_default cutoff DEFAULT_CUTOFF_MS) c
        then c\<lparr>rc_status := RC_CLAIMED, rc_claimedBy := rc_firstCopiedBy c, rc_claimedAt := Some now\<rparr> else c)
        (redeem_codes s) \<and>
    (\<forall>c \<in> set (redeem_codes (snd (reconcileCopiedCodes now cutoff s))).
       \<not> stuck_code (now - or_default cutoff DEFAULT_CUTOFF_MS) c)"
proof -
  let ?P = "stuck_code (now - or_default cutoff DEFAULT_CUTOFF_MS)"
  have d: "distinct (map rc_id (redeem_codes s))" and ok: "\<And>c. c \<in> set (redeem_codes s) \<Longrightarrow> code_ok c"
    using assms by (simp_all add: codes_inv_def list_all_iff)
  have same: "c = row" if "row \<in> set (find_docs ?P (redeem_codes s))" "c \<in> set (redeem_codes s)" "rc_id c = rc_id row" for row c
    using that distinct_map_eq [OF d] by (simp add: find_docs_def)
  have "snd (reconcile_loop now (find_docs ?P (redeem_codes s)) 0 (redeem_codes s)) =
      map (\<lambda>c. if ?P c then c\<lparr>rc_status := RC_CLAIMED, rc_claimedBy := rc_firstCopiedBy c, rc_claimedAt := Some now\<rparr> else c)
        (redeem_codes s)" (is "_ = map ?h _")
  proof -
    have "rc_status c = RC_COPIED \<and> rc_id c \<in> rc_id ` set (find_docs ?P (redeem_codes s)) \<longleftrightarrow> ?P c"
      if "c \<in> set (redeem_codes s)" for c
      using that same by (auto simp: find_docs_def stuck_code_def)
    moreover have "?P c \<Longrightarrow> \<exists>u. rc_firstCopiedBy c = Some u" if "c \<in> set (redeem_codes s)" for c
      using code_okD(2) [OF ok [OF that]] by (auto simp: stuck_code_def)
    ultimately show ?thesis
      using same by (subst reconcile_loop_map [OF d]) (auto simp: claimed_flip_def intro!: map_cong)
  qed
  then have codes: "redeem_codes (snd (reconcileCopiedCodes now cutoff s)) = map ?h (redeem_codes s)"
    by (simp add: reconcileCopiedCodes_def Let_def split: prod.splits) (metis snd_conv)
  then show ?thesis by (auto simp: stuck_code_def)
qed

theorem reconcile_closes_stuck_witness:
  "map rc_status (redeem_codes (snd (reconcileCopiedCodes 200000000 None
     (snd (claim_commit (\<lambda>f. Some (ef_ct f)) 5 1 None 10 sample_codes))))) = [RC_CLAIMED, RC_AVAILABLE]"
proof -
  let ?s = "snd (claim_commit (\<lambda>f. Some (ef_ct f)) 5 1 None 10 sample_codes)"
  have inv: "codes_inv ?s" by code_simp
  show ?thesis unfolding reconcile_closes_stuck [OF inv, of 200000000 None, THEN conjunct1] by code_simp
qed

end
