(* ===== verification/Donations.thy ===== *)
theory Donations
  imports Coins Samples
begin

text \<open>
  Donations (src/modules/donations): the order, the local signature check, the capture driven
  by the webhook, the leaderboard and its refresh, and the administrative list and feature
  flag. The payment provider and the HMAC are parameters, as in Subscriptions.
\<close>

section \<open>Operations\<close>

record order_input =
  oi_userId :: "oid option"
  oi_amountInRupees :: int
  oi_displayName :: "string option"
  oi_isAnonymous :: "bool option"
  oi_socialLinks :: "social_links option"
  oi_message :: "string option"
  oi_ipAddress :: "string option"

text \<open>\<open>rzpOrder\<close> is the id of the order the provider created, \<open>None\<close> when the call threw.\<close>

definition createOrder :: "order_input \<Rightarrow> string option \<Rightarrow> date \<Rightarrow> oid \<Rightarrow> db \<Rightarrow> (app_error + string \<times> paise) \<times> db" where
  "createOrder inp rzpOrder now newId s =
     (let amountPaise = oi_amountInRupees inp * 100;
          s1 = s\<lparr>rzp_calls := rzp_calls s @ [RzpCreateOrder amountPaise ''donation'']\<rparr>
      in case rzpOrder of
           None \<Rightarrow> (Inl (InternalError ''INTERNAL''), s1)
         | Some orderId \<Rightarrow>
             let doc = \<lparr>d_id = newId, d_createdAt = now, d_userId = oi_userId inp,
                   d_displayName = oi_displayName inp, d_isAnonymous = or_default (oi_isAnonymous inp) False,
                   d_amount = amountPaise, d_razorpayOrderId = orderId, d_razorpayPaymentId = None,
                   d_status = D_CREATED, d_message = oi_message inp, d_socialLinks = oi_socialLinks inp,
                   d_capturedAt = None, d_ipAddress = oi_ipAddress inp, d_featured = False\<rparr>
             in case create donation_clash doc (donations s1) of
                  Inl _ \<Rightarrow> (Inl (InternalError ''INTERNAL''), s1)
                | Inr ds \<Rightarrow> (Inr (orderId, amountPaise), s1\<lparr>donations := ds\<rparr>))"

definition verify_donation ::
  "(string \<Rightarrow> string \<Rightarrow> string) \<Rightarrow> (string \<Rightarrow> string) \<Rightarrow> string \<Rightarrow> string \<Rightarrow> string \<Rightarrow> string \<Rightarrow> app_error + unit" where
  "verify_donation hmac hex keySecret orderId paymentId signature =
     (let payload = orderId @ ''|'' @ paymentId;
          generated = hmac keySecret payload;
          sigBuf = hex signature;
          genBuf = hex generated
      in if length sigBuf \<noteq> length genBuf \<or> sigBuf \<noteq> genBuf
         then Inl (BadRequestError ''INVALID_SIGNATURE'') else Inr ())"

definition getTopDonor :: "db \<Rightarrow> top_donor option" where
  "getTopDonor s = findOne (\<lambda>t. td_rank t = 1) (top_donors s)"

definition listTopDonors :: "nat \<Rightarrow> db \<Rightarrow> top_donor list" where
  "listTopDonors limit s = take limit (sort_key td_rank (top_donors s))"

text \<open>A captured payment that is not for an order matches no donation.\<close>

definition onCaptured :: "pay_entity \<Rightarrow> date \<Rightarrow> db \<Rightarrow> db" where
  "onCaptured entity now s =
     s\<lparr>donations := snd (updateOne
        (\<lambda>d. pe_order_id entity = Some (d_razorpayOrderId d) \<and> d_status d = D_CREATED)
        (\<lambda>d. d\<lparr>d_status := D_CAPTURED, d_razorpayPaymentId := Some (pe_id entity), d_capturedAt := Some now\<rparr>)
        (donations s))\<rparr>"

section \<open>The leaderboard\<close>

definition counted_donation :: "donation \<Rightarrow> bool" where
  "counted_donation d \<longleftrightarrow> d_status d = D_CAPTURED \<and> d_userId d \<noteq> None \<and> \<not> d_isAnonymous d"

definition donations_of :: "oid \<Rightarrow> donation list \<Rightarrow> donation list" where
  "donations_of u ds = filter (\<lambda>d. counted_donation d \<and> d_userId d = Some u) ds"

definition donor_total :: "oid \<Rightarrow> donation list \<Rightarrow> paise" where
  "donor_total u ds = sum_list (map d_amount (donations_of u ds))"

text \<open>
  The groups, sorted by their totals; groups with equal totals come in an order the
  aggregation leaves open, here that of the donors' last donations.
\<close>

definition ranked_donors :: "donation list \<Rightarrow> oid list" where
  "ranked_donors ds =
     sort_key (\<lambda>u. - donor_total u ds) (remdups (map (the \<circ> d_userId) (filter counted_donation ds)))"

definition latest_donation :: "oid \<Rightarrow> donation list \<Rightarrow> donation option" where
  "latest_donation u ds =
     (case sort_key (\<lambda>d. (- d_createdAt d, - int (d_id d))) (donations_of u ds) of [] \<Rightarrow> None | d # _ \<Rightarrow> Some d)"

definition ranking_row :: "date \<Rightarrow> db \<Rightarrow> nat \<Rightarrow> oid \<Rightarrow> top_donor" where
  "ranking_row now s i u =
     (let latest = latest_donation u (donations s);
          donor = findOne (\<lambda>x. u_id x = u) (users s);
          displayName = Option.bind latest d_displayName;
          avatarUrl = Option.bind donor u_avatarUrl
      in \<lparr>td_rank = int i + 1, td_userId = Some u,
          td_displayName = (if truthy_str displayName then displayName else None),
          td_avatarUrl = (if truthy_str avatarUrl then avatarUrl else None),
          td_socialLinks = Option.bind latest d_socialLinks,
          td_totalDonated = donor_total u (donations s),
          td_donationCount = Some (int (length (donations_of u (donations s)))), td_computedAt = now\<rparr>)"

definition ranking_limit :: "int option \<Rightarrow> int" where
  "ranking_limit limit = max 1 (min 1000 (or_default limit 50))"

definition refreshTopDonorRanking :: "int option \<Rightarrow> date \<Rightarrow> db \<Rightarrow> int \<times> db" where
  "refreshTopDonorRanking limitOpt now s =
     (let aggregated = take (nat (ranking_limit limitOpt)) (ranked_donors (donations s));
          s1 = s\<lparr>top_donors := deleteMany (\<lambda>_. True) (top_donors s)\<rparr>
      in if aggregated = [] then (0, s1)
         else (int (length aggregated),
               s1\<lparr>top_donors := top_donors s1 @ map (\<lambda>(i, u). ranking_row now s i u) (enumerate 0 aggregated)\<rparr>))"

section \<open>Administration\<close>

record donations_filter =
  df_userId :: "oid option"
  df_status :: "donation_status option"
  df_from :: "date option"
  df_to :: "date option"

definition admin_listDonations :: "donations_filter \<Rightarrow> int \<Rightarrow> db \<Rightarrow> donation list" where
  "admin_listDonations f limit s =
     take (nat (max 1 (min 200 limit)))
       (sort_key (\<lambda>d. (- d_createdAt d, - int (d_id d)))
         (find_docs (\<lambda>d. (case df_userId f of None \<Rightarrow> True | Some u \<Rightarrow> d_userId d = Some u) \<and>
            (case df_status f of None \<Rightarrow> True | Some st \<Rightarrow> d_status d = st) \<and>
            (case df_from f of None \<Rightarrow> True | Some t \<Rightarrow> t \<le> d_createdAt d) \<and>
            (case df_to f of None \<Rightarrow> True | Some t \<Rightarrow> d_createdAt d \<le> t)) (donations s)))"

definition markFeatured :: "oid \<Rightarrow> db \<Rightarrow> (app_error + unit) \<times> db" where
  "markFeatured donationId s =
     (case findOne (\<lambda>d. d_id d = donationId) (donations s) of
        None \<Rightarrow> (Inl NotFoundError, s)
      | Some _ \<Rightarrow> (Inr (), s\<lparr>donations := snd (updateOne (\<lambda>d. d_id d = donationId)
                    (\<lambda>d. d\<lparr>d_featured := True\<rparr>) (donations s))\<rparr>))"

section \<open>Properties\<close>

lemma refresh_rows:
  "top_donors (snd (refreshTopDonorRanking l now s)) =
     map (\<lambda>(i, u). ranking_row now s i u) (enumerate 0 (take (nat (ranking_limit l)) (ranked_donors (donations s))))"
  by (simp add: refreshTopDonorRanking_def Let_def deleteMany_def)

lemma ranking_row_fields:
  "td_userId (ranking_row now s i u) = Some u" "td_rank (ranking_row now s i u) = int (Suc i)"
  "td_totalDonated (ranking_row now s i u) = donor_total u (donations s)"
  by (simp_all add: ranking_row_def Let_def)

lemma map_enumerate_snd: "map (\<lambda>(i, u). f u) (enumerate n xs) = map f xs"
  by (induction xs arbitrary: n) simp_all

lemma map_enumerate_fst: "map (\<lambda>(i, u). f i) (enumerate n xs) = map f [n ..< n + length xs]"
  by (induction xs arbitrary: n) (simp_all add: upt_rec)

lemma set_ranked_donors:
  "u \<in> set (ranked_donors ds) \<longleftrightarrow> (\<exists>d \<in> set ds. counted_donation d \<and> d_userId d = Some u)"
  by (force simp: ranked_donors_def counted_donation_def image_iff)

text \<open>a donation is captured once: the first capture event of its order sets status, payment id
  and date, and every later event for the same order, with whatever payment id, leaves all
  donations as they are; the amount is never touched.\<close>

theorem onCaptured_once:
  assumes "unique_on (\<lambda>d. Some (d_razorpayOrderId d)) (donations s)"
    and "pe_order_id entity' = pe_order_id entity"
  shows "onCaptured entity' now' (onCaptured entity now s) = onCaptured entity now s \<and>
    map d_amount (donations (onCaptured entity now s)) = map d_amount (donations s)"
proof
  let ?q = "\<lambda>d. pe_order_id entity = Some (d_razorpayOrderId d) \<and> d_status d = D_CREATED"
  let ?f = "\<lambda>d. d\<lparr>d_status := D_CAPTURED, d_razorpayPaymentId := Some (pe_id entity), d_capturedAt := Some now\<rparr>"
  have ds: "donations (onCaptured entity now s) = update_first ?q ?f (donations s)"
    by (simp add: onCaptured_def updateOne_def)
  have "findOne ?q (update_first ?q ?f (donations s)) = None"
  proof (cases "findOne ?q (donations s)")
    case None
    then show ?thesis by (simp add: update_first_None)
  next
    case (Some d)
    obtain ys zs where sp: "donations s = ys @ d # zs" "update_first ?q ?f (donations s) = ys @ ?f d # zs"
      "\<forall>y \<in> set ys. \<not> ?q y"
      by (rule update_first_split [OF Some, of ?f])
    have other: "d_razorpayOrderId z \<noteq> d_razorpayOrderId d" if "z \<in> set zs" for z
      using assms(1) that by (auto simp: sp(1) unique_on_def set_keys_of)
    have "\<not> ?q z" if "z \<in> set zs" for z
      using findOne_SomeD [OF Some] other [OF that] by auto
    then show ?thesis using sp(3) by (auto simp: sp(2) findOne_None_iff)
  qed
  then have "update_first ?q f (update_first ?q ?f (donations s)) = update_first ?q ?f (donations s)" for f
    by (rule update_first_None)
  then show "onCaptured entity' now' (onCaptured entity now s) = onCaptured entity now s"
    by (simp add: onCaptured_def updateOne_def assms(2))
  show "map d_amount (donations (onCaptured entity now s)) = map d_amount (donations s)"
    unfolding ds by (rule map_update_first) simp
qed

theorem onCaptured_once_witness:
  "onCaptured (sample_pay_entity 1 500) 20 (onCaptured (sample_pay_entity 1 500) 10 (empty_db\<lparr>donations := [sample_donation 1 7 500 D_CREATED]\<rparr>)) =
   onCaptured (sample_pay_entity 1 500) 10 (empty_db\<lparr>donations := [sample_donation 1 7 500 D_CREATED]\<rparr>)"
proof -
  have "unique_on (\<lambda>d. Some (d_razorpayOrderId d)) (donations (empty_db\<lparr>donations := [sample_donation 1 7 500 D_CREATED]\<rparr>))" by code_simp
  from onCaptured_once [OF this refl] show ?thesis by blast
qed

text \<open>the refreshed leaderboard has ranks 1, 2, ... in order and totals that never increase down
  the list, each total being the sum of the donor's captured donations that are not
  anonymous; it has at most the limit many rows, each donor once, and nobody who was cut
  off has given more than anybody on the list.\<close>

theorem refresh_leaderboard:
  assumes "refreshTopDonorRanking limitOpt now s = (n, s')"
  shows "map td_rank (top_donors s') = map (\<lambda>i. int (Suc i)) [0 ..< length (top_donors s')] \<and>
    n = int (length (top_donors s')) \<and> n \<le> ranking_limit limitOpt \<and>
    sorted_wrt (\<ge>) (map td_totalDonated (top_donors s')) \<and> distinct (map td_userId (top_donors s')) \<and>
    (\<forall>t \<in> set (top_donors s'). \<exists>u. td_userId t = Some u \<and> td_totalDonated t = donor_total u (donations s)) \<and>
    (\<forall>d \<in> set (donations s). counted_donation d \<longrightarrow> d_userId d \<in> set (map td_userId (top_donors s')) \<or>
       (\<forall>t \<in> set (top_donors s'). donor_total (the (d_userId d)) (donations s) \<le> td_totalDonated t))"
proof -
  let ?R = "ranked_donors (donations s)"
  let ?k = "nat (ranking_limit limitOpt)"
  let ?tot = "\<lambda>u. donor_total u (donations s)"
  have rows: "top_donors s' = map (\<lambda>(i, u). ranking_row now s i u) (enumerate 0 (take ?k ?R))"
    using refresh_rows [of limitOpt now s] assms by simp
  have ids: "map td_userId (top_donors s') = map Some (take ?k ?R)"
    and totals: "map td_totalDonated (top_donors s') = map ?tot (take ?k ?R)"
    using map_enumerate_snd [of Some 0 "take ?k ?R"] map_enumerate_snd [of ?tot 0 "take ?k ?R"]
    by (simp_all add: rows comp_def case_prod_unfold ranking_row_fields)
  have ranks: "map td_rank (top_donors s') = map (\<lambda>i. int (Suc i)) [0 ..< length (top_donors s')]"
    using map_enumerate_fst [of "\<lambda>i. int (Suc i)" 0 "take ?k ?R"]
    by (simp add: rows comp_def case_prod_unfold ranking_row_fields)
  have len: "length (top_donors s') = length (take ?k ?R)" by (simp add: rows)
  have n: "n = int (length (take ?k ?R))"
    using assms by (auto simp: refreshTopDonorRanking_def Let_def split: if_splits)
  have "0 \<le> ranking_limit limitOpt" by (simp add: ranking_limit_def)
  then have lim: "n \<le> ranking_limit limitOpt" by (simp add: n)
  have srt: "sorted (map (\<lambda>u. - ?tot u) ?R)" by (simp add: ranked_donors_def)
  have "sorted_wrt (\<lambda>u v. - ?tot u \<le> - ?tot v) (take ?k ?R @ drop ?k ?R)"
    using srt unfolding append_take_drop_id sorted_map .
  note both = this [unfolded sorted_wrt_append]
  have desc: "sorted_wrt (\<ge>) (map ?tot (take ?k ?R))"
    using both unfolding sorted_wrt_map by (auto elim: sorted_wrt_mono_rel [rotated])
  have cut: "?tot v \<le> ?tot u" if "u \<in> set (take ?k ?R)" "v \<in> set (drop ?k ?R)" for u v
    using both that by auto
  have "distinct ?R" by (simp add: ranked_donors_def)
  then have dist: "distinct (map td_userId (top_donors s'))" unfolding ids by (simp add: distinct_map)
  have own: "\<exists>u \<in> set (take ?k ?R). td_userId t = Some u \<and> td_totalDonated t = ?tot u" if "t \<in> set (top_donors s')" for t
  proof -
    from that obtain i u where iu: "(i, u) \<in> set (enumerate 0 (take ?k ?R))" "t = ranking_row now s i u"
      unfolding rows by auto
    then have "u \<in> set (take ?k ?R)" using set_map [of snd "enumerate 0 (take ?k ?R)"] by force
    then show ?thesis using iu(2) by (auto simp: ranking_row_fields)
  qed
  have "d_userId d \<in> set (map td_userId (top_donors s')) \<or>
      (\<forall>t \<in> set (top_donors s'). donor_total (the (d_userId d)) (donations s) \<le> td_totalDonated t)"
    if d: "d \<in> set (donations s)" "counted_donation d" for d
  proof -
    obtain u where u: "d_userId d = Some u" using d(2) by (auto simp: counted_donation_def)
    then have "u \<in> set (take ?k ?R @ drop ?k ?R)" using d set_ranked_donors [of u "donations s"] by auto
    then consider "u \<in> set (take ?k ?R)" | "u \<in> set (drop ?k ?R)" unfolding set_append by blast
    then show ?thesis
    proof cases
      case 1
      then show ?thesis unfolding ids u by simp
    next
      case 2
      have "?tot u \<le> td_totalDonated t" if t: "t \<in> set (top_donors s')" for t
        using own [OF t] cut [OF _ 2] by auto
      then show ?thesis by (simp add: u)
    qed
  qed
  moreover have "\<forall>t \<in> set (top_donors s'). \<exists>u. td_userId t = Some u \<and> td_totalDonated t = ?tot u"
    using own by blast
  moreover have "n = int (length (top_donors s'))" using n len by simp
  moreover have "sorted_wrt (\<ge>) (map td_totalDonated (top_donors s'))" using desc totals by simp
  ultimately show ?thesis using ranks lim dist by blast
qed

theorem refresh_leaderboard_witness:
  "sorted_wrt (\<ge>) (map td_totalDonated (top_donors (snd (refreshTopDonorRanking None 10
     (empty_db\<lparr>donations := [sample_donation 1 7 500 D_CAPTURED, sample_donation 2 8 900 D_CAPTURED, sample_donation 3 7 600 D_CAPTURED]\<rparr>)))))"
  using refresh_leaderboard [OF prod.collapse [symmetric]] by blast

end
