(* ===== verification/Invoicing.thy ===== *)
theory Invoicing
  imports Calendar Coins Js_Number Samples
begin

text \<open>
  GST and invoices (src/shared/invoicing/gst.ts, invoice.service.ts, Counter.repository.ts,
  src/workers/invoice.worker.ts): taking the tax out of an inclusive price, splitting it
  between the states, the counter behind the invoice numbers, and the worker that writes an
  invoice onto a payment. The PDF renderer, the object store and the mail service are not
  the program's; the worker gets the outcome of the upload, a URL or a failure, as a
  parameter, and mail is best effort and changes nothing.
\<close>

section \<open>GST\<close>

definition deriveBaseAndGst :: "paise \<Rightarrow> paise \<times> paise" where
  "deriveBaseAndGst totalPaise =
     (let base = js_round (js_divide (js_int (totalPaise * 100)) (js_int 118));
          gst = totalPaise - base
      in (base, gst))"

record gst_split =
  gs_cgst :: paise
  gs_sgst :: paise
  gs_igst :: paise

definition splitGst :: "paise \<Rightarrow> bool \<Rightarrow> gst_split" where
  "splitGst gst intraState =
     (if \<not> intraState then \<lparr>gs_cgst = 0, gs_sgst = 0, gs_igst = gst\<rparr>
      else let cgst = gst div 2; sgst = gst - cgst
           in \<lparr>gs_cgst = cgst, gs_sgst = sgst, gs_igst = 0\<rparr>)"

section \<open>Invoice numbers\<close>

text \<open>\<open>$inc\<close> with \<open>upsert\<close>: the first use creates the counter at 1.\<close>

definition incrementAndGet :: "string \<Rightarrow> counter_doc list \<Rightarrow> int \<times> counter_doc list" where
  "incrementAndGet key cs =
     (case findOneAndUpdate (\<lambda>c. cn_key c = key) (\<lambda>c. c\<lparr>cn_value := cn_value c + 1\<rparr>) cs of
        (Some updated, cs') \<Rightarrow> (cn_value updated, cs')
      | (None, cs') \<Rightarrow> (1, cs' @ [\<lparr>cn_key = key, cn_value = 1\<rparr>]))"

definition padStart6 :: "string \<Rightarrow> string" where
  "padStart6 str = replicate (6 - length str) (CHR ''0'') @ str"

definition invoice_counter :: "string \<Rightarrow> string" where
  "invoice_counter fy = ''invoice:'' @ fy"

definition invoice_number :: "string \<Rightarrow> int \<Rightarrow> string" where
  "invoice_number fy seq = ''CF/'' @ fy @ ''/'' @ padStart6 (js_String seq)"

section \<open>Generating an invoice\<close>

record invoice_result =
  ir_invoiceNumber :: string
  ir_pdfUrl :: string
  ir_base :: paise
  ir_gst :: paise
  ir_cgst :: paise
  ir_sgst :: paise
  ir_igst :: paise

text \<open>
  The number is taken from the counter before the PDF is rendered and stored; \<open>put\<close> gives
  the URL of the stored object, or \<open>None\<close> when rendering or storing throws.
\<close>

definition generateInvoice ::
  "dayjs \<Rightarrow> string \<Rightarrow> (string \<Rightarrow> string option) \<Rightarrow> sub_payment \<Rightarrow> user \<Rightarrow> date \<Rightarrow> db
   \<Rightarrow> (string + invoice_result) \<times> db" where
  "generateInvoice dj merchantState put payment user now s =
     (let total = or_default (sp_amount payment) 0;
          (base, gst) = deriveBaseAndGst total;
          intraState = (merchantState = u_declaredState user);
          split = splitGst gst intraState;
          fy = currentFyIST dj now;
          (seq, cs) = incrementAndGet (invoice_counter fy) (counters s);
          invoiceNumber = invoice_number fy seq;
          s' = s\<lparr>counters := cs\<rparr>
      in case put invoiceNumber of
           None \<Rightarrow> (Inl ''object store'', s')
         | Some url \<Rightarrow>
             (Inr \<lparr>ir_invoiceNumber = invoiceNumber, ir_pdfUrl = url, ir_base = base, ir_gst = gst,
                   ir_cgst = gs_cgst split, ir_sgst = gs_sgst split, ir_igst = gs_igst split\<rparr>, s'))"

datatype invoice_outcome = Skipped | Generated string string

definition write_invoice :: "invoice_result \<Rightarrow> string \<Rightarrow> sub_payment \<Rightarrow> sub_payment" where
  "write_invoice res placeOfSupply p =
     p\<lparr>sp_invoiceNumber := Some (ir_invoiceNumber res), sp_invoicePdfUrl := Some (ir_pdfUrl res),
       sp_baseAmount := Some (ir_base res), sp_gstAmount := Some (ir_gst res),
       sp_cgst := Some (ir_cgst res), sp_sgst := Some (ir_sgst res), sp_igst := Some (ir_igst res),
       sp_placeOfSupply := Some placeOfSupply\<rparr>"

definition invoiceHandler ::
  "dayjs \<Rightarrow> string \<Rightarrow> (string \<Rightarrow> string option) \<Rightarrow> oid \<Rightarrow> date \<Rightarrow> db \<Rightarrow> (string + invoice_outcome) \<times> db" where
  "invoiceHandler dj merchantState put paymentId now s =
     (case findOne (\<lambda>p. sp_id p = paymentId) (sub_payments s) of
        None \<Rightarrow> (Inl ''payment not found'', s)
      | Some payment \<Rightarrow>
          if truthy_str (sp_invoiceNumber payment) \<and> truthy_str (sp_invoicePdfUrl payment) then (Inr Skipped, s)
          else (case findOne (\<lambda>x. s_id x = sp_subscriptionId payment) (subscriptions s) of
              None \<Rightarrow> (Inl ''subscription not found'', s)
            | Some _ \<Rightarrow>
                (case findOne (\<lambda>u. u_id u = sp_userId payment) (users s) of
                   None \<Rightarrow> (Inl ''user not found'', s)
                 | Some user \<Rightarrow>
                     (case generateInvoice dj merchantState put payment user now s of
                        (Inl e, s1) \<Rightarrow> (Inl e, s1)
                      | (Inr res, s1) \<Rightarrow>
                          (Inr (Generated (ir_invoiceNumber res) (ir_pdfUrl res)),
                           s1\<lparr>sub_payments := snd (updateOne (\<lambda>p. sp_id p = sp_id payment)
                                (write_invoice res (u_declaredState user)) (sub_payments s1))\<rparr>)))))"

section \<open>The base amount\<close>

text \<open>C0: the price without tax is 100/118 of the inclusive price rounded to the nearest paisa, for
  every total below \<open>2 ^ 44\<close>, although the quotient is rounded to a double first; base and tax
  add up to the total and neither is negative; the parts of the split add up to the tax.\<close>

theorem deriveBaseAndGst_value:
  assumes "0 \<le> t" and "t < 2 ^ 44"
  shows "deriveBaseAndGst t = ((100 * t + 59) div 118, t - (100 * t + 59) div 118) \<and>
    0 \<le> fst (deriveBaseAndGst t) \<and> 0 \<le> snd (deriveBaseAndGst t) \<and>
    (let sp = splitGst (snd (deriveBaseAndGst t)) intra in
       gs_cgst sp + gs_sgst sp + gs_igst sp = snd (deriveBaseAndGst t) \<and>
       0 \<le> gs_cgst sp \<and> gs_cgst sp \<le> gs_sgst sp \<and> gs_sgst sp \<le> gs_cgst sp + 1 \<and> 0 \<le> gs_igst sp)"
proof -
  have "js_round (js_divide (js_int (t * 100)) (js_int 118)) = (100 * t + 59) div 118"
  proof (cases "t = 0")
    case True
    then show ?thesis by (simp add: js_divide_def js_int_def fl_def js_round_def)
  next
    case False
    have "0 < t * 100" "(0 :: int) < 118" "t * 100 < 2 ^ 44 * 118" using assms False by simp_all
    then obtain m k where mk: "fl (t * 100) 118 = (m, - int k)" "256 \<le> (2 :: int) ^ k"
      "2 * \<bar>m * 118 - t * 100 * 2 ^ k\<bar> \<le> 118"
      by (rule fl_approx)
    define K x N where "K = (2 :: int) ^ k" and "x = t * K" and "N = (100 * t + 59) div 118"
    define r where "r = (100 * t + 59) mod 118"
    have K: "256 \<le> K" using mk(2) by (simp add: K_def)
    have "odd r" unfolding r_def by (simp add: dvd_mod_iff)
    then have r: "0 \<le> r" "r \<le> 117" "r \<noteq> 0" by (auto simp: r_def)
    have "100 * t + 59 = 118 * N + r" by (simp add: N_def r_def)
    then have "(100 * t + 59) * K = (118 * N + r) * K" by simp
    then have xK: "100 * x + 59 * K = 118 * (N * K) + r * K" by (simp add: x_def algebra_simps)
    have err: "\<bar>m * 118 - 100 * x\<bar> \<le> 59" using mk(3) by (simp add: x_def K_def)
    have z: "K \<le> r * K" "r * K \<le> 117 * K" using r K by simp_all
    have "(2 * m + K) div (2 * K) = N"
    proof (rule div_between)
      show "0 < 2 * K" using K by simp
      have "2 * (N * K) \<le> 2 * m + K" "2 * m + K < 2 * (N * K) + 2 * K"
        using err xK z K by linarith+
      then show "N * (2 * K) \<le> 2 * m + K" "2 * m + K < (N + 1) * (2 * K)" by (simp_all add: algebra_simps)
    qed
    then show ?thesis using mk(1) by (simp add: js_divide_def js_int_def js_round_frac K_def N_def)
  qed
  then have v: "deriveBaseAndGst t = ((100 * t + 59) div 118, t - (100 * t + 59) div 118)"
    by (simp add: deriveBaseAndGst_def Let_def)
  have "0 \<le> (100 * t + 59) div 118" "(100 * t + 59) div 118 \<le> t"
    using assms(1) int_div_less_iff [of 118 "100 * t + 59" "t + 1"] by (simp_all add: div_int_pos_iff)
  then show ?thesis by (auto simp: v splitGst_def Let_def)
qed

theorem deriveBaseAndGst_value_witness: "deriveBaseAndGst 5900 = (5000, 900)"
  using deriveBaseAndGst_value [of 5900 True] by simp

lemma deriveBaseAndGst_small: "deriveBaseAndGst 5900 = (5000, 900)" "deriveBaseAndGst 11800 = (10000, 1800)"
  by code_simp+

section \<open>Numbers are never reused\<close>

definition counter_value :: "string \<Rightarrow> counter_doc list \<Rightarrow> int" where
  "counter_value key cs = (case findOne (\<lambda>c. cn_key c = key) cs of None \<Rightarrow> 0 | Some c \<Rightarrow> cn_value c)"

lemma incrementAndGet_value:
  "fst (incrementAndGet key cs) = counter_value key cs + 1 \<and>
   counter_value key (snd (incrementAndGet key cs)) = counter_value key cs + 1 \<and>
   (key' \<noteq> key \<longrightarrow> counter_value key' (snd (incrementAndGet key cs)) = counter_value key' cs)"
proof (cases "findOne (\<lambda>c. cn_key c = key) cs")
  case None
  then show ?thesis
    by (auto simp: incrementAndGet_def findOneAndUpdate_def counter_value_def update_first_None
        findOne_def find_append split: option.splits)
next
  case (Some c)
  have "findOne (\<lambda>c. cn_key c = k) (update_first (\<lambda>c. cn_key c = key) (\<lambda>c. c\<lparr>cn_value := cn_value c + 1\<rparr>) cs) =
      (if k = key then map_option (\<lambda>c. c\<lparr>cn_value := cn_value c + 1\<rparr>) (findOne (\<lambda>c. cn_key c = key) cs)
       else findOne (\<lambda>c. cn_key c = k) cs)" for k
    unfolding findOne_def by (induction cs) auto
  then show ?thesis using Some by (simp add: incrementAndGet_def findOneAndUpdate_def counter_value_def)
qed

lemma padStart6_inj:
  assumes "0 < m" and "0 < n" and "padStart6 (dec_digits m) = padStart6 (dec_digits n)"
  shows "m = n"
proof -
  have strip: "dropWhile (\<lambda>c. c = CHR ''0'') (padStart6 (dec_digits k)) = dec_digits k" if "0 < k" for k
  proof -
    have "dropWhile (\<lambda>c. c = CHR ''0'') (replicate j (CHR ''0'') @ xs) = dropWhile (\<lambda>c. c = CHR ''0'') xs" for j xs
      by (induction j) simp_all
    moreover have "dropWhile (\<lambda>c. c = CHR ''0'') (dec_digits k) = dec_digits k"
      using dec_digits_hd [OF that] by (cases "dec_digits k") auto
    ultimately show ?thesis by (simp add: padStart6_def)
  qed
  have "dec_digits m = dec_digits n" using assms strip by metis
  then show ?thesis by (rule dec_digits_inj)
qed

lemma invoice_number_inj:
  assumes "0 < m" and "0 < n" and "CHR ''/'' \<notin> set fy" and "CHR ''/'' \<notin> set fy'"
    and "invoice_number fy m = invoice_number fy' n"
  shows "fy = fy' \<and> m = n"
proof -
  have "takeWhile (\<lambda>c. c \<noteq> CHR ''/'') (f @ CHR ''/'' # xs) = f \<and> dropWhile (\<lambda>c. c \<noteq> CHR ''/'') (f @ CHR ''/'' # xs) = CHR ''/'' # xs"
    if "CHR ''/'' \<notin> set f" for f xs
    using that by (induction f) auto
  from this [OF assms(3)] this [OF assms(4)]
  have "fy = fy'" "padStart6 (js_String m) = padStart6 (js_String n)"
    using assms(5) by (auto simp: invoice_number_def) (metis list.inject)+
  then show ?thesis using assms(1,2) padStart6_inj [of "nat m" "nat n"] by (simp add: js_String_def)
qed

text \<open>A financial-year key has no slash, so it can be read back from an invoice number.\<close>

lemma dec_digits_no_slash: "CHR ''/'' \<notin> set (dec_digits n)"
proof (induction n rule: dec_digits.induct)
  case (1 n)
  have "CHR ''/'' \<noteq> (char_of (48 + m :: nat) :: char)" if "m < 10" for m
  proof
    assume "CHR ''/'' = (char_of (48 + m :: nat) :: char)"
    then have "(of_char (CHR ''/'') :: nat) = of_char (char_of (48 + m :: nat) :: char)" by (rule arg_cong)
    then show False using that by simp
  qed
  then show ?case using 1 by (simp add: dec_digits.simps [of n])
qed

lemma currentFyIST_no_slash: "CHR ''/'' \<notin> set (currentFyIST dj now)"
proof -
  have "CHR ''/'' \<notin> set (js_String n)" for n by (simp add: js_String_def dec_digits_no_slash)
  then show ?thesis by (auto simp: currentFyIST_def Let_def dest: in_set_dropD)
qed

text \<open>
  The invariant: every number on a payment was taken from the counter of its year, and no
  number is on two payments.
\<close>

definition issued :: "counter_doc list \<Rightarrow> string \<Rightarrow> bool" where
  "issued cs x \<longleftrightarrow> (\<exists>fy seq. CHR ''/'' \<notin> set fy \<and> 0 < seq \<and> seq \<le> counter_value (invoice_counter fy) cs \<and>
     x = invoice_number fy seq)"

definition invoice_inv :: "db \<Rightarrow> bool" where
  "invoice_inv s \<longleftrightarrow> (\<forall>c \<in> set (counters s). 0 \<le> cn_value c) \<and> unique_on sp_invoiceNumber (sub_payments s) \<and>
     (\<forall>p \<in> set (sub_payments s). \<forall>x. sp_invoiceNumber p = Some x \<longrightarrow> issued (counters s) x)"

lemma issued_incrementAndGet:
  assumes "\<forall>c \<in> set cs. 0 \<le> cn_value c"
  shows "issued cs x \<Longrightarrow> issued (snd (incrementAndGet key cs)) x"
    and "CHR ''/'' \<notin> set fy \<Longrightarrow> key = invoice_counter fy \<Longrightarrow>
      \<not> issued cs (invoice_number fy (fst (incrementAndGet key cs))) \<and>
      issued (snd (incrementAndGet key cs)) (invoice_number fy (fst (incrementAndGet key cs)))"
    and "\<forall>c \<in> set (snd (incrementAndGet key cs)). 0 \<le> cn_value c"
proof -
  have ge: "counter_value k cs \<le> counter_value k (snd (incrementAndGet key cs))" for k
    using incrementAndGet_value [of key cs k] by (cases "k = key") simp_all
  show "issued cs x \<Longrightarrow> issued (snd (incrementAndGet key cs)) x"
    unfolding issued_def using ge order_trans by blast
  have pos: "0 \<le> counter_value key cs"
    using assms by (auto simp: counter_value_def split: option.splits dest: findOne_SomeD)
  assume fy: "CHR ''/'' \<notin> set fy" and key: "key = invoice_counter fy"
  have "\<not> issued cs (invoice_number fy (counter_value key cs + 1))"
  proof
    assume "issued cs (invoice_number fy (counter_value key cs + 1))"
    then obtain fy' seq where old: "CHR ''/'' \<notin> set fy'" "0 < seq"
        "seq \<le> counter_value (invoice_counter fy') cs"
        "invoice_number fy (counter_value key cs + 1) = invoice_number fy' seq"
      unfolding issued_def by blast
    have "fy = fy' \<and> counter_value key cs + 1 = seq"
      using invoice_number_inj [OF _ old(2) fy old(1,4)] pos by simp
    then show False using old(3) by (auto simp: key)
  qed
  moreover have "issued (snd (incrementAndGet key cs)) (invoice_number fy (counter_value key cs + 1))"
    using fy pos incrementAndGet_value [of key cs key] unfolding issued_def key
    by (metis add.commute le_less order_refl zle_add1_eq_le)
  ultimately show "\<not> issued cs (invoice_number fy (fst (incrementAndGet key cs))) \<and>
      issued (snd (incrementAndGet key cs)) (invoice_number fy (fst (incrementAndGet key cs)))"
    using incrementAndGet_value [of key cs key] by simp
next
  show "\<forall>c \<in> set (snd (incrementAndGet key cs)). 0 \<le> cn_value c"
    using assms
    by (auto simp: incrementAndGet_def findOneAndUpdate_def elim!: in_update_firstE
        split: option.splits dest: findOne_SomeD)
qed

lemma generateInvoice_result:
  assumes "generateInvoice dj ms put payment user now s = (r, s')"
  shows "s' = s\<lparr>counters := snd (incrementAndGet (invoice_counter (currentFyIST dj now)) (counters s))\<rparr>"
    and "r = Inr res \<Longrightarrow> ir_invoiceNumber res = invoice_number (currentFyIST dj now)
        (fst (incrementAndGet (invoice_counter (currentFyIST dj now)) (counters s))) \<and>
      put (ir_invoiceNumber res) = Some (ir_pdfUrl res) \<and>
      (ir_base res, ir_gst res) = deriveBaseAndGst (or_default (sp_amount payment) 0) \<and>
      ir_cgst res + ir_sgst res + ir_igst res = ir_gst res"
  using assms
  by (auto simp: generateInvoice_def Let_def splitGst_def split: prod.splits option.splits if_splits)

lemma invoiceHandler_cases:
  assumes "invoiceHandler dj ms put pid now s = (r, s')"
  obtains "s' = s" "\<nexists>n u. r = Inr (Generated n u)"
  | e where "r = Inl e" "s' = s\<lparr>counters := snd (incrementAndGet (invoice_counter (currentFyIST dj now)) (counters s))\<rparr>"
  | payment user res where "findOne (\<lambda>p. sp_id p = pid) (sub_payments s) = Some payment"
    "\<not> (truthy_str (sp_invoiceNumber payment) \<and> truthy_str (sp_invoicePdfUrl payment))"
    "generateInvoice dj ms put payment user now s = (Inr res, s\<lparr>counters := counters s'\<rparr>)"
    "r = Inr (Generated (ir_invoiceNumber res) (ir_pdfUrl res))"
    "counters s' = snd (incrementAndGet (invoice_counter (currentFyIST dj now)) (counters s))"
    "sub_payments s' = update_first (\<lambda>p. sp_id p = pid) (write_invoice res (u_declaredState user)) (sub_payments s)"
proof (cases "findOne (\<lambda>p. sp_id p = pid) (sub_payments s)")
  case (Some payment)
  then have pid: "sp_id payment = pid" by (auto dest: findOne_SomeD)
  consider "s' = s" "\<nexists>n u. r = Inr (Generated n u)"
    | user where "\<not> (truthy_str (sp_invoiceNumber payment) \<and> truthy_str (sp_invoicePdfUrl payment))"
      "(case generateInvoice dj ms put payment user now s of
          (Inl e, s1) \<Rightarrow> (Inl e, s1)
        | (Inr res, s1) \<Rightarrow> (Inr (Generated (ir_invoiceNumber res) (ir_pdfUrl res)),
           s1\<lparr>sub_payments := snd (updateOne (\<lambda>p. sp_id p = sp_id payment)
                (write_invoice res (u_declaredState user)) (sub_payments s1))\<rparr>)) = (r, s')"
    using assms Some by (auto simp: invoiceHandler_def split: if_splits option.splits)
  then show ?thesis
  proof cases
    case 1
    then show ?thesis by (rule that(1))
  next
    case 2
    obtain q s1 where g: "generateInvoice dj ms put payment user now s = (q, s1)" by fastforce
    note s1 = generateInvoice_result(1) [OF g]
    show ?thesis
    proof (cases q)
      case (Inl e)
      then show ?thesis using 2(2) g s1 by (intro that(2) [of e]) simp_all
    next
      case (Inr res)
      then have "r = Inr (Generated (ir_invoiceNumber res) (ir_pdfUrl res))"
        "s' = s1\<lparr>sub_payments := update_first (\<lambda>p. sp_id p = pid)
          (write_invoice res (u_declaredState user)) (sub_payments s)\<rparr>"
        using 2(2) g pid by (simp_all add: updateOne_def s1)
      then show ?thesis using Some 2(1) g Inr by (intro that(3) [of payment user res]) (simp_all add: s1)
    qed
  qed
next
  case None
  then have "(r, s') = (Inl ''payment not found'', s)" using assms by (simp add: invoiceHandler_def)
  then show ?thesis by (intro that(1)) simp_all
qed

section \<open>Properties\<close>

definition sample_billing :: db where
  "sample_billing = empty_db\<lparr>users := [sample_user 1 10 []], subscriptions := [sample_subscription 2 1 PRO S_ACTIVE],
     sub_payments := [sample_payment 3 2 1 5900]\<rparr>"

lemma sample_billing_inv: "invoice_inv sample_billing"
  by (simp add: invoice_inv_def sample_billing_def sample_payment_def unique_on_def keys_of_def empty_db_def)

text \<open>C14: invoice numbers are never reused: every run of the invoice worker, whatever it meets,
  keeps the invariant that each number on a payment was issued by the counter of its
  financial year and that no two payments carry the same number.\<close>

theorem invoiceHandler_numbers_unique:
  assumes "invoice_inv s"
  shows "invoice_inv (snd (invoiceHandler dj ms put pid now s))"
proof -
  obtain r s' where run: "invoiceHandler dj ms put pid now s = (r, s')" by fastforce
  let ?key = "invoice_counter (currentFyIST dj now)"
  have pos: "\<forall>c \<in> set (counters s). 0 \<le> cn_value c" using assms by (simp add: invoice_inv_def)
  note iss = issued_incrementAndGet [OF pos, where key = ?key]
  from run have "invoice_inv s'"
  proof (cases rule: invoiceHandler_cases)
    case 1
    then show ?thesis using assms by simp
  next
    case 2
    then show ?thesis using assms iss by (auto simp: invoice_inv_def)
  next
    case (3 payment user res)
    note num = generateInvoice_result(2) [OF 3(3) refl, THEN conjunct1]
    note fresh = iss(2) [OF currentFyIST_no_slash refl, folded num]
    have "unique_on sp_invoiceNumber (sub_payments s')"
      unfolding 3(6) using assms fresh
      by (intro unique_on_update_new [where k = "ir_invoiceNumber res"]) (auto simp: invoice_inv_def write_invoice_def)
    moreover have "issued (counters s') x" if "p \<in> set (sub_payments s')" "sp_invoiceNumber p = Some x" for p x
      using that assms iss(1) fresh unfolding 3(5,6)
      by (auto elim!: in_update_firstE simp: invoice_inv_def write_invoice_def)
    ultimately show ?thesis using iss(3) by (simp add: invoice_inv_def 3(5))
  qed
  then show ?thesis by (simp add: run)
qed

theorem invoiceHandler_numbers_unique_witness:
  "invoice_inv (snd (invoiceHandler gregorian_ist ''MH'' (\<lambda>k. Some k) 3 1777600000000 sample_billing))"
  by (rule invoiceHandler_numbers_unique [OF sample_billing_inv])

text \<open>a payment is invoiced once: a run that generated an invoice used a number no payment had,
  wrote it and amounts that add up onto the payment, and a later run for the same payment is
  skipped and changes nothing, the counter included.\<close>

theorem invoiceHandler_once:
  assumes "invoiceHandler dj ms put pid now s = (Inr (Generated num url), s1)"
    and "invoice_inv s" and "url \<noteq> []"
  shows "(\<forall>p \<in> set (sub_payments s). sp_invoiceNumber p \<noteq> Some num) \<and>
    (\<exists>p. findOne (\<lambda>p. sp_id p = pid) (sub_payments s1) = Some p \<and> sp_invoiceNumber p = Some num \<and>
       sp_invoicePdfUrl p = Some url \<and> sp_gstAmount p = Some (the (sp_cgst p) + the (sp_sgst p) + the (sp_igst p)) \<and>
       the (sp_baseAmount p) + the (sp_gstAmount p) = or_default (sp_amount p) 0) \<and>
    invoiceHandler dj' ms' put' pid now' s1 = (Inr Skipped, s1)"
  using assms(1)
proof (cases rule: invoiceHandler_cases)
  case (3 payment user res)
  let ?key = "invoice_counter (currentFyIST dj now)"
  have pos: "\<forall>c \<in> set (counters s). 0 \<le> cn_value c" using assms by (simp add: invoice_inv_def)
  note g = generateInvoice_result(2) [OF 3(3) refl]
  have num: "num = ir_invoiceNumber res" "url = ir_pdfUrl res" using 3(4) by simp_all
  have "\<not> issued (counters s) num"
    using issued_incrementAndGet(2) [OF pos currentFyIST_no_slash refl] g by (simp add: num)
  then have fresh: "\<forall>p \<in> set (sub_payments s). sp_invoiceNumber p \<noteq> Some num"
    using assms(2) by (auto simp: invoice_inv_def)
  let ?p = "write_invoice res (u_declaredState user) payment"
  have p: "findOne (\<lambda>p. sp_id p = pid) (sub_payments s1) = Some ?p"
    unfolding 3(6) by (subst findOne_update_first) (simp_all add: 3(1) write_invoice_def)
  have nonempty: "num \<noteq> []" using g by (simp add: num invoice_number_def)
  have base: "ir_base res + ir_gst res = or_default (sp_amount payment) 0"
    using g by (auto simp: deriveBaseAndGst_def Let_def)
  show ?thesis
    using fresh p nonempty assms(3) base g
    by (simp add: invoiceHandler_def) (simp add: write_invoice_def num)
qed simp_all

theorem invoiceHandler_once_witness:
  "\<exists>num url s1. invoiceHandler gregorian_ist ''MH'' (\<lambda>k. Some k) 3 1777600000000 sample_billing = (Inr (Generated num url), s1) \<and>
     invoiceHandler gregorian_ist ''MH'' (\<lambda>k. Some k) 3 1777600000001 s1 = (Inr Skipped, s1)"
proof -
  let ?run = "invoiceHandler gregorian_ist ''MH'' (\<lambda>k. Some k) 3 1777600000000 sample_billing"
  have "case fst ?run of Inr (Generated num url) \<Rightarrow> url \<noteq> [] | _ \<Rightarrow> False" by code_simp
  then obtain num url s1 where run: "?run = (Inr (Generated num url), s1)" and u: "url \<noteq> []"
    by (cases ?run) (auto split: sum.splits invoice_outcome.splits)
  show ?thesis using invoiceHandler_once [OF run sample_billing_inv u] run by blast
qed

end
