(* ===== verification/Subscriptions.thy ===== *)
theory Subscriptions
  imports Tier Coins Invoicing
begin

text \<open>
  Subscriptions (src/modules/subscriptions/subscriptions.service.ts and
  subscriptions.admin.service.ts): plans, creation, signature check, cancellation, the
  lists, and the handlers of the payment provider's events. The provider is not modelled:
  what a call to it returned, or that it threw, is a parameter, and the calls made are
  logged in the state. The HMAC of the signature is a parameter too.
\<close>

section \<open>Plans and user operations\<close>

text \<open>Total, base and GST in paise; the free tier is not for sale.\<close>

fun PLAN_PRICING :: "tier \<Rightarrow> (paise \<times> paise \<times> paise) option" where
  "PLAN_PRICING PUBLIC = None"
| "PLAN_PRICING PRO = Some (5900, 5000, 900)"
| "PLAN_PRICING PRO_MAX = Some (11800, 10000, 1800)"

record plan_summary =
  ps_tier :: tier
  ps_razorpayPlanId :: string
  ps_baseAmount :: paise
  ps_gstAmount :: paise
  ps_totalAmount :: paise
  ps_billingCycle :: billing_cycle

definition plan_id :: "app_config option \<Rightarrow> tier \<Rightarrow> string option" where
  "plan_id cfg tier =
     (case cfg of
        None \<Rightarrow> None
      | Some c \<Rightarrow> (case tier of PRO \<Rightarrow> cfg_planIdPro c | PRO_MAX \<Rightarrow> cfg_planIdProMax c | PUBLIC \<Rightarrow> None))"

definition listPlans :: "db \<Rightarrow> plan_summary list" where
  "listPlans s =
     (let cfg = findOne (\<lambda>c. cfg_key c = ''default'') (app_configs s)
      in List.map_filter (\<lambda>tier.
           if truthy_str (plan_id cfg tier) then
             map_option (\<lambda>(tot, base, gst).
               \<lparr>ps_tier = tier, ps_razorpayPlanId = the (plan_id cfg tier), ps_baseAmount = base,
                ps_gstAmount = gst, ps_totalAmount = tot, ps_billingCycle = MONTHLY\<rparr>) (PLAN_PRICING tier)
           else None) SUBSCRIBABLE_TIER_VALUES)"

definition subscription_row ::
  "oid \<Rightarrow> tier \<Rightarrow> string \<Rightarrow> string \<Rightarrow> paise \<times> paise \<times> paise \<Rightarrow> date \<Rightarrow> oid \<Rightarrow> subscription" where
  "subscription_row userId tier rzpId planId price now newId =
     (case price of (tot, base, gst) \<Rightarrow>
        \<lparr>s_id = newId, s_createdAt = now, s_userId = userId, s_tier = tier,
         s_razorpaySubscriptionId = rzpId, s_razorpayPlanId = planId, s_status = S_CREATED,
         s_billingCycle = MONTHLY, s_totalCount = None, s_paidCount = 0, s_remainingCount = None,
         s_baseAmount = Some base, s_gstAmount = Some gst, s_totalAmount = Some tot,
         s_currentStart = None, s_currentEnd = None, s_chargeAt = None, s_autoRenew = True,
         s_cancelledAt = None, s_cancelReason = None\<rparr>)"

text \<open>\<open>rzpSub\<close> is the id the provider returned, \<open>None\<close> when the call threw.\<close>

definition create_subscription ::
  "oid \<Rightarrow> tier \<Rightarrow> string option \<Rightarrow> date \<Rightarrow> oid \<Rightarrow> db \<Rightarrow> (app_error + string) \<times> db" where
  "create_subscription userId tier rzpSub now newId s =
     (let cfg = findOne (\<lambda>c. cfg_key c = ''default'') (app_configs s);
          planId = plan_id cfg tier
      in if \<not> truthy_str planId then (Inl (BadRequestError ''PLAN_NOT_CONFIGURED''), s)
         else
           let s1 = s\<lparr>rzp_calls := rzp_calls s @ [RzpCreateSubscription (the planId) userId]\<rparr>
           in case rzpSub of
                None \<Rightarrow> (Inl (InternalError ''INTERNAL''), s1)
              | Some rzpId \<Rightarrow>
                  (case PLAN_PRICING tier of
                     None \<Rightarrow> (Inl (InternalError ''INTERNAL''), s1)
                   | Some price \<Rightarrow>
                       (case create subscription_clash (subscription_row userId tier rzpId (the planId) price now newId)
                               (subscriptions s1) of
                          Inl _ \<Rightarrow> (Inl (InternalError ''INTERNAL''), s1)
                        | Inr ss \<Rightarrow> (Inr rzpId, s1\<lparr>subscriptions := ss\<rparr>))))"

text \<open>
  \<open>hex\<close> decodes a hexadecimal string to bytes; \<open>hmac\<close> gives the digest in hexadecimal.
  Equal length and equal content is equality of the byte strings.
\<close>

definition verify_subscription ::
  "(string \<Rightarrow> string \<Rightarrow> string) \<Rightarrow> (string \<Rightarrow> string) \<Rightarrow> string \<Rightarrow> string \<Rightarrow> string \<Rightarrow> string \<Rightarrow> app_error + unit" where
  "verify_subscription hmac hex keySecret paymentId subscriptionId signature =
     (let payload = paymentId @ ''|'' @ subscriptionId;
          generated = hmac keySecret payload;
          sigBuf = hex signature;
          genBuf = hex generated
      in if length sigBuf \<noteq> length genBuf \<or> sigBuf \<noteq> genBuf
         then Inl (BadRequestError ''INVALID_SIGNATURE'') else Inr ())"

definition cancel_subscription ::
  "oid \<Rightarrow> oid \<Rightarrow> bool \<Rightarrow> bool \<Rightarrow> date \<Rightarrow> db \<Rightarrow> (app_error + unit) \<times> db" where
  "cancel_subscription userId subscriptionId atCycleEnd providerOk now s =
     (case findOne (\<lambda>x. s_id x = subscriptionId) (subscriptions s) of
        None \<Rightarrow> (Inl NotFoundError, s)
      | Some sub \<Rightarrow>
          if s_userId sub \<noteq> userId then (Inl (ForbiddenError ''FORBIDDEN''), s)
          else
            let s1 = s\<lparr>rzp_calls := rzp_calls s @ [RzpCancelSubscription (s_razorpaySubscriptionId sub) atCycleEnd]\<rparr>
            in if \<not> providerOk then (Inl (InternalError ''INTERNAL''), s1)
               else (Inr (), s1\<lparr>subscriptions := snd (updateOne (\<lambda>x. s_id x = s_id sub)
                 (\<lambda>x. if atCycleEnd then x\<lparr>s_cancelledAt := Some now\<rparr>
                      else x\<lparr>s_cancelledAt := Some now, s_status := S_CANCELLED\<rparr>) (subscriptions s1))\<rparr>))"

definition listMine :: "oid \<Rightarrow> db \<Rightarrow> subscription list" where
  "listMine userId s =
     sort_key (\<lambda>x. - s_createdAt x) (find_docs (\<lambda>x. s_userId x = userId) (subscriptions s))"

definition listInvoices :: "oid \<Rightarrow> oid \<Rightarrow> db \<Rightarrow> app_error + (string \<times> string \<times> date) list" where
  "listInvoices userId subscriptionId s =
     (case findOne (\<lambda>x. s_id x = subscriptionId) (subscriptions s) of
        None \<Rightarrow> Inl NotFoundError
      | Some sub \<Rightarrow>
          if s_userId sub \<noteq> userId then Inl (ForbiddenError ''FORBIDDEN'')
          else Inr (map (\<lambda>p. (the (sp_invoiceNumber p), the (sp_invoicePdfUrl p), sp_createdAt p))
            (filter (\<lambda>p. truthy_str (sp_invoiceNumber p) \<and> truthy_str (sp_invoicePdfUrl p))
              (sort_key (\<lambda>p. - sp_createdAt p)
                (find_docs (\<lambda>p. sp_subscriptionId p = subscriptionId) (sub_payments s))))))"

section \<open>Events of the provider\<close>

definition applySubStatus :: "string \<Rightarrow> sub_status \<Rightarrow> db \<Rightarrow> db" where
  "applySubStatus rzpId status s =
     s\<lparr>subscriptions := snd (updateOne (\<lambda>x. s_razorpaySubscriptionId x = rzpId)
        (\<lambda>x. x\<lparr>s_status := status\<rparr>) (subscriptions s))\<rparr>"

definition onAuthenticated :: "sub_entity \<Rightarrow> db \<Rightarrow> db" where
  "onAuthenticated entity = applySubStatus (se_id entity) S_AUTHENTICATED"

definition onActivated :: "sub_entity \<Rightarrow> db \<Rightarrow> db" where
  "onActivated entity = applySubStatus (se_id entity) S_ACTIVE"

definition onPending :: "sub_entity \<Rightarrow> db \<Rightarrow> db" where
  "onPending entity = applySubStatus (se_id entity) S_PENDING"

definition onPaused :: "sub_entity \<Rightarrow> db \<Rightarrow> db" where
  "onPaused entity = applySubStatus (se_id entity) S_PAUSED"

definition onResumed :: "sub_entity \<Rightarrow> db \<Rightarrow> db" where
  "onResumed entity = applySubStatus (se_id entity) S_ACTIVE"

definition onCompleted :: "sub_entity \<Rightarrow> db \<Rightarrow> db" where
  "onCompleted entity = applySubStatus (se_id entity) S_COMPLETED"

text \<open>Unix seconds to a date, when present and not 0.\<close>

definition from_unix :: "int option \<Rightarrow> date option" where
  "from_unix t = (if truthy_num t then map_option (\<lambda>n. n * 1000) t else None)"

definition payment_row :: "subscription \<Rightarrow> pay_entity \<Rightarrow> date \<Rightarrow> oid \<Rightarrow> sub_payment" where
  "payment_row sub pay now newId =
     \<lparr>sp_id = newId, sp_createdAt = now, sp_subscriptionId = s_id sub, sp_userId = s_userId sub,
      sp_razorpayPaymentId = pe_id pay, sp_razorpayOrderId = pe_order_id pay,
      sp_razorpayInvoiceId = pe_invoice_id pay, sp_amount = Some (pe_amount pay),
      sp_baseAmount = None, sp_gstAmount = None, sp_cgst = None, sp_sgst = None, sp_igst = None,
      sp_placeOfSupply = None, sp_sacCode = ''998439'', sp_merchantGstin = None,
      sp_customerGstin = None, sp_invoiceNumber = None, sp_invoicePdfUrl = None,
      sp_method = pe_method pay, sp_status = Some SP_CAPTURED, sp_capturedAt = Some now,
      sp_refundedAt = None, sp_refundAmount = None\<rparr>"

definition charge_update :: "sub_entity \<Rightarrow> subscription \<Rightarrow> subscription" where
  "charge_update entity x =
     x\<lparr>s_status := S_ACTIVE,
       s_currentStart := (case from_unix (se_current_start entity) of None \<Rightarrow> s_currentStart x | Some d \<Rightarrow> Some d),
       s_currentEnd := (case from_unix (se_current_end entity) of None \<Rightarrow> s_currentEnd x | Some d \<Rightarrow> Some d),
       s_chargeAt := (case from_unix (se_charge_at entity) of None \<Rightarrow> s_chargeAt x | Some d \<Rightarrow> Some d),
       s_remainingCount := (case se_remaining_count entity of None \<Rightarrow> s_remainingCount x | Some n \<Rightarrow> Some n),
       s_paidCount := (case se_paid_count entity of None \<Rightarrow> s_paidCount x + 1 | Some n \<Rightarrow> n)\<rparr>"

definition with_entries :: "(sub_entry list \<Rightarrow> sub_entry list) \<Rightarrow> oid \<Rightarrow> db \<Rightarrow> db" where
  "with_entries f userId s =
     s\<lparr>users := snd (updateOne (\<lambda>u. u_id u = userId) (\<lambda>u. u\<lparr>u_subscriptions := f (u_subscriptions u)\<rparr>) (users s))\<rparr>"

text \<open>The queue keeps one job per id: a second add of the same payment is a no-op.\<close>

definition enqueueInvoice :: "oid \<Rightarrow> oid list \<Rightarrow> oid list" where
  "enqueueInvoice paymentId q = (if paymentId \<in> set q then q else q @ [paymentId])"

text \<open>
  The charge: payment, subscription and entry in one transaction; a payment seen before
  ends it without a change. The invoice job follows the commit; \<open>queueOk\<close> says whether the
  queue took it.
\<close>

definition onCharged :: "sub_entity \<Rightarrow> pay_entity \<Rightarrow> date \<Rightarrow> oid \<Rightarrow> bool \<Rightarrow> db \<Rightarrow> db" where
  "onCharged entity pay now newId queueOk s =
     (case findOne (\<lambda>x. s_razorpaySubscriptionId x = se_id entity) (subscriptions s) of
        None \<Rightarrow> s
      | Some sub \<Rightarrow>
          (case findOne (\<lambda>u. u_id u = s_userId sub) (users s) of
             None \<Rightarrow> s
           | Some user \<Rightarrow>
               (case upsertOnInsert (\<lambda>p. sp_razorpayPaymentId p = pe_id pay) (payment_row sub pay now newId) (sub_payments s) of
                  (Some _, _) \<Rightarrow> s
                | (None, ps) \<Rightarrow>
                    let s1 = s\<lparr>sub_payments := ps,
                          subscriptions := snd (updateOne (\<lambda>x. s_id x = s_id sub) (charge_update entity) (subscriptions s))\<rparr>;
                        s2 = with_entries (upsertSubscriptionEntry (s_tier sub) E_ACTIVE
                               (from_unix (se_current_end entity)) (s_id sub)) (u_id user) s1
                    in if queueOk then s2\<lparr>invoice_queue := enqueueInvoice newId (invoice_queue s2)\<rparr> else s2)))"

definition onHalted :: "sub_entity \<Rightarrow> date \<Rightarrow> db \<Rightarrow> db" where
  "onHalted entity now s =
     (case findOne (\<lambda>x. s_razorpaySubscriptionId x = se_id entity) (subscriptions s) of
        None \<Rightarrow> s
      | Some sub \<Rightarrow>
          with_entries (markEntryExpiredImmediatelyBySubId (s_id sub) now) (s_userId sub)
            (s\<lparr>subscriptions := snd (updateOne (\<lambda>x. s_id x = s_id sub) (\<lambda>x. x\<lparr>s_status := S_HALTED\<rparr>) (subscriptions s))\<rparr>))"

definition at_cycle_end :: "note_value option \<Rightarrow> bool" where
  "at_cycle_end v \<longleftrightarrow> v = Some (NumNote 1) \<or> v = Some (StrNote ''1'')"

definition onCancelled :: "sub_entity \<Rightarrow> date \<Rightarrow> db \<Rightarrow> db" where
  "onCancelled entity now s =
     (case findOne (\<lambda>x. s_razorpaySubscriptionId x = se_id entity) (subscriptions s) of
        None \<Rightarrow> s
      | Some sub \<Rightarrow>
          with_entries (if at_cycle_end (se_cancel_at_cycle_end entity) then markEntryCancelledBySubId (s_id sub)
                        else markEntryExpiredImmediatelyBySubId (s_id sub) now) (s_userId sub)
            (s\<lparr>subscriptions := snd (updateOne (\<lambda>x. s_id x = s_id sub)
               (\<lambda>x. x\<lparr>s_status := S_CANCELLED, s_cancelledAt := Some now\<rparr>) (subscriptions s))\<rparr>))"

section \<open>Administration\<close>

definition admin_listSubscriptions :: "tier option \<Rightarrow> sub_status option \<Rightarrow> int \<Rightarrow> db \<Rightarrow> subscription list" where
  "admin_listSubscriptions tierF statusF limit s =
     take (nat (max 1 (min 200 limit)))
       (sort_key (\<lambda>x. (- s_createdAt x, - int (s_id x)))
          (find_docs (\<lambda>x. (case tierF of None \<Rightarrow> True | Some t \<Rightarrow> s_tier x = t) \<and>
             (case statusF of None \<Rightarrow> True | Some st \<Rightarrow> s_status x = st)) (subscriptions s)))"

record revenue_report =
  rv_totalPaise :: paise
  rv_pro :: paise
  rv_proMax :: paise
  rv_count :: int

fun revenue_loop :: "(oid \<Rightarrow> tier option) \<Rightarrow> sub_payment list \<Rightarrow> paise \<Rightarrow> paise \<Rightarrow> paise \<Rightarrow> paise \<times> paise \<times> paise" where
  "revenue_loop tierBySubId [] totalPaise pro proMax = (totalPaise, pro, proMax)"
| "revenue_loop tierBySubId (p # payments) totalPaise pro proMax =
     (let amt = or_default (sp_amount p) 0;
          tier = tierBySubId (sp_subscriptionId p)
      in revenue_loop tierBySubId payments (totalPaise + amt)
           (if tier = Some PRO then pro + amt else pro)
           (if tier = Some PRO_MAX then proMax + amt else proMax))"

definition counts_as_revenue :: "date \<Rightarrow> date \<Rightarrow> sub_payment \<Rightarrow> bool" where
  "counts_as_revenue from' to' p \<longleftrightarrow>
     (sp_status p = Some SP_CAPTURED \<or> sp_status p = Some SP_PARTIAL_REFUND) \<and>
     (case sp_capturedAt p of None \<Rightarrow> False | Some d \<Rightarrow> from' \<le> d \<and> d \<le> to')"

definition getRevenueReport :: "date \<Rightarrow> date \<Rightarrow> db \<Rightarrow> revenue_report" where
  "getRevenueReport from' to' s =
     (let payments = find_docs (counts_as_revenue from' to') (sub_payments s);
          subIds = map sp_subscriptionId payments;
          subs = find_docs (\<lambda>x. s_id x \<in> set subIds) (subscriptions s);
          tierBySubId = fold (\<lambda>x m. m(s_id x \<mapsto> s_tier x)) subs Map.empty;
          (totalPaise, pro, proMax) = revenue_loop tierBySubId payments 0 0 0
      in \<lparr>rv_totalPaise = totalPaise, rv_pro = pro, rv_proMax = proMax, rv_count = int (length payments)\<rparr>)"

section \<open>Laws of the handlers\<close>

abbreviation entries_of :: "oid \<Rightarrow> db \<Rightarrow> sub_entry list option" where
  "entries_of userId s \<equiv> map_option u_subscriptions (findOne (\<lambda>u. u_id u = userId) (users s))"

lemma with_entries_other [simp]:
  "sub_payments (with_entries f uid s) = sub_payments s" "subscriptions (with_entries f uid s) = subscriptions s"
  "invoice_queue (with_entries f uid s) = invoice_queue s" "coin_txs (with_entries f uid s) = coin_txs s"
  by (simp_all add: with_entries_def)

lemma entries_of_with_entries:
  "entries_of uid' (with_entries f uid s) = (if uid' = uid then map_option f (entries_of uid s) else entries_of uid' s)"
proof -
  have "findOne (\<lambda>u. u_id u = uid') (update_first (\<lambda>u. u_id u = uid) (\<lambda>u. u\<lparr>u_subscriptions := f (u_subscriptions u)\<rparr>) us) =
      (if uid' = uid then map_option (\<lambda>u. u\<lparr>u_subscriptions := f (u_subscriptions u)\<rparr>) (findOne (\<lambda>u. u_id u = uid') us)
       else findOne (\<lambda>u. u_id u = uid') us)" for us
    unfolding findOne_def by (induction us) auto
  from this [of "users s"] show ?thesis
    by (cases "uid' = uid") (simp_all add: with_entries_def updateOne_def option.map_comp comp_def)
qed

lemma with_entries_balance:
  "map u_id (users (with_entries f uid s)) = map u_id (users s) \<and>
   map u_coinBalance (users (with_entries f uid s)) = map u_coinBalance (users s)"
  by (simp add: with_entries_def updateOne_def map_update_first)

lemma onCharged_cases:
  obtains "onCharged entity pay now pid ok s = s"
  | sub u where "findOne (\<lambda>x. s_razorpaySubscriptionId x = se_id entity) (subscriptions s) = Some sub"
    "findOne (\<lambda>u. u_id u = s_userId sub) (users s) = Some u"
    "findOne (\<lambda>p. sp_razorpayPaymentId p = pe_id pay) (sub_payments s) = None"
    "sub_payments (onCharged entity pay now pid ok s) = sub_payments s @ [payment_row sub pay now pid]"
    "subscriptions (onCharged entity pay now pid ok s) =
       update_first (\<lambda>x. s_id x = s_id sub) (charge_update entity) (subscriptions s)"
    "users (onCharged entity pay now pid ok s) = users (with_entries
       (upsertSubscriptionEntry (s_tier sub) E_ACTIVE (from_unix (se_current_end entity)) (s_id sub)) (s_userId sub) s)"
    "invoice_queue (onCharged entity pay now pid ok s) = (if ok then enqueueInvoice pid (invoice_queue s) else invoice_queue s)"
proof (cases "findOne (\<lambda>x. s_razorpaySubscriptionId x = se_id entity) (subscriptions s)")
  case None
  then show ?thesis by (intro that(1)) (simp add: onCharged_def)
next
  case sub: (Some sub)
  show ?thesis
  proof (cases "findOne (\<lambda>u. u_id u = s_userId sub) (users s)")
    case None
    then show ?thesis using sub by (intro that(1)) (simp add: onCharged_def)
  next
    case u: (Some u)
    then have uid: "u_id u = s_userId sub" by (auto dest: findOne_SomeD)
    show ?thesis
    proof (cases "findOne (\<lambda>p. sp_razorpayPaymentId p = pe_id pay) (sub_payments s)")
      case None
      show ?thesis
        by (rule that(2) [OF sub u None])
          (simp_all add: onCharged_def sub u upsertOnInsert_def None Let_def uid updateOne_def with_entries_def)
    next
      case (Some p)
      then show ?thesis using sub u by (intro that(1)) (simp add: onCharged_def upsertOnInsert_def)
    qed
  qed
qed

section \<open>Properties\<close>

definition sample_charged :: db where
  "sample_charged = empty_db\<lparr>users := [sample_user 1 10 []], subscriptions := [sample_subscription 2 1 PRO S_CANCELLED]\<rparr>"

lemma sample_charged_finds:
  "findOne (\<lambda>x. s_razorpaySubscriptionId x = se_id (sample_sub_entity 2 (Some 100) None)) (subscriptions sample_charged) =
     Some (sample_subscription 2 1 PRO S_CANCELLED)"
  "findOne (\<lambda>u. u_id u = s_userId (sample_subscription 2 1 PRO S_CANCELLED)) (users sample_charged) = Some (sample_user 1 10 [])"
  "findOne (\<lambda>p. sp_razorpayPaymentId p = pe_id (sample_pay_entity 3 5900)) (sub_payments sample_charged) = None"
  "findOne (\<lambda>x. s_id x = s_id (sample_subscription 2 1 PRO S_CANCELLED)) (subscriptions sample_charged) =
     Some (sample_subscription 2 1 PRO S_CANCELLED)"
  "s_status (sample_subscription 2 1 PRO S_CANCELLED) = S_CANCELLED" "s_tier (sample_subscription 2 1 PRO S_CANCELLED) \<noteq> PUBLIC"
  "s_userId (sample_subscription 2 1 PRO S_CANCELLED) = 1" "s_tier (sample_subscription 2 1 PRO S_CANCELLED) = PRO"
  "s_id (sample_subscription 2 1 PRO S_CANCELLED) = 2"
  by code_simp+



text \<open>the first handling of a charge gives the subscriber the paid tier from then on, at every
  time, leaves access to the other tiers as it was, keeps one entry per tier, records exactly
  one payment of the charged amount under the provider's payment id, and puts exactly one
  invoice job in the queue if the queue accepts it.\<close>

theorem onCharged_grants_tier:
  assumes "findOne (\<lambda>x. s_razorpaySubscriptionId x = se_id entity) (subscriptions s) = Some sub"
    and "findOne (\<lambda>u. u_id u = s_userId sub) (users s) = Some u"
    and "findOne (\<lambda>p. sp_razorpayPaymentId p = pe_id pay) (sub_payments s) = None"
    and "s_tier sub \<noteq> PUBLIC" and "entries_ok (u_subscriptions u)"
    and "unique_on payment_key (sub_payments s)"
  shows "let s' = onCharged entity pay now pid ok s in
    (\<exists>subs. entries_of (s_userId sub) s' = Some subs \<and> entries_ok subs \<and>
       (\<forall>t. userCanAccessTier subs (s_tier sub) t) \<and>
       (\<forall>t tier'. tier' \<noteq> s_tier sub \<longrightarrow>
          userCanAccessTier subs tier' t = userCanAccessTier (u_subscriptions u) tier' t)) \<and>
    sub_payments s' = sub_payments s @ [payment_row sub pay now pid] \<and> unique_on payment_key (sub_payments s') \<and>
    invoice_queue s' = (if ok then enqueueInvoice pid (invoice_queue s) else invoice_queue s)"
proof (rule onCharged_cases [of entity pay now pid ok s])
  assume "onCharged entity pay now pid ok s = s"
  moreover have "length (sub_payments (onCharged entity pay now pid ok s)) = Suc (length (sub_payments s))"
    using assms(1-3) by (simp add: onCharged_def upsertOnInsert_def Let_def)
  ultimately show ?thesis by simp
next
  fix sub' u'
  let ?s = "onCharged entity pay now pid ok s"
  let ?f = "upsertSubscriptionEntry (s_tier sub) E_ACTIVE (from_unix (se_current_end entity)) (s_id sub)"
  assume "findOne (\<lambda>x. s_razorpaySubscriptionId x = se_id entity) (subscriptions s) = Some sub'"
    and "users ?s = users (with_entries (upsertSubscriptionEntry (s_tier sub') E_ACTIVE
       (from_unix (se_current_end entity)) (s_id sub')) (s_userId sub') s)"
    and pay: "sub_payments ?s = sub_payments s @ [payment_row sub' pay now pid]"
    and queue: "invoice_queue ?s = (if ok then enqueueInvoice pid (invoice_queue s) else invoice_queue s)"
  then have users: "users ?s = users (with_entries ?f (s_userId sub) s)" and sub: "sub' = sub"
    using assms(1) by simp_all
  have entries: "entries_of (s_userId sub) ?s = Some (?f (u_subscriptions u))"
    using entries_of_with_entries [of "s_userId sub" ?f "s_userId sub" s] assms(2) by (simp add: users)
  have "unique_on payment_key (sub_payments s @ [payment_row sub pay now pid])"
    by (rule payment_index.create_unique [OF assms(6), of "payment_row sub pay now pid"])
      (use assms(3) in \<open>auto simp: create_def payment_clash_def payment_row_def findOne_None_iff list_ex_iff\<close>)
  then show ?thesis
    using entries pay queue assms(4,5) by (auto simp: Let_def sub entries_ok_upsert access_upsert_same access_upsert_other)
qed

theorem onCharged_grants_tier_witness:
  "\<exists>subs. entries_of 1 (onCharged (sample_sub_entity 2 (Some 100) None) (sample_pay_entity 3 5900) 8 4 True sample_charged) = Some subs \<and>
     userCanAccessTier subs PRO 0"
proof -
  have "entries_ok (u_subscriptions (sample_user 1 10 []))" "unique_on payment_key (sub_payments sample_charged)" by code_simp+
  from onCharged_grants_tier [OF sample_charged_finds(1-3,6) this]
  show ?thesis unfolding sample_charged_finds(7,8) Let_def by blast
qed

text \<open>C0: cancellation. With \<open>cancel_at_cycle_end\<close> the subscriber keeps the tier until the entry's
  expiry and not beyond; without it the tier is gone at once. A cancellation that arrives
  for a subscription whose entry has been replaced changes no entry.\<close>

theorem onCancelled_access:
  assumes "findOne (\<lambda>x. s_razorpaySubscriptionId x = se_id entity) (subscriptions s) = Some sub"
    and "entries_of (s_userId sub) s = Some subs" and "entries_ok subs" and "s_tier sub \<noteq> PUBLIC"
  shows "\<exists>subs'. entries_of (s_userId sub) (onCancelled entity now s) = Some subs' \<and>
    (\<forall>e d. e \<in> set subs \<and> en_tier e = s_tier sub \<and> en_subscriptionId e = Some (s_id sub) \<and> en_status e = E_ACTIVE \<and>
        en_expiresAt e = Val d \<longrightarrow>
      (\<forall>t \<ge> now. userCanAccessTier subs' (s_tier sub) t \<longleftrightarrow> at_cycle_end (se_cancel_at_cycle_end entity) \<and> t < d)) \<and>
    ((\<forall>e \<in> set subs. en_subscriptionId e \<noteq> Some (s_id sub)) \<longrightarrow> subs' = subs)"
proof -
  let ?f = "if at_cycle_end (se_cancel_at_cycle_end entity) then markEntryCancelledBySubId (s_id sub)
    else markEntryExpiredImmediatelyBySubId (s_id sub) now"
  have "users (onCancelled entity now s) = users (with_entries ?f (s_userId sub) s)"
    by (simp add: onCancelled_def assms(1) with_entries_def)
  then have subs': "entries_of (s_userId sub) (onCancelled entity now s) = Some (?f subs)"
    using entries_of_with_entries [of "s_userId sub" ?f "s_userId sub" s] assms(2) by simp
  have "userCanAccessTier (?f subs) (s_tier sub) t \<longleftrightarrow> at_cycle_end (se_cancel_at_cycle_end entity) \<and> t < d"
    if e: "e \<in> set subs" "en_tier e = s_tier sub" "en_subscriptionId e = Some (s_id sub)" "en_status e = E_ACTIVE"
      "en_expiresAt e = Val d" and t: "now \<le> t" for e d t
  proof -
    have only: "x = e" if "x \<in> set subs" "en_tier x = s_tier sub" for x
      using assms(3) that e(1,2) distinct_map_eq [of en_tier subs x e] by (simp add: entries_ok_def)
    have acc: "userCanAccessTier (map g subs) (s_tier sub) t \<longleftrightarrow> isActiveForDerivation (g e) t"
      if "\<And>x. en_tier (g x) = en_tier x" for g
    proof -
      have "(\<exists>x \<in> set subs. en_tier x = s_tier sub \<and> isActiveForDerivation (g x) t) \<longleftrightarrow> isActiveForDerivation (g e) t"
        using only e(1,2) by blast
      then show ?thesis using assms(4) that by (simp add: userCanAccessTier_def access_loop_iff)
    qed
    show ?thesis
    proof (cases "at_cycle_end (se_cancel_at_cycle_end entity)")
      case True
      have "userCanAccessTier (markEntryCancelledBySubId (s_id sub) subs) (s_tier sub) t \<longleftrightarrow> t < d"
        unfolding markEntryCancelledBySubId_def using e by (subst acc) (simp_all add: isActiveForDerivation_iff)
      then show ?thesis using True by simp
    next
      case False
      have "\<not> userCanAccessTier (markEntryExpiredImmediatelyBySubId (s_id sub) now subs) (s_tier sub) t"
        using only e(3) by (intro access_expired [OF t _ assms(4)]) auto
      then show ?thesis using False by simp
    qed
  qed
  moreover have "?f subs = subs" if "\<forall>e \<in> set subs. en_subscriptionId e \<noteq> Some (s_id sub)"
    using that by (auto simp: markEntryCancelledBySubId_def markEntryExpiredImmediatelyBySubId_def intro!: map_idI)
  ultimately show ?thesis using subs' by blast
qed

theorem onCancelled_access_witness:
  "\<exists>subs'. entries_of 1 (onCancelled (sample_sub_entity 2 None (Some (NumNote 1))) 10
       (empty_db\<lparr>users := [sample_user 1 0 [sample_entry PRO E_ACTIVE 50 2]], subscriptions := [sample_subscription 2 1 PRO S_ACTIVE]\<rparr>)) = Some subs' \<and>
     userCanAccessTier subs' PRO 40"
proof -
  let ?e = "sample_sub_entity 2 None (Some (NumNote 1))"
  let ?s = "empty_db\<lparr>users := [sample_user 1 0 [sample_entry PRO E_ACTIVE 50 2]], subscriptions := [sample_subscription 2 1 PRO S_ACTIVE]\<rparr>"
  let ?sub = "sample_subscription 2 1 PRO S_ACTIVE"
  have h: "findOne (\<lambda>x. s_razorpaySubscriptionId x = se_id ?e) (subscriptions ?s) = Some ?sub"
    "entries_of (s_userId ?sub) ?s = Some [sample_entry PRO E_ACTIVE 50 2]" "entries_ok [sample_entry PRO E_ACTIVE 50 2]" "s_tier ?sub \<noteq> PUBLIC"
    and v: "s_userId ?sub = 1" "s_tier ?sub = PRO" "s_id ?sub = 2" "at_cycle_end (se_cancel_at_cycle_end ?e)" by code_simp+
  from onCancelled_access [OF h, of 10] obtain subs' where
    s: "entries_of 1 (onCancelled ?e 10 ?s) = Some subs'"
    and acc: "\<forall>e d. e \<in> set [sample_entry PRO E_ACTIVE 50 2] \<and> en_tier e = PRO \<and> en_subscriptionId e = Some 2 \<and> en_status e = E_ACTIVE \<and>
        en_expiresAt e = Val d \<longrightarrow> (\<forall>t \<ge> 10. userCanAccessTier subs' PRO t \<longleftrightarrow> at_cycle_end (se_cancel_at_cycle_end ?e) \<and> t < d)"
    unfolding v(1-3) by blast
  from acc v(4) have "userCanAccessTier subs' PRO 40" by (simp add: sample_entry_def)
  with s show ?thesis by blast
qed

text \<open>a charge event that is delivered after the cancellation of its subscription makes the
  subscription active again and gives the cancelled subscriber the tier back.\<close>

theorem late_charge_reactivates:
  assumes "findOne (\<lambda>x. s_razorpaySubscriptionId x = se_id entity) (subscriptions s) = Some sub"
    and "s_status sub = S_CANCELLED"
    and "findOne (\<lambda>u. u_id u = s_userId sub) (users s) = Some u"
    and "findOne (\<lambda>p. sp_razorpayPaymentId p = pe_id pay) (sub_payments s) = None"
    and "findOne (\<lambda>x. s_id x = s_id sub) (subscriptions s) = Some sub" and "s_tier sub \<noteq> PUBLIC"
  shows "let s' = onCharged entity pay now pid ok s in
    (\<exists>x \<in> set (subscriptions s'). s_id x = s_id sub \<and> s_status x = S_ACTIVE) \<and>
    (\<exists>subs. entries_of (s_userId sub) s' = Some subs \<and> (\<forall>t. userCanAccessTier subs (s_tier sub) t))"
proof -
  let ?f = "upsertSubscriptionEntry (s_tier sub) E_ACTIVE (from_unix (se_current_end entity)) (s_id sub)"
  have uid: "u_id u = s_userId sub" using findOne_SomeD [OF assms(3)] by simp
  have "users (onCharged entity pay now pid ok s) = users (with_entries ?f (s_userId sub) s)"
    "subscriptions (onCharged entity pay now pid ok s) = update_first (\<lambda>x. s_id x = s_id sub) (charge_update entity) (subscriptions s)"
    using assms(1,3,4) by (simp_all add: onCharged_def upsertOnInsert_def Let_def uid updateOne_def with_entries_def)
  moreover have "charge_update entity sub \<in> set (update_first (\<lambda>x. s_id x = s_id sub) (charge_update entity) (subscriptions s))"
    by (rule updated_in_set [OF assms(5)])
  ultimately show ?thesis
    using entries_of_with_entries [of "s_userId sub" ?f "s_userId sub" s] assms(3) access_upsert_same [OF assms(6)]
    by (auto simp: Let_def charge_update_def intro!: bexI [of _ "charge_update entity sub"])
qed

theorem late_charge_reactivates_witness:
  "\<exists>x \<in> set (subscriptions (onCharged (sample_sub_entity 2 (Some 100) None) (sample_pay_entity 3 5900) 8 4 True sample_charged)).
     s_id x = 2 \<and> s_status x = S_ACTIVE"
  using late_charge_reactivates [OF sample_charged_finds(1,5,2,3,4,6), of 8 4 True]
  unfolding sample_charged_finds(9) Let_def by blast

text \<open>the prices of the plans agree with the tax computation of the invoices, so that the amounts
  on a subscription and on the invoice of its payments are the same.\<close>

theorem plan_prices_match_invoices:
  "\<forall>t tot base gst. PLAN_PRICING t = Some (tot, base, gst) \<longrightarrow> deriveBaseAndGst tot = (base, gst)"
proof (intro allI impI)
  fix t tot base gst
  assume "PLAN_PRICING t = Some (tot, base, gst)"
  then show "deriveBaseAndGst tot = (base, gst)"
    by (cases t) (simp_all add: deriveBaseAndGst_small)
qed

text \<open>the invoice list shows only payments whose invoice number and PDF are both there, never a
  half-written one, and only to the owner of the subscription.\<close>

theorem listInvoices_complete_only:
  assumes "listInvoices uid subId s = Inr items"
  shows "(\<exists>sub. findOne (\<lambda>x. s_id x = subId) (subscriptions s) = Some sub \<and> s_userId sub = uid) \<and>
    (\<forall>n url d. (n, url, d) \<in> set items \<longleftrightarrow> n \<noteq> [] \<and> url \<noteq> [] \<and>
       (\<exists>p \<in> set (sub_payments s). sp_subscriptionId p = subId \<and> sp_invoiceNumber p = Some n \<and>
          sp_invoicePdfUrl p = Some url \<and> sp_createdAt p = d))"
proof -
  obtain sub where sub: "findOne (\<lambda>x. s_id x = subId) (subscriptions s) = Some sub" "s_userId sub = uid"
    using assms by (auto simp: listInvoices_def split: option.splits if_splits)
  have truthy: "truthy_str x \<longleftrightarrow> (\<exists>y. x = Some y \<and> y \<noteq> [])" for x by (cases x) auto
  have items: "set items = (\<lambda>p. (the (sp_invoiceNumber p), the (sp_invoicePdfUrl p), sp_createdAt p)) `
      {p \<in> set (sub_payments s). sp_subscriptionId p = subId \<and> truthy_str (sp_invoiceNumber p) \<and> truthy_str (sp_invoicePdfUrl p)}"
    using assms sub by (auto simp: listInvoices_def find_docs_def)
  show ?thesis using sub unfolding items by (force simp: truthy)
qed

end
