(* ===== verification/Refunds.thy ===== *)
theory Refunds
  imports Subscriptions
begin

text \<open>
  Refunds of subscription payments (src/modules/refunds/refunds.service.ts): the request to
  the provider, which writes nothing locally, and the handler of \<open>refund.processed\<close>. What
  the provider answers to the two calls is a parameter.
\<close>

section \<open>Operations\<close>

record refund_input =
  ri_paymentId :: oid
  ri_amountPaise :: "paise option"
  ri_cancelSubscription :: "bool option"

text \<open>
  \<open>refundId\<close> is what \<open>payments.refund\<close> returned, \<open>None\<close> when it threw; \<open>cancelOk\<close> is whether
  \<open>subscriptions.cancel\<close> succeeded.
\<close>

definition initiateRefund :: "refund_input \<Rightarrow> string option \<Rightarrow> bool \<Rightarrow> db \<Rightarrow> (app_error + string) \<times> db" where
  "initiateRefund inp refundId cancelOk s =
     (case findOne (\<lambda>p. sp_id p = ri_paymentId inp) (sub_payments s) of
        None \<Rightarrow> (Inl NotFoundError, s)
      | Some payment \<Rightarrow>
          let s1 = s\<lparr>rzp_calls := rzp_calls s @ [RzpRefund (sp_razorpayPaymentId payment) (ri_amountPaise inp)]\<rparr>
          in case refundId of
               None \<Rightarrow> (Inl (InternalError ''INTERNAL''), s1)
             | Some rid \<Rightarrow>
                 if or_default (ri_cancelSubscription inp) True then
                   (case findOne (\<lambda>x. s_id x = sp_subscriptionId payment) (subscriptions s1) of
                      None \<Rightarrow> (Inr rid, s1)
                    | Some sub \<Rightarrow>
                        let s2 = s1\<lparr>rzp_calls := rzp_calls s1 @ [RzpCancelSubscription (s_razorpaySubscriptionId sub) False]\<rparr>
                        in if cancelOk then (Inr rid, s2) else (Inl (InternalError ''INTERNAL''), s2))
                 else (Inr rid, s1))"

definition refundable :: "sub_payment \<Rightarrow> bool" where
  "refundable p \<longleftrightarrow> sp_status p = Some SP_CAPTURED \<or> sp_status p = Some SP_PARTIAL_REFUND"

definition onRefundProcessed :: "refund_entity \<Rightarrow> date \<Rightarrow> db \<Rightarrow> db" where
  "onRefundProcessed entity now s =
     (case findOne (\<lambda>p. sp_razorpayPaymentId p = re_payment_id entity) (sub_payments s) of
        None \<Rightarrow> s
      | Some payment \<Rightarrow>
          let isFull = (re_amount entity \<ge> or_default (sp_amount payment) 0);
              nextStatus = (if isFull then SP_REFUNDED else SP_PARTIAL_REFUND)
          in s\<lparr>sub_payments := snd (updateOne (\<lambda>p. sp_id p = sp_id payment \<and> refundable p)
                 (\<lambda>p. p\<lparr>sp_status := Some nextStatus, sp_refundedAt := Some now,
                        sp_refundAmount := Some (re_amount entity)\<rparr>) (sub_payments s))\<rparr>)"

section \<open>Properties\<close>

definition payments_ok :: "db \<Rightarrow> bool" where
  "payments_ok s \<longleftrightarrow> distinct (map sp_id (sub_payments s)) \<and> unique_on payment_key (sub_payments s)"

definition refunded :: "refund_entity \<Rightarrow> date \<Rightarrow> sub_payment \<Rightarrow> sub_payment" where
  "refunded entity now p =
     (if sp_razorpayPaymentId p = re_payment_id entity \<and> refundable p
      then p\<lparr>sp_status := Some (if re_amount entity \<ge> or_default (sp_amount p) 0 then SP_REFUNDED else SP_PARTIAL_REFUND),
             sp_refundedAt := Some now, sp_refundAmount := Some (re_amount entity)\<rparr>
      else p)"

lemma payments_same_key:
  assumes "payments_ok s" and "p \<in> set (sub_payments s)" and "q \<in> set (sub_payments s)"
  shows "sp_id p = sp_id q \<longleftrightarrow> sp_razorpayPaymentId p = sp_razorpayPaymentId q"
proof
  assume "sp_id p = sp_id q"
  then show "sp_razorpayPaymentId p = sp_razorpayPaymentId q"
    using assms distinct_map_eq [of sp_id "sub_payments s" p q] by (simp add: payments_ok_def)
next
  assume "sp_razorpayPaymentId p = sp_razorpayPaymentId q"
  then show "sp_id p = sp_id q"
    using assms unique_onD [of payment_key "sub_payments s" p q] by (simp add: payments_ok_def payment_key_def)
qed

lemma onRefundProcessed_map:
  assumes "payments_ok s"
  shows "onRefundProcessed entity now s = s\<lparr>sub_payments := map (refunded entity now) (sub_payments s)\<rparr>"
proof (cases "findOne (\<lambda>p. sp_razorpayPaymentId p = re_payment_id entity) (sub_payments s)")
  case None
  then have "map (refunded entity now) (sub_payments s) = sub_payments s"
    by (intro map_idI) (auto simp: refunded_def findOne_None_iff)
  then show ?thesis by (simp add: onRefundProcessed_def None)
next
  case (Some q)
  then have q: "q \<in> set (sub_payments s)" "sp_razorpayPaymentId q = re_payment_id entity" by (auto dest: findOne_SomeD)
  have d: "distinct (map sp_id (sub_payments s))" using assms by (simp add: payments_ok_def)
  have "map (\<lambda>p. if sp_id p = sp_id q \<and> refundable p
        then p\<lparr>sp_status := Some (if re_amount entity \<ge> or_default (sp_amount q) 0 then SP_REFUNDED else SP_PARTIAL_REFUND),
               sp_refundedAt := Some now, sp_refundAmount := Some (re_amount entity)\<rparr> else p) (sub_payments s) =
      map (refunded entity now) (sub_payments s)"
  proof (rule map_cong [OF refl])
    fix p assume p: "p \<in> set (sub_payments s)"
    have "sp_id p = sp_id q \<longleftrightarrow> sp_razorpayPaymentId p = re_payment_id entity"
      using payments_same_key [OF assms p q(1)] q(2) by simp
    moreover have "sp_id p = sp_id q \<Longrightarrow> p = q" using distinct_map_eq [OF d p q(1)] .
    ultimately show "(if sp_id p = sp_id q \<and> refundable p
        then p\<lparr>sp_status := Some (if re_amount entity \<ge> or_default (sp_amount q) 0 then SP_REFUNDED else SP_PARTIAL_REFUND),
               sp_refundedAt := Some now, sp_refundAmount := Some (re_amount entity)\<rparr> else p) = refunded entity now p"
      by (auto simp: refunded_def)
  qed
  then show ?thesis
    using update_first_keyed [OF d]
    by (simp add: onRefundProcessed_def Some Let_def updateOne_def)
qed

lemma payments_ok_refunded: "payments_ok s \<Longrightarrow> payments_ok (onRefundProcessed e now s)"
proof -
  assume ok: "payments_ok s"
  have "keys_of payment_key (map (refunded e now) ps) = keys_of payment_key ps" for ps
    by (rule keys_of_map) (simp add: refunded_def payment_key_def)
  moreover have "map sp_id (map (refunded e now) ps) = map sp_id ps" for ps
    by (simp add: comp_def refunded_def)
  ultimately show ?thesis using ok by (simp add: onRefundProcessed_map payments_ok_def unique_on_def del: map_map)
qed

definition sample_refunds :: db where
  "sample_refunds = empty_db\<lparr>sub_payments := [sample_payment 3 2 1 5900]\<rparr>"

lemma sample_refunds_facts:
  "payments_ok sample_refunds" "sample_payment 3 2 1 5900 \<in> set (sub_payments sample_refunds)" "refundable (sample_payment 3 2 1 5900)"
  "sp_amount (sample_payment 3 2 1 5900) = Some 5900" "counts_as_revenue 0 10 (sample_payment 3 2 1 5900)"
  "re_payment_id (sample_refund 3 5900) = sp_razorpayPaymentId (sample_payment 3 2 1 5900)"
  "re_payment_id (sample_refund 3 900) = sp_razorpayPaymentId (sample_payment 3 2 1 5900)"
  "re_payment_id (sample_refund 3 5000) = sp_razorpayPaymentId (sample_payment 3 2 1 5900)"
  by code_simp+

text \<open>a full refund is final: once a refund of at least the paid amount has been processed the
  payment is REFUNDED, and every further refund event for it, of whatever amount, changes
  nothing.\<close>

theorem full_refund_final:
  assumes "payments_ok s" and "p \<in> set (sub_payments s)" and "refundable p"
    and "re_payment_id entity = sp_razorpayPaymentId p" and "or_default (sp_amount p) 0 \<le> re_amount entity"
    and "re_payment_id entity' = sp_razorpayPaymentId p"
  shows "refunded entity now p \<in> set (sub_payments (onRefundProcessed entity now s)) \<and>
    sp_status (refunded entity now p) = Some SP_REFUNDED \<and>
    onRefundProcessed entity' now' (onRefundProcessed entity now s) = onRefundProcessed entity now s"
proof -
  let ?s = "onRefundProcessed entity now s"
  have ok: "payments_ok ?s" using assms(1) by (rule payments_ok_refunded)
  have "refunded entity' now' (refunded entity now q) = refunded entity now q" if q: "q \<in> set (sub_payments s)" for q
  proof (cases "sp_razorpayPaymentId q = sp_razorpayPaymentId p")
    case True
    then have "q = p" using payments_same_key [OF assms(1) q assms(2)] q assms(1,2)
        distinct_map_eq [of sp_id "sub_payments s" q p] by (simp add: payments_ok_def)
    then show ?thesis using assms by (simp add: refunded_def refundable_def)
  next
    case False
    then show ?thesis using assms(4,6) by (simp add: refunded_def)
  qed
  then have "map (refunded entity' now') (map (refunded entity now) (sub_payments s)) = map (refunded entity now) (sub_payments s)"
    by simp
  then have "onRefundProcessed entity' now' ?s = ?s"
    using onRefundProcessed_map [OF ok] by (simp add: onRefundProcessed_map [OF assms(1)])
  moreover have "refunded entity now p \<in> set (sub_payments ?s)"
    unfolding onRefundProcessed_map [OF assms(1)] using assms(2) by simp
  moreover have "sp_status (refunded entity now p) = Some SP_REFUNDED"
    using assms(3-5) by (simp add: refunded_def)
  ultimately show ?thesis by blast
qed

theorem full_refund_final_witness:
  "onRefundProcessed (sample_refund 3 900) 30 (onRefundProcessed (sample_refund 3 5900) 20 sample_refunds) =
   onRefundProcessed (sample_refund 3 5900) 20 sample_refunds"
proof -
  have "or_default (sp_amount (sample_payment 3 2 1 5900)) 0 \<le> re_amount (sample_refund 3 5900)" by code_simp
  from full_refund_final [OF sample_refunds_facts(1-3,6) this sample_refunds_facts(7)] show ?thesis by blast
qed

text \<open>partial refunds are not added up. Two partial refunds of one payment that together return
  the whole amount leave the payment at PARTIAL_REFUND with only the last amount recorded.\<close>

theorem partial_refunds_not_accumulated:
  assumes "payments_ok s" and "p \<in> set (sub_payments s)" and "refundable p"
    and "sp_amount p = Some (a + b)" and "0 < a" and "0 < b"
    and "re_payment_id e1 = sp_razorpayPaymentId p" and "re_payment_id e2 = sp_razorpayPaymentId p"
    and "re_amount e1 = a" and "re_amount e2 = b"
  shows "\<exists>p' \<in> set (sub_payments (onRefundProcessed e2 t2 (onRefundProcessed e1 t1 s))).
    sp_id p' = sp_id p \<and> sp_status p' = Some SP_PARTIAL_REFUND \<and> sp_refundAmount p' = Some b"
proof -
  have "sub_payments (onRefundProcessed e2 t2 (onRefundProcessed e1 t1 s)) =
      map (refunded e2 t2) (map (refunded e1 t1) (sub_payments s))"
    using onRefundProcessed_map [OF payments_ok_refunded [OF assms(1)]] onRefundProcessed_map [OF assms(1)] by simp
  then have "refunded e2 t2 (refunded e1 t1 p) \<in> set (sub_payments (onRefundProcessed e2 t2 (onRefundProcessed e1 t1 s)))"
    using assms(2) by simp
  then show ?thesis using assms by (intro bexI) (auto simp: refunded_def refundable_def)
qed

theorem partial_refunds_not_accumulated_witness:
  "\<exists>p' \<in> set (sub_payments (onRefundProcessed (sample_refund 3 5000) 30 (onRefundProcessed (sample_refund 3 900) 20 sample_refunds))).
     sp_status p' = Some SP_PARTIAL_REFUND \<and> sp_refundAmount p' = Some 5000"
  using partial_refunds_not_accumulated [OF sample_refunds_facts(1-3), of 900 5000 "sample_refund 3 900" "sample_refund 3 5000" 30 20]
    sample_refunds_facts(4,7,8) by (auto simp: sample_refund_def)

text \<open>a request whose refund the provider rejects, as it does for a payment refunded before,
  stops before the subscription is cancelled: repeating the request is not a way to retry
  the cancellation.\<close>

theorem refund_retry_never_cancels:
  assumes "findOne (\<lambda>p. sp_id p = ri_paymentId inp) (sub_payments s) = Some p"
  shows "\<exists>s'. initiateRefund inp None cancelOk s = (Inl (InternalError ''INTERNAL''), s') \<and>
    rzp_calls s' = rzp_calls s @ [RzpRefund (sp_razorpayPaymentId p) (ri_amountPaise inp)] \<and>
    subscriptions s' = subscriptions s \<and> sub_payments s' = sub_payments s"
  using assms by (simp add: initiateRefund_def Let_def)

section \<open>The revenue report\<close>

lemma revenue_loop_total: "fst (revenue_loop m ps t a b) = t + sum_list (map (\<lambda>p. or_default (sp_amount p) 0) ps)"
  by (induction ps arbitrary: t a b) (simp_all add: Let_def)

lemma revenue_total:
  "rv_totalPaise (getRevenueReport a b s) =
     sum_list (map (\<lambda>p. or_default (sp_amount p) 0) (filter (counts_as_revenue a b) (sub_payments s)))"
  by (simp add: getRevenueReport_def Let_def find_docs_def case_prod_unfold revenue_loop_total)

text \<open>the revenue report, documented as gross of refunds, loses the whole amount of a payment as
  soon as the payment is refunded in full.\<close>

theorem revenue_drops_full_refund:
  assumes "payments_ok s" and "p \<in> set (sub_payments s)" and "counts_as_revenue a b p"
    and "re_payment_id entity = sp_razorpayPaymentId p" and "sp_amount p = Some amt" and "amt \<le> re_amount entity"
  shows "rv_totalPaise (getRevenueReport a b (onRefundProcessed entity now s)) =
    rv_totalPaise (getRevenueReport a b s) - amt"
proof -
  let ?f = "refunded entity now"
  let ?v = "\<lambda>p. or_default (sp_amount p) 0"
  obtain ys zs where sp: "sub_payments s = ys @ p # zs" using split_list [OF assms(2)] by blast
  have other: "?f q = q" if "q \<in> set ys \<union> set zs" for q
  proof -
    have "sp_id p \<notin> sp_id ` (set ys \<union> set zs)" using assms(1) by (simp add: payments_ok_def sp image_Un)
    then have "sp_id q \<noteq> sp_id p" using that by (metis image_eqI)
    then have "sp_razorpayPaymentId q \<noteq> sp_razorpayPaymentId p"
      using payments_same_key [OF assms(1), of q p] that by (auto simp: sp)
    then show ?thesis using assms(4) by (simp add: refunded_def)
  qed
  then have "map ?f ys = ys" "map ?f zs = zs" by (simp_all add: map_idI)
  moreover have "\<not> counts_as_revenue a b (?f p)"
    using assms(3-6) by (simp add: refunded_def refundable_def counts_as_revenue_def)
  ultimately show ?thesis
    using assms(3,5) by (simp add: revenue_total onRefundProcessed_map [OF assms(1)] sp)
qed

theorem revenue_drops_full_refund_witness:
  "rv_totalPaise (getRevenueReport 0 10 (onRefundProcessed (sample_refund 3 5900) 20 sample_refunds)) = 0"
proof -
  have "5900 \<le> re_amount (sample_refund 3 5900)" "rv_totalPaise (getRevenueReport 0 10 sample_refunds) = 5900" by code_simp+
  then show ?thesis using revenue_drops_full_refund [OF sample_refunds_facts(1,2,5,6,4)] by simp
qed

end
