(* ===== verification/Webhooks.thy ===== *)
theory Webhooks
  imports Donations Refunds Samples
begin

text \<open>
  Webhook intake (src/modules/webhooks/webhooks.service.ts), the retry queue
  (src/shared/jobs/enqueue.ts) and the retry worker (src/workers/webhook-retry.worker.ts).
  A row of \<open>webhook_events\<close> is the lock of its event: the delivery that inserts it, or
  that moves it from FAILED or RECEIVED to PROCESSING, owns the dispatch and finalises it as
  DONE or FAILED. The signature check of the payment provider's package, the parsing of the
  body and what the database throws are parameters.
\<close>

section \<open>Dispatch\<close>

text \<open>The services a \<open>WebhookService\<close> was given: the web process wires all three
  (src/app.ts), the worker process builds its handler without any (src/worker.ts).\<close>

record wiring =
  wired_donation :: bool
  wired_subscription :: bool
  wired_refund :: bool

definition app_wiring :: wiring where
  "app_wiring = \<lparr>wired_donation = True, wired_subscription = True, wired_refund = True\<rparr>"

definition worker_wiring :: wiring where
  "worker_wiring = \<lparr>wired_donation = False, wired_subscription = False, wired_refund = False\<rparr>"

text \<open>
  The outside world of one delivery: the clock, the id a new payment row gets, whether the
  invoice queue and the retry queue accept a job, and the message of the exception a handler
  throws, if it throws. A handler writes in one transaction or one update, so an exception
  leaves the collections as they were.
\<close>

record delivery =
  dl_now :: date
  dl_newId :: oid
  dl_invoiceOk :: bool
  dl_retryOk :: bool
  dl_fault :: "string option"

fun payload_payment :: "rzp_payload \<Rightarrow> pay_entity option" where
  "payload_payment (CapturedPayload p) = Some p"
| "payload_payment (ChargedPayload e p) = Some p"
| "payload_payment _ = None"

fun payload_subscription :: "rzp_payload \<Rightarrow> sub_entity option" where
  "payload_subscription (SubPayload e) = Some e"
| "payload_subscription (ChargedPayload e p) = Some e"
| "payload_subscription _ = None"

fun payload_charged :: "rzp_payload \<Rightarrow> (sub_entity \<times> pay_entity) option" where
  "payload_charged (ChargedPayload e p) = Some (e, p)"
| "payload_charged _ = None"

fun payload_refund :: "rzp_payload \<Rightarrow> refund_entity option" where
  "payload_refund (RefundPayload r) = Some r"
| "payload_refund _ = None"

text \<open>Call a handler with the entity it reads from the payload; reading an entity that is not
  there is a TypeError.\<close>

definition run_handler :: "delivery \<Rightarrow> 'e option \<Rightarrow> ('e \<Rightarrow> db \<Rightarrow> db) \<Rightarrow> db \<Rightarrow> (string + unit) \<times> db" where
  "run_handler dl entity handler s =
     (case dl_fault dl of
        Some msg \<Rightarrow> (Inl msg, s)
      | None \<Rightarrow> (case entity of None \<Rightarrow> (Inl ''TypeError'', s) | Some e \<Rightarrow> (Inr (), handler e s)))"

definition requireSubs :: "wiring \<Rightarrow> delivery \<Rightarrow> 'e option \<Rightarrow> ('e \<Rightarrow> db \<Rightarrow> db) \<Rightarrow> db \<Rightarrow> (string + unit) \<times> db" where
  "requireSubs wr dl entity handler s =
     (if \<not> wired_subscription wr then (Inl ''NOT_IMPLEMENTED: subscriptionService not wired'', s)
      else run_handler dl entity handler s)"

definition defaultDispatcher :: "wiring \<Rightarrow> delivery \<Rightarrow> string \<Rightarrow> rzp_payload \<Rightarrow> db \<Rightarrow> (string + unit) \<times> db" where
  "defaultDispatcher wr dl eventType payload s =
     (if eventType = ''payment.captured'' \<or> eventType = ''order.paid'' then
        if \<not> wired_donation wr then (Inl ''NOT_IMPLEMENTED: donationService not wired'', s)
        else run_handler dl (payload_payment payload) (\<lambda>e. onCaptured e (dl_now dl)) s
      else if eventType = ''subscription.authenticated'' then requireSubs wr dl (payload_subscription payload) onAuthenticated s
      else if eventType = ''subscription.activated'' then requireSubs wr dl (payload_subscription payload) onActivated s
      else if eventType = ''subscription.charged'' then
        requireSubs wr dl (payload_charged payload)
          (\<lambda>(e, pay). onCharged e pay (dl_now dl) (dl_newId dl) (dl_invoiceOk dl)) s
      else if eventType = ''subscription.completed'' then requireSubs wr dl (payload_subscription payload) onCompleted s
      else if eventType = ''subscription.cancelled'' then requireSubs wr dl (payload_subscription payload) (\<lambda>e. onCancelled e (dl_now dl)) s
      else if eventType = ''subscription.halted'' then requireSubs wr dl (payload_subscription payload) (\<lambda>e. onHalted e (dl_now dl)) s
      else if eventType = ''subscription.paused'' then requireSubs wr dl (payload_subscription payload) onPaused s
      else if eventType = ''subscription.resumed'' then requireSubs wr dl (payload_subscription payload) onResumed s
      else if eventType = ''subscription.pending'' then requireSubs wr dl (payload_subscription payload) onPending s
      else if eventType = ''refund.processed'' then
        if \<not> wired_refund wr then (Inl ''NOT_IMPLEMENTED: refundService not wired'', s)
        else run_handler dl (payload_refund payload) (\<lambda>e. onRefundProcessed e (dl_now dl)) s
      else (Inr (), s))"

definition HANDLED_EVENTS :: "string list" where
  "HANDLED_EVENTS = [''payment.captured'', ''order.paid'', ''subscription.authenticated'', ''subscription.activated'',
     ''subscription.charged'', ''subscription.completed'', ''subscription.cancelled'', ''subscription.halted'',
     ''subscription.paused'', ''subscription.resumed'', ''subscription.pending'', ''refund.processed'']"

section \<open>Intake\<close>

datatype webhook_message = M_ok | M_duplicate | M_concurrent | M_missing_headers | M_invalid_signature
  | M_invalid_payload | M_retry

type_synonym webhook_answer = "int \<times> webhook_message"

text \<open>The queue keeps one job per id, here the pair of event and attempt.\<close>

definition enqueueWebhookRetry :: "string \<Rightarrow> int \<Rightarrow> (string \<times> int) list \<Rightarrow> (string \<times> int) list" where
  "enqueueWebhookRetry eventId attempt q =
     (if (eventId, attempt) \<in> set q then q else q @ [(eventId, attempt)])"

text \<open>Atomic insert-or-inspect: \<open>None\<close> is the insert winner, \<open>Some prev\<close> the row that was
  there.\<close>

definition receive_event :: "string \<Rightarrow> rzp_event \<Rightarrow> date \<Rightarrow> db \<Rightarrow> webhook_event option \<times> db" where
  "receive_event eventId event now s =
     (let seed = \<lparr>we_eventId = eventId, we_eventType = Some (ev_event event), we_payload = Some event,
            we_status = WE_PROCESSING, we_attempts = 0, we_lastError = None, we_receivedAt = Some now,
            we_processedAt = None\<rparr>;
          (prev, events) = upsertOnInsert (\<lambda>e. we_eventId e = eventId) seed (webhook_events s)
      in (prev, s\<lparr>webhook_events := events\<rparr>))"

definition reclaimable :: "string \<Rightarrow> webhook_event \<Rightarrow> bool" where
  "reclaimable eventId e \<longleftrightarrow> we_eventId e = eventId \<and> (we_status e = WE_FAILED \<or> we_status e = WE_RECEIVED)"

definition reclaim_event :: "string \<Rightarrow> db \<Rightarrow> bool \<times> db" where
  "reclaim_event eventId s =
     (case findOneAndUpdate (reclaimable eventId)
             (\<lambda>e. e\<lparr>we_status := WE_PROCESSING, we_attempts := we_attempts e + 1\<rparr>) (webhook_events s) of
        (None, _) \<Rightarrow> (False, s)
      | (Some _, events) \<Rightarrow> (True, s\<lparr>webhook_events := events\<rparr>))"

definition finalise_done :: "string \<Rightarrow> date \<Rightarrow> db \<Rightarrow> db" where
  "finalise_done eventId now s =
     s\<lparr>webhook_events := snd (updateOne (\<lambda>e. we_eventId e = eventId)
         (\<lambda>e. e\<lparr>we_status := WE_DONE, we_processedAt := Some now\<rparr>) (webhook_events s))\<rparr>"

definition finalise_failed :: "string \<Rightarrow> string \<Rightarrow> bool \<Rightarrow> db \<Rightarrow> db" where
  "finalise_failed eventId message retryOk s =
     (case findOneAndUpdate (\<lambda>e. we_eventId e = eventId)
             (\<lambda>e. e\<lparr>we_attempts := we_attempts e + 1, we_status := WE_FAILED, we_lastError := Some message\<rparr>)
             (webhook_events s) of
        (updated, events) \<Rightarrow>
          let attempt = (case updated of None \<Rightarrow> 1 | Some u \<Rightarrow> we_attempts u)
          in s\<lparr>webhook_events := events,
               retry_queue := (if retryOk then enqueueWebhookRetry eventId attempt (retry_queue s) else retry_queue s)\<rparr>)"

definition dispatchAndFinalise :: "wiring \<Rightarrow> delivery \<Rightarrow> string \<Rightarrow> rzp_event \<Rightarrow> db \<Rightarrow> webhook_answer \<times> db" where
  "dispatchAndFinalise wr dl eventId event s =
     (case defaultDispatcher wr dl (ev_event event) (ev_payload event) s of
        (Inr _, s1) \<Rightarrow> ((200, M_ok), finalise_done eventId (dl_now dl) s1)
      | (Inl message, s1) \<Rightarrow> ((500, M_retry), finalise_failed eventId message (dl_retryOk dl) s1))"

definition handleRazorpayWebhook ::
  "(string \<Rightarrow> string \<Rightarrow> bool) \<Rightarrow> (string \<Rightarrow> rzp_event option) \<Rightarrow> wiring \<Rightarrow> delivery
   \<Rightarrow> string \<Rightarrow> string option \<Rightarrow> string option \<Rightarrow> db \<Rightarrow> webhook_answer \<times> db" where
  "handleRazorpayWebhook sigOk parse wr dl raw signature eventId s =
     (if \<not> truthy_str signature \<or> \<not> truthy_str eventId then ((400, M_missing_headers), s)
      else if \<not> sigOk raw (the signature) then ((400, M_invalid_signature), s)
      else (case parse raw of
          None \<Rightarrow> ((400, M_invalid_payload), s)
        | Some event \<Rightarrow>
            (case receive_event (the eventId) event (dl_now dl) s of
               (None, s1) \<Rightarrow> dispatchAndFinalise wr dl (the eventId) event s1
             | (Some prev, s1) \<Rightarrow>
                 if we_status prev = WE_DONE then ((200, M_duplicate), s1)
                 else if we_status prev = WE_PROCESSING then ((200, M_concurrent), s1)
                 else (case reclaim_event (the eventId) s1 of
                     (False, s2) \<Rightarrow> ((200, M_concurrent), s2)
                   | (True, s2) \<Rightarrow> dispatchAndFinalise wr dl (the eventId) event s2))))"

section \<open>The retry worker\<close>

definition RAZORPAY_BACKOFF_MS :: "int list" where
  "RAZORPAY_BACKOFF_MS = [5000, 30000, 5 * 60000, 30 * 60000, 2 * 60 * 60000, 6 * 60 * 60000, 24 * 60 * 60000]"

definition razorpayCadenceBackoff :: "int \<Rightarrow> int" where
  "razorpayCadenceBackoff attemptsMade =
     (let idx = min (max (attemptsMade - 1) 0) (int (length RAZORPAY_BACKOFF_MS) - 1)
      in RAZORPAY_BACKOFF_MS ! nat idx)"

text \<open>
  The worker serialises the stored event and signs it anew; \<open>stringify\<close> and \<open>sign\<close> are
  JSON and HMAC. A job that throws is \<open>Inl\<close>.
\<close>

definition webhookRetryHandler ::
  "(string \<Rightarrow> string \<Rightarrow> bool) \<Rightarrow> (string \<Rightarrow> rzp_event option) \<Rightarrow> (rzp_event option \<Rightarrow> string) \<Rightarrow> (string \<Rightarrow> string)
   \<Rightarrow> wiring \<Rightarrow> delivery \<Rightarrow> string \<Rightarrow> db \<Rightarrow> (string + unit) \<times> db" where
  "webhookRetryHandler sigOk parse stringify sign wr dl eventId s =
     (case findOne (\<lambda>e. we_eventId e = eventId) (webhook_events s) of
        None \<Rightarrow> (Inl ''event not found'', s)
      | Some row \<Rightarrow>
          if we_status row = WE_DONE then (Inr (), s)
          else let raw = stringify (we_payload row);
                   ((httpCode, message), s') = handleRazorpayWebhook sigOk parse wr dl raw (Some (sign raw)) (Some eventId) s
               in if httpCode \<noteq> 200 then (Inl ''retry failed'', s') else (Inr (), s'))"

section \<open>The lock\<close>

text \<open>
  What intake promises about the status of events, whatever collection the rows are in: a
  first delivery claims an event that has no row, a later one an event that failed, the owner
  finishes an event that is being processed, and each touches its own event only.
\<close>

locale event_lock =
  fixes wf :: "'s \<Rightarrow> bool"
    and status_of :: "'s \<Rightarrow> string \<Rightarrow> event_status option"
    and claim_new :: "string \<Rightarrow> 's \<Rightarrow> 's \<Rightarrow> bool"
    and claim_again :: "string \<Rightarrow> 's \<Rightarrow> 's \<Rightarrow> bool"
    and finish :: "string \<Rightarrow> 's \<Rightarrow> 's \<Rightarrow> bool"
  assumes new: "wf s \<Longrightarrow> claim_new eid s s' \<Longrightarrow>
      wf s' \<and> status_of s eid = None \<and> status_of s' = (status_of s)(eid \<mapsto> WE_PROCESSING)"
    and again: "wf s \<Longrightarrow> claim_again eid s s' \<Longrightarrow>
      wf s' \<and> status_of s eid \<in> {Some WE_FAILED, Some WE_RECEIVED} \<and> status_of s' = (status_of s)(eid \<mapsto> WE_PROCESSING)"
    and finish: "wf s \<Longrightarrow> finish eid s s' \<Longrightarrow> status_of s eid = Some WE_PROCESSING \<Longrightarrow>
      wf s' \<and> (\<exists>st \<in> {WE_DONE, WE_FAILED}. status_of s' = (status_of s)(eid \<mapsto> st))"
begin

definition owned :: "'s \<Rightarrow> string list \<Rightarrow> bool" where
  "owned s flight \<longleftrightarrow> wf s \<and> distinct flight \<and> (\<forall>eid \<in> set flight. status_of s eid = Some WE_PROCESSING)"

lemma owned_new: "owned s flight \<Longrightarrow> claim_new eid s s' \<Longrightarrow> owned s' (eid # flight)"
  using new [of s eid s'] by (auto simp: owned_def)

lemma owned_again: "owned s flight \<Longrightarrow> claim_again eid s s' \<Longrightarrow> owned s' (eid # flight)"
  using again [of s eid s'] by (auto simp: owned_def)

lemma owned_finish:
  assumes "owned s flight" and "eid \<in> set flight" and "finish eid s s'"
  shows "owned s' (remove1 eid flight)"
proof -
  have "status_of s eid = Some WE_PROCESSING" "wf s" using assms(1,2) by (auto simp: owned_def)
  from finish [OF this(2) assms(3) this(1)] show ?thesis using assms(1) by (auto simp: owned_def split: if_splits)
qed

lemma owned_drop: "owned s flight \<Longrightarrow> owned s (remove1 eid flight)"
  by (auto simp: owned_def dest: notin_set_remove1)

lemma done_not_in_flight: "owned s flight \<Longrightarrow> status_of s eid = Some WE_DONE \<Longrightarrow> eid \<notin> set flight"
  by (auto simp: owned_def)

lemma done_kept:
  assumes "owned s flight" and "status_of s x = Some WE_DONE"
    and "claim_new eid s s' \<or> claim_again eid s s' \<or> (eid \<in> set flight \<and> finish eid s s')"
  shows "status_of s' x = Some WE_DONE"
proof -
  have "wf s" using assms(1) by (simp add: owned_def)
  with assms show ?thesis
    using new [of s eid s'] again [of s eid s'] finish [of s eid s'] by (auto simp: owned_def)
qed

end

definition event_status_of :: "db \<Rightarrow> string \<Rightarrow> event_status option" where
  "event_status_of s eid = map_option we_status (findOne (\<lambda>e. we_eventId e = eid) (webhook_events s))"

lemma status_update_first:
  assumes "\<And>e. we_eventId (f e) = we_eventId e" and "findOne p xs = Some e" and "\<And>y. p y \<Longrightarrow> we_eventId y = eid"
    and "unique_on event_key xs"
  shows "(\<lambda>x. map_option we_status (findOne (\<lambda>e. we_eventId e = x) (update_first p f xs))) =
    (\<lambda>x. map_option we_status (findOne (\<lambda>e. we_eventId e = x) xs))(eid \<mapsto> we_status (f e)) \<and>
    findOne (\<lambda>e. we_eventId e = eid) xs = Some e"
proof -
  obtain ys zs where sp: "xs = ys @ e # zs" "update_first p f xs = ys @ f e # zs"
    by (rule update_first_split [OF assms(2), of f])
  have e: "we_eventId e = eid" using assms(2,3) findOne_SomeD by metis
  have "eid \<notin> we_eventId ` set ys" using assms(4) e by (auto simp: sp(1) unique_on_def event_key_def set_keys_of)
  then have "findOne (\<lambda>e. we_eventId e = eid) ys = None" by (auto simp: findOne_None_iff)
  then show ?thesis using e assms(1) unfolding sp(2) unfolding sp(1)
    by (auto simp: fun_eq_iff findOne_def find_append split: option.splits)
qed

lemma handlers_keep_events:
  "webhook_events (applySubStatus i st s) = webhook_events s" "webhook_events (onCaptured p n s) = webhook_events s"
  "webhook_events (with_entries f u s) = webhook_events s" "webhook_events (onCharged e p n j ok s) = webhook_events s"
  "webhook_events (onHalted e n s) = webhook_events s" "webhook_events (onCancelled e n s) = webhook_events s"
  "webhook_events (onRefundProcessed r n s) = webhook_events s"
  by (simp_all add: applySubStatus_def onCaptured_def with_entries_def onCharged_def onHalted_def onCancelled_def
      onRefundProcessed_def Let_def split: option.splits prod.splits)

lemma run_handler_keeps_events:
  assumes "\<And>e s. webhook_events (h e s) = webhook_events s"
  shows "webhook_events (snd (run_handler dl ent h s)) = webhook_events s"
    "webhook_events (snd (requireSubs wr dl ent h s)) = webhook_events s"
  using assms by (simp_all add: requireSubs_def run_handler_def split: option.splits)

lemma defaultDispatcher_events: "webhook_events (snd (defaultDispatcher wr dl et pl s)) = webhook_events s"
  by (simp add: defaultDispatcher_def run_handler_keeps_events handlers_keep_events onAuthenticated_def onActivated_def
      onPending_def onPaused_def onResumed_def onCompleted_def split: prod.split)

lemma receive_event_law:
  assumes "unique_on event_key (webhook_events s)" and "receive_event eid ev now s = (None, s')"
  shows "unique_on event_key (webhook_events s') \<and> event_status_of s eid = None \<and>
    event_status_of s' = (event_status_of s)(eid \<mapsto> WE_PROCESSING)"
proof -
  have none: "findOne (\<lambda>e. we_eventId e = eid) (webhook_events s) = None"
    using assms(2) by (auto simp: receive_event_def upsertOnInsert_def Let_def split: option.splits)
  have "unique_on event_key (webhook_events s')"
    using assms none by (auto simp: receive_event_def upsertOnInsert_def Let_def unique_on_def event_key_def set_keys_of findOne_None_iff)
  moreover have "event_status_of s' = (event_status_of s)(eid \<mapsto> WE_PROCESSING)"
    using assms(2) none
    by (auto simp: receive_event_def upsertOnInsert_def Let_def event_status_of_def fun_eq_iff findOne_def find_append split: option.splits)
  ultimately show ?thesis using none by (simp add: event_status_of_def)
qed

lemma receive_event_again:
  assumes "receive_event eid ev now s = (Some prev, s')"
  shows "s' = s \<and> event_status_of s eid = Some (we_status prev)"
  using assms by (auto simp: receive_event_def upsertOnInsert_def Let_def event_status_of_def split: option.splits)

lemma reclaim_event_law:
  assumes "unique_on event_key (webhook_events s)" and "reclaim_event eid s = (True, s')"
  shows "unique_on event_key (webhook_events s') \<and> event_status_of s eid \<in> {Some WE_FAILED, Some WE_RECEIVED} \<and>
    event_status_of s' = (event_status_of s)(eid \<mapsto> WE_PROCESSING)"
proof -
  let ?f = "\<lambda>e. e\<lparr>we_status := WE_PROCESSING, we_attempts := we_attempts e + 1\<rparr>"
  obtain e where e: "findOne (reclaimable eid) (webhook_events s) = Some e"
      "webhook_events s' = update_first (reclaimable eid) ?f (webhook_events s)"
    using assms(2) by (auto simp: reclaim_event_def findOneAndUpdate_def split: option.splits)
  have "(\<lambda>x. map_option we_status (findOne (\<lambda>e. we_eventId e = x) (webhook_events s'))) =
      (\<lambda>x. map_option we_status (findOne (\<lambda>e. we_eventId e = x) (webhook_events s)))(eid \<mapsto> we_status (?f e)) \<and>
      findOne (\<lambda>e. we_eventId e = eid) (webhook_events s) = Some e"
    unfolding e(2) by (rule status_update_first [OF _ e(1) _ assms(1)]) (simp_all add: reclaimable_def)
  moreover have "keys_of event_key (webhook_events s') = keys_of event_key (webhook_events s)"
    unfolding e(2) by (rule keys_of_update_first) (simp add: event_key_def)
  moreover have "reclaimable eid e" using findOne_SomeD [OF e(1)] by simp
  ultimately show ?thesis using assms(1) by (auto simp: event_status_of_def unique_on_def reclaimable_def fun_eq_iff)
qed

lemma reclaim_event_False:
  assumes "reclaim_event eid s = (False, s')"
  shows "s' = s \<and> event_status_of s eid \<notin> {Some WE_FAILED, Some WE_RECEIVED}"
proof -
  have none: "findOne (reclaimable eid) (webhook_events s) = None" and s: "s' = s"
    using assms by (auto simp: reclaim_event_def findOneAndUpdate_def split: option.splits)
  show ?thesis
  proof (cases "findOne (\<lambda>e. we_eventId e = eid) (webhook_events s)")
    case (Some e)
    then have "\<not> reclaimable eid e" using none findOne_SomeD [OF Some] by (simp add: findOne_None_iff)
    then show ?thesis using Some s findOne_SomeD [OF Some] by (auto simp: event_status_of_def reclaimable_def)
  qed (use s in \<open>simp add: event_status_of_def\<close>)
qed

lemma finalise_law:
  assumes "unique_on event_key (webhook_events s)" and "event_status_of s eid = Some WE_PROCESSING"
    and "dispatchAndFinalise wr dl eid ev s = (ans, s')"
  shows "unique_on event_key (webhook_events s') \<and>
    event_status_of s' = (event_status_of s)(eid \<mapsto> if ans = (200, M_ok) then WE_DONE else WE_FAILED) \<and>
    (ans = (200, M_ok) \<or> ans = (500, M_retry))"
proof -
  obtain r s1 where d: "defaultDispatcher wr dl (ev_event ev) (ev_payload ev) s = (r, s1)" by force
  have ev: "webhook_events s1 = webhook_events s" using defaultDispatcher_events [of wr dl "ev_event ev" "ev_payload ev" s] d by simp
  obtain e where e: "findOne (\<lambda>e. we_eventId e = eid) (webhook_events s) = Some e"
    using assms(2) by (auto simp: event_status_of_def)
  have law: "unique_on event_key (webhook_events s') \<and> event_status_of s' = (event_status_of s)(eid \<mapsto> st)"
    if "webhook_events s' = update_first (\<lambda>e. we_eventId e = eid) f (webhook_events s)"
      "\<And>e. we_eventId (f e) = we_eventId e" "\<And>e. we_status (f e) = st" for f st
  proof -
    have "keys_of event_key (webhook_events s') = keys_of event_key (webhook_events s)"
      unfolding that(1) by (rule keys_of_update_first) (simp add: event_key_def that(2))
    then show ?thesis
      using status_update_first [OF that(2) e _ assms(1)] assms(1) that(3)
      by (simp add: event_status_of_def unique_on_def fun_eq_iff that(1))
  qed
  show ?thesis
  proof (cases r)
    case (Inl m)
    let ?f = "\<lambda>e. e\<lparr>we_attempts := we_attempts e + 1, we_status := WE_FAILED, we_lastError := Some m\<rparr>"
    have "ans = (500, M_retry)" "webhook_events s' = update_first (\<lambda>e. we_eventId e = eid) ?f (webhook_events s)"
      using assms(3) d Inl e
      by (auto simp: dispatchAndFinalise_def finalise_failed_def findOneAndUpdate_def Let_def ev split: prod.splits option.splits)
    with law [of ?f WE_FAILED] show ?thesis by simp
  next
    case (Inr u)
    let ?f = "\<lambda>e. e\<lparr>we_status := WE_DONE, we_processedAt := Some (dl_now dl)\<rparr>"
    have "ans = (200, M_ok)" "webhook_events s' = update_first (\<lambda>e. we_eventId e = eid) ?f (webhook_events s)"
      using assms(3) d Inr by (auto simp: dispatchAndFinalise_def finalise_done_def updateOne_def ev)
    with law [of ?f WE_DONE] show ?thesis by simp
  qed
qed

interpretation lock: event_lock
  "\<lambda>s. unique_on event_key (webhook_events s)" event_status_of
  "\<lambda>eid s s'. \<exists>ev now. receive_event eid ev now s = (None, s')"
  "\<lambda>eid s s'. reclaim_event eid s = (True, s')"
  "\<lambda>eid s s'. \<exists>wr dl ev. s' = snd (dispatchAndFinalise wr dl eid ev s)"
proof (unfold_locales, goal_cases)
  case (1 s eid s')
  then show ?case using receive_event_law by blast
next
  case (2 s eid s')
  then show ?case by (rule reclaim_event_law)
next
  case (3 s eid s')
  then obtain wr dl ev where "s' = snd (dispatchAndFinalise wr dl eid ev s)" by blast
  with finalise_law [OF 3(1,3) prod.collapse [symmetric]] show ?case by auto
qed

section \<open>Deliveries in any order\<close>

text \<open>
  The atomic actions of concurrent deliveries and of the retry worker, with the events that
  are being dispatched right now: a delivery wins the insert, a delivery reclaims a failed
  event, an owner dispatches and finalises, a process dies while it owns an event.
\<close>

inductive webhook_step :: "db \<times> string list \<Rightarrow> db \<times> string list \<Rightarrow> bool" where
  insert: "receive_event eid ev now s = (None, s') \<Longrightarrow> webhook_step (s, flight) (s', eid # flight)"
| reclaim: "reclaim_event eid s = (True, s') \<Longrightarrow> webhook_step (s, flight) (s', eid # flight)"
| finalise: "eid \<in> set flight \<Longrightarrow>
    webhook_step (s, flight) (snd (dispatchAndFinalise wr dl eid ev s), remove1 eid flight)"
| die: "eid \<in> set flight \<Longrightarrow> webhook_step (s, flight) (s, remove1 eid flight)"

inductive_cases webhook_stepE: "webhook_step (s, flight) c"

lemma webhook_step_owned:
  assumes "webhook_step c c'" and "lock.owned (fst c) (snd c)"
  shows "lock.owned (fst c') (snd c')"
  using assms
proof cases
  case (insert eid ev now s s' flight)
  then show ?thesis using assms(2) lock.owned_new [of s flight eid s'] by auto
next
  case (reclaim eid s s' flight)
  then show ?thesis using assms(2) lock.owned_again [of s flight eid s'] by auto
next
  case (finalise eid flight s wr dl ev)
  then show ?thesis using assms(2) lock.owned_finish [of s flight eid] by auto
next
  case (die eid flight s)
  then show ?thesis using assms(2) lock.owned_drop [of s flight eid] by auto
qed

lemma webhook_steps_owned: "webhook_step\<^sup>*\<^sup>* c c' \<Longrightarrow> lock.owned (fst c) (snd c) \<Longrightarrow> lock.owned (fst c') (snd c')"
  by (induction rule: rtranclp_induct) (auto dest: webhook_step_owned)

lemma webhook_step_done:
  assumes "webhook_step c c'" and "lock.owned (fst c) (snd c)" and "event_status_of (fst c) x = Some WE_DONE"
  shows "event_status_of (fst c') x = Some WE_DONE"
  using assms
proof cases
  case (insert eid ev now s s' flight)
  then have "\<exists>ev now. receive_event eid ev now s = (None, s')" by blast
  then show ?thesis using assms(2,3) insert(1,2) lock.done_kept [of s flight x eid s'] by simp
next
  case (reclaim eid s s' flight)
  then show ?thesis using assms(2,3) lock.done_kept [of s flight x eid s'] by auto
next
  case (finalise eid flight s wr dl ev)
  then show ?thesis
    using assms(2,3) lock.done_kept [of s flight x eid "snd (dispatchAndFinalise wr dl eid ev s)"] by auto
qed auto

lemma webhook_steps_done:
  "webhook_step\<^sup>*\<^sup>* c c' \<Longrightarrow> lock.owned (fst c) (snd c) \<Longrightarrow> event_status_of (fst c) x = Some WE_DONE \<Longrightarrow>
    event_status_of (fst c') x = Some WE_DONE"
  by (induction rule: rtranclp_induct) (auto dest: webhook_step_done webhook_steps_owned)

definition sample_event :: rzp_event where
  "sample_event = \<lparr>ev_event = ''payment.captured'', ev_payload = CapturedPayload (sample_pay_entity 1 500)\<rparr>"

definition sample_delivery :: delivery where
  "sample_delivery = \<lparr>dl_now = 10, dl_newId = 4, dl_invoiceOk = True, dl_retryOk = True, dl_fault = None\<rparr>"

definition sample_intake :: db where
  "sample_intake = empty_db\<lparr>donations := [sample_donation 1 7 500 D_CREATED]\<rparr>"

lemma sample_intake_unique: "unique_on event_key (webhook_events sample_intake)"
  by code_simp

text \<open>C4: an event has one owner at a time: however deliveries, retries and crashes interleave, no
  event is being dispatched twice at once, and every event that is being dispatched is marked
  PROCESSING, so that no other delivery can reclaim it.\<close>

theorem webhook_single_owner:
  assumes "webhook_step\<^sup>*\<^sup>* (s, []) (s', flight)" and "unique_on event_key (webhook_events s)"
  shows "distinct flight \<and> (\<forall>eid \<in> set flight. event_status_of s' eid = Some WE_PROCESSING \<and>
    reclaim_event eid s' = (False, s'))"
proof -
  have "lock.owned s' flight" using webhook_steps_owned [OF assms(1)] assms(2) by (simp add: lock.owned_def)
  then have st: "distinct flight" "\<forall>eid \<in> set flight. event_status_of s' eid = Some WE_PROCESSING"
    and u: "unique_on event_key (webhook_events s')" by (auto simp: lock.owned_def)
  have "reclaim_event eid s' = (False, s')" if "eid \<in> set flight" for eid
  proof (cases "reclaim_event eid s'")
    case (Pair b s2)
    then show ?thesis using st(2) that reclaim_event_law [OF u, of eid s2] reclaim_event_False [of eid s' s2] by (cases b) auto
  qed
  then show ?thesis using st by blast
qed

theorem webhook_single_owner_witness:
  "event_status_of (snd (receive_event ''e1'' sample_event 10 sample_intake)) ''e1'' = Some WE_PROCESSING"
proof -
  have "fst (receive_event ''e1'' sample_event 10 sample_intake) = None" by code_simp
  then have "receive_event ''e1'' sample_event 10 sample_intake = (None, snd (receive_event ''e1'' sample_event 10 sample_intake))"
    by (metis prod.collapse)
  then have "webhook_step\<^sup>*\<^sup>* (sample_intake, []) (snd (receive_event ''e1'' sample_event 10 sample_intake), [''e1''])"
    by (intro r_into_rtranclp webhook_step.insert)
  from webhook_single_owner [OF this sample_intake_unique] show ?thesis by simp
qed

text \<open>C0: a processed event stays processed: whatever is delivered, retried or crashes afterwards, the
  row stays DONE, nobody owns the event, and a further delivery is answered with 200
  \<open>duplicate\<close> and changes nothing.\<close>

theorem webhook_done_final:
  assumes "webhook_step\<^sup>*\<^sup>* (s0, []) (s, flight)" and "unique_on event_key (webhook_events s0)"
    and "event_status_of s eid = Some WE_DONE" and "webhook_step\<^sup>*\<^sup>* (s, flight) (s', flight')"
    and "eid \<noteq> []" and "sig \<noteq> []" and "sigOk raw sig" and "parse raw = Some ev"
  shows "event_status_of s' eid = Some WE_DONE \<and> eid \<notin> set flight' \<and>
    handleRazorpayWebhook sigOk parse wr dl raw (Some sig) (Some eid) s' = ((200, M_duplicate), s')"
proof -
  have o: "lock.owned s flight" using webhook_steps_owned [OF assms(1)] assms(2) by (simp add: lock.owned_def)
  have o': "lock.owned s' flight'" and d: "event_status_of s' eid = Some WE_DONE"
    using webhook_steps_owned [OF assms(4)] webhook_steps_done [OF assms(4), of eid] o assms(3) by simp_all
  obtain p s1 where r: "receive_event eid ev (dl_now dl) s' = (p, s1)" by force
  then obtain prev where p: "p = Some prev"
    using receive_event_law [of s' eid ev "dl_now dl" s1] o' d by (cases p) (auto simp: lock.owned_def)
  have "we_status prev = WE_DONE" "s1 = s'" using receive_event_again [of eid ev "dl_now dl" s' prev s1] r p d by auto
  then have "handleRazorpayWebhook sigOk parse wr dl raw (Some sig) (Some eid) s' = ((200, M_duplicate), s')"
    using r p assms(5-8) by (simp add: handleRazorpayWebhook_def)
  then show ?thesis using d lock.done_not_in_flight [OF o' d] by simp
qed

theorem webhook_done_final_witness:
  "handleRazorpayWebhook (\<lambda>r g. True) (\<lambda>r. Some sample_event) app_wiring sample_delivery [] (Some ''sig'') (Some ''e1'')
     (snd (dispatchAndFinalise app_wiring sample_delivery ''e1'' sample_event (snd (receive_event ''e1'' sample_event 10 sample_intake)))) =
   ((200, M_duplicate), snd (dispatchAndFinalise app_wiring sample_delivery ''e1'' sample_event (snd (receive_event ''e1'' sample_event 10 sample_intake))))"
proof -
  let ?s1 = "snd (receive_event ''e1'' sample_event 10 sample_intake)"
  let ?s2 = "snd (dispatchAndFinalise app_wiring sample_delivery ''e1'' sample_event ?s1)"
  have "fst (receive_event ''e1'' sample_event 10 sample_intake) = None" by code_simp
  then have "receive_event ''e1'' sample_event 10 sample_intake = (None, ?s1)" by (metis prod.collapse)
  then have a: "webhook_step (sample_intake, []) (?s1, [''e1''])" by (rule webhook_step.insert)
  have b: "webhook_step (?s1, [''e1'']) (?s2, [])"
    using webhook_step.finalise [of "''e1''" "[''e1'']" ?s1 app_wiring sample_delivery sample_event] by simp
  have run: "webhook_step\<^sup>*\<^sup>* (sample_intake, []) (?s2, [])"
    by (rule converse_rtranclp_into_rtranclp [OF a r_into_rtranclp [of webhook_step, OF b]])
  have d: "event_status_of ?s2 ''e1'' = Some WE_DONE" by code_simp
  from webhook_done_final [OF run sample_intake_unique d rtranclp.rtrancl_refl] show ?thesis by simp
qed

lemma handleRazorpayWebhook_cases:
  assumes "unique_on event_key (webhook_events s)"
    and "handleRazorpayWebhook sigOk parse wr dl raw sig eventId s = (ans, s')"
  shows "if \<not> truthy_str sig \<or> \<not> truthy_str eventId then ans = (400, M_missing_headers) \<and> s' = s
    else if \<not> sigOk raw (the sig) then ans = (400, M_invalid_signature) \<and> s' = s
    else if parse raw = None then ans = (400, M_invalid_payload) \<and> s' = s
    else case event_status_of s (the eventId) of
        Some WE_DONE \<Rightarrow> ans = (200, M_duplicate) \<and> s' = s
      | Some WE_PROCESSING \<Rightarrow> ans = (200, M_concurrent) \<and> s' = s
      | _ \<Rightarrow> (ans = (200, M_ok) \<or> ans = (500, M_retry)) \<and>
          event_status_of s' = (event_status_of s)(the eventId \<mapsto> if ans = (200, M_ok) then WE_DONE else WE_FAILED)"
proof (cases "\<not> truthy_str sig \<or> \<not> truthy_str eventId \<or> \<not> sigOk raw (the sig) \<or> parse raw = None")
  case True
  then show ?thesis using assms(2) by (auto simp: handleRazorpayWebhook_def split: if_splits)
next
  case False
  let ?e = "the eventId"
  obtain ev where ev: "parse raw = Some ev" using False by auto
  obtain p s1 where r: "receive_event ?e ev (dl_now dl) s = (p, s1)" by force
  have run: "(case p of None \<Rightarrow> dispatchAndFinalise wr dl ?e ev s1
      | Some prev \<Rightarrow> if we_status prev = WE_DONE then ((200, M_duplicate), s1)
          else if we_status prev = WE_PROCESSING then ((200, M_concurrent), s1)
          else (case reclaim_event ?e s1 of (False, s2) \<Rightarrow> ((200, M_concurrent), s2)
            | (True, s2) \<Rightarrow> dispatchAndFinalise wr dl ?e ev s2)) = (ans, s')"
    using assms(2) False ev r by (simp add: handleRazorpayWebhook_def)
  show ?thesis
  proof (cases p)
    case None
    note law = receive_event_law [OF assms(1), of ?e ev "dl_now dl" s1]
    have u: "unique_on event_key (webhook_events s1)" and e: "event_status_of s ?e = None"
      and s1: "event_status_of s1 = (event_status_of s)(?e \<mapsto> WE_PROCESSING)" using law r None by simp_all
    from finalise_law [OF u, of ?e wr dl ev ans s'] s1 run None False e ev show ?thesis by simp
  next
    case (Some prev)
    have s1: "s1 = s" "event_status_of s ?e = Some (we_status prev)"
      using receive_event_again [of ?e ev "dl_now dl" s prev s1] r Some by simp_all
    show ?thesis
    proof (cases "we_status prev = WE_DONE \<or> we_status prev = WE_PROCESSING")
      case True
      then show ?thesis using run Some s1 False by auto
    next
      case other: False
      obtain b s2 where rc: "reclaim_event ?e s = (b, s2)" by force
      have st: "we_status prev = WE_FAILED \<or> we_status prev = WE_RECEIVED" using other by (cases "we_status prev") auto
      have b: "b" using reclaim_event_False [of ?e s s2] rc s1(2) st by (cases b) auto
      note law = reclaim_event_law [OF assms(1), of ?e s2]
      have u: "unique_on event_key (webhook_events s2)" and s2: "event_status_of s2 = (event_status_of s)(?e \<mapsto> WE_PROCESSING)"
        using law rc b by simp_all
      have "dispatchAndFinalise wr dl ?e ev s2 = (ans, s')" using run Some other rc b s1(1) by simp
      from finalise_law [OF u _ this] s2 st False s1(2) show ?thesis by auto
    qed
  qed
qed



section \<open>The retry worker\<close>

lemma worker_dispatch_fails:
  assumes "et \<in> set HANDLED_EVENTS"
  shows "\<exists>msg. defaultDispatcher worker_wiring dl et pl s = (Inl msg, s)"
  using assms by (auto simp: HANDLED_EVENTS_def defaultDispatcher_def worker_wiring_def requireSubs_def)

definition sample_failed :: webhook_event where
  "sample_failed = \<lparr>we_eventId = ''e1'', we_eventType = Some ''payment.captured'', we_payload = Some sample_event,
     we_status = WE_FAILED, we_attempts = 1, we_lastError = None, we_receivedAt = None, we_processedAt = None\<rparr>"



text \<open>an event whose owner died stays PROCESSING: every further delivery is answered with 200, so
  that the provider stops retrying, the retry job reports success, and nothing ever
  dispatches the event.\<close>

theorem stuck_event_acknowledged:
  assumes "unique_on event_key (webhook_events s)" and "event_status_of s eid = Some WE_PROCESSING" and "eid \<noteq> []"
    and "\<And>raw. parse raw \<noteq> None" and "\<And>raw. sigOk raw (sign raw)" and "\<And>raw. sign raw \<noteq> []"
  shows "handleRazorpayWebhook sigOk parse wr dl raw (Some (sign raw)) (Some eid) s = ((200, M_concurrent), s) \<and>
    webhookRetryHandler sigOk parse stringify sign wr dl eid s = (Inr (), s)"
proof -
  have h: "handleRazorpayWebhook sigOk parse wr dl raw (Some (sign raw)) (Some eid) s = ((200, M_concurrent), s)" for raw
  proof (cases "handleRazorpayWebhook sigOk parse wr dl raw (Some (sign raw)) (Some eid) s")
    case (Pair ans s')
    show ?thesis using handleRazorpayWebhook_cases [OF assms(1) Pair] assms(2-6) Pair by simp
  qed
  obtain row where "findOne (\<lambda>e. we_eventId e = eid) (webhook_events s) = Some row" "we_status row = WE_PROCESSING"
    using assms(2) by (auto simp: event_status_of_def)
  then show ?thesis using h by (simp add: webhookRetryHandler_def Let_def)
qed

theorem stuck_event_acknowledged_witness:
  "webhookRetryHandler (\<lambda>r g. True) (\<lambda>r. Some sample_event) (\<lambda>p. []) (\<lambda>r. ''sig'') app_wiring sample_delivery ''e1''
     (sample_intake\<lparr>webhook_events := [sample_failed\<lparr>we_status := WE_PROCESSING\<rparr>]\<rparr>) =
   (Inr (), sample_intake\<lparr>webhook_events := [sample_failed\<lparr>we_status := WE_PROCESSING\<rparr>]\<rparr>)"
proof -
  let ?s = "sample_intake\<lparr>webhook_events := [sample_failed\<lparr>we_status := WE_PROCESSING\<rparr>]\<rparr>"
  have h: "unique_on event_key (webhook_events ?s)" "event_status_of ?s ''e1'' = Some WE_PROCESSING" by code_simp+
  from stuck_event_acknowledged [OF h, of "\<lambda>r. Some sample_event" "\<lambda>r g. True" "\<lambda>r. ''sig''" app_wiring sample_delivery "[]" "\<lambda>p. []"]
  show ?thesis by simp
qed

text \<open>the delays between attempts follow the provider's cadence: they lie between five seconds and
  a day, never shrink, and stay at a day from the seventh attempt on.\<close>

theorem razorpayCadenceBackoff_bounds:
  "5000 \<le> razorpayCadenceBackoff n \<and> razorpayCadenceBackoff n \<le> 86400000 \<and>
   razorpayCadenceBackoff n \<le> razorpayCadenceBackoff (n + 1) \<and>
   razorpayCadenceBackoff (max 7 n) = 86400000"
proof -
  have c: "n \<le> 1 \<or> n = 2 \<or> n = 3 \<or> n = 4 \<or> n = 5 \<or> n = 6 \<or> 7 \<le> n" by arith
  have lo: "razorpayCadenceBackoff m = 5000" if "m \<le> 1" for m
    using that by (simp add: razorpayCadenceBackoff_def RAZORPAY_BACKOFF_MS_def max_absorb2)
  have hi: "razorpayCadenceBackoff m = 86400000" if "7 \<le> m" for m
    using that by (simp add: razorpayCadenceBackoff_def RAZORPAY_BACKOFF_MS_def max_absorb1 min_absorb2)
  have mid: "razorpayCadenceBackoff 2 = 30000" "razorpayCadenceBackoff 3 = 300000" "razorpayCadenceBackoff 4 = 1800000"
    "razorpayCadenceBackoff 5 = 7200000" "razorpayCadenceBackoff 6 = 21600000" by code_simp+
  have "n \<le> 0 \<or> n = 1 \<or> 1 < n" by arith
  with c show ?thesis using lo [of n] lo [of "n + 1"] hi [of n] hi [of "n + 1"] hi [of "max 7 n"] mid by auto
qed

end
