(* ===== verification/Erasure.thy ===== *)
theory Erasure
  imports Auth Js_Number "HOL-Library.List_Lexorder" "HOL-Library.Char_ord" Samples
begin

text \<open>
  Erasure of a user account: request, cancellation and status
  (src/modules/users/users.erasure.service.ts), the hold an admin can put on it
  (applyErasureHold and clearErasureHold of admin-users.service.ts), and the daily sweep that
  anonymises the accounts whose grace period is over (src/workers/user-anonymize-sweep.worker.ts
  with the patch of src/shared/utils/anonymize.ts).

  The sweep first reads its candidates and then runs one transaction per candidate with the
  document it read, so the two are separate here: \<open>anonymize_one\<close> takes the stored
  document as it was and the state as it is. SHA-256 is a parameter, and so is whether the
  transaction of a candidate fails.
\<close>

section \<open>Request, cancellation, status\<close>

definition GRACE_PERIOD_DAYS :: int where "GRACE_PERIOD_DAYS = 30"
definition MS_PER_DAY :: int where "MS_PER_DAY = 24 * 60 * 60 * 1000"
definition GRACE_PERIOD_MS :: int where "GRACE_PERIOD_MS = 30 * 24 * 60 * 60 * 1000"

record erasure_status =
  er_requested :: bool
  er_deletedAt :: "date option"
  er_anonymizedAt :: "date option"
  er_held :: bool
  er_daysRemaining :: "int option"
  er_gracePeriodDays :: int

text \<open>\<open>Math.ceil\<close> of a double, and the days that remain: zero when the period is over.\<close>

definition js_ceil :: "double \<Rightarrow> int" where
  "js_ceil x = - ((- (fst x * 2 ^ nat (snd x))) div 2 ^ nat (- snd x))"

definition days_remaining :: "int \<Rightarrow> int" where
  "days_remaining elapsedMs =
     (let left = GRACE_PERIOD_DAYS * MS_PER_DAY - elapsedMs
      in if left \<le> 0 then 0 else max 0 (js_ceil (js_divide (js_int left) (js_int MS_PER_DAY))))"

definition toStatus :: "date \<Rightarrow> date option \<Rightarrow> bool \<Rightarrow> date option \<Rightarrow> erasure_status" where
  "toStatus now deletedAt held anonymizedAt =
     (case anonymizedAt of
        Some a \<Rightarrow> \<lparr>er_requested = True, er_deletedAt = deletedAt, er_anonymizedAt = Some a, er_held = held,
                   er_daysRemaining = None, er_gracePeriodDays = GRACE_PERIOD_DAYS\<rparr>
      | None \<Rightarrow>
          (case deletedAt of
             None \<Rightarrow> \<lparr>er_requested = False, er_deletedAt = None, er_anonymizedAt = None, er_held = False,
                      er_daysRemaining = None, er_gracePeriodDays = GRACE_PERIOD_DAYS\<rparr>
           | Some d \<Rightarrow> \<lparr>er_requested = True, er_deletedAt = Some d, er_anonymizedAt = None, er_held = held,
                        er_daysRemaining = (if held then None else Some (days_remaining (now - d))),
                        er_gracePeriodDays = GRACE_PERIOD_DAYS\<rparr>))"

definition hold_active :: "user \<Rightarrow> bool" where
  "hold_active u = (case u_erasureHold u of None \<Rightarrow> False | Some h \<Rightarrow> eh_active h)"

definition find_user :: "oid \<Rightarrow> 'r auth_state \<Rightarrow> user option" where
  "find_user userId st = findOne (\<lambda>u. u_id u = userId) (users (au_db st))"

definition update_user :: "oid \<Rightarrow> (user \<Rightarrow> user) \<Rightarrow> 'r auth_state \<Rightarrow> 'r auth_state" where
  "update_user userId f st =
     st\<lparr>au_db := (au_db st)\<lparr>users := snd (findOneAndUpdate (\<lambda>u. u_id u = userId) f (users (au_db st)))\<rparr>\<rparr>"

definition erasure_request :: "'r redis \<Rightarrow> oid \<Rightarrow> date \<Rightarrow> 'r auth_state \<Rightarrow> (app_error + erasure_status) \<times> 'r auth_state" where
  "erasure_request R userId now st =
     (case find_user userId st of
        None \<Rightarrow> (Inl UnauthorizedError, st)
      | Some user \<Rightarrow>
          if u_anonymizedAt user \<noteq> None then (Inl (BadRequestError ''ALREADY_ANONYMIZED''), st)
          else
            (case u_deletedAt user of
               Some d \<Rightarrow> (Inr (toStatus now (Some d) (hold_active user) (u_anonymizedAt user)), st)
             | None \<Rightarrow>
                 let st1 = update_user userId (\<lambda>u. u\<lparr>u_deletedAt := Some now\<rparr>) st;
                     st2 = with_sessions (snd (revokeAllForUser userId now (au_sessions st1))) st1;
                     st3 = set_redis (snd (store_forceLogout R userId now (au_redis st2))) st2
                 in (Inr (toStatus now (Some now) False None), st3)))"

definition erasure_cancel :: "'r redis \<Rightarrow> oid \<Rightarrow> date \<Rightarrow> 'r auth_state \<Rightarrow> (app_error + erasure_status) \<times> 'r auth_state" where
  "erasure_cancel R userId now st =
     (case find_user userId st of
        None \<Rightarrow> (Inl UnauthorizedError, st)
      | Some user \<Rightarrow>
          if u_anonymizedAt user \<noteq> None then (Inl (BadRequestError ''ALREADY_ANONYMIZED''), st)
          else if u_deletedAt user = None then (Inl NotFoundError, st)
          else
            let st1 = update_user userId (\<lambda>u. u\<lparr>u_deletedAt := None, u_erasureHold := None\<rparr>) st;
                st2 = set_redis (store_clear R userId now (au_redis st1)) st1
            in (Inr (toStatus now None False None), st2))"

definition erasure_status_of :: "oid \<Rightarrow> date \<Rightarrow> 'r auth_state \<Rightarrow> app_error + erasure_status" where
  "erasure_status_of userId now st =
     (case find_user userId st of
        None \<Rightarrow> Inl UnauthorizedError
      | Some user \<Rightarrow> Inr (toStatus now (u_deletedAt user) (hold_active user) (u_anonymizedAt user)))"

section \<open>The hold\<close>

definition applyErasureHold ::
  "oid \<Rightarrow> string \<Rightarrow> oid \<Rightarrow> date \<Rightarrow> 'r auth_state \<Rightarrow> (app_error + date \<times> string) \<times> 'r auth_state" where
  "applyErasureHold userId reason actorId now st =
     (case find_user userId st of
        None \<Rightarrow> (Inl NotFoundError, st)
      | Some user \<Rightarrow>
          if u_deletedAt user = None then (Inl (ConflictError ''NO_PENDING_ERASURE''), st)
          else if u_anonymizedAt user \<noteq> None then (Inl (ConflictError ''ALREADY_ANONYMIZED''), st)
          else if hold_active user then (Inl (ConflictError ''ALREADY_HELD''), st)
          else
            (Inr (now, reason),
             update_user userId (\<lambda>u. u\<lparr>u_erasureHold :=
               Some \<lparr>eh_active = True, eh_reason = Some reason, eh_by = Some actorId, eh_at = Some now\<rparr>\<rparr>) st))"

definition clearErasureHold :: "oid \<Rightarrow> date \<Rightarrow> 'r auth_state \<Rightarrow> (app_error + date \<times> date) \<times> 'r auth_state" where
  "clearErasureHold userId now st =
     (case find_user userId st of
        None \<Rightarrow> (Inl NotFoundError, st)
      | Some user \<Rightarrow>
          (case u_erasureHold user of
             None \<Rightarrow> (Inl (ConflictError ''NOT_HELD''), st)
           | Some hold \<Rightarrow>
               (case (eh_active hold, eh_at hold) of
                  (True, Some heldAt) \<Rightarrow>
                    (case u_deletedAt user of
                       None \<Rightarrow> (Inl (ConflictError ''NO_PENDING_ERASURE''), st)
                     | Some deletedAt \<Rightarrow>
                         let heldDurationMs = now - heldAt;
                             advancedDeletedAt = deletedAt + heldDurationMs
                         in (Inr (now, advancedDeletedAt),
                             update_user userId (\<lambda>u. u\<lparr>u_deletedAt := Some advancedDeletedAt, u_erasureHold := None\<rparr>) st))
                | _ \<Rightarrow> (Inl (ConflictError ''NOT_HELD''), st))))"

section \<open>The sweep\<close>

definition hashPhoneForTombstone :: "(string \<Rightarrow> string) \<Rightarrow> string \<Rightarrow> oid \<Rightarrow> string" where
  "hashPhoneForTombstone sha phone userId = sha (phone @ '':'' @ js_String (int userId))"

definition hashEmailForTombstone :: "(string \<Rightarrow> string) \<Rightarrow> (string \<Rightarrow> string) \<Rightarrow> string \<Rightarrow> oid \<Rightarrow> string" where
  "hashEmailForTombstone sha toLowerCase email userId = sha (toLowerCase email @ '':'' @ js_String (int userId))"

text \<open>
  The patch is computed from the document \<open>user\<close> that was read and applied to the stored one.
\<close>

definition anonymize_patch :: "(string \<Rightarrow> string) \<Rightarrow> (string \<Rightarrow> string) \<Rightarrow> user \<Rightarrow> date \<Rightarrow> user \<Rightarrow> user" where
  "anonymize_patch sha toLowerCase user now u =
     u\<lparr>u_phone := hashPhoneForTombstone sha (u_phone user) (u_id user),
       u_displayName := Some ''REDACTED_USER'',
       u_anonymizedAt := Some now,
       u_email := (if truthy_str (u_email user)
                   then map_option (\<lambda>e. hashEmailForTombstone sha toLowerCase e (u_id user)) (u_email user) else u_email u),
       u_avatarUrl := None, u_socialLinks := None,
       u_kyc := (u_kyc u)\<lparr>kyc_panLast4 := None, kyc_panCt := None, kyc_panIv := None, kyc_panTag := None, kyc_panDekEnc := None\<rparr>\<rparr>"

definition donation_tombstone :: "donation \<Rightarrow> donation" where
  "donation_tombstone d =
     d\<lparr>d_displayName := None, d_message := None, d_socialLinks := None, d_ipAddress := None, d_featured := False\<rparr>"

definition notification_tombstone :: "notification \<Rightarrow> notification" where
  "notification_tombstone n = n\<lparr>n_title := None, n_body := None, n_payload := Some ''{}''\<rparr>"

definition sweep_candidate_erasure :: "date \<Rightarrow> user \<Rightarrow> bool" where
  "sweep_candidate_erasure now u \<longleftrightarrow>
     (case u_deletedAt u of None \<Rightarrow> False | Some d \<Rightarrow> d \<le> now - GRACE_PERIOD_MS) \<and>
     u_anonymizedAt u = None \<and> \<not> hold_active u"

definition pending_audit :: "user \<Rightarrow> prize_winner list \<Rightarrow> date \<Rightarrow> erasure_audit" where
  "pending_audit user pendingWinners now =
     \<lparr>ea_userId = u_id user, ea_gracePeriodStartedAt = u_deletedAt user, ea_anonymizedAt = now,
      ea_pendingWinnerCount = int (length pendingWinners),
      ea_pendingTotalPaise = sum_list (map (\<lambda>w. or_default (w_finalAmount w) 0) pendingWinners),
      ea_tdsAccruedPaise = sum_list (map w_tdsDeducted pendingWinners),
      ea_pendingDayKeys = sort (remdups (map w_dayKey pendingWinners))\<rparr>"

definition anonymizeInTransaction ::
  "(string \<Rightarrow> string) \<Rightarrow> (string \<Rightarrow> string) \<Rightarrow> user \<Rightarrow> prize_winner list \<Rightarrow> date \<Rightarrow> 'r auth_state \<Rightarrow> 'r auth_state" where
  "anonymizeInTransaction sha toLowerCase user pendingWinners now st =
     (let uid = u_id user;
          audits = (if pendingWinners = [] then au_audits st else au_audits st @ [pending_audit user pendingWinners now]);
          us = snd (updateOne (\<lambda>u. u_id u = uid) (anonymize_patch sha toLowerCase user now) (users (au_db st)));
          ds = snd (updateMany (\<lambda>d. d_userId d = Some uid) donation_tombstone (donations (au_db st)));
          ns = snd (updateMany (\<lambda>n. n_userId n = Some uid) notification_tombstone (au_notifications st))
      in st\<lparr>au_db := (au_db st)\<lparr>users := us, donations := ds\<rparr>, au_audits := audits, au_notifications := ns,
            au_sessions := deleteAllForUser uid (au_sessions st)\<rparr>)"

record sweep_report =
  sw_candidateCount :: nat
  sw_anonymizedCount :: nat
  sw_pendingWinningsAuditCount :: nat
  sw_errors :: "oid list"

text \<open>One candidate; \<open>failed\<close> says that its transaction throws, \<open>clearFailed\<close> that the Redis cleanup does.\<close>

definition anonymize_one ::
  "'r redis \<Rightarrow> (string \<Rightarrow> string) \<Rightarrow> (string \<Rightarrow> string) \<Rightarrow> (oid \<Rightarrow> bool) \<Rightarrow> (oid \<Rightarrow> bool) \<Rightarrow> date \<Rightarrow> user
   \<Rightarrow> sweep_report \<times> 'r auth_state \<Rightarrow> sweep_report \<times> 'r auth_state" where
  "anonymize_one R sha toLowerCase failed clearFailed now user rst =
     (case rst of (report, st) \<Rightarrow>
        let pendingWinners = find_docs (\<lambda>w. w_userId w = u_id user \<and> w_payoutStatus w = W_PENDING) (prize_winners (au_db st))
        in if failed (u_id user) then (report\<lparr>sw_errors := sw_errors report @ [u_id user]\<rparr>, st)
           else
             let st1 = anonymizeInTransaction sha toLowerCase user pendingWinners now st;
                 report1 = report\<lparr>sw_anonymizedCount := sw_anonymizedCount report + 1,
                   sw_pendingWinningsAuditCount := sw_pendingWinningsAuditCount report + (if pendingWinners = [] then 0 else 1)\<rparr>
             in (report1, if clearFailed (u_id user) then st1 else set_redis (store_clear R (u_id user) now (au_redis st1)) st1))"

definition user_anonymize_sweep ::
  "'r redis \<Rightarrow> (string \<Rightarrow> string) \<Rightarrow> (string \<Rightarrow> string) \<Rightarrow> (oid \<Rightarrow> bool) \<Rightarrow> (oid \<Rightarrow> bool) \<Rightarrow> date \<Rightarrow> 'r auth_state
   \<Rightarrow> sweep_report \<times> 'r auth_state" where
  "user_anonymize_sweep R sha toLowerCase failed clearFailed now st =
     (let candidates = find_docs (sweep_candidate_erasure now) (users (au_db st))
      in fold (anonymize_one R sha toLowerCase failed clearFailed now) candidates
           (\<lparr>sw_candidateCount = length candidates, sw_anonymizedCount = 0, sw_pendingWinningsAuditCount = 0, sw_errors = []\<rparr>, st))"

section \<open>The days that remain\<close>

lemma js_ceil_frac: "js_ceil (m, - int k) = - ((- m) div 2 ^ k)"
  by (simp add: js_ceil_def)

lemma ceil_between:
  assumes "0 < (K :: int)" "(q - 1) * K < m" "m \<le> q * K"
  shows "- ((- m) div K) = q"
proof -
  have "(- m) div K = - q" by (rule int_div_pos_eq [of _ _ _ "q * K - m"]) (use assms in \<open>simp_all add: algebra_simps\<close>)
  then show ?thesis by simp
qed

lemma twice_abs_le:
  assumes "2 * \<bar>x - y\<bar> \<le> (d :: int)"
  shows "2 * x \<le> 2 * y + d" and "2 * y - d \<le> 2 * x"
  using assms abs_ge_self [of "x - y"] abs_ge_minus_self [of "x - y"] by simp_all

text \<open>Rounding a quotient of at most thirty days to a double does not move it across a whole number.\<close>

lemma ceil_of_quotient:
  assumes n: "0 < n" "n \<le> 30 * d" and d: "0 < d" "d < 2 ^ 40"
  shows "js_ceil (js_divide (js_int n) (js_int d)) = - ((- n) div d)"
proof -
  obtain k where fl: "fl n d = (round_half_even (n * 2 ^ k) d, - int k)" and k: "2 ^ 52 * d \<le> n * 2 ^ k"
    by (rule fl_shape [OF n(1) d(1)]) (use n d in simp_all)
  define K M q where "K = (2 :: int) ^ k" and "M = round_half_even (n * K) d" and "q = - ((- n) div d)"
  have K: "0 < K" by (simp add: K_def)
  have "2 ^ 52 * d \<le> n * K" using k by (simp add: K_def)
  also have "\<dots> \<le> (30 * d) * K" using n(2) K by (simp add: mult_right_mono)
  finally have "d * 2 ^ 52 \<le> d * (30 * K)" by (simp add: ac_simps)
  then have "2 ^ 52 \<le> 30 * K" using d(1) by simp
  then have dK: "d < 2 * K" using d(2) by simp
  have err: "2 * \<bar>M * d - n * K\<bar> \<le> d" unfolding M_def by (rule round_half_even_error [OF d(1)])
  note M = twice_abs_le(1) [OF err] and M' = twice_abs_le(2) [OF err]
  have qd: "- n = (- q) * d + (- n) mod d" unfolding q_def by (simp add: div_mult_mod_eq)
  have md: "0 \<le> (- n) mod d" "(- n) mod d < d" using d(1) by simp_all
  then have n_le: "n \<le> q * d" and n_ge: "(q - 1) * d + 1 \<le> n" using qd by (simp_all add: algebra_simps)
  have "n * K \<le> q * d * K" using n_le K by (simp add: mult_right_mono)
  then have "(2 * M) * d \<le> (2 * (q * K) + 1) * d" using M by (simp add: algebra_simps)
  then have up: "M \<le> q * K" using d(1) by simp
  have "((q - 1) * d + 1) * K \<le> n * K" using n_ge K by (simp add: mult_right_mono)
  then have "2 * ((q - 1) * K) * d + 2 * K - d \<le> 2 * M * d" using M' by (simp add: algebra_simps)
  then have "(2 * ((q - 1) * K)) * d < (2 * M) * d" using dK by linarith
  then have low: "(q - 1) * K < M" using d(1) by (simp add: mult_less_cancel_right_pos)
  have "js_ceil (js_divide (js_int n) (js_int d)) = - ((- M) div K)"
    by (simp add: js_divide_def js_int_def fl js_ceil_frac M_def K_def)
  then show ?thesis using ceil_between [OF K low up] by (simp add: q_def)
qed

text \<open>
  The number of days the status shows is the exact number of days left, rounded up, although
  it is computed in floating point; it is zero exactly when the sweep may take the account.
\<close>

theorem days_remaining_exact:
  assumes "0 \<le> elapsed"
  shows "days_remaining elapsed = (if GRACE_PERIOD_MS \<le> elapsed then 0 else - ((elapsed - GRACE_PERIOD_MS) div MS_PER_DAY)) \<and>
    (days_remaining elapsed = 0 \<longleftrightarrow> GRACE_PERIOD_MS \<le> elapsed) \<and> days_remaining elapsed \<le> GRACE_PERIOD_DAYS"
proof (cases "GRACE_PERIOD_MS \<le> elapsed")
  case True
  then show ?thesis by (simp add: days_remaining_def GRACE_PERIOD_MS_def GRACE_PERIOD_DAYS_def MS_PER_DAY_def)
next
  case False
  let ?n = "GRACE_PERIOD_DAYS * MS_PER_DAY - elapsed"
  have n: "0 < ?n" "?n \<le> 30 * MS_PER_DAY" using False assms
    by (simp_all add: GRACE_PERIOD_MS_def GRACE_PERIOD_DAYS_def MS_PER_DAY_def)
  have "js_ceil (js_divide (js_int ?n) (js_int MS_PER_DAY)) = - ((- ?n) div MS_PER_DAY)"
    by (rule ceil_of_quotient [OF n]) (simp_all add: MS_PER_DAY_def)
  moreover have "1 \<le> - ((- ?n) div MS_PER_DAY)" "- ((- ?n) div MS_PER_DAY) \<le> 30"
    using n by (simp_all add: MS_PER_DAY_def)
  moreover have "- ?n = elapsed - GRACE_PERIOD_MS" by (simp add: GRACE_PERIOD_MS_def GRACE_PERIOD_DAYS_def MS_PER_DAY_def)
  ultimately show ?thesis using False n by (simp add: days_remaining_def Let_def GRACE_PERIOD_DAYS_def)
qed

theorem days_remaining_exact_witness: "days_remaining 86400001 = 29 \<and> days_remaining (30 * 86400000) = 0"
  using days_remaining_exact [of 86400001] days_remaining_exact [of "30 * 86400000"]
  by (simp add: GRACE_PERIOD_MS_def MS_PER_DAY_def)

section \<open>Request, cancellation and hold\<close>

lemma update_user_simps [simp]: "au_sessions (update_user i f st) = au_sessions st" "au_redis (update_user i f st) = au_redis st"
  "au_otp (update_user i f st) = au_otp st" "coin_txs (au_db (update_user i f st)) = coin_txs (au_db st)"
  "users (au_db (update_user i f st)) = update_first (\<lambda>u. u_id u = i) f (users (au_db st))"
  by (simp_all add: update_user_def au_redis_def findOneAndUpdate_def)

lemma set_redis_simps [simp]: "au_sessions (set_redis r st) = au_sessions st" "au_redis (set_redis r st) = r"
  "au_db (set_redis r st) = au_db st"
  by (simp_all add: set_redis_def au_redis_def)

lemma find_user_update:
  assumes "\<And>u. u_id (f u) = u_id u"
  shows "find_user i (update_user j f st) = (if i = j then map_option f (find_user i st) else find_user i st)"
proof (cases "i = j")
  case True
  then show ?thesis using findOne_update_first [of "\<lambda>u. u_id u = i" f] assms by (simp add: find_user_def)
next
  case False
  have "findOne (\<lambda>u. u_id u = i) (update_first (\<lambda>u. u_id u = j) f us) = findOne (\<lambda>u. u_id u = i) us" for us
    unfolding findOne_def by (induction us) (use assms False in auto)
  then show ?thesis using False by (simp add: find_user_def)
qed

lemma revokeAllForUser_all: "\<forall>x \<in> set (snd (revokeAllForUser userId now ss)). ls_userId x = userId \<longrightarrow> \<not> session_active x"
proof
  fix x
  assume "x \<in> set (snd (revokeAllForUser userId now ss))"
  then obtain y where "x = (if ls_userId y = userId \<and> session_active y then revoke_row now y else y)"
    unfolding revokeAllForUser_def updateMany_def snd_conv set_map by blast
  then show "ls_userId x = userId \<longrightarrow> \<not> session_active x"
    by (cases "ls_userId y = userId \<and> session_active y") simp_all
qed

lemma erasure_request_first:
  assumes "find_user userId st = Some user" "u_anonymizedAt user = None" "u_deletedAt user = None"
  shows "erasure_request R userId now st =
    (Inr (toStatus now (Some now) False None),
     set_redis (snd (store_forceLogout R userId now (au_redis st)))
       (with_sessions (snd (revokeAllForUser userId now (au_sessions st)))
         (update_user userId (\<lambda>u. u\<lparr>u_deletedAt := Some now\<rparr>) st)))"
  using assms by (simp add: erasure_request_def Let_def)

text \<open>
  A first request starts the thirty days, leaves the user no live session and makes every
  token issued so far useless from then on; asking again changes nothing.
\<close>

theorem erasure_request_effect:
  fixes st :: "'r auth_state"
  assumes redis: "redis_server R live" and jose: "jose_laws J"
    and user: "find_user userId st = Some user" "u_anonymizedAt user = None" "u_deletedAt user = None"
    and times: "t \<le> now" "now \<le> later"
  shows "fst (erasure_request R userId now st) = Inr (toStatus now (Some now) False None) \<and>
    map_option u_deletedAt (find_user userId (snd (erasure_request R userId now st))) = Some (Some now) \<and>
    (\<forall>x \<in> set (au_sessions (snd (erasure_request R userId now st))). ls_userId x = userId \<longrightarrow> \<not> session_active x) \<and>
    requireUser J R later (Some (signAccessToken J t userId jti tv)) (snd (erasure_request R userId now st)) = Inl UnauthorizedError \<and>
    snd (erasure_request R userId later (snd (erasure_request R userId now st))) = snd (erasure_request R userId now st)"
proof -
  let ?st = "snd (erasure_request R userId now st)"
  have st: "?st = set_redis (snd (store_forceLogout R userId now (au_redis st)))
       (with_sessions (snd (revokeAllForUser userId now (au_sessions st)))
         (update_user userId (\<lambda>u. u\<lparr>u_deletedAt := Some now\<rparr>) st))"
    by (simp add: erasure_request_first [OF user])
  have fu: "find_user userId ?st = Some (user\<lparr>u_deletedAt := Some now\<rparr>)"
    using find_user_update [of "\<lambda>u. u\<lparr>u_deletedAt := Some now\<rparr>" userId userId st] user(1)
    by (simp add: st find_user_def)
  have dead: "\<forall>x \<in> set (au_sessions ?st). ls_userId x = userId \<longrightarrow> \<not> session_active x"
    unfolding st set_redis_simps with_sessions_simps by (rule revokeAllForUser_all)
  have cut: "getCutoff R userId later (au_redis ?st) = (if later < now + REFRESH_TTL_SEC * 1000 then Some (unix_seconds now) else None)"
    using cutoff_after_force [OF redis times(2)] by (simp add: st)
  have again: "snd (erasure_request R userId later ?st) = ?st"
    using fu user(2) by (simp add: erasure_request_def)
  have first: "fst (erasure_request R userId now st) = Inr (toStatus now (Some now) False None)"
    by (simp only: erasure_request_first [OF user] fst_conv)
  have del: "map_option u_deletedAt (find_user userId ?st) = Some (Some now)" unfolding fu by simp
  show ?thesis by (intro conjI first del dead tokens_refused(1) [OF jose times(1) cut] again)
qed

theorem erasure_request_effect_witness:
  "requireUser payload_jose space_redis 9000 (Some (signAccessToken payload_jose 0 1 ''j'' 0))
     (snd (erasure_request space_redis 1 5000 (sample_auth [sample_user 1 0 []] [sample_session ''j'' None]))) = Inl UnauthorizedError"
proof -
  have u: "find_user 1 (sample_auth [sample_user 1 0 []] [sample_session ''j'' None]) = Some (sample_user 1 0 [])" by code_simp
  show ?thesis
    using erasure_request_effect [OF space.redis_server_axioms payload.jose_laws_axioms u, of 0 5000 9000 "''j''" 0]
    by (simp add: sample_user_def)
qed

lemma cutoff_after_clear:
  assumes "redis_server R live"
  shows "getCutoff R userId now (store_clear R userId now r) = None"
  by (simp add: getCutoff_def store_clear_def redis_server.get [OF assms] redis_server.del [OF assms])

text \<open>
  A user can undo a logout that an admin forced: requesting and cancelling an erasure deletes
  the cutoff, and a token issued before the forced logout opens the routes again.
\<close>

theorem cancel_undoes_forced_logout:
  fixes st :: "'r auth_state" and R :: "'r redis" and userId :: oid and t0 t1 t2 :: date
  defines "st1 \<equiv> snd (admin_forceLogout R userId t0 st)"
  defines "st2 \<equiv> snd (erasure_request R userId t1 st1)"
  defines "st3 \<equiv> snd (erasure_cancel R userId t2 st2)"
  assumes redis: "redis_server R live" and jose: "jose_laws J"
    and user: "find_user userId st = Some user" "u_anonymizedAt user = None" "u_deletedAt user = None"
    and fresh: "unix_seconds t2 < unix_seconds t + ACCESS_TTL_SEC" "jti \<noteq> []"
  shows "requireUser J R t2 (Some (signAccessToken J t userId jti (u_tokenVersion user))) st3 =
    Inr (\<lparr>ac_sub = userId, ac_jti = jti, ac_tokenVersion = u_tokenVersion user, ac_iat = unix_seconds t\<rparr>, u_subscriptions user)"
proof -
  have 1: "find_user userId st1 = Some user"
    using user(1) by (simp add: st1_def admin_forceLogout_def find_user_def split_beta Let_def split: option.splits)
  have 2: "find_user userId st2 = Some (user\<lparr>u_deletedAt := Some t1\<rparr>)"
    using find_user_update [of "\<lambda>u. u\<lparr>u_deletedAt := Some t1\<rparr>" userId userId st1] 1
    by (simp add: st2_def erasure_request_first [OF 1 user(2,3)] find_user_def)
  have 3: "st3 = set_redis (store_clear R userId t2 (au_redis st2))
      (update_user userId (\<lambda>u. u\<lparr>u_deletedAt := None, u_erasureHold := None\<rparr>) st2)"
    using 2 user(2) by (simp add: st3_def erasure_cancel_def Let_def)
  have cut: "getCutoff R userId t2 (au_redis st3) = None" unfolding 3 by (simp add: cutoff_after_clear [OF redis])
  have f3: "find_user userId st3 = Some (user\<lparr>u_deletedAt := None, u_erasureHold := None\<rparr>)"
    using find_user_update [of "\<lambda>u. u\<lparr>u_deletedAt := None, u_erasureHold := None\<rparr>" userId userId st2] 2
    unfolding 3 by (simp add: find_user_def)
  show ?thesis
    using cut f3 fresh
    by (simp add: requireUser_def jose_laws.verify_access [OF jose] assertNotForceLoggedOut_def find_user_def)
qed

theorem cancel_undoes_forced_logout_witness:
  "requireUser payload_jose space_redis 9000 (Some (signAccessToken payload_jose 1000 1 ''j'' 0))
     (snd (erasure_cancel space_redis 1 9000 (snd (erasure_request space_redis 1 8000
       (snd (admin_forceLogout space_redis 1 7000 (sample_auth [sample_user 1 0 []] [])))))))
   = Inr (\<lparr>ac_sub = 1, ac_jti = ''j'', ac_tokenVersion = 0, ac_iat = 1\<rparr>, [])"
proof -
  have u: "find_user 1 (sample_auth [sample_user 1 0 []] []) = Some (sample_user 1 0 [])" by code_simp
  show ?thesis
    using cancel_undoes_forced_logout [OF space.redis_server_axioms payload.jose_laws_axioms u, of 9000 1000 "''j''" 8000 7000]
    by (simp add: sample_user_def unix_seconds_def ACCESS_TTL_SEC_def)
qed

text \<open>
  A hold stops the clock: from the moment it is put on until it is cleared the sweep does not
  take the account, and the time that was left when it was put on is left when it is cleared.
\<close>

theorem hold_keeps_the_grace:
  fixes st :: "'r auth_state" and userId actorId :: oid and t1 t2 :: date and reason :: string
  assumes user: "find_user userId st = Some user" "u_deletedAt user = Some d" "u_anonymizedAt user = None" "\<not> hold_active user"
  defines "st1 \<equiv> snd (applyErasureHold userId reason actorId t1 st)"
  shows "\<exists>u. find_user userId st1 = Some u \<and> (\<forall>now. \<not> sweep_candidate_erasure now u) \<and>
    fst (clearErasureHold userId t2 st1) = Inr (t2, d + (t2 - t1)) \<and>
    (\<exists>u'. find_user userId (snd (clearErasureHold userId t2 st1)) = Some u' \<and> \<not> hold_active u' \<and>
       (\<exists>d'. u_deletedAt u' = Some d' \<and> days_remaining (t2 - d') = days_remaining (t1 - d)))"
proof -
  let ?hold = "Some \<lparr>eh_active = True, eh_reason = Some reason, eh_by = Some actorId, eh_at = Some t1\<rparr>"
  have st1: "st1 = update_user userId (\<lambda>u. u\<lparr>u_erasureHold := ?hold\<rparr>) st"
    using user by (simp add: st1_def applyErasureHold_def)
  have f1: "find_user userId st1 = Some (user\<lparr>u_erasureHold := ?hold\<rparr>)"
    using find_user_update [of "\<lambda>u. u\<lparr>u_erasureHold := ?hold\<rparr>" userId userId st] user(1) by (simp add: st1)
  have c: "clearErasureHold userId t2 st1 = (Inr (t2, d + (t2 - t1)),
      update_user userId (\<lambda>u. u\<lparr>u_deletedAt := Some (d + (t2 - t1)), u_erasureHold := None\<rparr>) st1)"
    using f1 user(2) by (simp add: clearErasureHold_def Let_def)
  have f2: "find_user userId (snd (clearErasureHold userId t2 st1)) =
      Some (user\<lparr>u_erasureHold := None, u_deletedAt := Some (d + (t2 - t1))\<rparr>)"
    using find_user_update [of "\<lambda>u. u\<lparr>u_deletedAt := Some (d + (t2 - t1)), u_erasureHold := None\<rparr>" userId userId st1] f1
    by (simp add: c)
  have "t2 - (d + (t2 - t1)) = t1 - d" by simp
  then show ?thesis
    using f1 f2 c by (simp add: sweep_candidate_erasure_def hold_active_def)
qed

theorem hold_keeps_the_grace_witness:
  "fst (clearErasureHold 1 90 (snd (applyErasureHold 1 ''r'' 2 50 (sample_auth [(sample_user 1 0 [])\<lparr>u_deletedAt := Some 10\<rparr>] [])))) = Inr (90, 50)"
proof -
  let ?u = "(sample_user 1 0 [])\<lparr>u_deletedAt := Some 10\<rparr>"
  have u: "find_user 1 (sample_auth [?u] []) = Some ?u" by code_simp
  show ?thesis
    using hold_keeps_the_grace [OF u, where d = 10 and ?t1.0 = 50 and ?t2.0 = 90 and reason = "''r''" and actorId = 2] by (auto simp: sample_user_def hold_active_def)
qed

section \<open>What a sweep does\<close>

lemma anonymize_patch_fields [simp]:
  "u_id (anonymize_patch sha lc user now u) = u_id u" "u_coinBalance (anonymize_patch sha lc user now u) = u_coinBalance u"
  "u_anonymizedAt (anonymize_patch sha lc user now u) = Some now" "u_deletedAt (anonymize_patch sha lc user now u) = u_deletedAt u"
  by (simp_all add: anonymize_patch_def)

lemma anonymized_no_candidate [simp]: "u_anonymizedAt u \<noteq> None \<Longrightarrow> \<not> sweep_candidate_erasure t u"
  by (simp add: sweep_candidate_erasure_def)

lemma donation_tombstone_money [simp]: "d_amount (donation_tombstone d) = d_amount d" "d_status (donation_tombstone d) = d_status d"
  "d_userId (donation_tombstone d) = d_userId d" "d_capturedAt (donation_tombstone d) = d_capturedAt d"
  by (simp_all add: donation_tombstone_def)

text \<open>One candidate, field by field.\<close>

lemma anonymize_one_fields:
  fixes report :: sweep_report and st :: "'r auth_state"
  assumes out: "out = anonymize_one R sha lc failed clearFailed now c (report, st)"
    and d: "distinct (map u_id (users (au_db st)))"
  shows "users (au_db (snd out)) =
      map (\<lambda>u. if u_id u = u_id c \<and> \<not> failed (u_id c) then anonymize_patch sha lc c now u else u) (users (au_db st))"
    and "coin_txs (au_db (snd out)) = coin_txs (au_db st)"
    and "donations (au_db (snd out)) =
      map (\<lambda>x. if d_userId x = Some (u_id c) \<and> \<not> failed (u_id c) then donation_tombstone x else x) (donations (au_db st))"
    and "au_sessions (snd out) = filter (\<lambda>x. ls_userId x \<noteq> u_id c \<or> failed (u_id c)) (au_sessions st)"
    and "sw_candidateCount (fst out) = sw_candidateCount report"
    and "sw_anonymizedCount (fst out) = sw_anonymizedCount report + (if failed (u_id c) then 0 else 1)"
    and "sw_errors (fst out) = sw_errors report @ (if failed (u_id c) then [u_id c] else [])"
  using d by (simp_all add: out anonymize_one_def anonymizeInTransaction_def Let_def updateOne_def updateMany_def
      update_first_key deleteAllForUser_def deleteMany_def)

lemma distinct_ids_map_patch:
  "map u_id (map (\<lambda>u. if P u then anonymize_patch sha lc (f u) now u else u) us) = map u_id us"
  by simp

definition erased_by :: "(oid \<Rightarrow> bool) \<Rightarrow> user list \<Rightarrow> oid \<Rightarrow> bool" where
  "erased_by failed cs i \<longleftrightarrow> i \<in> u_id ` set cs \<and> \<not> failed i"

text \<open>All candidates: each of them is patched once, from its own snapshot, and nothing else is touched.\<close>

lemma anonymize_fold:
  fixes report :: sweep_report and st :: "'r auth_state"
  assumes "distinct (map u_id (users (au_db st)))" and "distinct (map u_id cs)"
    and out: "out = fold (anonymize_one R sha lc failed clearFailed now) cs (report, st)"
  shows "users (au_db (snd out)) = map (\<lambda>u. if erased_by failed cs (u_id u)
           then anonymize_patch sha lc (the (findOne (\<lambda>c. u_id c = u_id u) cs)) now u else u) (users (au_db st)) \<and>
    coin_txs (au_db (snd out)) = coin_txs (au_db st) \<and>
    donations (au_db (snd out)) =
      map (\<lambda>x. if \<exists>i. d_userId x = Some i \<and> erased_by failed cs i then donation_tombstone x else x) (donations (au_db st)) \<and>
    au_sessions (snd out) = filter (\<lambda>x. \<not> erased_by failed cs (ls_userId x)) (au_sessions st) \<and>
    sw_candidateCount (fst out) = sw_candidateCount report \<and>
    sw_anonymizedCount (fst out) = sw_anonymizedCount report + length (filter (\<lambda>c. \<not> failed (u_id c)) cs) \<and>
    sw_errors (fst out) = sw_errors report @ map u_id (filter (\<lambda>c. failed (u_id c)) cs)"
  using assms(1,2) unfolding out
proof (induction cs arbitrary: report st)
  case Nil
  then show ?case by (simp add: erased_by_def)
next
  case (Cons c cs)
  obtain report1 st1 where one: "anonymize_one R sha lc failed clearFailed now c (report, st) = (report1, st1)"
    by (cases "anonymize_one R sha lc failed clearFailed now c (report, st)")
  note f = anonymize_one_fields [OF one [symmetric] Cons.prems(1), unfolded snd_conv fst_conv]
  have d1: "distinct (map u_id (users (au_db st1)))" unfolding f(1) distinct_ids_map_patch by (rule Cons.prems(1))
  have d2: "distinct (map u_id cs)" and new: "u_id c \<notin> u_id ` set cs" using Cons.prems(2) by simp_all
  note IH = Cons.IH [OF d1 d2, of report1]
  have not_c: "\<not> erased_by failed cs (u_id c)" using new by (simp add: erased_by_def)
  have er: "erased_by failed (c # cs) i \<longleftrightarrow> (i = u_id c \<and> \<not> failed (u_id c)) \<or> erased_by failed cs i" for i
    by (auto simp: erased_by_def)
  have fnd: "findOne (\<lambda>x. u_id x = i) (c # cs) = (if u_id c = i then Some c else findOne (\<lambda>x. u_id x = i) cs)" for i
    by (simp add: findOne_def)
  have fold: "fold (anonymize_one R sha lc failed clearFailed now) (c # cs) (report, st) =
      fold (anonymize_one R sha lc failed clearFailed now) cs (report1, st1)" by (simp add: one)
  have us: "(if erased_by failed cs (u_id v) then anonymize_patch sha lc (the (findOne (\<lambda>c. u_id c = u_id v) cs)) now v else v) =
      (if erased_by failed (c # cs) (u_id u) then anonymize_patch sha lc (the (findOne (\<lambda>c. u_id c = u_id u) (c # cs))) now u else u)"
    if "v = (if u_id u = u_id c \<and> \<not> failed (u_id c) then anonymize_patch sha lc c now u else u)" for u v
    using that not_c by (cases "u_id u = u_id c") (simp_all add: er fnd)
  have ds: "(if \<exists>i. d_userId y = Some i \<and> erased_by failed cs i then donation_tombstone y else y) =
      (if \<exists>i. d_userId x = Some i \<and> erased_by failed (c # cs) i then donation_tombstone x else x)"
    if "y = (if d_userId x = Some (u_id c) \<and> \<not> failed (u_id c) then donation_tombstone x else x)" for x y
    using that not_c by (cases "d_userId x = Some (u_id c)") (auto simp: er)
  have A: "map (\<lambda>v. if erased_by failed cs (u_id v) then anonymize_patch sha lc (the (findOne (\<lambda>c. u_id c = u_id v) cs)) now v else v) (users (au_db st1)) =
      map (\<lambda>u. if erased_by failed (c # cs) (u_id u) then anonymize_patch sha lc (the (findOne (\<lambda>c. u_id c = u_id u) (c # cs))) now u else u) (users (au_db st))"
    unfolding f(1) map_map comp_def by (rule map_cong [OF refl], rule us [OF refl])
  have B: "map (\<lambda>y. if \<exists>i. d_userId y = Some i \<and> erased_by failed cs i then donation_tombstone y else y) (donations (au_db st1)) =
      map (\<lambda>x. if \<exists>i. d_userId x = Some i \<and> erased_by failed (c # cs) i then donation_tombstone x else x) (donations (au_db st))"
    unfolding f(3) map_map comp_def by (rule map_cong [OF refl], rule ds [OF refl])
  have C: "filter (\<lambda>x. \<not> erased_by failed cs (ls_userId x)) (au_sessions st1) =
      filter (\<lambda>x. \<not> erased_by failed (c # cs) (ls_userId x)) (au_sessions st)"
    unfolding f(4) filter_filter by (rule filter_cong [OF refl]) (auto simp: er)
  show ?case
    unfolding fold using IH unfolding A B C f(2,5,6,7) by simp
qed

lemma sweep_one_user:
  assumes "distinct (map u_id us)" "u \<in> set us"
  shows "erased_by failed (filter P us) (u_id u) \<longleftrightarrow> P u \<and> \<not> failed (u_id u)"
    and "P u \<Longrightarrow> findOne (\<lambda>c. u_id c = u_id u) (filter P us) = Some u"
proof -
  have "v = u" if "v \<in> set us" "u_id v = u_id u" for v using distinct_map_eq [OF assms(1) that(1) assms(2) that(2)] .
  then show "erased_by failed (filter P us) (u_id u) \<longleftrightarrow> P u \<and> \<not> failed (u_id u)"
    using assms(2) by (auto simp: erased_by_def image_iff)
  show "P u \<Longrightarrow> findOne (\<lambda>c. u_id c = u_id u) (filter P us) = Some u"
    by (rule findOne_key) (use assms in \<open>simp_all add: distinct_map_filter\<close>)
qed

lemma filter_map_erased:
  assumes "\<And>u. u \<in> set us \<Longrightarrow> Q (g u) \<longleftrightarrow> Q u \<and> P u" "\<And>u. u_id (g u) = u_id u"
  shows "map u_id (filter Q (map g us)) = map u_id (filter P (filter Q us))"
  using assms by (induction us) auto

text \<open>C19: 
  A sweep anonymises exactly the users whose grace period is over, who are not held and whose
  transaction goes through; it keeps the ledger and the money of every donation, ends every
  session of the users it took, counts what it did, and what it leaves due are its errors.
\<close>

theorem sweep_effect:
  fixes st :: "'r auth_state"
  assumes inv: "coin_inv (users (au_db st)) (coin_txs (au_db st))"
    and run: "user_anonymize_sweep R sha lc failed clearFailed now st = (report, st')"
  shows "users (au_db st') = map (\<lambda>u. if sweep_candidate_erasure now u \<and> \<not> failed (u_id u)
      then anonymize_patch sha lc u now u else u) (users (au_db st)) \<and>
    coin_inv (users (au_db st')) (coin_txs (au_db st')) \<and>
    map (\<lambda>d. (d_userId d, d_amount d, d_status d, d_capturedAt d)) (donations (au_db st')) =
      map (\<lambda>d. (d_userId d, d_amount d, d_status d, d_capturedAt d)) (donations (au_db st)) \<and>
    list_all (\<lambda>u. sweep_candidate_erasure now u \<and> \<not> failed (u_id u) \<longrightarrow>
      \<not> list_ex (\<lambda>x. ls_userId x = u_id u) (au_sessions st')) (users (au_db st)) \<and>
    sw_anonymizedCount report + length (sw_errors report) = sw_candidateCount report \<and>
    map u_id (find_docs (sweep_candidate_erasure now) (users (au_db st'))) = sw_errors report"
proof -
  let ?us = "users (au_db st)" and ?P = "sweep_candidate_erasure now"
  let ?g = "\<lambda>u. if ?P u \<and> \<not> failed (u_id u) then anonymize_patch sha lc u now u else u"
  have d: "distinct (map u_id ?us)" using inv by (simp add: coin_inv_def)
  then have dc: "distinct (map u_id (filter ?P ?us))" by (rule distinct_map_filter)
  let ?r0 = "\<lparr>sw_candidateCount = length (filter ?P ?us), sw_anonymizedCount = 0, sw_pendingWinningsAuditCount = 0, sw_errors = []\<rparr>"
  have "(report, st') = fold (anonymize_one R sha lc failed clearFailed now) (filter ?P ?us) (?r0, st)"
    using run by (simp add: user_anonymize_sweep_def find_docs_def Let_def)
  note f = anonymize_fold [OF d dc this, unfolded fst_conv snd_conv]
  have us: "users (au_db st') = map ?g ?us"
    unfolding conjunct1 [OF f] by (rule map_cong [OF refl]) (simp add: sweep_one_user [OF d])
  have "\<forall>u \<in> set (map ?g ?us). u_coinBalance u = ledger_sum (u_id u) (coin_txs (au_db st))"
    using inv by (simp add: coin_inv_def image_iff) auto
  then have "coin_inv (map ?g ?us) (coin_txs (au_db st))"
    using inv unfolding coin_inv_def distinct_ids_map_patch by blast
  then have 1: "coin_inv (users (au_db st')) (coin_txs (au_db st'))" using f us by simp
  have 2: "map (\<lambda>d. (d_userId d, d_amount d, d_status d, d_capturedAt d)) (donations (au_db st')) =
      map (\<lambda>d. (d_userId d, d_amount d, d_status d, d_capturedAt d)) (donations (au_db st))"
    using f by simp
  have 3: "list_all (\<lambda>u. ?P u \<and> \<not> failed (u_id u) \<longrightarrow> \<not> list_ex (\<lambda>x. ls_userId x = u_id u) (au_sessions st')) ?us"
    using f sweep_one_user(1) [OF d, of _ failed ?P] by (auto simp: list_all_iff list_ex_iff)
  have 4: "sw_anonymizedCount report + length (sw_errors report) = sw_candidateCount report"
    using f sum_length_filter_compl [of "\<lambda>c. failed (u_id c)" "filter ?P ?us"] by simp
  have "map u_id (filter ?P (map ?g ?us)) = map u_id (filter (\<lambda>u. failed (u_id u)) (filter ?P ?us))"
    by (rule filter_map_erased) auto
  then have 5: "map u_id (find_docs ?P (users (au_db st'))) = sw_errors report"
    using f by (simp add: us find_docs_def)
  show ?thesis by (intro conjI us 1 2 3 4 5)
qed

theorem sweep_effect_witness:
  "map u_anonymizedAt (users (au_db (snd (user_anonymize_sweep space_redis id id (\<lambda>_. False) (\<lambda>_. False) (40 * 86400000)
     (sample_auth [(sample_user 1 0 [])\<lparr>u_deletedAt := Some 10\<rparr>, sample_user 2 0 []] [sample_session ''j'' None]))))) =
   [Some (40 * 86400000), None]"
proof -
  let ?us = "[(sample_user 1 0 [])\<lparr>u_deletedAt := Some 10\<rparr>, sample_user 2 0 []]"
  let ?st = "sample_auth ?us [sample_session ''j'' None]"
  have inv: "coin_inv (users (au_db ?st)) (coin_txs (au_db ?st))" by code_simp
  show ?thesis
    using sweep_effect [OF inv prod.collapse [symmetric], of space_redis id id "\<lambda>_. False" "\<lambda>_. False" "40 * 86400000"]
    by (simp add: sample_auth_def sweep_candidate_erasure_def sample_user_def hold_active_def GRACE_PERIOD_MS_def)
qed

section \<open>Between the read and the transaction\<close>

lemma anonymize_one_done:
  fixes st :: "'r auth_state"
  assumes "distinct (map u_id (users (au_db st)))" "find_user (u_id user) st = Some v" "\<not> failed (u_id user)"
  shows "find_user (u_id user) (snd (anonymize_one R sha lc failed clearFailed now user (report, st))) =
    Some (anonymize_patch sha lc user now v)"
proof -
  let ?f = "\<lambda>u. if u_id u = u_id user \<and> \<not> failed (u_id user) then anonymize_patch sha lc user now u else u"
  have "findOne (\<lambda>u. u_id u = u_id user) (map ?f us) = map_option ?f (findOne (\<lambda>u. u_id u = u_id user) us)" for us
    unfolding findOne_def by (induction us) auto
  moreover have "u_id v = u_id user" using assms(2) findOne_SomeD unfolding find_user_def by fastforce
  ultimately show ?thesis
    using assms unfolding find_user_def anonymize_one_fields(1) [OF refl assms(1)] by simp
qed

lemma distinct_ids_update_user:
  "(\<And>u. u_id (f u) = u_id u) \<Longrightarrow> distinct (map u_id (users (au_db (update_user i f st)))) = distinct (map u_id (users (au_db st)))"
  by (simp add: map_update_first)

text \<open>
  The transaction of the sweep matches the user by id only. A user who cancels, or an account
  an admin puts on hold, after the candidates were read and before its turn comes, gets the
  confirmation and is anonymised all the same.
\<close>

theorem cancelled_erasure_still_anonymized:
  fixes st :: "'r auth_state" and R :: "'r redis" and user :: user and t :: date and reason :: string and actorId :: oid
  defines "canceled \<equiv> erasure_cancel R (u_id user) t st" and "held \<equiv> applyErasureHold (u_id user) reason actorId t st"
  assumes ids: "distinct (map u_id (users (au_db st)))" and user: "find_user (u_id user) st = Some user"
    and due: "sweep_candidate_erasure now user" and ok: "\<not> failed (u_id user)"
  shows "fst canceled = Inr (toStatus t None False None) \<and> fst held = Inr (t, reason) \<and>
    list_all (\<lambda>before. find_docs (\<lambda>u. u_id u = u_id user \<and> sweep_candidate_erasure now u) (users (au_db before)) = [] \<and>
      (case find_user (u_id user) (snd (anonymize_one R sha lc failed clearFailed now user (report, before))) of
         None \<Rightarrow> False
       | Some u \<Rightarrow> u_anonymizedAt u = Some now \<and> u_phone u = hashPhoneForTombstone sha (u_phone user) (u_id user)))
      [snd canceled, snd held]"
proof -
  obtain d where u: "u_deletedAt user = Some d" "u_anonymizedAt user = None" "\<not> hold_active user"
    using due by (auto simp: sweep_candidate_erasure_def split: option.splits)
  have main: "find_docs (\<lambda>u. u_id u = u_id user \<and> sweep_candidate_erasure now u) (users (au_db before)) = [] \<and>
      (case find_user (u_id user) (snd (anonymize_one R sha lc failed clearFailed now user (report, before))) of
         None \<Rightarrow> False
       | Some u \<Rightarrow> u_anonymizedAt u = Some now \<and> u_phone u = hashPhoneForTombstone sha (u_phone user) (u_id user))"
    if db: "users (au_db before) = users (au_db (update_user (u_id user) f st))"
      and f: "\<And>u. u_id (f u) = u_id u" "\<not> sweep_candidate_erasure now (f user)" for before :: "'r auth_state" and f
  proof -
    have d: "distinct (map u_id (users (au_db before)))" unfolding db distinct_ids_update_user [OF f(1)] by (rule ids)
    have fu: "find_user (u_id user) before = Some (f user)"
      using find_user_update [of f "u_id user" "u_id user" st] f(1) user db by (simp add: find_user_def)
    have "\<not> sweep_candidate_erasure now v" if "v \<in> set (users (au_db before))" "u_id v = u_id user" for v
      using findOne_key [OF d that(1)] fu f(2) that(2) by (simp add: find_user_def)
    then have e: "find_docs (\<lambda>u. u_id u = u_id user \<and> sweep_candidate_erasure now u) (users (au_db before)) = []"
      by (auto simp: find_docs_def filter_empty_conv)
    show ?thesis unfolding anonymize_one_done [where failed = failed, OF d fu ok] using e by (simp add: anonymize_patch_def)
  qed
  have 1: "fst canceled = Inr (toStatus t None False None)" and 2: "fst held = Inr (t, reason)"
    and 3: "users (au_db (snd canceled)) = users (au_db (update_user (u_id user) (\<lambda>u. u\<lparr>u_deletedAt := None, u_erasureHold := None\<rparr>) st))"
    and 4: "users (au_db (snd held)) = users (au_db (update_user (u_id user) (\<lambda>u. u\<lparr>u_erasureHold :=
               Some \<lparr>eh_active = True, eh_reason = Some reason, eh_by = Some actorId, eh_at = Some t\<rparr>\<rparr>) st))"
    using user u by (simp_all add: canceled_def held_def erasure_cancel_def applyErasureHold_def Let_def)
  show ?thesis
    using 1 2 main [OF 3] main [OF 4] u by (simp add: sweep_candidate_erasure_def hold_active_def)
qed

theorem cancelled_erasure_still_anonymized_witness:
  "fst (erasure_cancel space_redis 1 (40 * 86400000) (sample_auth [(sample_user 1 0 [])\<lparr>u_deletedAt := Some 10\<rparr>] []))
     = Inr (toStatus (40 * 86400000) None False None) \<and>
   (case find_user 1 (snd (anonymize_one space_redis id id (\<lambda>_. False) (\<lambda>_. False) (40 * 86400000)
       ((sample_user 1 0 [])\<lparr>u_deletedAt := Some 10\<rparr>)
       (\<lparr>sw_candidateCount = 1, sw_anonymizedCount = 0, sw_pendingWinningsAuditCount = 0, sw_errors = []\<rparr>,
        snd (erasure_cancel space_redis 1 (40 * 86400000) (sample_auth [(sample_user 1 0 [])\<lparr>u_deletedAt := Some 10\<rparr>] []))))) of
      None \<Rightarrow> False | Some u \<Rightarrow> u_anonymizedAt u = Some (40 * 86400000))"
proof -
  let ?u = "(sample_user 1 0 [])\<lparr>u_deletedAt := Some 10\<rparr>"
  let ?st = "sample_auth [?u] []"
  have d: "distinct (map u_id (users (au_db ?st)))" by code_simp
  have f: "find_user (u_id ?u) ?st = Some ?u" by code_simp
  have c: "sweep_candidate_erasure (40 * 86400000) ?u" by code_simp
  have i: "u_id ?u = 1" by (simp add: sample_user_def)
  show ?thesis
    using cancelled_erasure_still_anonymized [OF d f c, of "\<lambda>_. False" space_redis "40 * 86400000" "''r''" 9 id id "\<lambda>_. False"
      "\<lparr>sw_candidateCount = 1, sw_anonymizedCount = 0, sw_pendingWinningsAuditCount = 0, sw_errors = []\<rparr>"]
    unfolding i by (simp split: option.splits)
qed

lemma requireUser_access:
  assumes "jose_laws J" "getCutoff R i now (au_redis st) = None" "find_user i st = Some v" "tv = u_tokenVersion v" "jti \<noteq> []"
  shows "unix_seconds now < unix_seconds t + ACCESS_TTL_SEC \<Longrightarrow> requireUser J R now (Some (signAccessToken J t i jti tv)) st =
      Inr (\<lparr>ac_sub = i, ac_jti = jti, ac_tokenVersion = tv, ac_iat = unix_seconds t\<rparr>, u_subscriptions v)"
    and "unix_seconds now < unix_seconds t + REFRESH_TTL_SEC \<Longrightarrow> requireUser J R now (Some (signRefreshToken J t i jti family tv)) st =
      Inr (\<lparr>ac_sub = i, ac_jti = jti, ac_tokenVersion = tv, ac_iat = unix_seconds t\<rparr>, u_subscriptions v)"
  using assms(2-5) unfolding find_user_def
  by (simp_all add: requireUser_def jose_laws.verify_access [OF assms(1)] jose_laws.verify_refresh_as_access [OF assms(1)]
      assertNotForceLoggedOut_def)

text \<open>
  An anonymised user keeps access. The sweep deletes the sessions and lifts the cutoff of the
  erasure request, and the middleware looks only at the token version, which the sweep leaves
  alone: a token the user obtained by signing in during the grace period opens the routes
  after the sweep, an access token for up to fifteen minutes and a refresh token for thirty days.
\<close>

theorem anonymized_user_keeps_access:
  fixes st :: "'r auth_state" and R :: "'r redis" and user :: user and now :: date
    and sha lc :: "string \<Rightarrow> string" and failed clearFailed :: "oid \<Rightarrow> bool" and report :: sweep_report
  defines "after \<equiv> snd (anonymize_one R sha lc failed clearFailed now user (report, st))"
  assumes redis: "redis_server R live" and jose: "jose_laws J"
    and ids: "distinct (map u_id (users (au_db st)))" and user: "find_user (u_id user) st = Some user"
    and run: "\<not> failed (u_id user)" "\<not> clearFailed (u_id user)"
    and token: "unix_seconds now < unix_seconds t + ACCESS_TTL_SEC" "jti \<noteq> []"
  shows "map_option u_anonymizedAt (find_user (u_id user) after) = Some (Some now) \<and>
    \<not> list_ex (\<lambda>x. ls_userId x = u_id user) (au_sessions after) \<and>
    list_all (\<lambda>bearer. requireUser J R now (Some bearer) after =
        Inr (\<lparr>ac_sub = u_id user, ac_jti = jti, ac_tokenVersion = u_tokenVersion user, ac_iat = unix_seconds t\<rparr>, u_subscriptions user))
      [signAccessToken J t (u_id user) jti (u_tokenVersion user), signRefreshToken J t (u_id user) jti family (u_tokenVersion user)]"
proof -
  let ?v = "anonymize_patch sha lc user now user"
  have f: "find_user (u_id user) after = Some ?v"
    unfolding after_def by (rule anonymize_one_done [where failed = failed, OF ids user run(1)])
  have "au_redis after = store_clear R (u_id user) now (au_redis (anonymizeInTransaction sha lc user
      (find_docs (\<lambda>w. w_userId w = u_id user \<and> w_payoutStatus w = W_PENDING) (prize_winners (au_db st))) now st))"
    using run by (simp add: after_def anonymize_one_def Let_def)
  then have cut: "getCutoff R (u_id user) now (au_redis after) = None" by (simp add: cutoff_after_clear [OF redis])
  have v: "u_tokenVersion user = u_tokenVersion ?v" "u_subscriptions user = u_subscriptions ?v" by (simp_all add: anonymize_patch_def)
  have s: "\<not> list_ex (\<lambda>x. ls_userId x = u_id user) (au_sessions after)"
    unfolding after_def anonymize_one_fields(4) [OF refl ids] using run by (simp add: list_ex_iff)
  have exp: "unix_seconds now < unix_seconds t + REFRESH_TTL_SEC"
    using token(1) by (simp add: ACCESS_TTL_SEC_def REFRESH_TTL_SEC_def)
  note rq = requireUser_access [OF jose cut f v(1) token(2)]
  show ?thesis using f s rq(1) [OF token(1)] rq(2) [OF exp, where family = family] v by simp
qed

theorem anonymized_user_keeps_access_witness:
  "map_option u_anonymizedAt (find_user 1 (snd (anonymize_one space_redis id id (\<lambda>_. False) (\<lambda>_. False) 9000 (sample_user 1 0 [])
       (\<lparr>sw_candidateCount = 1, sw_anonymizedCount = 0, sw_pendingWinningsAuditCount = 0, sw_errors = []\<rparr>, sample_auth [sample_user 1 0 []] []))))
     = Some (Some 9000) \<and>
   requireUser payload_jose space_redis 9000 (Some (signRefreshToken payload_jose 1000 1 ''j'' ''f'' 0))
     (snd (anonymize_one space_redis id id (\<lambda>_. False) (\<lambda>_. False) 9000 (sample_user 1 0 [])
       (\<lparr>sw_candidateCount = 1, sw_anonymizedCount = 0, sw_pendingWinningsAuditCount = 0, sw_errors = []\<rparr>, sample_auth [sample_user 1 0 []] [])))
     = Inr (\<lparr>ac_sub = 1, ac_jti = ''j'', ac_tokenVersion = 0, ac_iat = 1\<rparr>, [])"
proof -
  let ?st = "sample_auth [sample_user 1 0 []] []"
  have d: "distinct (map u_id (users (au_db ?st)))" by code_simp
  have f: "find_user (u_id (sample_user 1 0 [])) ?st = Some (sample_user 1 0 [])" by code_simp
  have i: "u_id (sample_user 1 0 []) = 1" "u_tokenVersion (sample_user 1 0 []) = 0" "u_subscriptions (sample_user 1 0 []) = []"
    by (simp_all add: sample_user_def)
  have t: "unix_seconds 9000 < unix_seconds 1000 + ACCESS_TTL_SEC" "unix_seconds 1000 = 1" by code_simp+
  show ?thesis
    using anonymized_user_keeps_access [OF space.redis_server_axioms payload.jose_laws_axioms d f, of "\<lambda>_. False" "\<lambda>_. False" 9000 1000 "''j''" id id
      "\<lparr>sw_candidateCount = 1, sw_anonymizedCount = 0, sw_pendingWinningsAuditCount = 0, sw_errors = []\<rparr>" "''f''"] t
    unfolding i by simp
qed

section \<open>Erasure as a transition system\<close>

text \<open>
  Users ask and cancel, admins hold and release, sweeps read their candidates at one time
  and treat them, in any order and as often as they are retried, at others.
\<close>

inductive erasure_step ::
  "(string \<Rightarrow> string) \<Rightarrow> (string \<Rightarrow> string) \<Rightarrow> 'r redis \<Rightarrow> 'r auth_state \<times> user set \<Rightarrow> 'r auth_state \<times> user set \<Rightarrow> bool"
  for sha lc R where
  step_request: "erasure_step sha lc R (st, cs) (snd (erasure_request R i now st), cs)"
| step_cancel: "erasure_step sha lc R (st, cs) (snd (erasure_cancel R i now st), cs)"
| step_hold: "erasure_step sha lc R (st, cs) (snd (applyErasureHold i reason actor now st), cs)"
| step_release: "erasure_step sha lc R (st, cs) (snd (clearErasureHold i now st), cs)"
| step_read: "erasure_step sha lc R (st, cs) (st, cs \<union> set (find_docs (sweep_candidate_erasure now) (users (au_db st))))"
| step_anonymize: "user \<in> cs \<Longrightarrow>
    erasure_step sha lc R (st, cs) (snd (anonymize_one R sha lc failed clearFailed now user (report, st)), cs)"

text \<open>What is left of the personal data of an anonymised user.\<close>

definition tombstoned :: "(string \<Rightarrow> string) \<Rightarrow> user \<Rightarrow> bool" where
  "tombstoned sha u \<longleftrightarrow> u_anonymizedAt u \<noteq> None \<and> u_phone u \<in> range (\<lambda>phone. hashPhoneForTombstone sha phone (u_id u)) \<and>
     u_displayName u = Some ''REDACTED_USER'' \<and> u_avatarUrl u = None \<and> u_socialLinks u = None \<and>
     kyc_panLast4 (u_kyc u) = None \<and> kyc_panCt (u_kyc u) = None \<and> kyc_panIv (u_kyc u) = None \<and>
     kyc_panTag (u_kyc u) = None \<and> kyc_panDekEnc (u_kyc u) = None"

definition erased_clean :: "(string \<Rightarrow> string) \<Rightarrow> 'r auth_state \<Rightarrow> bool" where
  "erased_clean sha st \<longleftrightarrow> distinct (map u_id (users (au_db st))) \<and>
     (\<forall>u \<in> set (users (au_db st)). u_anonymizedAt u = None \<or> tombstoned sha u)"

lemma tombstoned_patch: "u_id u = u_id user \<Longrightarrow> tombstoned sha (anonymize_patch sha lc user now u)"
  by (simp add: tombstoned_def anonymize_patch_def)

text \<open>A step keeps the ids; a user stays tombstoned, becomes tombstoned, or stays as anonymised as before.\<close>

definition erasure_change :: "(string \<Rightarrow> string) \<Rightarrow> user \<Rightarrow> user \<Rightarrow> bool" where
  "erasure_change sha u v \<longleftrightarrow> u_id v = u_id u \<and> (tombstoned sha v \<or> u_anonymizedAt v = u_anonymizedAt u \<and> \<not> tombstoned sha u)"

lemma erasure_change_refl: "list_all2 (erasure_change sha) us us"
  by (rule list_all2_refl) (auto simp: erasure_change_def)

lemma update_user_change:
  assumes "\<And>u. u_id (f u) = u_id u" "\<And>u. u_anonymizedAt (f u) = u_anonymizedAt u" "\<And>u. tombstoned sha (f u) = tombstoned sha u"
  shows "list_all2 (erasure_change sha) (users (au_db st)) (users (au_db (update_user i f st)))"
proof -
  have "list_all2 (erasure_change sha) us (update_first p f us)" for p us
    by (induction us) (use assms erasure_change_refl in \<open>auto simp: erasure_change_def [of _ _ "f _"] erasure_change_def [of _ u u for u]\<close>)
  then show ?thesis by simp
qed

lemma tombstoned_updates [simp]: "tombstoned sha (u\<lparr>u_deletedAt := d\<rparr>) = tombstoned sha u"
  "tombstoned sha (u\<lparr>u_erasureHold := h\<rparr>) = tombstoned sha u"
  by (simp_all add: tombstoned_def)

lemma erasure_step_change:
  assumes "erasure_step sha lc R s s'" "distinct (map u_id (users (au_db (fst s))))"
  shows "list_all2 (erasure_change sha) (users (au_db (fst s))) (users (au_db (fst s')))"
  using assms
proof (induction rule: erasure_step.induct)
  case (step_request st cs i now)
  then show ?case by (auto simp: erasure_request_def Let_def simp del: update_user_simps intro!: erasure_change_refl update_user_change split: option.splits)
next
  case (step_cancel st cs i now)
  then show ?case by (auto simp: erasure_cancel_def Let_def simp del: update_user_simps intro!: erasure_change_refl update_user_change split: option.splits)
next
  case (step_hold st cs i reason actor now)
  then show ?case by (auto simp: applyErasureHold_def simp del: update_user_simps intro!: erasure_change_refl update_user_change split: option.splits)
next
  case (step_release st cs i now)
  then show ?case by (auto simp: clearErasureHold_def Let_def simp del: update_user_simps intro!: erasure_change_refl update_user_change split: option.splits prod.splits bool.splits)
next
  case (step_read st cs now)
  show ?case by (simp add: erasure_change_refl)
next
  case (step_anonymize user cs st failed clearFailed now report)
  then show ?case
    by (auto simp: anonymize_one_fields(1) list.rel_map erasure_change_def tombstoned_patch intro!: list.rel_refl_strong)
qed


lemma erasure_run_change:
  assumes "(erasure_step sha lc R)\<^sup>*\<^sup>* s s'" "distinct (map u_id (users (au_db (fst s))))"
  shows "list_all2 (erasure_change sha) (users (au_db (fst s))) (users (au_db (fst s')))"
  using assms(1)
proof (induction rule: rtranclp_induct)
  case base
  show ?case by (rule erasure_change_refl)
next
  case (step y z)
  have ids: "map u_id vs = map u_id us" if "list_all2 (erasure_change sha) us vs" for us vs
    using that by (induction rule: list_all2_induct) (simp_all add: erasure_change_def)
  have "distinct (map u_id (users (au_db (fst y))))" using ids [OF step.IH] assms(2) by simp
  then have "list_all2 (erasure_change sha) (users (au_db (fst y))) (users (au_db (fst z)))"
    by (rule erasure_step_change [OF step.hyps(2)])
  with step.IH show ?case
    by (rule list_all2_trans [rotated]) (auto simp: erasure_change_def)
qed



end
