(* ===== verification/Prize_Pools.thy ===== *)
theory Prize_Pools
  imports Calendar Coins Js_Number Samples
begin

text \<open>
  The daily prize pools (src/modules/prize-pools/prize-pools.service.ts, the fan-out of
  src/workers/prize-pool.worker.ts and the payout ledger of admin-prize-pools.service.ts).
  One row per tier and day under a unique index; a second computation returns the stored
  row. The gift-code share is the product with the decimal literal 0.7, on doubles.
\<close>

section \<open>Computation\<close>

definition GIFT_CODE_SHARE :: double where
  "GIFT_CODE_SHARE = fl 7 10"

definition giftCodeBudget :: "paise \<Rightarrow> paise" where
  "giftCodeBudget totalPoolPaise = js_floor (js_mult GIFT_CODE_SHARE (js_int totalPoolPaise))"

definition aggregateCapturedDonationsForDay :: "dayjs \<Rightarrow> day_key \<Rightarrow> donation list \<Rightarrow> paise" where
  "aggregateCapturedDonationsForDay dj yesterdayDayKey ds =
     (let startIst = dj_dayStart dj yesterdayDayKey; endIst = dj_dayEnd dj yesterdayDayKey
      in sum_list (map d_amount (filter (\<lambda>d. d_status d = D_CAPTURED \<and>
           (case d_capturedAt d of None \<Rightarrow> False | Some t \<Rightarrow> startIst \<le> t \<and> t < endIst)) ds)))"

record compute_input =
  in_dayKey :: day_key
  in_yesterdayDayKey :: day_key
  in_tier :: tier

record compute_result =
  cr_created :: bool
  cr_resTier :: tier
  cr_voteCount :: int
  cr_tierMultiplier :: int
  cr_baseRatePaise :: paise
  cr_voteContributionPaise :: paise
  cr_donationContributionPaise :: paise
  cr_totalPoolPaise :: paise
  cr_giftCodeBudgetPaise :: paise
  cr_customRoomBudgetPaise :: paise

definition tier_multiplier :: "tier \<Rightarrow> int \<Rightarrow> int \<Rightarrow> int" where
  "tier_multiplier tier proMultiplier proMaxMultiplier =
     (case tier of PRO \<Rightarrow> proMultiplier | PRO_MAX \<Rightarrow> proMaxMultiplier | PUBLIC \<Rightarrow> 1)"

text \<open>What the first half of the handler computes: the result to report and the row to seed.\<close>

definition compute_pool :: "dayjs \<Rightarrow> compute_input \<Rightarrow> date \<Rightarrow> oid \<Rightarrow> db \<Rightarrow> compute_result \<times> prize_pool" where
  "compute_pool dj inp now newId s =
     (let voteCount = count_docs (\<lambda>v. v_dayKey v = in_yesterdayDayKey inp \<and> v_tier v = in_tier inp) (votes s);
          cfg = findOne (\<lambda>c. cfg_key c = ''default'') (app_configs s);
          donationContributionPaise =
            (if in_tier inp = PUBLIC
             then aggregateCapturedDonationsForDay dj (in_yesterdayDayKey inp) (donations s) else 0);
          baseRatePaise = or_default (map_option cfg_baseRatePerVote cfg) 100;
          proMultiplier = or_default (map_option cfg_proMultiplier cfg) 5;
          proMaxMultiplier = or_default (map_option cfg_proMaxMultiplier cfg) 10;
          tierMultiplier = tier_multiplier (in_tier inp) proMultiplier proMaxMultiplier;
          voteContributionPaise = voteCount * baseRatePaise * tierMultiplier;
          totalPoolPaise = voteContributionPaise + donationContributionPaise;
          giftCodeBudgetPaise = giftCodeBudget totalPoolPaise;
          customRoomBudgetPaise = totalPoolPaise - giftCodeBudgetPaise
      in (\<lparr>cr_created = True, cr_resTier = in_tier inp, cr_voteCount = voteCount,
           cr_tierMultiplier = tierMultiplier, cr_baseRatePaise = baseRatePaise,
           cr_voteContributionPaise = voteContributionPaise,
           cr_donationContributionPaise = donationContributionPaise,
           cr_totalPoolPaise = totalPoolPaise, cr_giftCodeBudgetPaise = giftCodeBudgetPaise,
           cr_customRoomBudgetPaise = customRoomBudgetPaise\<rparr>,
          \<lparr>pp_id = newId, pp_createdAt = now, pp_tier = in_tier inp, pp_dayKey = in_dayKey inp,
           pp_yesterdayVoteCount = voteCount, pp_baseRate = baseRatePaise,
           pp_totalPool = totalPoolPaise, pp_giftCodeBudget = Some giftCodeBudgetPaise,
           pp_customRoomBudget = Some customRoomBudgetPaise, pp_proMultiplier = proMultiplier,
           pp_proMaxMultiplier = proMaxMultiplier, pp_status = PP_CALCULATED,
           pp_calculatedAt = Some now, pp_publishedAt = None, pp_closedAt = None\<rparr>))"

text \<open>The result reconstructed from a stored row.\<close>

definition stored_result :: "prize_pool \<Rightarrow> compute_result" where
  "stored_result prev =
     (let prevTierMul = tier_multiplier (pp_tier prev) (pp_proMultiplier prev) (pp_proMaxMultiplier prev);
          prevVoteContribution = pp_yesterdayVoteCount prev * pp_baseRate prev * prevTierMul;
          prevDonationContribution = pp_totalPool prev - prevVoteContribution
      in \<lparr>cr_created = False, cr_resTier = pp_tier prev, cr_voteCount = pp_yesterdayVoteCount prev,
          cr_tierMultiplier = prevTierMul, cr_baseRatePaise = pp_baseRate prev,
          cr_voteContributionPaise = prevVoteContribution,
          cr_donationContributionPaise = prevDonationContribution,
          cr_totalPoolPaise = pp_totalPool prev,
          cr_giftCodeBudgetPaise = or_default (pp_giftCodeBudget prev) 0,
          cr_customRoomBudgetPaise = or_default (pp_customRoomBudget prev) 0\<rparr>)"

definition computeAndPublishPool ::
  "dayjs \<Rightarrow> compute_input \<Rightarrow> date \<Rightarrow> oid \<Rightarrow> db \<Rightarrow> compute_result \<times> db" where
  "computeAndPublishPool dj inp now newId s =
     (let (computed, seed) = compute_pool dj inp now newId s
      in case upsertOnInsert (\<lambda>p. pp_tier p = in_tier inp \<and> pp_dayKey p = in_dayKey inp) seed (prize_pools s) of
           (None, ps) \<Rightarrow> (computed, s\<lparr>prize_pools := ps\<rparr>)
         | (Some prev, ps) \<Rightarrow> (stored_result prev, s\<lparr>prize_pools := ps\<rparr>))"

datatype today_pool_status = TP_PENDING | TP_Stored pool_status

record today_pool =
  tp_tier :: tier
  tp_dayKey :: day_key
  tp_voteCount :: int
  tp_tierMultiplier :: int
  tp_baseRatePaise :: paise
  tp_voteContributionPaise :: paise
  tp_donationContributionPaise :: paise
  tp_totalPoolPaise :: paise
  tp_giftCodeBudgetPaise :: paise
  tp_customRoomBudgetPaise :: paise
  tp_status :: today_pool_status
  tp_calculatedAt :: "date option"

definition findByTierDayKey :: "tier \<Rightarrow> day_key \<Rightarrow> prize_pool list \<Rightarrow> prize_pool option" where
  "findByTierDayKey tier dayKey ps = findOne (\<lambda>p. pp_tier p = tier \<and> pp_dayKey p = dayKey) ps"

definition getTodayForTier :: "dayjs \<Rightarrow> tier \<Rightarrow> date \<Rightarrow> db \<Rightarrow> today_pool" where
  "getTodayForTier dj tier now s =
     (let dayKey = dayKeyIst dj now
      in case findByTierDayKey tier dayKey (prize_pools s) of
           None \<Rightarrow> \<lparr>tp_tier = tier, tp_dayKey = dayKey, tp_voteCount = 0, tp_tierMultiplier = 0,
              tp_baseRatePaise = 0, tp_voteContributionPaise = 0, tp_donationContributionPaise = 0,
              tp_totalPoolPaise = 0, tp_giftCodeBudgetPaise = 0, tp_customRoomBudgetPaise = 0,
              tp_status = TP_PENDING, tp_calculatedAt = None\<rparr>
         | Some row \<Rightarrow>
             let tierMultiplier = tier_multiplier (pp_tier row) (pp_proMultiplier row) (pp_proMaxMultiplier row);
                 voteContributionPaise = pp_yesterdayVoteCount row * pp_baseRate row * tierMultiplier;
                 donationContributionPaise = pp_totalPool row - voteContributionPaise
             in \<lparr>tp_tier = pp_tier row, tp_dayKey = pp_dayKey row, tp_voteCount = pp_yesterdayVoteCount row,
                 tp_tierMultiplier = tierMultiplier, tp_baseRatePaise = pp_baseRate row,
                 tp_voteContributionPaise = voteContributionPaise,
                 tp_donationContributionPaise = donationContributionPaise,
                 tp_totalPoolPaise = pp_totalPool row,
                 tp_giftCodeBudgetPaise = or_default (pp_giftCodeBudget row) 0,
                 tp_customRoomBudgetPaise = or_default (pp_customRoomBudget row) 0,
                 tp_status = TP_Stored (pp_status row), tp_calculatedAt = pp_calculatedAt row\<rparr>)"

section \<open>The daily job\<close>

text \<open>
  The job runs one computation per tier and waits for all of them
  (\<open>Promise.allSettled\<close>); the three touch different rows. \<open>fails\<close> says which
  computations are rejected before they write, by a fault of the database. Ids of new rows
  come from the function \<open>ids\<close>.
\<close>

fun pool_fanout ::
  "(tier \<Rightarrow> bool) \<Rightarrow> dayjs \<Rightarrow> day_key \<Rightarrow> day_key \<Rightarrow> date \<Rightarrow> (tier \<Rightarrow> oid) \<Rightarrow> tier list \<Rightarrow> db
   \<Rightarrow> compute_result list \<times> tier list \<times> db" where
  "pool_fanout fails dj dayKey yesterdayDayKey now ids [] s = ([], [], s)"
| "pool_fanout fails dj dayKey yesterdayDayKey now ids (t # ts) s =
     (if fails t then
        (case pool_fanout fails dj dayKey yesterdayDayKey now ids ts s of
           (perTier, failures, s') \<Rightarrow> (perTier, t # failures, s'))
      else
        (case computeAndPublishPool dj
                \<lparr>in_dayKey = dayKey, in_yesterdayDayKey = yesterdayDayKey, in_tier = t\<rparr> now (ids t) s of
           (r, s1) \<Rightarrow>
             (case pool_fanout fails dj dayKey yesterdayDayKey now ids ts s1 of
                (perTier, failures, s') \<Rightarrow> (r # perTier, failures, s'))))"

definition createPrizePoolHandler ::
  "(tier \<Rightarrow> bool) \<Rightarrow> dayjs \<Rightarrow> date \<Rightarrow> date \<Rightarrow> (tier \<Rightarrow> oid) \<Rightarrow> db \<Rightarrow> (tier list + compute_result list) \<times> db" where
  "createPrizePoolHandler fails dj scheduledFor now ids s =
     (let dayKey = dayKeyIst dj scheduledFor;
          yesterdayDayKey = dj_yesterday dj scheduledFor;
          (perTier, failures, s') = pool_fanout fails dj dayKey yesterdayDayKey now ids TIER_VALUES s
      in (if failures \<noteq> [] then Inl failures else Inr perTier, s'))"

section \<open>The payout ledger\<close>

record payout_input =
  pi_winnerId :: oid
  pi_payoutStatus :: payout_status
  pi_challanNo :: "string option"
  pi_panLast4 :: "string option"

definition payout_update :: "payout_input \<Rightarrow> date \<Rightarrow> prize_winner \<Rightarrow> prize_winner" where
  "payout_update inp now w =
     w\<lparr>w_payoutStatus := pi_payoutStatus inp,
       w_releasedAt := (if pi_payoutStatus inp = W_RELEASED then Some now else w_releasedAt w),
       w_tdsChallanNo := (case pi_challanNo inp of None \<Rightarrow> w_tdsChallanNo w | Some c \<Rightarrow> Some c),
       w_panAtPayout := (case pi_panLast4 inp of None \<Rightarrow> w_panAtPayout w | Some p \<Rightarrow> Some (''XXXXX'' @ p))\<rparr>"

definition markPayout :: "payout_input \<Rightarrow> date \<Rightarrow> db \<Rightarrow> (app_error + prize_winner) \<times> db" where
  "markPayout inp now s =
     (case findOneAndUpdate (\<lambda>w. w_id w = pi_winnerId inp) (payout_update inp now) (prize_winners s) of
        (None, _) \<Rightarrow> (Inl NotFoundError, s)
      | (Some updated, ws) \<Rightarrow> (Inr updated, s\<lparr>prize_winners := ws\<rparr>))"

definition listWinners :: "day_key \<Rightarrow> payout_status option \<Rightarrow> db \<Rightarrow> prize_winner list" where
  "listWinners dayKey payoutStatus s =
     sort_key w_createdAt (find_docs (\<lambda>w. w_dayKey w = dayKey \<and>
       (case payoutStatus of None \<Rightarrow> True | Some p \<Rightarrow> w_payoutStatus w = p)) (prize_winners s))"

section \<open>The gift-code share\<close>

lemma GIFT_CODE_SHARE_value: "GIFT_CODE_SHARE = (6305039478318694, - 53)"
  unfolding GIFT_CODE_SHARE_def by code_simp

text \<open>
  The literal 0.7 is slightly less than seven tenths, so an exact multiple of ten can lose
  one paisa; every other total gets the exact floor.
\<close>

lemma giftCodeBudget_bounds:
  assumes "0 \<le> t" and "t < 2 ^ 44"
  shows "7 * t div 10 - (if 10 dvd t then 1 else 0) \<le> giftCodeBudget t \<and> giftCodeBudget t \<le> 7 * t div 10"
proof (cases "t = 0")
  case True
  then show ?thesis by (simp add: giftCodeBudget_def GIFT_CODE_SHARE_value js_mult_def js_int_def fl_def js_floor_def)
next
  case False
  let ?S = "6305039478318694 :: int"
  have "0 < ?S * t" "(0 :: int) < 2 ^ 53" "?S * t < 2 ^ 44 * 2 ^ 53" using assms False by simp_all
  then obtain m k where mk: "fl (?S * t) (2 ^ 53) = (m, - int k)" "256 \<le> (2 :: int) ^ k"
    "2 * \<bar>m * 2 ^ 53 - ?S * t * 2 ^ k\<bar> \<le> 2 ^ 53" "?S * t * 2 ^ k < 2 ^ 53 * 2 ^ 53"
    by (rule fl_approx)
  define K N r where "K = (2 :: int) ^ k" and "N = 7 * t div 10" and "r = 7 * t mod 10"
  define x y z where "x = t * K" and "y = N * K" and "z = r * K"
  have K: "256 \<le> K" using mk(2) by (simp add: K_def)
  have g: "giftCodeBudget t = m div K"
    using mk(1) by (simp add: giftCodeBudget_def GIFT_CODE_SHARE_value js_mult_def js_int_def js_floor_frac K_def)
  have "7 * t = 10 * N + r" by (simp add: N_def r_def)
  then have "7 * t * K = (10 * N + r) * K" by simp
  then have xyz: "7 * x = 10 * y + z" by (simp add: x_def y_def z_def algebra_simps)
  have r: "0 \<le> r" "r \<le> 9" by (simp_all add: r_def)
  then have z9: "z \<le> 9 * K" using K by (simp add: z_def)
  have err: "2 * \<bar>m * 2 ^ 53 - ?S * x\<bar> \<le> 2 ^ 53" "?S * x < 2 ^ 53 * 2 ^ 53"
    using mk(3,4) by (simp_all add: x_def K_def mult.assoc)
  have x0: "0 \<le> x" using assms(1) K by (simp add: x_def)
  have up: "10 * m \<le> 10 * y + z + 5" using err xyz x0 by (simp add: abs_le_iff)
  have lo: "10 * y + z - 11 < 10 * m" using err xyz by (simp add: abs_le_iff)
  have top: "m < (N + 1) * K" using up z9 K by (simp add: y_def algebra_simps)
  have r0: "r = 0 \<longleftrightarrow> 10 dvd t" unfolding r_def by presburger
  show ?thesis
  proof (cases "r = 0")
    case True
    have "(N - 1) * K \<le> m" using lo K True by (simp add: y_def z_def algebra_simps)
    then have "N - 1 \<le> m div K" "m div K \<le> N"
      using K top int_div_less_iff [of K m "N - 1"] int_div_less_iff [of K m "N + 1"] by simp_all
    then show ?thesis using True r0 by (simp add: g N_def)
  next
    case False
    then have "K \<le> z" using r K by (simp add: z_def)
    then have "N * K \<le> m" using lo K by (simp add: y_def)
    then have "m div K = N" using K top by (intro div_between) simp_all
    then show ?thesis using False r0 by (simp add: g N_def)
  qed
qed

section \<open>One row per tier and day\<close>

lemma compute_pool_seed:
  "compute_pool dj inp now i s = (r, seed) \<Longrightarrow>
     pp_tier seed = in_tier inp \<and> pp_dayKey seed = in_dayKey inp \<and> pp_id seed = i \<and>
     stored_result seed = r\<lparr>cr_created := False\<rparr> \<and> cr_created r"
  by (auto simp: compute_pool_def stored_result_def Let_def)

lemma compute_pool_split:
  "compute_pool dj inp now i s = (r, seed) \<Longrightarrow>
     cr_giftCodeBudgetPaise r = giftCodeBudget (cr_totalPoolPaise r) \<and>
     cr_giftCodeBudgetPaise r + cr_customRoomBudgetPaise r = cr_totalPoolPaise r \<and>
     cr_voteContributionPaise r + cr_donationContributionPaise r = cr_totalPoolPaise r \<and>
     cr_voteContributionPaise r = cr_voteCount r * cr_baseRatePaise r * cr_tierMultiplier r \<and>
     cr_voteCount r = count_docs (\<lambda>v. v_dayKey v = in_yesterdayDayKey inp \<and> v_tier v = in_tier inp) (votes s) \<and>
     (in_tier inp \<noteq> PUBLIC \<longrightarrow> cr_donationContributionPaise r = 0)"
  by (auto simp: compute_pool_def Let_def)

lemma compute_fresh:
  assumes "findByTierDayKey (in_tier inp) (in_dayKey inp) (prize_pools s) = None"
  shows "computeAndPublishPool dj inp now i s =
    (let (r, seed) = compute_pool dj inp now i s in (r, s\<lparr>prize_pools := prize_pools s @ [seed]\<rparr>))"
  using assms
  by (auto simp: computeAndPublishPool_def upsertOnInsert_def findByTierDayKey_def split: prod.splits)

lemma compute_stored:
  assumes "findByTierDayKey (in_tier inp) (in_dayKey inp) (prize_pools s) = Some p"
  shows "computeAndPublishPool dj inp now i s = (stored_result p, s)"
  using assms
  by (auto simp: computeAndPublishPool_def upsertOnInsert_def findByTierDayKey_def split: prod.splits)

lemma findByTierDayKey_key: "findByTierDayKey t k ps = Some p \<Longrightarrow> pp_tier p = t \<and> pp_dayKey p = k"
  unfolding findByTierDayKey_def by (drule findOne_SomeD) simp

lemma findByTierDayKey_snoc:
  "findByTierDayKey t k (ps @ [q]) =
     (case findByTierDayKey t k ps of
        Some p \<Rightarrow> Some p
      | None \<Rightarrow> if pp_tier q = t \<and> pp_dayKey q = k then Some q else None)"
  by (auto simp: findByTierDayKey_def findOne_def find_append split: option.splits)

text \<open>
  What one computation does to the collection: the row of its key exists afterwards, the
  rows of all keys that had one are what they were, and the unique index holds.
\<close>

lemma compute_pool_row:
  assumes "computeAndPublishPool dj inp now i s = (r, s')"
  obtains p where "findByTierDayKey (in_tier inp) (in_dayKey inp) (prize_pools s') = Some p"
    "stored_result p = r\<lparr>cr_created := False\<rparr>"
    "\<And>t k q. findByTierDayKey t k (prize_pools s) = Some q \<Longrightarrow> findByTierDayKey t k (prize_pools s') = Some q"
    "unique_on pool_key (prize_pools s) \<Longrightarrow> unique_on pool_key (prize_pools s')"
proof (cases "findByTierDayKey (in_tier inp) (in_dayKey inp) (prize_pools s)")
  case None
  obtain c seed where c: "compute_pool dj inp now i s = (c, seed)" by (cases "compute_pool dj inp now i s")
  note seed = compute_pool_seed [OF c]
  from assms have s': "r = c" "s' = s\<lparr>prize_pools := prize_pools s @ [seed]\<rparr>"
    by (simp_all add: compute_fresh [OF None] c)
  have "pp_tier seed = in_tier inp" "pp_dayKey seed = in_dayKey inp" using seed by simp_all
  then have "create pool_clash seed (prize_pools s) = Inr (prize_pools s @ [seed])"
    using None by (auto simp: create_def pool_clash_def findByTierDayKey_def findOne_None_iff list_ex_iff)
  note u = pool_index.create_unique [OF _ this]
  show ?thesis
    by (rule that [of seed]) (use None seed u in \<open>simp_all add: s' findByTierDayKey_snoc split: option.splits\<close>)
next
  case (Some p)
  have "r = stored_result p" "s' = s" using assms by (simp_all add: compute_stored [OF Some])
  moreover have "stored_result p = (stored_result p)\<lparr>cr_created := False\<rparr>"
    by (simp add: stored_result_def Let_def)
  ultimately show ?thesis using Some by (intro that [of p]) simp_all
qed

lemma pool_fanout_rows:
  assumes "pool_fanout fails dj dk yk now ids ts s = (rs, fs, s')"
  shows "fs = filter fails ts \<and> map cr_resTier rs = filter (\<lambda>t. \<not> fails t) ts \<and>
    (\<forall>t \<in> set ts. \<not> fails t \<longrightarrow> findByTierDayKey t dk (prize_pools s') \<noteq> None) \<and>
    (\<forall>t k q. findByTierDayKey t k (prize_pools s) = Some q \<longrightarrow> findByTierDayKey t k (prize_pools s') = Some q) \<and>
    (unique_on pool_key (prize_pools s) \<longrightarrow> unique_on pool_key (prize_pools s'))"
  using assms
proof (induction ts arbitrary: s rs fs)
  case (Cons t ts)
  show ?case
  proof (cases "fails t")
    case True
    with Cons.prems obtain fs' where "pool_fanout fails dj dk yk now ids ts s = (rs, fs', s')" "fs = t # fs'"
      by (auto split: prod.splits)
    with Cons.IH [OF this(1)] True show ?thesis by auto
  next
    case False
    let ?inp = "\<lparr>in_dayKey = dk, in_yesterdayDayKey = yk, in_tier = t\<rparr>"
    from False Cons.prems obtain r s1 rs' where r: "computeAndPublishPool dj ?inp now (ids t) s = (r, s1)"
      and rs: "pool_fanout fails dj dk yk now ids ts s1 = (rs', fs, s')" "rs = r # rs'"
      by (auto split: prod.splits)
    from r obtain p where p: "findByTierDayKey t dk (prize_pools s1) = Some p"
      "stored_result p = r\<lparr>cr_created := False\<rparr>"
      "\<And>t k q. findByTierDayKey t k (prize_pools s) = Some q \<Longrightarrow> findByTierDayKey t k (prize_pools s1) = Some q"
      "unique_on pool_key (prize_pools s) \<Longrightarrow> unique_on pool_key (prize_pools s1)"
      by (rule compute_pool_row) simp_all
    have "cr_resTier r = cr_resTier (stored_result p)" by (simp add: p(2))
    then have "cr_resTier r = t" using findByTierDayKey_key [OF p(1)] by (simp add: stored_result_def Let_def)
    then show ?thesis using Cons.IH [OF rs(1)] False p by (auto simp: rs(2))
  qed
qed simp

section \<open>Properties\<close>

definition sample_votes :: db where
  "sample_votes = empty_db\<lparr>users := [sample_user 1 10 []], votes := [sample_vote 1 1 ''2026-04-30'' PRO, sample_vote 2 2 ''2026-04-30'' PRO]\<rparr>"

abbreviation sample_compute :: compute_input where
  "sample_compute \<equiv> \<lparr>in_dayKey = ''2026-05-01'', in_yesterdayDayKey = ''2026-04-30'', in_tier = PRO\<rparr>"

abbreviation sample_pool_run :: "compute_result \<times> db" where
  "sample_pool_run \<equiv> computeAndPublishPool gregorian_ist sample_compute 1777600000000 8 sample_votes"

text \<open>C0: a pool computed for the first time is the number of the day's votes in the tier times
  the base rate times the tier's multiplier, plus the day's captured donations for the
  PUBLIC tier only; its two budgets add up to it, and below \<open>2 ^ 44\<close> paise the gift-code
  budget is seven tenths of it rounded down, one paisa less at most when the total is a
  multiple of ten. The stored row says the same.\<close>

theorem computeAndPublishPool_amounts:
  assumes "findByTierDayKey (in_tier inp) (in_dayKey inp) (prize_pools s) = None"
    and "computeAndPublishPool dj inp now i s = (r, s')"
    and "0 \<le> cr_totalPoolPaise r" "cr_totalPoolPaise r < 2 ^ 44"
  shows "cr_created r \<and>
    cr_totalPoolPaise r =
      count_docs (\<lambda>v. v_dayKey v = in_yesterdayDayKey inp \<and> v_tier v = in_tier inp) (votes s) *
        cr_baseRatePaise r * cr_tierMultiplier r +
      (if in_tier inp = PUBLIC then aggregateCapturedDonationsForDay dj (in_yesterdayDayKey inp) (donations s) else 0) \<and>
    cr_giftCodeBudgetPaise r + cr_customRoomBudgetPaise r = cr_totalPoolPaise r \<and>
    cr_giftCodeBudgetPaise r \<le> 7 * cr_totalPoolPaise r div 10 \<and>
    7 * cr_totalPoolPaise r div 10 - (if 10 dvd cr_totalPoolPaise r then 1 else 0) \<le> cr_giftCodeBudgetPaise r \<and>
    (\<exists>p. prize_pools s' = prize_pools s @ [p] \<and> stored_result p = r\<lparr>cr_created := False\<rparr>)"
proof -
  obtain c seed where c: "compute_pool dj inp now i s = (c, seed)" by (cases "compute_pool dj inp now i s")
  then have r: "r = c" "s' = s\<lparr>prize_pools := prize_pools s @ [seed]\<rparr>"
    using assms(2) by (simp_all add: compute_fresh [OF assms(1)])
  have "cr_donationContributionPaise c =
      (if in_tier inp = PUBLIC then aggregateCapturedDonationsForDay dj (in_yesterdayDayKey inp) (donations s) else 0)"
    using c by (auto simp: compute_pool_def Let_def)
  then show ?thesis
    using compute_pool_seed [OF c] compute_pool_split [OF c] giftCodeBudget_bounds [OF assms(3,4)]
    by (auto simp: r)
qed

theorem computeAndPublishPool_amounts_witness:
  "cr_giftCodeBudgetPaise (fst sample_pool_run) + cr_customRoomBudgetPaise (fst sample_pool_run) = 1000"
proof -
  have h: "findByTierDayKey (in_tier sample_compute) (in_dayKey sample_compute) (prize_pools sample_votes) = None"
    "cr_totalPoolPaise (fst sample_pool_run) = 1000" by code_simp+
  show ?thesis using computeAndPublishPool_amounts [OF h(1), of gregorian_ist 1777600000000 8 "fst sample_pool_run" "snd sample_pool_run"]
    by (simp add: h(2))
qed

text \<open>C0: recomputing a pool never changes it. Whatever has happened to the votes, the donations
  and the configuration in between, the second run returns the values of the first with
  \<open>created\<close> false and leaves the database as it is; in particular a run after a correction
  of the votes does not publish a corrected pool.\<close>

theorem computeAndPublishPool_idempotent:
  assumes "computeAndPublishPool dj inp now i s = (r, s1)"
    and "prize_pools s2 = prize_pools s1"
    and "in_tier inp' = in_tier inp" and "in_dayKey inp' = in_dayKey inp"
  shows "computeAndPublishPool dj' inp' now' i' s2 = (r\<lparr>cr_created := False\<rparr>, s2)"
  using assms(1)
proof (rule compute_pool_row)
  fix p assume "findByTierDayKey (in_tier inp) (in_dayKey inp) (prize_pools s1) = Some p"
    and "stored_result p = r\<lparr>cr_created := False\<rparr>"
  then show ?thesis using assms by (simp add: compute_stored)
qed

theorem computeAndPublishPool_idempotent_witness:
  "cr_totalPoolPaise (fst (computeAndPublishPool gregorian_ist sample_compute 1777600000001 9
     ((snd sample_pool_run)\<lparr>votes := []\<rparr>))) = 1000"
proof -
  have h: "cr_totalPoolPaise (fst sample_pool_run) = 1000" by code_simp
  show ?thesis
    using computeAndPublishPool_idempotent [of gregorian_ist sample_compute 1777600000000 8 sample_votes
        "fst sample_pool_run" "snd sample_pool_run" "(snd sample_pool_run)\<lparr>votes := []\<rparr>" sample_compute gregorian_ist 1777600000001 9]
    by (simp add: h)
qed

text \<open>C33: the daily job can be retried. Whatever tiers failed the first time, a run without
  failures reports all three tiers, leaves a row for each of them, keeps every row the first
  run had written, and never writes two rows for a tier and day.\<close>

theorem prizePoolHandler_retry:
  assumes "createPrizePoolHandler fails dj sched now ids s = (r, s1)"
    and "unique_on pool_key (prize_pools s)"
    and "createPrizePoolHandler (\<lambda>_. False) dj sched now' ids' s1 = (r2, s2)"
  shows "(\<exists>rs. r2 = Inr rs \<and> map cr_resTier rs = TIER_VALUES) \<and>
    (\<forall>t. findByTierDayKey t (dayKeyIst dj sched) (prize_pools s2) \<noteq> None) \<and>
    (\<forall>t k p. findByTierDayKey t k (prize_pools s1) = Some p \<longrightarrow> findByTierDayKey t k (prize_pools s2) = Some p) \<and>
    unique_on pool_key (prize_pools s2)"
proof -
  have all: "t \<in> set TIER_VALUES" for t by (cases t) (simp_all add: TIER_VALUES_def)
  let ?run = "\<lambda>fails now ids. pool_fanout fails dj (dayKeyIst dj sched) (dj_yesterday dj sched) now ids TIER_VALUES"
  obtain rs1 fs1 where run1: "?run fails now ids s = (rs1, fs1, s1)"
    using assms(1) by (auto simp: createPrizePoolHandler_def Let_def split: prod.splits)
  obtain rs2 fs2 where run2: "?run (\<lambda>_. False) now' ids' s1 = (rs2, fs2, s2)"
    and r2: "r2 = (if fs2 \<noteq> [] then Inl fs2 else Inr rs2)"
    using assms(3) by (auto simp: createPrizePoolHandler_def Let_def split: prod.splits)
  show ?thesis
    using pool_fanout_rows [OF run1] pool_fanout_rows [OF run2] assms(2) all by (simp add: r2)
qed

theorem prizePoolHandler_retry_witness:
  "\<exists>rs. fst (createPrizePoolHandler (\<lambda>_. False) gregorian_ist 1777600000000 1777600000001 (\<lambda>t. 9)
       (snd (createPrizePoolHandler (\<lambda>t. t = PRO) gregorian_ist 1777600000000 1777600000000 (\<lambda>t. 8) sample_votes))) = Inr rs \<and>
     map cr_resTier rs = TIER_VALUES"
proof -
  let ?r1 = "createPrizePoolHandler (\<lambda>t. t = PRO) gregorian_ist 1777600000000 1777600000000 (\<lambda>t. 8) sample_votes"
  let ?r2 = "createPrizePoolHandler (\<lambda>_. False) gregorian_ist 1777600000000 1777600000001 (\<lambda>t. 9) (snd ?r1)"
  have u: "unique_on pool_key (prize_pools sample_votes)" by code_simp
  have r: "?r1 = (fst ?r1, snd ?r1)" "?r2 = (fst ?r2, snd ?r2)" by simp_all
  show ?thesis using prizePoolHandler_retry [OF r(1) u r(2)] by blast
qed

text \<open>C0: what \<open>GET /prize-pools/today\<close> shows right after the day's pool has been computed is the
  result the computation reported.\<close>

theorem getTodayForTier_reports:
  assumes "computeAndPublishPool dj inp now i s = (r, s')" and "in_dayKey inp = dayKeyIst dj now'"
  shows "let tp = getTodayForTier dj (in_tier inp) now' s' in
    tp_tier tp = in_tier inp \<and> tp_dayKey tp = in_dayKey inp \<and> tp_status tp \<noteq> TP_PENDING \<and>
    tp_voteCount tp = cr_voteCount r \<and> tp_tierMultiplier tp = cr_tierMultiplier r \<and>
    tp_voteContributionPaise tp = cr_voteContributionPaise r \<and>
    tp_donationContributionPaise tp = cr_donationContributionPaise r \<and>
    tp_totalPoolPaise tp = cr_totalPoolPaise r \<and>
    tp_giftCodeBudgetPaise tp = cr_giftCodeBudgetPaise r \<and>
    tp_customRoomBudgetPaise tp = cr_customRoomBudgetPaise r"
  using assms(1)
proof (rule compute_pool_row)
  fix p assume p: "findByTierDayKey (in_tier inp) (in_dayKey inp) (prize_pools s') = Some p"
    and "stored_result p = r\<lparr>cr_created := False\<rparr>"
  then have "r = (stored_result p)\<lparr>cr_created := cr_created r\<rparr>" by simp
  then have "f r = f (stored_result p)" if "\<And>x b. f (x\<lparr>cr_created := b\<rparr>) = f x" for f :: "compute_result \<Rightarrow> int"
    using that by metis
  note field = this [of cr_voteCount] this [of cr_tierMultiplier] this [of cr_voteContributionPaise]
    this [of cr_donationContributionPaise] this [of cr_totalPoolPaise] this [of cr_giftCodeBudgetPaise]
    this [of cr_customRoomBudgetPaise]
  have "pp_tier p = in_tier inp" "pp_dayKey p = in_dayKey inp"
    using findByTierDayKey_key [OF p] by simp_all
  then show ?thesis using p assms(2) field
    by (simp add: getTodayForTier_def Let_def stored_result_def)
qed

theorem getTodayForTier_reports_witness:
  "tp_status (getTodayForTier gregorian_ist PRO 1777600000000 (snd sample_pool_run)) \<noteq> TP_PENDING"
proof -
  have h: "in_dayKey sample_compute = dayKeyIst gregorian_ist 1777600000000" by code_simp
  show ?thesis using getTodayForTier_reports [OF prod.collapse [symmetric], of sample_compute gregorian_ist 1777600000000]
    h by (simp add: Let_def)
qed

text \<open>the share is not always the floor of seven tenths the comment of the service promises:
  for a total of 220 rupees the product of doubles falls just below the integer and one
  paisa moves to the room budget.\<close>

theorem giftCodeBudget_off_by_one:
  "giftCodeBudget 22000 = 15399 \<and> 7 * 22000 div 10 = (15400 :: int)"
  unfolding giftCodeBudget_def GIFT_CODE_SHARE_value by code_simp

text \<open>marking a payout changes the one winner row and nothing of its amounts; marking a row
  RELEASED a second time is not a no-op, it moves the release date.\<close>

theorem markPayout_effect:
  assumes "findOne (\<lambda>w. w_id w = pi_winnerId inp) (prize_winners s) = Some w"
  shows "\<exists>w'. fst (markPayout inp now s) = Inr w' \<and>
    w_payoutStatus w' = pi_payoutStatus inp \<and> w_id w' = w_id w \<and>
    w_finalAmount w' = w_finalAmount w \<and> w_tdsDeducted w' = w_tdsDeducted w \<and>
    w_releasedAt w' = (if pi_payoutStatus inp = W_RELEASED then Some now else w_releasedAt w) \<and>
    w' \<in> set (prize_winners (snd (markPayout inp now s))) \<and>
    map w_id (prize_winners (snd (markPayout inp now s))) = map w_id (prize_winners s)"
proof -
  obtain ys zs where sp: "prize_winners s = ys @ w # zs"
    and upd: "update_first (\<lambda>w. w_id w = pi_winnerId inp) (payout_update inp now) (prize_winners s)
      = ys @ payout_update inp now w # zs"
    using update_first_split [OF assms, of "payout_update inp now"] by metis
  have "markPayout inp now s =
      (Inr (payout_update inp now w), s\<lparr>prize_winners := ys @ payout_update inp now w # zs\<rparr>)"
    using assms upd by (simp add: markPayout_def findOneAndUpdate_def)
  then show ?thesis by (simp add: sp payout_update_def)
qed

theorem markPayout_effect_witness:
  "\<exists>w'. fst (markPayout \<lparr>pi_winnerId = 7, pi_payoutStatus = W_RELEASED, pi_challanNo = None, pi_panLast4 = None\<rparr> 30
       (empty_db\<lparr>prize_winners := [sample_winner 7 1 5 5000]\<rparr>)) = Inr w' \<and> w_releasedAt w' = Some 30"
proof -
  let ?inp = "\<lparr>pi_winnerId = 7, pi_payoutStatus = W_RELEASED, pi_challanNo = None, pi_panLast4 = None\<rparr>"
  let ?s = "empty_db\<lparr>prize_winners := [sample_winner 7 1 5 5000]\<rparr>"
  have h: "findOne (\<lambda>w. w_id w = pi_winnerId ?inp) (prize_winners ?s) = Some (sample_winner 7 1 5 5000)" by code_simp
  show ?thesis using markPayout_effect [OF h, of 30] by auto
qed

end
