(* ===== verification/Workers.thy ===== *)
theory Workers
  imports Prize_Pools Code_Claims Donations Erasure Tier Samples
begin

text \<open>
  The worker process (src/worker.ts, src/workers): the schedules, the dispatch of the jobs of
  the cron queue to their handlers, and the tier sweep that queues its own continuation.
  BullMQ is a parameter: it hands the worker one job at a time, with the time it stamped on it,
  and hands it again when the handler throws. The invoice and webhook workers are in the
  theories of their components.
\<close>

section \<open>Jobs and schedules\<close>

definition PRIZE_POOL_DAILY :: string where "PRIZE_POOL_DAILY = ''prize-pool-daily''"
definition RECONCILE_CODES_HOURLY :: string where "RECONCILE_CODES_HOURLY = ''reconcile-codes-hourly''"
definition TOP_DONOR_REFRESH :: string where "TOP_DONOR_REFRESH = ''top-donor-refresh''"
definition TIER_EXPIRY_SWEEP :: string where "TIER_EXPIRY_SWEEP = ''tier-expiry-sweep''"
definition USER_ANONYMIZE_SWEEP :: string where "USER_ANONYMIZE_SWEEP = ''user-anonymize-sweep''"

lemmas job_names = PRIZE_POOL_DAILY_def RECONCILE_CODES_HOURLY_def TOP_DONOR_REFRESH_def TIER_EXPIRY_SWEEP_def USER_ANONYMIZE_SWEEP_def

definition CRON_SCHEDULES :: "(string \<times> string) list" where
  "CRON_SCHEDULES =
     [(PRIZE_POOL_DAILY, ''5 0 * * *''), (RECONCILE_CODES_HOURLY, ''0 * * * *''), (TOP_DONOR_REFRESH, ''*/5 * * * *''),
      (TIER_EXPIRY_SWEEP, ''0 2 * * *''), (USER_ANONYMIZE_SWEEP, ''10 2 * * *'')]"

text \<open>A job of the cron queue: its data, of which every field is optional, and its stamp.\<close>

record cron_job =
  cj_name :: string
  cj_scheduledFor :: "date option"
  cj_batchSize :: "int option"
  cj_limit :: "int option"
  cj_continuation :: bool
  cj_timestamp :: date

definition scheduler_job :: "string \<Rightarrow> date \<Rightarrow> cron_job" where
  "scheduler_job name stamp =
     \<lparr>cj_name = name, cj_scheduledFor = None, cj_batchSize = None, cj_limit = None, cj_continuation = False, cj_timestamp = stamp\<rparr>"

definition scheduledForFromJob :: "cron_job \<Rightarrow> date" where
  "scheduledForFromJob job = or_default (cj_scheduledFor job) (cj_timestamp job)"

section \<open>The handlers\<close>

definition RECONCILE_CUTOFF_MS :: int where "RECONCILE_CUTOFF_MS = 24 * 60 * 60 * 1000"

definition createReconcileCodesHandler :: "date \<Rightarrow> db \<Rightarrow> int \<times> db" where
  "createReconcileCodesHandler scheduledFor s = reconcileCopiedCodes scheduledFor (Some RECONCILE_CUTOFF_MS) s"

definition createTopDonorHandler :: "int option \<Rightarrow> date \<Rightarrow> db \<Rightarrow> int \<times> db" where
  "createTopDonorHandler limitOpt now s = refreshTopDonorRanking (Some (or_default limitOpt 50)) now s"

definition continuation_job :: "date \<Rightarrow> int \<Rightarrow> date \<Rightarrow> cron_job" where
  "continuation_job scheduledFor batchSize now =
     \<lparr>cj_name = TIER_EXPIRY_SWEEP, cj_scheduledFor = Some scheduledFor, cj_batchSize = Some batchSize, cj_limit = None,
      cj_continuation = True, cj_timestamp = now\<rparr>"

definition createTierSweepHandler :: "date \<Rightarrow> int option \<Rightarrow> date \<Rightarrow> db \<Rightarrow> (int \<times> bool) \<times> cron_job list \<times> db" where
  "createTierSweepHandler scheduledFor batchOpt now s =
     (let batchSize = or_default batchOpt 500;
          (sweptCount, s') = sweepExpiredTiers scheduledFor (Some batchSize) s
      in if sweptCount = batchSize then ((sweptCount, True), [continuation_job scheduledFor batchSize now], s')
         else ((sweptCount, False), [], s'))"

text \<open>
  What the handlers need from outside: the calendar, the ids of new pools, the tiers and the
  users whose transaction throws, the digest and the Redis server.
\<close>

record 'r worker_env =
  we_fails :: "tier \<Rightarrow> bool"
  we_dayjs :: dayjs
  we_poolIds :: "tier \<Rightarrow> oid"
  we_redis :: "'r redis"
  we_sha :: "string \<Rightarrow> string"
  we_lower :: "string \<Rightarrow> string"
  we_failed :: "oid \<Rightarrow> bool"
  we_clearFailed :: "oid \<Rightarrow> bool"

datatype cron_result =
    Pools "tier list + compute_result list"
  | Reconciled int
  | Ranked int
  | Swept int bool
  | Anonymized sweep_report
  | Ignored

text \<open>One job of the cron queue, at time \<open>now\<close>: its result, the jobs it adds and the state after it.\<close>

definition cronWorker :: "'r worker_env \<Rightarrow> date \<Rightarrow> cron_job \<Rightarrow> 'r auth_state \<Rightarrow> cron_result \<times> cron_job list \<times> 'r auth_state" where
  "cronWorker env now job st =
     (let name = cj_name job;
          scheduledFor = scheduledForFromJob job;
          s = au_db st
      in if name = PRIZE_POOL_DAILY then
           (let (res, s') = createPrizePoolHandler (we_fails env) (we_dayjs env) scheduledFor now (we_poolIds env) s
            in (Pools res, [], st\<lparr>au_db := s'\<rparr>))
         else if name = RECONCILE_CODES_HOURLY then
           (let (n, s') = createReconcileCodesHandler scheduledFor s in (Reconciled n, [], st\<lparr>au_db := s'\<rparr>))
         else if name = TOP_DONOR_REFRESH then
           (let (n, s') = createTopDonorHandler (cj_limit job) now s in (Ranked n, [], st\<lparr>au_db := s'\<rparr>))
         else if name = TIER_EXPIRY_SWEEP then
           (let ((n, reEnqueued), jobs, s') = createTierSweepHandler scheduledFor (cj_batchSize job) now s
            in (Swept n reEnqueued, jobs, st\<lparr>au_db := s'\<rparr>))
         else if name = USER_ANONYMIZE_SWEEP then
           (let (report, st') = user_anonymize_sweep (we_redis env) (we_sha env) (we_lower env) (we_failed env) (we_clearFailed env) scheduledFor st
            in (Anonymized report, [], st'))
         else (Ignored, [], st))"

text \<open>The queue run until it is empty, one job after the other, for at most so many jobs.\<close>

fun drain :: "nat \<Rightarrow> 'r worker_env \<Rightarrow> date \<Rightarrow> cron_job list \<Rightarrow> 'r auth_state \<Rightarrow> (cron_result list \<times> 'r auth_state) option" where
  "drain fuel env now [] st = Some ([], st)"
| "drain 0 env now (job # queue) st = None"
| "drain (Suc fuel) env now (job # queue) st =
     (let (res, jobs, st') = cronWorker env now job st
      in map_option (\<lambda>(ress, st''). (res # ress, st'')) (drain fuel env now (queue @ jobs) st'))"

section \<open>The batches of the tier sweep\<close>

definition swept :: "date \<Rightarrow> user \<Rightarrow> user" where
  "swept t u = (if sweep_candidate t u then u\<lparr>u_subscriptions := sweepFilter t (u_subscriptions u)\<rparr> else u)"

lemma swept_no_candidate: "\<not> sweep_candidate t (u\<lparr>u_subscriptions := sweepFilter t (u_subscriptions u)\<rparr>)"
  by (auto simp: sweep_candidate_def list_ex_iff sweepFilter_def sweep_keeps_def split: bson.splits)

lemma swept_shrinks: "sweep_candidate t u \<Longrightarrow> u\<lparr>u_subscriptions := sweepFilter t (u_subscriptions u)\<rparr> \<noteq> u"
  using swept_no_candidate by metis

lemma clamp_batch: "1 \<le> b \<Longrightarrow> b \<le> 10000 \<Longrightarrow> nat (max 1 (min 10000 (or_default (Some b) 500))) = nat b"
  by simp

lemma filter_within: "(\<And>x. P x \<Longrightarrow> Q x) \<Longrightarrow> filter P (filter Q xs) = filter P xs"
  by (induction xs) auto

lemma first_members:
  assumes "distinct xs"
  shows "filter (\<lambda>x. x \<in> set (take n xs)) xs = take n xs" "filter (\<lambda>x. x \<notin> set (take n xs)) xs = drop n xs"
proof -
  have "set (take n xs) \<inter> set (drop n xs) = {}" by (rule set_take_disj_set_drop_if_distinct [OF assms]) simp
  then have "filter (\<lambda>x. x \<in> set (take n xs)) (take n xs @ drop n xs) = take n xs"
    "filter (\<lambda>x. x \<notin> set (take n xs)) (take n xs @ drop n xs) = drop n xs"
    by (auto simp: filter_empty_conv filter_id_conv simp del: append_take_drop_id)
  then show "filter (\<lambda>x. x \<in> set (take n xs)) xs = take n xs" "filter (\<lambda>x. x \<notin> set (take n xs)) xs = drop n xs"
    by simp_all
qed

text \<open>One batch takes the first candidates and leaves the others in order.\<close>

lemma sweep_batch:
  assumes "distinct (map u_id (users s))" "1 \<le> b" "b \<le> 10000" and cs_def: "cs = filter (sweep_candidate t) (users s)"
  shows "fst (sweepExpiredTiers t (Some b) s) = int (min (nat b) (length cs))"
    and "filter (sweep_candidate t) (users (snd (sweepExpiredTiers t (Some b) s))) = drop (nat b) cs"
    and "map (swept t) (users (snd (sweepExpiredTiers t (Some b) s))) = map (swept t) (users s)"
    and "map u_id (users (snd (sweepExpiredTiers t (Some b) s))) = map u_id (users s)"
proof -
  let ?T = "set (take (nat b) cs)"
  let ?f = "\<lambda>u. if u \<in> ?T then u\<lparr>u_subscriptions := sweepFilter t (u_subscriptions u)\<rparr> else u"
  have inj: "inj_on u_id (set (users s))" using assms(1) by (simp add: distinct_map)
  have T: "?T \<subseteq> set (users s)" "u \<in> ?T \<Longrightarrow> sweep_candidate t u" for u
    using set_take_subset [of "nat b" cs] by (auto simp: cs_def)
  have mem: "u_id u \<in> set (map u_id (take (nat b) cs)) \<longleftrightarrow> u \<in> ?T" if "u \<in> set (users s)" for u
    using that T(1) inj by (auto simp: inj_on_def)
  have us: "users (snd (sweepExpiredTiers t (Some b) s)) = map ?f (users s)"
    unfolding sweepExpiredTiers_users clamp_batch [OF assms(2,3)] cs_def [symmetric] by (intro map_cong refl) (simp only: mem)
  have cand: "sweep_candidate t (?f u) \<longleftrightarrow> sweep_candidate t u \<and> u \<notin> ?T" for u using swept_no_candidate by auto
  have d: "distinct cs" using assms(1) by (simp add: cs_def distinct_map)
  have rest: "filter (\<lambda>u. u \<notin> ?T) cs = drop (nat b) cs" by (rule first_members(2) [OF d])
  show "filter (sweep_candidate t) (users (snd (sweepExpiredTiers t (Some b) s))) = drop (nat b) cs"
  proof -
    have "filter (sweep_candidate t) (map ?f (users s)) = map ?f (filter (\<lambda>u. sweep_candidate t u \<and> u \<notin> ?T) (users s))"
      by (simp add: filter_map comp_def cand del: if_image_distrib)
    also have "\<dots> = filter (\<lambda>u. u \<notin> ?T) cs" by (subst map_idI) (auto simp: cs_def conj_commute)
    finally show ?thesis unfolding us rest .
  qed
  show "map (swept t) (users (snd (sweepExpiredTiers t (Some b) s))) = map (swept t) (users s)"
    unfolding us by (auto simp: swept_def swept_no_candidate T(2))
  show "map u_id (users (snd (sweepExpiredTiers t (Some b) s))) = map u_id (users s)" unfolding us by simp
  show "fst (sweepExpiredTiers t (Some b) s) = int (min (nat b) (length cs))"
  proof (cases "cs = []")
    case True
    then show ?thesis using assms(2) by (simp add: sweepExpiredTiers_def find_docs_def cs_def)
  next
    case False
    let ?g = "\<lambda>u. u\<lparr>u_subscriptions := sweepFilter t (u_subscriptions u)\<rparr>"
    have eq: "u_id u \<in> set (map u_id (take (nat b) cs)) \<and> ?g u \<noteq> u \<longleftrightarrow> u \<in> ?T" if "u \<in> set (users s)" for u
      using mem [OF that] T(2) [of u] swept_shrinks [of t u] by argo
    have ne: "take (nat b) cs \<noteq> []" using False assms(2) by simp
    have "length (filter (\<lambda>u. u_id u \<in> set (map u_id (take (nat b) cs)) \<and> ?g u \<noteq> u) (users s)) = length (filter (\<lambda>u. u \<in> ?T) (users s))"
      by (simp only: eq cong: filter_cong)
    also have "filter (\<lambda>u. u \<in> ?T) (users s) = filter (\<lambda>u. u \<in> ?T) (filter (sweep_candidate t) (users s))"
      by (rule filter_within [symmetric]) (rule T(2))
    also have "\<dots> = take (nat b) cs" unfolding cs_def [symmetric] by (rule first_members(1) [OF d])
    also have "length \<dots> = min (nat b) (length cs)" by (simp add: min.commute)
    finally show ?thesis
      using ne assms(2,3) by (simp add: sweepExpiredTiers_def find_docs_def updateMany_def cs_def Let_def)
  qed
qed

section \<open>Draining a backlog\<close>

definition sweep_job :: "date \<Rightarrow> int \<Rightarrow> date \<Rightarrow> cron_job" where
  "sweep_job t b stamp = (scheduler_job TIER_EXPIRY_SWEEP stamp)\<lparr>cj_scheduledFor := Some t, cj_batchSize := Some b\<rparr>"

lemma cronWorker_sweep:
  assumes "cj_name job = TIER_EXPIRY_SWEEP" "scheduledForFromJob job = t" "cj_batchSize job = Some b"
  shows "cronWorker env now job st =
    (let n = fst (sweepExpiredTiers t (Some b) (au_db st)); st' = st\<lparr>au_db := snd (sweepExpiredTiers t (Some b) (au_db st))\<rparr>
     in (Swept n (n = b), if n = b then [continuation_job t b now] else [], st'))"
  using assms by (simp add: cronWorker_def createTierSweepHandler_def job_names Let_def split_beta)

definition sample_lapsed :: "oid \<Rightarrow> user" where
  "sample_lapsed i = sample_user i 0 [sample_entry PRO E_ACTIVE 5 i, sample_entry PRO_MAX E_ACTIVE 50 i]"

definition sample_worker_env :: "key_space worker_env" where
  "sample_worker_env = \<lparr>we_fails = \<lambda>_. False, we_dayjs = gregorian_ist, we_poolIds = \<lambda>t. case t of PUBLIC \<Rightarrow> 101 | PRO \<Rightarrow> 102 | PRO_MAX \<Rightarrow> 103,
     we_redis = space_redis, we_sha = id, we_lower = id, we_failed = \<lambda>_. False, we_clearFailed = \<lambda>_. False\<rparr>"

text \<open>
  However many users have run out, the sweep job and the continuations it queues end, after one
  job for every full batch and a last one, and together they do what one unlimited sweep would:
  every user who has an entry past its expiry is filtered, and no other is touched.
\<close>

lemma drain_sweep:
  assumes "1 \<le> b" "b \<le> 10000"
  shows "distinct (map u_id (users (au_db st))) \<Longrightarrow> cj_name job = TIER_EXPIRY_SWEEP \<Longrightarrow> scheduledForFromJob job = t \<Longrightarrow>
    cj_batchSize job = Some b \<Longrightarrow> length (filter (sweep_candidate t) (users (au_db st))) div nat b < fuel \<Longrightarrow>
    \<exists>ress st'. drain fuel env now [job] st = Some (ress, st') \<and> users (au_db st') = map (swept t) (users (au_db st)) \<and>
      length ress = Suc (length (filter (sweep_candidate t) (users (au_db st))) div nat b)"
proof (induction fuel arbitrary: job st)
  case (Suc fuel)
  let ?cs = "filter (sweep_candidate t) (users (au_db st))"
  let ?s = "snd (sweepExpiredTiers t (Some b) (au_db st))"
  note batch = sweep_batch [OF Suc.prems(1) assms refl, of t]
  note run = cronWorker_sweep [OF Suc.prems(2-4), of env now st]
  show ?case
  proof (cases "nat b \<le> length ?cs")
    case True
    then have n: "fst (sweepExpiredTiers t (Some b) (au_db st)) = b" using batch(1) assms(1) by simp
    have q: "length ?cs div nat b = Suc ((length ?cs - nat b) div nat b)"
      using True assms(1) by (simp add: le_div_geq)
    let ?st = "st\<lparr>au_db := ?s\<rparr>"
    have c: "cj_name (continuation_job t b now) = TIER_EXPIRY_SWEEP" "scheduledForFromJob (continuation_job t b now) = t"
      "cj_batchSize (continuation_job t b now) = Some b"
      by (simp_all add: continuation_job_def scheduledForFromJob_def)
    have "distinct (map u_id (users (au_db ?st)))" "length (filter (sweep_candidate t) (users (au_db ?st))) div nat b < fuel"
      using batch(2,4) Suc.prems(1,5) q by simp_all
    from Suc.IH [OF this(1) c this(2)]
    show ?thesis using batch(2,3) q by (auto simp: run n Let_def)
  next
    case False
    then have n: "fst (sweepExpiredTiers t (Some b) (au_db st)) \<noteq> b" using batch(1) by auto
    have "filter (sweep_candidate t) (users ?s) = []" using batch(2) False by simp
    then have "map (swept t) (users ?s) = users ?s" by (auto simp: swept_def filter_empty_conv intro: map_idI)
    then show ?thesis using n batch(3) False by (simp add: run Let_def)
  qed
qed simp

theorem tier_sweep_drains:
  assumes "distinct (map u_id (users (au_db st)))" "1 \<le> b" "b \<le> 10000"
    and "length (filter (sweep_candidate t) (users (au_db st))) div nat b < fuel"
  shows "\<exists>ress st'. drain fuel env now [sweep_job t b stamp] st = Some (ress, st') \<and>
      users (au_db st') = map (swept t) (users (au_db st)) \<and> \<not> list_ex (sweep_candidate t) (users (au_db st')) \<and>
      length ress = Suc (length (filter (sweep_candidate t) (users (au_db st))) div nat b)"
proof -
  have "list_all (\<lambda>u. \<not> sweep_candidate t u) (map (swept t) us)" for us
    by (auto simp: list_all_iff swept_def swept_no_candidate)
  then show ?thesis
    using drain_sweep [OF assms(2,3,1), of "sweep_job t b stamp" t fuel env now] assms(4)
    by (auto simp: sweep_job_def scheduler_job_def scheduledForFromJob_def list_ex_iff list_all_iff)
qed

theorem tier_sweep_drains_witness:
  "\<exists>ress st'. drain 3 sample_worker_env 60 [sweep_job 10 1 0] (sample_auth [sample_lapsed 1, sample_lapsed 2] []) = Some (ress, st') \<and> length ress = 3"
proof -
  let ?st = "sample_auth [sample_lapsed 1, sample_lapsed 2] []"
  have "distinct (map u_id (users (au_db ?st)))" "length (filter (sweep_candidate 10) (users (au_db ?st))) div nat 1 < 3"
    "length (filter (sweep_candidate 10) (users (au_db ?st))) div nat 1 = 2" by code_simp+
  then show ?thesis using tier_sweep_drains [of ?st 1 10 3 sample_worker_env 60 0] by auto
qed

text \<open>
  The handler compares the count with the size it was given, the service with the size it
  clamped: a batch of more than ten thousand stops after ten thousand users and queues nothing,
  whatever is left.
\<close>

theorem oversized_batch_stalls:
  assumes "distinct (map u_id (users (au_db st)))" "10000 < b" "10000 < length (filter (sweep_candidate t) (users (au_db st)))"
  shows "\<exists>st' u. drain (Suc fuel) env now [sweep_job t b stamp] st = Some ([Swept 10000 False], st') \<and>
    u \<in> set (users (au_db st')) \<and> sweep_candidate t u"
proof -
  let ?cs = "filter (sweep_candidate t) (users (au_db st))"
  have same: "sweepExpiredTiers t (Some b) s = sweepExpiredTiers t (Some 10000) s" for s
    using assms(2) by (simp add: sweepExpiredTiers_def)
  note batch = sweep_batch [OF assms(1) _ _ refl, of 10000 t]
  have "filter (sweep_candidate t) (users (snd (sweepExpiredTiers t (Some b) (au_db st)))) \<noteq> []"
    using batch(2) assms(3) unfolding same by simp
  then obtain u where u: "u \<in> set (filter (sweep_candidate t) (users (snd (sweepExpiredTiers t (Some b) (au_db st)))))"
    by (meson hd_in_set)
  have n: "fst (sweepExpiredTiers t (Some b) (au_db st)) = 10000" using batch(1) assms(3) unfolding same by simp
  have run: "cronWorker env now (sweep_job t b stamp) st =
      (Swept 10000 False, [], st\<lparr>au_db := snd (sweepExpiredTiers t (Some b) (au_db st))\<rparr>)"
    using cronWorker_sweep [of "sweep_job t b stamp" t b env now st] assms(2)
    by (simp add: sweep_job_def scheduler_job_def scheduledForFromJob_def n)
  show ?thesis using u by (auto simp: run intro!: exI [of _ u])
qed

theorem oversized_batch_stalls_witness:
  "\<exists>st'. drain 2 sample_worker_env 60 [sweep_job 10 20000 0] (sample_auth (map sample_lapsed [0..<10001]) []) = Some ([Swept 10000 False], st')"
proof -
  let ?us = "map sample_lapsed [0..<10001]"
  have i: "u_id (sample_lapsed i) = i" for i by (simp add: sample_lapsed_def sample_user_def)
  have c: "sweep_candidate 10 (sample_lapsed i)" for i
    by (simp add: sample_lapsed_def sample_user_def sample_entry_def sweep_candidate_def)
  have u: "users (au_db (sample_auth ?us [])) = ?us" by (simp add: sample_auth_def)
  have "distinct (map u_id ?us)" by (simp add: i comp_def)
  moreover have "filter (sweep_candidate 10) ?us = ?us" using c by (auto simp: filter_id_conv)
  then have "10000 < length (filter (sweep_candidate 10) ?us)" by simp
  ultimately show ?thesis
    using oversized_batch_stalls [of "sample_auth ?us []" 20000 10 1 sample_worker_env 60 0] unfolding u by (auto simp: numeral_2_eq_2)
qed

end
