(* ===== verification/Market.thy ===== *)
theory Market
  imports Votes Posts Coins Code_Claims Webhooks Auth Erasure Workers
begin

text \<open>
  The operations that touch coins put together: every transaction of the program that writes
  users, the coin ledger, votes or completions, or runs beside one that does, is a step of one
  relation on the whole state. The books (the balances, the ledger, the votes and the
  completions) are what the steps may change; most leave them alone, and the lemmas below say
  so step by step. The bank is the abstract account book the steps refine: a partial map
  from users to coins with four moves.
\<close>


section \<open>The books of the whole program\<close>

definition books :: "db \<Rightarrow> (oid \<times> coins) list \<times> coin_tx list \<times> vote list \<times> post_completion list" where
  "books s = (map (\<lambda>u. (u_id u, u_coinBalance u)) (users s), coin_txs s, votes s, post_completions s)"

definition books_ok :: "db \<Rightarrow> bool" where
  "books_ok s \<longleftrightarrow> coin_inv (users s) (coin_txs s) \<and> unique_on vote_key (votes s) \<and> unique_on completion_key (post_completions s)"

text \<open>
  One step is one transaction of one operation: the request handlers, the webhook of the payment
  provider and the scheduled jobs of the worker process. The flag \<open>debits\<close> says whether an admin
  may take coins away.
\<close>

inductive market_step :: "'tok jose \<Rightarrow> 'r worker_env \<Rightarrow> bool \<Rightarrow> 'r auth_state \<Rightarrow> 'r auth_state \<Rightarrow> bool" for J env debits where
  vote: "market_step J env debits st (st\<lparr>au_db := snd (castVote_commit inp dk now vid tid (au_db st))\<rparr>)"
| complete: "0 \<le> rew \<Longrightarrow> market_step J env debits st (st\<lparr>au_db := snd (completePost_commit cinp dk rew now cid tid (au_db st))\<rparr>)"
| adjust: "debits \<or> 0 \<le> ai_delta ainp \<Longrightarrow> market_step J env debits st (st\<lparr>au_db := snd (adjustCoins rejects ainp now tid (au_db st))\<rparr>)"
| block: "market_step J env debits st (st\<lparr>au_db := snd (block_user uid reason actor now (au_db st))\<rparr>)"
| unblock: "market_step J env debits st (st\<lparr>au_db := snd (unblock_user uid (au_db st))\<rparr>)"
| signup: "sg_userId dr \<notin> ct_userId ` set (coin_txs (au_db st)) \<Longrightarrow>
    market_step J env debits st (snd (verifySignupOtp (we_dayjs env) J (we_redis env) (we_sha env) nodeEnv sinp dr now st))"
| login: "market_step J env debits st (snd (verifyLoginOtp J (we_redis env) (we_sha env) linp jti uuid now st))"
| erase: "market_step J env debits st (snd (erasure_request (we_redis env) uid now st))"
| keep: "market_step J env debits st (snd (erasure_cancel (we_redis env) uid now st))"
| hold: "market_step J env debits st (snd (applyErasureHold uid reason actor now st))"
| release: "market_step J env debits st (snd (clearErasureHold uid now st))"
| claim_code: "market_step J env debits st (st\<lparr>au_db := snd (claim_commit dec cid uid panLast4 now (au_db st))\<rparr>)"
| webhook: "market_step J env debits st (st\<lparr>au_db := snd (handleRazorpayWebhook sigOk parse wr dl raw signature eventId (au_db st))\<rparr>)"
| cron: "market_step J env debits st (snd (snd (cronWorker env now job st)))"

lemma coin_inv_books:
  "map (\<lambda>u. (u_id u, u_coinBalance u)) us' = map (\<lambda>u. (u_id u, u_coinBalance u)) us \<Longrightarrow> coin_inv us' txs = coin_inv us txs"
proof -
  assume e: "map (\<lambda>u. (u_id u, u_coinBalance u)) us' = map (\<lambda>u. (u_id u, u_coinBalance u)) us"
  have i: "map u_id us' = map u_id us" using arg_cong [OF e, of "map fst"] by (simp add: comp_def)
  have b: "(\<forall>u \<in> set vs. u_coinBalance u = ledger_sum (u_id u) txs) \<longleftrightarrow>
      (\<forall>p \<in> set (map (\<lambda>u. (u_id u, u_coinBalance u)) vs). snd p = ledger_sum (fst p) txs)" for vs by auto
  show ?thesis unfolding coin_inv_def i b [of us'] b [of us] e ..
qed

lemma solvent_books:
  "map (\<lambda>u. (u_id u, u_coinBalance u)) us' = map (\<lambda>u. (u_id u, u_coinBalance u)) us \<Longrightarrow> solvent us' = solvent us"
proof -
  assume e: "map (\<lambda>u. (u_id u, u_coinBalance u)) us' = map (\<lambda>u. (u_id u, u_coinBalance u)) us"
  have b: "solvent vs \<longleftrightarrow> (\<forall>p \<in> set (map (\<lambda>u. (u_id u, u_coinBalance u)) vs). 0 \<le> snd p)" for vs by (auto simp: solvent_def)
  show ?thesis unfolding b [of us'] b [of us] e ..
qed

lemma books_same:
  assumes "books s' = books s"
  shows "books_ok s' = books_ok s" "solvent (users s') = solvent (users s)" "coin_txs s' = coin_txs s" "votes s' = votes s"
    "post_completions s' = post_completions s"
  using assms coin_inv_books [of "users s'" "users s"] solvent_books [of "users s'" "users s"] by (simp_all add: books_def books_ok_def)

lemma books_update_first:
  "(\<And>u. u_id (f u) = u_id u) \<Longrightarrow> (\<And>u. u_coinBalance (f u) = u_coinBalance u) \<Longrightarrow>
   map (\<lambda>u. (u_id u, u_coinBalance u)) (update_first p f us) = map (\<lambda>u. (u_id u, u_coinBalance u)) us"
  by (rule map_update_first) simp

lemma books_findOneAndUpdate:
  "(\<And>u. u_id (f u) = u_id u) \<Longrightarrow> (\<And>u. u_coinBalance (f u) = u_coinBalance u) \<Longrightarrow>
   map (\<lambda>u. (u_id u, u_coinBalance u)) (snd (findOneAndUpdate p f us)) = map (\<lambda>u. (u_id u, u_coinBalance u)) us"
  by (auto simp: findOneAndUpdate_def books_update_first split: option.splits)

lemma vote_books:
  assumes "books_ok s"
  shows "books_ok (snd (castVote_commit inp dk now vid tid s))"
    and "solvent (users s) \<Longrightarrow> solvent (users (snd (castVote_commit inp dk now vid tid s)))"
proof -
  let ?t = "snd (castVote_tx inp dk now vid tid s)"
  have c: "users (snd (castVote_commit inp dk now vid tid s)) = users ?t" "coin_txs (snd (castVote_commit inp dk now vid tid s)) = coin_txs ?t"
    "votes (snd (castVote_commit inp dk now vid tid s)) = votes ?t" "post_completions (snd (castVote_commit inp dk now vid tid s)) = post_completions ?t"
    by (auto simp: castVote_commit_def split: sum.splits prod.splits)
  have "post_completions ?t = post_completions s"
    by (rule castVote_tx_keeps) (auto elim: castVote_tx_Inr)
  then show "books_ok (snd (castVote_commit inp dk now vid tid s))"
    using assms castVote_tx_coin_inv [of s inp dk now vid tid] castVote_tx_unique [of s inp dk now vid tid] by (simp add: books_ok_def c)
  show "solvent (users s) \<Longrightarrow> solvent (users (snd (castVote_commit inp dk now vid tid s)))" unfolding c by (rule castVote_tx_solvent)
qed

lemma complete_books:
  assumes "books_ok s"
  shows "books_ok (snd (completePost_commit inp dk rew now cid tid s))"
    and "solvent (users s) \<Longrightarrow> 0 \<le> rew \<Longrightarrow> solvent (users (snd (completePost_commit inp dk rew now cid tid s)))"
proof -
  let ?t = "snd (completePost_tx inp dk rew now cid tid s)" and ?c = "snd (completePost_commit inp dk rew now cid tid s)"
  have c: "users ?c = users ?t" "coin_txs ?c = coin_txs ?t" "votes ?c = votes ?t" "post_completions ?c = post_completions ?t"
    by (auto simp: completePost_commit_def split: sum.splits prod.splits)
  have "votes ?t = votes s"
    by (cases "completed inp s") (auto simp: completePost_tx_fresh completePost_tx_again split: option.splits)
  then show "books_ok ?c"
    using assms completePost_tx_coin_inv [of s inp dk rew now cid tid] completePost_tx_unique [of s inp dk rew now cid tid]
    by (simp add: books_ok_def c)
  show "solvent (users s) \<Longrightarrow> 0 \<le> rew \<Longrightarrow> solvent (users ?c)" unfolding c by (rule completePost_tx_solvent)
qed

lemma adjust_books:
  assumes "books_ok s"
  shows "books_ok (snd (adjustCoins rejects inp now tid s))"
proof -
  have "votes (snd (adjustCoins rejects inp now tid s)) = votes s" "post_completions (snd (adjustCoins rejects inp now tid s)) = post_completions s"
    by (auto simp: adjustCoins_def transaction_def Let_def split: prod.splits option.splits sum.splits)
  then show ?thesis using assms adjustCoins_inv [of s rejects inp now tid] by (simp add: books_ok_def)
qed

lemma block_books: "books (snd (block_user uid reason actor now s)) = books s" "books (snd (unblock_user uid s)) = books s"
  by (auto simp: books_def block_user_def unblock_user_def findOneAndUpdate_def books_update_first split: option.splits)

lemma login_books: "books (au_db (snd (verifyLoginOtp J R sha inp jti uuid now st))) = books (au_db st)"
  by (auto simp: books_def verifyLoginOtp_def updateOne_def touch_login_def Let_def books_update_first split: sum.splits prod.splits option.splits)

lemma erasure_books:
  "books (au_db (snd (erasure_request R uid now st))) = books (au_db st)"
  "books (au_db (snd (erasure_cancel R uid now st))) = books (au_db st)"
  "books (au_db (snd (applyErasureHold uid reason actor now st))) = books (au_db st)"
  "books (au_db (snd (clearErasureHold uid now st))) = books (au_db st)"
  by (auto simp: books_def erasure_request_def erasure_cancel_def applyErasureHold_def clearErasureHold_def update_user_def updateOne_def
      with_sessions_def set_redis_def Let_def books_update_first books_findOneAndUpdate split: option.splits bool.splits)

lemma claim_books: "books (snd (claim_commit dec cid uid panLast4 now s)) = books s"
  by (auto simp: books_def claim_commit_def claim_tx_def settle_winner_def transaction_def Let_def split: sum.splits prod.splits option.splits)

lemma signup_books:
  assumes "books_ok (au_db st)" "sg_userId dr \<notin> ct_userId ` set (coin_txs (au_db st))"
  shows "books_ok (au_db (snd (verifySignupOtp dj J R sha nodeEnv inp dr now st)))"
    and "solvent (users (au_db st)) \<Longrightarrow> solvent (users (au_db (snd (verifySignupOtp dj J R sha nodeEnv inp dr now st))))"
proof -
  obtain answer st' where run: "verifySignupOtp dj J R sha nodeEnv inp dr now st = (answer, st')" by (metis surj_pair)
  have "books_ok (au_db st') \<and> (solvent (users (au_db st)) \<longrightarrow> solvent (users (au_db st')))"
    using run
  proof (cases rule: verifySignupOtp_cases)
    case refused
    then show ?thesis using assms(1) by simp
  next
    case (signed_up code user tokens st1 st2)
    let ?u = "signup_user inp code (resolve_referrer inp (users (au_db st))) now (sg_userId dr)"
    have keep: "au_db st1 = au_db st" using signup_otp_keeps [OF signed_up(4)] by simp
    from signed_up(6) have new: "\<not> list_ex (user_clash ?u) (users (au_db st))"
      "au_db st2 = (au_db st)\<lparr>users := users (au_db st) @ [?u], coin_txs := coin_txs (au_db st) @ [signup_tx_row (sg_userId dr) now (sg_txId dr)]\<rparr>"
      by (cases rule: doSignup_cases; simp add: keep)+
    have "u_coinBalance ?u = 3" by (simp add: signup_user_def SIGNUP_BONUS_COINS_def)
    then show ?thesis
      using assms coin_inv_signup [OF _ signup_clash(2) [OF new(1)] assms(2)] signed_up(7) new(2) by (auto simp: books_ok_def solvent_def)
  qed
  then show "books_ok (au_db (snd (verifySignupOtp dj J R sha nodeEnv inp dr now st)))"
    "solvent (users (au_db st)) \<Longrightarrow> solvent (users (au_db (snd (verifySignupOtp dj J R sha nodeEnv inp dr now st))))"
    by (simp_all add: run)
qed

section \<open>Webhooks and jobs\<close>

lemma entries_books: "books (with_entries f uid s) = books s"
  by (auto simp: books_def with_entries_def updateOne_def Let_def books_update_first books_findOneAndUpdate split: option.splits)

lemma books_of_fields:
  "users s' = users s \<Longrightarrow> coin_txs s' = coin_txs s \<Longrightarrow> votes s' = votes s \<Longrightarrow> post_completions s' = post_completions s \<Longrightarrow> books s' = books s"
  by (simp add: books_def)

lemma books_other [simp]:
  "books (s\<lparr>subscriptions := a\<rparr>) = books s" "books (s\<lparr>sub_payments := b\<rparr>) = books s" "books (s\<lparr>invoice_queue := c\<rparr>) = books s"
  "books (s\<lparr>donations := d\<rparr>) = books s" "books (s\<lparr>webhook_events := e\<rparr>) = books s" "books (s\<lparr>retry_queue := q\<rparr>) = books s"
  "books (s\<lparr>prize_pools := p\<rparr>) = books s" "books (s\<lparr>redeem_codes := r\<rparr>) = books s" "books (s\<lparr>top_donors := t\<rparr>) = books s"
  by (simp_all add: books_def)

lemma subscription_books:
  "books (applySubStatus sid stt s) = books s" "books (onCharged e pay now nid iok s) = books s"
  "books (onHalted e now s) = books s" "books (onCancelled e now s) = books s" "books (onCaptured pay now s) = books s"
  "books (onRefundProcessed r now s) = books s"
  by (auto simp: applySubStatus_def onCharged_def onHalted_def onCancelled_def onCaptured_def onRefundProcessed_def entries_books Let_def
      split: option.splits sum.splits prod.splits)

lemma dispatcher_books: "books (snd (defaultDispatcher wr dl ev pl s)) = books s"
  by (auto simp: defaultDispatcher_def run_handler_def requireSubs_def onAuthenticated_def onActivated_def onPending_def onPaused_def
      onResumed_def onCompleted_def subscription_books split: option.splits prod.splits)

lemma webhook_books: "books (snd (handleRazorpayWebhook sigOk parse wr dl raw signature eventId s)) = books s"
proof -
  have d: "books (snd (dispatchAndFinalise wr dl i ev s1)) = books s1" for i ev s1
    using dispatcher_books [of wr dl "ev_event ev" "ev_payload ev" s1]
    by (auto simp: dispatchAndFinalise_def finalise_done_def finalise_failed_def Let_def split: sum.splits prod.splits)
  have recv: "books s2 = books s1" if "receive_event i ev now s1 = (a, s2)" for i ev now s1 s2 a
    using that by (auto simp: receive_event_def Let_def split: option.splits prod.splits)
  have recl: "books s2 = books s1" if "reclaim_event i s1 = (a, s2)" for i s1 s2 a
    using that by (auto simp: reclaim_event_def Let_def split: option.splits prod.splits)
  show ?thesis
    by (auto simp: handleRazorpayWebhook_def d recv recl split: option.splits prod.splits bool.splits dest!: recv recl)
qed

lemma pools_books: "books (snd (snd (pool_fanout fails dj dk yk now ids ts s))) = books s"
proof (induction ts arbitrary: s)
  case (Cons t ts)
  have c: "books (snd (computeAndPublishPool dj inp now i s)) = books s" for inp i
    by (auto simp: computeAndPublishPool_def Let_def split: prod.splits option.splits)
  show ?case using Cons c by (auto split: prod.splits) (metis snd_conv)+
qed simp

lemma anonymize_books: "books (au_db (snd (anonymize_one R sha lc failed cf now c (report, st)))) = books (au_db st)"
  by (auto simp: anonymize_one_def anonymizeInTransaction_def books_def set_redis_def anonymize_patch_def updateOne_def Let_def
      books_update_first books_findOneAndUpdate)

lemma anonymize_all_books: "books (au_db (snd (fold (anonymize_one R sha lc failed cf now) cs rst))) = books (au_db (snd rst))"
proof (induction cs arbitrary: rst)
  case (Cons c cs)
  then show ?case using anonymize_books [of R sha lc failed cf now c "fst rst" "snd rst"] by simp
qed simp

lemma cron_books: "books (au_db (snd (snd (cronWorker env now job st)))) = books (au_db st)"
proof -
  have sweep: "books (snd (sweepExpiredTiers t b s)) = books s" for t b s
    by (auto simp: books_def sweepExpiredTiers_def updateMany_def Let_def)
  have pools: "books (snd (createPrizePoolHandler f dj t now ids s)) = books s" for f dj t now ids s
    using pools_books [of f dj "dayKeyIst dj t" "dj_yesterday dj t" now ids TIER_VALUES s]
    by (auto simp: createPrizePoolHandler_def Let_def split: prod.splits)
  have rest: "books (snd (createReconcileCodesHandler t s)) = books s" "books (snd (createTopDonorHandler l t s)) = books s" for t l s
    by (auto simp: createReconcileCodesHandler_def reconcileCopiedCodes_def createTopDonorHandler_def refreshTopDonorRanking_def Let_def split: prod.splits)
  have erase: "books (au_db (snd (user_anonymize_sweep R sha lc f cf t st))) = books (au_db st)" for R sha lc f cf t
    by (simp add: user_anonymize_sweep_def anonymize_all_books Let_def)
  show ?thesis
    using sweep pools rest erase
    by (auto simp: cronWorker_def createTierSweepHandler_def Let_def split_beta)
qed

section \<open>The reachable states\<close>

lemmas neutral_steps = block_books login_books erasure_books claim_books webhook_books cron_books

lemmas neutral_ok = neutral_steps [THEN books_same(1)] neutral_steps [THEN books_same(2)]

lemma step_books:
  assumes "market_step J env debits st st'" "books_ok (au_db st)"
  shows "books_ok (au_db st') \<and> (\<not> debits \<longrightarrow> solvent (users (au_db st)) \<longrightarrow> solvent (users (au_db st')))"
  using assms(1)
proof (cases rule: market_step.cases)
  case (adjust ainp rejects now tid)
  then show ?thesis using assms(2) adjust_books [of "au_db st"] adjustCoins_solvent [of "au_db st" ainp] by auto
qed (use assms(2) in \<open>simp_all add: neutral_ok vote_books complete_books signup_books\<close>)

definition receipts_ok :: "db \<Rightarrow> bool" where
  "receipts_ok s \<longleftrightarrow>
     map (\<lambda>v. (v_userId v, Some (Ref_Vote, Some (v_id v)), - v_coinsSpent v)) (votes s) =
       map (\<lambda>t. (ct_userId t, ct_reference t, ct_amount t)) (filter (\<lambda>t. ct_type t = VOTE_SPEND) (coin_txs s)) \<and>
     map (\<lambda>c. (pc_userId c, Some (Ref_Post, Some (pc_postId c)), pc_coinAwarded c)) (post_completions s) =
       map (\<lambda>t. (ct_userId t, ct_reference t, Some (ct_amount t))) (filter (\<lambda>t. ct_type t = POST_REWARD) (coin_txs s))"

lemma receipts_same: "books s' = books s \<Longrightarrow> receipts_ok s' = receipts_ok s"
  using books_same(3-5) [of s' s] by (simp add: receipts_ok_def)

lemma vote_receipts:
  assumes "receipts_ok s" shows "receipts_ok (snd (castVote_commit inp dk now vid tid s))"
proof (cases "castVote_tx inp dk now vid tid s")
  case (Pair r s')
  show ?thesis
  proof (cases r)
    case (Inl e)
    then show ?thesis using assms Pair castVote_tx_Inl [of inp dk now vid tid s e s'] by (simp add: castVote_commit_def)
  next
    case (Inr res)
    obtain u :: user where c: "create vote_clash (vote_row inp dk now vid) (votes s) = Inr (votes s')"
      and r: "coin_txs s' = coin_txs s @ [vote_spend_row inp (u_coinBalance u - VOTE_COST) now vid tid]" "post_completions s' = post_completions s"
      by (rule castVote_tx_Inr [OF Pair [unfolded Inr]]) (rule that)
    have "votes s' = votes s @ [vote_row inp dk now vid]" using c by (auto simp: create_def split: if_splits)
    then show ?thesis
      using assms Pair Inr r by (simp add: castVote_commit_def receipts_ok_def vote_row_def vote_spend_row_def)
  qed
qed

lemma complete_receipts:
  assumes "receipts_ok s" shows "receipts_ok (snd (completePost_commit inp dk rew now cid tid s))"
proof -
  have t: "receipts_ok (snd (completePost_tx inp dk rew now cid tid s))"
  proof (cases "completed inp s")
    case None
    have m: "map (\<lambda>c. (pc_userId c, Some (Ref_Post, Some (pc_postId c)), pc_coinAwarded c)) (update_first q (\<lambda>c. c\<lparr>pc_coinTxId := x\<rparr>) (cs :: post_completion list)) =
        map (\<lambda>c. (pc_userId c, Some (Ref_Post, Some (pc_postId c)), pc_coinAwarded c)) cs" for q x cs
      by (rule map_update_first) simp
    show ?thesis
      using assms m by (auto simp: completePost_tx_fresh [OF None] receipts_ok_def reward_row_def completion_row_def split: option.splits)
  next
    case (Some c)
    then show ?thesis using assms by (auto simp: completePost_tx_again split: option.splits)
  qed
  moreover have "receipts_ok (s\<lparr>coin_events := ev\<rparr>) = receipts_ok s" for s ev by (simp add: receipts_ok_def)
  ultimately show ?thesis by (auto simp: completePost_commit_def split: sum.splits prod.splits)
qed

lemma adjust_receipts: "receipts_ok s \<Longrightarrow> receipts_ok (snd (adjustCoins rejects inp now tid s))"
  by (auto simp: adjustCoins_def transaction_def receipts_ok_def Let_def split: prod.splits option.splits sum.splits)

lemma signup_receipts:
  assumes "receipts_ok (au_db st)" shows "receipts_ok (au_db (snd (verifySignupOtp dj J R sha nodeEnv inp dr now st)))"
proof -
  obtain answer st' where run: "verifySignupOtp dj J R sha nodeEnv inp dr now st = (answer, st')" by (metis surj_pair)
  have "receipts_ok (au_db st')"
    using run
  proof (cases rule: verifySignupOtp_cases)
    case (signed_up code user tokens st1 st2)
    have keep: "au_db st1 = au_db st" using signup_otp_keeps [OF signed_up(4)] by simp
    from signed_up(6) have "votes (au_db st2) = votes (au_db st)" "post_completions (au_db st2) = post_completions (au_db st)"
      "coin_txs (au_db st2) = coin_txs (au_db st) @ [signup_tx_row (sg_userId dr) now (sg_txId dr)]"
      by (cases rule: doSignup_cases; simp add: keep)+
    then show ?thesis using assms signed_up(7) by (simp add: receipts_ok_def signup_tx_row_def)
  qed (use assms in simp)
  then show ?thesis by (simp add: run)
qed

lemma step_receipts:
  assumes "market_step J env debits st st'" "receipts_ok (au_db st)" shows "receipts_ok (au_db st')"
  using assms(1)
  by (cases rule: market_step.cases)
    (use assms(2) in \<open>simp_all add: neutral_steps [THEN receipts_same] vote_receipts complete_receipts adjust_receipts signup_receipts\<close>)

section \<open>The bank behind the program\<close>

definition bank :: "db \<Rightarrow> oid \<rightharpoonup> coins" where
  "bank s = map_of (map (\<lambda>u. (u_id u, u_coinBalance u)) (users s))"

inductive bank_step :: "bool \<Rightarrow> (oid \<rightharpoonup> coins) \<Rightarrow> (oid \<rightharpoonup> coins) \<Rightarrow> bool" for debits where
  stay: "bank_step debits b b"
| open_account: "b i = None \<Longrightarrow> bank_step debits b (b(i \<mapsto> 3))"
| spend: "b i = Some c \<Longrightarrow> VOTE_COST \<le> c \<Longrightarrow> bank_step debits b (b(i \<mapsto> c - VOTE_COST))"
| earn: "b i = Some c \<Longrightarrow> debits \<or> 0 \<le> d \<Longrightarrow> bank_step debits b (b(i \<mapsto> c + d))"

lemma bank_update_first:
  assumes "findOne p us = Some u" "\<And>x. u_id (f x) = u_id x" "distinct (map u_id us)"
  shows "map_of (map (\<lambda>u. (u_id u, u_coinBalance u)) (update_first p f us)) =
    (map_of (map (\<lambda>u. (u_id u, u_coinBalance u)) us))(u_id u \<mapsto> u_coinBalance (f u))"
    and "map_of (map (\<lambda>u. (u_id u, u_coinBalance u)) us) (u_id u) = Some (u_coinBalance u)"
proof -
  show "map_of (map (\<lambda>u. (u_id u, u_coinBalance u)) us) (u_id u) = Some (u_coinBalance u)"
    using findOne_SomeD [OF assms(1)] assms(3) by (intro map_of_is_SomeI) (auto simp: comp_def)
  show "map_of (map (\<lambda>u. (u_id u, u_coinBalance u)) (update_first p f us)) =
    (map_of (map (\<lambda>u. (u_id u, u_coinBalance u)) us))(u_id u \<mapsto> u_coinBalance (f u))"
    using assms(1,3)
  proof (induction us)
    case (Cons x xs)
    show ?case
    proof (cases "p x")
      case True
      then show ?thesis using Cons.prems assms(2) by (auto simp: findOne_def fun_eq_iff)
    next
      case False
      then have f: "findOne p xs = Some u" using Cons.prems(1) by (simp add: findOne_def)
      then have "u_id x \<noteq> u_id u" using findOne_SomeD [OF f] Cons.prems(2) by auto
      then show ?thesis using Cons.IH [OF f] Cons.prems(2) False by (auto simp: fun_eq_iff)
    qed
  qed (simp add: findOne_def)
qed

lemma bank_same: "books s' = books s \<Longrightarrow> bank s' = bank s"
  by (simp add: books_def bank_def)

lemma bank_vote:
  assumes "distinct (map u_id (users s))"
  shows "bank_step debits (bank s) (bank (snd (castVote_commit inp dk now vid tid s)))"
proof (cases "castVote_tx inp dk now vid tid s")
  case (Pair r s')
  have c: "users (snd (castVote_commit inp dk now vid tid s)) = users s'" by (auto simp: castVote_commit_def Pair split: sum.splits)
  show ?thesis
  proof (cases r)
    case (Inl e)
    then show ?thesis using Pair castVote_tx_Inl [of inp dk now vid tid s e s'] by (simp add: castVote_commit_def bank_step.stay)
  next
    case (Inr res)
    obtain u :: user where f: "findOne (vote_guard (vi_userId inp)) (users s) = Some u"
      and u: "users s' = update_first (vote_guard (vi_userId inp)) (vote_debit dk) (users s)"
      by (rule castVote_tx_Inr [OF Pair [unfolded Inr]]) (rule that)
    note b = bank_update_first [OF f _ assms, of "vote_debit dk"]
    have "VOTE_COST \<le> u_coinBalance u" using findOne_SomeD [OF f] by (simp add: vote_guard_def)
    then show ?thesis
      using bank_step.spend [of "bank s" "u_id u" "u_coinBalance u" debits] b by (simp add: bank_def c u vote_debit_def)
  qed
qed

lemma bank_complete:
  assumes "distinct (map u_id (users s))" "0 \<le> rew"
  shows "bank_step debits (bank s) (bank (snd (completePost_commit inp dk rew now cid tid s)))"
proof -
  have c: "users (snd (completePost_commit inp dk rew now cid tid s)) = users (snd (completePost_tx inp dk rew now cid tid s))"
    by (auto simp: completePost_commit_def split: sum.splits prod.splits)
  show ?thesis
  proof (cases "completed inp s")
    case None
    show ?thesis
    proof (cases "findOne (\<lambda>u. u_id u = ci_userId inp) (users s)")
      case (Some u)
      note b = bank_update_first [OF Some award.upd_id [of rew] assms(1), unfolded award.upd_balance]
      show ?thesis
        using bank_step.earn [of "bank s" "u_id u" "u_coinBalance u" debits rew] b assms(2)
        by (simp add: bank_def c completePost_tx_fresh [OF None] Some)
    qed (simp add: bank_def c completePost_tx_fresh [OF None] bank_step.stay)
  next
    case (Some x)
    then show ?thesis by (auto simp: bank_def c completePost_tx_again bank_step.stay split: option.splits)
  qed
qed

lemma bank_adjust:
  assumes "distinct (map u_id (users s))" "debits \<or> 0 \<le> ai_delta inp"
  shows "bank_step debits (bank s) (bank (snd (adjustCoins rejects inp now tid s)))"
proof (cases "findOne (\<lambda>u. u_id u = ai_userId inp) (users s)")
  case (Some u)
  note b = bank_update_first [OF Some _ assms(1), of "adjust_balance (ai_delta inp)"]
  have "bank_step debits (bank s) ((bank s)(u_id u \<mapsto> u_coinBalance u + ai_delta inp))"
    using b(2) assms(2) by (intro bank_step.earn) (simp_all add: bank_def adjust_balance_def)
  then show ?thesis
    using b by (auto simp: adjustCoins_def transaction_def findOneAndUpdate_def Some bank_def adjust_balance_def Let_def intro: bank_step.stay)
qed (simp add: adjustCoins_def transaction_def findOneAndUpdate_def bank_step.stay)

lemma bank_signup: "bank_step debits (bank (au_db st)) (bank (au_db (snd (verifySignupOtp dj J R sha nodeEnv inp dr now st))))"
proof -
  obtain answer st' where run: "verifySignupOtp dj J R sha nodeEnv inp dr now st = (answer, st')" by (metis surj_pair)
  have "bank_step debits (bank (au_db st)) (bank (au_db st'))"
    using run
  proof (cases rule: verifySignupOtp_cases)
    case (signed_up code user tokens st1 st2)
    let ?u = "signup_user inp code (resolve_referrer inp (users (au_db st))) now (sg_userId dr)"
    have keep: "au_db st1 = au_db st" using signup_otp_keeps [OF signed_up(4)] by simp
    from signed_up(6) have new: "\<not> list_ex (user_clash ?u) (users (au_db st))" "users (au_db st2) = users (au_db st) @ [?u]"
      by (cases rule: doSignup_cases; simp add: keep)+
    have u: "u_id ?u = sg_userId dr" "u_coinBalance ?u = 3" by (simp_all add: signup_user_def SIGNUP_BONUS_COINS_def)
    have fresh: "bank (au_db st) (sg_userId dr) = None"
      using signup_clash(2) [OF new(1)] by (auto simp: bank_def map_of_eq_None_iff image_image)
    have "bank (au_db st') = (bank (au_db st))(sg_userId dr \<mapsto> 3)"
      using fresh by (auto simp: bank_def signed_up(7) new(2) u map_add_def fun_eq_iff split: option.splits)
    then show ?thesis using bank_step.open_account [of "bank (au_db st)" "sg_userId dr" debits, OF fresh] by simp
  qed (simp add: bank_step.stay)
  then show ?thesis by (simp add: run)
qed

section \<open>A run for the witnesses\<close>

definition sample_market :: "key_space auth_state" where
  "sample_market = snd (verifySignupOtp gregorian_ist payload_jose space_redis id ''development'' sample_signup sample_signup_draws
     946684800000 (sample_auth [] []))"

definition sample_ballot :: vote_input where
  "sample_ballot = \<lparr>vi_userId = 7, vi_tier = PUBLIC, vi_target = ''GIFT_CODE'', vi_ipAddress = ''::1'', vi_deviceFingerprint = None\<rparr>"

lemma sample_market_starts: "books_ok (au_db (sample_auth [] []))" "receipts_ok (au_db (sample_auth [] []))" "solvent (users (au_db (sample_auth [] [])))"
  by (simp_all add: books_ok_def receipts_ok_def solvent_def coin_inv_def audit_ok_def unique_on_def keys_of_def sample_auth_def empty_db_def)

lemma sample_market_opens: "market_step payload_jose sample_worker_env False (sample_auth [] []) sample_market"
proof -
  have "sg_userId sample_signup_draws \<notin> ct_userId ` set (coin_txs (au_db (sample_auth [] [])))" by (simp add: sample_auth_def empty_db_def)
  from market_step.signup [OF this, of payload_jose sample_worker_env False "''development''" sample_signup 946684800000]
  show ?thesis by (simp add: sample_market_def sample_worker_env_def)
qed

lemma sample_market_run:
  "(market_step payload_jose sample_worker_env False)\<^sup>*\<^sup>* (sample_auth [] [])
     (sample_market\<lparr>au_db := snd (castVote_commit sample_ballot ''2000-01-01'' 946684800000 20 21 (au_db sample_market))\<rparr>)"
  by (rule rtranclp.rtrancl_into_rtrancl, rule r_into_rtranclp, rule sample_market_opens, rule market_step.vote)

end
