(* ===== verification/Dead_Letters.thy ===== *)
theory Dead_Letters
  imports App_Errors Samples
begin

text \<open>
  The dead-letter queue: the listener that moves exhausted jobs into it
  (src/workers/dlq.ts) and the admin operations on it (src/modules/admin-dlq). A queue is the
  list of its jobs in the order they were added; adding a job whose id is present is a no-op,
  as in BullMQ. The dead-letter queue has no worker, so its entries stay; an entry added
  without an id gets one from the queue, the parameter \<open>newId\<close>.
\<close>

section \<open>Jobs and entries\<close>

record bull_job =
  j_id :: "string option"
  j_name :: string
  j_data :: string
  j_attemptsMade :: int
  j_attempts :: "int option" \<comment> \<open>\<open>opts.attempts\<close>\<close>

record dlq_payload =
  dp_originalQueue :: string
  dp_originalJobId :: string
  dp_originalJobName :: string
  dp_originalData :: string
  dp_failedReason :: string
  dp_attemptsMade :: int
  dp_failedAt :: date

record dlq_audit =
  da_id :: oid
  da_originalJobId :: string
  da_originalQueue :: string
  da_originalData :: string
  da_originalFailedAt :: date
  da_requeuedAt :: date
  da_requeuedBy :: oid
  da_requeuedByEmail :: string
  da_requeuedToJobId :: string
  da_reason :: string

definition audit_clash :: "dlq_audit \<Rightarrow> dlq_audit \<Rightarrow> bool" where
  "audit_clash x y \<longleftrightarrow> da_originalJobId x = da_originalJobId y"

record queue_state =
  q_jobs :: "string \<Rightarrow> (string \<times> string \<times> string) list" \<comment> \<open>queue name to id, name and data\<close>
  q_dlq :: "(string \<times> dlq_payload) list"
  q_audits :: "dlq_audit list"

definition queue_add :: "string \<Rightarrow> string \<Rightarrow> string \<Rightarrow> string \<Rightarrow> queue_state \<Rightarrow> queue_state" where
  "queue_add queue jobId name data st =
     (if jobId \<in> fst ` set (q_jobs st queue) then st
      else st\<lparr>q_jobs := (q_jobs st)(queue := q_jobs st queue @ [(jobId, name, data)])\<rparr>)"

section \<open>Routing\<close>

text \<open>The \<open>failed\<close> listener; \<open>addOk\<close> is whether the dead-letter queue takes the entry.\<close>

definition routeFailedToDlq :: "string \<Rightarrow> bull_job option \<Rightarrow> string \<Rightarrow> date \<Rightarrow> string \<Rightarrow> bool \<Rightarrow> queue_state \<Rightarrow> queue_state" where
  "routeFailedToDlq workerName job errMessage now newId addOk st =
     (case job of
        None \<Rightarrow> st
      | Some job \<Rightarrow>
          let maxAttempts = or_default (j_attempts job) 1
          in if j_attemptsMade job < maxAttempts then st
             else let payload = \<lparr>dp_originalQueue = workerName, dp_originalJobId = or_default (j_id job) ''(no-id)'',
                        dp_originalJobName = j_name job, dp_originalData = j_data job, dp_failedReason = errMessage,
                        dp_attemptsMade = j_attemptsMade job, dp_failedAt = now\<rparr>
                  in if addOk then st\<lparr>q_dlq := q_dlq st @ [(newId, payload)]\<rparr> else st)"

section \<open>Admin operations\<close>

record dlq_entry =
  de_jobId :: string
  de_payload :: dlq_payload
  de_requeued :: bool
  de_audit :: "dlq_audit option"

definition dlq_list :: "bool \<Rightarrow> int \<Rightarrow> queue_state \<Rightarrow> dlq_entry list" where
  "dlq_list includeRequeued limit st =
     (let jobs = take (nat limit) (rev (q_dlq st));
          jobIds = filter (\<lambda>i. i \<noteq> []) (map fst jobs);
          auditRows = find_docs (\<lambda>a. da_originalJobId a \<in> set jobIds) (q_audits st);
          auditByJobId = fold (\<lambda>a m. m(da_originalJobId a \<mapsto> a)) auditRows Map.empty
      in List.map_filter (\<lambda>(i, payload).
           if i = [] then None
           else if \<not> includeRequeued \<and> auditByJobId i \<noteq> None then None
           else Some \<lparr>de_jobId = i, de_payload = payload, de_requeued = auditByJobId i \<noteq> None,
                      de_audit = auditByJobId i\<rparr>) jobs)"

record requeue_input =
  rq_jobId :: string
  rq_actorId :: oid
  rq_actorEmail :: string
  rq_reason :: string

record requeue_result =
  rqr_originalJobId :: string
  rqr_originalQueue :: string
  rqr_requeuedToJobId :: string
  rqr_auditId :: oid

definition requeue_id :: "string \<Rightarrow> date \<Rightarrow> string" where
  "requeue_id originalJobId now = ''requeue-'' @ originalJobId @ ''-'' @ js_String now"

definition audit_row :: "requeue_input \<Rightarrow> dlq_payload \<Rightarrow> date \<Rightarrow> oid \<Rightarrow> dlq_audit" where
  "audit_row inp payload now auditId =
     \<lparr>da_id = auditId, da_originalJobId = dp_originalJobId payload, da_originalQueue = dp_originalQueue payload,
      da_originalData = dp_originalData payload, da_originalFailedAt = dp_failedAt payload, da_requeuedAt = now,
      da_requeuedBy = rq_actorId inp, da_requeuedByEmail = rq_actorEmail inp,
      da_requeuedToJobId = requeue_id (dp_originalJobId payload) now, da_reason = rq_reason inp\<rparr>"

definition requeue :: "requeue_input \<Rightarrow> date \<Rightarrow> oid \<Rightarrow> queue_state \<Rightarrow> (app_error + requeue_result) \<times> queue_state" where
  "requeue inp now auditId st =
     (case findOne (\<lambda>j. fst j = rq_jobId inp) (q_dlq st) of
        None \<Rightarrow> (Inl NotFoundError, st)
      | Some (_, payload) \<Rightarrow>
          if findOne (\<lambda>a. da_originalJobId a = rq_jobId inp) (q_audits st) \<noteq> None then (Inl ValidationError, st)
          else let requeuedToJobId = requeue_id (dp_originalJobId payload) now;
                   st1 = queue_add (dp_originalQueue payload) requeuedToJobId (dp_originalJobName payload) (dp_originalData payload) st
               in case create audit_clash (audit_row inp payload now auditId) (q_audits st1) of
                    Inl _ \<Rightarrow> (Inl (InternalError ''INTERNAL''), st1)
                  | Inr audits \<Rightarrow>
                      (Inr \<lparr>rqr_originalJobId = dp_originalJobId payload, rqr_originalQueue = dp_originalQueue payload,
                            rqr_requeuedToJobId = requeuedToJobId, rqr_auditId = auditId\<rparr>,
                       st1\<lparr>q_audits := audits\<rparr>))"

section \<open>Properties\<close>

text \<open>a failed job is moved to the dead-letter queue exactly when its attempts are used up, with its
  queue, name and data, and no other job and no entry is touched.\<close>

theorem routeFailedToDlq_exact:
  "let st' = routeFailedToDlq queue (Some job) err now newId True st in
     q_jobs st' = q_jobs st \<and> q_audits st' = q_audits st \<and>
     (if or_default (j_attempts job) 1 \<le> j_attemptsMade job
      then \<exists>p. q_dlq st' = q_dlq st @ [(newId, p)] \<and> dp_originalQueue p = queue \<and> dp_originalJobName p = j_name job \<and>
             dp_originalData p = j_data job \<and> dp_attemptsMade p = j_attemptsMade job
      else q_dlq st' = q_dlq st)"
  by (simp add: routeFailedToDlq_def Let_def)

lemma js_String_inj: "0 \<le> a \<Longrightarrow> 0 \<le> b \<Longrightarrow> js_String a = js_String b \<Longrightarrow> a = b"
  using dec_digits_inj [of "nat a" "nat b"] by (simp add: js_String_def)

lemma requeue_id_inj: "0 \<le> a \<Longrightarrow> 0 \<le> b \<Longrightarrow> requeue_id i a = requeue_id i b \<Longrightarrow> a = b"
  by (auto simp: requeue_id_def dest: js_String_inj)

lemma requeue_step:
  assumes "findOne (\<lambda>j. fst j = rq_jobId inp) (q_dlq st) = Some (i, p)"
    and "findOne (\<lambda>a. da_originalJobId a = rq_jobId inp) (q_audits st) = None"
    and "requeue_id (dp_originalJobId p) now \<notin> fst ` set (q_jobs st (dp_originalQueue p))"
    and "requeue inp now auditId st = (r, st')"
  shows "q_dlq st' = q_dlq st \<and>
    q_jobs st' (dp_originalQueue p) =
      q_jobs st (dp_originalQueue p) @ [(requeue_id (dp_originalJobId p) now, dp_originalJobName p, dp_originalData p)] \<and>
    (set (q_audits st') \<subseteq> insert (audit_row inp p now auditId) (set (q_audits st)))"
  using assms
  by (auto simp: requeue_def queue_add_def Let_def create_def image_iff split: sum.splits if_splits)

lemma fold_audit_other:
  "\<forall>a \<in> set as. da_originalJobId a \<noteq> x \<Longrightarrow> fold (\<lambda>a m. m(da_originalJobId a \<mapsto> a)) as m x = m x"
  by (induction as arbitrary: m) auto

text \<open>a dead-letter entry can be requeued again and again: the audit row that should prevent it is
  written under the id of the original job and looked up under the id of the dead-letter
  entry. Whenever the two ids differ, as they do for every entry the listener adds, a second
  request adds a second job to the source queue, and the list still shows the entry as not
  requeued.\<close>

theorem requeue_twice_runs_twice:
  assumes "findOne (\<lambda>j. fst j = rq_jobId inp) (q_dlq st) = Some (i, p)" and "rq_jobId inp \<noteq> dp_originalJobId p"
    and "findOne (\<lambda>a. da_originalJobId a = rq_jobId inp) (q_audits st) = None"
    and "\<And>t. requeue_id (dp_originalJobId p) t \<notin> fst ` set (q_jobs st (dp_originalQueue p))"
    and "0 \<le> t1" and "t1 < t2"
  shows "map fst (q_jobs (snd (requeue inp t2 a2 (snd (requeue inp t1 a1 st)))) (dp_originalQueue p)) =
      map fst (q_jobs st (dp_originalQueue p)) @ [requeue_id (dp_originalJobId p) t1, requeue_id (dp_originalJobId p) t2] \<and>
    (\<forall>limit e. e \<in> set (dlq_list True limit (snd (requeue inp t1 a1 st))) \<longrightarrow> de_jobId e = rq_jobId inp \<longrightarrow> \<not> de_requeued e)"
proof -
  let ?s1 = "snd (requeue inp t1 a1 st)"
  have one: "q_dlq ?s1 = q_dlq st"
    "q_jobs ?s1 (dp_originalQueue p) = q_jobs st (dp_originalQueue p) @ [(requeue_id (dp_originalJobId p) t1, dp_originalJobName p, dp_originalData p)]"
    "set (q_audits ?s1) \<subseteq> insert (audit_row inp p t1 a1) (set (q_audits st))"
    using requeue_step [OF assms(1,3,4) prod.collapse [symmetric], of t1 a1] by blast+
  have none: "findOne (\<lambda>a. da_originalJobId a = rq_jobId inp) (q_audits ?s1) = None"
    using one(3) assms(2,3) by (auto simp: findOne_None_iff audit_row_def)
  have "requeue_id (dp_originalJobId p) t1 \<noteq> requeue_id (dp_originalJobId p) t2"
    using requeue_id_inj [of t1 t2] assms(5,6) by auto
  then have fresh: "requeue_id (dp_originalJobId p) t2 \<notin> fst ` set (q_jobs ?s1 (dp_originalQueue p))"
    using assms(4) one(2) by auto
  have two: "q_jobs (snd (requeue inp t2 a2 ?s1)) (dp_originalQueue p) =
      q_jobs ?s1 (dp_originalQueue p) @ [(requeue_id (dp_originalJobId p) t2, dp_originalJobName p, dp_originalData p)]"
    using requeue_step [OF _ none fresh prod.collapse [symmetric], of i a2] assms(1) one(1) by simp
  have "\<not> de_requeued e" if "e \<in> set (dlq_list True limit ?s1)" "de_jobId e = rq_jobId inp" for limit e
    using that none by (auto simp: dlq_list_def Let_def List.map_filter_def find_docs_def findOne_None_iff fold_audit_other split: if_splits)
  then show ?thesis using one(2) two by auto
qed

theorem requeue_twice_runs_twice_witness:
  "map fst (q_jobs (snd (requeue \<lparr>rq_jobId = ''1'', rq_actorId = 1, rq_actorEmail = [], rq_reason = []\<rparr> 20 6
     (snd (requeue \<lparr>rq_jobId = ''1'', rq_actorId = 1, rq_actorEmail = [], rq_reason = []\<rparr> 10 5
       (routeFailedToDlq ''invoice'' (Some \<lparr>j_id = Some ''invoice-3'', j_name = ''invoice-generate'', j_data = ''3'', j_attemptsMade = 3, j_attempts = Some 3\<rparr>)
          ''boom'' 5 ''1'' True \<lparr>q_jobs = \<lambda>_. [], q_dlq = [], q_audits = []\<rparr>))))) ''invoice'') =
   [''requeue-invoice-3-10'', ''requeue-invoice-3-20'']"
proof -
  let ?inp = "\<lparr>rq_jobId = ''1'', rq_actorId = 1, rq_actorEmail = [], rq_reason = []\<rparr>"
  let ?p = "\<lparr>dp_originalQueue = ''invoice'', dp_originalJobId = ''invoice-3'', dp_originalJobName = ''invoice-generate'',
     dp_originalData = ''3'', dp_failedReason = ''boom'', dp_attemptsMade = 3, dp_failedAt = 5\<rparr>"
  let ?st = "routeFailedToDlq ''invoice'' (Some \<lparr>j_id = Some ''invoice-3'', j_name = ''invoice-generate'', j_data = ''3'', j_attemptsMade = 3, j_attempts = Some 3\<rparr>)
          ''boom'' 5 ''1'' True \<lparr>q_jobs = \<lambda>_. [], q_dlq = [], q_audits = []\<rparr>"
  have st: "?st = \<lparr>q_jobs = \<lambda>_. [], q_dlq = [(''1'', ?p)], q_audits = []\<rparr>" by (simp add: routeFailedToDlq_def Let_def)
  have ids: "requeue_id ''invoice-3'' 10 = ''requeue-invoice-3-10''" "requeue_id ''invoice-3'' 20 = ''requeue-invoice-3-20''" by code_simp+
  show ?thesis using requeue_twice_runs_twice [of ?inp ?st "''1''" ?p 10 20 6 5] unfolding st
    by (simp add: findOne_def ids)
qed

end
