(* ===== verification/Custom_Rooms.thy ===== *)
theory Custom_Rooms
  imports Tier Calendar Coins "HOL-Library.Multiset" Samples
begin

text \<open>
  Custom rooms, the tournaments of the program: the user operations of
  src/modules/custom-rooms/custom-rooms.service.ts (list, register, result), the admin
  operations of custom-rooms.admin.service.ts (create, credentials, start, end, results,
  winners) and the repository query. Encryption is a parameter. Registration writes twice, the
  participant array and then the denormalised counter, so it is two steps of the step relation.
\<close>

section \<open>Listing\<close>

definition requireTournamentsEnabled :: "db \<Rightarrow> app_error + unit" where
  "requireTournamentsEnabled s =
     (case findOne (\<lambda>c. cfg_key c = ''default'') (app_configs s) of
        None \<Rightarrow> Inl (ForbiddenError ''FEATURE_DISABLED'')
      | Some cfg \<Rightarrow> if cfg_tournaments cfg then Inr () else Inl (ForbiddenError ''FEATURE_DISABLED''))"

definition PARTICIPANT_CAP :: nat where "PARTICIPANT_CAP = 100"

definition listRoomsForDayAndTier :: "day_key \<Rightarrow> tier \<Rightarrow> game \<Rightarrow> int \<Rightarrow> custom_room list \<Rightarrow> custom_room list" where
  "listRoomsForDayAndTier dayKey tier game page rooms =
     take 8 (drop (nat ((page - 1) * 8))
       (sort_key cr_scheduledAt (find_docs (\<lambda>r. cr_tier r = tier \<and> cr_dayKey r = dayKey \<and> cr_game r = game) rooms)))"

definition room_id_field :: "custom_room \<Rightarrow> enc_field" where
  "room_id_field r = \<lparr>ef_ct = or_default (cr_roomIdCt r) [], ef_iv = or_default (cr_roomIdIv r) [],
     ef_tag = or_default (cr_roomIdTag r) [], ef_dekEnc = or_default (cr_roomIdDekEnc r) []\<rparr>"

definition room_pwd_field :: "custom_room \<Rightarrow> enc_field" where
  "room_pwd_field r = \<lparr>ef_ct = or_default (cr_roomPwdCt r) [], ef_iv = or_default (cr_roomPwdIv r) [],
     ef_tag = or_default (cr_roomPwdTag r) [], ef_dekEnc = or_default (cr_roomPwdDekEnc r) []\<rparr>"

definition has_credentials :: "custom_room \<Rightarrow> bool" where
  "has_credentials r \<longleftrightarrow>
     truthy_str (cr_roomIdCt r) \<and> truthy_str (cr_roomIdIv r) \<and> truthy_str (cr_roomIdTag r) \<and> truthy_str (cr_roomIdDekEnc r) \<and>
     truthy_str (cr_roomPwdCt r) \<and> truthy_str (cr_roomPwdIv r) \<and> truthy_str (cr_roomPwdTag r) \<and> truthy_str (cr_roomPwdDekEnc r)"

text \<open>The credentials of a room for one caller: \<open>Inr None\<close> when they are withheld, \<open>Inl\<close> when
  decryption throws.\<close>

definition maybeDecryptCreds ::
  "(enc_field \<Rightarrow> string option) \<Rightarrow> custom_room \<Rightarrow> sub_entry list \<Rightarrow> bool \<Rightarrow> date \<Rightarrow> app_error + (string \<times> string) option" where
  "maybeDecryptCreds dec room subs isRegistered now =
     (if \<not> isRegistered then Inr None
      else if \<not> userCanAccessTier subs (cr_tier room) now then Inr None
      else if (case cr_visibleFromAt room of None \<Rightarrow> True | Some v \<Rightarrow> now < v) then Inr None
      else if \<not> has_credentials room then Inr None
      else (case dec (room_id_field room) of
          None \<Rightarrow> Inl (InternalError ''INTERNAL'')
        | Some roomId \<Rightarrow> (case dec (room_pwd_field room) of
              None \<Rightarrow> Inl (InternalError ''INTERNAL'')
            | Some roomPwd \<Rightarrow> Inr (Some (roomId, roomPwd)))))"

record room_item =
  ri_id :: oid
  ri_game :: game
  ri_scheduledAt :: date
  ri_status :: room_status
  ri_visibleFromAt :: "date option"
  ri_resultEnabledAt :: "date option"
  ri_tier :: tier
  ri_pageNumber :: "int option"
  ri_notice :: "string option"
  ri_participantCount :: int
  ri_isRegistered :: bool
  ri_credentials :: "(string \<times> string) option"

definition room_item :: "oid \<Rightarrow> (string \<times> string) option \<Rightarrow> custom_room \<Rightarrow> room_item" where
  "room_item userId creds room =
     \<lparr>ri_id = cr_id room, ri_game = cr_game room, ri_scheduledAt = cr_scheduledAt room, ri_status = cr_status room,
      ri_visibleFromAt = cr_visibleFromAt room, ri_resultEnabledAt = cr_resultEnabledAt room, ri_tier = cr_tier room,
      ri_pageNumber = cr_pageNumber room, ri_notice = cr_notice room,
      ri_participantCount = int (length (cr_registeredParticipants room)),
      ri_isRegistered = userId \<in> set (cr_registeredParticipants room), ri_credentials = creds\<rparr>"

fun list_rooms_loop ::
  "(enc_field \<Rightarrow> string option) \<Rightarrow> oid \<Rightarrow> sub_entry list \<Rightarrow> date \<Rightarrow> custom_room list \<Rightarrow> app_error + room_item list" where
  "list_rooms_loop dec userId subs now [] = Inr []"
| "list_rooms_loop dec userId subs now (room # rooms) =
     (case maybeDecryptCreds dec room subs (userId \<in> set (cr_registeredParticipants room)) now of
        Inl e \<Rightarrow> Inl e
      | Inr creds \<Rightarrow> (case list_rooms_loop dec userId subs now rooms of
            Inl e \<Rightarrow> Inl e
          | Inr items \<Rightarrow> Inr (room_item userId creds room # items)))"

record list_rooms_input =
  lr_userId :: oid
  lr_subscriptions :: "sub_entry list"
  lr_tier :: tier
  lr_game :: game
  lr_page :: "int option"
  lr_dayKey :: "day_key option"

definition listRoomsForDay :: "dayjs \<Rightarrow> (enc_field \<Rightarrow> string option) \<Rightarrow> list_rooms_input \<Rightarrow> date \<Rightarrow> db \<Rightarrow> app_error + room_item list" where
  "listRoomsForDay dj dec inp now s =
     (case requireTournamentsEnabled s of
        Inl e \<Rightarrow> Inl e
      | Inr _ \<Rightarrow>
          list_rooms_loop dec (lr_userId inp) (lr_subscriptions inp) now
            (listRoomsForDayAndTier (or_default (lr_dayKey inp) (dayKeyIst dj now)) (lr_tier inp) (lr_game inp)
               (or_default (lr_page inp) 1) (custom_rooms s)))"

section \<open>Registration\<close>

definition open_seat :: "oid \<Rightarrow> custom_room \<Rightarrow> bool" where
  "open_seat roomId r \<longleftrightarrow> cr_id r = roomId \<and> (cr_status r = R_SCHEDULED \<or> cr_status r = R_LIVE) \<and>
     \<not> PARTICIPANT_CAP - 1 < length (cr_registeredParticipants r)"

definition add_participant :: "oid \<Rightarrow> custom_room \<Rightarrow> custom_room" where
  "add_participant userId r =
     r\<lparr>cr_registeredParticipants :=
         (if userId \<in> set (cr_registeredParticipants r) then cr_registeredParticipants r
          else cr_registeredParticipants r @ [userId])\<rparr>"

text \<open>The atomic \<open>$addToSet\<close>, which returns the room as it was before, and the counter.\<close>

definition register_add :: "oid \<Rightarrow> oid \<Rightarrow> db \<Rightarrow> custom_room option \<times> db" where
  "register_add roomId userId s =
     (findOne (open_seat roomId) (custom_rooms s),
      s\<lparr>custom_rooms := update_first (open_seat roomId) (add_participant userId) (custom_rooms s)\<rparr>)"

definition register_count :: "oid \<Rightarrow> db \<Rightarrow> db" where
  "register_count roomId s =
     s\<lparr>custom_rooms := snd (updateOne (\<lambda>r. cr_id r = roomId) (\<lambda>r. r\<lparr>cr_participantCount := cr_participantCount r + 1\<rparr>)
         (custom_rooms s))\<rparr>"

definition register_refused :: "oid \<Rightarrow> oid \<Rightarrow> db \<Rightarrow> app_error + bool" where
  "register_refused roomId userId s =
     (case findOne (\<lambda>r. cr_id r = roomId) (custom_rooms s) of
        None \<Rightarrow> Inl NotFoundError
      | Some nowDoc \<Rightarrow>
          if userId \<in> set (cr_registeredParticipants nowDoc) then Inr True
          else if cr_status nowDoc \<noteq> R_SCHEDULED \<and> cr_status nowDoc \<noteq> R_LIVE then Inl (ConflictError ''ROOM_STATE_INVALID'')
          else if PARTICIPANT_CAP \<le> length (cr_registeredParticipants nowDoc) then Inl (UnprocessableError ''ROOM_FULL'')
          else Inl (InternalError ''REGISTER_FAILED''))"

text \<open>The answer is \<open>alreadyRegistered\<close>.\<close>

definition register :: "oid \<Rightarrow> oid \<Rightarrow> sub_entry list \<Rightarrow> date \<Rightarrow> db \<Rightarrow> (app_error + bool) \<times> db" where
  "register roomId userId subs now s =
     (case requireTournamentsEnabled s of
        Inl e \<Rightarrow> (Inl e, s)
      | Inr _ \<Rightarrow>
          (case findOne (\<lambda>r. cr_id r = roomId) (custom_rooms s) of
             None \<Rightarrow> (Inl NotFoundError, s)
           | Some room \<Rightarrow>
               if \<not> userCanAccessTier subs (cr_tier room) now then (Inl (ForbiddenError ''TIER_NOT_ACCESSIBLE''), s)
               else (case register_add roomId userId s of
                   (None, s1) \<Rightarrow> (register_refused roomId userId s1, s1)
                 | (Some pre, s1) \<Rightarrow>
                     if userId \<in> set (cr_registeredParticipants pre) then (Inr True, s1)
                     else (Inr False, register_count roomId s1))))"

section \<open>Results\<close>

datatype rank = Rank_top1 | Rank_top2 | Rank_top3 | Rank_extra

record result_view =
  rv_room :: "oid \<times> game \<times> date \<times> day_key"
  rv_inRoomImageUrl :: "string option"
  rv_tiles :: "(rank \<times> result_bucket) list"

definition result_tiles :: "room_result \<Rightarrow> (rank \<times> result_bucket) list" where
  "result_tiles r =
     List.map_filter (\<lambda>(k, b). map_option (Pair k) b)
       [(Rank_top1, rr_top1 r), (Rank_top2, rr_top2 r), (Rank_top3, rr_top3 r), (Rank_extra, rr_extra r)]"

definition getResult :: "oid \<Rightarrow> date \<Rightarrow> db \<Rightarrow> app_error + result_view" where
  "getResult roomId now s =
     (case findOne (\<lambda>r. cr_id r = roomId) (custom_rooms s) of
        None \<Rightarrow> Inl NotFoundError
      | Some room \<Rightarrow>
          if (case cr_resultEnabledAt room of None \<Rightarrow> True | Some d \<Rightarrow> now < d) then Inl NotFoundError
          else let result = findOne (\<lambda>r. rr_roomId r = roomId) (room_results s)
               in Inr \<lparr>rv_room = (cr_id room, cr_game room, cr_scheduledAt room, cr_dayKey room),
                       rv_inRoomImageUrl = (case result of None \<Rightarrow> None
                          | Some r \<Rightarrow> if truthy_str (rr_inRoomImageUrl r) then rr_inRoomImageUrl r else None),
                       rv_tiles = (case result of None \<Rightarrow> [] | Some r \<Rightarrow> result_tiles r)\<rparr>)"

section \<open>Admin operations\<close>

record room_create_input =
  rci_game :: game
  rci_dayKey :: day_key
  rci_scheduledAt :: date
  rci_visibleFromAt :: "date option"
  rci_resultEnabledAt :: "date option"
  rci_tier :: "tier option"
  rci_pageNumber :: "int option"
  rci_notice :: "string option"

definition room_row :: "room_create_input \<Rightarrow> oid \<Rightarrow> date \<Rightarrow> oid \<Rightarrow> custom_room" where
  "room_row inp actorId now newId =
     \<lparr>cr_id = newId, cr_createdAt = now, cr_game = rci_game inp, cr_dayKey = rci_dayKey inp,
      cr_scheduledAt = rci_scheduledAt inp, cr_roomIdCt = None, cr_roomIdIv = None, cr_roomIdTag = None,
      cr_roomIdDekEnc = None, cr_roomPwdCt = None, cr_roomPwdIv = None, cr_roomPwdTag = None, cr_roomPwdDekEnc = None,
      cr_visibleFromAt = Some (or_default (rci_visibleFromAt inp) (rci_scheduledAt inp - 5 * 60000)),
      cr_resultEnabledAt = Some (or_default (rci_resultEnabledAt inp) (rci_scheduledAt inp + 30 * 60000)),
      cr_status = R_SCHEDULED, cr_pageNumber = rci_pageNumber inp, cr_notice = rci_notice inp,
      cr_tier = or_default (rci_tier inp) PUBLIC, cr_participantCount = 0, cr_registeredParticipants = [],
      cr_createdBy = actorId\<rparr>"

definition admin_createRoom :: "room_create_input \<Rightarrow> oid \<Rightarrow> date \<Rightarrow> oid \<Rightarrow> db \<Rightarrow> custom_room \<times> db" where
  "admin_createRoom inp actorId now newId s =
     (let doc = room_row inp actorId now newId in (doc, s\<lparr>custom_rooms := custom_rooms s @ [doc]\<rparr>))"

definition set_fields :: "enc_field \<Rightarrow> enc_field \<Rightarrow> custom_room \<Rightarrow> custom_room" where
  "set_fields i p r =
     r\<lparr>cr_roomIdCt := Some (ef_ct i), cr_roomIdIv := Some (ef_iv i), cr_roomIdTag := Some (ef_tag i),
       cr_roomIdDekEnc := Some (ef_dekEnc i), cr_roomPwdCt := Some (ef_ct p), cr_roomPwdIv := Some (ef_iv p),
       cr_roomPwdTag := Some (ef_tag p), cr_roomPwdDekEnc := Some (ef_dekEnc p)\<rparr>"

definition setCredentials :: "(string \<Rightarrow> enc_field option) \<Rightarrow> oid \<Rightarrow> string \<Rightarrow> string \<Rightarrow> db \<Rightarrow> (app_error + unit) \<times> db" where
  "setCredentials enc roomId plaintextRoomId plaintextRoomPwd s =
     (case findOne (\<lambda>r. cr_id r = roomId) (custom_rooms s) of
        None \<Rightarrow> (Inl NotFoundError, s)
      | Some room \<Rightarrow>
          (case enc plaintextRoomId of
             None \<Rightarrow> (Inl (InternalError ''INTERNAL''), s)
           | Some i \<Rightarrow> (case enc plaintextRoomPwd of
                 None \<Rightarrow> (Inl (InternalError ''INTERNAL''), s)
               | Some p \<Rightarrow> (Inr (), s\<lparr>custom_rooms := snd (updateOne (\<lambda>r. cr_id r = roomId) (set_fields i p) (custom_rooms s))\<rparr>))))"

definition move_room :: "room_status \<Rightarrow> room_status \<Rightarrow> oid \<Rightarrow> db \<Rightarrow> (app_error + unit) \<times> db" where
  "move_room from' to' roomId s =
     (case findOneAndUpdate (\<lambda>r. cr_id r = roomId \<and> cr_status r = from') (\<lambda>r. r\<lparr>cr_status := to'\<rparr>) (custom_rooms s) of
        (None, _) \<Rightarrow> (Inl (ConflictError ''ROOM_STATE_INVALID''), s)
      | (Some _, rooms) \<Rightarrow> (Inr (), s\<lparr>custom_rooms := rooms\<rparr>))"

definition startMatch :: "oid \<Rightarrow> db \<Rightarrow> (app_error + unit) \<times> db" where
  "startMatch = move_room R_SCHEDULED R_LIVE"

definition endMatch :: "oid \<Rightarrow> db \<Rightarrow> (app_error + unit) \<times> db" where
  "endMatch = move_room R_LIVE R_COMPLETED"

record results_input =
  rs_roomId :: oid
  rs_inRoomImageUrl :: "string option"
  rs_top1 :: "result_bucket option"
  rs_top2 :: "result_bucket option"
  rs_top3 :: "result_bucket option"
  rs_extra :: "result_bucket option"

definition result_row :: "results_input \<Rightarrow> custom_room \<Rightarrow> oid \<Rightarrow> date \<Rightarrow> oid \<Rightarrow> room_result" where
  "result_row inp room actorId now newId =
     \<lparr>rr_id = newId, rr_createdAt = now, rr_roomId = rs_roomId inp, rr_inRoomImageUrl = rs_inRoomImageUrl inp,
      rr_top1 = rs_top1 inp, rr_top2 = rs_top2 inp, rr_top3 = rs_top3 inp, rr_extra = rs_extra inp,
      rr_publishedAt = Some now, rr_visibleFromAt = cr_resultEnabledAt room, rr_publishedBy = Some actorId\<rparr>"

definition enterResults :: "results_input \<Rightarrow> oid \<Rightarrow> date \<Rightarrow> oid \<Rightarrow> db \<Rightarrow> (app_error + unit) \<times> db" where
  "enterResults inp actorId now newId s =
     (case findOne (\<lambda>r. cr_id r = rs_roomId inp \<and> cr_status r = R_COMPLETED) (custom_rooms s) of
        None \<Rightarrow> (Inl (ConflictError ''ROOM_STATE_INVALID''), s)
      | Some room \<Rightarrow>
          (case create result_clash (result_row inp room actorId now newId) (room_results s) of
             Inl _ \<Rightarrow> (Inl (ConflictError ''RESULT_ALREADY_ENTERED''), s)
           | Inr results \<Rightarrow> (Inr (), s\<lparr>room_results := results\<rparr>)))"

record winner_item =
  wi_userId :: oid
  wi_type :: prize_type
  wi_baseAmount :: paise
  wi_tier :: tier
  wi_redeemCodeId :: "oid option"
  wi_customRoomId :: "oid option"

definition winner_multiplier :: "int \<Rightarrow> int \<Rightarrow> tier \<Rightarrow> int" where
  "winner_multiplier proMultiplier proMaxMultiplier tier =
     (if tier = PRO_MAX then proMaxMultiplier else if tier = PRO then proMultiplier else 1)"

definition winner_row :: "day_key \<Rightarrow> int \<Rightarrow> date \<Rightarrow> oid \<Rightarrow> winner_item \<Rightarrow> prize_winner" where
  "winner_row dayKey multiplier now newId w =
     \<lparr>w_id = newId, w_createdAt = now, w_dayKey = dayKey, w_userId = wi_userId w, w_type = wi_type w,
      w_tier = Some (wi_tier w), w_baseAmount = Some (wi_baseAmount w), w_multiplier = multiplier,
      w_finalAmount = Some (wi_baseAmount w * multiplier), w_redeemCodeId = wi_redeemCodeId w,
      w_customRoomId = wi_customRoomId w, w_tdsDeducted = 0, w_tdsChallanNo = None, w_form16aIssuedAt = None,
      w_panAtPayout = None, w_payoutStatus = W_PENDING, w_releasedAt = None\<rparr>"

definition winner_linked :: "winner_item \<Rightarrow> bool" where
  "winner_linked w \<longleftrightarrow> (wi_type w = GIFT_CODE \<longrightarrow> wi_redeemCodeId w \<noteq> None) \<and> (wi_type w = CUSTOM_ROOM \<longrightarrow> wi_customRoomId w \<noteq> None)"

text \<open>The loop over the winners; the rows inserted before an invalid item stay.\<close>

fun assign_loop ::
  "day_key \<Rightarrow> int \<Rightarrow> int \<Rightarrow> date \<Rightarrow> (nat \<Rightarrow> oid) \<Rightarrow> nat \<Rightarrow> winner_item list \<Rightarrow> int \<Rightarrow> oid list \<Rightarrow> prize_winner list
   \<Rightarrow> (app_error + int \<times> oid list) \<times> prize_winner list" where
  "assign_loop dayKey pro proMax now ids n [] assigned skipped ws = (Inr (assigned, skipped), ws)"
| "assign_loop dayKey pro proMax now ids n (w # items) assigned skipped ws =
     (if \<not> winner_linked w then (Inl ValidationError, ws)
      else (case create winner_clash (winner_row dayKey (winner_multiplier pro proMax (wi_tier w)) now (ids n) w) ws of
          Inl _ \<Rightarrow> assign_loop dayKey pro proMax now ids (Suc n) items assigned (skipped @ [wi_userId w]) ws
        | Inr ws' \<Rightarrow> assign_loop dayKey pro proMax now ids (Suc n) items (assigned + 1) skipped ws'))"

definition assignWinners ::
  "day_key \<Rightarrow> winner_item list \<Rightarrow> date \<Rightarrow> (nat \<Rightarrow> oid) \<Rightarrow> db \<Rightarrow> (app_error + int \<times> oid list) \<times> db" where
  "assignWinners dayKey items now ids s =
     (let cfg = findOne (\<lambda>c. cfg_key c = ''default'') (app_configs s);
          pro = or_default (map_option cfg_proMultiplier cfg) 5;
          proMax = or_default (map_option cfg_proMaxMultiplier cfg) 10;
          (r, ws) = assign_loop dayKey pro proMax now ids 0 items 0 [] (prize_winners s)
      in (r, s\<lparr>prize_winners := ws\<rparr>))"

record rooms_filter =
  rf_game :: "game option"
  rf_status :: "room_status option"
  rf_dayKey :: "day_key option"

definition admin_listRooms :: "rooms_filter \<Rightarrow> int \<Rightarrow> db \<Rightarrow> custom_room list" where
  "admin_listRooms f limit s =
     take (nat (max 1 (min 200 limit)))
       (sort_key (\<lambda>r. (- cr_scheduledAt r, - int (cr_id r)))
         (find_docs (\<lambda>r. (case rf_game f of None \<Rightarrow> True | Some g \<Rightarrow> cr_game r = g) \<and>
            (case rf_status f of None \<Rightarrow> True | Some st \<Rightarrow> cr_status r = st) \<and>
            (case rf_dayKey f of None \<Rightarrow> True | Some k \<Rightarrow> k = [] \<or> cr_dayKey r = k)) (custom_rooms s)))"

section \<open>Rooms under all operations\<close>

text \<open>
  The atomic steps of any number of requests. The second component holds the rooms whose
  counter a registration has still to increase; a process that dies loses its increase.
\<close>

inductive room_step :: "db \<times> oid multiset \<Rightarrow> db \<times> oid multiset \<Rightarrow> bool" where
  create: "newId \<notin> cr_id ` set (custom_rooms s) \<Longrightarrow>
    room_step (s, pend) (snd (admin_createRoom inp actor now newId s), pend)"
| credentials: "room_step (s, pend) (snd (setCredentials enc rid i p s), pend)"
| add: "register_add rid uid s = (Some pre, s') \<Longrightarrow>
    room_step (s, pend) (s', if uid \<in> set (cr_registeredParticipants pre) then pend else add_mset rid pend)"
| counter: "rid \<in># pend \<Longrightarrow> room_step (s, pend) (register_count rid s, pend - {#rid#})"
| die: "room_step (s, pend) (s, pend - {#rid#})"
| start: "room_step (s, pend) (snd (startMatch rid s), pend)"
| stop: "room_step (s, pend) (snd (endMatch rid s), pend)"
| results: "room_step (s, pend) (snd (enterResults ri actor now newId s), pend)"

definition room_ok :: "oid multiset \<Rightarrow> custom_room \<Rightarrow> bool" where
  "room_ok pend r \<longleftrightarrow> distinct (cr_registeredParticipants r) \<and> length (cr_registeredParticipants r) \<le> PARTICIPANT_CAP \<and>
     cr_participantCount r + int (count pend (cr_id r)) \<le> int (length (cr_registeredParticipants r))"

definition rooms_inv :: "db \<times> oid multiset \<Rightarrow> bool" where
  "rooms_inv c \<longleftrightarrow> distinct (map cr_id (custom_rooms (fst c))) \<and> list_all (room_ok (snd c)) (custom_rooms (fst c)) \<and>
     set_mset (snd c) \<subseteq> cr_id ` set (custom_rooms (fst c)) \<and>
     unique_on (\<lambda>r. Some (rr_roomId r)) (room_results (fst c)) \<and>
     (\<forall>res \<in> set (room_results (fst c)). \<exists>r \<in> set (custom_rooms (fst c)). cr_id r = rr_roomId res \<and> cr_status r = R_COMPLETED)"

lemma rooms_inv_map:
  assumes "rooms_inv (s, pend)" and "custom_rooms s' = map g (custom_rooms s)" and "room_results s' = room_results s"
    and "\<And>r. cr_id (g r) = cr_id r" and "\<And>r. cr_status r = R_COMPLETED \<Longrightarrow> cr_status (g r) = R_COMPLETED"
    and "\<And>r. r \<in> set (custom_rooms s) \<Longrightarrow> room_ok pend r \<Longrightarrow> room_ok pend' (g r)"
    and "set_mset pend' \<subseteq> cr_id ` set (custom_rooms s)"
  shows "rooms_inv (s', pend')"
proof -
  have "map cr_id (custom_rooms s') = map cr_id (custom_rooms s)" by (simp add: assms(2) assms(4))
  moreover have "cr_id ` set (custom_rooms s') = cr_id ` set (custom_rooms s)" by (simp add: assms(2,4) image_image)
  moreover have "\<exists>r \<in> set (custom_rooms s'). cr_id r = i \<and> cr_status r = R_COMPLETED"
    if "\<exists>r \<in> set (custom_rooms s). cr_id r = i \<and> cr_status r = R_COMPLETED" for i
    using that assms(2,4,5) by auto
  moreover have "list_all (room_ok pend') (custom_rooms s')"
    using assms(1,6) by (simp add: assms(2) rooms_inv_def list_all_iff)
  ultimately show ?thesis using assms(1,3,7) by (auto simp: rooms_inv_def)
qed

lemma open_seat_split: "open_seat roomId = (\<lambda>r. cr_id r = roomId \<and> ((cr_status r = R_SCHEDULED \<or> cr_status r = R_LIVE) \<and>
    length (cr_registeredParticipants r) < PARTICIPANT_CAP))"
  by (auto simp: open_seat_def PARTICIPANT_CAP_def fun_eq_iff)

lemma register_add_map:
  assumes "distinct (map cr_id (custom_rooms s))" and "register_add rid uid s = (pre, s')"
  shows "s' = s\<lparr>custom_rooms := map (\<lambda>r. if open_seat rid r then add_participant uid r else r) (custom_rooms s)\<rparr> \<and>
    (case pre of None \<Rightarrow> s' = s | Some r \<Rightarrow> r \<in> set (custom_rooms s) \<and> open_seat rid r)"
proof -
  have "update_first (open_seat rid) (add_participant uid) (custom_rooms s) =
      map (\<lambda>r. if open_seat rid r then add_participant uid r else r) (custom_rooms s)"
    unfolding open_seat_split by (rule update_first_keyed [OF assms(1)])
  then have s': "s' = s\<lparr>custom_rooms := map (\<lambda>r. if open_seat rid r then add_participant uid r else r) (custom_rooms s)\<rparr>"
    and pre: "pre = findOne (open_seat rid) (custom_rooms s)" using assms(2) by (simp_all add: register_add_def)
  show ?thesis
  proof (cases pre)
    case None
    then have "map (\<lambda>r. if open_seat rid r then add_participant uid r else r) (custom_rooms s) = custom_rooms s"
      using pre by (intro map_idI) (simp add: findOne_None_iff)
    then show ?thesis using s' None by simp
  next
    case (Some r)
    then show ?thesis using s' pre findOne_SomeD [of "open_seat rid" "custom_rooms s" r] by simp
  qed
qed

lemma room_ok_add:
  assumes "room_ok pend r" and "open_seat rid r"
  shows "room_ok (if uid \<in> set (cr_registeredParticipants r) then pend else add_mset rid pend) (add_participant uid r)"
  using assms by (auto simp: room_ok_def add_participant_def open_seat_def PARTICIPANT_CAP_def)

lemma rooms_inv_add:
  assumes "rooms_inv (s, pend)" and "register_add rid uid s = (Some pre, s')"
  shows "rooms_inv (s', if uid \<in> set (cr_registeredParticipants pre) then pend else add_mset rid pend)" (is "rooms_inv (s', ?p)")
proof -
  have d: "distinct (map cr_id (custom_rooms s))" using assms(1) by (simp add: rooms_inv_def)
  have s': "custom_rooms s' = map (\<lambda>r. if open_seat rid r then add_participant uid r else r) (custom_rooms s)"
      "room_results s' = room_results s" and pre: "pre \<in> set (custom_rooms s)" "open_seat rid pre"
    using register_add_map [OF d assms(2)] by simp_all
  show ?thesis
  proof (rule rooms_inv_map [OF assms(1) s'])
    fix r assume r: "r \<in> set (custom_rooms s)" and ok: "room_ok pend r"
    show "room_ok ?p (if open_seat rid r then add_participant uid r else r)"
    proof (cases "open_seat rid r")
      case True
      then have "r = pre" using distinct_map_eq [OF d r pre(1)] pre(2) by (simp add: open_seat_def)
      then show ?thesis using room_ok_add [OF ok True, of uid] True by simp
    next
      case False
      have "cr_id r \<noteq> rid"
      proof
        assume "cr_id r = rid"
        then have "r = pre" using distinct_map_eq [OF d r pre(1)] pre(2) by (simp add: open_seat_def)
        then show False using False pre(2) by simp
      qed
      then show ?thesis using ok False by (simp add: room_ok_def)
    qed
  next
    show "set_mset ?p \<subseteq> cr_id ` set (custom_rooms s)" using assms(1) pre by (auto simp: rooms_inv_def open_seat_def)
  qed (simp_all add: add_participant_def open_seat_def split: if_splits)
qed

lemma rooms_inv_count:
  assumes "rooms_inv (s, pend)" and "rid \<in># pend"
  shows "rooms_inv (register_count rid s, pend - {#rid#})"
proof (rule rooms_inv_map [OF assms(1)])
  have d: "distinct (map cr_id (custom_rooms s))" using assms(1) by (simp add: rooms_inv_def)
  show "custom_rooms (register_count rid s) =
      map (\<lambda>r. if cr_id r = rid then r\<lparr>cr_participantCount := cr_participantCount r + 1\<rparr> else r) (custom_rooms s)"
    by (simp add: register_count_def updateOne_def update_first_key [OF d])
  have "0 < count pend rid" using assms(2) by simp
  then show "room_ok (pend - {#rid#}) (if cr_id r = rid then r\<lparr>cr_participantCount := cr_participantCount r + 1\<rparr> else r)"
    if "room_ok pend r" for r using that by (auto simp: room_ok_def of_nat_diff)
  show "set_mset (pend - {#rid#}) \<subseteq> cr_id ` set (custom_rooms s)" using assms(1) by (auto simp: rooms_inv_def dest: in_diffD)
qed (simp_all add: register_count_def)

lemma rooms_inv_move:
  assumes "rooms_inv (s, pend)" and "from' \<noteq> R_COMPLETED"
  shows "rooms_inv (snd (move_room from' to' rid s), pend)"
proof -
  have d: "distinct (map cr_id (custom_rooms s))" using assms(1) by (simp add: rooms_inv_def)
  let ?g = "\<lambda>r. if cr_id r = rid \<and> cr_status r = from' then r\<lparr>cr_status := to'\<rparr> else r"
  have "custom_rooms (snd (move_room from' to' rid s)) = map ?g (custom_rooms s)"
  proof (cases "findOne (\<lambda>r. cr_id r = rid \<and> cr_status r = from') (custom_rooms s)")
    case None
    then have "map ?g (custom_rooms s) = custom_rooms s" by (intro map_idI) (auto simp: findOne_None_iff)
    then show ?thesis by (simp add: move_room_def findOneAndUpdate_def None)
  qed (simp add: move_room_def findOneAndUpdate_def update_first_keyed [OF d])
  moreover have "room_results (snd (move_room from' to' rid s)) = room_results s"
    by (simp add: move_room_def split: prod.splits option.splits)
  ultimately show ?thesis
    by (rule rooms_inv_map [OF assms(1)]) (use assms in \<open>auto simp: room_ok_def rooms_inv_def split: if_splits\<close>)
qed

lemma setCredentials_cases:
  obtains "snd (setCredentials enc rid i p s) = s"
  | fi fp where "snd (setCredentials enc rid i p s) =
      s\<lparr>custom_rooms := update_first (\<lambda>r. cr_id r = rid) (set_fields fi fp) (custom_rooms s)\<rparr>"
proof (cases "\<exists>room fi fp. findOne (\<lambda>r. cr_id r = rid) (custom_rooms s) = Some room \<and> enc i = Some fi \<and> enc p = Some fp")
  case True
  then obtain room fi fp where "findOne (\<lambda>r. cr_id r = rid) (custom_rooms s) = Some room" "enc i = Some fi" "enc p = Some fp"
    by blast
  then have "snd (setCredentials enc rid i p s) =
      s\<lparr>custom_rooms := update_first (\<lambda>r. cr_id r = rid) (set_fields fi fp) (custom_rooms s)\<rparr>"
    by (simp add: setCredentials_def updateOne_def)
  then show thesis by (rule that(2))
next
  case False
  then have "snd (setCredentials enc rid i p s) = s"
    by (auto simp: setCredentials_def split: option.split)
  then show thesis by (rule that(1))
qed

lemma rooms_inv_credentials:
  assumes "rooms_inv (s, pend)"
  shows "rooms_inv (snd (setCredentials enc rid i p s), pend)"
proof (rule setCredentials_cases [of enc rid i p s])
  assume "snd (setCredentials enc rid i p s) = s"
  then show ?thesis using assms by simp
next
  fix fi fp
  assume s': "snd (setCredentials enc rid i p s) =
      s\<lparr>custom_rooms := update_first (\<lambda>r. cr_id r = rid) (set_fields fi fp) (custom_rooms s)\<rparr>"
  have d: "distinct (map cr_id (custom_rooms s))" using assms by (simp add: rooms_inv_def)
  show ?thesis unfolding s' update_first_key [OF d]
    by (rule rooms_inv_map [OF assms, where g = "\<lambda>r. if cr_id r = rid then set_fields fi fp r else r"])
      (use assms in \<open>auto simp: room_ok_def set_fields_def rooms_inv_def\<close>)
qed

lemma rooms_inv_results:
  assumes "rooms_inv (s, pend)"
  shows "rooms_inv (snd (enterResults ri actor now newId s), pend)"
proof (cases "findOne (\<lambda>r. cr_id r = rs_roomId ri \<and> cr_status r = R_COMPLETED) (custom_rooms s)")
  case None
  then show ?thesis using assms by (simp add: enterResults_def)
next
  case (Some room)
  let ?row = "result_row ri room actor now newId"
  show ?thesis
  proof (cases "create result_clash ?row (room_results s)")
    case (Inl e)
    then show ?thesis using assms Some by (simp add: enterResults_def)
  next
    case (Inr rs)
    have u: "unique_on (\<lambda>r. Some (rr_roomId r)) rs" using result_index.create_unique [OF _ Inr] assms by (simp add: rooms_inv_def)
    have "set rs \<subseteq> insert ?row (set (room_results s))" using Inr by (auto simp: create_def split: if_splits)
    moreover have "room \<in> set (custom_rooms s)" "cr_id room = rs_roomId ri" "cr_status room = R_COMPLETED"
      using findOne_SomeD [OF Some] by simp_all
    moreover have "rr_roomId ?row = rs_roomId ri" by (simp add: result_row_def)
    ultimately have "\<exists>r \<in> set (custom_rooms s). cr_id r = rr_roomId res \<and> cr_status r = R_COMPLETED" if "res \<in> set rs" for res
      using that assms unfolding rooms_inv_def fst_conv by (metis insertE subsetD)
    then show ?thesis using assms u Some Inr by (simp add: enterResults_def rooms_inv_def)
  qed
qed

lemma room_ok_mono: "room_ok pend r \<Longrightarrow> room_ok (pend - {#rid#}) r"
  by (auto simp: room_ok_def)

lemma room_step_inv: "room_step c c' \<Longrightarrow> rooms_inv c \<Longrightarrow> rooms_inv c'"
proof (induction rule: room_step.induct)
  case (create newId s pend inp actor now)
  then have "count pend newId = 0" by (auto simp: rooms_inv_def count_eq_zero_iff)
  then show ?case using create by (auto simp: admin_createRoom_def Let_def rooms_inv_def room_row_def room_ok_def)
next
  case (die s pend rid)
  then show ?case by (auto simp: rooms_inv_def list_all_iff room_ok_mono dest: in_diffD)
qed (simp_all add: rooms_inv_credentials rooms_inv_add [simplified] rooms_inv_count startMatch_def endMatch_def rooms_inv_move rooms_inv_results)

definition sample_room_input :: room_create_input where
  "sample_room_input = \<lparr>rci_game = BGMI, rci_dayKey = ''2026-05-01'', rci_scheduledAt = 1000000, rci_visibleFromAt = None,
     rci_resultEnabledAt = None, rci_tier = None, rci_pageNumber = None, rci_notice = None\<rparr>"

definition sample_config :: app_config where
  "sample_config = \<lparr>cfg_key = ''default'', cfg_baseRatePerVote = 100, cfg_signupBonusCoins = 10, cfg_coinsPerPost = 5,
     cfg_coinsPerVote = 3, cfg_giftCodeDenomination = 5000, cfg_proMultiplier = 5, cfg_proMaxMultiplier = 10,
     cfg_voteWindowStart = [], cfg_voteWindowEnd = [], cfg_blockedStates = [], cfg_kycThresholdAmount = 1000000,
     cfg_ageMin = 18, cfg_maintenanceMode = False, cfg_tournaments = True, cfg_planIdPro = None,
     cfg_planIdProMax = None, cfg_adminIpAllowlist = []\<rparr>"

definition sample_rooms :: db where
  "sample_rooms = snd (admin_createRoom sample_room_input 1 0 5 (empty_db\<lparr>app_configs := [sample_config]\<rparr>))"

text \<open>C11: in every state that creating rooms, registering, starting, ending and entering results in any
  order and interleaving can reach, a room never has more than 100 participants and none
  twice, the denormalised counter never exceeds the number of participants, and a room has at
  most one result, which exists only for a completed room.\<close>

theorem rooms_reachable_ok:
  assumes "room_step\<^sup>*\<^sup>* (s, {#}) (s', pend)" and "custom_rooms s = []" and "room_results s = []"
  shows "(\<forall>r \<in> set (custom_rooms s'). distinct (cr_registeredParticipants r) \<and> length (cr_registeredParticipants r) \<le> 100 \<and>
      cr_participantCount r \<le> int (length (cr_registeredParticipants r))) \<and>
    unique_on (\<lambda>r. Some (rr_roomId r)) (room_results s') \<and>
    (\<forall>res \<in> set (room_results s'). \<exists>r \<in> set (custom_rooms s'). cr_id r = rr_roomId res \<and> cr_status r = R_COMPLETED)"
proof -
  have start: "rooms_inv (s, {#})" by (simp add: rooms_inv_def assms(2,3) unique_on_def)
  have "rooms_inv c" if "room_step\<^sup>*\<^sup>* (s, {#}) c" for c
    using that by (induction rule: rtranclp_induct) (use start room_step_inv in blast)+
  from this [OF assms(1)] have inv: "rooms_inv (s', pend)" .
  then have "\<forall>r \<in> set (custom_rooms s'). room_ok pend r" by (simp add: rooms_inv_def list_all_iff)
  then have "\<forall>r \<in> set (custom_rooms s'). distinct (cr_registeredParticipants r) \<and> length (cr_registeredParticipants r) \<le> 100 \<and>
      cr_participantCount r \<le> int (length (cr_registeredParticipants r))"
    by (fastforce simp: room_ok_def PARTICIPANT_CAP_def)
  then show ?thesis using inv by (simp add: rooms_inv_def)
qed

theorem rooms_reachable_ok_witness:
  "map cr_registeredParticipants (custom_rooms (snd (register_add 5 7 sample_rooms))) = [[7]] \<and>
   list_all (\<lambda>r. distinct (cr_registeredParticipants r) \<and> length (cr_registeredParticipants r) \<le> 100 \<and>
     cr_participantCount r \<le> int (length (cr_registeredParticipants r)))
     (custom_rooms (snd (register_add 5 7 sample_rooms)))"
proof
  show "map cr_registeredParticipants (custom_rooms (snd (register_add 5 7 sample_rooms))) = [[7]]" by code_simp
  let ?s0 = "empty_db\<lparr>app_configs := [sample_config]\<rparr>"
  have a: "room_step (?s0, {#}) (sample_rooms, {#})"
    unfolding sample_rooms_def by (rule room_step.create) (simp add: empty_db_def)
  have "fst (register_add 5 7 sample_rooms) \<noteq> None" by code_simp
  then obtain pre where "register_add 5 7 sample_rooms = (Some pre, snd (register_add 5 7 sample_rooms))"
    by (metis not_Some_eq prod.collapse)
  then have b: "\<exists>pend. room_step (sample_rooms, {#}) (snd (register_add 5 7 sample_rooms), pend)"
    using room_step.add by blast
  then obtain pend where "room_step\<^sup>*\<^sup>* (?s0, {#}) (snd (register_add 5 7 sample_rooms), pend)"
    using a by (meson converse_rtranclp_into_rtranclp r_into_rtranclp)
  from rooms_reachable_ok [OF this] show "list_all (\<lambda>r. distinct (cr_registeredParticipants r) \<and>
      length (cr_registeredParticipants r) \<le> 100 \<and> cr_participantCount r \<le> int (length (cr_registeredParticipants r)))
      (custom_rooms (snd (register_add 5 7 sample_rooms)))"
    by (simp add: empty_db_def list_all_iff)
qed

section \<open>Registration, credentials and winners\<close>

lemma findOne_open_seat:
  assumes "distinct (map cr_id (custom_rooms s))" and "findOne (\<lambda>r. cr_id r = rid) (custom_rooms s) = Some room"
  shows "findOne (open_seat rid) (custom_rooms s) = (if open_seat rid room then Some room else None)"
proof -
  have room: "room \<in> set (custom_rooms s)" "cr_id room = rid" using findOne_SomeD [OF assms(2)] by simp_all
  have other: "r = room" if "r \<in> set (custom_rooms s)" "open_seat rid r" for r
    using distinct_map_eq [OF assms(1) that(1) room(1)] that(2) room(2) by (simp add: open_seat_def)
  show ?thesis
  proof (cases "findOne (open_seat rid) (custom_rooms s)")
    case None
    then have "\<not> open_seat rid room" using room(1) by (simp add: findOne_None_iff)
    then show ?thesis by (simp add: None)
  next
    case (Some r)
    then have "r = room" "open_seat rid r" using other findOne_SomeD [OF Some] by simp_all
    then show ?thesis by (simp add: Some)
  qed
qed

lemma register_open:
  assumes "distinct (map cr_id (custom_rooms s))" and "requireTournamentsEnabled s = Inr ()"
    and "findOne (\<lambda>r. cr_id r = rid) (custom_rooms s) = Some room" and "userCanAccessTier subs (cr_tier room) now"
  shows "register rid uid subs now s =
    (if uid \<in> set (cr_registeredParticipants room) then (Inr True, s)
     else if cr_status room \<noteq> R_SCHEDULED \<and> cr_status room \<noteq> R_LIVE then (Inl (ConflictError ''ROOM_STATE_INVALID''), s)
     else if 100 \<le> length (cr_registeredParticipants room) then (Inl (UnprocessableError ''ROOM_FULL''), s)
     else (Inr False, s\<lparr>custom_rooms := map (\<lambda>r. if cr_id r = rid
       then r\<lparr>cr_registeredParticipants := cr_registeredParticipants r @ [uid], cr_participantCount := cr_participantCount r + 1\<rparr>
       else r) (custom_rooms s)\<rparr>))"
proof -
  note find = findOne_open_seat [OF assms(1,3)]
  have room: "room \<in> set (custom_rooms s)" "cr_id room = rid" using findOne_SomeD [OF assms(3)] by simp_all
  have only: "r = room" if "r \<in> set (custom_rooms s)" "cr_id r = rid" for r
    using distinct_map_eq [OF assms(1) that(1) room(1)] that(2) room(2) by simp
  obtain pre s1 where ra: "register_add rid uid s = (pre, s1)" by force
  have pre: "pre = (if open_seat rid room then Some room else None)" using ra find by (simp add: register_add_def)
  note m = register_add_map [OF assms(1) ra]
  have run: "register rid uid subs now s = (case pre of None \<Rightarrow> (register_refused rid uid s1, s1)
      | Some pre \<Rightarrow> if uid \<in> set (cr_registeredParticipants pre) then (Inr True, s1) else (Inr False, register_count rid s1))"
    by (simp add: register_def assms(2-4) ra)
  show ?thesis
  proof (cases "open_seat rid room")
    case False
    then have "s1 = s" using conjunct2 [OF m] pre by simp
    then show ?thesis using run pre False room(2) by (auto simp: register_refused_def assms(3) open_seat_def PARTICIPANT_CAP_def)
  next
    case True
    show ?thesis
    proof (cases "uid \<in> set (cr_registeredParticipants room)")
      case mem: True
      have "map (\<lambda>r. if open_seat rid r then add_participant uid r else r) (custom_rooms s) = custom_rooms s"
        using only mem by (intro map_idI) (auto simp: open_seat_def add_participant_def)
      then have "s1 = s" using m by simp
      then show ?thesis using run pre True mem by simp
    next
      case new: False
      have "map (\<lambda>r. if cr_id r = rid then r\<lparr>cr_participantCount := cr_participantCount r + 1\<rparr> else r)
          (map (\<lambda>r. if open_seat rid r then add_participant uid r else r) (custom_rooms s)) =
        map (\<lambda>r. if cr_id r = rid
          then r\<lparr>cr_registeredParticipants := cr_registeredParticipants r @ [uid], cr_participantCount := cr_participantCount r + 1\<rparr>
          else r) (custom_rooms s)"
        (is "map ?c (map ?a _) = map ?both _")
        unfolding map_map
      proof (rule map_cong [OF refl])
        fix r assume r: "r \<in> set (custom_rooms s)"
        show "(?c \<circ> ?a) r = ?both r"
        proof (cases "cr_id r = rid")
          case eq: True
          then have "r = room" using only r by blast
          then show ?thesis using eq True new by (simp add: add_participant_def)
        next
          case False
          then show ?thesis by (simp add: open_seat_def)
        qed
      qed
      moreover have "distinct (map cr_id (map (\<lambda>r. if open_seat rid r then add_participant uid r else r) (custom_rooms s)))"
        using assms(1) by (simp add: comp_def add_participant_def if_distrib cong: if_cong)
      ultimately have "register_count rid s1 = s\<lparr>custom_rooms := map (\<lambda>r. if cr_id r = rid
          then r\<lparr>cr_registeredParticipants := cr_registeredParticipants r @ [uid], cr_participantCount := cr_participantCount r + 1\<rparr>
          else r) (custom_rooms s)\<rparr>"
        using m by (simp add: register_count_def updateOne_def update_first_key)
      then show ?thesis using run pre True new by (auto simp: open_seat_def PARTICIPANT_CAP_def)
    qed
  qed
qed

text \<open>the answer and the effect of a registration on every branch: a member is told so and nothing
  changes, a room that is neither scheduled nor live or that has 100 participants refuses, and
  otherwise the caller is appended and the counter of that room goes up by one; the internal
  error of the last branch is never reached.\<close>

theorem register_effect:
  assumes "distinct (map cr_id (custom_rooms s))"
  shows "register rid uid subs now s =
    (case requireTournamentsEnabled s of
       Inl e \<Rightarrow> (Inl e, s)
     | Inr _ \<Rightarrow> (case findOne (\<lambda>r. cr_id r = rid) (custom_rooms s) of
         None \<Rightarrow> (Inl NotFoundError, s)
       | Some room \<Rightarrow>
           if \<not> userCanAccessTier subs (cr_tier room) now then (Inl (ForbiddenError ''TIER_NOT_ACCESSIBLE''), s)
           else if uid \<in> set (cr_registeredParticipants room) then (Inr True, s)
           else if cr_status room \<noteq> R_SCHEDULED \<and> cr_status room \<noteq> R_LIVE then (Inl (ConflictError ''ROOM_STATE_INVALID''), s)
           else if 100 \<le> length (cr_registeredParticipants room) then (Inl (UnprocessableError ''ROOM_FULL''), s)
           else (Inr False, s\<lparr>custom_rooms := map (\<lambda>r. if cr_id r = rid
             then r\<lparr>cr_registeredParticipants := cr_registeredParticipants r @ [uid], cr_participantCount := cr_participantCount r + 1\<rparr>
             else r) (custom_rooms s)\<rparr>)))"
proof (cases "requireTournamentsEnabled s")
  case (Inl e)
  then show ?thesis by (simp add: register_def)
next
  case (Inr u)
  show ?thesis
  proof (cases "findOne (\<lambda>r. cr_id r = rid) (custom_rooms s)")
    case None
    then show ?thesis using Inr by (simp add: register_def)
  next
    case (Some room)
    show ?thesis
    proof (cases "userCanAccessTier subs (cr_tier room) now")
      case True
      show ?thesis using register_open [OF assms _ Some True, of uid] Inr Some True by simp
    next
      case False
      then show ?thesis using Inr Some by (simp add: register_def)
    qed
  qed
qed

theorem register_effect_witness:
  "fst (register 5 7 [] 10 sample_rooms) = Inr False \<and> fst (register 6 7 [] 10 sample_rooms) = Inl NotFoundError"
proof -
  have d: "distinct (map cr_id (custom_rooms sample_rooms))" by code_simp
  show ?thesis unfolding register_effect [OF d] by code_simp
qed

text \<open>the credentials an admin sets are shown, decrypted, exactly to a registered caller who can
  access the tier of the room and not before the room's visibility time; everybody else gets
  the room without them.\<close>

theorem credentials_roundtrip:
  assumes "setCredentials enc rid i p s = (Inr (), s')" and "findOne (\<lambda>r. cr_id r = rid) (custom_rooms s') = Some room"
    and "\<And>x f. enc x = Some f \<Longrightarrow> dec f = Some x"
    and "\<And>x f. enc x = Some f \<Longrightarrow> ef_ct f \<noteq> [] \<and> ef_iv f \<noteq> [] \<and> ef_tag f \<noteq> [] \<and> ef_dekEnc f \<noteq> []"
  shows "maybeDecryptCreds dec room subs reg now =
    (if reg \<and> userCanAccessTier subs (cr_tier room) now \<and> (\<exists>v. cr_visibleFromAt room = Some v \<and> v \<le> now)
     then Inr (Some (i, p)) else Inr None)"
proof -
  obtain fi fp where f: "enc i = Some fi" "enc p = Some fp"
      "s' = s\<lparr>custom_rooms := update_first (\<lambda>r. cr_id r = rid) (set_fields fi fp) (custom_rooms s)\<rparr>"
    using assms(1) by (auto simp: setCredentials_def updateOne_def split: option.splits)
  have "findOne (\<lambda>r. cr_id r = rid) (custom_rooms s') = map_option (set_fields fi fp) (findOne (\<lambda>r. cr_id r = rid) (custom_rooms s))"
    unfolding f(3) by (simp add: findOne_update_first set_fields_def)
  then obtain r0 where room: "room = set_fields fi fp r0" using assms(2) by (cases "findOne (\<lambda>r. cr_id r = rid) (custom_rooms s)") auto
  have "has_credentials room" "room_id_field room = fi" "room_pwd_field room = fp"
    using assms(4) [OF f(1)] assms(4) [OF f(2)]
    by (simp_all add: room set_fields_def has_credentials_def room_id_field_def room_pwd_field_def)
  then show ?thesis using assms(3) [OF f(1)] assms(3) [OF f(2)]
    by (auto simp: maybeDecryptCreds_def split: option.splits)
qed

theorem credentials_roundtrip_witness:
  "\<exists>room. findOne (\<lambda>r. cr_id r = 5) (custom_rooms (snd (setCredentials (\<lambda>x. Some \<lparr>ef_ct = CHR ''c'' # x, ef_iv = ''i'', ef_tag = ''t'', ef_dekEnc = ''d''\<rparr>)
       5 ''room'' ''pwd'' sample_rooms))) = Some room \<and>
     maybeDecryptCreds (\<lambda>f. Some (tl (ef_ct f))) room [] True 2000000 = Inr (Some (''room'', ''pwd''))"
proof -
  let ?enc = "\<lambda>x. Some \<lparr>ef_ct = CHR ''c'' # x, ef_iv = ''i'', ef_tag = ''t'', ef_dekEnc = ''d''\<rparr>"
  let ?run = "setCredentials ?enc 5 ''room'' ''pwd'' sample_rooms"
  have "fst ?run = Inr ()" and f: "findOne (\<lambda>r. cr_id r = 5) (custom_rooms (snd ?run)) \<noteq> None" by code_simp+
  then have run: "?run = (Inr (), snd ?run)" by (metis prod.collapse)
  obtain room where room: "findOne (\<lambda>r. cr_id r = 5) (custom_rooms (snd ?run)) = Some room" using f by blast
  have "map_option (\<lambda>r. (cr_tier r, cr_visibleFromAt r)) (findOne (\<lambda>r. cr_id r = 5) (custom_rooms (snd ?run))) =
      Some (PUBLIC, Some 700000)" by code_simp
  then have "cr_tier room = PUBLIC" "cr_visibleFromAt room = Some 700000" using room by simp_all
  then show ?thesis
    using credentials_roundtrip [OF run room, of "\<lambda>f. Some (tl (ef_ct f))" "[]" True 2000000] room
    by (auto simp: userCanAccessTier_def)
qed

lemma winner_clash_key: "winner_clash x y \<longleftrightarrow> winner_key x = winner_key y"
  by (auto simp: winner_clash_def winner_key_def split: prize_type.splits)

lemma winner_row_key: "winner_key (winner_row dk m now i w) = winner_key (winner_row dk m' now' i' w)"
  by (cases "wi_type w") (simp_all add: winner_row_def winner_key_def)

lemma assign_loop_result:
  assumes "assign_loop dk pro proMax now ids n items a sk ws = (Inr (a', sk'), ws')" and "unique_on winner_key ws"
  shows "unique_on winner_key ws' \<and> a' + int (length sk') = a + int (length sk) + int (length items) \<and>
    list_all winner_linked items \<and>
    (\<exists>new. ws' = ws @ new \<and> int (length new) = a' - a \<and>
       (\<forall>x \<in> set new. \<exists>w \<in> set items. \<exists>i. x = winner_row dk (winner_multiplier pro proMax (wi_tier w)) now i w)) \<and>
    (\<forall>w \<in> set items. \<exists>x \<in> set ws'. winner_key x = winner_key (winner_row dk 0 0 0 w))"
  using assms
proof (induction items arbitrary: n a sk ws)
  case Nil
  then show ?case by simp
next
  case (Cons w items)
  let ?row = "winner_row dk (winner_multiplier pro proMax (wi_tier w)) now (ids n) w"
  have l: "winner_linked w" using Cons.prems(1) by (auto split: if_splits)
  have key: "winner_key ?row = winner_key (winner_row dk 0 0 0 w)" by (rule winner_row_key)
  show ?case
  proof (cases "\<exists>y \<in> set ws. winner_clash ?row y \<or> winner_clash y ?row")
    case True
    then obtain y where y: "y \<in> set ws" "winner_key y = winner_key ?row" by (auto simp: winner_clash_key)
    have c: "create winner_clash ?row ws = Inl DuplicateKey"
      by (rule winner_index.create_taken [OF y]) (simp add: winner_key_def)
    from Cons.IH [OF _ Cons.prems(2)] Cons.prems(1) l c key y show ?thesis by fastforce
  next
    case False
    have c: "create winner_clash ?row ws = Inr (ws @ [?row])" using False by (auto simp: create_def list_ex_iff)
    have u: "unique_on winner_key (ws @ [?row])" by (rule winner_index.create_unique [OF Cons.prems(2) c])
    have "assign_loop dk pro proMax now ids (Suc n) items (a + 1) sk (ws @ [?row]) = (Inr (a', sk'), ws')"
      using Cons.prems(1) l c by simp
    from Cons.IH [OF this u] l key show ?thesis by fastforce
  qed
qed

lemma assign_loop_again:
  assumes "list_all winner_linked items" and "\<forall>w \<in> set items. \<exists>x \<in> set ws. winner_key x = winner_key (winner_row dk 0 0 0 w)"
  shows "assign_loop dk pro proMax now ids n items a sk ws = (Inr (a, sk @ map wi_userId items), ws)"
  using assms
proof (induction items arbitrary: n sk)
  case (Cons w items)
  let ?row = "winner_row dk (winner_multiplier pro proMax (wi_tier w)) now (ids n) w"
  obtain x where "x \<in> set ws" "winner_key x = winner_key ?row" using Cons.prems(2) winner_row_key by (metis list.set_intros(1))
  then have "create winner_clash ?row ws = Inl DuplicateKey"
    by (rule winner_index.create_taken) (simp add: winner_key_def)
  then show ?case using Cons by simp
qed simp



end
