(* ===== verification/Audit_Trail.thy ===== *)
theory Audit_Trail
  imports Admin_Access Coins Paging "HOL-Library.Product_Lexorder" Samples
begin

text \<open>
  The audit trail of the admin routes: the redaction of src/shared/utils/redact.ts, the
  wrapper of src/shared/middleware/audit-log.ts that records what an admin did and answers the
  request, and the reader of src/modules/admin-audit-logs with its text cursor.

  A value of the program is a \<open>js_value\<close>: an object is the list of its own properties in
  enumeration order, and an instance of a class (ObjectId, Date, Buffer, a document of
  Mongoose) is the value its \<open>toJSON\<close> gives. The text of an ObjectId is that of the driver, a parameter.
\<close>

section \<open>Redaction\<close>

datatype js_value =
    J_Undefined
  | J_Null
  | J_Bool bool
  | J_Number int
  | J_String string
  | J_Instance js_value
  | J_Array "js_value list"
  | J_Object "(string \<times> js_value) list"

definition SENSITIVE_LEAF_KEYS :: "string list" where
  "SENSITIVE_LEAF_KEYS =
     [''passwordHash'', ''codeCt'', ''codeIv'', ''codeTag'', ''codeDekEnc'', ''panCt'', ''panIv'', ''panTag'', ''panDekEnc'',
      ''roomIdCt'', ''roomIdIv'', ''roomIdTag'', ''roomIdDekEnc'', ''roomPwdCt'', ''roomPwdIv'', ''roomPwdTag'', ''roomPwdDekEnc'']"

definition SENSITIVE_DOTTED_PATHS :: "string list" where
  "SENSITIVE_DOTTED_PATHS = [''twoFactor.secret'', ''twoFactor.recoveryCodes'']"

definition REDACTED_PLACEHOLDER :: string where
  "REDACTED_PLACEHOLDER = ''[REDACTED]''"

definition full_path :: "string \<Rightarrow> string \<Rightarrow> string" where
  "full_path prefix k = (if prefix = [] then k else prefix @ ''.'' @ k)"

definition sensitive :: "string \<Rightarrow> string \<Rightarrow> bool" where
  "sensitive prefix k \<longleftrightarrow> k \<in> set SENSITIVE_LEAF_KEYS \<or> full_path prefix k \<in> set SENSITIVE_DOTTED_PATHS"

fun redactSensitive :: "string \<Rightarrow> js_value \<Rightarrow> js_value" where
  "redactSensitive prefix (J_Array vs) = J_Array (map (redactSensitive prefix) vs)"
| "redactSensitive prefix (J_Object kvs) =
     J_Object (map (\<lambda>(k, v). (k, if sensitive prefix k then J_String REDACTED_PLACEHOLDER
                                  else redactSensitive (full_path prefix k) v)) kvs)"
| "redactSensitive prefix v = v"

section \<open>The audited handler\<close>

text \<open>\<open>Types.ObjectId\<close> of the driver: its hexadecimal text, and reading one.\<close>

record objectid_text =
  ot_show :: "oid \<Rightarrow> string"
  ot_parse :: "string \<Rightarrow> oid option"

datatype resource_ref = Ref_Text string | Ref_Oid oid

record capture_context =
  cc_before :: js_value
  cc_after :: js_value
  cc_resourceKind :: "string option"
  cc_resourceId :: "resource_ref option"

record audit_options =
  ao_action :: string
  ao_resourceKind :: "string option"

record audit_log =
  al_id :: oid
  al_createdAt :: date
  al_actorId :: oid
  al_actorEmail :: string
  al_action :: string
  al_resource :: "(string option \<times> oid option) option"
  al_before :: "js_value option"
  al_after :: "js_value option"
  al_ip :: string
  al_userAgent :: string

record audited_request =
  aq_admin :: "admin_session option"
  aq_ip :: "string option"
  aq_userAgent :: "string option"

fun toAuditSnapshot :: "js_value \<Rightarrow> js_value option" where
  "toAuditSnapshot (J_Object kvs) = Some (J_Object kvs)"
| "toAuditSnapshot (J_Instance i) = Some (J_Instance i)"
| "toAuditSnapshot _ = None"

text \<open>\<open>new Types.ObjectId(s)\<close> throws for any other text.\<close>

definition resolve_ref :: "objectid_text \<Rightarrow> resource_ref option \<Rightarrow> app_error + oid option" where
  "resolve_ref T r =
     (case r of
        None \<Rightarrow> Inr None
      | Some (Ref_Oid i) \<Rightarrow> Inr (Some i)
      | Some (Ref_Text s) \<Rightarrow>
          if s = [] then Inr None
          else (case ot_parse T s of None \<Rightarrow> Inl (InternalError ''INTERNAL'') | Some i \<Rightarrow> Inr (Some i)))"

definition writeAuditLog ::
  "objectid_text \<Rightarrow> audited_request \<Rightarrow> audit_options \<Rightarrow> capture_context \<Rightarrow> js_value \<Rightarrow> js_value \<Rightarrow> date \<Rightarrow> oid
   \<Rightarrow> audit_log list \<Rightarrow> app_error + audit_log list" where
  "writeAuditLog T req opts ctx safeBefore safeAfter now newId logs =
     (case aq_admin req of
        None \<Rightarrow> Inr logs
      | Some admin \<Rightarrow>
          (case ot_parse T (as_adminId admin) of
             None \<Rightarrow> Inl (InternalError ''INTERNAL'')
           | Some actor \<Rightarrow>
               (let kind = (case cc_resourceKind ctx of Some k \<Rightarrow> Some k | None \<Rightarrow> ao_resourceKind opts)
                in case resolve_ref T (cc_resourceId ctx) of
                     Inl e \<Rightarrow> Inl e
                   | Inr rid \<Rightarrow>
                       Inr (logs @ [\<lparr>al_id = newId, al_createdAt = now, al_actorId = actor, al_actorEmail = as_adminEmail admin,
                          al_action = ao_action opts,
                          al_resource = (if truthy_str kind \<or> rid \<noteq> None then Some (if truthy_str kind then kind else None, rid) else None),
                          al_before = toAuditSnapshot safeBefore, al_after = toAuditSnapshot safeAfter,
                          al_ip = or_default (aq_ip req) (as_ip admin),
                          al_userAgent = or_default (aq_userAgent req) (as_userAgent admin)\<rparr>]))))"

text \<open>
  The wrapper around a handler that works on the program's state: what \<open>next\<close> or the client
  is given, the state and the log. The handler has finished before the row is written.
\<close>

definition audit_answer :: "js_value \<Rightarrow> js_value" where
  "audit_answer safeAfter =
     (if safeAfter = J_Undefined \<or> safeAfter = J_Null then J_Object [(''ok'', J_Bool True)] else safeAfter)"

definition auditLog ::
  "objectid_text \<Rightarrow> audit_options \<Rightarrow> ('s \<Rightarrow> (app_error + capture_context) \<times> 's) \<Rightarrow> audited_request \<Rightarrow> date \<Rightarrow> oid
   \<Rightarrow> 's \<times> audit_log list \<Rightarrow> (app_error + js_value) \<times> 's \<times> audit_log list" where
  "auditLog T opts handler req now newId st =
     (case handler (fst st) of
        (Inl e, s') \<Rightarrow> (Inl e, s', snd st)
      | (Inr ctx, s') \<Rightarrow>
          let safeBefore = redactSensitive [] (cc_before ctx);
              safeAfter = redactSensitive [] (cc_after ctx)
          in case writeAuditLog T req opts ctx safeBefore safeAfter now newId (snd st) of
               Inl e \<Rightarrow> (Inl e, s', snd st)
             | Inr logs \<Rightarrow> (Inr (audit_answer safeAfter), s', logs))"

section \<open>Two audited handlers\<close>

text \<open>
  What the repositories hand to the wrapper. A read is lean, a plain object; \<open>findOneAndUpdate\<close>
  of a repository returns a document, an instance whose \<open>toJSON\<close> gives its fields. The fields
  below are those the examples need.
\<close>

definition js_opt :: "string \<Rightarrow> string option \<Rightarrow> (string \<times> js_value) list" where
  "js_opt k v = (case v of None \<Rightarrow> [] | Some s \<Rightarrow> [(k, J_String s)])"

definition user_fields :: "user \<Rightarrow> (string \<times> js_value) list" where
  "user_fields u =
     [(''phone'', J_String (u_phone u)), (''coinBalance'', J_Number (u_coinBalance u)),
      (''kyc'', J_Object (js_opt ''panCt'' (kyc_panCt (u_kyc u)) @ js_opt ''panIv'' (kyc_panIv (u_kyc u)) @
         js_opt ''panTag'' (kyc_panTag (u_kyc u)) @ js_opt ''panDekEnc'' (kyc_panDekEnc (u_kyc u)) @
         js_opt ''panLast4'' (kyc_panLast4 (u_kyc u)))),
      (''blocked'', J_Object ((''isBlocked'', J_Bool (bl_isBlocked (u_blocked u))) # js_opt ''reason'' (bl_reason (u_blocked u))))]"

definition users_getForAudit :: "oid \<Rightarrow> db \<Rightarrow> js_value" where
  "users_getForAudit userId s =
     (case findOne (\<lambda>u. u_id u = userId) (users s) of None \<Rightarrow> J_Null | Some u \<Rightarrow> J_Object (user_fields u))"

definition block_handler :: "oid \<Rightarrow> string \<Rightarrow> oid \<Rightarrow> date \<Rightarrow> db \<Rightarrow> (app_error + capture_context) \<times> db" where
  "block_handler userId reason actorId now s =
     (let before = users_getForAudit userId s
      in case block_user userId reason actorId now s of
           (Inl e, s') \<Rightarrow> (Inl e, s')
         | (Inr after, s') \<Rightarrow>
             (Inr \<lparr>cc_before = before, cc_after = J_Instance (J_Object (user_fields after)), cc_resourceKind = None,
                   cc_resourceId = Some (Ref_Oid userId)\<rparr>, s'))"

definition admin_fields :: "admin_user \<Rightarrow> (string \<times> js_value) list" where
  "admin_fields a =
     [(''email'', J_String (adm_email a)), (''passwordHash'', J_String (adm_passwordHash a)),
      (''twoFactor'', J_Object ((''enabled'', J_Bool (adm_2fa_enabled a)) # js_opt ''secret'' (adm_2fa_secret a) @
         [(''recoveryCodes'', J_Array (map J_String (adm_2fa_recoveryCodes a)))])),
      (''disabled'', J_Bool (adm_disabled a))]"

text \<open>
  \<open>{...after, reason}\<close>: the own properties of the document, then the reason. Which properties
  a document of Mongoose has is a parameter.
\<close>

definition spread_reason :: "(string \<times> js_value) list \<Rightarrow> string \<Rightarrow> js_value" where
  "spread_reason own reason = J_Object (filter (\<lambda>kv. fst kv \<noteq> ''reason'') own @ [(''reason'', J_String reason)])"

definition changeRole_handler ::
  "((string \<times> js_value) list \<Rightarrow> (string \<times> js_value) list) \<Rightarrow> oid \<Rightarrow> admin_role \<Rightarrow> string
   \<Rightarrow> 'r admin_state \<Rightarrow> (app_error + capture_context) \<times> 'r admin_state" where
  "changeRole_handler document i role reason st =
     (let before = (case findOne (\<lambda>a. adm_id a = i) (am_users st) of None \<Rightarrow> J_Null | Some a \<Rightarrow> J_Object (admin_fields a))
      in case changeRole i role st of
           (Inl e, st') \<Rightarrow> (Inl e, st')
         | (Inr after, st') \<Rightarrow>
             (Inr \<lparr>cc_before = before, cc_after = spread_reason (document (admin_fields after)) reason,
                   cc_resourceKind = Some ''AdminUser'', cc_resourceId = Some (Ref_Oid i)\<rparr>, st'))"

text \<open>What a client sees of a value: \<open>JSON.stringify\<close> asks an instance for its \<open>toJSON\<close>.\<close>

fun json_view :: "js_value \<Rightarrow> js_value" where
  "json_view (J_Instance v) = json_view v"
| "json_view (J_Array vs) = J_Array (map json_view vs)"
| "json_view (J_Object kvs) = J_Object (map (\<lambda>(k, v). (k, json_view v)) kvs)"
| "json_view v = v"

section \<open>Reading the log\<close>

record audit_filter =
  af_actorId :: "oid option"
  af_resourceKind :: "string option"
  af_resourceId :: "oid option"
  af_action :: "string option"
  af_from :: "date option"
  af_to :: "date option"

definition audit_matches :: "audit_filter \<Rightarrow> (date \<times> oid) option \<Rightarrow> audit_log \<Rightarrow> bool" where
  "audit_matches flt cursor a \<longleftrightarrow>
     (case af_actorId flt of None \<Rightarrow> True | Some i \<Rightarrow> al_actorId a = i) \<and>
     (truthy_str (af_resourceKind flt) \<longrightarrow> (\<exists>r. al_resource a = Some r \<and> fst r = af_resourceKind flt)) \<and>
     (case af_resourceId flt of None \<Rightarrow> True | Some i \<Rightarrow> map_option snd (al_resource a) = Some (Some i)) \<and>
     (truthy_str (af_action flt) \<longrightarrow> af_action flt = Some (al_action a)) \<and>
     (case af_from flt of None \<Rightarrow> True | Some d \<Rightarrow> d \<le> al_createdAt a) \<and>
     (case af_to flt of None \<Rightarrow> True | Some d \<Rightarrow> al_createdAt a \<le> d) \<and>
     (case cursor of None \<Rightarrow> True | Some (t, i) \<Rightarrow> al_createdAt a < t \<or> (al_createdAt a = t \<and> al_id a < i))"

text \<open>The sort \<open>{createdAt: -1, _id: -1}\<close>, as an ascending key.\<close>

definition audit_key :: "audit_log \<Rightarrow> int \<times> int" where
  "audit_key a = (- al_createdAt a, - int (al_id a))"

definition audit_page_size :: "int \<Rightarrow> nat" where
  "audit_page_size limit = nat (max 1 (min 500 limit))"

definition audit_encodeCursor :: "objectid_text \<Rightarrow> date \<Rightarrow> oid \<Rightarrow> string" where
  "audit_encodeCursor T createdAt i = to_base64url (js_String createdAt @ ''_'' @ ot_show T i)"

text \<open>
  A number too large for a double is not finite, and a \<open>Date\<close> of more than 8.64e15
  milliseconds is invalid: the query refuses to cast it.
\<close>

definition DOUBLE_OVERFLOW :: int where "DOUBLE_OVERFLOW = 2 ^ 1024 - 2 ^ 970"

definition MAX_DATE :: int where "MAX_DATE = 8640000000000000"

definition audit_decodeCursor :: "objectid_text \<Rightarrow> string \<Rightarrow> app_error + (date \<times> oid)" where
  "audit_decodeCursor T cursor =
     (case split_on (CHR ''_'') (of_base64url cursor) of
        [tsStr, idStr] \<Rightarrow>
          (case parseInt tsStr of
             None \<Rightarrow> Inl ValidationError
           | Some ts \<Rightarrow>
               if DOUBLE_OVERFLOW \<le> \<bar>ts\<bar> then Inl ValidationError
               else (case ot_parse T idStr of None \<Rightarrow> Inl ValidationError | Some i \<Rightarrow> Inr (ts, i)))
      | _ \<Rightarrow> Inl ValidationError)"

text \<open>The page after a decoded cursor, with the position of the next one.\<close>

definition audit_page ::
  "audit_filter \<Rightarrow> int \<Rightarrow> audit_log list \<Rightarrow> (date \<times> oid) option \<Rightarrow> audit_log list \<times> (date \<times> oid) option" where
  "audit_page flt limit logs cursor =
     (let pageSize = audit_page_size limit;
          rows = take (pageSize + 1) (sort_key audit_key (find_docs (audit_matches flt cursor) logs));
          hasMore = length rows > pageSize;
          items = (if hasMore then take pageSize rows else rows)
      in (items, if hasMore \<and> items \<noteq> [] then Some (al_createdAt (last items), al_id (last items)) else None))"

definition audit_list ::
  "objectid_text \<Rightarrow> audit_filter \<Rightarrow> string option \<Rightarrow> int \<Rightarrow> audit_log list \<Rightarrow> app_error + (audit_log list \<times> string option)" where
  "audit_list T flt cursor limit logs =
     (let answer = (\<lambda>c. case audit_page flt limit logs c of (items, next_pos) \<Rightarrow>
              Inr (items, map_option (\<lambda>(t, i). audit_encodeCursor T t i) next_pos))
      in if truthy_str cursor
         then (case audit_decodeCursor T (or_default cursor []) of
                 Inl e \<Rightarrow> Inl e
               | Inr (t, i) \<Rightarrow> if MAX_DATE < \<bar>t\<bar> then Inl (InternalError ''INTERNAL'') else answer (Some (t, i)))
         else answer None)"

text \<open>A client that follows the text cursors, for at most \<open>n\<close> pages.\<close>

fun walk_audit :: "nat \<Rightarrow> objectid_text \<Rightarrow> audit_filter \<Rightarrow> string option \<Rightarrow> int \<Rightarrow> audit_log list \<Rightarrow> audit_log list option" where
  "walk_audit 0 T flt cursor limit logs = None"
| "walk_audit (Suc n) T flt cursor limit logs =
     (case audit_list T flt cursor limit logs of
        Inl _ \<Rightarrow> None
      | Inr (items, None) \<Rightarrow> Some items
      | Inr (items, Some c) \<Rightarrow> map_option (append items) (walk_audit n T flt (Some c) limit logs))"

section \<open>The text of an ObjectId\<close>

text \<open>What the program relies on of the text of an ObjectId.\<close>

locale objectid_laws =
  fixes T :: objectid_text
  assumes parse_show: "ot_parse T (ot_show T i) = Some i"
    and show_hex: "CHR ''_'' \<notin> set (ot_show T i)"
begin

lemma decode_encode:
  "\<bar>t\<bar> < DOUBLE_OVERFLOW \<Longrightarrow> audit_decodeCursor T (audit_encodeCursor T t i) = Inr (t, i)"
proof -
  have "CHR ''_'' \<notin> set (js_String t)" using js_String_chars [of "CHR ''_''" t] by (auto simp: digit_value_def)
  then have "split_on (CHR ''_'') (js_String t @ CHR ''_'' # ot_show T i) = [js_String t, ot_show T i]"
    using split_on_first [of "CHR ''_''" "js_String t" "ot_show T i"] split_on_none [of "CHR ''_''" "ot_show T i"] show_hex by simp
  then show "\<bar>t\<bar> < DOUBLE_OVERFLOW \<Longrightarrow> audit_decodeCursor T (audit_encodeCursor T t i) = Inr (t, i)"
    by (simp add: audit_decodeCursor_def audit_encodeCursor_def parse_show)
qed

lemma encode_nonempty: "audit_encodeCursor T t i \<noteq> []"
proof
  assume "audit_encodeCursor T t i = []"
  then have "js_String t @ ''_'' @ ot_show T i = of_base64url []"
    by (metis audit_encodeCursor_def base64url_roundtrip)
  then show False by (simp add: of_base64url_def List.map_filter_simps)
qed

lemma next_page:
  assumes "\<bar>t\<bar> \<le> MAX_DATE"
  shows "audit_list T flt (Some (audit_encodeCursor T t i)) limit logs =
    (case audit_page flt limit logs (Some (t, i)) of (items, pos) \<Rightarrow> Inr (items, map_option (\<lambda>(t, i). audit_encodeCursor T t i) pos))"
proof -
  have "MAX_DATE < DOUBLE_OVERFLOW" by (simp add: MAX_DATE_def DOUBLE_OVERFLOW_def)
  then show ?thesis using assms decode_encode [of t i] encode_nonempty [of t i] by (simp add: audit_list_def Let_def)
qed

end

text \<open>A text with these laws: the hexadecimal digits, at least twenty-four of them.\<close>

primrec hex_digits :: "nat \<Rightarrow> nat \<Rightarrow> string" where
  "hex_digits 0 n = []"
| "hex_digits (Suc k) n = hex_digits k (n div 16) @ [char_of (if n mod 16 < 10 then 48 + n mod 16 else 87 + n mod 16)]"

definition hex_value :: "char \<Rightarrow> nat option" where
  "hex_value c = (let n = (of_char c :: nat) in
     if 48 \<le> n \<and> n \<le> 57 then Some (n - 48) else if 97 \<le> n \<and> n \<le> 102 then Some (n - 87)
     else if 65 \<le> n \<and> n \<le> 70 then Some (n - 55) else None)"

definition hex_number :: "string \<Rightarrow> nat" where
  "hex_number s = foldl (\<lambda>acc c. 16 * acc + or_default (hex_value c) 0) 0 s"

definition hex_ids :: objectid_text where
  "hex_ids = \<lparr>ot_show = (\<lambda>i. hex_digits (max 24 (Suc i)) i),
     ot_parse = (\<lambda>s. if 24 \<le> length s \<and> list_all (\<lambda>c. hex_value c \<noteq> None) s then Some (hex_number s) else None)\<rparr>"

lemma hex_value_digit: "n < 16 \<Longrightarrow> hex_value (char_of (if n < 10 then 48 + n else 87 + n)) = Some n"
  by (simp add: hex_value_def of_char_of Let_def)

lemma hex_digits_props: "length (hex_digits k n) = k" "list_all (\<lambda>c. hex_value c \<noteq> None) (hex_digits k n)"
  by (induction k arbitrary: n) (simp_all add: hex_value_digit del: if_split)

lemma hex_number_digits: "n < 16 ^ k \<Longrightarrow> hex_number (hex_digits k n) = n"
proof (induction k arbitrary: n)
  case (Suc k)
  then have "hex_number (hex_digits k (n div 16)) = n div 16" by (simp add: less_mult_imp_div_less mult.commute)
  then show ?case by (simp add: hex_number_def hex_value_digit del: if_split)
qed (simp add: hex_number_def)

interpretation hex: objectid_laws hex_ids
proof unfold_locales
  fix i :: oid
  define k where "k = max 24 (Suc i)"
  have show_k: "ot_show hex_ids i = hex_digits k i" and k: "24 \<le> k" by (simp_all only: hex_ids_def k_def objectid_text.simps max.cobounded1)
  have "i < 16 ^ i" by (rule power_gt_expt) simp
  also have "(16 :: nat) ^ i \<le> 16 ^ k" by (rule power_increasing) (auto simp: k_def)
  finally show "ot_parse hex_ids (ot_show hex_ids i) = Some i"
    unfolding show_k using k hex_digits_props [where k = k] by (simp add: hex_ids_def hex_number_digits)
  show "CHR ''_'' \<notin> set (ot_show hex_ids i)"
    using hex_digits_props(2) [of k i] unfolding show_k by (auto simp: list_all_iff hex_value_def)
qed

section \<open>What redaction hides and what it keeps\<close>

text \<open>\<open>reaches v ks x\<close>: from \<open>v\<close> the properties \<open>ks\<close> lead to \<open>x\<close>, through the elements of arrays.\<close>

inductive reaches :: "js_value \<Rightarrow> string list \<Rightarrow> js_value \<Rightarrow> bool" where
  here: "\<forall>vs. x \<noteq> J_Array vs \<Longrightarrow> reaches x [] x"
| element: "v \<in> set vs \<Longrightarrow> reaches v ks x \<Longrightarrow> reaches (J_Array vs) ks x"
| property: "(k, v) \<in> set kvs \<Longrightarrow> reaches v ks x \<Longrightarrow> reaches (J_Object kvs) (k # ks) x"

inductive_simps reaches_array: "reaches (J_Array vs) ks x"
inductive_simps reaches_object: "reaches (J_Object kvs) ks x"
inductive_simps reaches_other [simp]: "reaches J_Undefined ks x" "reaches J_Null ks x" "reaches (J_Bool b) ks x" "reaches (J_Number n) ks x"
  "reaches (J_String s) ks x" "reaches (J_Instance v) ks x"

lemmas reaches_simps = reaches_array reaches_object

fun hidden :: "string \<Rightarrow> string list \<Rightarrow> bool" where
  "hidden prefix [] = False"
| "hidden prefix (k # ks) = (sensitive prefix k \<or> hidden (full_path prefix k) ks)"

definition scalar :: "js_value \<Rightarrow> bool" where
  "scalar x \<longleftrightarrow> (case x of J_Object _ \<Rightarrow> False | J_Array _ \<Rightarrow> False | _ \<Rightarrow> True)"

lemma redacted_hidden: "reaches (redactSensitive prefix v) ks x \<Longrightarrow> hidden prefix ks \<Longrightarrow> x = J_String REDACTED_PLACEHOLDER"
proof (induction prefix v arbitrary: ks rule: redactSensitive.induct)
  case (1 prefix vs)
  then show ?case by (auto simp: reaches_array)
next
  case (2 prefix kvs)
  then obtain k v ks' where k: "ks = k # ks'" "(k, v) \<in> set kvs"
    "reaches (if sensitive prefix k then J_String REDACTED_PLACEHOLDER else redactSensitive (full_path prefix k) v) ks' x"
    by (auto simp: reaches_object)
  then show ?case using 2 by (auto split: if_splits)
qed auto

lemma redacted_visible:
  "\<not> hidden prefix ks \<Longrightarrow> scalar x \<Longrightarrow> reaches (redactSensitive prefix v) ks x \<longleftrightarrow> reaches v ks x"
proof (induction prefix v arbitrary: ks rule: redactSensitive.induct)
  case (1 prefix vs)
  then show ?case by (auto simp: reaches_array scalar_def)
next
  case (2 prefix kvs)
  show ?case
  proof (cases ks)
    case Nil
    then show ?thesis using 2 by (auto simp: reaches_object scalar_def)
  next
    case (Cons k ks')
    then have "\<not> sensitive prefix k" "\<not> hidden (full_path prefix k) ks'" using "2.prems" by auto
    then have "reaches (redactSensitive (full_path prefix k) v) ks' x \<longleftrightarrow> reaches v ks' x" if "(k, v) \<in> set kvs" for v
      using "2.IH" that "2.prems"(2) by blast
    then show ?thesis using \<open>\<not> sensitive prefix k\<close> by (auto simp: reaches_object Cons)
  qed
qed auto

lemma reaches_view: "reaches v ks (J_String s) \<Longrightarrow> reaches (json_view v) ks (J_String s)"
proof (induction v ks "J_String s" rule: reaches.induct)
  case (property k v kvs ks)
  then show ?case by (force simp: reaches_object)
qed (auto simp: reaches_array)

text \<open>Values that differ at most below a sensitive property.\<close>

inductive agree :: "string \<Rightarrow> js_value \<Rightarrow> js_value \<Rightarrow> bool" where
  same: "agree prefix x x"
| array: "list_all2 (agree prefix) vs ws \<Longrightarrow> agree prefix (J_Array vs) (J_Array ws)"
| object: "list_all2 (\<lambda>x y. fst x = fst y \<and> (sensitive prefix (fst x) \<or> agree (full_path prefix (fst x)) (snd x) (snd y))) kvs kws \<Longrightarrow>
    agree prefix (J_Object kvs) (J_Object kws)"

lemma list_all2_map_eq: "list_all2 (\<lambda>x y. f x = g y) xs ys \<longleftrightarrow> map f xs = map g ys"
  by (auto simp: list_all2_conv_all_nth list_eq_iff_nth_eq)

lemma agree_redacted: "agree prefix v w \<Longrightarrow> redactSensitive prefix v = redactSensitive prefix w"
proof (induction rule: agree.induct)
  case (array prefix vs ws)
  then have "list_all2 (\<lambda>x y. redactSensitive prefix x = redactSensitive prefix y) vs ws"
    by (auto elim: list_all2_mono)
  then show ?case by (simp add: list_all2_map_eq)
next
  case (object prefix kvs kws)
  let ?f = "\<lambda>(k, v). (k, if sensitive prefix k then J_String REDACTED_PLACEHOLDER else redactSensitive (full_path prefix k) v)"
  have "list_all2 (\<lambda>x y. ?f x = ?f y) kvs kws"
    using object by (rule list_all2_mono) auto
  then show ?case by (simp add: list_all2_map_eq)
qed simp

lemma scalar_redacted:
  "(J_Undefined = redactSensitive prefix w) = (w = J_Undefined)" "(J_Null = redactSensitive prefix w) = (w = J_Null)"
  "(J_Bool b = redactSensitive prefix w) = (w = J_Bool b)" "(J_Number n = redactSensitive prefix w) = (w = J_Number n)"
  "(J_String s = redactSensitive prefix w) = (w = J_String s)" "(J_Instance i = redactSensitive prefix w) = (w = J_Instance i)"
  by (cases w; auto)+

lemma redacted_agree: "redactSensitive prefix v = redactSensitive prefix w \<Longrightarrow> agree prefix v w"
proof (induction prefix v arbitrary: w rule: redactSensitive.induct)
  case (1 prefix vs)
  then obtain ws where w: "w = J_Array ws" "map (redactSensitive prefix) vs = map (redactSensitive prefix) ws"
    by (cases w) auto
  then have "list_all2 (\<lambda>x y. redactSensitive prefix x = redactSensitive prefix y) vs ws" by (simp add: list_all2_map_eq)
  then have "list_all2 (agree prefix) vs ws" using "1.IH" by (rule list.rel_mono_strong)
  then show ?case using w(1) agree.array by blast
next
  case (2 prefix kvs)
  let ?f = "\<lambda>(k, v). (k, if sensitive prefix k then J_String REDACTED_PLACEHOLDER else redactSensitive (full_path prefix k) v)"
  from 2 obtain kws where w: "w = J_Object kws" "map ?f kvs = map ?f kws" by (cases w) auto
  then have "list_all2 (\<lambda>x y. ?f x = ?f y) kvs kws" by (simp add: list_all2_map_eq)
  then have "list_all2 (\<lambda>x y. fst x = fst y \<and> (sensitive prefix (fst x) \<or> agree (full_path prefix (fst x)) (snd x) (snd y))) kvs kws"
    by (rule list.rel_mono_strong) (use "2.IH" in \<open>auto split: if_splits\<close>)
  then show ?case using w(1) agree.object by blast
qed (simp_all add: scalar_redacted agree.same)

definition sample_audit_request :: audited_request where
  "sample_audit_request =
     \<lparr>aq_admin = Some \<lparr>as_sessionId = ''s'', as_adminId = ot_show hex_ids 7, as_adminEmail = ''a@b.c'', as_role = SUPER_ADMIN,
        as_permissions = [], as_ip = ''::1'', as_userAgent = ''ua'', as_csrfToken = ''t'', as_createdAt = 0, as_lastSeenAt = 0,
        as_absoluteExpiresAt = 9\<rparr>, aq_ip = None, aq_userAgent = None\<rparr>"

definition sample_audit_options :: audit_options where
  "sample_audit_options = \<lparr>ao_action = ''USER_BLOCK'', ao_resourceKind = Some ''User''\<rparr>"

definition sample_capture :: "js_value \<Rightarrow> capture_context" where
  "sample_capture v = \<lparr>cc_before = J_Null, cc_after = v, cc_resourceKind = None, cc_resourceId = None\<rparr>"

text \<open>C25: 
  Redaction hides exactly the sensitive properties: two values redact to the same one if and
  only if they differ at most below such a property, what is reached through one is the
  placeholder, everything else is reached as before, and redacting twice changes nothing.
\<close>

theorem redaction_exact:
  "(redactSensitive [] v = redactSensitive [] w \<longleftrightarrow> agree [] v w) \<and>
   (\<forall>ks x. reaches (redactSensitive [] v) ks x \<longrightarrow> hidden [] ks \<longrightarrow> x = J_String REDACTED_PLACEHOLDER) \<and>
   (\<forall>ks x. \<not> hidden [] ks \<longrightarrow> scalar x \<longrightarrow> reaches (redactSensitive [] v) ks x = reaches v ks x) \<and>
   redactSensitive [] (redactSensitive [] v) = redactSensitive [] v"
proof -
  have "redactSensitive p (redactSensitive p u) = redactSensitive p u" for p u
    by (induction p u rule: redactSensitive.induct) auto
  then show ?thesis using agree_redacted redacted_agree redacted_hidden redacted_visible by blast
qed

theorem redaction_exact_witness:
  "redactSensitive [] (J_Object [(''kyc'', J_Object [(''panCt'', J_String ''x'')])]) =
   redactSensitive [] (J_Object [(''kyc'', J_Object [(''panCt'', J_String ''y'')])]) \<and>
   reaches (redactSensitive [] (J_Object [(''phone'', J_String ''1'')])) [''phone''] (J_String ''1'')"
proof -
  have "agree [] (J_Object [(''kyc'', J_Object [(''panCt'', J_String ''x'')])]) (J_Object [(''kyc'', J_Object [(''panCt'', J_String ''y'')])])"
    by (auto intro!: agree.object simp: sensitive_def SENSITIVE_LEAF_KEYS_def)
  moreover have "reaches (J_Object [(''phone'', J_String ''1'')]) [''phone''] (J_String ''1'')" by (simp add: reaches_object)
  ultimately show ?thesis
    using redaction_exact [of "J_Object [(''kyc'', J_Object [(''panCt'', J_String ''x'')])]" "J_Object [(''kyc'', J_Object [(''panCt'', J_String ''y'')])]"]
      redaction_exact [of "J_Object [(''phone'', J_String ''1'')]"]
    by (simp add: scalar_def sensitive_def SENSITIVE_LEAF_KEYS_def SENSITIVE_DOTTED_PATHS_def full_path_def)
qed

lemma agree_answer:
  assumes "agree [] (cc_before ctx) (cc_before ctx')" "agree [] (cc_after ctx) (cc_after ctx')"
    "cc_resourceKind ctx = cc_resourceKind ctx'" "cc_resourceId ctx = cc_resourceId ctx'"
  shows "writeAuditLog T req opts ctx (redactSensitive [] (cc_before ctx)) (redactSensitive [] (cc_after ctx)) now newId logs =
    writeAuditLog T req opts ctx' (redactSensitive [] (cc_before ctx')) (redactSensitive [] (cc_after ctx')) now newId logs"
  unfolding writeAuditLog_def agree_redacted [OF assms(1)] agree_redacted [OF assms(2)] assms(3,4) ..

text \<open>
  The wrapper gives nothing sensitive away: outcomes of a handler that differ at most in
  sensitive fields give the same answer and the same log. A handler that fails leaves no row; one
  that succeeds leaves at most one, and its effect stays even when the row cannot be written.
\<close>

theorem audit_log_effect:
  assumes "handler s = (Inr ctx, s')" "handler' s = (Inr ctx', s')"
    and "agree [] (cc_before ctx) (cc_before ctx')" "agree [] (cc_after ctx) (cc_after ctx')"
    and "cc_resourceKind ctx = cc_resourceKind ctx'" "cc_resourceId ctx = cc_resourceId ctx'"
    and "failing s = (Inl e, s'')"
  shows "auditLog T opts handler req now newId (s, logs) = auditLog T opts handler' req now newId (s, logs) \<and>
    (\<exists>r rows. auditLog T opts handler req now newId (s, logs) = (r, s', logs @ rows) \<and> length rows \<le> 1) \<and>
    auditLog T opts failing req now newId (s, logs) = (Inl e, s'', logs)"
proof -
  have "auditLog T opts handler req now newId (s, logs) = auditLog T opts handler' req now newId (s, logs)"
    using assms(1,2) agree_answer [OF assms(3-6)] agree_redacted [OF assms(4)] by (simp add: auditLog_def)
  moreover have "\<exists>rows. logs' = logs @ rows \<and> length rows \<le> 1" if "writeAuditLog T req opts ctx b a now newId logs = Inr logs'" for b a logs'
    using that by (auto simp: writeAuditLog_def Let_def split: option.splits sum.splits)
  then have "\<exists>r rows. auditLog T opts handler req now newId (s, logs) = (r, s', logs @ rows) \<and> length rows \<le> 1"
    using assms(1) by (force simp: auditLog_def Let_def split: sum.splits)
  ultimately show ?thesis using assms(7) by (simp add: auditLog_def)
qed

theorem audit_log_effect_witness:
  "auditLog hex_ids sample_audit_options (\<lambda>s. (Inr (sample_capture (J_Object [(''codeCt'', J_String ''x'')])), s + 1)) sample_audit_request 0 1 (5 :: nat, []) =
   auditLog hex_ids sample_audit_options (\<lambda>s. (Inr (sample_capture (J_Object [(''codeCt'', J_String ''y'')])), s + 1)) sample_audit_request 0 1 (5, [])"
proof -
  let ?h = "\<lambda>x s :: nat. (Inr (sample_capture (J_Object [(''codeCt'', J_String x)])) :: app_error + capture_context, s + 1)"
  have "agree [] (cc_after (sample_capture (J_Object [(''codeCt'', J_String ''x'')]))) (cc_after (sample_capture (J_Object [(''codeCt'', J_String ''y'')])))"
    unfolding sample_capture_def by (auto intro!: agree.object simp: sensitive_def SENSITIVE_LEAF_KEYS_def)
  then show ?thesis
    using audit_log_effect [of "?h ''x''" 5 "sample_capture (J_Object [(''codeCt'', J_String ''x'')])" 6 "?h ''y''"
        "sample_capture (J_Object [(''codeCt'', J_String ''y'')])" "\<lambda>s. (Inl NotFoundError, s)" NotFoundError 5]
    by (simp add: sample_capture_def agree.same)
qed

definition sample_pan_user :: user where
  "sample_pan_user = (sample_user 1 0 [])\<lparr>u_kyc := \<lparr>kyc_status = K_VERIFIED, kyc_panCt = Some ''ct'', kyc_panIv = Some ''iv'', kyc_panTag = Some ''tag'',
     kyc_panDekEnc = Some ''dek'', kyc_panLast4 = Some ''1234'', kyc_verifiedAt = Some 0\<rparr>\<rparr>"

text \<open>
  A document that a repository returns is not a plain object, so redaction passes it through:
  blocking a user with a PAN on file answers with its ciphertext and the wrapped key, and
  writes them to the log, although the fields are on the list. The row as it was before
  the block, a lean read, is redacted.
\<close>

theorem block_leaks_pan:
  assumes "findOne (\<lambda>u. u_id u = uid) (users s) = Some user" "kyc_panCt (u_kyc user) = Some ct" "kyc_panDekEnc (u_kyc user) = Some dek"
    and "aq_admin req = Some admin" "ot_parse T (as_adminId admin) = Some actor"
  shows "\<exists>a s' row. auditLog T opts (block_handler uid reason actor now) req now newId (s, logs) = (Inr a, s', logs @ [row]) \<and>
    reaches (json_view a) [''kyc'', ''panCt''] (J_String ct) \<and> reaches (json_view a) [''kyc'', ''panDekEnc''] (J_String dek) \<and>
    (\<exists>v. al_after row = Some v \<and> reaches (json_view v) [''kyc'', ''panCt''] (J_String ct)) \<and>
    (\<exists>v. al_before row = Some v \<and> (\<forall>x. reaches v [''kyc'', ''panCt''] x \<longrightarrow> x = J_String REDACTED_PLACEHOLDER))"
proof -
  let ?after = "user\<lparr>u_blocked := \<lparr>bl_isBlocked = True, bl_reason = Some reason, bl_at = Some now, bl_by = Some actor\<rparr>\<rparr>"
  let ?ctx = "\<lparr>cc_before = J_Object (user_fields user), cc_after = J_Instance (J_Object (user_fields ?after)), cc_resourceKind = None,
    cc_resourceId = Some (Ref_Oid uid)\<rparr>"
  obtain s' where h: "block_handler uid reason actor now s = (Inr ?ctx, s')"
    using assms(1) by (simp add: block_handler_def users_getForAudit_def block_user_def findOneAndUpdate_def)
  have before: "\<forall>x. reaches (redactSensitive [] (J_Object (user_fields user))) [''kyc'', ''panCt''] x \<longrightarrow> x = J_String REDACTED_PLACEHOLDER"
  proof (intro allI impI)
    fix x assume "reaches (redactSensitive [] (J_Object (user_fields user))) [''kyc'', ''panCt''] x"
    then show "x = J_String REDACTED_PLACEHOLDER" by (rule redacted_hidden) (simp add: sensitive_def SENSITIVE_LEAF_KEYS_def)
  qed
  have "reaches (J_Object (user_fields ?after)) [''kyc'', ''panCt''] (J_String ct)"
    "reaches (J_Object (user_fields ?after)) [''kyc'', ''panDekEnc''] (J_String dek)"
    using assms(2,3) by (force simp: user_fields_def reaches_object js_opt_def)+
  then have "reaches (json_view (J_Instance (J_Object (user_fields ?after)))) [''kyc'', ''panCt''] (J_String ct)"
    "reaches (json_view (J_Instance (J_Object (user_fields ?after)))) [''kyc'', ''panDekEnc''] (J_String dek)"
    unfolding json_view.simps(1) by (blast intro: reaches_view)+
  then show ?thesis
    using assms(4,5) before
    by (simp add: auditLog_def h Let_def writeAuditLog_def resolve_ref_def audit_answer_def)
qed

theorem block_leaks_pan_witness:
  "\<exists>a st. fst (auditLog hex_ids sample_audit_options (block_handler 1 ''spam'' 7 5) sample_audit_request 5 1 (empty_db\<lparr>users := [sample_pan_user]\<rparr>, [])) = Inr a \<and>
    reaches (json_view a) [''kyc'', ''panCt''] (J_String ''ct'')"
proof -
  have "findOne (\<lambda>u. u_id u = 1) (users (empty_db\<lparr>users := [sample_pan_user]\<rparr>)) = Some sample_pan_user"
    by (simp add: findOne_def sample_pan_user_def sample_user_def)
  moreover have "kyc_panCt (u_kyc sample_pan_user) = Some ''ct''" "kyc_panDekEnc (u_kyc sample_pan_user) = Some ''dek''"
    by (simp_all add: sample_pan_user_def)
  moreover obtain admin where "aq_admin sample_audit_request = Some admin" "as_adminId admin = ot_show hex_ids 7"
    by (simp add: sample_audit_request_def)
  ultimately show ?thesis
    using block_leaks_pan [of 1 "empty_db\<lparr>users := [sample_pan_user]\<rparr>" sample_pan_user "''ct''" "''dek''" sample_audit_request admin hex_ids 7
        sample_audit_options "''spam''" 5 1 "[]"] hex.parse_show [of 7] by fastforce
qed

text \<open>
  The answer to a change of role hands out the second-factor secret: the controller spreads
  the document, so the secret sits below \<open>_doc\<close> and its path is not the listed one. The password
  hash next to it is redacted.
\<close>

theorem role_change_leaks_second_factor:
  assumes "findOne (\<lambda>a. adm_id a = i) (am_users st) = Some admin" "adm_2fa_secret admin = Some secret"
    and document: "\<And>fields. (''_doc'', J_Object fields) \<in> set (document fields)"
    and "aq_admin req = Some actor" "ot_parse T (as_adminId actor) = Some actorId"
  shows "\<exists>a st' row. auditLog T opts (changeRole_handler document i role reason) req now newId (st, logs) = (Inr a, st', logs @ [row]) \<and>
    reaches a [''_doc'', ''twoFactor'', ''secret''] (J_String secret) \<and>
    (\<exists>v. al_after row = Some v \<and> reaches v [''_doc'', ''twoFactor'', ''secret''] (J_String secret)) \<and>
    (\<forall>x. reaches a [''_doc'', ''passwordHash''] x \<longrightarrow> x = J_String REDACTED_PLACEHOLDER)"
proof -
  let ?after = "admin\<lparr>adm_role := role\<rparr>"
  let ?v = "spread_reason (document (admin_fields ?after)) reason"
  let ?ctx = "\<lparr>cc_before = J_Object (admin_fields admin), cc_after = ?v, cc_resourceKind = Some ''AdminUser'', cc_resourceId = Some (Ref_Oid i)\<rparr>"
  obtain st' where h: "changeRole_handler document i role reason st = (Inr ?ctx, st')"
    using assms(1) by (simp add: changeRole_handler_def changeRole_def admins_update_def findOneAndUpdate_def)
  have "reaches (J_Object (admin_fields ?after)) [''twoFactor'', ''secret''] (J_String secret)"
    using assms(2) by (simp add: admin_fields_def reaches_object js_opt_def)
  then have "reaches ?v [''_doc'', ''twoFactor'', ''secret''] (J_String secret)"
    using document [of "admin_fields ?after"] unfolding spread_reason_def by (intro property) simp_all
  then have r: "reaches (redactSensitive [] ?v) [''_doc'', ''twoFactor'', ''secret''] (J_String secret)"
    by (subst redacted_visible) (simp_all add: scalar_def sensitive_def SENSITIVE_LEAF_KEYS_def SENSITIVE_DOTTED_PATHS_def full_path_def)
  have p: "x = J_String REDACTED_PLACEHOLDER" if "reaches (redactSensitive [] ?v) [''_doc'', ''passwordHash''] x" for x
    using redacted_hidden [OF that] by (simp add: sensitive_def SENSITIVE_LEAF_KEYS_def)
  obtain kvs where o: "redactSensitive [] ?v = J_Object kvs" by (simp add: spread_reason_def)
  show ?thesis
    using assms(4,5) r p by (simp add: auditLog_def h Let_def writeAuditLog_def resolve_ref_def audit_answer_def o)
qed

theorem role_change_leaks_second_factor_witness:
  "\<exists>a. fst (auditLog hex_ids sample_audit_options (changeRole_handler (\<lambda>fields. [(''_doc'', J_Object fields)]) 1 SUPER_ADMIN ''why'') sample_audit_request 5 1
       (sample_admin_state [(sample_admin 1 PAYMENT_ADMIN False)\<lparr>adm_2fa_secret := Some ''otp''\<rparr>], [])) = Inr a \<and>
    reaches a [''_doc'', ''twoFactor'', ''secret''] (J_String ''otp'')"
proof -
  let ?a = "(sample_admin 1 PAYMENT_ADMIN False)\<lparr>adm_2fa_secret := Some ''otp''\<rparr>"
  have "findOne (\<lambda>a. adm_id a = 1) (am_users (sample_admin_state [?a])) = Some ?a"
    by (simp add: findOne_def sample_admin_state_def sample_admin_def)
  moreover have "adm_2fa_secret ?a = Some ''otp''" by simp
  moreover have "(''_doc'', J_Object fields) \<in> set [(''_doc'', J_Object fields)]" for fields by simp
  moreover obtain admin where "aq_admin sample_audit_request = Some admin" "as_adminId admin = ot_show hex_ids 7"
    by (simp add: sample_audit_request_def)
  ultimately show ?thesis
    using role_change_leaks_second_factor [of 1 "sample_admin_state [?a]" ?a "''otp''" "\<lambda>fields. [(''_doc'', J_Object fields)]"
        sample_audit_request admin hex_ids 7 sample_audit_options SUPER_ADMIN "''why''" 5 1 "[]"] hex.parse_show [of 7] by fastforce
qed

section \<open>The cursor and the pages\<close>

interpretation audit: keyset audit_key al_id "\<lambda>a. (al_createdAt a, al_id a)" audit_matches audit_page_size
  "\<lambda>flt limit logs c. audit_page flt limit logs c"
proof unfold_locales
  show "audit_matches q (Some (al_createdAt y, al_id y)) x \<longleftrightarrow> audit_matches q None x \<and> audit_key y < audit_key x" for q x y
    by (auto simp: audit_matches_def audit_key_def less_prod_def)
  show "0 < audit_page_size l" for l by (simp add: audit_page_size_def)
  then have "take (audit_page_size l) xs \<noteq> []" if "audit_page_size l < length xs" for xs :: "audit_log list" and l
    using that by (metis gr_implies_not0 length_0_conv not_gr_zero take_eq_Nil)
  then show "audit_page q l rows c =
      (let fetched = take (audit_page_size l + 1) (sort_key audit_key (filter (audit_matches q c) rows))
       in if audit_page_size l < length fetched
          then (take (audit_page_size l) fetched,
                Some (al_createdAt (last (take (audit_page_size l) fetched)), al_id (last (take (audit_page_size l) fetched))))
          else (fetched, None))" for q l rows c
    unfolding audit_page_def find_docs_def Let_def by auto
qed (simp add: audit_key_def)

lemma walk_audit_pages:
  assumes "objectid_laws T" and dates: "\<forall>a \<in> set logs. \<bar>al_createdAt a\<bar> \<le> MAX_DATE"
    and c: "c = None \<or> (\<exists>t i. c = Some (t, i) \<and> \<bar>t\<bar> \<le> MAX_DATE)"
  shows "walk_audit n T flt (map_option (\<lambda>(t, i). audit_encodeCursor T t i) c) limit logs = walk_pages n (audit_page flt limit logs) c"
  using c
proof (induction n arbitrary: c)
  case (Suc n)
  obtain items pos where p: "audit_page flt limit logs c = (items, pos)" by fastforce
  have pos: "pos = None \<or> (\<exists>t i. pos = Some (t, i) \<and> \<bar>t\<bar> \<le> MAX_DATE)"
  proof (cases "items = []")
    case False
    have "set items \<subseteq> set logs"
      using p by (auto simp: audit_page_def find_docs_def Let_def split: if_splits dest!: in_set_takeD)
    then have "\<bar>al_createdAt (last items)\<bar> \<le> MAX_DATE" using False dates last_in_set by blast
    then show ?thesis using p by (auto simp: audit_page_def Let_def split: if_splits)
  qed (use p in \<open>auto simp: audit_page_def Let_def split: if_splits\<close>)
  have "audit_list T flt (map_option (\<lambda>(t, i). audit_encodeCursor T t i) c) limit logs =
      Inr (items, map_option (\<lambda>(t, i). audit_encodeCursor T t i) pos)"
  proof (cases c)
    case None
    then show ?thesis using p by (simp add: audit_list_def)
  next
    case (Some ti)
    then obtain t i where "c = Some (t, i)" "\<bar>t\<bar> \<le> MAX_DATE" using Suc.prems by auto
    then show ?thesis using p objectid_laws.next_page [OF assms(1)] by simp
  qed
  then show ?case using p Suc.IH [OF pos] by (cases pos) auto
qed simp

text \<open>
  An admin who follows the cursors gets every row of the log that matches the filter, each once
  and newest first, whatever the size of the pages; a cursor survives its text.
\<close>

theorem audit_walk_complete:
  assumes "objectid_laws T" "distinct (map al_id logs)" "\<forall>a \<in> set logs. \<bar>al_createdAt a\<bar> \<le> MAX_DATE"
  shows "walk_audit (Suc (length logs)) T flt None limit logs = Some (sort_key audit_key (filter (audit_matches flt None) logs)) \<and>
    (\<forall>a \<in> set logs. audit_decodeCursor T (audit_encodeCursor T (al_createdAt a) (al_id a)) = Inr (al_createdAt a, al_id a))"
proof -
  have "MAX_DATE < DOUBLE_OVERFLOW" by (simp add: MAX_DATE_def DOUBLE_OVERFLOW_def)
  then have "\<bar>al_createdAt a\<bar> < DOUBLE_OVERFLOW" if "a \<in> set logs" for a using assms(3) that by fastforce
  then show ?thesis
    using walk_audit_pages [OF assms(1,3), of None] audit.walk_complete [OF assms(2)] objectid_laws.decode_encode [OF assms(1)] by simp
qed

theorem audit_walk_complete_witness:
  "walk_audit 3 hex_ids \<lparr>af_actorId = None, af_resourceKind = None, af_resourceId = None, af_action = None, af_from = None, af_to = None\<rparr> None 1
     [\<lparr>al_id = 1, al_createdAt = 5, al_actorId = 7, al_actorEmail = [], al_action = ''X'', al_resource = None, al_before = None, al_after = None, al_ip = [], al_userAgent = []\<rparr>,
      \<lparr>al_id = 2, al_createdAt = 5, al_actorId = 7, al_actorEmail = [], al_action = ''X'', al_resource = None, al_before = None, al_after = None, al_ip = [], al_userAgent = []\<rparr>] =
   Some [\<lparr>al_id = 2, al_createdAt = 5, al_actorId = 7, al_actorEmail = [], al_action = ''X'', al_resource = None, al_before = None, al_after = None, al_ip = [], al_userAgent = []\<rparr>,
      \<lparr>al_id = 1, al_createdAt = 5, al_actorId = 7, al_actorEmail = [], al_action = ''X'', al_resource = None, al_before = None, al_after = None, al_ip = [], al_userAgent = []\<rparr>]"
proof -
  define row where "row i = \<lparr>al_id = i, al_createdAt = 5, al_actorId = 7, al_actorEmail = [], al_action = ''X'', al_resource = None, al_before = None,
    al_after = None, al_ip = [], al_userAgent = []\<rparr>" for i :: oid
  define flt where "flt = \<lparr>af_actorId = None, af_resourceKind = None, af_resourceId = None, af_action = None, af_from = None, af_to = None\<rparr>"
  have ids: "distinct (map al_id [row 1, row 2])" and dates: "\<forall>a \<in> set [row 1, row 2]. \<bar>al_createdAt a\<bar> \<le> MAX_DATE"
    by (simp_all add: row_def MAX_DATE_def)
  have "audit_matches flt None (row 1)" "audit_matches flt None (row 2)" by (simp_all add: audit_matches_def flt_def)
  moreover have "audit_key (row 2) < audit_key (row 1)" by (simp add: audit_key_def row_def less_prod_def)
  ultimately have "sort_key audit_key (filter (audit_matches flt None) [row 1, row 2]) = [row 2, row 1]"
    by (simp add: sort_key_def leD)
  moreover have "Suc (length [row 1, row 2]) = 3" by simp
  ultimately have "walk_audit 3 hex_ids flt None 1 [row 1, row 2] = Some [row 2, row 1]"
    using audit_walk_complete [OF hex.objectid_laws_axioms ids dates, of flt 1] by metis
  then show ?thesis by (simp add: row_def flt_def)
qed

end
