(* ===== verification/Views.thy ===== *)
theory Views
  imports Audit_Trail Sessions Tier Samples
begin

text \<open>
  What users and admins are shown: the profile of src/modules/users/users.profile.service.ts,
  the user list of src/modules/admin-users, the cached dashboard of src/modules/admin-dashboard
  and the broadcasts of src/modules/admin-notifications.

  \<open>toISOString\<close> is injective and a date stands for its text. The dashboard's JSON in Redis
  stands for the values it encodes; the server is a parameter.
\<close>

section \<open>The profile\<close>

record me_entry =
  me_tier :: tier
  me_status :: entry_status
  me_expiresAt :: "date option"

record me_profile =
  mp_id :: oid
  mp_phone :: string
  mp_coinBalance :: coins
  mp_kyc_status :: kyc_status
  mp_kyc_panLast4 :: "string option"
  mp_displayName :: "string option"
  mp_avatarUrl :: "string option"
  mp_subscriptions :: "me_entry list"
  mp_currentTier :: tier

definition mapEntry :: "sub_entry \<Rightarrow> me_entry" where
  "mapEntry entry = \<lparr>me_tier = en_tier entry, me_status = en_status entry, me_expiresAt = js_read (en_expiresAt entry)\<rparr>"

definition getMe :: "oid \<Rightarrow> date \<Rightarrow> user list \<Rightarrow> app_error + me_profile" where
  "getMe userId now us =
     (case findOne (\<lambda>u. u_id u = userId) us of
        None \<Rightarrow> Inl NotFoundError
      | Some user \<Rightarrow>
          if u_anonymizedAt user \<noteq> None then Inl NotFoundError
          else if bl_isBlocked (u_blocked user) then Inl (ForbiddenError ''USER_BLOCKED'')
          else Inr
            \<lparr>mp_id = u_id user, mp_phone = u_phone user, mp_coinBalance = u_coinBalance user,
             mp_kyc_status = kyc_status (u_kyc user),
             mp_kyc_panLast4 = (if kyc_status (u_kyc user) = K_VERIFIED \<and> truthy_str (kyc_panLast4 (u_kyc user))
                                then kyc_panLast4 (u_kyc user) else None),
             mp_displayName = (if truthy_str (u_displayName user) then u_displayName user else None),
             mp_avatarUrl = (if truthy_str (u_avatarUrl user) then u_avatarUrl user else None),
             mp_subscriptions = map mapEntry (u_subscriptions user),
             mp_currentTier = deriveCurrentTier (u_subscriptions user) now\<rparr>)"

section \<open>The list of users\<close>

record users_filter =
  uf_search :: "string option"
  uf_tier :: "tier option"
  uf_blocked :: "bool option"

text \<open>
  The regular expression \<open>^\<close> followed by the escaped text, with the option \<open>i\<close>: the text is a
  prefix up to the case of letters.
\<close>

definition prefix_ci :: "string \<Rightarrow> string \<Rightarrow> bool" where
  "prefix_ci s t = (take (length s) (js_lower t) = js_lower s)"

definition in_tier_query :: "tier \<Rightarrow> user \<Rightarrow> bool" where
  "in_tier_query t u = (if t = PUBLIC then u_subscriptions u = [] else list_ex (\<lambda>e. en_tier e = t) (u_subscriptions u))"

definition users_match :: "users_filter \<Rightarrow> user \<Rightarrow> bool" where
  "users_match flt u \<longleftrightarrow>
     (case uf_tier flt of None \<Rightarrow> True | Some t \<Rightarrow> in_tier_query t u) \<and>
     (case uf_blocked flt of None \<Rightarrow> True | Some b \<Rightarrow> bl_isBlocked (u_blocked u) = b) \<and>
     (truthy_str (uf_search flt) \<longrightarrow>
        (let s = latin1_trim (or_default (uf_search flt) [])
         in u_phone u = s \<or> prefix_ci s (u_phone u) \<or> u_email u = Some (js_lower s)))"

definition users_list :: "users_filter \<Rightarrow> int \<Rightarrow> user list \<Rightarrow> user list" where
  "users_list flt limit us =
     take (nat (max 1 (min 200 limit))) (sort_key (\<lambda>u. - u_createdAt u) (find_docs (users_match flt) us))"

record users_query =
  uq_search :: "string option"
  uq_tier :: "tier option"
  uq_blocked :: "string option"
  uq_limit :: "int option"

definition users_list_handler :: "users_query \<Rightarrow> user list \<Rightarrow> user list" where
  "users_list_handler q us =
     users_list \<lparr>uf_search = (if truthy_str (uq_search q) then uq_search q else None), uf_tier = uq_tier q,
                 uf_blocked = map_option coerce_boolean (uq_blocked q)\<rparr> (or_default (uq_limit q) 50) us"

section \<open>Broadcasts\<close>

datatype broadcast_target = To_All | To_Tier tier | To_User oid

record broadcast_input =
  bi_target :: broadcast_target
  bi_title :: "string option"
  bi_body :: "string option"
  bi_payload :: "(string \<times> js_value) list option"
  bi_broadcastId :: "string option"

record custom_notification =
  cn_id :: oid
  cn_userId :: oid
  cn_title :: "string option"
  cn_body :: "string option"
  cn_payload :: "(string \<times> js_value) list"

definition resolveRecipients :: "broadcast_target \<Rightarrow> user list \<Rightarrow> app_error + oid list" where
  "resolveRecipients target us =
     (case target of
        To_User i \<Rightarrow> if exists_doc (\<lambda>u. u_id u = i) us then Inr [i] else Inl ValidationError
      | To_Tier t \<Rightarrow> Inr (map u_id (find_docs (in_tier_query t) us))
      | To_All \<Rightarrow> Inr (map u_id us))"

text \<open>\<open>{...payload, broadcastId}\<close>\<close>

definition merged_payload :: "(string \<times> js_value) list \<Rightarrow> string \<Rightarrow> (string \<times> js_value) list" where
  "merged_payload payload i = filter (\<lambda>kv. fst kv \<noteq> ''broadcastId'') payload @ [(''broadcastId'', J_String i)]"

definition broadcast :: "broadcast_input \<Rightarrow> string \<Rightarrow> (oid \<Rightarrow> oid) \<Rightarrow> user list \<Rightarrow> custom_notification list
   \<Rightarrow> (app_error + (string \<times> int)) \<times> custom_notification list" where
  "broadcast inp uuid newId us rows =
     (let broadcastId = or_default (bi_broadcastId inp) uuid
      in case resolveRecipients (bi_target inp) us of
           Inl e \<Rightarrow> (Inl e, rows)
         | Inr userIds \<Rightarrow>
             if userIds = [] then (Inr (broadcastId, 0), rows)
             else (let docs = map (\<lambda>uid. \<lparr>cn_id = newId uid, cn_userId = uid, cn_title = bi_title inp, cn_body = bi_body inp,
                                          cn_payload = merged_payload (or_default (bi_payload inp) []) broadcastId\<rparr>) userIds
                   in (Inr (broadcastId, int (length docs)), rows @ docs)))"

section \<open>The dashboard\<close>

record dashboard_metrics =
  dm_users_total :: int
  dm_users_blocked :: int
  dm_dayKey :: day_key
  dm_posts :: int
  dm_votes :: int
  dm_donationsCount :: int
  dm_donationsTotalPaise :: paise
  dm_activeTotal :: int
  dm_activePro :: int
  dm_activeProMax :: int
  dm_payouts_pending :: int
  dm_payouts_released :: int

text \<open>The key \<open>admin:dashboard:metrics\<close> of Redis, with the envelope it holds.\<close>

record 'r metrics_cache =
  mc_get :: "date \<Rightarrow> 'r \<Rightarrow> (dashboard_metrics \<times> date) option"
  mc_set_ex :: "date \<Rightarrow> dashboard_metrics \<times> date \<Rightarrow> int \<Rightarrow> 'r \<Rightarrow> 'r"
  mc_del :: "date \<Rightarrow> 'r \<Rightarrow> 'r"

definition DASHBOARD_TTL_SECONDS :: int where "DASHBOARD_TTL_SECONDS = 60"

definition startOfIstDay :: "date \<Rightarrow> date" where
  "startOfIstDay d = (let ist = d + 19800000 in ist - ist mod 86400000 - 19800000)"

definition endOfIstDay :: "date \<Rightarrow> date" where
  "endOfIstDay d = startOfIstDay d + 86400000"

definition collect_metrics :: "dayjs \<Rightarrow> date \<Rightarrow> db \<Rightarrow> dashboard_metrics" where
  "collect_metrics dj now s =
     (let dayKey = dayKeyIst dj now;
          todays = find_docs (\<lambda>d. d_status d = D_CAPTURED \<and> startOfIstDay now \<le> d_createdAt d \<and> d_createdAt d < endOfIstDay now) (donations s);
          activePro = count_docs (\<lambda>x. s_status x = S_ACTIVE \<and> s_tier x = PRO) (subscriptions s);
          activeProMax = count_docs (\<lambda>x. s_status x = S_ACTIVE \<and> s_tier x = PRO_MAX) (subscriptions s)
      in \<lparr>dm_users_total = count_docs (\<lambda>_. True) (users s),
          dm_users_blocked = count_docs (\<lambda>u. bl_isBlocked (u_blocked u)) (users s),
          dm_dayKey = dayKey,
          dm_posts = count_docs (\<lambda>p. p_dayKey p = dayKey) (posts s),
          dm_votes = count_docs (\<lambda>v. v_dayKey v = dayKey) (votes s),
          dm_donationsCount = int (length todays),
          dm_donationsTotalPaise = sum_list (map d_amount todays),
          dm_activeTotal = activePro + activeProMax, dm_activePro = activePro, dm_activeProMax = activeProMax,
          dm_payouts_pending = count_docs (\<lambda>w. w_payoutStatus w = W_PENDING) (prize_winners s),
          dm_payouts_released = count_docs (\<lambda>w. w_payoutStatus w = W_RELEASED) (prize_winners s)\<rparr>)"

record dashboard_response =
  dr_data :: dashboard_metrics
  dr_generatedAt :: date
  dr_cached :: bool

definition getMetrics :: "dayjs \<Rightarrow> 'r metrics_cache \<Rightarrow> date \<Rightarrow> db \<Rightarrow> 'r \<Rightarrow> dashboard_response \<times> 'r" where
  "getMetrics dj C now s r =
     (case mc_get C now r of
        Some (data, generatedAt) \<Rightarrow> (\<lparr>dr_data = data, dr_generatedAt = generatedAt, dr_cached = True\<rparr>, r)
      | None \<Rightarrow>
          (let data = collect_metrics dj now s
           in (\<lparr>dr_data = data, dr_generatedAt = now, dr_cached = False\<rparr>, mc_set_ex C now (data, now) DASHBOARD_TTL_SECONDS r)))"

definition clearCache :: "'r metrics_cache \<Rightarrow> date \<Rightarrow> 'r \<Rightarrow> 'r" where
  "clearCache C now r = mc_del C now r"

section \<open>What the profile shows\<close>

lemma findOne_map_id:
  assumes "\<And>u. u_id (f u) = u_id u"
  shows "findOne (\<lambda>u. u_id u = i) (map f us) = map_option f (findOne (\<lambda>u. u_id u = i) us)"
  unfolding findOne_def by (induction us) (auto simp: assms)

text \<open>
  The profile of a user who is neither blocked nor anonymised shows the digits of the PAN only
  when it is verified, a current tier that opens its section, and one entry for each
  subscription. Date of birth, state, e-mail, the PAN's ciphertext, counters and every other
  field have no influence on it.
\<close>

theorem profile_effect:
  assumes "getMe uid now us = Inr p"
    and same: "\<And>u. (u_id (f u), u_phone (f u), u_coinBalance (f u), kyc_status (u_kyc (f u)), kyc_panLast4 (u_kyc (f u)), u_displayName (f u),
        u_avatarUrl (f u), u_subscriptions (f u), bl_isBlocked (u_blocked (f u)), u_anonymizedAt (f u)) =
      (u_id u, u_phone u, u_coinBalance u, kyc_status (u_kyc u), kyc_panLast4 (u_kyc u), u_displayName u,
        u_avatarUrl u, u_subscriptions u, bl_isBlocked (u_blocked u), u_anonymizedAt u)"
  shows "(\<exists>u \<in> set us. u_id u = uid \<and> u_anonymizedAt u = None \<and> \<not> bl_isBlocked (u_blocked u) \<and>
      mp_coinBalance p = u_coinBalance u \<and> (mp_kyc_panLast4 p \<noteq> None \<longrightarrow> kyc_status (u_kyc u) = K_VERIFIED) \<and>
      userCanAccessTier (u_subscriptions u) (mp_currentTier p) now \<and> map me_tier (mp_subscriptions p) = map en_tier (u_subscriptions u)) \<and>
    getMe uid now (map f us) = Inr p"
proof -
  obtain u where u: "findOne (\<lambda>u. u_id u = uid) us = Some u" using assms(1) by (auto simp: getMe_def split: option.splits)
  have "userCanAccessTier (u_subscriptions u) (deriveCurrentTier (u_subscriptions u) now) now"
    by (simp add: deriveCurrentTier_eq userCanAccessTier_def)
  then have "\<exists>u \<in> set us. u_id u = uid \<and> u_anonymizedAt u = None \<and> \<not> bl_isBlocked (u_blocked u) \<and>
      mp_coinBalance p = u_coinBalance u \<and> (mp_kyc_panLast4 p \<noteq> None \<longrightarrow> kyc_status (u_kyc u) = K_VERIFIED) \<and>
      userCanAccessTier (u_subscriptions u) (mp_currentTier p) now \<and> map me_tier (mp_subscriptions p) = map en_tier (u_subscriptions u)"
    using assms(1) u findOne_SomeD [OF u]
    by (intro bexI [of _ u]) (auto simp: getMe_def mapEntry_def split: if_splits)
  moreover have f: "findOne (\<lambda>u. u_id u = uid) (map f us) = Some (f u)" using u same by (simp add: findOne_map_id)
  have "getMe uid now (map f us) = getMe uid now us"
    unfolding getMe_def f u using same [of u] by (simp only: option.case prod.inject)
  ultimately show ?thesis using assms(1) by simp
qed

theorem profile_effect_witness:
  "\<exists>p. getMe 1 0 [sample_user 1 5 []] = Inr p \<and> getMe 1 0 (map (\<lambda>u. u\<lparr>u_dob := 7, u_email := Some ''a@b.c''\<rparr>) [sample_user 1 5 []]) = Inr p"
proof -
  have "getMe 1 0 [sample_user 1 5 []] \<noteq> Inl e" for e
    by (simp add: getMe_def sample_user_def findOne_def)
  then obtain p where "getMe 1 0 [sample_user 1 5 []] = Inr p" by (meson obj_sumE)
  then show ?thesis using profile_effect [of 1 0 "[sample_user 1 5 []]" p "\<lambda>u. u\<lparr>u_dob := 7, u_email := Some ''a@b.c''\<rparr>"] by simp
qed

section \<open>What the list and the broadcasts select\<close>

definition blocked_sample :: user where
  "blocked_sample = (sample_user 1 0 [])\<lparr>u_blocked := \<lparr>bl_isBlocked = True, bl_reason = None, bl_at = None, bl_by = None\<rparr>\<rparr>"

text \<open>
  The query string \<open>blocked=false\<close> lists the blocked users and nobody else: the schema coerces
  every text that is not empty to true.
\<close>

theorem blocked_filter_inverted:
  assumes "u \<in> set (users_list_handler \<lparr>uq_search = srch, uq_tier = t, uq_blocked = Some ''false'', uq_limit = l\<rparr> us)"
  shows "bl_isBlocked (u_blocked u)"
proof -
  have "coerce_boolean ''false''" by (simp add: coerce_boolean_def)
  then show ?thesis
    using assms by (auto simp: users_list_handler_def users_list_def users_match_def find_docs_def dest!: in_set_takeD)
qed

theorem blocked_filter_inverted_witness:
  "users_list_handler \<lparr>uq_search = None, uq_tier = None, uq_blocked = Some ''false'', uq_limit = None\<rparr> [blocked_sample, sample_user 2 0 []] =
     [blocked_sample] \<and> bl_isBlocked (u_blocked blocked_sample)"
proof -
  have "users_list_handler \<lparr>uq_search = None, uq_tier = None, uq_blocked = Some ''false'', uq_limit = None\<rparr> [blocked_sample, sample_user 2 0 []] =
     [blocked_sample]"
    by (simp add: users_list_handler_def users_list_def users_match_def find_docs_def coerce_boolean_def blocked_sample_def sample_user_def)
  then show ?thesis using blocked_filter_inverted [of blocked_sample None None None "[blocked_sample, sample_user 2 0 []]"] by simp
qed



text \<open>
  A tier stands for its subscribers only by name: a user whose subscription has run out has
  the access of PUBLIC, but is reached by a broadcast to the tier that ran out and is not
  reached by one to PUBLIC.
\<close>

theorem broadcast_reaches_expired:
  assumes "u \<in> set us" "u_subscriptions u = [e]" "en_status e = E_EXPIRED" "en_tier e = t" "t \<noteq> PUBLIC"
  shows "deriveCurrentTier (u_subscriptions u) now = PUBLIC \<and> \<not> userCanAccessTier (u_subscriptions u) t now \<and>
    (\<exists>ids. resolveRecipients (To_Tier t) us = Inr ids \<and> u_id u \<in> set ids) \<and>
    (distinct (map u_id us) \<longrightarrow> (\<exists>ids. resolveRecipients (To_Tier PUBLIC) us = Inr ids \<and> u_id u \<notin> set ids))"
proof -
  have no: "\<not> isActiveForDerivation e now" using assms(3) by (simp add: isActiveForDerivation_def)
  then have acc: "\<not> userCanAccessTier (u_subscriptions u) t' now" if "t' \<noteq> PUBLIC" for t'
    using that assms(2) by (simp add: userCanAccessTier_def)
  have "u_id u \<notin> set (map u_id (find_docs (in_tier_query PUBLIC) us))" if "distinct (map u_id us)"
    using distinct_map_eq [OF that _ assms(1)] assms(2) by (fastforce simp: find_docs_def in_tier_query_def)
  moreover have "u_id u \<in> set (map u_id (find_docs (in_tier_query t) us))"
    using assms by (auto simp: find_docs_def in_tier_query_def)
  ultimately show ?thesis
    using acc [of PRO] acc [of PRO_MAX] acc [OF assms(5)] by (simp add: deriveCurrentTier_eq resolveRecipients_def)
qed

theorem broadcast_reaches_expired_witness:
  "(\<exists>ids. resolveRecipients (To_Tier PRO) [sample_user 1 0 [sample_entry PRO E_EXPIRED 0 5]] = Inr ids \<and> 1 \<in> set ids) \<and>
   \<not> userCanAccessTier [sample_entry PRO E_EXPIRED 0 5] PRO 0"
proof -
  let ?u = "sample_user 1 0 [sample_entry PRO E_EXPIRED 0 5]"
  have "u_subscriptions ?u = [sample_entry PRO E_EXPIRED 0 5]" "u_id ?u = 1" by (simp_all add: sample_user_def)
  moreover have "en_status (sample_entry PRO E_EXPIRED 0 5) = E_EXPIRED" "en_tier (sample_entry PRO E_EXPIRED 0 5) = PRO"
    by (simp_all add: sample_entry_def)
  ultimately show ?thesis
    using broadcast_reaches_expired [of ?u "[?u]" "sample_entry PRO E_EXPIRED 0 5" PRO 0] by simp
qed

section \<open>How old the dashboard is\<close>

text \<open>What the dashboard relies on of Redis: a value is there for its time to live.\<close>

locale cache_server =
  fixes C :: "'r metrics_cache"
  assumes set_get: "now \<le> t \<Longrightarrow> 0 < ttl \<Longrightarrow> mc_get C t (mc_set_ex C now v ttl r) = (if t < now + ttl * 1000 then Some v else None)"
    and del_get: "now \<le> t \<Longrightarrow> mc_get C t (mc_del C now r) = None"
begin

lemma served:
  assumes "mc_get C now r = None" "now \<le> t"
  shows "fst (getMetrics dj C t s' (snd (getMetrics dj C now s r))) =
    (if t < now + 60000 then \<lparr>dr_data = collect_metrics dj now s, dr_generatedAt = now, dr_cached = True\<rparr>
     else \<lparr>dr_data = collect_metrics dj t s', dr_generatedAt = t, dr_cached = False\<rparr>)"
  using assms set_get [OF assms(2), of DASHBOARD_TTL_SECONDS] by (simp add: getMetrics_def Let_def DASHBOARD_TTL_SECONDS_def)

lemma cleared: "now \<le> t \<Longrightarrow> fst (getMetrics dj C t s (clearCache C now r)) =
    \<lparr>dr_data = collect_metrics dj t s, dr_generatedAt = t, dr_cached = False\<rparr>"
  by (simp add: getMetrics_def clearCache_def del_get Let_def)

end

text \<open>A server with these laws: the value and when it expires.\<close>

definition metrics_slot :: "((dashboard_metrics \<times> date) \<times> date) option metrics_cache" where
  "metrics_slot =
     \<lparr>mc_get = (\<lambda>now r. case r of None \<Rightarrow> None | Some (v, e) \<Rightarrow> if now < e then Some v else None),
      mc_set_ex = (\<lambda>now v ttl r. Some (v, now + ttl * 1000)), mc_del = (\<lambda>now r. None)\<rparr>"

interpretation slot: cache_server metrics_slot
  by unfold_locales (simp_all add: metrics_slot_def)

text \<open>
  The dashboard is at most a minute old: after a request that found the cache empty, every
  request within sixty seconds is answered with the same figures whatever has happened since,
  the first one after it with the figures of its own moment, and so is the one after a clearance.
\<close>

theorem dashboard_age:
  assumes "cache_server C" "mc_get C now r = None" "now \<le> t"
  shows "(t < now + 60000 \<longrightarrow> fst (getMetrics dj C t s' (snd (getMetrics dj C now s r))) =
      \<lparr>dr_data = collect_metrics dj now s, dr_generatedAt = now, dr_cached = True\<rparr>) \<and>
    (now + 60000 \<le> t \<longrightarrow> fst (getMetrics dj C t s' (snd (getMetrics dj C now s r))) =
      \<lparr>dr_data = collect_metrics dj t s', dr_generatedAt = t, dr_cached = False\<rparr>) \<and>
    dr_data (fst (getMetrics dj C t s' (clearCache C now r))) = collect_metrics dj t s'"
  using cache_server.served [OF assms] cache_server.cleared [OF assms(1,3)] by simp

theorem dashboard_age_witness:
  "dr_cached (fst (getMetrics gregorian_ist metrics_slot 59999 (empty_db\<lparr>users := [sample_user 1 0 []]\<rparr>)
     (snd (getMetrics gregorian_ist metrics_slot 0 empty_db None)))) \<and>
   \<not> dr_cached (fst (getMetrics gregorian_ist metrics_slot 60000 empty_db (snd (getMetrics gregorian_ist metrics_slot 0 empty_db None))))"
proof -
  have n: "mc_get metrics_slot 0 None = None" by (simp add: metrics_slot_def)
  show ?thesis
    using dashboard_age [OF slot.cache_server_axioms n, of 59999 gregorian_ist "empty_db\<lparr>users := [sample_user 1 0 []]\<rparr>" empty_db]
      dashboard_age [OF slot.cache_server_axioms n, of 60000 gregorian_ist empty_db empty_db] by simp
qed

text \<open>
  The dashboard's own arithmetic of the day agrees with the calendar: a moment is between its
  start and end of the day exactly when it is on the same day in India, so the donations it
  adds up are of the day whose posts and votes it counts.
\<close>

theorem dashboard_day_exact:
  "(startOfIstDay d \<le> x \<and> x < endOfIstDay d \<longleftrightarrow> ist_day x = ist_day d) \<and>
   endOfIstDay d - startOfIstDay d = MS_PER_DAY \<and> startOfIstDay d \<le> d \<and> d < endOfIstDay d"
proof -
  have bounds: "0 \<le> (d + 19800000) mod 86400000" "(d + 19800000) mod 86400000 < 86400000" by simp_all
  have start: "startOfIstDay d = ist_day d * 86400000 - 19800000"
    by (simp add: startOfIstDay_def ist_day_def IST_OFFSET_MS_def MS_PER_DAY_def Let_def minus_mod_eq_div_mult)
  have day: "ist_day x = k \<longleftrightarrow> k * 86400000 \<le> x + 19800000 \<and> x + 19800000 < (k + 1) * 86400000" for k
  proof -
    have "n div 86400000 = k \<longleftrightarrow> k * 86400000 \<le> n \<and> n < (k + 1) * 86400000" for n :: int
    proof -
      define q r where "q = n div 86400000" and "r = n mod 86400000"
      then have "n = q * 86400000 + r" "0 \<le> r" "r < 86400000" by simp_all
      note n = this
      have "k * 86400000 \<le> n \<and> n < (k + 1) * 86400000" if "q = k" using n that by simp
      moreover have "q \<le> k" if "n < (k + 1) * 86400000"
      proof -
        have "q * 86400000 < (k + 1) * 86400000" using n that by linarith
        then show ?thesis by simp
      qed
      moreover have "k \<le> q" if "k * 86400000 \<le> n"
      proof -
        have "k * 86400000 < (q + 1) * 86400000" using n that by (simp add: distrib_right)
        then show ?thesis by simp
      qed
      ultimately show ?thesis unfolding q_def by (metis order_antisym)
    qed
    then show ?thesis by (simp only: ist_day_def IST_OFFSET_MS_def MS_PER_DAY_def)
  qed
  have "startOfIstDay d \<le> x \<longleftrightarrow> ist_day d * 86400000 \<le> x + 19800000" unfolding start by linarith
  moreover have "x < endOfIstDay d \<longleftrightarrow> x + 19800000 < (ist_day d + 1) * 86400000"
    unfolding endOfIstDay_def start distrib_right by linarith
  moreover have "startOfIstDay d \<le> d" "d < startOfIstDay d + 86400000"
    using bounds unfolding startOfIstDay_def Let_def by linarith+
  ultimately show ?thesis using day [of "ist_day d"] by (simp add: endOfIstDay_def MS_PER_DAY_def)
qed

end
