(* ===== verification/Controllers.thy ===== *)
theory Controllers
  imports Schemas Market Dead_Letters Custom_Rooms Views Samples
begin

text \<open>
  The controllers of src/modules: what each handler takes from a request, which service it calls
  with it and what it answers, and the body validator of src/shared/middleware/validate.ts. A handler
  throws (\<open>Inl\<close>) or gives the data of its answer; a handler of an audited route gives what it
  captures for the audit log: the resource and the data after the change. \<open>Z\<close> stands for
  zod, \<open>H\<close> for what the schemas take from the language and the ObjectId of the driver.
\<close>

section \<open>Reading a request\<close>

record request_context =
  ctx_ipAddress :: string
  ctx_userAgent :: string
  ctx_deviceId :: "string option"
  ctx_deviceFingerprint :: "string option"

record handler_request =
  hq_params :: zod_value
  hq_query :: zod_value
  hq_body :: zod_value
  hq_context :: "request_context option"
  hq_user :: "(access_claims \<times> sub_entry list) option"
  hq_adminId :: oid
  hq_ip :: "string option"

definition requestContext :: "(string \<Rightarrow> string option) \<Rightarrow> string option \<Rightarrow> string option \<Rightarrow> request_context" where
  "requestContext header ip remoteAddress =
     \<lparr>ctx_ipAddress = or_default ip (or_default remoteAddress ''unknown''),
      ctx_userAgent = or_default (header ''user-agent'') ''unknown'',
      ctx_deviceId = header ''x-device-id'',
      ctx_deviceFingerprint = header ''x-device-fingerprint''\<rparr>"

definition requireContext :: "handler_request \<Rightarrow> thrown + request_context" where
  "requireContext req = (case hq_context req of None \<Rightarrow> Inl (AppErr (InternalError ''CONTEXT_MISSING'')) | Some c \<Rightarrow> Inr c)"

definition requireAuthedUser :: "handler_request \<Rightarrow> thrown + (access_claims \<times> sub_entry list)" where
  "requireAuthedUser req = (case hq_user req of None \<Rightarrow> Inl (AppErr (InternalError ''USER_MISSING'')) | Some u \<Rightarrow> Inr u)"

text \<open>\<open>schema.parse\<close> throws a \<open>ZodError\<close>; the middleware of the sign-in routes turns it into a validation error.\<close>

definition parsed :: "zod_value option \<Rightarrow> thrown + zod_value" where
  "parsed r = (case r of None \<Rightarrow> Inl ZodErr | Some v \<Rightarrow> Inr v)"

definition validateBody :: "(schema \<Rightarrow> zod_value \<Rightarrow> zod_value option) \<Rightarrow> schema \<Rightarrow> handler_request \<Rightarrow> thrown + handler_request" where
  "validateBody Z schema req =
     (case Z schema (hq_body req) of None \<Rightarrow> Inl (AppErr ValidationError) | Some data \<Rightarrow> Inr (req\<lparr>hq_body := data\<rparr>))"

definition parseObjectId :: "zod_host \<Rightarrow> zod_value \<Rightarrow> thrown + oid" where
  "parseObjectId H raw =
     (case raw of
        Z_String s \<Rightarrow> if zh_isValid H s then Inr (zh_oid H s) else Inl (AppErr ValidationError)
      | _ \<Rightarrow> Inl (AppErr ValidationError))"

text \<open>The properties of a validated value at their types; the \<open>z_opt\<close> of an absent one is \<open>None\<close>.\<close>

definition z_prop :: "string \<Rightarrow> zod_value \<Rightarrow> zod_value" where
  "z_prop k v = (case v of Z_Object kvs \<Rightarrow> js_prop k kvs | _ \<Rightarrow> Z_Undefined)"

definition z_opt :: "(zod_value \<Rightarrow> 'a) \<Rightarrow> zod_value \<Rightarrow> 'a option" where
  "z_opt f v = (if v = Z_Undefined then None else Some (f v))"

definition z_str :: "zod_value \<Rightarrow> string" where
  "z_str v = (case v of Z_String s \<Rightarrow> s | _ \<Rightarrow> [])"

definition z_int :: "zod_value \<Rightarrow> int" where
  "z_int v = (case v of Z_Number n \<Rightarrow> n | _ \<Rightarrow> 0)"

definition z_bool :: "zod_value \<Rightarrow> bool" where
  "z_bool v = (case v of Z_Bool b \<Rightarrow> b | _ \<Rightarrow> False)"

definition z_date :: "zod_value \<Rightarrow> date" where
  "z_date v = (case v of Z_Date d \<Rightarrow> d | _ \<Rightarrow> 0)"

definition z_oid :: "zod_value \<Rightarrow> oid" where
  "z_oid v = (case v of Z_Oid i \<Rightarrow> i | _ \<Rightarrow> 0)"

definition z_list :: "zod_value \<Rightarrow> zod_value list" where
  "z_list v = (case v of Z_Array vs \<Rightarrow> vs | _ \<Rightarrow> [])"

definition z_enum :: "(string \<times> 'a) list \<Rightarrow> zod_value \<Rightarrow> 'a" where
  "z_enum tbl v = the (map_of tbl (z_str v))"

definition z_tier :: "zod_value \<Rightarrow> tier" where
  "z_tier = z_enum [(''PUBLIC'', PUBLIC), (''PRO'', PRO), (''PRO_MAX'', PRO_MAX)]"

definition z_game :: "zod_value \<Rightarrow> game" where
  "z_game = z_enum [(''BGMI'', BGMI), (''FF'', FF)]"

text \<open>\<open>new Types.ObjectId(s)\<close> of a text a schema let through.\<close>

definition z_id :: "zod_host \<Rightarrow> zod_value \<Rightarrow> oid" where
  "z_id H v = zh_oid H (z_str v)"

text \<open>A handler goes on with a value, or throws without having touched the state.\<close>

definition go :: "thrown + 'v \<Rightarrow> 's \<Rightarrow> ('v \<Rightarrow> (thrown + 'a) \<times> 's) \<Rightarrow> (thrown + 'a) \<times> 's" where
  "go r s f = (case r of Inl e \<Rightarrow> (Inl e, s) | Inr v \<Rightarrow> f v)"

definition called :: "(app_error + 'a) \<times> 's \<Rightarrow> (thrown + 'a) \<times> 's" where
  "called r = (map_sum AppErr id (fst r), snd r)"

definition pure_call :: "app_error + 'a \<Rightarrow> 's \<Rightarrow> (thrown + 'a) \<times> 's" where
  "pure_call r s = (map_sum AppErr id r, s)"

lemma go_simps [simp]: "go (Inl e) s f = (Inl e, s)" "go (Inr v) s f = f v"
  by (simp_all add: go_def)

section \<open>The user side\<close>

type_synonym zod = "schema \<Rightarrow> zod_value \<Rightarrow> zod_value option"

definition votes_cast :: "zod \<Rightarrow> dayjs \<Rightarrow> date \<Rightarrow> oid \<Rightarrow> oid \<Rightarrow> handler_request \<Rightarrow> db \<Rightarrow> (thrown + vote_result) \<times> db" where
  "votes_cast Z dj now voteId txId req s =
     go (parsed (Z CastVoteBodySchema (hq_body req))) s (\<lambda>body.
     go (requireAuthedUser req) s (\<lambda>(claims, _).
     go (requireContext req) s (\<lambda>ctx.
       called (castVote dj
         \<lparr>vi_userId = ac_sub claims, vi_tier = z_tier (z_prop ''tier'' body), vi_target = z_str (z_prop ''target'' body),
          vi_ipAddress = ctx_ipAddress ctx, vi_deviceFingerprint = ctx_deviceFingerprint ctx\<rparr> now voteId txId s))))"

definition votes_today :: "zod \<Rightarrow> dayjs \<Rightarrow> date \<Rightarrow> handler_request \<Rightarrow> db \<Rightarrow> (thrown + today_status) \<times> db" where
  "votes_today Z dj now req s =
     go (parsed (Z TodayQuerySchema (hq_query req))) s (\<lambda>query.
     go (requireAuthedUser req) s (\<lambda>(claims, _).
       (Inr (getTodayStatus dj (ac_sub claims) (or_default (z_opt z_tier (z_prop ''tier'' query)) PUBLIC) now s), s)))"

definition posts_listByDate :: "zod \<Rightarrow> date \<Rightarrow> handler_request \<Rightarrow> db \<Rightarrow> (thrown + post_dto list) \<times> db" where
  "posts_listByDate Z now req s =
     go (parsed (Z ListPostsQuerySchema (hq_query req))) s (\<lambda>query.
     go (requireAuthedUser req) s (\<lambda>(claims, subs).
       let tier = z_tier (z_prop ''tier'' query)
       in if \<not> userCanAccessTier subs tier now then (Inl (AppErr (ForbiddenError ''TIER_NOT_ACCESSIBLE'')), s)
          else (Inr (listForDate (z_str (z_prop ''date'' query)) (ac_sub claims) tier s), s)))"

definition posts_getById :: "zod \<Rightarrow> zod_host \<Rightarrow> date \<Rightarrow> handler_request \<Rightarrow> db \<Rightarrow> (thrown + post_dto) \<times> db" where
  "posts_getById Z H now req s =
     go (parsed (Z PostIdParamsSchema (hq_params req))) s (\<lambda>params.
     go (requireAuthedUser req) s (\<lambda>(claims, subs).
       (case getById (z_id H (z_prop ''id'' params)) (ac_sub claims) subs now s of
          None \<Rightarrow> Inl (AppErr NotFoundError)
        | Some dto \<Rightarrow> Inr dto, s)))"

definition posts_complete ::
  "zod \<Rightarrow> zod_host \<Rightarrow> date \<Rightarrow> oid \<Rightarrow> oid \<Rightarrow> handler_request \<Rightarrow> db \<Rightarrow> (thrown + completion_result) \<times> db" where
  "posts_complete Z H now cid txId req s =
     go (parsed (Z PostIdParamsSchema (hq_params req))) s (\<lambda>params.
     go (requireAuthedUser req) s (\<lambda>(claims, subs).
     go (requireContext req) s (\<lambda>_.
       called (completePost
         \<lparr>ci_postId = z_id H (z_prop ''id'' params), ci_userId = ac_sub claims, ci_subscriptions = subs\<rparr> now cid txId s))))"

definition codes_listForPost :: "zod \<Rightarrow> zod_host \<Rightarrow> handler_request \<Rightarrow> db \<Rightarrow> (thrown + code_item list) \<times> db" where
  "codes_listForPost Z H req s =
     go (parsed (Z (CodePostIdParamsSchema H) (hq_params req))) s (\<lambda>params.
     go (requireAuthedUser req) s (\<lambda>(claims, _).
       pure_call (listForPost (z_oid (z_prop ''id'' params)) (ac_sub claims) s) s))"

definition codes_claim ::
  "zod \<Rightarrow> zod_host \<Rightarrow> dayjs \<Rightarrow> (enc_field \<Rightarrow> string option) \<Rightarrow> date \<Rightarrow> handler_request \<Rightarrow> db \<Rightarrow> (thrown + claim_result) \<times> db" where
  "codes_claim Z H dj decryptField now req s =
     go (parsed (Z (CodeIdParamsSchema H) (hq_params req))) s (\<lambda>params.
     go (requireAuthedUser req) s (\<lambda>(claims, _).
       called (claim dj decryptField (z_oid (z_prop ''id'' params)) (ac_sub claims) now s)))"

definition codes_markClaimed :: "zod \<Rightarrow> zod_host \<Rightarrow> date \<Rightarrow> handler_request \<Rightarrow> db \<Rightarrow> (thrown + unit) \<times> db" where
  "codes_markClaimed Z H now req s =
     go (parsed (Z (CodeIdParamsSchema H) (hq_params req))) s (\<lambda>params.
     go (requireAuthedUser req) s (\<lambda>(claims, _).
       called (markClaimed (z_oid (z_prop ''id'' params)) (ac_sub claims) now s)))"

definition rooms_register :: "zod \<Rightarrow> zod_host \<Rightarrow> date \<Rightarrow> handler_request \<Rightarrow> db \<Rightarrow> (thrown + bool) \<times> db" where
  "rooms_register Z H now req s =
     go (parsed (Z (RoomIdParamsSchema H) (hq_params req))) s (\<lambda>params.
     go (requireAuthedUser req) s (\<lambda>(claims, subs).
       called (register (z_oid (z_prop ''id'' params)) (ac_sub claims) subs now s)))"

definition rooms_getResult :: "zod \<Rightarrow> zod_host \<Rightarrow> date \<Rightarrow> handler_request \<Rightarrow> db \<Rightarrow> (thrown + result_view) \<times> db" where
  "rooms_getResult Z H now req s =
     go (parsed (Z (RoomIdParamsSchema H) (hq_params req))) s (\<lambda>params.
     go (requireAuthedUser req) s (\<lambda>_.
       pure_call (getResult (z_oid (z_prop ''id'' params)) now s) s))"

definition subscriptions_create ::
  "zod \<Rightarrow> string option \<Rightarrow> date \<Rightarrow> oid \<Rightarrow> handler_request \<Rightarrow> db \<Rightarrow> (thrown + string) \<times> db" where
  "subscriptions_create Z rzpSub now newId req s =
     go (parsed (Z CreateSubscriptionBodySchema (hq_body req))) s (\<lambda>body.
     go (requireAuthedUser req) s (\<lambda>(claims, _).
       called (create_subscription (ac_sub claims) (z_tier (z_prop ''tier'' body)) rzpSub now newId s)))"

definition subscriptions_verify ::
  "zod \<Rightarrow> (string \<Rightarrow> string \<Rightarrow> string) \<Rightarrow> (string \<Rightarrow> string) \<Rightarrow> string \<Rightarrow> handler_request \<Rightarrow> db \<Rightarrow> (thrown + unit) \<times> db" where
  "subscriptions_verify Z hmac hex keySecret req s =
     go (parsed (Z VerifySubscriptionBodySchema (hq_body req))) s (\<lambda>body.
       pure_call (verify_subscription hmac hex keySecret (z_str (z_prop ''razorpay_payment_id'' body))
         (z_str (z_prop ''razorpay_subscription_id'' body)) (z_str (z_prop ''razorpay_signature'' body))) s)"

definition subscriptions_cancel :: "zod \<Rightarrow> zod_host \<Rightarrow> bool \<Rightarrow> date \<Rightarrow> handler_request \<Rightarrow> db \<Rightarrow> (thrown + unit) \<times> db" where
  "subscriptions_cancel Z H providerOk now req s =
     go (parsed (Z (SubscriptionIdParamsSchema H) (hq_params req))) s (\<lambda>params.
     go (parsed (Z CancelSubscriptionBodySchema (hq_body req))) s (\<lambda>body.
     go (requireAuthedUser req) s (\<lambda>(claims, _).
       called (cancel_subscription (ac_sub claims) (z_oid (z_prop ''id'' params)) (z_bool (z_prop ''atCycleEnd'' body)) providerOk now s))))"

definition subscriptions_listInvoices ::
  "zod \<Rightarrow> zod_host \<Rightarrow> handler_request \<Rightarrow> db \<Rightarrow> (thrown + (string \<times> string \<times> date) list) \<times> db" where
  "subscriptions_listInvoices Z H req s =
     go (parsed (Z (SubscriptionIdParamsSchema H) (hq_params req))) s (\<lambda>params.
     go (requireAuthedUser req) s (\<lambda>(claims, _).
       pure_call (listInvoices (ac_sub claims) (z_oid (z_prop ''id'' params)) s) s))"

definition pickSocialLinks :: "zod_value \<Rightarrow> social_links" where
  "pickSocialLinks raw =
     \<lparr>sl_youtube = z_opt z_str (z_prop ''youtube'' raw), sl_facebook = z_opt z_str (z_prop ''facebook'' raw),
      sl_instagram = z_opt z_str (z_prop ''instagram'' raw)\<rparr>"

text \<open>The account of a donation is the user of the request, when a middleware has put one there.\<close>

definition donations_createOrder ::
  "zod \<Rightarrow> string option \<Rightarrow> date \<Rightarrow> oid \<Rightarrow> handler_request \<Rightarrow> db \<Rightarrow> (thrown + string \<times> paise) \<times> db" where
  "donations_createOrder Z rzpOrder now newId req s =
     go (parsed (Z CreateDonationOrderBodySchema (hq_body req))) s (\<lambda>body.
       called (createOrder
         \<lparr>oi_userId = map_option (\<lambda>(claims, _). ac_sub claims) (hq_user req),
          oi_amountInRupees = z_int (z_prop ''amountInRupees'' body),
          oi_displayName = z_opt z_str (z_prop ''displayName'' body),
          oi_isAnonymous = z_opt z_bool (z_prop ''isAnonymous'' body),
          oi_socialLinks = z_opt pickSocialLinks (z_prop ''socialLinks'' body),
          oi_message = z_opt z_str (z_prop ''message'' body),
          oi_ipAddress = hq_ip req\<rparr> rzpOrder now newId s))"

definition donations_verify ::
  "zod \<Rightarrow> (string \<Rightarrow> string \<Rightarrow> string) \<Rightarrow> (string \<Rightarrow> string) \<Rightarrow> string \<Rightarrow> handler_request \<Rightarrow> db \<Rightarrow> (thrown + unit) \<times> db" where
  "donations_verify Z hmac hex keySecret req s =
     go (parsed (Z VerifyDonationBodySchema (hq_body req))) s (\<lambda>body.
       pure_call (verify_donation hmac hex keySecret (z_str (z_prop ''razorpay_order_id'' body))
         (z_str (z_prop ''razorpay_payment_id'' body)) (z_str (z_prop ''razorpay_signature'' body))) s)"

definition donations_listTop :: "zod \<Rightarrow> handler_request \<Rightarrow> db \<Rightarrow> (thrown + top_donor list) \<times> db" where
  "donations_listTop Z req s =
     go (parsed (Z TopDonorsQuerySchema (hq_query req))) s (\<lambda>query.
       (Inr (listTopDonors (nat (z_int (z_prop ''limit'' query))) s), s))"

definition pools_today :: "zod \<Rightarrow> dayjs \<Rightarrow> date \<Rightarrow> handler_request \<Rightarrow> db \<Rightarrow> (thrown + today_pool) \<times> db" where
  "pools_today Z dj now req s =
     go (parsed (Z TodayPoolQuerySchema (hq_query req))) s (\<lambda>query.
       (Inr (getTodayForTier dj (z_tier (z_prop ''tier'' query)) now s), s))"

definition subscriptions_listPlans :: "db \<Rightarrow> (thrown + plan_summary list) \<times> db" where
  "subscriptions_listPlans s = (Inr (listPlans s), s)"

definition subscriptions_listMine :: "handler_request \<Rightarrow> db \<Rightarrow> (thrown + subscription list) \<times> db" where
  "subscriptions_listMine req s = go (requireAuthedUser req) s (\<lambda>(claims, _). (Inr (listMine (ac_sub claims) s), s))"

definition donations_getTopDonor :: "db \<Rightarrow> (thrown + top_donor option) \<times> db" where
  "donations_getTopDonor s = (Inr (getTopDonor s), s)"

definition users_getMe :: "date \<Rightarrow> handler_request \<Rightarrow> db \<Rightarrow> (thrown + me_profile) \<times> db" where
  "users_getMe now req s = go (requireAuthedUser req) s (\<lambda>(claims, _). pure_call (getMe (ac_sub claims) now (users s)) s)"

definition erasure_requestHandler ::
  "'r redis \<Rightarrow> date \<Rightarrow> handler_request \<Rightarrow> 'r auth_state \<Rightarrow> (thrown + erasure_status) \<times> 'r auth_state" where
  "erasure_requestHandler R now req st = go (requireAuthedUser req) st (\<lambda>(claims, _). called (erasure_request R (ac_sub claims) now st))"

definition erasure_cancelHandler ::
  "'r redis \<Rightarrow> date \<Rightarrow> handler_request \<Rightarrow> 'r auth_state \<Rightarrow> (thrown + erasure_status) \<times> 'r auth_state" where
  "erasure_cancelHandler R now req st = go (requireAuthedUser req) st (\<lambda>(claims, _). called (erasure_cancel R (ac_sub claims) now st))"

definition erasure_statusHandler :: "date \<Rightarrow> handler_request \<Rightarrow> 'r auth_state \<Rightarrow> (thrown + erasure_status) \<times> 'r auth_state" where
  "erasure_statusHandler now req st = go (requireAuthedUser req) st (\<lambda>(claims, _). pure_call (erasure_status_of (ac_sub claims) now st) st)"

section \<open>Signing up and in\<close>

text \<open>
  The body has passed \<open>validateBody\<close> with the schema of the route. \<open>tok\<close> is the text of
  the refresh token of the body as a token of the library.
\<close>

definition auth_requestSignupOtp ::
  "zod \<Rightarrow> 'r redis \<Rightarrow> (string \<Rightarrow> string) \<Rightarrow> send_draws \<Rightarrow> date \<Rightarrow> handler_request \<Rightarrow> 'r auth_state
   \<Rightarrow> (thrown + request_result) \<times> 'r auth_state" where
  "auth_requestSignupOtp Z R sha sd now req st =
     go (validateBody Z RequestSignupOtpBodySchema req) st (\<lambda>req.
     go (requireContext req) st (\<lambda>ctx.
       called (requestSignupOtp R sha (z_str (z_prop ''phone'' (hq_body req))) (z_str (z_prop ''deviceFingerprint'' (hq_body req)))
         (ctx_ipAddress ctx) sd now st)))"

definition signup_body :: "zod_value \<Rightarrow> request_context \<Rightarrow> signup_input" where
  "signup_body body ctx =
     \<lparr>su_phone = z_str (z_prop ''phone'' body), su_otp = z_str (z_prop ''otp'' body), su_dob = z_date (z_prop ''dob'' body),
      su_declaredState = z_str (z_prop ''declaredState'' body), su_referralCode = z_opt z_str (z_prop ''referralCode'' body),
      su_consentVersion = z_str (z_prop ''consentVersion'' body),
      su_consentAcceptedAt = z_date (z_prop ''consentAcceptedAt'' body),
      su_privacyPolicyVersion = z_str (z_prop ''privacyPolicyVersion'' body), su_deviceId = z_str (z_prop ''deviceId'' body),
      su_deviceFingerprint = z_str (z_prop ''deviceFingerprint'' body), su_ipAddress = ctx_ipAddress ctx,
      su_userAgent = ctx_userAgent ctx,
      su_devBypassOtp = (if z_prop ''_devBypassOtp'' body = Z_Bool True then Some True else None)\<rparr>"

definition auth_verifySignupOtp ::
  "zod \<Rightarrow> dayjs \<Rightarrow> 'tok jose \<Rightarrow> 'r redis \<Rightarrow> (string \<Rightarrow> string) \<Rightarrow> string \<Rightarrow> signup_draws \<Rightarrow> date \<Rightarrow> handler_request \<Rightarrow> 'r auth_state
   \<Rightarrow> (thrown + authed_user \<times> 'tok auth_tokens) \<times> 'r auth_state" where
  "auth_verifySignupOtp Z dj J R sha nodeEnv dr now req st =
     go (validateBody Z VerifySignupOtpBodySchema req) st (\<lambda>req.
     go (requireContext req) st (\<lambda>ctx.
       called (verifySignupOtp dj J R sha nodeEnv (signup_body (hq_body req) ctx) dr now st)))"

definition auth_requestLoginOtp ::
  "zod \<Rightarrow> 'r redis \<Rightarrow> (string \<Rightarrow> string) \<Rightarrow> send_draws \<Rightarrow> date \<Rightarrow> handler_request \<Rightarrow> 'r auth_state
   \<Rightarrow> (thrown + request_result) \<times> 'r auth_state" where
  "auth_requestLoginOtp Z R sha sd now req st =
     go (validateBody Z RequestLoginOtpBodySchema req) st (\<lambda>req.
     go (requireContext req) st (\<lambda>ctx.
       called (requestLoginOtp R sha (z_str (z_prop ''phone'' (hq_body req))) (ctx_ipAddress ctx) sd now st)))"

definition auth_verifyLoginOtp ::
  "zod \<Rightarrow> 'tok jose \<Rightarrow> 'r redis \<Rightarrow> (string \<Rightarrow> string) \<Rightarrow> string \<Rightarrow> string \<Rightarrow> date \<Rightarrow> handler_request \<Rightarrow> 'r auth_state
   \<Rightarrow> (thrown + authed_user \<times> 'tok auth_tokens) \<times> 'r auth_state" where
  "auth_verifyLoginOtp Z J R sha jti uuid now req st =
     go (validateBody Z VerifyLoginOtpBodySchema req) st (\<lambda>req.
     go (requireContext req) st (\<lambda>ctx.
       let body = hq_body req
       in called (verifyLoginOtp J R sha
            \<lparr>lo_phone = z_str (z_prop ''phone'' body), lo_otp = z_str (z_prop ''otp'' body),
             lo_deviceId = z_str (z_prop ''deviceId'' body), lo_deviceFingerprint = z_str (z_prop ''deviceFingerprint'' body),
             lo_ipAddress = ctx_ipAddress ctx, lo_userAgent = ctx_userAgent ctx\<rparr> jti uuid now st)))"

definition auth_refresh ::
  "zod \<Rightarrow> 'tok jose \<Rightarrow> 'r redis \<Rightarrow> (string \<Rightarrow> 'tok) \<Rightarrow> string \<Rightarrow> date \<Rightarrow> handler_request \<Rightarrow> 'r auth_state
   \<Rightarrow> (thrown + 'tok auth_tokens) \<times> 'r auth_state" where
  "auth_refresh Z J R tok jti now req st =
     go (validateBody Z RefreshBodySchema req) st (\<lambda>req.
     go (requireContext req) st (\<lambda>ctx.
       if \<not> truthy_str (ctx_deviceId ctx) then (Inl (AppErr ValidationError), st)
       else called (refresh J R
         \<lparr>ri_refreshToken = tok (z_str (z_prop ''refreshToken'' (hq_body req))), ri_deviceId = the (ctx_deviceId ctx),
          ri_ipAddress = ctx_ipAddress ctx, ri_userAgent = ctx_userAgent ctx\<rparr> jti now st)))"

definition auth_logout ::
  "zod \<Rightarrow> 'tok jose \<Rightarrow> (string \<Rightarrow> 'tok) \<Rightarrow> date \<Rightarrow> handler_request \<Rightarrow> 'r auth_state \<Rightarrow> (thrown + bool) \<times> 'r auth_state" where
  "auth_logout Z J tok now req st =
     go (validateBody Z LogoutBodySchema req) st (\<lambda>req.
     go (requireAuthedUser req) st (\<lambda>(claims, _).
       (Inr True, logout J (tok (z_str (z_prop ''refreshToken'' (hq_body req)))) (ac_sub claims) now st)))"

definition auth_logoutAll :: "date \<Rightarrow> handler_request \<Rightarrow> 'r auth_state \<Rightarrow> (thrown + int) \<times> 'r auth_state" where
  "auth_logoutAll now req st =
     go (requireAuthedUser req) st (\<lambda>(claims, _).
       (case logoutAll (ac_sub claims) now st of (n, st') \<Rightarrow> (Inr n, st')))"

section \<open>The admin side\<close>

text \<open>What a handler captures: the resource, the document before and what is logged as after.\<close>

record ('b, 'a) captured =
  cap_resource :: "oid option"
  cap_before :: 'b
  cap_after :: 'a

definition users_block :: "zod \<Rightarrow> zod_host \<Rightarrow> date \<Rightarrow> handler_request \<Rightarrow> db \<Rightarrow> (thrown + (user option, user) captured) \<times> db" where
  "users_block Z H now req s =
     go (parseObjectId H (z_prop ''id'' (hq_params req))) s (\<lambda>userId.
     go (parsed (Z AdminUserBlockBodySchema (hq_body req))) s (\<lambda>body.
       let before = findOne (\<lambda>u. u_id u = userId) (users s)
       in case called (block_user userId (z_str (z_prop ''reason'' body)) (hq_adminId req) now s) of
            (Inl e, s') \<Rightarrow> (Inl e, s')
          | (Inr after, s') \<Rightarrow> (Inr \<lparr>cap_resource = Some userId, cap_before = before, cap_after = after\<rparr>, s')))"

definition users_unblock :: "zod \<Rightarrow> zod_host \<Rightarrow> handler_request \<Rightarrow> db \<Rightarrow> (thrown + (user option, user) captured) \<times> db" where
  "users_unblock Z H req s =
     go (parseObjectId H (z_prop ''id'' (hq_params req))) s (\<lambda>userId.
     go (parsed (Z AdminUserUnblockBodySchema (hq_body req))) s (\<lambda>_.
       let before = findOne (\<lambda>u. u_id u = userId) (users s)
       in case called (unblock_user userId s) of
            (Inl e, s') \<Rightarrow> (Inl e, s')
          | (Inr after, s') \<Rightarrow> (Inr \<lparr>cap_resource = Some userId, cap_before = before, cap_after = after\<rparr>, s')))"

definition users_adjustCoins ::
  "zod \<Rightarrow> zod_host \<Rightarrow> (coins \<Rightarrow> bool) \<Rightarrow> date \<Rightarrow> oid \<Rightarrow> handler_request \<Rightarrow> db
   \<Rightarrow> (thrown + (coins, coins \<times> coins \<times> string \<times> oid) captured) \<times> db" where
  "users_adjustCoins Z H rejects now txId req s =
     go (parseObjectId H (z_prop ''id'' (hq_params req))) s (\<lambda>userId.
     go (parsed (Z AdminUserCoinAdjustBodySchema (hq_body req))) s (\<lambda>body.
       let reason = z_str (z_prop ''reason'' body)
       in case called (adjustCoins rejects \<lparr>ai_userId = userId, ai_delta = z_int (z_prop ''delta'' body), ai_reason = reason,
                   ai_actorId = hq_adminId req\<rparr> now txId s) of
            (Inl e, s') \<Rightarrow> (Inl e, s')
          | (Inr adjust, s') \<Rightarrow>
              (Inr \<lparr>cap_resource = Some userId, cap_before = ar_balanceBefore adjust,
                    cap_after = (ar_balanceAfter adjust, ar_delta adjust, reason, ar_coinTxId adjust)\<rparr>, s')))"

definition users_forceLogout ::
  "zod \<Rightarrow> zod_host \<Rightarrow> 'r redis \<Rightarrow> date \<Rightarrow> handler_request \<Rightarrow> 'r auth_state
   \<Rightarrow> (thrown + (unit, int \<times> string) captured) \<times> 'r auth_state" where
  "users_forceLogout Z H R now req st =
     go (parseObjectId H (z_prop ''id'' (hq_params req))) st (\<lambda>userId.
     go (parsed (Z AdminUserForceLogoutBodySchema (hq_body req))) st (\<lambda>body.
       case called (admin_forceLogout R userId now st) of
         (Inl e, st') \<Rightarrow> (Inl e, st')
       | (Inr cutoff, st') \<Rightarrow>
           (Inr \<lparr>cap_resource = Some userId, cap_before = (), cap_after = (cutoff, z_str (z_prop ''reason'' body))\<rparr>, st')))"

definition users_applyErasureHold ::
  "zod \<Rightarrow> zod_host \<Rightarrow> date \<Rightarrow> handler_request \<Rightarrow> 'r auth_state
   \<Rightarrow> (thrown + (unit, bool \<times> date \<times> string) captured) \<times> 'r auth_state" where
  "users_applyErasureHold Z H now req st =
     go (parseObjectId H (z_prop ''id'' (hq_params req))) st (\<lambda>userId.
     go (parsed (Z AdminUserErasureHoldBodySchema (hq_body req))) st (\<lambda>body.
       case called (applyErasureHold userId (z_str (z_prop ''reason'' body)) (hq_adminId req) now st) of
         (Inl e, st') \<Rightarrow> (Inl e, st')
       | (Inr (heldAt, reason), st') \<Rightarrow>
           (Inr \<lparr>cap_resource = Some userId, cap_before = (), cap_after = (True, heldAt, reason)\<rparr>, st')))"

definition users_clearErasureHold ::
  "zod \<Rightarrow> zod_host \<Rightarrow> date \<Rightarrow> handler_request \<Rightarrow> 'r auth_state
   \<Rightarrow> (thrown + (unit, bool \<times> date \<times> date) captured) \<times> 'r auth_state" where
  "users_clearErasureHold Z H now req st =
     go (parseObjectId H (z_prop ''id'' (hq_params req))) st (\<lambda>userId.
     go (parsed (Z AdminUserErasureHoldClearBodySchema (hq_body req))) st (\<lambda>_.
       case called (clearErasureHold userId now st) of
         (Inl e, st') \<Rightarrow> (Inl e, st')
       | (Inr (clearedAt, advanced), st') \<Rightarrow>
           (Inr \<lparr>cap_resource = Some userId, cap_before = (), cap_after = (False, clearedAt, advanced)\<rparr>, st')))"

subsection \<open>Posts\<close>

definition z_post_status :: "zod_value \<Rightarrow> post_status" where
  "z_post_status = z_enum [(''DRAFT'', P_DRAFT), (''SCHEDULED'', P_SCHEDULED), (''LIVE'', P_LIVE), (''CLOSED'', P_CLOSED)]"

definition pickAdsConfig :: "zod_value \<Rightarrow> post_ads" where
  "pickAdsConfig raw =
     \<lparr>ads_topBannerKey = z_opt z_str (z_prop ''topBannerKey'' raw), ads_bottomBannerKey = z_opt z_str (z_prop ''bottomBannerKey'' raw)\<rparr>"

definition post_body :: "zod_value \<Rightarrow> post_create_input" where
  "post_body body =
     \<lparr>pci_title = z_str (z_prop ''title'' body), pci_description = z_opt z_str (z_prop ''description'' body),
      pci_dayKey = z_str (z_prop ''dayKey'' body), pci_scheduledAt = z_date (z_prop ''scheduledAt'' body),
      pci_status = z_opt z_post_status (z_prop ''status'' body), pci_coinReward = z_opt z_int (z_prop ''coinReward'' body),
      pci_tier = z_opt z_tier (z_prop ''tier'' body), pci_adsConfig = z_opt pickAdsConfig (z_prop ''adsConfig'' body)\<rparr>"

definition post_patch_body :: "zod_value \<Rightarrow> post_patch" where
  "post_patch_body body =
     \<lparr>pup_title = z_opt z_str (z_prop ''title'' body), pup_description = z_opt z_str (z_prop ''description'' body),
      pup_dayKey = z_opt z_str (z_prop ''dayKey'' body), pup_scheduledAt = z_opt z_date (z_prop ''scheduledAt'' body),
      pup_status = z_opt z_post_status (z_prop ''status'' body), pup_coinReward = z_opt z_int (z_prop ''coinReward'' body),
      pup_tier = z_opt z_tier (z_prop ''tier'' body), pup_adsConfig = z_opt pickAdsConfig (z_prop ''adsConfig'' body),
      pup_publishedAt = z_opt z_date (z_prop ''publishedAt'' body), pup_closedAt = z_opt z_date (z_prop ''closedAt'' body)\<rparr>"

definition admin_posts_create ::
  "zod \<Rightarrow> date \<Rightarrow> oid \<Rightarrow> handler_request \<Rightarrow> db \<Rightarrow> (thrown + (unit, post) captured) \<times> db" where
  "admin_posts_create Z now newId req s =
     go (parsed (Z AdminPostCreateBodySchema (hq_body req))) s (\<lambda>body.
       case admin_createPost (post_body body) (hq_adminId req) now newId s of
         (after, s') \<Rightarrow> (Inr \<lparr>cap_resource = Some (p_id after), cap_before = (), cap_after = after\<rparr>, s'))"

definition admin_posts_update ::
  "zod \<Rightarrow> zod_host \<Rightarrow> handler_request \<Rightarrow> db \<Rightarrow> (thrown + (post option, post option) captured) \<times> db" where
  "admin_posts_update Z H req s =
     go (parseObjectId H (z_prop ''id'' (hq_params req))) s (\<lambda>postId.
     go (parsed (Z AdminPostUpdateBodySchema (hq_body req))) s (\<lambda>body.
       let before = findOne (\<lambda>p. p_id p = postId) (posts s)
       in case admin_updatePost postId (post_patch_body body) s of
            (after, s') \<Rightarrow> (Inr \<lparr>cap_resource = Some postId, cap_before = before, cap_after = after\<rparr>, s')))"

definition admin_posts_delete ::
  "zod_host \<Rightarrow> handler_request \<Rightarrow> db \<Rightarrow> (thrown + (post option, post option) captured) \<times> db" where
  "admin_posts_delete H req s =
     go (parseObjectId H (z_prop ''id'' (hq_params req))) s (\<lambda>postId.
       let before = findOne (\<lambda>p. p_id p = postId) (posts s)
       in case admin_deletePost postId s of
            (_, s') \<Rightarrow> (Inr \<lparr>cap_resource = Some postId, cap_before = before, cap_after = None\<rparr>, s'))"

definition admin_posts_list :: "zod \<Rightarrow> handler_request \<Rightarrow> db \<Rightarrow> (thrown + post list) \<times> db" where
  "admin_posts_list Z req s =
     go (parsed (Z AdminPostListQuerySchema (hq_query req))) s (\<lambda>q.
       (Inr (admin_listByDate (z_str (z_prop ''dayKey'' q)) (z_opt z_post_status (z_prop ''status'' q)) s), s))"

subsection \<open>Prize pools\<close>

text \<open>
  The manual run: one tier, or all three of which a failed one makes the whole call fail.
  \<open>fails\<close> says for which tiers the computation throws; what the others stored stays.
\<close>

definition pools_run ::
  "zod \<Rightarrow> (tier \<Rightarrow> bool) \<Rightarrow> dayjs \<Rightarrow> date \<Rightarrow> (tier \<Rightarrow> oid) \<Rightarrow> handler_request \<Rightarrow> db
   \<Rightarrow> (thrown + (unit, string \<times> compute_result list) captured) \<times> db" where
  "pools_run Z fails dj now ids req s =
     go (parsed (Z AdminPrizePoolRunBodySchema (hq_body req))) s (\<lambda>body.
       let dayKey = z_str (z_prop ''dayKey'' body);
           yesterdayDayKey = z_str (z_prop ''yesterdayDayKey'' body);
           tiers = (case z_opt z_tier (z_prop ''tier'' body) of Some tier \<Rightarrow> [tier] | None \<Rightarrow> TIER_VALUES)
       in case pool_fanout fails dj dayKey yesterdayDayKey now ids tiers s of
            (perTier, failures, s') \<Rightarrow>
              if failures \<noteq> [] then (Inl (OtherErr ''prize-pool fanout''), s')
              else (Inr \<lparr>cap_resource = None, cap_before = (), cap_after = (z_str (z_prop ''reason'' body), perTier)\<rparr>, s'))"

definition z_payout :: "zod_value \<Rightarrow> payout_status" where
  "z_payout = z_enum [(''PENDING'', W_PENDING), (''RELEASED'', W_RELEASED), (''WITHHELD'', W_WITHHELD), (''VOID'', W_VOID)]"

definition pools_listWinners :: "zod \<Rightarrow> handler_request \<Rightarrow> db \<Rightarrow> (thrown + prize_winner list) \<times> db" where
  "pools_listWinners Z req s =
     go (parsed (Z AdminPrizePoolWinnersQuerySchema (hq_query req))) s (\<lambda>q.
       (Inr (listWinners (z_str (z_prop ''dayKey'' q)) (z_opt z_payout (z_prop ''payoutStatus'' q)) s), s))"

definition pools_markPayout ::
  "zod \<Rightarrow> zod_host \<Rightarrow> date \<Rightarrow> handler_request \<Rightarrow> db
   \<Rightarrow> (thrown + (prize_winner option, prize_winner \<times> string) captured) \<times> db" where
  "pools_markPayout Z H now req s =
     go (parseObjectId H (z_prop ''id'' (hq_params req))) s (\<lambda>winnerId.
     go (parsed (Z AdminMarkPayoutBodySchema (hq_body req))) s (\<lambda>body.
       let before = findOne (\<lambda>w. w_id w = winnerId) (prize_winners s)
       in case called (markPayout
                 \<lparr>pi_winnerId = winnerId, pi_payoutStatus = z_payout (z_prop ''payoutStatus'' body),
                  pi_challanNo = z_opt z_str (z_prop ''challanNo'' body), pi_panLast4 = z_opt z_str (z_prop ''panLast4'' body)\<rparr> now s) of
            (Inl e, s') \<Rightarrow> (Inl e, s')
          | (Inr after, s') \<Rightarrow>
              (Inr \<lparr>cap_resource = Some winnerId, cap_before = before, cap_after = (after, z_str (z_prop ''reason'' body))\<rparr>, s')))"

subsection \<open>Redeem codes\<close>

text \<open>\<open>csv\<close> is the uploaded file as the parser of CSV files reads it, if there is one.\<close>

definition codes_upload ::
  "zod \<Rightarrow> (nat \<Rightarrow> string \<Rightarrow> enc_field option) \<Rightarrow> (string \<Rightarrow> string \<Rightarrow> string) \<Rightarrow> string \<Rightarrow> raw_row list option
   \<Rightarrow> date \<Rightarrow> oid \<Rightarrow> (nat \<Rightarrow> oid) \<Rightarrow> handler_request \<Rightarrow> db \<Rightarrow> (thrown + (unit, int \<times> nat) captured) \<times> db" where
  "codes_upload Z encryptField hmac hashSecret csv now batchId ids req s =
     (case csv of
        None \<Rightarrow> (Inl (AppErr ValidationError), s)
      | Some records \<Rightarrow>
          go (parsed (Z AdminUploadBatchMetaSchema (hq_body req))) s (\<lambda>meta.
            case called (uploadBatch encryptField hmac hashSecret records
                \<lparr>ui_supplierName = z_str (z_prop ''supplierName'' meta),
                 ui_supplierInvoiceNumber = z_opt z_str (z_prop ''supplierInvoiceNumber'' meta),
                 ui_supplierInvoiceUrl = z_opt z_str (z_prop ''supplierInvoiceUrl'' meta),
                 ui_denomination = Some (z_int (z_prop ''denomination'' meta)),
                 ui_notes = z_opt z_str (z_prop ''notes'' meta)\<rparr> (hq_adminId req) now batchId ids s) of
              (Inl e, s') \<Rightarrow> (Inl e, s')
            | (Inr result, s') \<Rightarrow>
                (Inr \<lparr>cap_resource = Some (ur_batchId result), cap_before = (),
                      cap_after = (ur_inserted result, length (ur_skipped result))\<rparr>, s')))"

definition codes_publish ::
  "zod \<Rightarrow> zod_host \<Rightarrow> date \<Rightarrow> handler_request \<Rightarrow> db \<Rightarrow> (thrown + (oid \<times> oid, publish_result) captured) \<times> db" where
  "codes_publish Z H now req s =
     go (parsed (Z (AdminPublishBatchBodySchema H) (hq_body req))) s (\<lambda>body.
       let batchId = z_oid (z_prop ''batchId'' body); postId = z_oid (z_prop ''postId'' body)
       in case called (publishBatchToPost \<lparr>pb_batchId = batchId, pb_postId = postId, pb_count = z_int (z_prop ''count'' body)\<rparr> now s) of
            (Inl e, s') \<Rightarrow> (Inl e, s')
          | (Inr result, s') \<Rightarrow> (Inr \<lparr>cap_resource = Some batchId, cap_before = (batchId, postId), cap_after = result\<rparr>, s'))"

definition codes_void ::
  "zod \<Rightarrow> zod_host \<Rightarrow> handler_request \<Rightarrow> db \<Rightarrow> (thrown + (redeem_code option, redeem_code option) captured) \<times> db" where
  "codes_void Z H req s =
     go (parseObjectId H (z_prop ''id'' (hq_params req))) s (\<lambda>codeId.
     go (parsed (Z AdminVoidCodeBodySchema (hq_body req))) s (\<lambda>body.
       let before = findOne (\<lambda>c. rc_id c = codeId) (redeem_codes s);
           s' = voidCode codeId (z_str (z_prop ''reason'' body)) s
       in (Inr \<lparr>cap_resource = Some codeId, cap_before = before, cap_after = findOne (\<lambda>c. rc_id c = codeId) (redeem_codes s')\<rparr>, s')))"

definition z_code_status :: "zod_value \<Rightarrow> code_status" where
  "z_code_status = z_enum [(''AVAILABLE'', RC_AVAILABLE), (''PUBLISHED'', RC_PUBLISHED), (''COPIED'', RC_COPIED),
     (''CLAIMED'', RC_CLAIMED), (''EXPIRED'', RC_EXPIRED), (''VOID'', RC_VOID)]"

definition codes_list :: "zod \<Rightarrow> zod_host \<Rightarrow> handler_request \<Rightarrow> db \<Rightarrow> (thrown + redeem_code list) \<times> db" where
  "codes_list Z H req s =
     go (parsed (Z (AdminListCodesQuerySchema H) (hq_query req))) s (\<lambda>q.
       (Inr (listCodes \<lparr>cf_status = z_opt z_code_status (z_prop ''status'' q), cf_batchId = z_opt z_oid (z_prop ''batchId'' q),
              cf_postId = z_opt z_oid (z_prop ''postId'' q)\<rparr> (z_int (z_prop ''limit'' q)) s), s))"

text \<open>
  The rows of the export; \<open>toIso\<close> is \<open>toISOString\<close> and \<open>hex\<close> the text of an
  ObjectId. What the CSV library makes of them is not modelled.
\<close>

definition EXPORT_COLUMNS :: "string list" where
  "EXPORT_COLUMNS = [''_id'', ''batchId'', ''status'', ''postId'', ''firstCopiedBy'', ''firstCopiedAt'', ''claimedBy'', ''claimedAt'',
     ''voidedReason'', ''createdAt'']"

fun code_status_text :: "code_status \<Rightarrow> string" where
  "code_status_text RC_AVAILABLE = ''AVAILABLE''"
| "code_status_text RC_PUBLISHED = ''PUBLISHED''"
| "code_status_text RC_COPIED = ''COPIED''"
| "code_status_text RC_CLAIMED = ''CLAIMED''"
| "code_status_text RC_EXPIRED = ''EXPIRED''"
| "code_status_text RC_VOID = ''VOID''"

definition text_or_empty :: "('a \<Rightarrow> string) \<Rightarrow> 'a option \<Rightarrow> string" where
  "text_or_empty f v = (case v of None \<Rightarrow> [] | Some x \<Rightarrow> f x)"

definition export_row :: "(oid \<Rightarrow> string) \<Rightarrow> (date \<Rightarrow> string) \<Rightarrow> redeem_code \<Rightarrow> (string \<times> string) list" where
  "export_row hex toIso d = zip EXPORT_COLUMNS
     [hex (rc_id d), hex (rc_batchId d), code_status_text (rc_status d), text_or_empty hex (rc_postId d),
      text_or_empty hex (rc_firstCopiedBy d), text_or_empty toIso (rc_firstCopiedAt d), text_or_empty hex (rc_claimedBy d),
      text_or_empty toIso (rc_claimedAt d), or_default (rc_voidedReason d) [], toIso (rc_createdAt d)]"

definition auditExport :: "(oid \<Rightarrow> string) \<Rightarrow> (date \<Rightarrow> string) \<Rightarrow> codes_filter \<Rightarrow> db \<Rightarrow> (string \<times> string) list list" where
  "auditExport hex toIso f s =
     map (export_row hex toIso)
       (sort_key (\<lambda>c. (- rc_createdAt c, - int (rc_id c)))
         (find_docs (\<lambda>c. (case cf_status f of None \<Rightarrow> True | Some st \<Rightarrow> rc_status c = st) \<and>
            (case cf_batchId f of None \<Rightarrow> True | Some b \<Rightarrow> rc_batchId c = b) \<and>
            (case cf_postId f of None \<Rightarrow> True | Some p \<Rightarrow> rc_postId c = Some p)) (redeem_codes s)))"

definition codes_export ::
  "zod \<Rightarrow> zod_host \<Rightarrow> (oid \<Rightarrow> string) \<Rightarrow> (date \<Rightarrow> string) \<Rightarrow> handler_request \<Rightarrow> db \<Rightarrow> (thrown + (string \<times> string) list list) \<times> db" where
  "codes_export Z H hex toIso req s =
     go (parsed (Z (AdminListCodesQuerySchema H) (hq_query req))) s (\<lambda>q.
       (Inr (auditExport hex toIso \<lparr>cf_status = z_opt z_code_status (z_prop ''status'' q), cf_batchId = z_opt z_oid (z_prop ''batchId'' q),
              cf_postId = z_opt z_oid (z_prop ''postId'' q)\<rparr> s), s))"

subsection \<open>Custom rooms\<close>

definition rooms_list ::
  "zod \<Rightarrow> dayjs \<Rightarrow> (enc_field \<Rightarrow> string option) \<Rightarrow> date \<Rightarrow> handler_request \<Rightarrow> db \<Rightarrow> (thrown + room_item list) \<times> db" where
  "rooms_list Z dj decryptField now req s =
     go (parsed (Z ListRoomsQuerySchema (hq_query req))) s (\<lambda>query.
     go (requireAuthedUser req) s (\<lambda>(claims, subs).
       let tier = z_tier (z_prop ''tier'' query)
       in if \<not> userCanAccessTier subs tier now then (Inl (AppErr (ForbiddenError ''TIER_NOT_ACCESSIBLE'')), s)
          else pure_call (listRoomsForDay dj decryptField
            \<lparr>lr_userId = ac_sub claims, lr_subscriptions = subs, lr_tier = tier, lr_game = z_game (z_prop ''game'' query),
             lr_page = z_opt z_int (z_prop ''page'' query), lr_dayKey = z_opt z_str (z_prop ''dayKey'' query)\<rparr> now s) s))"

definition room_body :: "zod_value \<Rightarrow> room_create_input" where
  "room_body body =
     \<lparr>rci_game = z_game (z_prop ''game'' body), rci_dayKey = z_str (z_prop ''dayKey'' body),
      rci_scheduledAt = z_date (z_prop ''scheduledAt'' body), rci_visibleFromAt = z_opt z_date (z_prop ''visibleFromAt'' body),
      rci_resultEnabledAt = z_opt z_date (z_prop ''resultEnabledAt'' body), rci_tier = z_opt z_tier (z_prop ''tier'' body),
      rci_pageNumber = z_opt z_int (z_prop ''pageNumber'' body), rci_notice = z_opt z_str (z_prop ''notice'' body)\<rparr>"

definition rooms_create :: "zod \<Rightarrow> date \<Rightarrow> oid \<Rightarrow> handler_request \<Rightarrow> db \<Rightarrow> (thrown + (unit, custom_room) captured) \<times> db" where
  "rooms_create Z now newId req s =
     go (parsed (Z AdminRoomCreateBodySchema (hq_body req))) s (\<lambda>body.
       case admin_createRoom (room_body body) (hq_adminId req) now newId s of
         (after, s') \<Rightarrow> (Inr \<lparr>cap_resource = Some (cr_id after), cap_before = (), cap_after = after\<rparr>, s'))"

definition room_of :: "oid \<Rightarrow> db \<Rightarrow> custom_room option" where
  "room_of roomId s = findOne (\<lambda>r. cr_id r = roomId) (custom_rooms s)"

text \<open>The shape the handlers that move a room share: the room before, the call, the room after.\<close>

definition rooms_change ::
  "oid \<Rightarrow> (db \<Rightarrow> (app_error + unit) \<times> db) \<Rightarrow> db \<Rightarrow> (thrown + (custom_room option, custom_room option) captured) \<times> db" where
  "rooms_change roomId service s =
     (case called (service s) of
        (Inl e, s') \<Rightarrow> (Inl e, s')
      | (Inr _, s') \<Rightarrow> (Inr \<lparr>cap_resource = Some roomId, cap_before = room_of roomId s, cap_after = room_of roomId s'\<rparr>, s'))"

definition rooms_setCredentials ::
  "zod \<Rightarrow> zod_host \<Rightarrow> (string \<Rightarrow> enc_field option) \<Rightarrow> handler_request \<Rightarrow> db
   \<Rightarrow> (thrown + (custom_room option, custom_room option) captured) \<times> db" where
  "rooms_setCredentials Z H enc req s =
     go (parseObjectId H (z_prop ''id'' (hq_params req))) s (\<lambda>roomId.
     go (parsed (Z AdminRoomCredentialsBodySchema (hq_body req))) s (\<lambda>body.
       rooms_change roomId (setCredentials enc roomId (z_str (z_prop ''roomId'' body)) (z_str (z_prop ''roomPwd'' body))) s))"

definition rooms_start :: "zod_host \<Rightarrow> handler_request \<Rightarrow> db \<Rightarrow> (thrown + (custom_room option, custom_room option) captured) \<times> db" where
  "rooms_start H req s =
     go (parseObjectId H (z_prop ''id'' (hq_params req))) s (\<lambda>roomId. rooms_change roomId (startMatch roomId) s)"

definition rooms_end :: "zod_host \<Rightarrow> handler_request \<Rightarrow> db \<Rightarrow> (thrown + (custom_room option, custom_room option) captured) \<times> db" where
  "rooms_end H req s =
     go (parseObjectId H (z_prop ''id'' (hq_params req))) s (\<lambda>roomId. rooms_change roomId (endMatch roomId) s)"

definition bucket_body :: "zod_host \<Rightarrow> zod_value \<Rightarrow> result_bucket" where
  "bucket_body H val =
     \<lparr>rb_imageUrl = z_opt z_str (z_prop ''imageUrl'' val), rb_squadName = z_opt z_str (z_prop ''squadName'' val),
      rb_winners = map (\<lambda>w. (Some (z_id H (z_prop ''userId'' w)), Some (z_int (z_prop ''prize'' w)))) (z_list (z_prop ''winners'' val))\<rparr>"

definition results_body :: "zod_host \<Rightarrow> oid \<Rightarrow> zod_value \<Rightarrow> results_input" where
  "results_body H roomId body =
     \<lparr>rs_roomId = roomId, rs_inRoomImageUrl = z_opt z_str (z_prop ''inRoomImageUrl'' body),
      rs_top1 = z_opt (bucket_body H) (z_prop ''top1'' body), rs_top2 = z_opt (bucket_body H) (z_prop ''top2'' body),
      rs_top3 = z_opt (bucket_body H) (z_prop ''top3'' body), rs_extra = z_opt (bucket_body H) (z_prop ''extra'' body)\<rparr>"

definition rooms_results ::
  "zod \<Rightarrow> zod_host \<Rightarrow> date \<Rightarrow> oid \<Rightarrow> handler_request \<Rightarrow> db
   \<Rightarrow> (thrown + (custom_room option, custom_room option) captured) \<times> db" where
  "rooms_results Z H now newId req s =
     go (parseObjectId H (z_prop ''id'' (hq_params req))) s (\<lambda>roomId.
     go (parsed (Z AdminEnterResultsBodySchema (hq_body req))) s (\<lambda>body.
       rooms_change roomId (enterResults (results_body H roomId body) (hq_adminId req) now newId) s))"

definition winner_body :: "zod_host \<Rightarrow> zod_value \<Rightarrow> winner_item" where
  "winner_body H w =
     \<lparr>wi_userId = z_id H (z_prop ''userId'' w),
      wi_type = z_enum [(''GIFT_CODE'', GIFT_CODE), (''CUSTOM_ROOM'', CUSTOM_ROOM)] (z_prop ''type'' w),
      wi_baseAmount = z_int (z_prop ''baseAmount'' w), wi_tier = z_tier (z_prop ''tier'' w),
      wi_redeemCodeId = z_opt (z_id H) (z_prop ''redeemCodeId'' w),
      wi_customRoomId = z_opt (z_id H) (z_prop ''customRoomId'' w)\<rparr>"

definition rooms_assignWinners ::
  "zod \<Rightarrow> zod_host \<Rightarrow> date \<Rightarrow> (nat \<Rightarrow> oid) \<Rightarrow> handler_request \<Rightarrow> db \<Rightarrow> (thrown + (unit, int \<times> nat) captured) \<times> db" where
  "rooms_assignWinners Z H now ids req s =
     go (parsed (Z AdminAssignWinnersBodySchema (hq_body req))) s (\<lambda>body.
       case called (assignWinners (z_str (z_prop ''dayKey'' body)) (map (winner_body H) (z_list (z_prop ''winners'' body))) now ids s) of
         (Inl e, s') \<Rightarrow> (Inl e, s')
       | (Inr (assigned, skipped), s') \<Rightarrow>
           (Inr \<lparr>cap_resource = None, cap_before = (), cap_after = (assigned, length skipped)\<rparr>, s'))"

definition z_room_status :: "zod_value \<Rightarrow> room_status" where
  "z_room_status = z_enum [(''SCHEDULED'', R_SCHEDULED), (''LIVE'', R_LIVE), (''COMPLETED'', R_COMPLETED), (''CANCELLED'', R_CANCELLED)]"

definition admin_rooms_list :: "zod \<Rightarrow> handler_request \<Rightarrow> db \<Rightarrow> (thrown + custom_room list) \<times> db" where
  "admin_rooms_list Z req s =
     go (parsed (Z AdminRoomsListQuerySchema (hq_query req))) s (\<lambda>q.
       (Inr (admin_listRooms \<lparr>rf_game = z_opt z_game (z_prop ''game'' q), rf_status = z_opt z_room_status (z_prop ''status'' q),
              rf_dayKey = z_opt z_str (z_prop ''dayKey'' q)\<rparr> (or_default (z_opt z_int (z_prop ''limit'' q)) 50) s), s))"

subsection \<open>Money and queues\<close>

definition refunds_initiate ::
  "zod \<Rightarrow> zod_host \<Rightarrow> string option \<Rightarrow> bool \<Rightarrow> handler_request \<Rightarrow> db
   \<Rightarrow> (thrown + (string \<times> string, string) captured) \<times> db" where
  "refunds_initiate Z H refundId cancelOk req s =
     go (parsed (Z AdminInitiateRefundBodySchema (hq_body req))) s (\<lambda>body.
       let paymentId = z_str (z_prop ''paymentId'' body)
       in case called (initiateRefund
                 \<lparr>ri_paymentId = zh_oid H paymentId, ri_amountPaise = z_opt z_int (z_prop ''amountPaise'' body),
                  ri_cancelSubscription = z_opt z_bool (z_prop ''cancelSubscription'' body)\<rparr> refundId cancelOk s) of
            (Inl e, s') \<Rightarrow> (Inl e, s')
          | (Inr razorpayRefundId, s') \<Rightarrow>
              (Inr \<lparr>cap_resource = Some (zh_oid H paymentId), cap_before = (paymentId, z_str (z_prop ''reason'' body)),
                    cap_after = razorpayRefundId\<rparr>, s'))"

definition z_donation_status :: "zod_value \<Rightarrow> donation_status" where
  "z_donation_status = z_enum [(''CREATED'', D_CREATED), (''CAPTURED'', D_CAPTURED), (''FAILED'', D_FAILED), (''REFUNDED'', D_REFUNDED)]"

definition admin_donations_list :: "zod \<Rightarrow> zod_host \<Rightarrow> handler_request \<Rightarrow> db \<Rightarrow> (thrown + donation list) \<times> db" where
  "admin_donations_list Z H req s =
     go (parsed (Z AdminDonationsListQuerySchema (hq_query req))) s (\<lambda>q.
       (Inr (admin_listDonations
          \<lparr>df_userId = z_opt (z_id H) (z_prop ''userId'' q), df_status = z_opt z_donation_status (z_prop ''status'' q),
           df_from = z_opt z_date (z_prop ''from'' q), df_to = z_opt z_date (z_prop ''to'' q)\<rparr>
          (or_default (z_opt z_int (z_prop ''limit'' q)) 50) s), s))"

definition admin_donations_feature ::
  "zod_host \<Rightarrow> handler_request \<Rightarrow> db \<Rightarrow> (thrown + (donation option, donation option) captured) \<times> db" where
  "admin_donations_feature H req s =
     go (parseObjectId H (z_prop ''id'' (hq_params req))) s (\<lambda>donationId.
       case called (markFeatured donationId s) of
         (Inl e, s') \<Rightarrow> (Inl e, s')
       | (Inr _, s') \<Rightarrow>
           (Inr \<lparr>cap_resource = Some donationId, cap_before = findOne (\<lambda>d. d_id d = donationId) (donations s),
                 cap_after = findOne (\<lambda>d. d_id d = donationId) (donations s')\<rparr>, s'))"

definition z_sub_status :: "zod_value \<Rightarrow> sub_status" where
  "z_sub_status = z_enum [(''CREATED'', S_CREATED), (''AUTHENTICATED'', S_AUTHENTICATED), (''ACTIVE'', S_ACTIVE), (''PENDING'', S_PENDING),
     (''HALTED'', S_HALTED), (''CANCELLED'', S_CANCELLED), (''COMPLETED'', S_COMPLETED), (''PAUSED'', S_PAUSED)]"

definition admin_subscriptions_list :: "zod \<Rightarrow> handler_request \<Rightarrow> db \<Rightarrow> (thrown + subscription list) \<times> db" where
  "admin_subscriptions_list Z req s =
     go (parsed (Z AdminSubscriptionsListQuerySchema (hq_query req))) s (\<lambda>q.
       (Inr (admin_listSubscriptions (z_opt z_tier (z_prop ''tier'' q)) (z_opt z_sub_status (z_prop ''status'' q))
              (or_default (z_opt z_int (z_prop ''limit'' q)) 50) s), s))"

definition admin_subscriptions_revenue :: "zod \<Rightarrow> handler_request \<Rightarrow> db \<Rightarrow> (thrown + revenue_report) \<times> db" where
  "admin_subscriptions_revenue Z req s =
     go (parsed (Z AdminSubscriptionsRevenueQuerySchema (hq_query req))) s (\<lambda>q.
       (Inr (getRevenueReport (z_date (z_prop ''from'' q)) (z_date (z_prop ''to'' q)) s), s))"

definition admin_dlq_list :: "zod \<Rightarrow> handler_request \<Rightarrow> queue_state \<Rightarrow> (thrown + dlq_entry list) \<times> queue_state" where
  "admin_dlq_list Z req st =
     go (parsed (Z AdminDlqListQuerySchema (hq_query req))) st (\<lambda>q.
       (Inr (dlq_list (z_bool (z_prop ''includeRequeued'' q)) (z_int (z_prop ''limit'' q)) st), st))"

definition parseJobId :: "zod_value \<Rightarrow> thrown + string" where
  "parseJobId raw =
     (case raw of
        Z_String s \<Rightarrow> if length s < 1 \<or> 200 < length s then Inl (AppErr ValidationError) else Inr s
      | _ \<Rightarrow> Inl (AppErr ValidationError))"

definition admin_dlq_requeue ::
  "zod \<Rightarrow> string \<Rightarrow> date \<Rightarrow> oid \<Rightarrow> handler_request \<Rightarrow> queue_state
   \<Rightarrow> (thrown + (string \<times> string, string \<times> oid \<times> string) captured) \<times> queue_state" where
  "admin_dlq_requeue Z adminEmail now auditId req st =
     go (parseJobId (z_prop ''jobId'' (hq_params req))) st (\<lambda>jobId.
     go (parsed (Z AdminDlqRequeueBodySchema (hq_body req))) st (\<lambda>body.
       let reason = z_str (z_prop ''reason'' body)
       in case called (requeue \<lparr>rq_jobId = jobId, rq_actorId = hq_adminId req, rq_actorEmail = adminEmail, rq_reason = reason\<rparr>
                 now auditId st) of
            (Inl e, st') \<Rightarrow> (Inl e, st')
          | (Inr result, st') \<Rightarrow>
              (Inr \<lparr>cap_resource = Some (rqr_auditId result), cap_before = (rqr_originalJobId result, rqr_originalQueue result),
                    cap_after = (rqr_requeuedToJobId result, rqr_auditId result, reason)\<rparr>, st')))"

section \<open>Properties\<close>

lemma those_nth: "those xs = Some ys \<Longrightarrow> i < length xs \<Longrightarrow> xs ! i = Some (ys ! i)"
  by (simp add: those_Some)

context zod
begin

text \<open>The properties of an object that was let through are what its schemas made of those of the request.\<close>

lemma object_field:
  assumes "parse (ZObject fs) v = Some w" "distinct (map fst fs)" "(k, s) \<in> set fs"
  shows "parse s (z_prop k v) = Some (z_prop k w)"
proof -
  obtain kvs out where "v = Z_Object kvs" "w = Z_Object out" "parse_fields parse fs kvs = Some out"
    using assms(1) by (auto simp: laws split: zod_value.splits if_splits)
  then show ?thesis using fields_parsed(3) [OF _ assms(2,3)] by (simp add: z_prop_def)
qed

lemma optional_field:
  assumes "parse (ZObject fs) v = Some w" "distinct (map fst fs)" "(k, ZOptional s) \<in> set fs"
  shows "z_prop k w = Z_Undefined \<or> parse s (z_prop k v) = Some (z_prop k w)"
  using object_field [OF assms] by (auto simp: parse_optional split: if_splits)

lemma id_param:
  assumes "RX_OBJECT_ID i"
  shows "parse (ZObject [(''id'', ObjectIdParam H)]) (Z_Object [(''id'', Z_String i)]) = Some (Z_Object [(''id'', Z_Oid (zh_oid H i))])"
  using assms by (simp add: laws known_keys_def parse_fields_def ObjectIdParam_def ObjectIdHex_def oid_transform_def js_prop_def field_entry_def)

end

text \<open>A birth date decides over the gate of the sign-up and over nothing else of its answer.\<close>

lemma doSignup_dob: "fst (doSignup J (inp\<lparr>su_dob := d\<rparr>) code ref dr now st) = fst (doSignup J inp code ref dr now st)"
  by (auto simp: doSignup_def create_def signup_user_def user_clash_def Let_def list_ex_iff split: sum.splits prod.splits if_splits)

lemma signup_dob:
  assumes "18 \<le> ageInYearsIst dj now (su_dob inp)" "18 \<le> ageInYearsIst dj now d"
  shows "fst (verifySignupOtp dj J R sha nodeEnv (inp\<lparr>su_dob := d\<rparr>) dr now st) = fst (verifySignupOtp dj J R sha nodeEnv inp dr now st)"
proof -
  have o: "signup_otp R sha nodeEnv (inp\<lparr>su_dob := d\<rparr>) now st = signup_otp R sha nodeEnv inp now st" by (simp add: signup_otp_def)
  have r: "resolve_referrer (inp\<lparr>su_dob := d\<rparr>) us = resolve_referrer inp us" for us by (simp add: resolve_referrer_def)
  have f: "fst (case x of (Inl e, st2) \<Rightarrow> (Inl e, st2) | (Inr a, st2) \<Rightarrow> (Inr a, g st2)) = fst x" for x :: "(app_error + authed_user \<times> 'a auth_tokens) \<times> 'b auth_state" and g
    by (auto split: sum.splits prod.splits)
  show ?thesis
    using assms by (auto simp: verifySignupOtp_def o r f doSignup_dob split: option.splits sum.splits prod.splits)
qed

definition sample_http :: handler_request where
  "sample_http = \<lparr>hq_params = Z_Object [(''id'', Z_String ''000000000000000000000007'')], hq_query = Z_Object [], hq_body = Z_Object [],
     hq_context = Some (requestContext (\<lambda>_. None) (Some ''::1'') None),
     hq_user = Some (\<lparr>ac_sub = 7, ac_jti = ''j'', ac_tokenVersion = 1, ac_iat = 0\<rparr>, []), hq_adminId = 1, hq_ip = Some ''::1''\<rparr>"

definition sample_null_signup :: handler_request where
  "sample_null_signup = sample_http\<lparr>hq_body := Z_Object [(''phone'', Z_String ''9999990001''), (''otp'', Z_String ''123456''),
     (''dob'', Z_Null), (''declaredState'', Z_String ''in-mh''), (''consentVersion'', Z_String ''1''), (''consentAcceptedAt'', Z_Number 0),
     (''privacyPolicyVersion'', Z_String ''1''), (''deviceId'', Z_String ''d''), (''deviceFingerprint'', Z_String ''fp''),
     (''_devBypassOtp'', Z_Bool True)]\<rparr>"

text \<open>
  A sign-up whose birth date is null gets the answer an adult gets: the schema makes 1 January 1970
  of it, and the age gate lets that through.
\<close>

theorem null_birth_date_is_adult:
  assumes "zod H Z" "zh_Date H Z_Null = Some 0"
    and "z_prop ''dob'' (hq_body req) = Z_Null" "Z VerifySignupOtpBodySchema (hq_body req) = Some body" "hq_context req = Some ctx"
    and "18 \<le> ageInYearsIst dj now 0" "18 \<le> ageInYearsIst dj now d"
  shows "su_dob (signup_body body ctx) = 0 \<and>
    fst (auth_verifySignupOtp Z dj J R sha nodeEnv dr now req st) =
      map_sum AppErr id (fst (verifySignupOtp dj J R sha nodeEnv ((signup_body body ctx)\<lparr>su_dob := d\<rparr>) dr now st))"
proof -
  have "Z ZCoerceDate (z_prop ''dob'' (hq_body req)) = Some (z_prop ''dob'' body)"
    by (rule zod.object_field [OF assms(1) assms(4) [unfolded VerifySignupOtpBodySchema_def]]) simp_all
  then have "z_prop ''dob'' body = Z_Date 0" using assms(2,3) by (simp add: zod.parse_coerce_date [OF assms(1)])
  then have dob: "su_dob (signup_body body ctx) = 0" by (simp add: signup_body_def z_date_def)
  have "fst (auth_verifySignupOtp Z dj J R sha nodeEnv dr now req st) =
      map_sum AppErr id (fst (verifySignupOtp dj J R sha nodeEnv (signup_body body ctx) dr now st))"
    using assms(4,5) by (simp add: auth_verifySignupOtp_def validateBody_def requireContext_def called_def)
  then show ?thesis using dob assms(6,7) signup_dob [of dj now "signup_body body ctx" d J R sha nodeEnv dr st] by simp
qed

theorem null_birth_date_is_adult_witness:
  "\<not> isl (fst (auth_verifySignupOtp (zod_ref sample_host) gregorian_ist payload_jose space_redis id ''development'' sample_signup_draws
     1767225600000 sample_null_signup (sample_auth [] [])))"
proof -
  define body where "body = the (zod_ref sample_host VerifySignupOtpBodySchema (hq_body sample_null_signup))"
  have b: "zod_ref sample_host VerifySignupOtpBodySchema (hq_body sample_null_signup) = Some body"
    unfolding body_def by (rule option.collapse [symmetric]) code_simp
  have n: "zh_Date sample_host Z_Null = Some 0" "z_prop ''dob'' (hq_body sample_null_signup) = Z_Null"
    "hq_context sample_null_signup = Some (requestContext (\<lambda>_. None) (Some ''::1'') None)"
    by (simp_all add: sample_host_def sample_null_signup_def sample_http_def z_prop_def js_prop_def)
  have a: "18 \<le> ageInYearsIst gregorian_ist 1767225600000 0" "18 \<le> ageInYearsIst gregorian_ist 1767225600000 315532800000" by code_simp+
  have "\<not> isl (fst (verifySignupOtp gregorian_ist payload_jose space_redis id ''development''
      ((signup_body (the (zod_ref sample_host VerifySignupOtpBodySchema (hq_body sample_null_signup)))
         (requestContext (\<lambda>_. None) (Some ''::1'') None))\<lparr>su_dob := 315532800000\<rparr>) sample_signup_draws 1767225600000 (sample_auth [] [])))"
    by code_simp
  then show ?thesis
    using null_birth_date_is_adult [OF zod_ref.zod_axioms n(1,2) b n(3) a, of payload_jose space_redis id "''development''" sample_signup_draws
        "sample_auth [] []"]
    by (simp add: body_def isl_map_sum)
qed

text \<open>
  A cancellation that does not say when ends the subscription at once, and one that says "false"
  ends it with the cycle: the flag is the truth value of whatever the body has.
\<close>

theorem silent_cancel_is_immediate:
  assumes "zod H Z" "RX_OBJECT_ID i" "hq_params req = Z_Object [(''id'', Z_String i)]" "hq_user req = Some (claims, subs)"
  shows "subscriptions_cancel Z H ok now (req\<lparr>hq_body := Z_Object []\<rparr>) s =
      called (cancel_subscription (ac_sub claims) (zh_oid H i) False ok now s) \<and>
    subscriptions_cancel Z H ok now (req\<lparr>hq_body := Z_Object [(''atCycleEnd'', Z_String ''false'')]\<rparr>) s =
      called (cancel_subscription (ac_sub claims) (zh_oid H i) True ok now s)"
proof -
  have "Z CancelSubscriptionBodySchema (Z_Object []) = Some (Z_Object [(''atCycleEnd'', Z_Bool False)])"
    "Z CancelSubscriptionBodySchema (Z_Object [(''atCycleEnd'', Z_String ''false'')]) = Some (Z_Object [(''atCycleEnd'', Z_Bool True)])"
    by (simp_all add: CancelSubscriptionBodySchema_def zod.laws [OF assms(1)] known_keys_def parse_fields_def js_prop_def field_entry_def)
  moreover have "Z (SubscriptionIdParamsSchema H) (Z_Object [(''id'', Z_String i)]) = Some (Z_Object [(''id'', Z_Oid (zh_oid H i))])"
    unfolding SubscriptionIdParamsSchema_def by (rule zod.id_param [OF assms(1,2)])
  ultimately show ?thesis
    using assms(3,4) by (simp add: subscriptions_cancel_def parsed_def requireAuthedUser_def z_prop_def js_prop_def z_bool_def z_oid_def)
qed

theorem silent_cancel_is_immediate_witness:
  "map s_status (subscriptions (snd (subscriptions_cancel (zod_ref sample_host) sample_host True 5 sample_http
     (empty_db\<lparr>subscriptions := [subscription_row 7 PRO ''sub_1'' ''plan'' (1, 1, 0) 0 7]\<rparr>)))) = [S_CANCELLED]"
proof -
  have r: "RX_OBJECT_ID ''000000000000000000000007''" by code_simp
  have q: "hq_params sample_http = Z_Object [(''id'', Z_String ''000000000000000000000007'')]"
    "hq_user sample_http = Some (\<lparr>ac_sub = 7, ac_jti = ''j'', ac_tokenVersion = 1, ac_iat = 0\<rparr>, [])"
    "sample_http\<lparr>hq_body := Z_Object []\<rparr> = sample_http" by (simp_all add: sample_http_def)
  have "map s_status (subscriptions (snd (cancel_subscription 7 (zh_oid sample_host ''000000000000000000000007'') False True 5
     (empty_db\<lparr>subscriptions := [subscription_row 7 PRO ''sub_1'' ''plan'' (1, 1, 0) 0 7]\<rparr>)))) = [S_CANCELLED]" by code_simp
  then show ?thesis
    using silent_cancel_is_immediate [OF zod_ref.zod_axioms r q(1,2), where ok = True and now = 5 and
        s = "empty_db\<lparr>subscriptions := [subscription_row 7 PRO ''sub_1'' ''plan'' (1, 1, 0) 0 7]\<rparr>"]
    by (simp add: q(3) called_def)
qed

text \<open>
  The amount of an order that is stored lies between one rupee and a lakh and is a whole number of
  rupees, whatever the body contains; a body the schema refuses stores nothing.
\<close>

theorem donation_order_bounds:
  assumes "zod H Z"
  shows "donations (snd (donations_createOrder Z rzpOrder now newId req s)) = donations s \<or>
    (\<exists>d. donations (snd (donations_createOrder Z rzpOrder now newId req s)) = donations s @ [d] \<and>
       d_status d = D_CREATED \<and> 100 \<le> d_amount d \<and> d_amount d \<le> 100 * 100000 \<and> 100 dvd d_amount d)"
proof (cases "Z CreateDonationOrderBodySchema (hq_body req)")
  case (Some body)
  have "Z (ZCoerceNumber [N_Int, N_Min 1, N_Max 100000]) (z_prop ''amountInRupees'' (hq_body req)) = Some (z_prop ''amountInRupees'' body)"
    by (rule zod.object_field [OF assms Some [unfolded CreateDonationOrderBodySchema_def]]) simp_all
  then obtain n where n: "z_prop ''amountInRupees'' body = Z_Number n" "1 \<le> n" "n \<le> 100000"
    by (auto simp: zod.parse_coerce_number [OF assms] elim!: check_number.elims split: if_splits)
  show ?thesis
    using n(2,3) by (auto simp: donations_createOrder_def Some parsed_def called_def createOrder_def n(1) z_int_def create_def Let_def
        split: option.splits sum.splits if_splits)
qed (simp add: donations_createOrder_def parsed_def)

theorem donation_order_bounds_witness:
  "map d_amount (donations (snd (donations_createOrder (zod_ref sample_host) (Some ''o'') 5 1
     (sample_http\<lparr>hq_body := Z_Object [(''amountInRupees'', Z_String ''250'')]\<rparr>) empty_db))) = [25000] \<and> (100::int) dvd 25000"
proof -
  let ?s = "snd (donations_createOrder (zod_ref sample_host) (Some ''o'') 5 1
     (sample_http\<lparr>hq_body := Z_Object [(''amountInRupees'', Z_String ''250'')]\<rparr>) empty_db)"
  have d: "map d_amount (donations ?s) = [25000]" "donations empty_db = []" by code_simp+
  then show ?thesis
    using donation_order_bounds [OF zod_ref.zod_axioms, of sample_host "Some ''o''" 5 1
        "sample_http\<lparr>hq_body := Z_Object [(''amountInRupees'', Z_String ''250'')]\<rparr>" empty_db] by auto
qed

text \<open>
  Changing a post that does not exist is answered as a success, and the audit log gets a row for it.
\<close>

theorem unknown_post_update_succeeds:
  assumes "hq_params req = Z_Object [(''id'', Z_String i)]" "zh_isValid H i" "Z AdminPostUpdateBodySchema (hq_body req) = Some body"
    and "\<forall>p \<in> set (posts s). p_id p \<noteq> zh_oid H i"
  shows "admin_posts_update Z H req s = (Inr \<lparr>cap_resource = Some (zh_oid H i), cap_before = None, cap_after = None\<rparr>, s) \<and>
    admin_posts_delete H req s = (Inr \<lparr>cap_resource = Some (zh_oid H i), cap_before = None, cap_after = None\<rparr>, s)"
proof -
  have f: "findOne (\<lambda>p. p_id p = zh_oid H i) (posts s) = None" using assms(4) by (auto simp: findOne_None_iff)
  have d: "deleteOne (\<lambda>p. p_id p = zh_oid H i) ps = ps" if "\<forall>p \<in> set ps. p_id p \<noteq> zh_oid H i" for ps :: "post list"
    using that by (induction ps) auto
  show ?thesis
    using assms(1-3) by (simp add: admin_posts_update_def admin_posts_delete_def parseObjectId_def parsed_def z_prop_def js_prop_def f d [OF assms(4)]
        admin_updatePost_def admin_deletePost_def findOneAndUpdate_def update_first_None [OF f])
qed

theorem unknown_post_update_succeeds_witness:
  "admin_posts_update (zod_ref sample_host) sample_host sample_http empty_db =
     (Inr \<lparr>cap_resource = Some 7, cap_before = None, cap_after = None\<rparr>, empty_db)"
proof -
  have i: "hq_params sample_http = Z_Object [(''id'', Z_String ''000000000000000000000007'')]" by (simp add: sample_http_def)
  have v: "zh_isValid sample_host ''000000000000000000000007''" "zh_oid sample_host ''000000000000000000000007'' = 7"
    "zod_ref sample_host AdminPostUpdateBodySchema (hq_body sample_http) = Some (Z_Object [])" by code_simp+
  show ?thesis using unknown_post_update_succeeds [where s = empty_db and body = "Z_Object []" and Z = "zod_ref sample_host", OF i v(1) v(3)] by (simp add: v(2) empty_db_def)
qed

definition sample_code :: "string \<Rightarrow> redeem_code" where
  "sample_code ct = code_row 3 5000 0 4 \<lparr>er_rowNumber = 1, er_code = ct, er_codeHash = ct,
     er_field = \<lparr>ef_ct = ct, ef_iv = ''i'', ef_tag = ''t'', ef_dekEnc = ''k''\<rparr>\<rparr>"

text \<open>A code without what is secret of it.\<close>

definition forget_code :: "redeem_code \<Rightarrow> redeem_code" where
  "forget_code c = c\<lparr>rc_codeCt := [], rc_codeIv := None, rc_codeTag := None, rc_codeDekEnc := None, rc_codeHash := []\<rparr>"

lemma sort_key_map: "sort_key k (map f xs) = map f (sort_key (\<lambda>x. k (f x)) xs)"
proof -
  have "insort_key k (f x) (map f ys) = map f (insort_key (\<lambda>x. k (f x)) x ys)" for x ys by (induction ys) auto
  then show ?thesis by (induction xs) simp_all
qed

lemma export_forgets: "auditExport hex toIso f s = auditExport hex toIso f (s\<lparr>redeem_codes := map forget_code (redeem_codes s)\<rparr>)"
proof -
  have row: "export_row hex toIso (forget_code c) = export_row hex toIso c" for c by (simp add: export_row_def forget_code_def)
  have fields: "rc_status (forget_code c) = rc_status c" "rc_batchId (forget_code c) = rc_batchId c" "rc_postId (forget_code c) = rc_postId c"
    "rc_createdAt (forget_code c) = rc_createdAt c" "rc_id (forget_code c) = rc_id c" for c by (simp_all add: forget_code_def)
  show ?thesis
    by (simp add: auditExport_def find_docs_def filter_map comp_def sort_key_map row fields cong: option.case_cong)
qed

text \<open>
  The export of the codes does not depend on their ciphertexts, keys or hashes: two stores that differ in those only
  export the same rows.
\<close>

theorem export_hides_codes:
  assumes "map forget_code (redeem_codes s') = map forget_code (redeem_codes s)"
  shows "auditExport hex toIso f s' = auditExport hex toIso f s \<and>
    fst (codes_export Z H hex toIso req s') = fst (codes_export Z H hex toIso req s)"
proof -
  have "auditExport hex toIso f s' = auditExport hex toIso f s" for f
    unfolding export_forgets [of hex toIso f s'] export_forgets [of hex toIso f s] assms by (simp add: auditExport_def)
  then show ?thesis by (simp add: codes_export_def go_def split: sum.splits)
qed

theorem export_hides_codes_witness:
  "auditExport (\<lambda>i. dec_digits i) (\<lambda>d. js_String d) \<lparr>cf_status = None, cf_batchId = None, cf_postId = None\<rparr>
     (empty_db\<lparr>redeem_codes := [sample_code ''AAAA'']\<rparr>) =
   auditExport (\<lambda>i. dec_digits i) (\<lambda>d. js_String d) \<lparr>cf_status = None, cf_batchId = None, cf_postId = None\<rparr>
     (empty_db\<lparr>redeem_codes := [sample_code ''BBBB'']\<rparr>)"
proof -
  have "map forget_code (redeem_codes (empty_db\<lparr>redeem_codes := [sample_code ''AAAA'']\<rparr>)) =
      map forget_code (redeem_codes (empty_db\<lparr>redeem_codes := [sample_code ''BBBB'']\<rparr>))"
    by (simp add: sample_code_def code_row_def forget_code_def)
  from export_hides_codes [OF this] show ?thesis by blast
qed

text \<open>The requests that write posts or pay their reward, one at a time.\<close>

definition rewards_ok :: "post list \<Rightarrow> bool" where
  "rewards_ok ps \<longleftrightarrow> (\<forall>p \<in> set ps. 0 \<le> p_coinReward p \<and> p_coinReward p \<le> 100)"

inductive feed_step :: "zod \<Rightarrow> zod_host \<Rightarrow> db \<Rightarrow> db \<Rightarrow> bool" for Z H where
  create: "feed_step Z H s (snd (admin_posts_create Z now newId req s))"
| update: "feed_step Z H s (snd (admin_posts_update Z H req s))"
| delete: "feed_step Z H s (snd (admin_posts_delete H req s))"
| complete: "feed_step Z H s (snd (posts_complete Z H now cid txId req s))"

lemma reward_of_body:
  assumes "zod H Z" "Z (ZObject fs) v = Some body" "distinct (map fst fs)"
    "(''coinReward'', ZOptional (ZNumber [N_Int, N_Min 0, N_Max 100])) \<in> set fs"
  shows "z_opt z_int (z_prop ''coinReward'' body) = None \<or> (\<exists>n. z_opt z_int (z_prop ''coinReward'' body) = Some n \<and> 0 \<le> n \<and> n \<le> 100)"
  using zod.optional_field [OF assms]
  by (auto simp: z_opt_def z_int_def zod.parse_number [OF assms(1)] elim!: check_number.elims split: if_splits)

lemma rewards_patched:
  assumes "pup_coinReward patch = None \<or> (\<exists>n. pup_coinReward patch = Some n \<and> 0 \<le> n \<and> n \<le> 100)" "rewards_ok ps"
  shows "rewards_ok (update_first q (apply_post_patch patch) ps)"
proof -
  have "p_coinReward (apply_post_patch patch p) = or_default (pup_coinReward patch) (p_coinReward p)" for p
    by (simp add: apply_post_patch_def)
  then have "0 \<le> p_coinReward (apply_post_patch patch p) \<and> p_coinReward (apply_post_patch patch p) \<le> 100"
    if "0 \<le> p_coinReward p \<and> p_coinReward p \<le> 100" for p
    using assms(1) that by auto
  moreover have "set (update_first q f xs) \<subseteq> set xs \<union> f ` set xs" for q f and xs :: "post list" by (induction xs) auto
  ultimately show ?thesis using assms(2) unfolding rewards_ok_def by blast
qed

lemma feed_step_keeps:
  assumes "zod H Z" "feed_step Z H s s'" "rewards_ok (posts s)"
  shows "rewards_ok (posts s') \<and> (solvent (users s) \<longrightarrow> solvent (users s'))"
  using assms(2)
proof (cases rule: feed_step.cases)
  case (create now newId req)
  show ?thesis
  proof (cases "Z AdminPostCreateBodySchema (hq_body req)")
    case (Some body)
    have "z_opt z_int (z_prop ''coinReward'' body) = None \<or> (\<exists>n. z_opt z_int (z_prop ''coinReward'' body) = Some n \<and> 0 \<le> n \<and> n \<le> 100)"
      by (rule reward_of_body [OF assms(1) Some [unfolded AdminPostCreateBodySchema_def]]) simp_all
    then show ?thesis
      using assms(3) create by (auto simp: admin_posts_create_def Some parsed_def admin_createPost_def post_body_def rewards_ok_def Let_def)
  qed (use assms(3) create in \<open>simp add: admin_posts_create_def parsed_def\<close>)
next
  case (update req)
  show ?thesis
  proof (cases "Z AdminPostUpdateBodySchema (hq_body req)")
    case (Some body)
    have "z_opt z_int (z_prop ''coinReward'' body) = None \<or> (\<exists>n. z_opt z_int (z_prop ''coinReward'' body) = Some n \<and> 0 \<le> n \<and> n \<le> 100)"
      by (rule reward_of_body [OF assms(1) Some [unfolded AdminPostUpdateBodySchema_def]]) simp_all
    then have "rewards_ok (update_first q (apply_post_patch (post_patch_body body)) ps)" if "rewards_ok ps" for q ps
      using rewards_patched [OF _ that, of "post_patch_body body"] by (simp add: post_patch_body_def)
    then show ?thesis
      using assms(3) update by (cases "parseObjectId H (z_prop ''id'' (hq_params req))")
        (auto simp: admin_posts_update_def Some parsed_def admin_updatePost_def findOneAndUpdate_def split: option.splits)
  qed (use assms(3) update in \<open>cases "parseObjectId H (z_prop ''id'' (hq_params req))"; simp add: admin_posts_update_def parsed_def\<close>)
next
  case (delete req)
  have "set (deleteOne q ps) \<subseteq> set ps" for q and ps :: "post list" by (induction ps) auto
  then have d: "rewards_ok (deleteOne q ps)" if "rewards_ok ps" for q ps using that unfolding rewards_ok_def by blast
  show ?thesis
    using assms(3) delete by (cases "parseObjectId H (z_prop ''id'' (hq_params req))") (simp_all add: admin_posts_delete_def admin_deletePost_def d)
next
  case (complete now cid txId req)
  have "posts (snd (completePost_tx i dk rew n c x s)) = posts s" for i dk rew n c x
    by (cases "completed i s") (auto simp: completePost_tx_fresh completePost_tx_again split: option.splits)
  then have "posts (snd (completePost_commit i dk rew n c x s)) = posts s" for i dk rew n c x
    by (auto simp: completePost_commit_def split: sum.splits prod.splits) (metis snd_conv)+
  then have k: "posts (snd (completePost i n c x s)) = posts s" for i n c x by (simp add: completePost_def split: sum.splits)
  have "solvent (users s) \<Longrightarrow> solvent (users (snd (completePost i n c x s)))" for i n c x
  proof (cases "completePost_check i n s")
    case (Inr p)
    have "p \<in> set (posts s)" using Inr by (auto simp: completePost_check_def dest!: findOne_SomeD split: option.splits if_splits)
    then have "0 \<le> p_coinReward p" using assms(3) by (simp add: rewards_ok_def)
    moreover have "users (snd (completePost_commit i dk rew n c x s)) = users (snd (completePost_tx i dk rew n c x s))" for dk rew
      by (auto simp: completePost_commit_def split: sum.splits prod.splits)
    moreover assume "solvent (users s)"
    ultimately show ?thesis using completePost_tx_solvent by (simp add: completePost_def Inr)
  qed (simp add: completePost_def)
  then show ?thesis
    using assms(3) complete by (auto simp: posts_complete_def go_def called_def k split: sum.splits prod.splits)
qed



end
