(* ===== verification/Migrations.thy ===== *)
theory Migrations
  imports Sessions Samples
begin

text \<open>
  The one-off migrations under src/migrations: the tier of votes, pools and codes and the
  subscriptions array of the users (phase 11.0), the rename of tierRequired (phase 11.4), the
  removal of the single-tier fields with the token version (phase 11.5) and the feature flag of
  the tournaments (phase 11.6).

  A migration sees documents of an older shape, so a field can be missing, null or set; the
  records below have the fields a migration reads or writes. \<open>{$exists: false}\<close> matches a
  missing field and \<open>{$ne: v}\<close> everything but the value \<open>v\<close>, a missing field included.
\<close>

section \<open>Phase 11.0: votes, pools and codes\<close>

record backfill_report =
  bf_scanned :: int
  bf_updated :: int
  bf_skipped :: int

record legacy_doc =
  ld_id :: oid
  ld_tier :: "tier bson"
  ld_tierRequired :: "tier bson"

definition set_doc_tier :: "tier \<Rightarrow> legacy_doc \<Rightarrow> legacy_doc" where
  "set_doc_tier t d = d\<lparr>ld_tier := Val t\<rparr>"

definition runBackfillVoteTier :: "legacy_doc list \<Rightarrow> backfill_report \<times> legacy_doc list" where
  "runBackfillVoteTier rows =
     (let scanned = count_docs (\<lambda>v. ld_tier v = Missing) rows;
          (modified, rows') = updateMany (\<lambda>v. ld_tier v = Missing) (set_doc_tier PUBLIC) rows
      in (\<lparr>bf_scanned = scanned, bf_updated = modified, bf_skipped = scanned - modified\<rparr>, rows'))"

definition runBackfillPrizePoolTier :: "legacy_doc list \<Rightarrow> backfill_report \<times> legacy_doc list" where
  "runBackfillPrizePoolTier rows =
     (let scanned = count_docs (\<lambda>v. ld_tier v = Missing) rows;
          (modified, rows') = updateMany (\<lambda>v. ld_tier v = Missing) (set_doc_tier PUBLIC) rows
      in (\<lparr>bf_scanned = scanned, bf_updated = modified, bf_skipped = scanned - modified\<rparr>, rows'))"

record legacy_code =
  lc_id :: oid
  lc_tier :: "tier bson"
  lc_postId :: "oid bson"

record code_backfill_report = backfill_report +
  bf_orphans :: int
  bf_postless :: int

definition untiered :: "legacy_code \<Rightarrow> bool" where
  "untiered c = (lc_tier c = Missing)"

definition set_code_tier :: "tier \<Rightarrow> legacy_code \<Rightarrow> legacy_code" where
  "set_code_tier t c = c\<lparr>lc_tier := Val t\<rparr>"

definition real_post_ids :: "legacy_code list \<Rightarrow> oid list" where
  "real_post_ids codes = remdups (List.map_filter (\<lambda>c. js_read (lc_postId c)) (find_docs untiered codes))"

definition ids_by_tier :: "legacy_doc list \<Rightarrow> tier \<Rightarrow> oid list" where
  "ids_by_tier found t = map ld_id (filter (\<lambda>p. or_default (js_read (ld_tier p)) PUBLIC = t) found)"

definition tier_update :: "oid list \<Rightarrow> tier \<Rightarrow> int \<times> legacy_code list \<Rightarrow> int \<times> legacy_code list" where
  "tier_update ids t acc =
     (if ids = [] then acc
      else (let (n, codes) = updateMany (\<lambda>c. untiered c \<and> js_read (lc_postId c) \<in> Some ` set ids) (set_code_tier t) (snd acc)
            in (fst acc + n, codes)))"

definition runBackfillRedeemCodeTier :: "legacy_doc list \<Rightarrow> legacy_code list \<Rightarrow> code_backfill_report \<times> legacy_code list" where
  "runBackfillRedeemCodeTier parents codes =
     (let scanned = count_docs untiered codes
      in if scanned = 0
         then (\<lparr>bf_scanned = 0, bf_updated = 0, bf_skipped = 0, bf_orphans = 0, bf_postless = 0\<rparr>, codes)
         else
           let realPostIds = real_post_ids codes;
               found = find_docs (\<lambda>p. ld_id p \<in> set realPostIds) parents;
               orphanIds = filter (\<lambda>i. i \<notin> set (map ld_id found)) realPostIds;
               postless = count_docs (\<lambda>c. untiered c \<and> js_read (lc_postId c) = None) codes;
               (u1, codes1) = tier_update (ids_by_tier found PRO) PRO (0, codes);
               (u2, codes2) = tier_update (ids_by_tier found PRO_MAX) PRO_MAX (u1, codes1);
               (u3, codes3) = updateMany untiered (set_code_tier PUBLIC) codes2;
               updated = u2 + u3
           in (\<lparr>bf_scanned = scanned, bf_updated = updated, bf_skipped = scanned - updated,
                bf_orphans = int (length orphanIds), bf_postless = postless\<rparr>, codes3))"

section \<open>Phase 11.0: the subscriptions of the users\<close>

record legacy_entry =
  le_tier :: "tier bson"
  le_status :: entry_status
  le_subscriptionId :: oid
  le_expiresAt :: "date option"

record legacy_user =
  lu_id :: oid
  lu_tier :: "tier bson"
  lu_activeSubscriptionId :: "oid bson"
  lu_tierExpiresAt :: "date bson"
  lu_subscriptions :: "legacy_entry list bson"
  lu_tokenVersion :: "int bson"

fun mapSubscriptionStatusForBackfill :: "sub_status \<Rightarrow> date option \<Rightarrow> date \<Rightarrow> entry_status option" where
  "mapSubscriptionStatusForBackfill S_ACTIVE tierExpiresAt now = Some E_ACTIVE"
| "mapSubscriptionStatusForBackfill S_CANCELLED tierExpiresAt now =
     Some (case tierExpiresAt of None \<Rightarrow> E_CANCELLED | Some d \<Rightarrow> if d > now then E_ACTIVE else E_CANCELLED)"
| "mapSubscriptionStatusForBackfill S_HALTED tierExpiresAt now = Some E_CANCELLED"
| "mapSubscriptionStatusForBackfill S_PAUSED tierExpiresAt now = Some E_CANCELLED"
| "mapSubscriptionStatusForBackfill S_COMPLETED tierExpiresAt now = Some E_EXPIRED"
| "mapSubscriptionStatusForBackfill S_CREATED tierExpiresAt now = None"
| "mapSubscriptionStatusForBackfill S_AUTHENTICATED tierExpiresAt now = None"
| "mapSubscriptionStatusForBackfill S_PENDING tierExpiresAt now = None"

record user_backfill_report = backfill_report +
  bf_anomalyUsers :: "oid list"

definition already_present :: "legacy_user \<Rightarrow> bool" where
  "already_present user =
     (case lu_subscriptions user of Val es \<Rightarrow> list_ex (\<lambda>e. le_tier e = lu_tier user) es | _ \<Rightarrow> False)"

text \<open>What the loop decides for a user: skip it, report it, or push an entry.\<close>

datatype backfill_decision = Skip_User | Anomaly | Push_Entry legacy_entry

definition backfill_decide :: "subscription list \<Rightarrow> date \<Rightarrow> legacy_user \<Rightarrow> backfill_decision" where
  "backfill_decide subs now user =
     (if already_present user then Skip_User
      else
        (case js_read (lu_activeSubscriptionId user) of
           None \<Rightarrow> Anomaly
         | Some sid \<Rightarrow>
             (case findOne (\<lambda>s. s_id s = sid) subs of
                None \<Rightarrow> Anomaly
              | Some sub \<Rightarrow>
                  (case mapSubscriptionStatusForBackfill (s_status sub) (js_read (lu_tierExpiresAt user)) now of
                     None \<Rightarrow> Skip_User
                   | Some mapped \<Rightarrow>
                       Push_Entry \<lparr>le_tier = lu_tier user, le_status = mapped, le_subscriptionId = s_id sub,
                                   le_expiresAt = js_read (lu_tierExpiresAt user)\<rparr>))))"

text \<open>\<open>$push\<close> makes the array when the field is missing and is an error when it is null.\<close>

definition push_entry :: "legacy_entry \<Rightarrow> legacy_user \<Rightarrow> legacy_user" where
  "push_entry e u = u\<lparr>lu_subscriptions := Val (or_default (js_read (lu_subscriptions u)) [] @ [e])\<rparr>"

fun backfill_loop ::
  "subscription list \<Rightarrow> date \<Rightarrow> legacy_user list \<Rightarrow> user_backfill_report \<Rightarrow> legacy_user list
   \<Rightarrow> (app_error + user_backfill_report) \<times> legacy_user list" where
  "backfill_loop subs now [] report us = (Inr report, us)"
| "backfill_loop subs now (user # rest) report us =
     (case backfill_decide subs now user of
        Skip_User \<Rightarrow> backfill_loop subs now rest (report\<lparr>bf_skipped := bf_skipped report + 1\<rparr>) us
      | Anomaly \<Rightarrow>
          backfill_loop subs now rest
            (report\<lparr>bf_skipped := bf_skipped report + 1, bf_anomalyUsers := bf_anomalyUsers report @ [lu_id user]\<rparr>) us
      | Push_Entry e \<Rightarrow>
          if exists_doc (\<lambda>u. lu_id u = lu_id user \<and> lu_subscriptions u = Null) us then (Inl (InternalError ''INTERNAL''), us)
          else backfill_loop subs now rest (report\<lparr>bf_updated := bf_updated report + 1\<rparr>)
                 (snd (updateOne (\<lambda>u. lu_id u = lu_id user) (push_entry e) us)))"

definition runBackfillUserSubscriptions ::
  "subscription list \<Rightarrow> date \<Rightarrow> legacy_user list \<Rightarrow> (app_error + user_backfill_report) \<times> legacy_user list" where
  "runBackfillUserSubscriptions subs now us =
     (let candidates = find_docs (\<lambda>u. lu_tier u \<noteq> Val PUBLIC) us
      in backfill_loop subs now candidates
           \<lparr>bf_scanned = int (length candidates), bf_updated = 0, bf_skipped = 0, bf_anomalyUsers = []\<rparr> us)"

section \<open>Phases 11.4, 11.5 and 11.6\<close>

definition rename_tier :: "legacy_doc \<Rightarrow> legacy_doc" where
  "rename_tier d = d\<lparr>ld_tier := ld_tierRequired d, ld_tierRequired := Missing\<rparr>"

definition renameForCollection :: "legacy_doc list \<Rightarrow> backfill_report \<times> legacy_doc list" where
  "renameForCollection docs =
     (let flt = (\<lambda>d. ld_tier d = Missing \<and> ld_tierRequired d \<noteq> Missing);
          scanned = count_docs flt docs
      in if scanned = 0 then (\<lparr>bf_scanned = 0, bf_updated = 0, bf_skipped = 0\<rparr>, docs)
         else (let (modified, docs') = updateMany flt rename_tier docs
               in (\<lparr>bf_scanned = scanned, bf_updated = modified, bf_skipped = scanned - modified\<rparr>, docs')))"

record phase115_report =
  p5_scanned :: int
  p5_tokenVersionAdded :: int
  p5_legacyDropped :: int

definition drop_legacy :: "legacy_user \<Rightarrow> legacy_user" where
  "drop_legacy u = u\<lparr>lu_tokenVersion := Val (or_default (js_read (lu_tokenVersion u)) 1),
     lu_tier := Missing, lu_tierExpiresAt := Missing, lu_activeSubscriptionId := Missing\<rparr>"

definition runPhase115Backfill :: "legacy_user list \<Rightarrow> phase115_report \<times> legacy_user list" where
  "runPhase115Backfill us =
     (let total = count_docs (\<lambda>_. True) us;
          needsTokenVersion = count_docs (\<lambda>u. lu_tokenVersion u = Missing) us;
          hasLegacy = count_docs (\<lambda>u. lu_tier u \<noteq> Missing \<or> lu_tierExpiresAt u \<noteq> Missing \<or> lu_activeSubscriptionId u \<noteq> Missing) us
      in if needsTokenVersion = 0 \<and> hasLegacy = 0
         then (\<lparr>p5_scanned = total, p5_tokenVersionAdded = 0, p5_legacyDropped = 0\<rparr>, us)
         else (\<lparr>p5_scanned = total, p5_tokenVersionAdded = needsTokenVersion, p5_legacyDropped = hasLegacy\<rparr>,
               snd (updateMany (\<lambda>_. True) drop_legacy us)))"

record bump_report =
  bu_matched :: int
  bu_modified :: int

definition runBumpTokenVersions :: "'r auth_state \<Rightarrow> bump_report \<times> 'r auth_state" where
  "runBumpTokenVersions st =
     (let us = users (au_db st);
          (modified, us') = updateMany (\<lambda>_. True) (\<lambda>u. u\<lparr>u_tokenVersion := u_tokenVersion u + 1\<rparr>) us
      in (\<lparr>bu_matched = count_docs (\<lambda>_. True) us, bu_modified = modified\<rparr>, st\<lparr>au_db := (au_db st)\<lparr>users := us'\<rparr>\<rparr>))"

text \<open>The configuration row a schema default makes.\<close>

definition default_config :: app_config where
  "default_config =
     \<lparr>cfg_key = ''default'', cfg_baseRatePerVote = 100, cfg_signupBonusCoins = 3, cfg_coinsPerPost = 1, cfg_coinsPerVote = 3,
      cfg_giftCodeDenomination = 5000, cfg_proMultiplier = 5, cfg_proMaxMultiplier = 10, cfg_voteWindowStart = ''00:00'',
      cfg_voteWindowEnd = ''23:59'', cfg_blockedStates = [], cfg_kycThresholdAmount = 1000000, cfg_ageMin = 18,
      cfg_maintenanceMode = False, cfg_tournaments = False, cfg_planIdPro = None, cfg_planIdProMax = None, cfg_adminIpAllowlist = []\<rparr>"

record flag_report =
  fl_matched :: int
  fl_modified :: int
  fl_upserted :: bool

text \<open>The update stamps \<open>updatedAt\<close>, so a matched row counts as modified.\<close>

definition runEnableTournamentsDev :: "app_config list \<Rightarrow> flag_report \<times> app_config list" where
  "runEnableTournamentsDev cfgs =
     (if exists_doc (\<lambda>c. cfg_key c = ''default'') cfgs
      then (\<lparr>fl_matched = 1, fl_modified = 1, fl_upserted = False\<rparr>,
            snd (updateOne (\<lambda>c. cfg_key c = ''default'') (\<lambda>c. c\<lparr>cfg_tournaments := True\<rparr>) cfgs))
      else (\<lparr>fl_matched = 0, fl_modified = 0, fl_upserted = True\<rparr>, cfgs @ [default_config\<lparr>cfg_tournaments := True\<rparr>]))"

section \<open>Counting what an update changes\<close>

lemma updateMany_all:
  assumes "\<And>x. p x \<Longrightarrow> f x \<noteq> x"
  shows "updateMany p f xs = (count_docs p xs, map (\<lambda>x. if p x then f x else x) xs)"
proof -
  have "filter (\<lambda>x. p x \<and> f x \<noteq> x) xs = filter p xs" using assms by (intro filter_cong) auto
  then show ?thesis by (simp add: updateMany_def count_docs_def)
qed

lemma count_docs_simps [simp]: "count_docs p [] = 0" "count_docs p (x # xs) = (if p x then 1 else 0) + count_docs p xs"
  by (simp_all add: count_docs_def)

lemma count_docs_zero: "count_docs p xs = 0 \<longleftrightarrow> (\<forall>x \<in> set xs. \<not> p x)"
  by (simp add: count_docs_def filter_empty_conv)

lemma count_docs_map: "count_docs p (map f xs) = count_docs (\<lambda>x. p (f x)) xs"
  by (induction xs) simp_all

lemma count_docs_split: "count_docs p xs = count_docs (\<lambda>x. p x \<and> q x) xs + count_docs (\<lambda>x. p x \<and> \<not> q x) xs"
  by (induction xs) auto

lemma set_code_tier_simps [simp]: "untiered (set_code_tier t c) = False" "lc_postId (set_code_tier t c) = lc_postId c"
  by (simp_all add: untiered_def set_code_tier_def)

lemma set_code_tier_changes: "untiered c \<Longrightarrow> set_code_tier t c \<noteq> c"
  by (metis set_code_tier_simps(1))

section \<open>The tier of a code\<close>

text \<open>What the migration is to write: the tier of the post, PUBLIC without one.\<close>

definition parent_tier :: "legacy_doc list \<Rightarrow> legacy_code \<Rightarrow> tier" where
  "parent_tier parents c =
     (case js_read (lc_postId c) of
        None \<Rightarrow> PUBLIC
      | Some i \<Rightarrow> (case findOne (\<lambda>p. ld_id p = i) parents of None \<Rightarrow> PUBLIC | Some p \<Rightarrow> or_default (js_read (ld_tier p)) PUBLIC))"

lemma tier_update_eq:
  "tier_update ids t (n, codes) =
     (n + count_docs (\<lambda>c. untiered c \<and> js_read (lc_postId c) \<in> Some ` set ids) codes,
      map (\<lambda>c. if untiered c \<and> js_read (lc_postId c) \<in> Some ` set ids then set_code_tier t c else c) codes)"
proof (cases "ids = []")
  case False
  have "updateMany (\<lambda>c. untiered c \<and> js_read (lc_postId c) \<in> Some ` set ids) (set_code_tier t) codes =
     (count_docs (\<lambda>c. untiered c \<and> js_read (lc_postId c) \<in> Some ` set ids) codes,
      map (\<lambda>c. if untiered c \<and> js_read (lc_postId c) \<in> Some ` set ids then set_code_tier t c else c) codes)"
    by (rule updateMany_all) (simp add: set_code_tier_changes)
  then show ?thesis using False by (simp add: tier_update_def)
qed (simp add: tier_update_def count_docs_def)

lemma ids_by_tier_iff:
  assumes "distinct (map ld_id parents)" "untiered c" "c \<in> set codes" "t \<noteq> PUBLIC"
  shows "js_read (lc_postId c) \<in> Some ` set (ids_by_tier (find_docs (\<lambda>p. ld_id p \<in> set (real_post_ids codes)) parents) t) \<longleftrightarrow> parent_tier parents c = t"
proof (cases "js_read (lc_postId c)")
  case None
  then show ?thesis using assms(4) by (auto simp: parent_tier_def)
next
  case (Some i)
  then have "i \<in> set (real_post_ids codes)"
    using assms(2,3) by (force simp: real_post_ids_def find_docs_def List.map_filter_def)
  then have "js_read (lc_postId c) \<in> Some ` set (ids_by_tier (find_docs (\<lambda>p. ld_id p \<in> set (real_post_ids codes)) parents) t) \<longleftrightarrow>
      (\<exists>p \<in> set parents. ld_id p = i \<and> or_default (js_read (ld_tier p)) PUBLIC = t)"
    unfolding Some ids_by_tier_def find_docs_def by auto
  also have "\<dots> \<longleftrightarrow> parent_tier parents c = t"
  proof (cases "findOne (\<lambda>p. ld_id p = i) parents")
    case None
    then show ?thesis using findOne_NoneD [OF None] assms(4) by (auto simp: parent_tier_def Some)
  next
    case (Some p)
    then have p: "p \<in> set parents" "ld_id p = i" using findOne_SomeD by fastforce+
    have "q = p" if "q \<in> set parents" "ld_id q = i" for q using distinct_map_eq [OF assms(1) that(1) p(1)] that(2) p(2) by simp
    then have "(\<exists>q \<in> set parents. ld_id q = i \<and> or_default (js_read (ld_tier q)) PUBLIC = t) \<longleftrightarrow> or_default (js_read (ld_tier p)) PUBLIC = t"
      using p by blast
    then show ?thesis by (simp only: parent_tier_def \<open>js_read (lc_postId c) = Some i\<close> Some option.case)
  qed
  finally show ?thesis .
qed

lemma untiered_after: "count_docs untiered xs = count_docs (\<lambda>c. untiered c \<and> Q c) xs +
    count_docs untiered (map (\<lambda>c. if untiered c \<and> Q c then set_code_tier t c else c) xs)"
  by (induction xs) auto

lemma redeem_backfill_result:
  assumes "distinct (map ld_id parents)"
  shows "snd (runBackfillRedeemCodeTier parents codes) = map (\<lambda>c. if untiered c then set_code_tier (parent_tier parents c) c else c) codes"
    and "bf_scanned (fst (runBackfillRedeemCodeTier parents codes)) = count_docs untiered codes"
    and "bf_updated (fst (runBackfillRedeemCodeTier parents codes)) = count_docs untiered codes"
    and "bf_skipped (fst (runBackfillRedeemCodeTier parents codes)) = 0"
proof -
  let ?found = "find_docs (\<lambda>p. ld_id p \<in> set (real_post_ids codes)) parents"
  let ?has = "\<lambda>t c. untiered c \<and> js_read (lc_postId c) \<in> Some ` set (ids_by_tier ?found t)"
  let ?f = "\<lambda>c. if ?has PRO c then set_code_tier PRO c else c"
  let ?g = "\<lambda>c. if ?has PRO_MAX c then set_code_tier PRO_MAX c else c"
  let ?h = "\<lambda>c. if untiered c then set_code_tier PUBLIC c else c"
  have iff: "?has t c \<longleftrightarrow> untiered c \<and> parent_tier parents c = t" if "c \<in> set codes" "t \<noteq> PUBLIC" for t c
    using ids_by_tier_iff [OF assms _ that] by blast
  have step: "(if untiered c then set_code_tier (parent_tier parents c) c else c) = ?h (?g (?f c))" if "c \<in> set codes" for c
    using iff [OF that, of PRO] iff [OF that, of PRO_MAX] by (cases "parent_tier parents c") auto
  have three: "updateMany untiered (set_code_tier PUBLIC) xs = (count_docs untiered xs, map ?h xs)" for xs
    by (rule updateMany_all) (rule set_code_tier_changes)
  have all: "map (\<lambda>c. if untiered c then set_code_tier (parent_tier parents c) c else c) codes = map ?h (map ?g (map ?f codes))"
    using step by simp
  have parts: "count_docs untiered codes = count_docs (?has PRO) codes + count_docs (?has PRO_MAX) (map ?f codes) + count_docs untiered (map ?g (map ?f codes))"
  proof -
    note a = untiered_after
    show ?thesis
      using a [of codes "\<lambda>c. js_read (lc_postId c) \<in> Some ` set (ids_by_tier ?found PRO)" PRO]
        a [of "map ?f codes" "\<lambda>c. js_read (lc_postId c) \<in> Some ` set (ids_by_tier ?found PRO_MAX)" PRO_MAX] by linarith
  qed
  have run: "runBackfillRedeemCodeTier parents codes =
      (if count_docs untiered codes = 0 then (\<lparr>bf_scanned = 0, bf_updated = 0, bf_skipped = 0, bf_orphans = 0, bf_postless = 0\<rparr>, codes)
       else (\<lparr>bf_scanned = count_docs untiered codes,
          bf_updated = count_docs (?has PRO) codes + count_docs (?has PRO_MAX) (map ?f codes) + count_docs untiered (map ?g (map ?f codes)),
          bf_skipped = count_docs untiered codes - (count_docs (?has PRO) codes + count_docs (?has PRO_MAX) (map ?f codes) + count_docs untiered (map ?g (map ?f codes))),
          bf_orphans = int (length (filter (\<lambda>i. i \<notin> set (map ld_id ?found)) (real_post_ids codes))),
          bf_postless = count_docs (\<lambda>c. untiered c \<and> js_read (lc_postId c) = None) codes\<rparr>,
        map ?h (map ?g (map ?f codes))))"
    unfolding runBackfillRedeemCodeTier_def Let_def tier_update_eq prod.case three by (simp only: add_0)
  have none: "map (\<lambda>c. if untiered c then set_code_tier (parent_tier parents c) c else c) codes = codes" if "count_docs untiered codes = 0"
    using that unfolding count_docs_zero by (intro map_idI) auto
  show "snd (runBackfillRedeemCodeTier parents codes) = map (\<lambda>c. if untiered c then set_code_tier (parent_tier parents c) c else c) codes"
    unfolding run using none all by (cases "count_docs untiered codes = 0") (simp_all only: if_True if_False snd_conv simp_thms)
  show "bf_scanned (fst (runBackfillRedeemCodeTier parents codes)) = count_docs untiered codes"
    and "bf_updated (fst (runBackfillRedeemCodeTier parents codes)) = count_docs untiered codes"
    and "bf_skipped (fst (runBackfillRedeemCodeTier parents codes)) = 0"
    unfolding run parts [symmetric] by simp_all
qed

text \<open>
  After the backfill every code has a tier: the one it had, that of its post, or PUBLIC. The
  report counts every code it changed, and a second run finds nothing. The number of orphans
  it reports is the number of missing parents, which can be smaller than that of orphaned codes.
\<close>

theorem redeem_backfill_effect:
  assumes "distinct (map ld_id parents)"
  shows "snd (runBackfillRedeemCodeTier parents codes) = map (\<lambda>c. if untiered c then set_code_tier (parent_tier parents c) c else c) codes \<and>
    bf_updated (fst (runBackfillRedeemCodeTier parents codes)) = count_docs untiered codes \<and>
    bf_skipped (fst (runBackfillRedeemCodeTier parents codes)) = 0 \<and>
    bf_scanned (fst (runBackfillRedeemCodeTier parents (snd (runBackfillRedeemCodeTier parents codes)))) = 0 \<and>
    bf_orphans (fst (runBackfillRedeemCodeTier [] [\<lparr>lc_id = 1, lc_tier = Missing, lc_postId = Val p\<rparr>, \<lparr>lc_id = 2, lc_tier = Missing, lc_postId = Val p\<rparr>])) = 1"
proof -
  have "count_docs untiered (snd (runBackfillRedeemCodeTier parents codes)) = 0"
    unfolding redeem_backfill_result(1) [OF assms] count_docs_zero by auto
  moreover have "bf_orphans (fst (runBackfillRedeemCodeTier [] [\<lparr>lc_id = 1, lc_tier = Missing, lc_postId = Val p\<rparr>, \<lparr>lc_id = 2, lc_tier = Missing, lc_postId = Val p\<rparr>])) = 1"
    by (simp add: runBackfillRedeemCodeTier_def Let_def untiered_def real_post_ids_def find_docs_def List.map_filter_def ids_by_tier_def
        tier_update_def updateMany_def split: prod.splits)
  ultimately show ?thesis using redeem_backfill_result [OF assms] by simp
qed

theorem redeem_backfill_effect_witness:
  "snd (runBackfillRedeemCodeTier [\<lparr>ld_id = 7, ld_tier = Val PRO, ld_tierRequired = Missing\<rparr>]
     [\<lparr>lc_id = 1, lc_tier = Missing, lc_postId = Val 7\<rparr>, \<lparr>lc_id = 2, lc_tier = Missing, lc_postId = Null\<rparr>]) =
     [\<lparr>lc_id = 1, lc_tier = Val PRO, lc_postId = Val 7\<rparr>, \<lparr>lc_id = 2, lc_tier = Val PUBLIC, lc_postId = Null\<rparr>]"
  using redeem_backfill_effect [of "[\<lparr>ld_id = 7, ld_tier = Val PRO, ld_tierRequired = Missing\<rparr>]"
      "[\<lparr>lc_id = 1, lc_tier = Missing, lc_postId = Val 7\<rparr>, \<lparr>lc_id = 2, lc_tier = Missing, lc_postId = Null\<rparr>]" 7]
  by (simp add: untiered_def set_code_tier_def parent_tier_def findOne_def)

section \<open>The subscriptions array\<close>

definition pushes :: "subscription list \<Rightarrow> date \<Rightarrow> legacy_user \<Rightarrow> bool" where
  "pushes subs now u = (case backfill_decide subs now u of Push_Entry _ \<Rightarrow> True | _ \<Rightarrow> False)"

definition backfilled :: "subscription list \<Rightarrow> date \<Rightarrow> legacy_user \<Rightarrow> legacy_user" where
  "backfilled subs now u = (case backfill_decide subs now u of Push_Entry e \<Rightarrow> push_entry e u | _ \<Rightarrow> u)"

lemma push_entry_simps [simp]: "lu_id (push_entry e u) = lu_id u" "lu_tier (push_entry e u) = lu_tier u"
  "lu_subscriptions (push_entry e u) \<noteq> Null"
  by (simp_all add: push_entry_def)

lemma backfilled_simps [simp]: "lu_id (backfilled subs now u) = lu_id u" "lu_tier (backfilled subs now u) = lu_tier u"
  by (simp_all add: backfilled_def split: backfill_decision.splits)

lemma backfill_loop_result:
  assumes "distinct (map lu_id us)" "distinct (map lu_id cs)" "set cs \<subseteq> set us" "\<forall>u \<in> set us. lu_subscriptions u \<noteq> Null"
  shows "\<exists>rep. backfill_loop subs now cs report us = (Inr rep, map (\<lambda>u. if u \<in> set cs then backfilled subs now u else u) us) \<and>
    bf_scanned rep = bf_scanned report \<and> bf_updated rep = bf_updated report + count_docs (pushes subs now) cs \<and>
    bf_skipped rep = bf_skipped report + count_docs (\<lambda>u. \<not> pushes subs now u) cs \<and>
    bf_anomalyUsers rep = bf_anomalyUsers report @ map lu_id (filter (\<lambda>u. backfill_decide subs now u = Anomaly) cs)"
  using assms
proof (induction cs arbitrary: report us)
  case (Cons c cs)
  have c: "c \<in> set us" "c \<notin> set cs" using Cons.prems by auto
  have same: "u = c" if "u \<in> set us" "lu_id u = lu_id c" for u using distinct_map_eq [OF Cons.prems(1) that(1) c(1) that(2)] .
  have rest: "distinct (map lu_id cs)" "set cs \<subseteq> set us" using Cons.prems by simp_all
  have keep: "map (\<lambda>u. if u \<in> set cs then backfilled subs now u else u) us =
      map (\<lambda>u. if u \<in> set (c # cs) then backfilled subs now u else u) us" if "backfilled subs now c = c"
    by (rule map_cong [OF refl]) (use that in auto)
  show ?case
  proof (cases "backfill_decide subs now c")
    case Skip_User
    from Cons.IH [OF Cons.prems(1) rest Cons.prems(4), of "report\<lparr>bf_skipped := bf_skipped report + 1\<rparr>"] obtain rep
      where "backfill_loop subs now cs (report\<lparr>bf_skipped := bf_skipped report + 1\<rparr>) us =
          (Inr rep, map (\<lambda>u. if u \<in> set cs then backfilled subs now u else u) us)"
        "bf_scanned rep = bf_scanned report" "bf_updated rep = bf_updated report + count_docs (pushes subs now) cs"
        "bf_skipped rep = bf_skipped report + 1 + count_docs (\<lambda>u. \<not> pushes subs now u) cs"
        "bf_anomalyUsers rep = bf_anomalyUsers report @ map lu_id (filter (\<lambda>u. backfill_decide subs now u = Anomaly) cs)" by auto
    moreover have "\<not> pushes subs now c" "backfilled subs now c = c" using Skip_User by (simp_all add: pushes_def backfilled_def)
    ultimately show ?thesis using keep Skip_User by simp
  next
    case Anomaly
    let ?r = "report\<lparr>bf_skipped := bf_skipped report + 1, bf_anomalyUsers := bf_anomalyUsers report @ [lu_id c]\<rparr>"
    from Cons.IH [OF Cons.prems(1) rest Cons.prems(4), of ?r] obtain rep
      where "backfill_loop subs now cs ?r us = (Inr rep, map (\<lambda>u. if u \<in> set cs then backfilled subs now u else u) us)"
        "bf_scanned rep = bf_scanned report" "bf_updated rep = bf_updated report + count_docs (pushes subs now) cs"
        "bf_skipped rep = bf_skipped report + 1 + count_docs (\<lambda>u. \<not> pushes subs now u) cs"
        "bf_anomalyUsers rep = bf_anomalyUsers report @ lu_id c # map lu_id (filter (\<lambda>u. backfill_decide subs now u = Anomaly) cs)" by auto
    moreover have "\<not> pushes subs now c" "backfilled subs now c = c" using Anomaly by (simp_all add: pushes_def backfilled_def)
    ultimately show ?thesis using keep Anomaly by simp
  next
    case (Push_Entry e)
    let ?r = "report\<lparr>bf_updated := bf_updated report + 1\<rparr>"
    let ?us = "map (\<lambda>u. if lu_id u = lu_id c then push_entry e u else u) us"
    have upd: "snd (updateOne (\<lambda>u. lu_id u = lu_id c) (push_entry e) us) = ?us"
      by (simp add: updateOne_def update_first_key [OF Cons.prems(1)])
    have no_null: "\<not> exists_doc (\<lambda>u. lu_id u = lu_id c \<and> lu_subscriptions u = Null) us"
      using Cons.prems(4) findOne_SomeD by (fastforce simp: exists_doc_def)
    have ids: "map lu_id ?us = map lu_id us" by simp
    have sub: "set cs \<subseteq> set ?us"
    proof
      fix u assume u: "u \<in> set cs"
      have "lu_id c \<notin> lu_id ` set cs" using Cons.prems(2) by simp
      then have "lu_id u \<noteq> lu_id c" using u by (metis image_eqI)
      then show "u \<in> set ?us" using u rest(2) by force
    qed
    have nn: "\<forall>u \<in> set ?us. lu_subscriptions u \<noteq> Null" using Cons.prems(4) by auto
    have dist: "distinct (map lu_id ?us)" using Cons.prems(1) ids by (simp only:)
    from Cons.IH [OF dist rest(1) sub nn, of ?r] obtain rep
      where rep: "backfill_loop subs now cs ?r ?us = (Inr rep, map (\<lambda>u. if u \<in> set cs then backfilled subs now u else u) ?us)"
        "bf_scanned rep = bf_scanned report" "bf_updated rep = bf_updated report + 1 + count_docs (pushes subs now) cs"
        "bf_skipped rep = bf_skipped report + count_docs (\<lambda>u. \<not> pushes subs now u) cs"
        "bf_anomalyUsers rep = bf_anomalyUsers report @ map lu_id (filter (\<lambda>u. backfill_decide subs now u = Anomaly) cs)"
      by (auto simp del: map_map)
    have out: "map (\<lambda>u. if u \<in> set cs then backfilled subs now u else u) ?us =
        map (\<lambda>u. if u \<in> set (c # cs) then backfilled subs now u else u) us"
    proof (unfold map_map comp_def, rule map_cong [OF refl])
      fix u assume u: "u \<in> set us"
      show "(if (if lu_id u = lu_id c then push_entry e u else u) \<in> set cs
          then backfilled subs now (if lu_id u = lu_id c then push_entry e u else u) else (if lu_id u = lu_id c then push_entry e u else u)) =
        (if u \<in> set (c # cs) then backfilled subs now u else u)"
      proof (cases "lu_id u = lu_id c")
        case True
        then have "u = c" by (rule same [OF u])
        moreover have "push_entry e c \<notin> set cs" using Cons.prems(2) push_entry_simps(1) [of e c] by (auto simp: image_iff)
        ultimately show ?thesis using Push_Entry by (simp add: backfilled_def)
      qed auto
    qed
    have "pushes subs now c" using Push_Entry by (simp add: pushes_def)
    then show ?thesis using rep no_null upd Push_Entry out by simp
  qed
qed simp

lemma mapped_none_later: "mapSubscriptionStatusForBackfill st d now = None \<longleftrightarrow> mapSubscriptionStatusForBackfill st d later = None"
  by (cases st) simp_all

lemma not_pushed: "\<not> pushes subs now u \<Longrightarrow> backfilled subs now u = u"
  by (simp add: pushes_def backfilled_def split: backfill_decision.splits)

lemma skipped_later:
  assumes "backfill_decide subs now u = Skip_User"
  shows "backfill_decide subs later u = Skip_User"
proof (cases "already_present u")
  case False
  obtain sid where sid: "js_read (lu_activeSubscriptionId u) = Some sid"
    using assms False by (auto simp: backfill_decide_def split: option.splits)
  obtain sub where sub: "findOne (\<lambda>s. s_id s = sid) subs = Some sub"
    using assms False sid by (auto simp: backfill_decide_def split: option.splits)
  have "mapSubscriptionStatusForBackfill (s_status sub) (js_read (lu_tierExpiresAt u)) now = None"
    using assms False sid sub by (auto simp: backfill_decide_def split: option.splits)
  then show ?thesis using sid sub mapped_none_later [of "s_status sub" _ now later] by (simp add: backfill_decide_def)
qed (simp add: backfill_decide_def)

lemma backfilled_settled: "\<not> pushes subs later (backfilled subs now u)"
proof (cases "backfill_decide subs now u")
  case (Push_Entry e)
  then have "le_tier e = lu_tier u"
    by (auto simp: backfill_decide_def split: if_splits option.splits)
  then have "already_present (push_entry e u)" by (simp add: already_present_def push_entry_def)
  then show ?thesis using Push_Entry by (simp add: backfilled_def pushes_def backfill_decide_def)
next
  case Skip_User
  then show ?thesis using skipped_later [OF Skip_User, of later] by (simp add: backfilled_def pushes_def)
next
  case Anomaly
  then show ?thesis
    by (auto simp: backfilled_def pushes_def backfill_decide_def split: if_splits option.splits)
qed

lemma user_backfill_result:
  assumes "distinct (map lu_id us)" "\<forall>u \<in> set us. lu_subscriptions u \<noteq> Null"
  shows "\<exists>rep. runBackfillUserSubscriptions subs now us =
      (Inr rep, map (\<lambda>u. if lu_tier u \<noteq> Val PUBLIC then backfilled subs now u else u) us) \<and>
    bf_scanned rep = count_docs (\<lambda>u. lu_tier u \<noteq> Val PUBLIC) us \<and>
    bf_updated rep = count_docs (pushes subs now) (filter (\<lambda>u. lu_tier u \<noteq> Val PUBLIC) us) \<and>
    bf_scanned rep = bf_updated rep + bf_skipped rep \<and>
    bf_anomalyUsers rep = map lu_id (filter (\<lambda>u. backfill_decide subs now u = Anomaly) (filter (\<lambda>u. lu_tier u \<noteq> Val PUBLIC) us))"
proof -
  let ?cs = "filter (\<lambda>u. lu_tier u \<noteq> Val PUBLIC) us"
  let ?r = "\<lparr>bf_scanned = int (length ?cs), bf_updated = 0, bf_skipped = 0, bf_anomalyUsers = []\<rparr>"
  have d: "distinct (map lu_id ?cs)" using assms(1) by (rule distinct_map_filter)
  obtain rep where rep: "backfill_loop subs now ?cs ?r us = (Inr rep, map (\<lambda>u. if u \<in> set ?cs then backfilled subs now u else u) us)"
      "bf_scanned rep = int (length ?cs)" "bf_updated rep = count_docs (pushes subs now) ?cs"
      "bf_skipped rep = count_docs (\<lambda>u. \<not> pushes subs now u) ?cs"
      "bf_anomalyUsers rep = map lu_id (filter (\<lambda>u. backfill_decide subs now u = Anomaly) ?cs)"
    using backfill_loop_result [OF assms(1) d _ assms(2), of subs now ?r] by auto
  have m: "map (\<lambda>u. if u \<in> set ?cs then backfilled subs now u else u) us =
      map (\<lambda>u. if lu_tier u \<noteq> Val PUBLIC then backfilled subs now u else u) us"
    by (rule map_cong [OF refl]) simp
  have "count_docs (\<lambda>_. True) ?cs = count_docs (pushes subs now) ?cs + count_docs (\<lambda>u. \<not> pushes subs now u) ?cs"
    using count_docs_split [of "\<lambda>_. True" ?cs "pushes subs now"] by simp
  then have "int (length ?cs) = count_docs (pushes subs now) ?cs + count_docs (\<lambda>u. \<not> pushes subs now u) ?cs"
    by (simp add: count_docs_def)
  moreover have "runBackfillUserSubscriptions subs now us = backfill_loop subs now ?cs ?r us"
    by (simp add: runBackfillUserSubscriptions_def find_docs_def Let_def)
  ultimately show ?thesis using rep by (simp add: m count_docs_def)
qed

definition sample_legacy :: "oid \<Rightarrow> tier bson \<Rightarrow> oid bson \<Rightarrow> legacy_user" where
  "sample_legacy i t sid = \<lparr>lu_id = i, lu_tier = t, lu_activeSubscriptionId = sid, lu_tierExpiresAt = Val 5,
     lu_subscriptions = Missing, lu_tokenVersion = Missing\<rparr>"

text \<open>C28: 
  The backfill pushes at most one entry to a user, for the legacy tier and the subscription
  the user points to, leaves everybody else alone and accounts for every user it scanned; a
  second run, at any time, changes nothing.
\<close>

theorem user_backfill_effect:
  assumes "distinct (map lu_id us)" "\<forall>u \<in> set us. lu_subscriptions u \<noteq> Null"
  shows "\<exists>rep us'. runBackfillUserSubscriptions subs now us = (Inr rep, us') \<and>
    us' = map (\<lambda>u. if lu_tier u \<noteq> Val PUBLIC then backfilled subs now u else u) us \<and>
    bf_scanned rep = bf_updated rep + bf_skipped rep \<and>
    (\<exists>rep'. runBackfillUserSubscriptions subs later us' = (Inr rep', us') \<and> bf_updated rep' = 0)"
proof -
  let ?us = "map (\<lambda>u. if lu_tier u \<noteq> Val PUBLIC then backfilled subs now u else u) us"
  have ids: "map lu_id ?us = map lu_id us" by simp
  have nn: "\<forall>u \<in> set ?us. lu_subscriptions u \<noteq> Null"
    using assms(2) by (auto simp: backfilled_def split: backfill_decision.splits)
  have no: "\<not> pushes subs later u" if "u \<in> set ?us" "lu_tier u \<noteq> Val PUBLIC" for u
    using that backfilled_settled by (auto split: if_splits)
  then have "map (\<lambda>u. if lu_tier u \<noteq> Val PUBLIC then backfilled subs later u else u) ?us = ?us"
    using not_pushed by (intro map_idI) (simp del: set_map)
  moreover have "count_docs (pushes subs later) (filter (\<lambda>u. lu_tier u \<noteq> Val PUBLIC) ?us) = 0"
    unfolding count_docs_zero using no by auto
  moreover have "distinct (map lu_id ?us)" using assms(1) ids by (simp only:)
  ultimately have "\<exists>rep'. runBackfillUserSubscriptions subs later ?us = (Inr rep', ?us) \<and> bf_updated rep' = 0"
    using user_backfill_result [of ?us subs later] nn by (simp only:) blast
  then show ?thesis using user_backfill_result [OF assms, of subs now] by blast
qed

theorem user_backfill_effect_witness:
  "\<exists>rep us'. runBackfillUserSubscriptions [] 0 [sample_legacy 1 (Val PUBLIC) Missing, sample_legacy 2 (Val PRO) (Val 9)] = (Inr rep, us') \<and>
    us' = [sample_legacy 1 (Val PUBLIC) Missing, sample_legacy 2 (Val PRO) (Val 9)] \<and> bf_scanned rep = bf_updated rep + bf_skipped rep"
proof -
  have b: "backfilled [] 0 (sample_legacy 2 (Val PRO) (Val 9)) = sample_legacy 2 (Val PRO) (Val 9)"
    by (simp add: backfilled_def backfill_decide_def already_present_def sample_legacy_def findOne_def)
  have d: "distinct (map lu_id [sample_legacy 1 (Val PUBLIC) Missing, sample_legacy 2 (Val PRO) (Val 9)])"
    "\<forall>u \<in> set [sample_legacy 1 (Val PUBLIC) Missing, sample_legacy 2 (Val PRO) (Val 9)]. lu_subscriptions u \<noteq> Null"
    by (simp_all add: sample_legacy_def)
  have "lu_tier (sample_legacy 1 (Val PUBLIC) Missing) = Val PUBLIC" "lu_tier (sample_legacy 2 (Val PRO) (Val 9)) = Val PRO"
    by (simp_all add: sample_legacy_def)
  then show ?thesis using user_backfill_effect [OF d, of "[]" 0 1] b by auto
qed

text \<open>
  After the single-tier fields were dropped the backfill is not inert: a missing tier is not
  PUBLIC, so every user is scanned and reported as an anomaly.
\<close>

theorem backfill_after_drop:
  assumes "distinct (map lu_id us)" "\<forall>u \<in> set us. lu_subscriptions u \<noteq> Null"
    and "\<forall>u \<in> set us. \<forall>es. lu_subscriptions u = Val es \<longrightarrow> (\<forall>e \<in> set es. le_tier e \<noteq> Missing)"
  defines "dropped \<equiv> snd (runPhase115Backfill us)"
  shows "\<exists>rep. runBackfillUserSubscriptions subs now dropped = (Inr rep, dropped) \<and> bf_updated rep = 0 \<and>
    bf_anomalyUsers rep = map lu_id us"
proof -
  have at: "lu_tier v = Missing \<and> lu_activeSubscriptionId v = Missing" if "v \<in> set dropped" for v
  proof (cases "count_docs (\<lambda>u. lu_tokenVersion u = Missing) us = 0 \<and>
      count_docs (\<lambda>u. lu_tier u \<noteq> Missing \<or> lu_tierExpiresAt u \<noteq> Missing \<or> lu_activeSubscriptionId u \<noteq> Missing) us = 0")
    case True
    then show ?thesis using that by (auto simp: dropped_def runPhase115Backfill_def Let_def count_docs_zero)
  next
    case False
    then show ?thesis using that by (auto simp: dropped_def runPhase115Backfill_def Let_def updateMany_def drop_legacy_def)
  qed
  have form: "dropped = us \<or> dropped = map drop_legacy us"
    by (auto simp: dropped_def runPhase115Backfill_def Let_def updateMany_def)
  have ids: "map lu_id dropped = map lu_id us" using form by (auto simp: drop_legacy_def)
  have kept: "lu_subscriptions (drop_legacy u) = lu_subscriptions u" for u by (simp add: drop_legacy_def)
  have subs: "\<exists>u \<in> set us. lu_subscriptions v = lu_subscriptions u" if "v \<in> set dropped" for v
    using form that kept by (metis (no_types, lifting) imageE list.set_map)
  then have nn: "\<forall>u \<in> set dropped. lu_subscriptions u \<noteq> Null" using assms(2) by metis
  have an: "backfill_decide subs' now v = Anomaly" if v: "v \<in> set dropped" for v subs'
  proof -
    obtain u where "u \<in> set us" "lu_subscriptions v = lu_subscriptions u" using subs [OF v] by blast
    then have "\<not> already_present v"
      using assms(3) at [OF v] by (auto simp: already_present_def list_ex_iff split: bson.splits)
    then show ?thesis using at [OF v] by (simp add: backfill_decide_def)
  qed
  have all: "filter (\<lambda>u. lu_tier u \<noteq> Val PUBLIC) dropped = dropped" using at by (auto simp: filter_id_conv)
  have "map (\<lambda>u. if lu_tier u \<noteq> Val PUBLIC then backfilled subs now u else u) dropped = dropped"
    by (rule map_idI) (simp add: backfilled_def an)
  moreover have "count_docs (pushes subs now) dropped = 0" unfolding count_docs_zero by (simp add: pushes_def an)
  moreover have "filter (\<lambda>u. backfill_decide subs now u = Anomaly) dropped = dropped" using an by (auto simp: filter_id_conv)
  moreover have "distinct (map lu_id dropped)" using assms(1) ids by simp
  ultimately show ?thesis using user_backfill_result [OF _ nn, of subs now] ids unfolding all by auto
qed

theorem backfill_after_drop_witness:
  "\<exists>rep. fst (runBackfillUserSubscriptions [] 0 (snd (runPhase115Backfill [sample_legacy 1 (Val PUBLIC) Missing]))) = Inr rep \<and>
    bf_anomalyUsers rep = [1]"
proof -
  have "lu_id (sample_legacy 1 (Val PUBLIC) Missing) = 1" "lu_subscriptions (sample_legacy 1 (Val PUBLIC) Missing) = Missing"
    by (simp_all add: sample_legacy_def)
  then show ?thesis using backfill_after_drop [of "[sample_legacy 1 (Val PUBLIC) Missing]" "[]" 0] by auto
qed

section \<open>Rename, defaults and token versions\<close>

lemma rename_result:
  "renameForCollection docs = (\<lparr>bf_scanned = count_docs (\<lambda>d. ld_tier d = Missing \<and> ld_tierRequired d \<noteq> Missing) docs,
     bf_updated = count_docs (\<lambda>d. ld_tier d = Missing \<and> ld_tierRequired d \<noteq> Missing) docs, bf_skipped = 0\<rparr>,
   map (\<lambda>d. if ld_tier d = Missing \<and> ld_tierRequired d \<noteq> Missing then rename_tier d else d) docs)"
proof -
  let ?p = "\<lambda>d. ld_tier d = Missing \<and> ld_tierRequired d \<noteq> Missing"
  have "rename_tier d \<noteq> d" if "?p d" for d
  proof
    assume "rename_tier d = d"
    then have "ld_tierRequired (rename_tier d) = ld_tierRequired d" by simp
    then show False using that by (simp add: rename_tier_def)
  qed
  note upd = updateMany_all [of ?p rename_tier docs, OF this]
  have "map (\<lambda>d. if ?p d then rename_tier d else d) docs = docs" if "count_docs ?p docs = 0"
    using that unfolding count_docs_zero by (intro map_idI) auto
  then show ?thesis by (simp add: renameForCollection_def Let_def upd)
qed

text \<open>
  The rename moves a value and loses none: the tier a reader of either field sees is the
  same before and after, no document that needed it is left, and the report counts exactly
  the documents it changed.
\<close>

theorem rename_keeps_tier:
  "map (\<lambda>d. if ld_tier d = Missing then ld_tierRequired d else ld_tier d) (snd (renameForCollection docs)) =
     map (\<lambda>d. if ld_tier d = Missing then ld_tierRequired d else ld_tier d) docs \<and>
   count_docs (\<lambda>d. ld_tier d = Missing \<and> ld_tierRequired d \<noteq> Missing) (snd (renameForCollection docs)) = 0 \<and>
   bf_updated (fst (renameForCollection docs)) = bf_scanned (fst (renameForCollection docs)) \<and>
   renameForCollection (snd (renameForCollection docs)) = (\<lparr>bf_scanned = 0, bf_updated = 0, bf_skipped = 0\<rparr>, snd (renameForCollection docs))"
proof -
  let ?p = "\<lambda>d. ld_tier d = Missing \<and> ld_tierRequired d \<noteq> Missing"
  have z: "count_docs ?p (snd (renameForCollection docs)) = 0"
    unfolding rename_result snd_conv count_docs_zero by (auto simp: rename_tier_def)
  then have "renameForCollection (snd (renameForCollection docs)) = (\<lparr>bf_scanned = 0, bf_updated = 0, bf_skipped = 0\<rparr>, snd (renameForCollection docs))"
    by (simp add: renameForCollection_def [of "snd _"] Let_def)
  moreover have "map (\<lambda>d. if ld_tier d = Missing then ld_tierRequired d else ld_tier d) (snd (renameForCollection docs)) =
     map (\<lambda>d. if ld_tier d = Missing then ld_tierRequired d else ld_tier d) docs"
    unfolding rename_result by (auto simp: rename_tier_def)
  ultimately show ?thesis using z by (simp add: rename_result)
qed

text \<open>
  Raising the token versions ends every session of every user at once: no token that was
  signed with the version a user had opens a route afterwards, whatever its age.
\<close>

theorem bump_refuses_old_tokens:
  fixes st :: "'r auth_state"
  assumes jose: "jose_laws J" and user: "findOne (\<lambda>u. u_id u = userId) (users (au_db st)) = Some user"
  shows "requireUser J R now (Some (signAccessToken J t userId jti (u_tokenVersion user))) (snd (runBumpTokenVersions st)) = Inl UnauthorizedError \<and>
    requireUser J R now (Some (signRefreshToken J t userId jti family (u_tokenVersion user))) (snd (runBumpTokenVersions st)) = Inl UnauthorizedError \<and>
    bu_modified (fst (runBumpTokenVersions st)) = bu_matched (fst (runBumpTokenVersions st))"
proof -
  let ?f = "\<lambda>u :: user. u\<lparr>u_tokenVersion := u_tokenVersion u + 1\<rparr>"
  have "?f u \<noteq> u" for u
  proof
    assume "?f u = u"
    then have "u_tokenVersion (?f u) = u_tokenVersion u" by simp
    then show False by simp
  qed
  then have upd: "updateMany (\<lambda>_. True) ?f us = (count_docs (\<lambda>_. True) us, map ?f us)" for us
    using updateMany_all [of "\<lambda>_. True" ?f us] by simp
  have "findOne (\<lambda>u. u_id u = userId) (map ?f us) = map_option ?f (findOne (\<lambda>u. u_id u = userId) us)" for us
    unfolding findOne_def by (induction us) auto
  then have f: "findOne (\<lambda>u. u_id u = userId) (users (au_db (snd (runBumpTokenVersions st)))) = Some (?f user)"
    using user by (simp add: runBumpTokenVersions_def Let_def upd)
  have refused: "requireUser J R now (Some tok) st' = Inl UnauthorizedError"
    if "verifyAccessToken J now tok = (if c then Some \<lparr>ac_sub = userId, ac_jti = jti, ac_tokenVersion = u_tokenVersion user, ac_iat = iat\<rparr> else None)"
      "findOne (\<lambda>u. u_id u = userId) (users (au_db st')) = Some (?f user)" for tok c iat and st' :: "'r auth_state"
    using that by (simp add: requireUser_def assertNotForceLoggedOut_def split: option.splits)
  have "bu_modified (fst (runBumpTokenVersions st)) = bu_matched (fst (runBumpTokenVersions st))"
    by (simp add: runBumpTokenVersions_def Let_def upd)
  then show ?thesis
    using refused [OF jose_laws.verify_access [OF jose] f] refused [OF jose_laws.verify_refresh_as_access [OF jose] f] by blast
qed

theorem bump_refuses_old_tokens_witness:
  "requireUser payload_jose space_redis 0 (Some (signAccessToken payload_jose 0 1 ''j'' 0))
     (snd (runBumpTokenVersions (sample_auth [sample_user 1 0 []] []))) = Inl UnauthorizedError"
proof -
  have u: "findOne (\<lambda>u. u_id u = 1) (users (au_db (sample_auth [sample_user 1 0 []] []))) = Some (sample_user 1 0 [])"
    by (simp add: sample_auth_def sample_user_def findOne_def)
  have "u_tokenVersion (sample_user 1 0 []) = 0" by (simp add: sample_user_def)
  then show ?thesis using bump_refuses_old_tokens [OF payload.jose_laws_axioms u, of space_redis 0 0 "''j''" "''f''"] by simp
qed

end
