(* ===== verification/Content.thy ===== *)
theory Content
  imports Migrations Audit_Trail Samples
begin

text \<open>
  What admins edit: the brand sponsors, the advertising placements, the legal texts and the
  configuration (src/modules/admin-sponsors, admin-ads-config, admin-cms and admin-app-config).

  A patch has an \<open>option\<close> for each field: \<open>None\<close> is a field that was not sent.
\<close>

definition patched :: "'a option \<Rightarrow> 'a \<Rightarrow> 'a" where
  "patched p old = (case p of None \<Rightarrow> old | Some v \<Rightarrow> v)"

definition patched_opt :: "'a option \<Rightarrow> 'a option \<Rightarrow> 'a option" where
  "patched_opt p old = (case p of None \<Rightarrow> old | Some v \<Rightarrow> Some v)"

section \<open>Sponsors\<close>

datatype sponsor_status = SP_ACTIVE | SP_PAUSED | SP_EXPIRED

record sponsor =
  sn_id :: oid
  sn_slot :: int
  sn_imageUrl :: string
  sn_linkUrl :: "string option"
  sn_title :: "string option"
  sn_priority :: int
  sn_startAt :: "date option"
  sn_endAt :: "date option"
  sn_status :: sponsor_status

record sponsor_patch =
  spp_slot :: "int option"
  spp_imageUrl :: "string option"
  spp_linkUrl :: "string option"
  spp_title :: "string option"
  spp_priority :: "int option"
  spp_startAt :: "date option"
  spp_endAt :: "date option"
  spp_status :: "sponsor_status option"

definition sponsors_list :: "int option \<Rightarrow> sponsor_status option \<Rightarrow> sponsor list \<Rightarrow> sponsor list" where
  "sponsors_list slot status rows =
     sort_key (\<lambda>s. (sn_slot s, - sn_priority s, - int (sn_id s)))
       (find_docs (\<lambda>s. (case slot of None \<Rightarrow> True | Some n \<Rightarrow> sn_slot s = n) \<and>
                       (case status of None \<Rightarrow> True | Some x \<Rightarrow> sn_status s = x)) rows)"

text \<open>The order the home feed takes: \<open>listActiveForHome\<close>.\<close>

definition listActiveForHome :: "sponsor list \<Rightarrow> sponsor list" where
  "listActiveForHome rows = sort_key (\<lambda>s. (sn_slot s, - sn_priority s)) (find_docs (\<lambda>s. sn_status s = SP_ACTIVE) rows)"

definition new_sponsor :: "sponsor_patch \<Rightarrow> int \<Rightarrow> string \<Rightarrow> oid \<Rightarrow> sponsor" where
  "new_sponsor body slot imageUrl newId =
     \<lparr>sn_id = newId, sn_slot = slot, sn_imageUrl = imageUrl, sn_linkUrl = spp_linkUrl body, sn_title = spp_title body,
      sn_priority = or_default (spp_priority body) 0, sn_startAt = spp_startAt body, sn_endAt = spp_endAt body,
      sn_status = or_default (spp_status body) SP_ACTIVE\<rparr>"

text \<open>The schema of the collection checks an insert, and only an insert: \<open>min: 1, max: 3\<close>.\<close>

definition sponsors_create :: "sponsor \<Rightarrow> sponsor list \<Rightarrow> app_error + sponsor list" where
  "sponsors_create s rows = (if 1 \<le> sn_slot s \<and> sn_slot s \<le> 3 then Inr (rows @ [s]) else Inl (InternalError ''INTERNAL''))"

definition patch_sponsor :: "sponsor_patch \<Rightarrow> sponsor \<Rightarrow> sponsor" where
  "patch_sponsor p s =
     s\<lparr>sn_slot := patched (spp_slot p) (sn_slot s), sn_imageUrl := patched (spp_imageUrl p) (sn_imageUrl s),
       sn_linkUrl := patched_opt (spp_linkUrl p) (sn_linkUrl s), sn_title := patched_opt (spp_title p) (sn_title s),
       sn_priority := patched (spp_priority p) (sn_priority s), sn_startAt := patched_opt (spp_startAt p) (sn_startAt s),
       sn_endAt := patched_opt (spp_endAt p) (sn_endAt s), sn_status := patched (spp_status p) (sn_status s)\<rparr>"

definition sponsors_update :: "oid \<Rightarrow> sponsor_patch \<Rightarrow> sponsor list \<Rightarrow> (app_error + sponsor) \<times> sponsor list" where
  "sponsors_update i p rows =
     (case findOneAndUpdate (\<lambda>s. sn_id s = i) (patch_sponsor p) rows of
        (None, rows') \<Rightarrow> (Inl NotFoundError, rows')
      | (Some updated, rows') \<Rightarrow> (Inr updated, rows'))"

definition sponsors_delete :: "oid \<Rightarrow> sponsor list \<Rightarrow> bool \<times> sponsor list" where
  "sponsors_delete i rows = (exists_doc (\<lambda>s. sn_id s = i) rows, deleteOne (\<lambda>s. sn_id s = i) rows)"

section \<open>Advertising placements\<close>

datatype ad_type = BANNER | INTERSTITIAL | REWARDED_VIDEO | NATIVE
datatype ad_network = ADMOB | UNITY | APPLOVIN | IRONSOURCE
datatype hide_tier = HIDE_NONE | HIDE_PRO | HIDE_PRO_MAX

record ads_config =
  ad_id :: oid
  ad_placementKey :: string
  ad_type :: ad_type
  ad_network :: ad_network
  ad_adUnitIdAndroid :: "string option"
  ad_adUnitIdIOS :: "string option"
  ad_fallbackAdUnitId :: "string option"
  ad_enabled :: bool
  ad_minTierToHide :: hide_tier
  ad_refreshSeconds :: "int option"
  ad_updatedBy :: "oid option"

record ads_patch =
  ap_type :: ad_type
  ap_network :: ad_network
  ap_adUnitIdAndroid :: "string option"
  ap_adUnitIdIOS :: "string option"
  ap_fallbackAdUnitId :: "string option"
  ap_enabled :: "bool option"
  ap_minTierToHide :: "hide_tier option"
  ap_refreshSeconds :: "int option"

definition patch_ads :: "ads_patch \<Rightarrow> oid \<Rightarrow> ads_config \<Rightarrow> ads_config" where
  "patch_ads p actor a =
     a\<lparr>ad_type := ap_type p, ad_network := ap_network p, ad_updatedBy := Some actor,
       ad_adUnitIdAndroid := patched_opt (ap_adUnitIdAndroid p) (ad_adUnitIdAndroid a),
       ad_adUnitIdIOS := patched_opt (ap_adUnitIdIOS p) (ad_adUnitIdIOS a),
       ad_fallbackAdUnitId := patched_opt (ap_fallbackAdUnitId p) (ad_fallbackAdUnitId a),
       ad_enabled := patched (ap_enabled p) (ad_enabled a),
       ad_minTierToHide := patched (ap_minTierToHide p) (ad_minTierToHide a),
       ad_refreshSeconds := patched_opt (ap_refreshSeconds p) (ad_refreshSeconds a)\<rparr>"

text \<open>The row an upsert starts from: the defaults of the schema.\<close>

definition fresh_ads :: "string \<Rightarrow> oid \<Rightarrow> ads_patch \<Rightarrow> ads_config" where
  "fresh_ads key newId p =
     \<lparr>ad_id = newId, ad_placementKey = key, ad_type = ap_type p, ad_network = ap_network p, ad_adUnitIdAndroid = None,
      ad_adUnitIdIOS = None, ad_fallbackAdUnitId = None, ad_enabled = True, ad_minTierToHide = HIDE_NONE,
      ad_refreshSeconds = None, ad_updatedBy = None\<rparr>"

definition upsert_doc :: "('a \<Rightarrow> bool) \<Rightarrow> ('a \<Rightarrow> 'a) \<Rightarrow> 'a \<Rightarrow> 'a list \<Rightarrow> 'a \<times> 'a list" where
  "upsert_doc p f fresh rows =
     (case findOneAndUpdate p f rows of (Some x, rows') \<Rightarrow> (x, rows') | (None, _) \<Rightarrow> (f fresh, rows @ [f fresh]))"

definition ads_upsert :: "string \<Rightarrow> ads_patch \<Rightarrow> oid \<Rightarrow> oid \<Rightarrow> ads_config list \<Rightarrow> ads_config \<times> ads_config list" where
  "ads_upsert key p actor newId rows =
     upsert_doc (\<lambda>a. ad_placementKey a = key) (patch_ads p actor) (fresh_ads key newId p) rows"

definition ads_getForAudit :: "string \<Rightarrow> ads_config list \<Rightarrow> ads_config option" where
  "ads_getForAudit key rows = findOne (\<lambda>a. ad_placementKey a = key) rows"

definition ads_delete :: "string \<Rightarrow> ads_config list \<Rightarrow> bool \<times> ads_config list" where
  "ads_delete key rows = (exists_doc (\<lambda>a. ad_placementKey a = key) rows, deleteOne (\<lambda>a. ad_placementKey a = key) rows)"

section \<open>Legal texts\<close>

datatype cms_key = TERMS | HOW_DISTRIBUTE | FAQ | PRIVACY | GRIEVANCE

record cms_content =
  cms_id :: oid
  cms_key :: cms_key
  cms_html :: "string option"
  cms_version :: int
  cms_updatedBy :: "oid option"

definition patch_cms :: "string option \<Rightarrow> oid \<Rightarrow> cms_content \<Rightarrow> cms_content" where
  "patch_cms html actor c =
     c\<lparr>cms_html := patched_opt html (cms_html c), cms_version := cms_version c + 1, cms_updatedBy := Some actor\<rparr>"

text \<open>\<open>$inc\<close> of a row that an upsert makes starts from zero: the default of the schema is not applied.\<close>

definition cms_upsert :: "cms_key \<Rightarrow> string option \<Rightarrow> oid \<Rightarrow> oid \<Rightarrow> cms_content list \<Rightarrow> cms_content \<times> cms_content list" where
  "cms_upsert key html actor newId rows =
     upsert_doc (\<lambda>c. cms_key c = key) (patch_cms html actor)
       \<lparr>cms_id = newId, cms_key = key, cms_html = None, cms_version = 0, cms_updatedBy = None\<rparr> rows"

definition cms_getByKey :: "cms_key \<Rightarrow> cms_content list \<Rightarrow> cms_content option" where
  "cms_getByKey key rows = findOne (\<lambda>c. cms_key c = key) rows"

section \<open>The configuration\<close>

text \<open>\<open>featureFlags\<close> is a free object; \<open>pc_flags\<close> is the value of its flag \<open>tournaments\<close>.\<close>

record config_patch =
  pc_baseRatePerVote :: "int option"
  pc_signupBonusCoins :: "int option"
  pc_coinsPerPost :: "int option"
  pc_coinsPerVote :: "int option"
  pc_giftCodeDenomination :: "int option"
  pc_proMultiplier :: "int option"
  pc_proMaxMultiplier :: "int option"
  pc_voteWindow :: "(string \<times> string) option"
  pc_blockedStates :: "string list option"
  pc_kycThresholdAmount :: "int option"
  pc_ageMin :: "int option"
  pc_maintenanceMode :: "bool option"
  pc_flags :: "bool option option"
  pc_planIds :: "(string option \<times> string option) option"
  pc_adminIpAllowlist :: "string list option"

definition empty_config_patch :: config_patch where
  "empty_config_patch =
     \<lparr>pc_baseRatePerVote = None, pc_signupBonusCoins = None, pc_coinsPerPost = None, pc_coinsPerVote = None,
      pc_giftCodeDenomination = None, pc_proMultiplier = None, pc_proMaxMultiplier = None, pc_voteWindow = None,
      pc_blockedStates = None, pc_kycThresholdAmount = None, pc_ageMin = None, pc_maintenanceMode = None,
      pc_flags = None, pc_planIds = None, pc_adminIpAllowlist = None\<rparr>"

definition patch_config :: "config_patch \<Rightarrow> app_config \<Rightarrow> app_config" where
  "patch_config p c =
     c\<lparr>cfg_baseRatePerVote := patched (pc_baseRatePerVote p) (cfg_baseRatePerVote c),
       cfg_signupBonusCoins := patched (pc_signupBonusCoins p) (cfg_signupBonusCoins c),
       cfg_coinsPerPost := patched (pc_coinsPerPost p) (cfg_coinsPerPost c),
       cfg_coinsPerVote := patched (pc_coinsPerVote p) (cfg_coinsPerVote c),
       cfg_giftCodeDenomination := patched (pc_giftCodeDenomination p) (cfg_giftCodeDenomination c),
       cfg_proMultiplier := patched (pc_proMultiplier p) (cfg_proMultiplier c),
       cfg_proMaxMultiplier := patched (pc_proMaxMultiplier p) (cfg_proMaxMultiplier c),
       cfg_voteWindowStart := (case pc_voteWindow p of None \<Rightarrow> cfg_voteWindowStart c | Some w \<Rightarrow> fst w),
       cfg_voteWindowEnd := (case pc_voteWindow p of None \<Rightarrow> cfg_voteWindowEnd c | Some w \<Rightarrow> snd w),
       cfg_blockedStates := patched (pc_blockedStates p) (cfg_blockedStates c),
       cfg_kycThresholdAmount := patched (pc_kycThresholdAmount p) (cfg_kycThresholdAmount c),
       cfg_ageMin := patched (pc_ageMin p) (cfg_ageMin c),
       cfg_maintenanceMode := patched (pc_maintenanceMode p) (cfg_maintenanceMode c),
       cfg_tournaments := (case pc_flags p of None \<Rightarrow> cfg_tournaments c | Some f \<Rightarrow> or_default f False),
       cfg_planIdPro := (case pc_planIds p of None \<Rightarrow> cfg_planIdPro c | Some ids \<Rightarrow> fst ids),
       cfg_planIdProMax := (case pc_planIds p of None \<Rightarrow> cfg_planIdProMax c | Some ids \<Rightarrow> snd ids),
       cfg_adminIpAllowlist := patched (pc_adminIpAllowlist p) (cfg_adminIpAllowlist c)\<rparr>"

definition config_get :: "app_config list \<Rightarrow> app_config option" where
  "config_get rows = findOne (\<lambda>c. cfg_key c = ''default'') rows"

definition config_update :: "config_patch \<Rightarrow> app_config list \<Rightarrow> app_config \<times> app_config list" where
  "config_update p rows =
     (case if p = empty_config_patch then config_get rows else None of
        Some existing \<Rightarrow> (existing, rows)
      | None \<Rightarrow> upsert_doc (\<lambda>c. cfg_key c = ''default'') (patch_config p) default_config rows)"

section \<open>What an upsert promises\<close>

lemma deleteOne_key:
  assumes "distinct (map k xs)"
  shows "deleteOne (\<lambda>x. k x = v) xs = filter (\<lambda>x. k x \<noteq> v) xs"
  using assms
proof (induction xs)
  case (Cons x xs)
  then have "filter (\<lambda>y. k y \<noteq> k x) xs = xs" by (intro filter_True) (metis distinct.simps(2) image_eqI list.set_map list.simps(9))
  then show ?case using Cons by auto
qed simp

text \<open>
  The rows of a collection with a unique key, an update that keeps the key and the row an
  upsert starts from.
\<close>

locale keyed_upsert =
  fixes key_of :: "'a \<Rightarrow> 'k" and upd :: "'p \<Rightarrow> 'a \<Rightarrow> 'a" and fresh :: "'k \<Rightarrow> 'p \<Rightarrow> 'a"
    and run :: "'k \<Rightarrow> 'p \<Rightarrow> 'a list \<Rightarrow> 'a \<times> 'a list"
  assumes keeps: "key_of (upd p x) = key_of x"
    and fresh_key: "key_of (fresh k p) = k"
    and run_eq: "run k p rows = upsert_doc (\<lambda>x. key_of x = k) (upd p) (fresh k p) rows"
begin

lemma row:
  "fst (run k p rows) = upd p (case findOne (\<lambda>x. key_of x = k) rows of None \<Rightarrow> fresh k p | Some x \<Rightarrow> x)"
  by (simp add: run_eq upsert_doc_def findOneAndUpdate_def split: option.splits)

lemma rows:
  "snd (run k p rows) = (if exists_doc (\<lambda>x. key_of x = k) rows then update_first (\<lambda>x. key_of x = k) (upd p) rows
     else rows @ [upd p (fresh k p)])"
  by (auto simp: run_eq upsert_doc_def findOneAndUpdate_def exists_doc_def split: option.splits)

lemma key_row [simp]: "key_of (fst (run k p rows)) = k"
  by (auto simp: row keeps fresh_key split: option.splits dest: findOne_SomeD)

lemma keys_first: "map key_of (update_first P (upd p) xs) = map key_of xs"
  by (induction xs) (simp_all add: keeps)

lemma find_first:
  "findOne (\<lambda>x. key_of x = j) (update_first (\<lambda>x. key_of x = k) (upd p) xs) =
    (if j = k then map_option (upd p) (findOne (\<lambda>x. key_of x = k) xs) else findOne (\<lambda>x. key_of x = j) xs)"
  unfolding findOne_def by (induction xs) (auto simp: keeps)

lemma find_append_new: "findOne P (xs @ [y]) = (case findOne P xs of None \<Rightarrow> if P y then Some y else None | Some x \<Rightarrow> Some x)"
  unfolding findOne_def by (induction xs) auto

lemma lookup:
  "findOne (\<lambda>x. key_of x = j) (snd (run k p rows)) = (if j = k then Some (fst (run k p rows)) else findOne (\<lambda>x. key_of x = j) rows)"
proof (cases "findOne (\<lambda>x. key_of x = k) rows")
  case None
  then show ?thesis by (auto simp: rows row exists_doc_def find_append_new keeps fresh_key split: option.splits)
next
  case (Some x)
  then show ?thesis by (simp add: rows row exists_doc_def find_first)
qed

lemma unique: "distinct (map key_of rows) \<Longrightarrow> distinct (map key_of (snd (run k p rows)))"
  by (auto simp: rows keys_first keeps fresh_key exists_doc_def findOne_None_iff)

lemma repeat:
  assumes "\<And>x. upd p (upd p x) = upd p x"
  shows "run k p (snd (run k p rows)) = run k p rows"
proof -
  have twice: "update_first P (upd p) (update_first P (upd p) xs) = update_first P (upd p) xs" if "\<And>x. P (upd p x) = P x" for P xs
    by (induction xs) (simp_all add: assms that)
  have app: "update_first P (upd p) (xs @ [y]) = xs @ [upd p y]" if "findOne P xs = None" "P y" for P xs y
    using that unfolding findOne_def by (induction xs) (auto split: if_splits)
  have ex: "exists_doc (\<lambda>x. key_of x = k) (snd (run k p rows))" by (simp add: exists_doc_def lookup)
  have "snd (run k p (snd (run k p rows))) = snd (run k p rows)"
    unfolding rows [of k p "snd (run k p rows)"] if_P [OF ex]
    by (auto simp: rows twice keeps app exists_doc_def fresh_key assms)
  moreover have "fst (run k p (snd (run k p rows))) = fst (run k p rows)"
    by (simp add: row [of k p "snd (run k p rows)"] lookup) (simp add: row assms)
  ultimately show ?thesis by (rule prod_eqI [rotated])
qed

end

interpretation ads: keyed_upsert ad_placementKey "\<lambda>(p, actor, newId). patch_ads p actor" "\<lambda>key (p, actor, newId). fresh_ads key newId p"
  "\<lambda>key (p, actor, newId). ads_upsert key p actor newId"
  by unfold_locales (auto simp: patch_ads_def fresh_ads_def ads_upsert_def)

interpretation cms: keyed_upsert cms_key "\<lambda>(html, actor, newId). patch_cms html actor"
  "\<lambda>key (html, actor, newId). \<lparr>cms_id = newId, cms_key = key, cms_html = None, cms_version = 0, cms_updatedBy = None\<rparr>"
  "\<lambda>key (html, actor, newId). cms_upsert key html actor newId"
  by unfold_locales (auto simp: patch_cms_def cms_upsert_def)

interpretation config: keyed_upsert cfg_key patch_config "\<lambda>key p. default_config\<lparr>cfg_key := key\<rparr>"
  "\<lambda>key p. upsert_doc (\<lambda>c. cfg_key c = key) (patch_config p) (default_config\<lparr>cfg_key := key\<rparr>)"
  by unfold_locales (simp_all add: patch_config_def)

text \<open>
  Saving a legal text raises the version of its key by one, from one for a new key, so a
  client that remembers a version sees every change; the text stays when none was sent, no
  other key is touched and no key gets a second row.
\<close>

theorem cms_upsert_effect:
  assumes "distinct (map cms_key rows)" and "cms_upsert key html actor newId rows = (c, rows')"
  shows "distinct (map cms_key rows') \<and> cms_getByKey key rows' = Some c \<and>
    cms_version c = (case cms_getByKey key rows of None \<Rightarrow> 1 | Some old \<Rightarrow> cms_version old + 1) \<and>
    cms_html c = (case html of Some h \<Rightarrow> Some h | None \<Rightarrow> (case cms_getByKey key rows of None \<Rightarrow> None | Some old \<Rightarrow> cms_html old)) \<and>
    (\<forall>k. k \<noteq> key \<longrightarrow> cms_getByKey k rows' = cms_getByKey k rows)"
  using cms.unique [OF assms(1), of key "(html, actor, newId)"] cms.lookup [of _ key "(html, actor, newId)" rows]
    cms.row [of key "(html, actor, newId)" rows] assms(2)
  by (auto simp: cms_getByKey_def patch_cms_def patched_opt_def split: option.splits)

theorem cms_upsert_effect_witness:
  "\<exists>c rows. cms_upsert FAQ None 7 1 [\<lparr>cms_id = 3, cms_key = FAQ, cms_html = Some ''x'', cms_version = 4, cms_updatedBy = None\<rparr>] = (c, rows) \<and>
    cms_version c = 5 \<and> cms_html c = Some ''x''"
proof -
  let ?old = "\<lparr>cms_id = 3, cms_key = FAQ, cms_html = Some ''x'', cms_version = 4, cms_updatedBy = None\<rparr>"
  obtain c rows where run: "cms_upsert FAQ None 7 1 [?old] = (c, rows)" by fastforce
  moreover have "cms_getByKey FAQ [?old] = Some ?old" by (simp add: cms_getByKey_def findOne_def)
  ultimately show ?thesis using cms_upsert_effect [OF _ run] by simp
qed

definition sample_ads_patch :: ads_patch where
  "sample_ads_patch = \<lparr>ap_type = BANNER, ap_network = ADMOB, ap_adUnitIdAndroid = None, ap_adUnitIdIOS = None, ap_fallbackAdUnitId = None,
     ap_enabled = None, ap_minTierToHide = Some HIDE_PRO, ap_refreshSeconds = None\<rparr>"

text \<open>
  Saving a placement sets what was sent and keeps the rest, a new placement is enabled and
  shown to every tier unless the body says otherwise; saving again changes nothing, and
  deleting takes the placement away.
\<close>

theorem ads_upsert_effect:
  assumes "distinct (map ad_placementKey rows)" and "ads_upsert key p actor newId rows = (a, rows')"
  shows "distinct (map ad_placementKey rows') \<and> ads_getForAudit key rows' = Some a \<and> ad_type a = ap_type p \<and> ad_network a = ap_network p \<and>
    ad_enabled a = (case ap_enabled p of Some b \<Rightarrow> b | None \<Rightarrow> (case ads_getForAudit key rows of None \<Rightarrow> True | Some old \<Rightarrow> ad_enabled old)) \<and>
    ad_minTierToHide a = (case ap_minTierToHide p of Some t \<Rightarrow> t | None \<Rightarrow>
      (case ads_getForAudit key rows of None \<Rightarrow> HIDE_NONE | Some old \<Rightarrow> ad_minTierToHide old)) \<and>
    (\<forall>k. k \<noteq> key \<longrightarrow> ads_getForAudit k rows' = ads_getForAudit k rows) \<and>
    ads_upsert key p actor newId rows' = (a, rows') \<and>
    fst (ads_delete key rows') \<and> ads_getForAudit key (snd (ads_delete key rows')) = None"
proof -
  let ?p = "(p, actor, newId)"
  have twice: "patch_ads p actor (patch_ads p actor x) = patch_ads p actor x" for x
    by (simp add: patch_ads_def patched_def patched_opt_def split: option.splits)
  have d: "distinct (map ad_placementKey rows')" using ads.unique [OF assms(1), of key ?p] assms(2) by simp
  have l: "findOne (\<lambda>a. ad_placementKey a = k) rows' = (if k = key then Some a else findOne (\<lambda>a. ad_placementKey a = k) rows)" for k
    using ads.lookup [of k key ?p rows] assms(2) by simp
  have again: "ads_upsert key p actor newId rows' = (a, rows')"
    using ads.repeat [of ?p key rows] twice assms(2) by simp
  have a: "a = patch_ads p actor (case ads_getForAudit key rows of None \<Rightarrow> fresh_ads key newId p | Some x \<Rightarrow> x)"
    using ads.row [of key ?p rows] assms(2) by (simp add: ads_getForAudit_def split: option.splits)
  have got: "ads_getForAudit k rows' = (if k = key then Some a else ads_getForAudit k rows)" for k
    unfolding ads_getForAudit_def by (rule l)
  have gone: "ads_getForAudit key (snd (ads_delete key rows')) = None" "fst (ads_delete key rows')"
    using l [of key] by (simp_all add: ads_delete_def ads_getForAudit_def deleteOne_key [OF d] findOne_None_iff exists_doc_def)
  have "ad_type a = ap_type p" "ad_network a = ap_network p"
    "ad_enabled a = (case ap_enabled p of Some b \<Rightarrow> b | None \<Rightarrow> (case ads_getForAudit key rows of None \<Rightarrow> True | Some old \<Rightarrow> ad_enabled old))"
    "ad_minTierToHide a = (case ap_minTierToHide p of Some t \<Rightarrow> t | None \<Rightarrow>
      (case ads_getForAudit key rows of None \<Rightarrow> HIDE_NONE | Some old \<Rightarrow> ad_minTierToHide old))"
    by (simp_all add: a patch_ads_def patched_def fresh_ads_def split: option.split)
  then show ?thesis using d again got gone by simp
qed

theorem ads_upsert_effect_witness:
  "\<exists>a rows. ads_upsert ''home'' sample_ads_patch 7 1 [] = (a, rows) \<and> ad_enabled a \<and> ad_minTierToHide a = HIDE_PRO \<and>
    ads_upsert ''home'' sample_ads_patch 7 1 rows = (a, rows)"
proof -
  obtain a rows where run: "ads_upsert ''home'' sample_ads_patch 7 1 [] = (a, rows)" by fastforce
  moreover have "ads_getForAudit ''home'' [] = None" by (simp add: ads_getForAudit_def findOne_def)
  moreover have "ap_enabled sample_ads_patch = None" "ap_minTierToHide sample_ads_patch = Some HIDE_PRO" by (simp_all add: sample_ads_patch_def)
  ultimately show ?thesis using ads_upsert_effect [OF _ run] by simp
qed

text \<open>
  A patch of the configuration sets the fields it has and no other, reading it back gives the
  answer of the patch, repeating it changes nothing and an empty one is a no-op. A part
  that holds several values is replaced as a whole: sending one plan removes the other one,
  and sending flags without \<open>tournaments\<close> switches the tournaments off.
\<close>

theorem config_update_effect:
  assumes "config_get rows = Some old" "config_update p rows = (c, rows')"
  shows "config_get rows' = Some c \<and> c = patch_config p old \<and> config_update p rows' = (c, rows') \<and>
    config_update empty_config_patch rows = (old, rows) \<and>
    (pc_planIds p = Some (Some plan, None) \<longrightarrow> cfg_planIdProMax c = None) \<and>
    (pc_flags p = Some None \<longrightarrow> \<not> cfg_tournaments c) \<and>
    (pc_proMultiplier p = None \<longrightarrow> cfg_proMultiplier c = cfg_proMultiplier old) \<and>
    (pc_planIds p = None \<longrightarrow> cfg_planIdPro c = cfg_planIdPro old \<and> cfg_planIdProMax c = cfg_planIdProMax old)"
proof -
  have def: "default_config\<lparr>cfg_key := ''default''\<rparr> = default_config" by (simp add: default_config_def)
  let ?run = "upsert_doc (\<lambda>c. cfg_key c = ''default'') (patch_config p) default_config"
  have empty: "patch_config empty_config_patch x = x" for x
    by (simp add: patch_config_def empty_config_patch_def patched_def)
  have twice: "patch_config p (patch_config p x) = patch_config p x" for x
    by (simp add: patch_config_def patched_def split: option.splits)
  have run: "config_update p rows = (if p = empty_config_patch then (old, rows) else ?run rows)"
    using assms(1) by (simp add: config_update_def)
  have c: "c = patch_config p old \<and> config_get rows' = Some c"
    using config.row [of "''default''" p rows] config.lookup [of "''default''" "''default''" p rows] assms
    by (auto simp: run def config_get_def empty split: if_splits)
  moreover have "config_update p rows' = (c, rows')"
    using config.repeat [of p "''default''" rows] twice assms c
    by (auto simp: run def config_update_def empty split: if_splits)
  moreover have "config_update empty_config_patch rows = (old, rows)" using assms(1) by (simp add: config_update_def)
  ultimately show ?thesis by (simp add: patch_config_def patched_def)
qed

theorem config_update_effect_witness:
  "\<exists>c rows. config_update (empty_config_patch\<lparr>pc_planIds := Some (Some ''plan'', None)\<rparr>) [default_config\<lparr>cfg_planIdProMax := Some ''max''\<rparr>] = (c, rows) \<and>
    cfg_planIdProMax c = None \<and> cfg_proMultiplier c = 5"
proof -
  let ?p = "empty_config_patch\<lparr>pc_planIds := Some (Some ''plan'', None)\<rparr>" and ?old = "default_config\<lparr>cfg_planIdProMax := Some ''max''\<rparr>"
  obtain c rows where run: "config_update ?p [?old] = (c, rows)" by fastforce
  moreover have old: "config_get [?old] = Some ?old" by (simp add: config_get_def findOne_def default_config_def)
  moreover have "pc_proMultiplier ?p = None" "pc_planIds ?p = Some (Some ''plan'', None)" "cfg_proMultiplier ?old = 5"
    by (simp_all add: empty_config_patch_def default_config_def)
  ultimately show ?thesis using config_update_effect [OF old run, of "''plan''"] by auto
qed

definition sample_sponsor :: "oid \<Rightarrow> int \<Rightarrow> sponsor" where
  "sample_sponsor i slot = \<lparr>sn_id = i, sn_slot = slot, sn_imageUrl = ''u'', sn_linkUrl = None, sn_title = None, sn_priority = 0,
     sn_startAt = None, sn_endAt = None, sn_status = SP_ACTIVE\<rparr>"

definition sample_sponsor_patch :: sponsor_patch where
  "sample_sponsor_patch = \<lparr>spp_slot = Some 2, spp_imageUrl = None, spp_linkUrl = None, spp_title = None, spp_priority = None,
     spp_startAt = None, spp_endAt = None, spp_status = None\<rparr>"

text \<open>
  Patching a sponsor changes that row only and is refused for one that does not exist;
  deleting removes it; the list has exactly the rows that match, by slot and then by priority.
\<close>

theorem sponsors_effect:
  assumes "distinct (map sn_id rows)" and "sponsors_update i p rows = (r, rows')"
  shows "(if i \<in> sn_id ` set rows then \<exists>s \<in> set rows. sn_id s = i \<and> r = Inr (patch_sponsor p s) else r = Inl NotFoundError) \<and>
    rows' = map (\<lambda>s. if sn_id s = i then patch_sponsor p s else s) rows \<and>
    sponsors_delete i rows' = (i \<in> sn_id ` set rows, filter (\<lambda>s. sn_id s \<noteq> i) rows) \<and>
    set (sponsors_list slot status rows) = {s \<in> set rows. (slot = None \<or> slot = Some (sn_slot s)) \<and> (status = None \<or> status = Some (sn_status s))} \<and>
    sorted (map sn_slot (sponsors_list slot status rows))"
proof -
  have kept: "sn_id (patch_sponsor p s) = sn_id s" for s by (simp add: patch_sponsor_def)
  have rows': "rows' = map (\<lambda>s. if sn_id s = i then patch_sponsor p s else s) rows"
    using assms(2) update_first_key [OF assms(1), of i "patch_sponsor p"]
    by (auto simp: sponsors_update_def findOneAndUpdate_def findOne_None_iff split: option.splits intro!: map_idI [symmetric])
  have ids: "distinct (map sn_id rows')" using assms(1) kept unfolding rows' by (simp add: comp_def if_distrib cong: if_cong)
  have "filter (\<lambda>s. sn_id s \<noteq> i) rows' = filter (\<lambda>s. sn_id s \<noteq> i) rows"
    unfolding rows' by (induction rows) (auto simp: kept)
  then have "snd (sponsors_delete i rows') = filter (\<lambda>s. sn_id s \<noteq> i) rows"
    by (simp add: sponsors_delete_def deleteOne_key [OF ids])
  moreover have "fst (sponsors_delete i rows') \<longleftrightarrow> i \<in> sn_id ` set rows"
    using kept by (auto simp: sponsors_delete_def exists_doc_def rows' findOne_None_iff image_iff)
  moreover have "(if i \<in> sn_id ` set rows then \<exists>s \<in> set rows. sn_id s = i \<and> r = Inr (patch_sponsor p s) else r = Inl NotFoundError)"
  proof (cases "findOne (\<lambda>s. sn_id s = i) rows")
    case None
    then have "i \<notin> sn_id ` set rows" by (auto simp: findOne_None_iff)
    then show ?thesis using assms(2) None by (simp add: sponsors_update_def findOneAndUpdate_def)
  next
    case (Some s)
    then have s: "s \<in> set rows" "sn_id s = i" using findOne_SomeD by fastforce+
    then have "i \<in> sn_id ` set rows" by blast
    then show ?thesis using assms(2) Some s by (auto simp: sponsors_update_def findOneAndUpdate_def)
  qed
  moreover have "sorted (map (\<lambda>s. (sn_slot s, - sn_priority s, - int (sn_id s))) (sponsors_list slot status rows))"
    by (simp add: sponsors_list_def)
  then have "sorted (map sn_slot (sponsors_list slot status rows))"
    by (auto simp: sorted_wrt_map less_eq_prod_def elim!: sorted_wrt_mono_rel [rotated])
  moreover have "set (sponsors_list slot status rows) =
      {s \<in> set rows. (slot = None \<or> slot = Some (sn_slot s)) \<and> (status = None \<or> status = Some (sn_status s))}"
    by (cases slot; cases status) (auto simp: sponsors_list_def find_docs_def)
  ultimately show ?thesis using rows' by (simp add: prod_eq_iff)
qed

theorem sponsors_effect_witness:
  "\<exists>r rows. sponsors_update 9 sample_sponsor_patch [sample_sponsor 1 1, sample_sponsor 2 3] = (r, rows) \<and> r = Inl NotFoundError"
proof -
  obtain r rows where run: "sponsors_update 9 sample_sponsor_patch [sample_sponsor 1 1, sample_sponsor 2 3] = (r, rows)" by fastforce
  moreover have "distinct (map sn_id [sample_sponsor 1 1, sample_sponsor 2 3])" "9 \<notin> sn_id ` set [sample_sponsor 1 1, sample_sponsor 2 3]"
    by (simp_all add: sample_sponsor_def)
  ultimately show ?thesis using sponsors_effect [OF _ run] by simp
qed

end
