(* ===== verification/Admin_Handlers.thy ===== *)
theory Admin_Handlers
  imports Controllers Content Audit_Trail Samples
begin

text \<open>
  The controllers of the admin surface over content, configuration, notifications, admins and
  the audit log: src/modules/admin-cms, admin-ads-config, admin-sponsors, admin-app-config,
  admin-notifications, admin-admin-users and admin-audit-logs. The shape of a handler is that of
  \<open>Controllers\<close>.
\<close>

section \<open>Legal texts, placements, sponsors\<close>

definition z_cms_key :: "zod_value \<Rightarrow> cms_key" where
  "z_cms_key = z_enum [(''TERMS'', TERMS), (''HOW_DISTRIBUTE'', HOW_DISTRIBUTE), (''FAQ'', FAQ), (''PRIVACY'', PRIVACY), (''GRIEVANCE'', GRIEVANCE)]"

definition parseKey :: "zod \<Rightarrow> zod_value \<Rightarrow> thrown + cms_key" where
  "parseKey Z raw = (case Z CmsKeySchema raw of None \<Rightarrow> Inl (AppErr ValidationError) | Some v \<Rightarrow> Inr (z_cms_key v))"

definition cms_getByKey_handler ::
  "zod \<Rightarrow> handler_request \<Rightarrow> cms_content list \<Rightarrow> (thrown + cms_content) \<times> cms_content list" where
  "cms_getByKey_handler Z req rows =
     go (parseKey Z (z_prop ''key'' (hq_params req))) rows (\<lambda>key.
       (case cms_getByKey key rows of None \<Rightarrow> Inl (AppErr NotFoundError) | Some row \<Rightarrow> Inr row, rows))"

definition cms_upsert_handler ::
  "zod \<Rightarrow> oid \<Rightarrow> handler_request \<Rightarrow> cms_content list
   \<Rightarrow> (thrown + (cms_content option, cms_content) captured) \<times> cms_content list" where
  "cms_upsert_handler Z newId req rows =
     go (parseKey Z (z_prop ''key'' (hq_params req))) rows (\<lambda>key.
     go (parsed (Z AdminCmsUpsertBodySchema (hq_body req))) rows (\<lambda>body.
       case cms_upsert key (z_opt z_str (z_prop ''html'' body)) (hq_adminId req) newId rows of
         (after, rows') \<Rightarrow> (Inr \<lparr>cap_resource = None, cap_before = cms_getByKey key rows, cap_after = after\<rparr>, rows')))"

definition parsePlacement :: "zod \<Rightarrow> zod_value \<Rightarrow> thrown + string" where
  "parsePlacement Z raw = (case Z AdminAdsConfigPlacementParamSchema raw of None \<Rightarrow> Inl (AppErr ValidationError) | Some v \<Rightarrow> Inr (z_str v))"

definition ads_body :: "zod_value \<Rightarrow> ads_patch" where
  "ads_body body =
     \<lparr>ap_type = z_enum [(''BANNER'', BANNER), (''INTERSTITIAL'', INTERSTITIAL), (''REWARDED_VIDEO'', REWARDED_VIDEO), (''NATIVE'', NATIVE)]
        (z_prop ''type'' body),
      ap_network = z_enum [(''ADMOB'', ADMOB), (''UNITY'', UNITY), (''APPLOVIN'', APPLOVIN), (''IRONSOURCE'', IRONSOURCE)]
        (z_prop ''network'' body),
      ap_adUnitIdAndroid = z_opt z_str (z_prop ''adUnitIdAndroid'' body), ap_adUnitIdIOS = z_opt z_str (z_prop ''adUnitIdIOS'' body),
      ap_fallbackAdUnitId = z_opt z_str (z_prop ''fallbackAdUnitId'' body), ap_enabled = z_opt z_bool (z_prop ''enabled'' body),
      ap_minTierToHide = z_opt (z_enum [(''NONE'', HIDE_NONE), (''PRO'', HIDE_PRO), (''PRO_MAX'', HIDE_PRO_MAX)]) (z_prop ''minTierToHide'' body),
      ap_refreshSeconds = z_opt z_int (z_prop ''refreshSeconds'' body)\<rparr>"

definition ads_upsert_handler ::
  "zod \<Rightarrow> oid \<Rightarrow> handler_request \<Rightarrow> ads_config list \<Rightarrow> (thrown + (ads_config option, ads_config) captured) \<times> ads_config list" where
  "ads_upsert_handler Z newId req rows =
     go (parsePlacement Z (z_prop ''placementKey'' (hq_params req))) rows (\<lambda>key.
     go (parsed (Z AdminAdsConfigUpsertBodySchema (hq_body req))) rows (\<lambda>body.
       case ads_upsert key (ads_body body) (hq_adminId req) newId rows of
         (after, rows') \<Rightarrow> (Inr \<lparr>cap_resource = None, cap_before = ads_getForAudit key rows, cap_after = after\<rparr>, rows')))"

definition ads_delete_handler ::
  "zod \<Rightarrow> handler_request \<Rightarrow> ads_config list \<Rightarrow> (thrown + (ads_config, unit) captured) \<times> ads_config list" where
  "ads_delete_handler Z req rows =
     go (parsePlacement Z (z_prop ''placementKey'' (hq_params req))) rows (\<lambda>key.
       case ads_getForAudit key rows of
         None \<Rightarrow> (Inl (AppErr NotFoundError), rows)
       | Some before \<Rightarrow> (Inr \<lparr>cap_resource = None, cap_before = before, cap_after = ()\<rparr>, snd (ads_delete key rows)))"

definition z_sponsor_status :: "zod_value \<Rightarrow> sponsor_status" where
  "z_sponsor_status = z_enum [(''ACTIVE'', SP_ACTIVE), (''PAUSED'', SP_PAUSED), (''EXPIRED'', SP_EXPIRED)]"

definition sponsor_body :: "zod_value \<Rightarrow> sponsor_patch" where
  "sponsor_body body =
     \<lparr>spp_slot = z_opt z_int (z_prop ''slot'' body), spp_imageUrl = z_opt z_str (z_prop ''imageUrl'' body),
      spp_linkUrl = z_opt z_str (z_prop ''linkUrl'' body), spp_title = z_opt z_str (z_prop ''title'' body),
      spp_priority = z_opt z_int (z_prop ''priority'' body), spp_startAt = z_opt z_date (z_prop ''startAt'' body),
      spp_endAt = z_opt z_date (z_prop ''endAt'' body), spp_status = z_opt z_sponsor_status (z_prop ''status'' body)\<rparr>"

definition sponsors_list_handler :: "zod \<Rightarrow> handler_request \<Rightarrow> sponsor list \<Rightarrow> (thrown + sponsor list) \<times> sponsor list" where
  "sponsors_list_handler Z req rows =
     go (parsed (Z AdminSponsorsListQuerySchema (hq_query req))) rows (\<lambda>q.
       (Inr (sponsors_list (z_opt z_int (z_prop ''slot'' q)) (z_opt z_sponsor_status (z_prop ''status'' q)) rows), rows))"

definition sponsors_create_handler ::
  "zod \<Rightarrow> oid \<Rightarrow> handler_request \<Rightarrow> sponsor list \<Rightarrow> (thrown + (unit, sponsor) captured) \<times> sponsor list" where
  "sponsors_create_handler Z newId req rows =
     go (parsed (Z AdminSponsorCreateBodySchema (hq_body req))) rows (\<lambda>body.
       let doc = new_sponsor (sponsor_body body) (z_int (z_prop ''slot'' body)) (z_str (z_prop ''imageUrl'' body)) newId
       in case sponsors_create doc rows of
            Inl e \<Rightarrow> (Inl (AppErr e), rows)
          | Inr rows' \<Rightarrow> (Inr \<lparr>cap_resource = Some newId, cap_before = (), cap_after = doc\<rparr>, rows'))"

definition sponsors_update_handler ::
  "zod \<Rightarrow> zod_host \<Rightarrow> handler_request \<Rightarrow> sponsor list \<Rightarrow> (thrown + (sponsor, sponsor) captured) \<times> sponsor list" where
  "sponsors_update_handler Z H req rows =
     go (parseObjectId H (z_prop ''id'' (hq_params req))) rows (\<lambda>i.
     go (parsed (Z AdminSponsorUpdateBodySchema (hq_body req))) rows (\<lambda>body.
       case findOne (\<lambda>s. sn_id s = i) rows of
         None \<Rightarrow> (Inl (AppErr NotFoundError), rows)
       | Some before \<Rightarrow>
           (case called (sponsors_update i (sponsor_body body) rows) of
              (Inl e, rows') \<Rightarrow> (Inl e, rows')
            | (Inr after, rows') \<Rightarrow> (Inr \<lparr>cap_resource = Some i, cap_before = before, cap_after = after\<rparr>, rows'))))"

definition sponsors_delete_handler ::
  "zod_host \<Rightarrow> handler_request \<Rightarrow> sponsor list \<Rightarrow> (thrown + (sponsor, unit) captured) \<times> sponsor list" where
  "sponsors_delete_handler H req rows =
     go (parseObjectId H (z_prop ''id'' (hq_params req))) rows (\<lambda>i.
       case findOne (\<lambda>s. sn_id s = i) rows of
         None \<Rightarrow> (Inl (AppErr NotFoundError), rows)
       | Some before \<Rightarrow> (Inr \<lparr>cap_resource = Some i, cap_before = before, cap_after = ()\<rparr>, snd (sponsors_delete i rows)))"

section \<open>The configuration\<close>

text \<open>Of the free object of flags the program reads the truth of \<open>tournaments\<close>.\<close>

definition config_body :: "zod_value \<Rightarrow> config_patch" where
  "config_body body =
     \<lparr>pc_baseRatePerVote = z_opt z_int (z_prop ''baseRatePerVote'' body), pc_signupBonusCoins = z_opt z_int (z_prop ''signupBonusCoins'' body),
      pc_coinsPerPost = z_opt z_int (z_prop ''coinsPerPost'' body), pc_coinsPerVote = z_opt z_int (z_prop ''coinsPerVote'' body),
      pc_giftCodeDenomination = z_opt z_int (z_prop ''giftCodeDenomination'' body),
      pc_proMultiplier = z_opt z_int (z_prop ''proMultiplier'' body), pc_proMaxMultiplier = z_opt z_int (z_prop ''proMaxMultiplier'' body),
      pc_voteWindow = z_opt (\<lambda>w. (z_str (z_prop ''start'' w), z_str (z_prop ''end'' w))) (z_prop ''voteWindowIst'' body),
      pc_blockedStates = z_opt (\<lambda>v. map z_str (z_list v)) (z_prop ''blockedStates'' body),
      pc_kycThresholdAmount = z_opt z_int (z_prop ''kycThresholdAmount'' body), pc_ageMin = z_opt z_int (z_prop ''ageMin'' body),
      pc_maintenanceMode = z_opt z_bool (z_prop ''maintenanceMode'' body),
      pc_flags = z_opt (\<lambda>v. Some (truthy (z_prop ''tournaments'' v))) (z_prop ''featureFlags'' body),
      pc_planIds = z_opt (\<lambda>v. (z_opt z_str (z_prop ''PRO'' v), z_opt z_str (z_prop ''PRO_MAX'' v))) (z_prop ''razorpayPlanIds'' body),
      pc_adminIpAllowlist = z_opt (\<lambda>v. map z_str (z_list v)) (z_prop ''adminIpAllowlist'' body)\<rparr>"

definition config_update_handler ::
  "zod \<Rightarrow> handler_request \<Rightarrow> app_config list \<Rightarrow> (thrown + (app_config option, app_config) captured) \<times> app_config list" where
  "config_update_handler Z req rows =
     go (parsed (Z AdminAppConfigPatchBodySchema (hq_body req))) rows (\<lambda>patch.
       case config_update (config_body patch) rows of
         (after, rows') \<Rightarrow> (Inr \<lparr>cap_resource = None, cap_before = config_get rows, cap_after = after\<rparr>, rows'))"

section \<open>Broadcasts\<close>

text \<open>\<open>js\<close> is the payload as a value of the program.\<close>

definition broadcast_body :: "zod_host \<Rightarrow> (zod_value \<Rightarrow> (string \<times> js_value) list) \<Rightarrow> zod_value \<Rightarrow> broadcast_input" where
  "broadcast_body H js body =
     (let target = z_prop ''target'' body; mode = z_str (z_prop ''mode'' target)
      in \<lparr>bi_target = (if mode = ''user'' then To_User (z_id H (z_prop ''userId'' target))
                       else if mode = ''tier'' then To_Tier (z_tier (z_prop ''tier'' target)) else To_All),
          bi_title = z_opt z_str (z_prop ''title'' body), bi_body = z_opt z_str (z_prop ''body'' body),
          bi_payload = z_opt js (z_prop ''payload'' body), bi_broadcastId = None\<rparr>)"

definition broadcast_handler ::
  "zod \<Rightarrow> zod_host \<Rightarrow> (zod_value \<Rightarrow> (string \<times> js_value) list) \<Rightarrow> string \<Rightarrow> (oid \<Rightarrow> oid) \<Rightarrow> user list \<Rightarrow> handler_request
   \<Rightarrow> custom_notification list \<Rightarrow> (thrown + (unit, string \<times> int \<times> string) captured) \<times> custom_notification list" where
  "broadcast_handler Z H js uuid newId us req rows =
     go (parsed (Z AdminBroadcastBodySchema (hq_body req))) rows (\<lambda>body.
       case called (broadcast (broadcast_body H js body) uuid newId us rows) of
         (Inl e, rows') \<Rightarrow> (Inl e, rows')
       | (Inr (i, n), rows') \<Rightarrow>
           (Inr \<lparr>cap_resource = None, cap_before = (), cap_after = (i, n, z_str (z_prop ''mode'' (z_prop ''target'' body)))\<rparr>, rows'))"

section \<open>Admins and their log\<close>

definition z_role :: "zod_value \<Rightarrow> admin_role" where
  "z_role = z_enum [(''SUPER_ADMIN'', SUPER_ADMIN), (''CONTENT_ADMIN'', CONTENT_ADMIN), (''PAYMENT_ADMIN'', PAYMENT_ADMIN), (''SUPPORT_ADMIN'', SUPPORT_ADMIN)]"

definition admins_create_handler ::
  "zod \<Rightarrow> zod_host \<Rightarrow> (string \<Rightarrow> string) \<Rightarrow> oid \<Rightarrow> date \<Rightarrow> handler_request \<Rightarrow> 'r admin_state
   \<Rightarrow> (thrown + (unit, admin_user) captured) \<times> 'r admin_state" where
  "admins_create_handler Z H hash newId now req st =
     go (parsed (Z AdminAdminUsersCreateBodySchema (hq_body req))) st (\<lambda>body.
       case called (admins_create (zh_email H) hash
              \<lparr>ca_email = z_str (z_prop ''email'' body), ca_password = z_str (z_prop ''password'' body),
               ca_name = z_opt z_str (z_prop ''name'' body), ca_role = Some (z_role (z_prop ''role'' body))\<rparr> newId now st) of
         (Inl e, st') \<Rightarrow> (Inl e, st')
       | (Inr after, st') \<Rightarrow> (Inr \<lparr>cap_resource = Some (adm_id after), cap_before = (), cap_after = after\<rparr>, st'))"

text \<open>The handlers that change one admin: the row before, the change, the row after with the reason.\<close>

definition admins_change ::
  "zod \<Rightarrow> zod_host \<Rightarrow> schema \<Rightarrow> (zod_value \<Rightarrow> oid \<Rightarrow> 'r admin_state \<Rightarrow> (app_error + admin_user) \<times> 'r admin_state) \<Rightarrow> handler_request
   \<Rightarrow> 'r admin_state \<Rightarrow> (thrown + (admin_user option, admin_user \<times> string) captured) \<times> 'r admin_state" where
  "admins_change Z H schema service req st =
     go (parseObjectId H (z_prop ''id'' (hq_params req))) st (\<lambda>i.
     go (parsed (Z schema (hq_body req))) st (\<lambda>body.
       case called (service body i st) of
         (Inl e, st') \<Rightarrow> (Inl e, st')
       | (Inr after, st') \<Rightarrow>
           (Inr \<lparr>cap_resource = Some i, cap_before = findOne (\<lambda>a. adm_id a = i) (am_users st),
                 cap_after = (after, z_str (z_prop ''reason'' body))\<rparr>, st')))"

definition admins_changeRole ::
  "zod \<Rightarrow> zod_host \<Rightarrow> handler_request \<Rightarrow> 'r admin_state
   \<Rightarrow> (thrown + (admin_user option, admin_user \<times> string) captured) \<times> 'r admin_state" where
  "admins_changeRole Z H = admins_change Z H AdminAdminUsersRoleChangeBodySchema (\<lambda>body i. changeRole i (z_role (z_prop ''role'' body)))"

definition admins_toggle2fa ::
  "zod \<Rightarrow> zod_host \<Rightarrow> handler_request \<Rightarrow> 'r admin_state
   \<Rightarrow> (thrown + (admin_user option, admin_user \<times> string) captured) \<times> 'r admin_state" where
  "admins_toggle2fa Z H = admins_change Z H AdminAdminUsersToggle2FaBodySchema (\<lambda>body i. toggle2fa i (z_bool (z_prop ''enabled'' body)))"

definition admins_deactivate ::
  "zod \<Rightarrow> zod_host \<Rightarrow> 'r admin_redis \<Rightarrow> date \<Rightarrow> handler_request \<Rightarrow> 'r admin_state
   \<Rightarrow> (thrown + (admin_user option, admin_user \<times> string) captured) \<times> 'r admin_state" where
  "admins_deactivate Z H R now = admins_change Z H AdminAdminUsersDeactivateBodySchema (\<lambda>_ i. deactivate R i now)"

definition admins_forceLogout_handler ::
  "zod \<Rightarrow> zod_host \<Rightarrow> 'r admin_redis \<Rightarrow> date \<Rightarrow> handler_request \<Rightarrow> 'r admin_state
   \<Rightarrow> (thrown + (unit, nat \<times> string) captured) \<times> 'r admin_state" where
  "admins_forceLogout_handler Z H R now req st =
     go (parseObjectId H (z_prop ''id'' (hq_params req))) st (\<lambda>i.
     go (parsed (Z AdminAdminUsersForceLogoutBodySchema (hq_body req))) st (\<lambda>body.
       case called (admins_forceLogout R i now st) of
         (Inl e, st') \<Rightarrow> (Inl e, st')
       | (Inr destroyed, st') \<Rightarrow>
           (Inr \<lparr>cap_resource = Some i, cap_before = (), cap_after = (destroyed, z_str (z_prop ''reason'' body))\<rparr>, st')))"

definition audit_logs_list ::
  "zod \<Rightarrow> zod_host \<Rightarrow> objectid_text \<Rightarrow> handler_request \<Rightarrow> audit_log list \<Rightarrow> (thrown + audit_log list \<times> string option) \<times> audit_log list" where
  "audit_logs_list Z H T req logs =
     go (parsed (Z AdminAuditLogsListQuerySchema (hq_query req))) logs (\<lambda>q.
       pure_call (audit_list T
         \<lparr>af_actorId = z_opt (z_id H) (z_prop ''actorId'' q), af_resourceKind = z_opt z_str (z_prop ''resourceKind'' q),
          af_resourceId = z_opt (z_id H) (z_prop ''resourceId'' q), af_action = z_opt z_str (z_prop ''action'' q),
          af_from = z_opt z_date (z_prop ''from'' q), af_to = z_opt z_date (z_prop ''to'' q)\<rparr>
         (z_opt z_str (z_prop ''cursor'' q)) (z_int (z_prop ''limit'' q)) logs) logs)"

section \<open>Properties\<close>

definition config_ok :: "app_config \<Rightarrow> bool" where
  "config_ok c \<longleftrightarrow> 0 \<le> cfg_baseRatePerVote c \<and> 0 \<le> cfg_signupBonusCoins c \<and> 0 \<le> cfg_coinsPerPost c \<and> 0 \<le> cfg_coinsPerVote c \<and>
     0 < cfg_giftCodeDenomination c \<and> 0 < cfg_proMultiplier c \<and> 0 < cfg_proMaxMultiplier c \<and>
     0 \<le> cfg_kycThresholdAmount c \<and> 13 \<le> cfg_ageMin c \<and> cfg_ageMin c \<le> 99"

definition in_bounds :: "(int \<Rightarrow> bool) \<Rightarrow> int option \<Rightarrow> bool" where
  "in_bounds p v \<longleftrightarrow> (case v of None \<Rightarrow> True | Some n \<Rightarrow> p n)"

lemma patched_bounds: "in_bounds p v \<Longrightarrow> p n \<Longrightarrow> p (patched v n)"
  by (auto simp: in_bounds_def patched_def split: option.splits)

lemma optional_number:
  assumes "zod H Z" "Z (ZObject fs) v = Some w" "distinct (map fst fs)" "(k, ZOptional (ZNumber cs)) \<in> set fs"
    and "\<And>n. list_all (\<lambda>c. run_num_check c n) cs \<Longrightarrow> p n"
  shows "in_bounds p (z_opt z_int (z_prop k w))"
  using zod.optional_field [OF assms(1-4)] assms(5)
  by (auto simp: in_bounds_def z_opt_def z_int_def zod.parse_number [OF assms(1)] elim!: check_number.elims split: if_splits)

lemma config_body_bounds:
  assumes "zod H Z" "Z AdminAppConfigPatchBodySchema v = Some w"
  defines "p \<equiv> config_body w"
  shows "in_bounds (\<lambda>n. 0 \<le> n) (pc_baseRatePerVote p)" "in_bounds (\<lambda>n. 0 \<le> n) (pc_signupBonusCoins p)"
    "in_bounds (\<lambda>n. 0 \<le> n) (pc_coinsPerPost p)" "in_bounds (\<lambda>n. 0 \<le> n) (pc_coinsPerVote p)"
    "in_bounds (\<lambda>n. 0 < n) (pc_giftCodeDenomination p)" "in_bounds (\<lambda>n. 0 < n) (pc_proMultiplier p)"
    "in_bounds (\<lambda>n. 0 < n) (pc_proMaxMultiplier p)" "in_bounds (\<lambda>n. 0 \<le> n) (pc_kycThresholdAmount p)"
    "in_bounds (\<lambda>n. 13 \<le> n \<and> n \<le> 99) (pc_ageMin p)"
proof -
  note number = optional_number [OF assms(1) assms(2) [unfolded AdminAppConfigPatchBodySchema_def]]
  note nonneg = number [where cs = "[N_Int, N_Min 0]" and p = "\<lambda>n. 0 \<le> n"]
  note positive = number [where cs = "[N_Int, N_Positive]" and p = "\<lambda>n. 0 < n"]
  note age = number [where cs = "[N_Int, N_Min 13, N_Max 99]" and p = "\<lambda>n. 13 \<le> n \<and> n \<le> 99"]
  show "in_bounds (\<lambda>n. 0 \<le> n) (pc_baseRatePerVote p)" by (simp add: p_def config_body_def) (rule nonneg; simp)
  show "in_bounds (\<lambda>n. 0 \<le> n) (pc_signupBonusCoins p)" by (simp add: p_def config_body_def) (rule nonneg; simp)
  show "in_bounds (\<lambda>n. 0 \<le> n) (pc_coinsPerPost p)" by (simp add: p_def config_body_def) (rule nonneg; simp)
  show "in_bounds (\<lambda>n. 0 \<le> n) (pc_coinsPerVote p)" by (simp add: p_def config_body_def) (rule nonneg; simp)
  show "in_bounds (\<lambda>n. 0 < n) (pc_giftCodeDenomination p)" by (simp add: p_def config_body_def) (rule positive; simp)
  show "in_bounds (\<lambda>n. 0 < n) (pc_proMultiplier p)" by (simp add: p_def config_body_def) (rule positive; simp)
  show "in_bounds (\<lambda>n. 0 < n) (pc_proMaxMultiplier p)" by (simp add: p_def config_body_def) (rule positive; simp)
  show "in_bounds (\<lambda>n. 0 \<le> n) (pc_kycThresholdAmount p)" by (simp add: p_def config_body_def) (rule nonneg; simp)
  show "in_bounds (\<lambda>n. 13 \<le> n \<and> n \<le> 99) (pc_ageMin p)" by (simp add: p_def config_body_def) (rule age; simp)
qed

lemma config_update_rows:
  assumes "\<forall>c \<in> set rows. P c" "\<And>c. P c \<Longrightarrow> P (patch_config p c)" "P default_config"
  shows "\<forall>c \<in> set (snd (config_update p rows)). P c"
proof -
  have "set (update_first q f xs) \<subseteq> set xs \<union> f ` set xs" for q f and xs :: "app_config list" by (induction xs) auto
  then have "\<forall>c \<in> set (update_first q (patch_config p) rows). P c" for q using assms(1,2) by blast
  then show ?thesis using assms by (auto simp: config_update_def upsert_doc_def findOneAndUpdate_def split: option.splits if_splits)
qed

lemma config_update_ok:
  assumes "zod H Z" "\<forall>c \<in> set rows. config_ok c"
  shows "\<forall>c \<in> set (snd (config_update_handler Z req rows)). config_ok c"
proof (cases "Z AdminAppConfigPatchBodySchema (hq_body req)")
  case (Some w)
  note b = config_body_bounds [OF assms(1) Some, THEN patched_bounds]
  have "config_ok (patch_config (config_body w) c)" if "config_ok c" for c
  proof -
    have f: "0 \<le> cfg_baseRatePerVote c" "0 \<le> cfg_signupBonusCoins c" "0 \<le> cfg_coinsPerPost c" "0 \<le> cfg_coinsPerVote c"
      "0 < cfg_giftCodeDenomination c" "0 < cfg_proMultiplier c" "0 < cfg_proMaxMultiplier c" "0 \<le> cfg_kycThresholdAmount c"
      "13 \<le> cfg_ageMin c \<and> cfg_ageMin c \<le> 99"
      using that by (simp_all add: config_ok_def)
    show ?thesis
      using b(1) [OF f(1)] b(2) [OF f(2)] b(3) [OF f(3)] b(4) [OF f(4)] b(5) [OF f(5)] b(6) [OF f(6)] b(7) [OF f(7)] b(8) [OF f(8)] b(9) [OF f(9)]
      by (simp add: config_ok_def patch_config_def)
  qed
  moreover have "config_ok default_config" by (simp add: config_ok_def default_config_def)
  ultimately have "\<forall>c \<in> set (snd (config_update (config_body w) rows)). config_ok c"
    using config_update_rows [where P = config_ok and p = "config_body w", OF assms(2)] by blast
  then show ?thesis by (simp add: config_update_handler_def Some parsed_def case_prod_beta)
qed (use assms(2) in \<open>simp add: config_update_handler_def parsed_def\<close>)

text \<open>C35: 
  Whatever admins send to the configuration, every setting stays in its range: no negative rate,
  price or threshold, an age between 13 and 99, and multipliers that never shrink a prize.
\<close>

theorem config_stays_in_range:
  assumes "zod H Z" "\<forall>c \<in> set rows. config_ok c"
    and "rows' = fold (\<lambda>req rows. snd (config_update_handler Z req rows)) reqs rows" "c \<in> set rows'"
  shows "config_ok c \<and> 1 \<le> tier_multiplier t (cfg_proMultiplier c) (cfg_proMaxMultiplier c)"
proof -
  have "\<forall>c \<in> set (fold (\<lambda>req rows. snd (config_update_handler Z req rows)) reqs rows). config_ok c"
    using assms(2)
  proof (induction reqs arbitrary: rows)
    case (Cons req reqs)
    show ?case using Cons.IH [OF config_update_ok [OF assms(1) Cons.prems]] by simp
  qed simp
  then have "config_ok c" using assms(3,4) by blast
  then show ?thesis by (cases t) (simp_all add: tier_multiplier_def config_ok_def)
qed

theorem config_stays_in_range_witness:
  "map cfg_proMultiplier (snd (config_update_handler (zod_ref sample_host)
     (sample_http\<lparr>hq_body := Z_Object [(''proMultiplier'', Z_Number 7)]\<rparr>) [default_config])) = [7] \<and>
   config_ok (hd (snd (config_update_handler (zod_ref sample_host)
     (sample_http\<lparr>hq_body := Z_Object [(''proMultiplier'', Z_Number 7)]\<rparr>) [default_config])))"
proof -
  let ?q = "sample_http\<lparr>hq_body := Z_Object [(''proMultiplier'', Z_Number 7)]\<rparr>"
  let ?rows = "snd (config_update_handler (zod_ref sample_host) ?q [default_config])"
  have m: "map cfg_proMultiplier ?rows = [7]" by code_simp
  then have h: "hd ?rows \<in> set ?rows" by (cases ?rows) simp_all
  have d: "\<forall>c \<in> set [default_config]. config_ok c" by (simp add: config_ok_def default_config_def)
  have f: "?rows = fold (\<lambda>req rows. snd (config_update_handler (zod_ref sample_host) req rows)) [?q] [default_config]" by simp
  show ?thesis using config_stays_in_range [OF zod_ref.zod_axioms d f h, of PRO] m by blast
qed

text \<open>Changing the configuration under an operation on the whole state.\<close>

definition reconfigure :: "app_config list \<Rightarrow> db \<Rightarrow> db" where
  "reconfigure cs s = s\<lparr>app_configs := cs\<rparr>"

definition blind :: "(db \<Rightarrow> 'a \<times> db) \<Rightarrow> bool" where
  "blind f \<longleftrightarrow> (\<forall>cs s. f (reconfigure cs s) = map_prod id (reconfigure cs) (f s))"

lemma reconfigure_fields [simp]:
  "users (reconfigure cs s) = users s" "coin_txs (reconfigure cs s) = coin_txs s" "votes (reconfigure cs s) = votes s"
  "post_completions (reconfigure cs s) = post_completions s" "posts (reconfigure cs s) = posts s" "coin_events (reconfigure cs s) = coin_events s"
  by (simp_all add: reconfigure_def)

lemma reconfigure_updates:
  "(reconfigure cs s)\<lparr>users := a\<rparr> = reconfigure cs (s\<lparr>users := a\<rparr>)" "(reconfigure cs s)\<lparr>coin_txs := b\<rparr> = reconfigure cs (s\<lparr>coin_txs := b\<rparr>)"
  "(reconfigure cs s)\<lparr>votes := c\<rparr> = reconfigure cs (s\<lparr>votes := c\<rparr>)" "(reconfigure cs s)\<lparr>coin_events := d\<rparr> = reconfigure cs (s\<lparr>coin_events := d\<rparr>)"
  "(reconfigure cs s)\<lparr>post_completions := e\<rparr> = reconfigure cs (s\<lparr>post_completions := e\<rparr>)"
  by (simp_all add: reconfigure_def)

lemma vote_blind: "blind (castVote dj inp now voteId txId)"
proof -
  have c: "castVote_check inp now (reconfigure cs s) = castVote_check inp now s" for cs s by (simp add: castVote_check_def)
  have t: "castVote_tx inp dk now voteId txId (reconfigure cs s) = map_prod id (reconfigure cs) (castVote_tx inp dk now voteId txId s)" for dk cs s
    by (auto simp: castVote_tx_def transaction_def reconfigure_updates Let_def split: option.splits prod.splits)
  show ?thesis
    by (auto simp: blind_def castVote_def castVote_commit_def c t reconfigure_updates Let_def split: sum.splits prod.splits)
qed

lemma completion_blind: "blind (completePost inp now cid txId)"
proof -
  have c: "completePost_check inp now (reconfigure cs s) = completePost_check inp now s" for cs s by (simp add: completePost_check_def)
  have t: "completePost_tx inp dk rew now cid txId (reconfigure cs s) = map_prod id (reconfigure cs) (completePost_tx inp dk rew now cid txId s)" for dk rew cs s
    by (auto simp: completePost_tx_def transaction_def reconfigure_updates Let_def split: option.splits prod.splits)
  show ?thesis
    by (auto simp: blind_def completePost_def completePost_commit_def c t reconfigure_updates Let_def split: sum.splits prod.splits)
qed

lemma signup_blind:
  "blind (\<lambda>s. case verifySignupOtp dj J R sha nodeEnv inp dr now (st\<lparr>au_db := s\<rparr>) of (answer, st') \<Rightarrow> ((answer, st'\<lparr>au_db := empty_db\<rparr>), au_db st'))"
proof -
  have d: "enforceDeviceNotBlocked fp (st\<lparr>au_db := reconfigure cs s\<rparr>) = enforceDeviceNotBlocked fp (st\<lparr>au_db := s\<rparr>)" for fp cs s
    by (simp add: enforceDeviceNotBlocked_def split: option.split)
  show ?thesis
    unfolding blind_def
    by (auto simp: verifySignupOtp_def d signup_otp_def doSignup_def reconfigure_updates Let_def split: option.splits sum.splits prod.splits)
qed

text \<open>
  Voting, completing a post and signing up do not depend on the configuration: whatever the price of a
  vote, the reward of a post, the bonus, the minimum age, the blocked states, the voting hours and the maintenance mode
  are set to, the answers and effects are the same.
\<close>

theorem settings_ignored:
  "blind (castVote dj inp now voteId txId) \<and> blind (completePost cinp now cid txId) \<and>
   blind (\<lambda>s. case verifySignupOtp dj J R sha nodeEnv sinp dr now (st\<lparr>au_db := s\<rparr>) of
     (answer, st') \<Rightarrow> ((answer, st'\<lparr>au_db := empty_db\<rparr>), au_db st'))"
  using vote_blind completion_blind signup_blind by blast

end
