(* ===== verification/Encryption.thy ===== *)
theory Encryption
  imports Models Paging App_Errors
begin

text \<open>
  Envelope encryption of fields (src/shared/encryption): the encryptor that wraps its data keys
  with the key management service and caches them, and the one for development that wraps
  them with a key of the process. A field of the collections is an \<open>enc_field\<close>.

  AES-256-GCM, the service, the least-recently-used cache and the JSON of a wrapped key are
  parameters; bytes are characters. A thrown error is \<open>None\<close>.
\<close>

section \<open>Base64\<close>

text \<open>\<open>toString('base64')\<close>: the other two characters of the alphabet, and padding.\<close>

definition to_base64 :: "string \<Rightarrow> string" where
  "to_base64 s =
     map (\<lambda>c. if c = CHR ''-'' then CHR ''+'' else if c = CHR ''_'' then CHR ''/'' else c) (to_base64url s)
     @ replicate ((3 - length s mod 3) mod 3) (CHR ''='')"

lemma b64_value_other_alphabet:
  "b64_value (if c = CHR ''-'' then CHR ''+'' else if c = CHR ''_'' then CHR ''/'' else c) = b64_value c"
  by (simp add: b64_value_def)

lemma base64_roundtrip [simp]: "of_base64url (to_base64 s) = s"
proof -
  have swap: "List.map_filter b64_value (map (\<lambda>c. if c = CHR ''-'' then CHR ''+'' else if c = CHR ''_'' then CHR ''/'' else c) t) = List.map_filter b64_value t" for t
    by (induction t) (simp_all add: List.map_filter_simps b64_value_other_alphabet del: if_split split: option.split)
  have pad: "List.map_filter b64_value (replicate n (CHR ''='')) = []" for n
    by (induction n) (simp_all add: List.map_filter_simps b64_value_def)
  have append: "List.map_filter b64_value (xs @ ys) = List.map_filter b64_value xs @ List.map_filter b64_value ys" for xs ys
    by (simp add: List.map_filter_def)
  have "of_base64url (to_base64 s) = of_base64url (to_base64url s)"
    unfolding of_base64url_def to_base64_def append swap pad by simp
  then show ?thesis by simp
qed

lemma to_base64_inj: "to_base64 s = to_base64 t \<longleftrightarrow> s = t"
  by (metis base64_roundtrip)

section \<open>Parameters\<close>

text \<open>\<open>createCipheriv\<close> and \<open>createDecipheriv\<close> with aes-256-gcm: ciphertext and tag, and back.\<close>

record gcm =
  gcm_seal :: "string \<Rightarrow> string \<Rightarrow> string \<Rightarrow> string \<times> string"
  gcm_open :: "string \<Rightarrow> string \<Rightarrow> string \<Rightarrow> string \<Rightarrow> string option"

text \<open>The answers of \<open>GenerateDataKey\<close> (plaintext and blob, each possibly missing) and \<open>Decrypt\<close>.\<close>

record kms =
  kms_generate :: "nat \<Rightarrow> string option \<times> string option"
  kms_decrypt :: "string \<Rightarrow> string option"

record 'c lru =
  lru_get :: "date \<Rightarrow> string \<Rightarrow> 'c \<Rightarrow> string option \<times> 'c"
  lru_set :: "date \<Rightarrow> string \<Rightarrow> string \<Rightarrow> 'c \<Rightarrow> 'c"

record wrapped_dek =
  wd_wrappedDek :: string
  wd_dekIv :: string
  wd_dekTag :: string

text \<open>\<open>JSON.stringify\<close> of a wrapped key, and \<open>JSON.parse\<close> followed by the check of its shape.\<close>

record dek_json =
  dk_stringify :: "wrapped_dek \<Rightarrow> string"
  dk_parse :: "string \<Rightarrow> wrapped_dek option"

section \<open>The service's encryptor\<close>

definition kms_encryptField :: "gcm \<Rightarrow> kms \<Rightarrow> nat \<Rightarrow> string \<Rightarrow> string \<Rightarrow> enc_field option" where
  "kms_encryptField G K n iv plaintext =
     (case kms_generate K n of
        (Some dek, Some blob) \<Rightarrow>
          (let (ct, tag) = gcm_seal G dek iv plaintext
           in Some \<lparr>ef_ct = to_base64 ct, ef_iv = to_base64 iv, ef_tag = to_base64 tag, ef_dekEnc = to_base64 blob\<rparr>)
      | _ \<Rightarrow> None)"

text \<open>A cache hit is used when it is not empty (\<open>if (!dek)\<close> holds for no buffer).\<close>

definition kms_decryptField :: "gcm \<Rightarrow> kms \<Rightarrow> 'c lru \<Rightarrow> date \<Rightarrow> enc_field \<Rightarrow> 'c \<Rightarrow> string option \<times> 'c" where
  "kms_decryptField G K L now field c =
     (let open_with = (\<lambda>dek. gcm_open G dek (of_base64url (ef_iv field)) (of_base64url (ef_tag field)) (of_base64url (ef_ct field)));
          (hit, c1) = lru_get L now (ef_dekEnc field) c
      in case hit of
           Some dek \<Rightarrow> (open_with dek, c1)
         | None \<Rightarrow>
             (case kms_decrypt K (of_base64url (ef_dekEnc field)) of
                None \<Rightarrow> (None, c1)
              | Some dek \<Rightarrow> (open_with dek, lru_set L now (ef_dekEnc field) dek c1)))"

section \<open>The encryptor of a process\<close>

definition mem_encryptField :: "gcm \<Rightarrow> dek_json \<Rightarrow> string \<Rightarrow> string \<Rightarrow> string \<Rightarrow> string \<Rightarrow> string \<Rightarrow> enc_field" where
  "mem_encryptField G J masterKey dek iv dekIv plaintext =
     (let (ct, tag) = gcm_seal G dek iv plaintext;
          (wrappedDek, dekTag) = gcm_seal G masterKey dekIv dek;
          payload = \<lparr>wd_wrappedDek = to_base64 wrappedDek, wd_dekIv = to_base64 dekIv, wd_dekTag = to_base64 dekTag\<rparr>
      in \<lparr>ef_ct = to_base64 ct, ef_iv = to_base64 iv, ef_tag = to_base64 tag, ef_dekEnc = to_base64 (dk_stringify J payload)\<rparr>)"

definition mem_decryptField :: "gcm \<Rightarrow> dek_json \<Rightarrow> string \<Rightarrow> enc_field \<Rightarrow> string option" where
  "mem_decryptField G J masterKey field =
     (case dk_parse J (of_base64url (ef_dekEnc field)) of
        None \<Rightarrow> None
      | Some parsed \<Rightarrow>
          (case gcm_open G masterKey (of_base64url (wd_dekIv parsed)) (of_base64url (wd_dekTag parsed)) (of_base64url (wd_wrappedDek parsed)) of
             None \<Rightarrow> None
           | Some dek \<Rightarrow> gcm_open G dek (of_base64url (ef_iv field)) (of_base64url (ef_tag field)) (of_base64url (ef_ct field))))"

section \<open>What is relied on\<close>

locale gcm_laws =
  fixes G :: gcm
  assumes open_seal: "gcm_seal G k iv p = (ct, tag) \<Longrightarrow> gcm_open G k iv tag ct = Some p"
    and one_tag: "gcm_open G k iv tag ct = Some p \<Longrightarrow> gcm_open G k iv tag' ct = Some p' \<Longrightarrow> tag' = tag"

locale kms_laws =
  fixes K :: kms
  assumes unwrap: "kms_generate K n = (Some dek, Some blob) \<Longrightarrow> kms_decrypt K blob = Some dek"

text \<open>A cache gives back what was stored under the key or nothing; it may forget at any time.\<close>

locale lru_laws =
  fixes L :: "'c lru" and holds :: "'c \<Rightarrow> (string \<times> string) set"
  assumes hit: "lru_get L now k c = (Some v, c') \<Longrightarrow> (k, v) \<in> holds c"
    and get_holds: "lru_get L now k c = (r, c') \<Longrightarrow> holds c' \<subseteq> holds c"
    and set_holds: "holds (lru_set L now k v c) \<subseteq> insert (k, v) (holds c)"

locale dek_json_laws =
  fixes J :: dek_json
  assumes parse_stringify: "dk_parse J (dk_stringify J w) = Some w"

text \<open>Every key in the cache is the one the service unwraps for its entry.\<close>

definition cache_ok :: "kms \<Rightarrow> (string \<times> string) set \<Rightarrow> bool" where
  "cache_ok K entries \<longleftrightarrow> (\<forall>(k, v) \<in> entries. kms_decrypt K (of_base64url k) = Some v)"

section \<open>Fields come back\<close>

text \<open>Decryption without a cache.\<close>

definition uncached_decryptField :: "gcm \<Rightarrow> kms \<Rightarrow> enc_field \<Rightarrow> string option" where
  "uncached_decryptField G K field =
     (case kms_decrypt K (of_base64url (ef_dekEnc field)) of
        None \<Rightarrow> None
      | Some dek \<Rightarrow> gcm_open G dek (of_base64url (ef_iv field)) (of_base64url (ef_tag field)) (of_base64url (ef_ct field)))"

context lru_laws
begin

lemma decrypt_uncached:
  assumes "cache_ok K (holds c)" "kms_decryptField G K L now f c = (r, c')"
  shows "r = uncached_decryptField G K f \<and> cache_ok K (holds c')"
proof -
  obtain h c1 where g: "lru_get L now (ef_dekEnc f) c = (h, c1)" by fastforce
  have ok: "cache_ok K (holds c1)" using assms(1) get_holds [OF g] by (auto simp: cache_ok_def)
  show ?thesis
  proof (cases h)
    case None
    show ?thesis
    proof (cases "kms_decrypt K (of_base64url (ef_dekEnc f))")
      case (Some dek)
      have "cache_ok K (holds (lru_set L now (ef_dekEnc f) dek c1))"
        using ok set_holds [of now "ef_dekEnc f" dek c1] Some by (auto simp: cache_ok_def)
      then show ?thesis using assms(2) g None Some by (auto simp: kms_decryptField_def uncached_decryptField_def Let_def)
    qed (use assms(2) g None ok in \<open>auto simp: kms_decryptField_def uncached_decryptField_def Let_def\<close>)
  next
    case (Some dek)
    then have "kms_decrypt K (of_base64url (ef_dekEnc f)) = Some dek"
      using hit [of now _ c dek c1] g assms(1) by (auto simp: cache_ok_def)
    then show ?thesis using assms(2) g Some ok by (simp add: kms_decryptField_def uncached_decryptField_def Let_def)
  qed
qed

end

text \<open>Instances with these laws.\<close>

definition plain_gcm :: gcm where
  "plain_gcm = \<lparr>gcm_seal = (\<lambda>k iv p. (p, k @ iv @ p)), gcm_open = (\<lambda>k iv tag ct. if tag = k @ iv @ ct then Some ct else None)\<rparr>"

interpretation plain: gcm_laws plain_gcm
  by unfold_locales (auto simp: plain_gcm_def split: if_splits)

definition plain_kms :: kms where
  "plain_kms = \<lparr>kms_generate = (\<lambda>n. (Some (js_String (int n)), Some (js_String (int n)))), kms_decrypt = Some\<rparr>"

interpretation plain_kms: kms_laws plain_kms
  by unfold_locales (simp add: plain_kms_def)

definition list_lru :: "(string \<times> string) list lru" where
  "list_lru = \<lparr>lru_get = (\<lambda>now k c. (map_of c k, c)), lru_set = (\<lambda>now k v c. take 1000 ((k, v) # c))\<rparr>"

interpretation list_lru: lru_laws list_lru set
  by unfold_locales (auto simp: list_lru_def dest: map_of_SomeD in_set_takeD)

definition dotted_json :: dek_json where
  "dotted_json =
     \<lparr>dk_stringify = (\<lambda>w. to_base64url (wd_wrappedDek w) @ CHR ''.'' # to_base64url (wd_dekIv w) @ CHR ''.'' # to_base64url (wd_dekTag w)),
      dk_parse = (\<lambda>s. case split_on (CHR ''.'') s of
         [a, b, c] \<Rightarrow> Some \<lparr>wd_wrappedDek = of_base64url a, wd_dekIv = of_base64url b, wd_dekTag = of_base64url c\<rparr> | _ \<Rightarrow> None)\<rparr>"

lemma base64url_chars: "CHR ''.'' \<notin> set (to_base64url s)"
proof
  assume "CHR ''.'' \<in> set (to_base64url s)"
  then obtain n where "n \<in> set (sextets (map of_char s))" "CHR ''.'' = b64_char n" by (auto simp: to_base64url_def)
  moreover have "\<forall>n \<in> set (sextets (map (of_char :: char \<Rightarrow> nat) s)). n < 64" by (rule sextets_small) simp
  ultimately have "b64_value (CHR ''.'') = Some n" using b64_value_char by auto
  then show False by (simp add: b64_value_def)
qed

interpretation dotted: dek_json_laws dotted_json
  by unfold_locales (simp add: dotted_json_def split_on_first split_on_none base64url_chars)



text \<open>
  What the encryptor of a process wrote, it reads. Another process, with another key, reads it
  only if that key opens the wrapped one; otherwise every field written before a restart is lost.
\<close>

theorem mem_field_roundtrip:
  assumes "gcm_laws G" "dek_json_laws J"
  shows "mem_decryptField G J masterKey (mem_encryptField G J masterKey dek iv dekIv plaintext) = Some plaintext \<and>
    ((case gcm_seal G masterKey dekIv dek of (wrapped, tag) \<Rightarrow> gcm_open G other dekIv tag wrapped = None) \<longrightarrow>
     mem_decryptField G J other (mem_encryptField G J masterKey dek iv dekIv plaintext) = None)"
proof -
  obtain ct tag where seal: "gcm_seal G dek iv plaintext = (ct, tag)" by fastforce
  obtain wrapped dtag where wrap: "gcm_seal G masterKey dekIv dek = (wrapped, dtag)" by fastforce
  note o = gcm_laws.open_seal [OF assms(1) seal] gcm_laws.open_seal [OF assms(1) wrap]
  show ?thesis
    using o by (simp add: mem_encryptField_def mem_decryptField_def seal wrap dek_json_laws.parse_stringify [OF assms(2)])
qed

theorem mem_field_roundtrip_witness:
  "mem_decryptField plain_gcm dotted_json ''k'' (mem_encryptField plain_gcm dotted_json ''k'' ''d'' ''i'' ''j'' ''secret'') = Some ''secret'' \<and>
   mem_decryptField plain_gcm dotted_json ''other'' (mem_encryptField plain_gcm dotted_json ''k'' ''d'' ''i'' ''j'' ''secret'') = None"
  using mem_field_roundtrip [OF plain.gcm_laws_axioms dotted.dek_json_laws_axioms, of "''k''" "''d''" "''i''" "''j''" "''secret''" "''other''"]
  by (simp add: plain_gcm_def)

end
