(* ===== verification/Spec2Isabelle.thy ===== *)
theory Spec2Isabelle
  imports Admin_Handlers Controllers Market Dead_Letters Custom_Rooms Otp Admin_Access Migrations Audit_Trail Views Content Encryption Routes
begin

text \<open>
  Verification of the CashFB backend.
\<close>

section \<open>Properties that span components\<close>

text \<open>C1: 
  However votes, completions, adjustments, blocks, sign-ups, sign-ins, erasures, claims,
  webhooks and jobs follow each other, the books balance: user ids are distinct, every balance is
  the sum of the ledger rows of its user, nobody has two votes or completions where one is
  allowed; and no balance is negative unless an admin took coins away.
\<close>

theorem books_always_balance:
  assumes "(market_step J env debits)\<^sup>*\<^sup>* st st'" "books_ok (au_db st)"
  shows "books_ok (au_db st') \<and> (\<not> debits \<longrightarrow> solvent (users (au_db st)) \<longrightarrow> solvent (users (au_db st')))"
  using assms by (induction rule: rtranclp_induct) (auto dest: step_books)

theorem books_always_balance_witness:
  "books_ok (snd (castVote_commit sample_ballot ''2000-01-01'' 946684800000 20 21 (au_db sample_market))) \<and>
   map u_coinBalance (users (snd (castVote_commit sample_ballot ''2000-01-01'' 946684800000 20 21 (au_db sample_market)))) = [0]"
proof -
  have "map u_coinBalance (users (snd (castVote_commit sample_ballot ''2000-01-01'' 946684800000 20 21 (au_db sample_market)))) = [0]" by code_simp
  then show ?thesis using books_always_balance [OF sample_market_run sample_market_starts(1)] by simp
qed

text \<open>C3: 
  Over the same runs the votes are in one-to-one and order-preserving correspondence with the
  debits of the ledger, and the completions with its rewards: same user, same reference, same
  amount. So no post is ever paid twice to one user.
\<close>

theorem every_coin_accounted:
  assumes "(market_step J env debits)\<^sup>*\<^sup>* st st'" "books_ok (au_db st)" "receipts_ok (au_db st)"
  shows "receipts_ok (au_db st') \<and>
    distinct (map (\<lambda>t. (ct_userId t, ct_reference t)) (filter (\<lambda>t. ct_type t = POST_REWARD) (coin_txs (au_db st'))))"
proof -
  have inv: "books_ok (au_db st') \<and> receipts_ok (au_db st')"
    using assms by (induction rule: rtranclp_induct) (auto dest: step_books step_receipts)
  let ?key = "\<lambda>c. (pc_userId c, Some (Ref_Post, Some (pc_postId c)))"
  have k: "keys_of completion_key cs = map (\<lambda>c. (pc_userId c, pc_postId c)) cs" for cs
    by (induction cs) (simp_all add: keys_of_def completion_key_def List.map_filter_simps)
  have "distinct (map (\<lambda>c. (pc_userId c, pc_postId c)) (post_completions (au_db st')))"
    using inv by (simp add: books_ok_def unique_on_def k)
  then have "distinct (map ?key (post_completions (au_db st')))"
    by (simp add: distinct_map inj_on_def)
  moreover have "map ?key (post_completions (au_db st')) =
      map (\<lambda>t. (ct_userId t, ct_reference t)) (filter (\<lambda>t. ct_type t = POST_REWARD) (coin_txs (au_db st')))"
  proof -
    have "map ((\<lambda>(u, r, _). (u, r)) \<circ> (\<lambda>c. (pc_userId c, Some (Ref_Post, Some (pc_postId c)), pc_coinAwarded c))) (post_completions (au_db st')) =
        map ((\<lambda>(u, r, _). (u, r)) \<circ> (\<lambda>t. (ct_userId t, ct_reference t, Some (ct_amount t)))) (filter (\<lambda>t. ct_type t = POST_REWARD) (coin_txs (au_db st')))"
      using inv unfolding receipts_ok_def map_map [symmetric] by metis
    then show ?thesis by (simp add: comp_def)
  qed
  ultimately show ?thesis using inv by simp
qed

theorem every_coin_accounted_witness:
  "receipts_ok (snd (castVote_commit sample_ballot ''2000-01-01'' 946684800000 20 21 (au_db sample_market))) \<and>
   length (votes (snd (castVote_commit sample_ballot ''2000-01-01'' 946684800000 20 21 (au_db sample_market)))) = 1"
proof -
  have "length (votes (snd (castVote_commit sample_ballot ''2000-01-01'' 946684800000 20 21 (au_db sample_market)))) = 1" by code_simp
  then show ?thesis using every_coin_accounted [OF sample_market_run sample_market_starts(1,2)] by simp
qed

text \<open>C2: 
  Every step of the program is, seen from the balances, a step of a bank: nothing happens, an
  account is opened with three coins, the price of a vote is taken from an account that has it, or an
  amount is added, which is negative only when admins may debit.
\<close>

theorem market_refines_bank:
  assumes "market_step J env debits st st'" "books_ok (au_db st)"
  shows "bank_step debits (bank (au_db st)) (bank (au_db st'))"
proof -
  have d: "distinct (map u_id (users (au_db st)))" using assms(2) by (simp add: books_ok_def coin_inv_def)
  show ?thesis
    using assms(1)
    by (cases rule: market_step.cases)
      (simp_all add: neutral_steps [THEN bank_same] bank_step.stay bank_vote [OF d] bank_complete [OF d] bank_adjust [OF d] bank_signup)
qed

theorem market_refines_bank_witness:
  "bank_step False (bank (au_db (sample_auth [] []))) (bank (au_db sample_market)) \<and> bank (au_db sample_market) 7 = Some 3"
proof -
  have "bank (au_db sample_market) 7 = Some 3" by code_simp
  then show ?thesis using market_refines_bank [OF sample_market_opens sample_market_starts(1)] by simp
qed

end
